(* ===== verification/Prelude.thy ===== *)
theory Prelude
  imports Main "HOL-Library.Word" "HOL-Library.AList" "HOL-Library.Monad_Syntax"
begin

text \<open>
  Shared vocabulary of the development: the machine types of the Go code, byte buffers with
  Go's bounds-checked slicing, big-endian accessors of \<^verbatim>\<open>encoding/binary\<close>, the codec
  contracts (a locale for whole values, a locale for streams), and generic lemmas on
  association lists that stand for Go maps whose iteration order is observable.
\<close>

unbundle bit_operations_syntax

type_synonym byte = "8 word"
type_synonym u16 = "16 word"
type_synonym u32 = "32 word"
type_synonym u64 = "64 word"

named_theorems buffer_simps
  \<open>reading and writing fields of byte buffers\<close>
named_theorems assoc_simps
  \<open>lookups in association lists after updates and deletions\<close>

section \<open>Slices\<close>

text \<open>
  A Go slice expression \<^verbatim>\<open>buf[a:b]\<close> panics unless \<open>a \<le> b \<le> len buf\<close> (every buffer of the
  modelled code has its capacity equal to its length or is only sliced below its length).
  A panic is \<^term>\<open>None\<close>, so "this function never panics" is a statement of the model.
\<close>

definition go_slice :: "'a list \<Rightarrow> nat \<Rightarrow> nat \<Rightarrow> 'a list option" where
  "go_slice xs a b =
     (if a \<le> b \<and> b \<le> length xs then Some (take (b - a) (drop a xs)) else None)"

definition go_index :: "'a list \<Rightarrow> nat \<Rightarrow> 'a option" where
  "go_index xs i = (if i < length xs then Some (xs ! i) else None)"

text \<open>\<^verbatim>\<open>copy(buf[a:], ys)\<close> where \<open>ys\<close> fits: overwrite a region in place.\<close>

definition splice :: "'a list \<Rightarrow> nat \<Rightarrow> 'a list \<Rightarrow> 'a list" where
  "splice xs a ys = take a xs @ ys @ drop (a + length ys) xs"

definition go_write :: "'a list \<Rightarrow> nat \<Rightarrow> 'a list \<Rightarrow> 'a list option" where
  "go_write xs a ys =
     (if a + length ys \<le> length xs then Some (splice xs a ys) else None)"

lemma go_slice_Some [buffer_simps]:
  "a \<le> b \<Longrightarrow> b \<le> length xs \<Longrightarrow> go_slice xs a b = Some (take (b - a) (drop a xs))"
  by (simp add: go_slice_def)

lemma go_index_Some [buffer_simps]: "i < length xs \<Longrightarrow> go_index xs i = Some (xs ! i)"
  by (simp add: go_index_def)

lemma go_write_Some [buffer_simps]:
  "a + length ys \<le> length xs \<Longrightarrow> go_write xs a ys = Some (splice xs a ys)"
  by (simp add: go_write_def)

lemma length_splice [simp]:
  "a + length ys \<le> length xs \<Longrightarrow> length (splice xs a ys) = length xs"
  by (simp add: splice_def)

lemma nth_splice:
  assumes "a + length ys \<le> length xs" and "i < length xs"
  shows "splice xs a ys ! i = (if a \<le> i \<and> i < a + length ys then ys ! (i - a) else xs ! i)"
  using assms by (auto simp: splice_def nth_append min_def)

lemma take_drop_eq_map_nth:
  "a + n \<le> length xs \<Longrightarrow> take n (drop a xs) = map (\<lambda>i. xs ! (a + i)) [0..<n]"
  by (rule nth_equalityI) auto

lemma take_drop_splice_same [simp]:
  "a + length ys \<le> length xs \<Longrightarrow> n = length ys \<Longrightarrow> take n (drop a (splice xs a ys)) = ys"
  by (simp add: splice_def)

lemma take_drop_splice_disjoint:
  assumes "a + length ys \<le> length xs" and "b + n \<le> length xs"
    and "b + n \<le> a \<or> a + length ys \<le> b"
  shows "take n (drop b (splice xs a ys)) = take n (drop b xs)"
  using assms by (auto simp: take_drop_eq_map_nth nth_splice)

section \<open>Big-endian integers\<close>

text \<open>\<^verbatim>\<open>binary.BigEndian.Uint16/Uint32\<close> and \<^verbatim>\<open>PutUint16/PutUint32\<close>.\<close>

definition be16 :: "byte list \<Rightarrow> u16" where
  "be16 bs = push_bit 8 (ucast (bs ! 0)) OR ucast (bs ! 1)"

definition put_be16 :: "u16 \<Rightarrow> byte list" where
  "put_be16 v = [ucast (drop_bit 8 v), ucast v]"

definition be32 :: "byte list \<Rightarrow> u32" where
  "be32 bs = push_bit 24 (ucast (bs ! 0)) OR push_bit 16 (ucast (bs ! 1))
     OR push_bit 8 (ucast (bs ! 2)) OR ucast (bs ! 3)"

definition put_be32 :: "u32 \<Rightarrow> byte list" where
  "put_be32 v = [ucast (drop_bit 24 v), ucast (drop_bit 16 v), ucast (drop_bit 8 v), ucast v]"

lemma length_put_be16 [simp]: "length (put_be16 v) = 2"
  by (simp add: put_be16_def)

lemma length_put_be32 [simp]: "length (put_be32 v) = 4"
  by (simp add: put_be32_def)

lemma be16_put [simp]: "be16 (put_be16 v) = v"
  by (rule bit_word_eqI) (auto simp: be16_def put_be16_def bit_simps)

lemma be32_put [simp]: "be32 (put_be32 v) = v"
proof (rule bit_word_eqI)
  fix n assume n: "n < LENGTH(32)"
  consider "n < 8" | "8 \<le> n" "n < 16" | "16 \<le> n" "n < 24" | "24 \<le> n" by linarith
  then show "bit (be32 (put_be32 v)) n = bit v n"
    using n by cases (auto simp: be32_def put_be32_def bit_simps)
qed

lemma byte_bit_beyond [simp]: "8 \<le> n \<Longrightarrow> \<not> bit (b :: byte) n"
  using bit_imp_le_length [of b n] by auto

lemma put_be16_be16: "put_be16 (be16 [a, b]) = [a, b]"
  unfolding be16_def put_be16_def
  by (simp, safe; rule bit_word_eqI; auto simp: bit_simps)

lemma put_be32_be32: "put_be32 (be32 [a, b, c, d]) = [a, b, c, d]"
  unfolding be32_def put_be32_def
  by (simp, safe; rule bit_word_eqI; auto simp: bit_simps)

lemma length_2_list: "length xs = 2 \<Longrightarrow> \<exists>a b. xs = [a, b]"
  by (auto simp: numeral_2_eq_2 length_Suc_conv)

lemma length_4_list: "length xs = 4 \<Longrightarrow> \<exists>a b c d. xs = [a, b, c, d]"
  by (auto simp: eval_nat_numeral length_Suc_conv)

lemma put_be32_of_be32: "length bs = 4 \<Longrightarrow> put_be32 (be32 bs) = bs"
  using length_4_list [of bs] put_be32_be32 by auto

lemma put_be16_of_be16: "length bs = 2 \<Longrightarrow> put_be16 (be16 bs) = bs"
  using length_2_list [of bs] put_be16_be16 by auto

lemma put_be32_inject [simp]: "put_be32 v = put_be32 w \<longleftrightarrow> v = w"
  by (metis be32_put)

lemma put_be16_inject [simp]: "put_be16 v = put_be16 w \<longleftrightarrow> v = w"
  by (metis be16_put)

lemma unat_byte_less [simp]: "unat (b :: byte) < 256"
  using unsigned_less [of b] by simp

lemma unat_u16_less: "unat (p :: u16) < 65536"
  using unsigned_less [of p] by simp

lemma unat_u32_less: "unat (p :: u32) < 4294967296"
  using unsigned_less [of p] by simp

section \<open>Codec contracts\<close>

text \<open>
  What a client of an encoder and a decoder relies on: decoding an encoded valid value gives
  the value back. Every textual or binary format of the code that has both directions is an
  instance, in the theory that defines it.
\<close>

fun traverse :: "('a \<Rightarrow> 'b option) \<Rightarrow> 'a list \<Rightarrow> 'b list option" where
  "traverse f [] = Some []"
| "traverse f (x # xs) =
     (case f x of None \<Rightarrow> None
      | Some y \<Rightarrow> (case traverse f xs of None \<Rightarrow> None | Some ys \<Rightarrow> Some (y # ys)))"

lemma traverse_map_Some: "(\<And>x. x \<in> set xs \<Longrightarrow> f (g x) = Some x) \<Longrightarrow> traverse f (map g xs) = Some xs"
  by (induction xs) auto

lemma traverse_length: "traverse f xs = Some ys \<Longrightarrow> length ys = length xs"
  by (induction xs arbitrary: ys) (auto split: option.splits)

locale codec =
  fixes enc :: "'a \<Rightarrow> 'b"
    and dec :: "'b \<Rightarrow> 'a option"
    and valid :: "'a \<Rightarrow> bool"
  assumes dec_enc: "valid x \<Longrightarrow> dec (enc x) = Some x"
begin

lemma enc_injective: "valid x \<Longrightarrow> valid y \<Longrightarrow> enc x = enc y \<Longrightarrow> x = y"
  by (metis dec_enc option.inject)

lemma dec_enc_list: "list_all valid xs \<Longrightarrow> traverse dec (map enc xs) = Some xs"
  by (rule traverse_map_Some) (auto simp: dec_enc list_all_iff)

end

text \<open>A reader that takes one item off the front of a stream and returns the rest.\<close>

fun read_items :: "('b list \<Rightarrow> ('a \<times> 'b list) option) \<Rightarrow> nat \<Rightarrow> 'b list \<Rightarrow> ('a list \<times> 'b list) option" where
  "read_items get 0 bs = Some ([], bs)"
| "read_items get (Suc n) bs =
     (case get bs of None \<Rightarrow> None
      | Some (x, bs1) \<Rightarrow>
          (case read_items get n bs1 of None \<Rightarrow> None | Some (xs, bs2) \<Rightarrow> Some (x # xs, bs2)))"

definition read_exactly :: "('b list \<Rightarrow> ('a \<times> 'b list) option) \<Rightarrow> 'b list \<Rightarrow> 'a option" where
  "read_exactly get bs = (case get bs of Some (x, []) \<Rightarrow> Some x | _ \<Rightarrow> None)"

locale stream_codec =
  fixes put :: "'a \<Rightarrow> 'b list"
    and get :: "'b list \<Rightarrow> ('a \<times> 'b list) option"
    and valid :: "'a \<Rightarrow> bool"
  assumes get_put: "valid x \<Longrightarrow> get (put x @ rest) = Some (x, rest)"
begin

lemma read_items_puts:
  "list_all valid xs \<Longrightarrow> read_items get (length xs) (concat (map put xs) @ rest) = Some (xs, rest)"
  by (induction xs) (auto simp: get_put)

lemma put_prefix_free: "valid x \<Longrightarrow> valid y \<Longrightarrow> put x @ r = put y @ s \<Longrightarrow> x = y \<and> r = s"
  by (metis Pair_inject get_put option.inject)

end

sublocale stream_codec \<subseteq> whole: codec put "read_exactly get" valid
  by unfold_locales (use get_put [where rest = "[]"] in \<open>simp add: read_exactly_def\<close>)

section \<open>Go maps as association lists\<close>

text \<open>
  A Go map that is iterated is a list of key/value pairs with distinct keys, in iteration
  order; \<^const>\<open>map_of\<close> is the lookup, \<^const>\<open>AList.update\<close> the assignment and
  \<^const>\<open>AList.delete\<close> the builtin \<^verbatim>\<open>delete\<close>. Theorems quantify over the list,
  hence over every iteration order.
\<close>

abbreviation keys_distinct :: "('k \<times> 'v) list \<Rightarrow> bool" where
  "keys_distinct m \<equiv> distinct (map fst m)"

lemma map_of_update [simp, assoc_simps]:
  "map_of (AList.update k v m) = (map_of m)(k \<mapsto> v)"
  by (rule update_conv')

lemma map_of_delete [simp, assoc_simps]: "map_of (AList.delete k m) = (map_of m)(k := None)"
  by (rule delete_conv')

lemma keys_distinct_update [simp]: "keys_distinct m \<Longrightarrow> keys_distinct (AList.update k v m)"
  by (rule distinct_update)

lemma keys_distinct_delete [simp]: "keys_distinct m \<Longrightarrow> keys_distinct (AList.delete k m)"
  by (rule distinct_delete)

lemma in_set_conv_map_of: "keys_distinct m \<Longrightarrow> (k, v) \<in> set m \<longleftrightarrow> map_of m k = Some v"
  by (metis map_of_SomeD map_of_is_SomeI)

lemma map_of_map_values:
  "map_of (map (\<lambda>(k, v). (k, f v)) m) k = map_option f (map_of m k)"
  by (induction m) auto

lemma map_fst_map_values [simp]: "map fst (map (\<lambda>(k, v). (k, f v)) m) = map fst m"
  by (induction m) auto

lemma map_of_perm:
  assumes "keys_distinct m" and "set m = set m'" and "keys_distinct m'"
  shows "map_of m = map_of m'"
  using assms by (metis map_of_inject_set)


text \<open>
  A Go map whose iteration order is never observed, because its keys are looked up or sorted
  first, is the association list with ascending keys: equal maps are equal lists.
\<close>

definition ascending :: "('k::linorder \<times> 'v) list \<Rightarrow> bool" where
  "ascending m \<longleftrightarrow> sorted_wrt (<) (map fst m)"

fun map_put :: "'k::linorder \<Rightarrow> 'v \<Rightarrow> ('k \<times> 'v) list \<Rightarrow> ('k \<times> 'v) list" where
  "map_put k v [] = [(k, v)]"
| "map_put k v ((k', v') # m) =
     (if k < k' then (k, v) # (k', v') # m
      else if k = k' then (k, v) # m
      else (k', v') # map_put k v m)"

lemma map_of_map_put [simp, assoc_simps]: "ascending m \<Longrightarrow> map_of (map_put k v m) = (map_of m)(k \<mapsto> v)"
  by (induction k v m rule: map_put.induct) (auto simp: ascending_def fun_upd_twist)

lemma fst_set_map_put: "fst ` set (map_put k v m) = insert k (fst ` set m)"
  by (induction k v m rule: map_put.induct) auto

lemma ascending_map_put [simp]: "ascending m \<Longrightarrow> ascending (map_put k v m)"
proof (induction k v m rule: map_put.induct)
  case (2 k v k' v' m)
  then show ?case
    using fst_set_map_put [of k v m] by (auto simp: ascending_def)
qed (simp add: ascending_def)

lemma ascending_Nil [simp]: "ascending []"
  by (simp add: ascending_def)

lemma ascending_distinct: "ascending m \<Longrightarrow> keys_distinct m"
  by (simp add: ascending_def strict_sorted_iff)

lemma map_put_last:
  "(\<forall>k' \<in> fst ` set m. k' < k) \<Longrightarrow> map_put k v m = m @ [(k, v)]"
  by (induction k v m rule: map_put.induct) auto

text \<open>Two canonical maps with the same lookups are the same list.\<close>

lemma ascending_eqI:
  assumes "ascending m" and "ascending m'" and "map_of m = map_of m'"
  shows "m = m'"
proof -
  have "set m = set m'"
    using assms ascending_distinct by (metis map_of_inject_set)
  then show ?thesis
    using assms(1,2) by (intro map_sorted_distinct_set_unique [where f = fst])
      (auto simp: ascending_def strict_sorted_iff distinct_map)
qed

end
