(* ===== verification/Go_Strings.thy ===== *)
theory Go_Strings
  imports Prelude "HOL-Library.Sublist"
begin

text \<open>
  The functions of Go's \<^verbatim>\<open>strings\<close>, \<^verbatim>\<open>strconv\<close>, \<^verbatim>\<open>unicode/utf8\<close> and
  \<^verbatim>\<open>encoding/hex\<close> packages that the code uses. A Go string is its bytes: a \<open>string\<close>
  here is the list of the bytes as 8-bit characters, so \<open>length\<close> is Go's \<^verbatim>\<open>len\<close>.
\<close>

section \<open>Bytes and characters\<close>

definition str_bytes :: "string \<Rightarrow> byte list" where
  "str_bytes s = map of_char s"

definition bytes_str :: "byte list \<Rightarrow> string" where
  "bytes_str bs = map (\<lambda>b. char_of (unat b)) bs"

lemma of_char_byte: "(of_char c :: byte) = of_nat (of_char c)"
  by (rule of_nat_of_char [symmetric])

lemma bytes_str_bytes [simp]: "bytes_str (str_bytes s) = s"
proof (unfold bytes_str_def str_bytes_def, induction s)
  case (Cons c s)
  have "char_of (unat (of_char c :: byte)) = c"
    by (subst of_char_byte) (simp only: unat_of_nat, simp add: take_bit_eq_mod)
  with Cons show ?case by simp
qed simp

lemma str_bytes_inject [simp]: "str_bytes s = str_bytes t \<longleftrightarrow> s = t"
  by (metis bytes_str_bytes)

lemma length_str_bytes [simp]: "length (str_bytes s) = length s"
  by (simp add: str_bytes_def)

section \<open>Trimming white space\<close>

text \<open>
  The UTF-8 encodings of the runes for which \<^verbatim>\<open>unicode.IsSpace\<close> holds. UTF-8 is
  self-synchronising, so a string starts (ends) with a space rune exactly when one of these
  byte sequences is a prefix (suffix) of it.
\<close>

definition space_runes :: "string list" where
  "space_runes =
     [[CHR 0x09], [CHR 0x0A], [CHR 0x0B], [CHR 0x0C], [CHR 0x0D], [CHR 0x20],
      [CHR 0xC2, CHR 0x85], [CHR 0xC2, CHR 0xA0], [CHR 0xE1, CHR 0x9A, CHR 0x80],
      [CHR 0xE2, CHR 0x80, CHR 0x80], [CHR 0xE2, CHR 0x80, CHR 0x81],
      [CHR 0xE2, CHR 0x80, CHR 0x82], [CHR 0xE2, CHR 0x80, CHR 0x83],
      [CHR 0xE2, CHR 0x80, CHR 0x84], [CHR 0xE2, CHR 0x80, CHR 0x85],
      [CHR 0xE2, CHR 0x80, CHR 0x86], [CHR 0xE2, CHR 0x80, CHR 0x87],
      [CHR 0xE2, CHR 0x80, CHR 0x88], [CHR 0xE2, CHR 0x80, CHR 0x89],
      [CHR 0xE2, CHR 0x80, CHR 0x8A], [CHR 0xE2, CHR 0x80, CHR 0xA8],
      [CHR 0xE2, CHR 0x80, CHR 0xA9], [CHR 0xE2, CHR 0x80, CHR 0xAF],
      [CHR 0xE2, CHR 0x81, CHR 0x9F], [CHR 0xE3, CHR 0x80, CHR 0x80]]"

definition starts_with :: "'a list \<Rightarrow> 'a list \<Rightarrow> bool" where
  "starts_with s p \<longleftrightarrow> take (length p) s = p"

lemma starts_with_prefix: "starts_with s p \<longleftrightarrow> prefix p s"
  unfolding starts_with_def prefix_def by (metis append_eq_conv_conj)

lemma starts_with_length: "starts_with s p \<Longrightarrow> length p \<le> length s"
  by (simp add: starts_with_prefix prefix_length_le)

function trim_front :: "'a list list \<Rightarrow> 'a list \<Rightarrow> 'a list" where
  "trim_front ps s =
     (case List.find (\<lambda>p. p \<noteq> [] \<and> starts_with s p) ps of
        None \<Rightarrow> s
      | Some p \<Rightarrow> trim_front ps (drop (length p) s))"
  by pat_completeness auto
termination
proof (relation "measure (\<lambda>(ps, s). length s)")
  fix ps :: "'a list list" and s p
  assume "List.find (\<lambda>p. p \<noteq> [] \<and> starts_with s p) ps = Some p"
  then have "p \<noteq> []" and "starts_with s p" by (auto simp: find_Some_iff)
  then have "0 < length p" and "length p \<le> length s" by (auto dest: starts_with_length)
  then have "length s - length p < length s" by linarith
  then show "((ps, drop (length p) s), ps, s) \<in> measure (\<lambda>(ps, s). length s)" by simp
qed simp

declare trim_front.simps [simp del]

definition TrimSpace :: "string \<Rightarrow> string" where
  "TrimSpace s = rev (trim_front (map rev space_runes) (rev (trim_front space_runes s)))"

definition no_space_at :: "'a list list \<Rightarrow> 'a list \<Rightarrow> bool" where
  "no_space_at ps s \<longleftrightarrow> (\<forall>p \<in> set ps. p \<noteq> [] \<longrightarrow> \<not> starts_with s p)"

lemma trim_front_id:
  assumes "no_space_at ps s" shows "trim_front ps s = s"
proof -
  have "List.find (\<lambda>p. p \<noteq> [] \<and> starts_with s p) ps = None"
    using assms by (auto simp: no_space_at_def find_None_iff)
  then show ?thesis by (simp add: trim_front.simps [of ps s])
qed

lemma no_space_at_trim_front: "no_space_at ps (trim_front ps s)"
proof (induction ps s rule: trim_front.induct)
  case (1 ps s)
  show ?case
  proof (cases "List.find (\<lambda>p. p \<noteq> [] \<and> starts_with s p) ps")
    case None
    then have "trim_front ps s = s" by (simp add: trim_front.simps [of ps s])
    moreover have "no_space_at ps s" using None by (auto simp: no_space_at_def find_None_iff)
    ultimately show ?thesis by simp
  next
    case (Some p)
    with "1.IH" show ?thesis by (simp add: trim_front.simps [of ps s])
  qed
qed

lemma trim_front_suffix: "suffix (trim_front ps s) s"
proof (induction ps s rule: trim_front.induct)
  case (1 ps s)
  show ?case
  proof (cases "List.find (\<lambda>p. p \<noteq> [] \<and> starts_with s p) ps")
    case None
    then show ?thesis by (simp add: trim_front.simps [of ps s])
  next
    case (Some p)
    with "1.IH" have "suffix (trim_front ps (drop (length p) s)) (drop (length p) s)" by simp
    then show ?thesis
      using Some suffix_drop suffix_order.trans by (fastforce simp: trim_front.simps [of ps s])
  qed
qed

lemma no_space_at_prefix: "no_space_at ps s \<Longrightarrow> prefix t s \<Longrightarrow> no_space_at ps t"
proof -
  assume "no_space_at ps s" and "prefix t s"
  moreover have "starts_with t p \<Longrightarrow> starts_with s p" for p
    using \<open>prefix t s\<close> prefix_order.trans by (auto simp: starts_with_prefix)
  ultimately show ?thesis by (auto simp: no_space_at_def)
qed

text \<open>Trimming leaves no space at either end, hence is idempotent.\<close>

lemma TrimSpace_front: "no_space_at space_runes (TrimSpace s)"
proof -
  have "suffix (rev (TrimSpace s)) (rev (trim_front space_runes s))"
    by (simp add: TrimSpace_def trim_front_suffix)
  then have "prefix (TrimSpace s) (trim_front space_runes s)"
    by (simp add: suffix_to_prefix)
  with no_space_at_trim_front show ?thesis by (rule no_space_at_prefix)
qed

lemma TrimSpace_back: "no_space_at (map rev space_runes) (rev (TrimSpace s))"
  by (simp add: TrimSpace_def no_space_at_trim_front)

lemma TrimSpace_unchanged:
  "no_space_at space_runes s \<Longrightarrow> no_space_at (map rev space_runes) (rev s) \<Longrightarrow> TrimSpace s = s"
  by (simp add: TrimSpace_def trim_front_id)

lemma TrimSpace_idem [simp]: "TrimSpace (TrimSpace s) = TrimSpace s"
  by (rule TrimSpace_unchanged [OF TrimSpace_front TrimSpace_back])

lemma TrimSpace_Nil [simp]: "TrimSpace [] = []"
  by (rule TrimSpace_unchanged) (auto simp: no_space_at_def starts_with_def)

definition graphic :: "char \<Rightarrow> bool" where
  "graphic c \<longleftrightarrow> (0x20 :: nat) < of_char c \<and> of_char c < (0x7F :: nat)"

lemma graphic_no_space_front: "graphic c \<Longrightarrow> no_space_at space_runes (c # s)"
  by (auto simp: no_space_at_def space_runes_def starts_with_def graphic_def)

lemma graphic_no_space_back: "graphic c \<Longrightarrow> no_space_at (map rev space_runes) (c # s)"
  by (auto simp: no_space_at_def space_runes_def starts_with_def graphic_def)

text \<open>A string that starts and ends with printable ASCII is not changed by trimming.\<close>

lemma TrimSpace_graphic:
  assumes "s \<noteq> []" and "graphic (hd s)" and "graphic (last s)"
  shows "TrimSpace s = s"
proof (rule TrimSpace_unchanged)
  show "no_space_at space_runes s"
    using assms(1,2) graphic_no_space_front [of "hd s" "tl s"] by simp
  have "rev s = last s # rev (butlast s)"
    using assms(1) append_butlast_last_id [of s] rev_append [of "butlast s" "[last s]"] by simp
  then show "no_space_at (map rev space_runes) (rev s)"
    using graphic_no_space_back [OF assms(3)] by metis
qed

end
