(* ===== verification/Go_Net.thy ===== *)
theory Go_Net
  imports Go_Conv
begin

text \<open>
  The functions of Go's \<^verbatim>\<open>net\<close> and \<^verbatim>\<open>net/netip\<close> packages that the code uses:
  \<^verbatim>\<open>ParseIP\<close>, \<^verbatim>\<open>IP.To4\<close>, \<^verbatim>\<open>IP.String\<close> of an IPv4 address,
  \<^verbatim>\<open>SplitHostPort\<close> and \<^verbatim>\<open>JoinHostPort\<close>, with the round trip of dotted-decimal
  addresses. An address is its 16 bytes, an IPv4 address in its mapped form.
\<close>

section \<open>IPv4 fields\<close>

text \<open>
  The loop of \<^verbatim>\<open>netip.parseIPv4Fields\<close>: \<open>val\<close> and \<open>dl\<close> are the value and the number
  of digits of the current octet, \<open>acc\<close> the octets read so far.
\<close>

fun parse_v4_fields :: "string \<Rightarrow> nat \<Rightarrow> nat \<Rightarrow> byte list \<Rightarrow> byte list option" where
  "parse_v4_fields [] val dl acc =
     (if length acc < 3 then None else Some (acc @ [of_nat val]))"
| "parse_v4_fields (c # cs) val dl acc =
     (if is_digit c then
        (if dl = 1 \<and> val = 0 then None
         else let v = val * 10 + digit_val c
              in if v > 255 then None else parse_v4_fields cs v (Suc dl) acc)
      else if c = CHR ''.'' then
        (if dl = 0 \<or> cs = [] then None
         else if length acc = 3 then None
         else parse_v4_fields cs 0 0 (acc @ [of_nat val]))
      else None)"

definition v4_mapped :: "byte list \<Rightarrow> byte list" where
  "v4_mapped bs = replicate 10 0 @ [0xFF, 0xFF] @ bs"

definition parse_v4 :: "string \<Rightarrow> byte list option" where
  "parse_v4 s = parse_v4_fields s 0 0 []"

section \<open>IPv6\<close>

text \<open>
  \<^verbatim>\<open>netip.parseIPv6\<close>: at most eight groups of up to four hexadecimal digits, one
  \<open>::\<close> (its position in \<open>e\<close>), possibly an IPv4 tail; the address carries no zone.
\<close>

definition hex_num :: "string \<Rightarrow> nat" where
  "hex_num s = foldl (\<lambda>a c. 16 * a + (case hex_val c of None \<Rightarrow> 0 | Some d \<Rightarrow> d)) 0 s"

fun parse_v6_groups :: "nat \<Rightarrow> string \<Rightarrow> byte list \<Rightarrow> nat option
    \<Rightarrow> (byte list \<times> nat option \<times> string) option" where
  "parse_v6_groups 0 s acc e = Some (acc, e, s)"
| "parse_v6_groups (Suc n) s acc e =
     (let ds = takeWhile is_hex s; rest = drop (length ds) s
      in if length ds > 4 then None
         else if ds = [] then None
         else if rest \<noteq> [] \<and> hd rest = CHR ''.'' then
           (if e = None \<and> length acc \<noteq> 12 then None
            else if length acc + 4 > 16 then None
            else case parse_v4 s of None \<Rightarrow> None | Some bs \<Rightarrow> Some (acc @ bs, e, []))
         else
           let acc1 = acc @ [of_nat (hex_num ds div 256), of_nat (hex_num ds mod 256)]
           in case rest of
                [] \<Rightarrow> Some (acc1, e, [])
              | c # s1 \<Rightarrow>
                  (if c \<noteq> CHR '':'' then None
                   else case s1 of
                          [] \<Rightarrow> None
                        | d # s2 \<Rightarrow>
                            (if d = CHR '':'' then
                               (if e \<noteq> None then None
                                else if s2 = [] then Some (acc1, Some (length acc1), [])
                                else parse_v6_groups n s2 acc1 (Some (length acc1)))
                             else parse_v6_groups n s1 acc1 e)))"

definition finish_v6 :: "byte list \<times> nat option \<times> string \<Rightarrow> byte list option" where
  "finish_v6 r =
     (case r of (acc, e, s) \<Rightarrow>
        if s \<noteq> [] then None
        else if length acc < 16 then
          (case e of None \<Rightarrow> None
           | Some k \<Rightarrow> Some (take k acc @ replicate (16 - length acc) 0 @ drop k acc))
        else if e \<noteq> None then None
        else Some acc)"

definition parse_v6 :: "string \<Rightarrow> byte list option" where
  "parse_v6 s =
     (if CHR ''%'' \<in> set s then None
      else if s = ''::'' then Some (replicate 16 0)
      else Option.bind
        (if starts_with s ''::'' then parse_v6_groups 8 (drop 2 s) [] (Some 0)
         else parse_v6_groups 8 s [] None)
        finish_v6)"

text \<open>\<^verbatim>\<open>net.ParseIP\<close>: the first of \<open>.\<close>, \<open>:\<close>, \<open>%\<close> in the string decides the family.\<close>

definition ParseIP :: "string \<Rightarrow> byte list option" where
  "ParseIP s =
     (case List.find (\<lambda>c. c \<in> {CHR ''.'', CHR '':'', CHR ''%''}) s of
        None \<Rightarrow> None
      | Some c \<Rightarrow> if c = CHR ''.'' then map_option v4_mapped (parse_v4 s)
                  else if c = CHR '':'' then parse_v6 s else None)"

definition To4 :: "byte list \<Rightarrow> byte list option" where
  "To4 ip =
     (if length ip = 4 then Some ip
      else if length ip = 16 \<and> take 12 ip = replicate 10 0 @ [0xFF, 0xFF] then Some (drop 12 ip)
      else None)"

definition v4_string :: "byte list \<Rightarrow> string" where
  "v4_string bs = dec (unat (bs ! 0)) @ ''.'' @ dec (unat (bs ! 1)) @ ''.''
     @ dec (unat (bs ! 2)) @ ''.'' @ dec (unat (bs ! 3))"

section \<open>Dotted decimal round trip\<close>

lemma parse_octet:
  assumes "n < 256"
  shows "parse_v4_fields (dec n @ cs) 0 0 acc = parse_v4_fields cs n (length (dec n)) acc"
proof -
  consider "n < 10" | "10 \<le> n" "n < 100" | "100 \<le> n" by linarith
  then show ?thesis
  proof cases
    case 1
    then show ?thesis by (simp add: dec_small)
  next
    case 2
    then have "0 < n div 10" and "n div 10 < 10" by linarith+
    then show ?thesis using assms 2 by (simp add: dec_big dec_small Let_def)
  next
    case 3
    then have "0 < n div 10 div 10" and "n div 10 div 10 < 10" and "10 \<le> n div 10" and "\<not> 255 < n div 10"
      using assms by linarith+
    then show ?thesis using assms 3 by (simp add: dec_big dec_small Let_def)
  qed
qed

lemma dot_not_digit [simp]: "\<not> is_digit CHR ''.''"
  by (simp add: is_digit_def)

lemma parse_v4_string:
  assumes "length bs = 4"
  shows "parse_v4 (v4_string bs) = Some bs"
proof -
  obtain a b c d where bs: "bs = [a, b, c, d]" using length_4_list [OF assms] by blast
  have "parse_v4_fields (dec (unat d)) 0 0 acc = parse_v4_fields [] (unat d) (length (dec (unat d))) acc" for acc
    using parse_octet [of "unat d" "[]"] by simp
  then show ?thesis
    by (simp add: bs parse_v4_def v4_string_def parse_octet)
qed

lemma find_v4_string:
  "List.find (\<lambda>c. c \<in> {CHR ''.'', CHR '':'', CHR ''%''}) (dec n @ ''.'' @ s) = Some CHR ''.''"
proof -
  have "List.find (\<lambda>c. c \<in> {CHR ''.'', CHR '':'', CHR ''%''}) (ds @ ''.'' @ s) = Some CHR ''.''"
    if "\<forall>c \<in> set ds. is_digit c" for ds
    using that by (induction ds) (auto simp: is_digit_def)
  then show ?thesis using dec_digits by blast
qed

lemma ParseIP_v4_string: "length bs = 4 \<Longrightarrow> ParseIP (v4_string bs) = Some (v4_mapped bs)"
  using find_v4_string [of "unat (bs ! 0)"] parse_v4_string [of bs]
  by (simp add: ParseIP_def v4_string_def)

lemma To4_v4_mapped [simp]: "length bs = 4 \<Longrightarrow> To4 (v4_mapped bs) = Some bs"
  by (simp add: To4_def v4_mapped_def)

lemma parse_v4_fields_length:
  "parse_v4_fields s val dl acc = Some bs \<Longrightarrow> length acc \<le> 3 \<Longrightarrow> length bs = 4"
  by (induction s val dl acc rule: parse_v4_fields.induct) (auto simp: Let_def split: if_splits)

lemma To4_length: "To4 ip = Some bs \<Longrightarrow> length bs = 4"
  by (auto simp: To4_def split: if_splits)

section \<open>Host and port\<close>

definition index_of :: "'a \<Rightarrow> 'a list \<Rightarrow> nat option" where
  "index_of c s = (if c \<in> set s then Some (length (takeWhile (\<lambda>d. d \<noteq> c) s)) else None)"

definition last_index_of :: "'a \<Rightarrow> 'a list \<Rightarrow> nat option" where
  "last_index_of c s = map_option (\<lambda>i. length s - 1 - i) (index_of c (rev s))"

definition JoinHostPort :: "string \<Rightarrow> string \<Rightarrow> string" where
  "JoinHostPort host port =
     (if CHR '':'' \<in> set host then ''['' @ host @ '']:'' @ port else host @ '':'' @ port)"

datatype addr_error =
  MissingPort | TooManyColons | MissingBracket | UnexpectedOpenBracket | UnexpectedCloseBracket

definition check_brackets :: "string \<Rightarrow> nat \<Rightarrow> nat \<Rightarrow> string \<Rightarrow> nat \<Rightarrow> addr_error + string \<times> string" where
  "check_brackets hostport j k host i =
     (if CHR ''['' \<in> set (drop j hostport) then Inl UnexpectedOpenBracket
      else if CHR '']'' \<in> set (drop k hostport) then Inl UnexpectedCloseBracket
      else Inr (host, drop (Suc i) hostport))"

definition SplitHostPort :: "string \<Rightarrow> addr_error + string \<times> string" where
  "SplitHostPort hostport =
     (case last_index_of CHR '':'' hostport of
        None \<Rightarrow> Inl MissingPort
      | Some i \<Rightarrow>
          if hostport ! 0 = CHR ''['' then
            (case index_of CHR '']'' hostport of
               None \<Rightarrow> Inl MissingBracket
             | Some e \<Rightarrow>
                 if e + 1 = length hostport then Inl MissingPort
                 else if e + 1 = i then check_brackets hostport 1 (e + 1) (take (e - 1) (drop 1 hostport)) i
                 else if hostport ! (e + 1) = CHR '':'' then Inl TooManyColons
                 else Inl MissingPort)
          else
            (let host = take i hostport
             in if CHR '':'' \<in> set host then Inl TooManyColons
                else check_brackets hostport 0 0 host i))"

lemma last_index_of_append:
  assumes "c \<notin> set v" shows "last_index_of c (u @ c # v) = Some (length u)"
  using assms by (simp add: last_index_of_def index_of_def takeWhile_append)

lemma SplitHostPort_plain:
  assumes "set host \<inter> {CHR '':'', CHR ''['', CHR '']''} = {}"
    and "set port \<inter> {CHR '':'', CHR ''['', CHR '']''} = {}"
  shows "SplitHostPort (host @ '':'' @ port) = Inr (host, port)"
proof -
  have "last_index_of CHR '':'' (host @ CHR '':'' # port) = Some (length host)"
    using assms(2) by (intro last_index_of_append) auto
  moreover have "(host @ CHR '':'' # port) ! 0 \<noteq> CHR ''[''"
    using assms(1) by (cases host) auto
  ultimately show ?thesis using assms by (auto simp: SplitHostPort_def check_brackets_def Let_def)
qed

end
