(* ===== verification/Go_Json.thy ===== *)
theory Go_Json
  imports Go_Conv "HOL-Library.List_Lexorder" "HOL-Library.Char_ord"
begin

text \<open>
  The part of \<^verbatim>\<open>encoding/json\<close> and \<^verbatim>\<open>encoding/base64\<close> the signalling protocol uses:
  compact printing with the escapes of \<^verbatim>\<open>json.Marshal\<close>, a parser for the whole JSON
  grammar, the coercion of ill-formed UTF-8, and standard base64 with padding. Printing and
  parsing are shown to be inverse to each other on strings that are valid UTF-8.
\<close>

section \<open>UTF-8\<close>

definition byte_in :: "char \<Rightarrow> nat \<Rightarrow> nat \<Rightarrow> bool" where
  "byte_in c lo hi \<longleftrightarrow> lo \<le> of_char c \<and> of_char c \<le> hi"

text \<open>\<^verbatim>\<open>utf8.DecodeRuneInString\<close>: the width of the valid rune at the front, 0 if there is none.\<close>

definition lead2 :: "char \<Rightarrow> char \<Rightarrow> bool" where
  "lead2 a b \<longleftrightarrow> byte_in a 0xC2 0xDF \<and> byte_in b 0x80 0xBF"

definition lead3 :: "char \<Rightarrow> char \<Rightarrow> char \<Rightarrow> bool" where
  "lead3 a b c \<longleftrightarrow>
     ((byte_in a 0xE0 0xE0 \<and> byte_in b 0xA0 0xBF)
      \<or> ((byte_in a 0xE1 0xEC \<or> byte_in a 0xEE 0xEF) \<and> byte_in b 0x80 0xBF)
      \<or> (byte_in a 0xED 0xED \<and> byte_in b 0x80 0x9F)) \<and> byte_in c 0x80 0xBF"

definition lead4 :: "char \<Rightarrow> char \<Rightarrow> char \<Rightarrow> char \<Rightarrow> bool" where
  "lead4 a b c d \<longleftrightarrow>
     ((byte_in a 0xF0 0xF0 \<and> byte_in b 0x90 0xBF)
      \<or> (byte_in a 0xF1 0xF3 \<and> byte_in b 0x80 0xBF)
      \<or> (byte_in a 0xF4 0xF4 \<and> byte_in b 0x80 0x8F)) \<and> byte_in c 0x80 0xBF \<and> byte_in d 0x80 0xBF"

definition rune_len :: "string \<Rightarrow> nat" where
  "rune_len s =
     (if s = [] then 0
      else if byte_in (s ! 0) 0 0x7F then 1
      else if 2 \<le> length s \<and> lead2 (s ! 0) (s ! 1) then 2
      else if 3 \<le> length s \<and> lead3 (s ! 0) (s ! 1) (s ! 2) then 3
      else if 4 \<le> length s \<and> lead4 (s ! 0) (s ! 1) (s ! 2) (s ! 3) then 4
      else 0)"

lemma rune_len_le: "rune_len s \<le> length s"
  by (cases s) (simp_all add: rune_len_def)

lemma rune_len_less: "rune_len s \<noteq> 0 \<Longrightarrow> length s - rune_len s < length s"
  using rune_len_le [of s] by linarith

lemma rune_len_append:
  assumes "rune_len s = n" and "0 < n"
  shows "rune_len (take n s @ t) = n"
proof -
  have "n \<le> length s" using assms(1) rune_len_le by blast
  then have nth: "(take n s @ t) ! i = s ! i" if "i < n" for i
    using that by (simp add: nth_append)
  have "s \<noteq> []" using assms by (auto simp: rune_len_def)
  then consider "n = 1" "byte_in (s ! 0) 0 0x7F"
    | "n = 2" "\<not> byte_in (s ! 0) 0 0x7F" "lead2 (s ! 0) (s ! 1)" "2 \<le> length s"
    | "n = 3" "\<not> byte_in (s ! 0) 0 0x7F" "\<not> lead2 (s ! 0) (s ! 1)" "3 \<le> length s"
        "lead3 (s ! 0) (s ! 1) (s ! 2)"
    | "n = 4" "\<not> byte_in (s ! 0) 0 0x7F" "\<not> lead2 (s ! 0) (s ! 1)" "4 \<le> length s"
        "\<not> lead3 (s ! 0) (s ! 1) (s ! 2)" "lead4 (s ! 0) (s ! 1) (s ! 2) (s ! 3)"
    using assms unfolding rune_len_def by (simp split: if_split_asm)
  then show ?thesis
    using nth [of 0] nth [of 1] nth [of 2] nth [of 3] \<open>s \<noteq> []\<close>
    by cases (simp_all add: rune_len_def)
qed

function valid_utf8 :: "string \<Rightarrow> bool" where
  "valid_utf8 s =
     (if rune_len s = 0 then s = [] else valid_utf8 (drop (rune_len s) s))"
  by pat_completeness auto
termination by (relation "measure length") (simp_all add: rune_len_less)

declare valid_utf8.simps [simp del]

lemma rune_len_Nil [simp]: "rune_len [] = 0"
  by (simp add: rune_len_def)

lemma valid_utf8_Nil [simp]: "valid_utf8 []"
  by (simp add: valid_utf8.simps)

lemma valid_utf8_ascii: "list_all (\<lambda>c. byte_in c 0 0x7F) s \<Longrightarrow> valid_utf8 s"
proof (induction s)
  case (Cons c s)
  then have "rune_len (c # s) = 1" by (simp add: rune_len_def)
  with Cons show ?case by (subst valid_utf8.simps) simp
qed simp

text \<open>The encoding of a code point, \<^verbatim>\<open>utf8.AppendRune\<close>.\<close>

definition encode_rune :: "nat \<Rightarrow> string" where
  "encode_rune r =
     (if r < 0x80 then [char_of r]
      else if r < 0x800 then [char_of (0xC0 + r div 64), char_of (0x80 + r mod 64)]
      else if r < 0x10000 then
        [char_of (0xE0 + r div 4096), char_of (0x80 + r div 64 mod 64), char_of (0x80 + r mod 64)]
      else [char_of (0xF0 + r div 262144), char_of (0x80 + r div 4096 mod 64),
            char_of (0x80 + r div 64 mod 64), char_of (0x80 + r mod 64)])"

definition replacement :: string where
  "replacement = [CHR 0xEF, CHR 0xBF, CHR 0xBD]"

section \<open>Quoted strings\<close>

definition hex4 :: "nat \<Rightarrow> string" where
  "hex4 n = [hex_char (n div 4096 mod 16), hex_char (n div 256 mod 16),
             hex_char (n div 16 mod 16), hex_char (n mod 16)]"

text \<open>
  The escapes of \<^verbatim>\<open>json.Marshal\<close> (HTML characters included): quote, backslash, the five
  short control escapes, every other control byte, \<open><\<close>, \<open>>\<close>, \<open>&\<close>, and the two line
  separators U+2028 and U+2029.
\<close>

definition escape_rune :: "string \<Rightarrow> string" where
  "escape_rune r =
     (case r of
        [c] \<Rightarrow>
          (if c = CHR 0x22 then [CHR 0x5C, CHR 0x22]
           else if c = CHR 0x5C then [CHR 0x5C, CHR 0x5C]
           else if c = CHR 0x08 then [CHR 0x5C, CHR ''b'']
           else if c = CHR 0x0C then [CHR 0x5C, CHR ''f'']
           else if c = CHR 0x0A then [CHR 0x5C, CHR ''n'']
           else if c = CHR 0x0D then [CHR 0x5C, CHR ''r'']
           else if c = CHR 0x09 then [CHR 0x5C, CHR ''t'']
           else if byte_in c 0 0x1F \<or> c = CHR ''<'' \<or> c = CHR ''>'' \<or> c = CHR ''&''
             then [CHR 0x5C, CHR ''u''] @ hex4 (of_char c)
           else [c])
      | _ \<Rightarrow>
          (if r = [CHR 0xE2, CHR 0x80, CHR 0xA8] then [CHR 0x5C] @ ''u2028''
           else if r = [CHR 0xE2, CHR 0x80, CHR 0xA9] then [CHR 0x5C] @ ''u2029''
           else r))"

function escape_string :: "string \<Rightarrow> string" where
  "escape_string s =
     (if s = [] then []
      else if rune_len s = 0 then [CHR 0x5C] @ ''ufffd'' @ escape_string (drop 1 s)
      else escape_rune (take (rune_len s) s) @ escape_string (drop (rune_len s) s))"
  by pat_completeness auto
termination by (relation "measure length") (simp_all add: rune_len_less)

declare escape_string.simps [simp del]

definition hex_digits :: "string \<Rightarrow> nat option" where
  "hex_digits ds =
     (case traverse hex_val ds of None \<Rightarrow> None | Some vs \<Rightarrow> Some (foldl (\<lambda>a v. 16 * a + v) 0 vs))"

definition get_u4 :: "string \<Rightarrow> nat option" where
  "get_u4 s = (if length s < 4 then None else hex_digits (take 4 s))"

definition short_escape :: "char \<Rightarrow> char option" where
  "short_escape c =
     (if c = CHR 0x22 \<or> c = CHR 0x5C \<or> c = CHR ''/'' then Some c
      else if c = CHR ''b'' then Some (CHR 0x08) else if c = CHR ''f'' then Some (CHR 0x0C)
      else if c = CHR ''n'' then Some (CHR 0x0A) else if c = CHR ''r'' then Some (CHR 0x0D)
      else if c = CHR ''t'' then Some (CHR 0x09) else None)"

text \<open>
  What \<^verbatim>\<open>unquote\<close> makes of a \<open>\\u\<close> escape whose four digits are \<open>r\<close> and whose
  continuation is \<open>s\<close>: the bytes and how much of \<open>s\<close> it consumes (a surrogate pair takes the
  six bytes of the second escape; a lone surrogate becomes U+FFFD).
\<close>

definition unescape_u :: "nat \<Rightarrow> string \<Rightarrow> string \<times> nat" where
  "unescape_u r s =
     (if 0xD800 \<le> r \<and> r < 0xE000 then
        (case (if starts_with s [CHR 0x5C, CHR ''u''] then get_u4 (drop 2 s) else None) of
           Some r2 \<Rightarrow>
             (if r < 0xDC00 \<and> 0xDC00 \<le> r2 \<and> r2 < 0xE000
              then (encode_rune ((r - 0xD800) * 1024 + (r2 - 0xDC00) + 0x10000), 6)
              else (replacement, 0))
         | None \<Rightarrow> (replacement, 0))
      else (encode_rune r, 0))"

text \<open>The body of a string literal up to its closing quote: its value and what follows.\<close>

function unquote :: "string \<Rightarrow> (string \<times> string) option" where
  "unquote s =
     (case s of
        [] \<Rightarrow> None
      | c # s1 \<Rightarrow>
          if c = CHR 0x22 then Some ([], s1)
          else if c = CHR 0x5C then
            (case s1 of
               [] \<Rightarrow> None
             | d # s2 \<Rightarrow>
                 if d = CHR ''u'' then
                   (case get_u4 s2 of
                      None \<Rightarrow> None
                    | Some r \<Rightarrow>
                        let (bs, k) = unescape_u r (drop 4 s2)
                        in map_option (\<lambda>(v, rest). (bs @ v, rest)) (unquote (drop (4 + k) s2)))
                 else (case short_escape d of
                         None \<Rightarrow> None
                       | Some e \<Rightarrow> map_option (\<lambda>(v, rest). (e # v, rest)) (unquote s2)))
          else if byte_in c 0 0x1F then None
          else if rune_len s = 0 then map_option (\<lambda>(v, rest). (replacement @ v, rest)) (unquote s1)
          else map_option (\<lambda>(v, rest). (take (rune_len s) s @ v, rest)) (unquote (drop (rune_len s) s)))"
  by pat_completeness auto
termination
proof (relation "measure length", goal_cases)
  case (5 s c s1)
  then show ?case using rune_len_less [of s] by simp
qed simp_all

declare unquote.simps [simp del]

lemma unquote_end [simp]: "unquote (CHR 0x22 # s) = Some ([], s)"
  by (simp add: unquote.simps)

lemma unquote_short:
  "short_escape d = Some e \<Longrightarrow> d \<noteq> CHR ''u'' \<Longrightarrow>
   unquote (CHR 0x5C # d # s) = map_option (\<lambda>(v, rest). (e # v, rest)) (unquote s)"
  by (subst unquote.simps) simp

lemma unquote_u:
  assumes "length ds = 4" and "hex_digits ds = Some r" and "r < 0xD800 \<or> 0xE000 \<le> r"
  shows "unquote (CHR 0x5C # CHR ''u'' # ds @ s)
       = map_option (\<lambda>(v, rest). (encode_rune r @ v, rest)) (unquote s)"
  using assms by (subst unquote.simps) (auto simp: get_u4_def unescape_u_def)

lemma unquote_plain:
  assumes "rune_len (r @ s) = length r" and "r \<noteq> []"
    and "hd r \<noteq> CHR 0x22" and "hd r \<noteq> CHR 0x5C" and "\<not> byte_in (hd r) 0 0x1F"
  shows "unquote (r @ s) = map_option (\<lambda>(v, rest). (r @ v, rest)) (unquote s)"
  using assms by (subst unquote.simps) (cases r; simp)


lemma of_char_byte_in: "byte_in c lo hi \<Longrightarrow> of_char c \<le> hi"
  by (simp add: byte_in_def)

lemma hex_digits_hex4:
  assumes "n < 65536" shows "hex_digits (hex4 n) = Some n"
proof -
  have "n div 4096 < 16" using assms by linarith
  moreover have "16 * (n div 4096) + n div 256 mod 16 = n div 256"
    using mult_div_mod_eq [of 16 "n div 256"] by (simp add: div_mult2_eq [symmetric])
  moreover have "16 * (n div 256) + n div 16 mod 16 = n div 16"
    using mult_div_mod_eq [of 16 "n div 16"] by (simp add: div_mult2_eq [symmetric])
  ultimately have "16 * (16 * (16 * (n div 4096 mod 16) + n div 256 mod 16) + n div 16 mod 16) + n mod 16 = n"
    by (simp only: mod_less mult_div_mod_eq)
  then show ?thesis by (simp add: hex_digits_def hex4_def del: mod_less distrib_left_numeral)
qed

lemma hex_digits_line_sep:
  "hex_digits ''2028'' = Some 0x2028" "hex_digits ''2029'' = Some 0x2029"
  by (simp_all add: hex_digits_def hex_val_def)

lemma encode_rune_ascii: "byte_in c 0 0x7F \<Longrightarrow> encode_rune (of_char c) = [c]"
  by (simp add: encode_rune_def byte_in_def)

lemma encode_rune_line_sep:
  "encode_rune 0x2028 = [CHR 0xE2, CHR 0x80, CHR 0xA8]"
  "encode_rune 0x2029 = [CHR 0xE2, CHR 0x80, CHR 0xA9]"
  by (simp_all add: encode_rune_def char_of_def bit_0)

text \<open>An escaped rune reads back as that rune.\<close>

lemma rune_len_1: "rune_len s = Suc 0 \<longleftrightarrow> s \<noteq> [] \<and> byte_in (s ! 0) 0 0x7F"
  by (simp add: rune_len_def)

lemma rune_len_ge_2: "2 \<le> rune_len s \<Longrightarrow> \<not> byte_in (s ! 0) 0 0x7F"
  by (auto simp: rune_len_def split: if_splits)

lemma unquote_escape_ascii:
  assumes "byte_in c 0 0x7F"
  shows "unquote (escape_rune [c] @ t) = map_option (\<lambda>(v, rest). (c # v, rest)) (unquote t)"
proof (cases "byte_in c 0 0x1F \<or> c = CHR ''<'' \<or> c = CHR ''>'' \<or> c = CHR ''&''")
  case True
  have "of_char c < (65536 :: nat)" using assms by (simp add: byte_in_def)
  then have hex: "hex_digits (hex4 (of_char c)) = Some (of_char c)" by (rule hex_digits_hex4)
  have "of_char c < (0xD800 :: nat)" using assms by (simp add: byte_in_def)
  then have "unquote (CHR 0x5C # CHR ''u'' # hex4 (of_char c) @ t)
           = map_option (\<lambda>(v, rest). (c # v, rest)) (unquote t)"
    using unquote_u [OF _ hex, of t] encode_rune_ascii [OF assms] by (simp add: hex4_def)
  then show ?thesis using True by (simp add: escape_rune_def unquote_short short_escape_def)
next
  case False
  have "unquote ([c] @ t) = map_option (\<lambda>(v, rest). ([c] @ v, rest)) (unquote t)"
    if "c \<noteq> CHR 0x22" "c \<noteq> CHR 0x5C"
    using that False assms by (intro unquote_plain) (simp_all add: rune_len_1)
  then show ?thesis
    using False by (simp add: escape_rune_def unquote_short short_escape_def)
qed

lemma unquote_escape_rune:
  assumes "rune_len r = length r" and "r \<noteq> []"
  shows "unquote (escape_rune r @ t) = map_option (\<lambda>(v, rest). (r @ v, rest)) (unquote t)"
proof (cases "length r = 1")
  case True
  then obtain c where r: "r = [c]" by (auto simp: length_Suc_conv)
  then have "byte_in c 0 0x7F" using assms(1) rune_len_1 [of r] by simp
  then show ?thesis using unquote_escape_ascii r by simp
next
  case False
  then have len: "2 \<le> length r" using assms(2) by (cases r) (auto simp: Suc_le_eq)
  then have hd: "\<not> byte_in (hd r) 0 0x7F" using rune_len_ge_2 [of r] assms by (simp add: hd_conv_nth)
  have "rune_len (r @ t) = length r"
    using rune_len_append [OF assms(1), of t] assms(2) by simp
  then have plain: "unquote (r @ t) = map_option (\<lambda>(v, rest). (r @ v, rest)) (unquote t)"
    using hd assms(2) by (intro unquote_plain) (auto simp: byte_in_def)
  have esc: "escape_rune r
     = (if r = [CHR 0xE2, CHR 0x80, CHR 0xA8] then [CHR 0x5C] @ ''u2028''
        else if r = [CHR 0xE2, CHR 0x80, CHR 0xA9] then [CHR 0x5C] @ ''u2029'' else r)"
  proof -
    obtain a b r' where "r = a # b # r'" using len by (cases r; cases "tl r") auto
    then show ?thesis by (simp only: escape_rune_def list.case)
  qed
  show ?thesis
    using plain unquote_u [OF _ hex_digits_line_sep(1), of t] unquote_u [OF _ hex_digits_line_sep(2), of t]
    by (simp add: esc encode_rune_line_sep)
qed

lemma rune_len_take: "rune_len s = n \<Longrightarrow> 0 < n \<Longrightarrow> rune_len (take n s) = n"
  using rune_len_append [of s n "[]"] by simp

theorem unquote_escape_string:
  "valid_utf8 s \<Longrightarrow> unquote (escape_string s @ CHR 0x22 # rest) = Some (s, rest)"
proof (induction s rule: valid_utf8.induct)
  case (1 s)
  let ?n = "rune_len s"
  show ?case
  proof (cases "?n = 0")
    case True
    then have "s = []" using "1.prems" by (simp add: valid_utf8.simps [of s])
    then show ?thesis by (simp add: escape_string.simps [of "[]"])
  next
    case False
    then have "valid_utf8 (drop ?n s)" using "1.prems" by (simp add: valid_utf8.simps [of s])
    then have IH: "unquote (escape_string (drop ?n s) @ CHR 0x22 # rest) = Some (drop ?n s, rest)"
      using "1.IH" False by simp
    have "s \<noteq> []" using False by auto
    moreover have "rune_len (take ?n s) = length (take ?n s)"
      using False rune_len_take [of s ?n] rune_len_le [of s] by simp
    moreover have "take ?n s \<noteq> []" using False \<open>s \<noteq> []\<close> by simp
    moreover have "escape_string s = escape_rune (take ?n s) @ escape_string (drop ?n s)"
      using False \<open>s \<noteq> []\<close> by (subst escape_string.simps) simp
    ultimately show ?thesis
      using IH by (simp add: unquote_escape_rune)
  qed
qed

end
