(* ===== verification/Go_Json_Value.thy ===== *)
theory Go_Json_Value
  imports Go_Json
begin

text \<open>
  JSON values with their compact printer and a parser of the JSON grammar, and the base64
  text of byte slices. A number is kept as its literal text, as Go's decoder does.
\<close>

section \<open>Values and their text\<close>

datatype json =
    JNull
  | JBool bool
  | JNum string
  | JStr string
  | JArr "json list"
  | JObj "(string \<times> json) list"

definition quote :: "string \<Rightarrow> string" where
  "quote s = CHR 0x22 # escape_string s @ [CHR 0x22]"

fun print_json :: "json \<Rightarrow> string" and print_items :: "json list \<Rightarrow> string"
    and print_members :: "(string \<times> json) list \<Rightarrow> string" where
  "print_json JNull = ''null''"
| "print_json (JBool b) = (if b then ''true'' else ''false'')"
| "print_json (JNum t) = t"
| "print_json (JStr s) = quote s"
| "print_json (JArr js) = ''['' @ print_items js @ '']''"
| "print_json (JObj kvs) = ''{'' @ print_members kvs @ ''}''"
| "print_items [] = []"
| "print_items [j] = print_json j"
| "print_items (j # i # js) = print_json j @ '','' @ print_items (i # js)"
| "print_members [] = []"
| "print_members [(k, j)] = quote k @ '':'' @ print_json j"
| "print_members ((k, j) # e # kvs) = quote k @ '':'' @ print_json j @ '','' @ print_members (e # kvs)"

definition is_ws :: "char \<Rightarrow> bool" where
  "is_ws c \<longleftrightarrow> c \<in> {CHR 0x20, CHR 0x09, CHR 0x0A, CHR 0x0D}"

definition skip_ws :: "string \<Rightarrow> string" where
  "skip_ws = dropWhile is_ws"

text \<open>\<open>-?(0|[1-9][0-9]*)(\.[0-9]+)?([eE][+-]?[0-9]+)?\<close>, the longest such prefix.\<close>

definition scan_digits :: "string \<Rightarrow> string \<times> string" where
  "scan_digits s = (takeWhile is_digit s, dropWhile is_digit s)"

definition scan_int :: "string \<Rightarrow> (string \<times> string) option" where
  "scan_int s =
     (case s of
        [] \<Rightarrow> None
      | c # s1 \<Rightarrow> if c = CHR ''0'' then Some ([c], s1)
                  else if is_digit c then Some (scan_digits s) else None)"

definition scan_frac :: "string \<Rightarrow> (string \<times> string) option" where
  "scan_frac s =
     (if starts_with s ''.'' then
        (let (ds, r) = scan_digits (drop 1 s) in if ds = [] then None else Some (''.'' @ ds, r))
      else Some ([], s))"

definition scan_exp :: "string \<Rightarrow> (string \<times> string) option" where
  "scan_exp s =
     (if starts_with s ''e'' \<or> starts_with s ''E'' then
        (let sg = (if starts_with (drop 1 s) ''+'' \<or> starts_with (drop 1 s) ''-'' then 1 else 0);
             (ds, r) = scan_digits (drop (1 + sg) s)
         in if ds = [] then None else Some (take (1 + sg) s @ ds, r))
      else Some ([], s))"

definition scan_number :: "string \<Rightarrow> (string \<times> string) option" where
  "scan_number s =
     (let sg = (if starts_with s ''-'' then ''-'' else []) in do {
        (i, s1) \<leftarrow> scan_int (drop (length sg) s);
        (f, s2) \<leftarrow> scan_frac s1;
        (e, s3) \<leftarrow> scan_exp s2;
        Some (sg @ i @ f @ e, s3)
      })"

text \<open>
  The recursive descent; the first argument bounds the nesting and the number of elements.
  Twice the length of the text is always enough for a printed value.
\<close>

fun parse_value :: "nat \<Rightarrow> string \<Rightarrow> (json \<times> string) option"
  and parse_items :: "nat \<Rightarrow> string \<Rightarrow> (json list \<times> string) option"
  and parse_members :: "nat \<Rightarrow> string \<Rightarrow> ((string \<times> json) list \<times> string) option" where
  "parse_value 0 s = None"
| "parse_value (Suc n) s =
     (case skip_ws s of
        [] \<Rightarrow> None
      | c # t \<Rightarrow>
          if c = CHR 0x22 then map_option (\<lambda>(v, r). (JStr v, r)) (unquote t)
          else if c = CHR ''{'' then
            (if starts_with (skip_ws t) ''}'' then Some (JObj [], drop 1 (skip_ws t))
             else map_option (\<lambda>(v, r). (JObj v, r)) (parse_members n t))
          else if c = CHR ''['' then
            (if starts_with (skip_ws t) '']'' then Some (JArr [], drop 1 (skip_ws t))
             else map_option (\<lambda>(v, r). (JArr v, r)) (parse_items n t))
          else if starts_with (c # t) ''true'' then Some (JBool True, drop 4 (c # t))
          else if starts_with (c # t) ''false'' then Some (JBool False, drop 5 (c # t))
          else if starts_with (c # t) ''null'' then Some (JNull, drop 4 (c # t))
          else map_option (\<lambda>(v, r). (JNum v, r)) (scan_number (c # t)))"
| "parse_items 0 s = None"
| "parse_items (Suc n) s =
     (case parse_value n s of
        None \<Rightarrow> None
      | Some (j, r) \<Rightarrow>
          (if starts_with (skip_ws r) '','' then
             map_option (\<lambda>(js, r2). (j # js, r2)) (parse_items n (drop 1 (skip_ws r)))
           else if starts_with (skip_ws r) '']'' then Some ([j], drop 1 (skip_ws r))
           else None))"
| "parse_members 0 s = None"
| "parse_members (Suc n) s =
     (if \<not> starts_with (skip_ws s) [CHR 0x22] then None
      else case unquote (drop 1 (skip_ws s)) of
        None \<Rightarrow> None
      | Some (k, r) \<Rightarrow>
          (if \<not> starts_with (skip_ws r) '':'' then None
           else case parse_value n (drop 1 (skip_ws r)) of
             None \<Rightarrow> None
           | Some (j, r1) \<Rightarrow>
               (if starts_with (skip_ws r1) '','' then
                  map_option (\<lambda>(kvs, r2). ((k, j) # kvs, r2)) (parse_members n (drop 1 (skip_ws r1)))
                else if starts_with (skip_ws r1) ''}'' then Some ([(k, j)], drop 1 (skip_ws r1))
                else None)))"

definition parse_json :: "string \<Rightarrow> json option" where
  "parse_json s =
     (case parse_value (2 * length s) s of
        None \<Rightarrow> None
      | Some (j, r) \<Rightarrow> if skip_ws r = [] then Some j else None)"

section \<open>Printed values read back\<close>

text \<open>\<^verbatim>\<open>strconv.FormatInt\<close>, the text of an integer field.\<close>

definition fmt_int :: "int \<Rightarrow> string" where
  "fmt_int i = (if i < 0 then CHR ''-'' # dec (nat (- i)) else dec (nat i))"

text \<open>Values the printer is only used on: valid UTF-8 strings and integer literals.\<close>

fun json_ok :: "json \<Rightarrow> bool" where
  "json_ok JNull = True"
| "json_ok (JBool b) = True"
| "json_ok (JNum t) = (\<exists>i. t = fmt_int i)"
| "json_ok (JStr s) = valid_utf8 s"
| "json_ok (JArr js) = (\<forall>j \<in> set js. json_ok j)"
| "json_ok (JObj kvs) = (\<forall>(k, j) \<in> set kvs. valid_utf8 k \<and> json_ok j)"

definition delimited :: "string \<Rightarrow> bool" where
  "delimited s \<longleftrightarrow> s = [] \<or> hd s \<in> {CHR '','', CHR '']'', CHR ''}''} \<or> is_ws (hd s)"

lemma delimited_simps [simp]:
  "delimited []" "delimited (CHR '','' # s)" "delimited (CHR '']'' # s)" "delimited (CHR ''}'' # s)"
  by (simp_all add: delimited_def)

lemma starts_with_Cons [simp]: "starts_with (c # s) (d # p) \<longleftrightarrow> c = d \<and> starts_with s p"
  by (auto simp: starts_with_def)

lemma starts_with_Nil [simp]: "starts_with s []" "starts_with [] (c # p) = False"
  by (simp_all add: starts_with_def)

lemma dec_hd_nonzero: "0 < n \<Longrightarrow> \<exists>c cs. dec n = c # cs \<and> is_digit c \<and> c \<noteq> CHR ''0''"
proof (induction n rule: dec.induct)
  case (1 n)
  show ?case
  proof (cases "n < 10")
    case True
    then consider "n = 1" | "n = 2" | "n = 3" | "n = 4" | "n = 5" | "n = 6" | "n = 7" | "n = 8" | "n = 9"
      using "1.prems" by linarith
    then show ?thesis
      by cases (simp_all add: dec_small digit_char_def is_digit_def char_of_def bit_0)
  next
    case False
    then obtain c cs where "dec (n div 10) = c # cs \<and> is_digit c \<and> c \<noteq> CHR ''0''"
      using "1.IH" by (auto simp: div_greater_zero_iff)
    then show ?thesis using False by (simp add: dec_big)
  qed
qed

lemma delimited_not_digit: "delimited s \<Longrightarrow> s \<noteq> [] \<Longrightarrow> \<not> is_digit (hd s)"
  by (auto simp: delimited_def is_digit_def is_ws_def)

lemma scan_digits_append:
  assumes "\<forall>c \<in> set ds. is_digit c" and "delimited s"
  shows "scan_digits (ds @ s) = (ds, s)"
proof -
  have "takeWhile is_digit s = []" and "dropWhile is_digit s = s"
    using delimited_not_digit [OF assms(2)] by (cases s; simp)+
  then show ?thesis
    using assms(1) by (simp add: scan_digits_def takeWhile_append2 dropWhile_append2)
qed

lemma scan_int_dec: "delimited s \<Longrightarrow> scan_int (dec n @ s) = Some (dec n, s)"
proof (cases "n = 0")
  case True
  then show ?thesis by (simp add: dec_small scan_int_def digit_char_def char_of_def bit_0)
next
  case False
  assume s: "delimited s"
  obtain c cs where dec: "dec n = c # cs" "is_digit c" "c \<noteq> CHR ''0''"
    using dec_hd_nonzero False by blast
  have "scan_digits (dec n @ s) = (dec n, s)"
    using dec_digits s by (intro scan_digits_append) auto
  then show ?thesis using dec by (simp add: scan_int_def)
qed

lemma delimited_scan: "delimited s \<Longrightarrow> scan_frac s = Some ([], s) \<and> scan_exp s = Some ([], s)"
  by (cases s) (auto simp: delimited_def scan_frac_def scan_exp_def is_ws_def)

lemma dec_no_minus: "\<not> starts_with (dec n @ s) ''-''"
proof -
  obtain c cs where dec: "dec n = c # cs" by (cases "dec n") auto
  then have "is_digit c" using dec_digits [of c n] by simp
  then show ?thesis using dec by (auto simp: is_digit_def)
qed

lemma scan_number_int: "delimited s \<Longrightarrow> scan_number (fmt_int i @ s) = Some (fmt_int i, s)"
  by (simp add: scan_number_def fmt_int_def dec_no_minus scan_int_dec delimited_scan)

lemma fmt_int_hd:
  obtains c cs where "fmt_int i = c # cs" and "is_digit c \<or> c = CHR ''-''"
proof (cases "i < 0")
  case True
  then show ?thesis using that by (simp add: fmt_int_def)
next
  case False
  obtain c cs where "dec (nat i) = c # cs" by (cases "dec (nat i)") auto
  then show ?thesis using that False dec_digits [of c "nat i"] by (simp add: fmt_int_def)
qed


lemma skip_ws_Cons: "skip_ws (c # s) = (if is_ws c then skip_ws s else c # s)"
  by (simp add: skip_ws_def)

lemma ws_simps [simp]:
  "\<not> is_ws CHR '',''" "\<not> is_ws CHR '']''" "\<not> is_ws CHR ''}''" "\<not> is_ws CHR '':''"
  "\<not> is_ws CHR ''[''" "\<not> is_ws CHR ''{''" "\<not> is_ws CHR 0x22" "\<not> is_ws CHR ''-''"
  "\<not> is_ws CHR ''t''" "\<not> is_ws CHR ''f''" "\<not> is_ws CHR ''n''"
  by (simp_all add: is_ws_def)

lemma digit_not_ws: "is_digit c \<Longrightarrow> \<not> is_ws c"
  by (auto simp: is_digit_def is_ws_def)

lemma print_json_first:
  assumes "json_ok j"
  obtains c cs where "print_json j = c # cs" and "\<not> is_ws c"
    and "c \<noteq> CHR '']''" and "c \<noteq> CHR ''}''"
proof (cases j)
  case (JNum t)
  then obtain i where "t = fmt_int i" using assms by auto
  then show ?thesis
  proof (cases i rule: fmt_int_hd)
    case (1 c cs)
    then have "\<not> is_ws c" and "c \<noteq> CHR '']''" and "c \<noteq> CHR ''}''"
      using digit_not_ws by (auto simp: is_digit_def)
    then show ?thesis using that [of c cs] 1 JNum \<open>t = fmt_int i\<close> by simp
  qed
next
  case (JBool b)
  then show ?thesis using that by (cases b) simp_all
qed (use that in \<open>simp_all add: quote_def\<close>)

lemma parse_value_number:
  assumes "delimited s" shows "parse_value (Suc n) (fmt_int i @ s) = Some (JNum (fmt_int i), s)"
proof (cases i rule: fmt_int_hd)
  case (1 c cs)
  have "\<not> is_ws c" and c: "c \<noteq> CHR 0x22" "c \<noteq> CHR ''{''" "c \<noteq> CHR ''[''" "c \<noteq> CHR ''t''"
    "c \<noteq> CHR ''f''" "c \<noteq> CHR ''n''"
    using 1(2) digit_not_ws by (auto simp: is_digit_def)
  then show ?thesis using scan_number_int [OF assms, of i] 1(1) by (simp add: skip_ws_Cons)
qed

lemma length_print_json: "json_ok j \<Longrightarrow> 1 \<le> length (print_json j)"
  by (metis One_nat_def Suc_leI length_greater_0_conv list.distinct(1) print_json_first)

lemma print_items_Cons:
  "print_items (j # js) = print_json j @ (if js = [] then [] else CHR '','' # print_items js)"
  by (cases js) simp_all

lemma print_members_Cons:
  "print_members ((k, j) # kvs)
   = quote k @ CHR '':'' # print_json j @ (if kvs = [] then [] else CHR '','' # print_members kvs)"
  by (cases kvs) simp_all

lemma parse_print:
  "json_ok j \<Longrightarrow> 2 * length (print_json j) \<le> n \<Longrightarrow> delimited s \<Longrightarrow>
     parse_value n (print_json j @ s) = Some (j, s)"
  "\<forall>j \<in> set js. json_ok j \<Longrightarrow> js \<noteq> [] \<Longrightarrow> 2 * length (print_items js) + 1 \<le> n \<Longrightarrow>
     parse_items n (print_items js @ CHR '']'' # s) = Some (js, s)"
  "\<forall>(k, j) \<in> set kvs. valid_utf8 k \<and> json_ok j \<Longrightarrow> kvs \<noteq> [] \<Longrightarrow>
     2 * length (print_members kvs) + 1 \<le> n \<Longrightarrow>
     parse_members n (print_members kvs @ CHR ''}'' # s) = Some (kvs, s)"
proof (induction j and js and kvs arbitrary: n s and n s and n s rule: print_json_print_items_print_members.induct)
  case 1
  then show ?case by (cases n) (simp_all add: skip_ws_Cons)
next
  case (2 b)
  then show ?case by (cases n; cases b) (simp_all add: skip_ws_Cons)
next
  case (3 t)
  then obtain i where i: "t = fmt_int i" by auto
  with 3 have "n \<noteq> 0" using length_print_json [of "JNum t"] by auto
  then show ?case using 3 i parse_value_number by (cases n) auto
next
  case (4 v)
  then show ?case
    by (cases n) (auto simp: skip_ws_Cons quote_def unquote_escape_string)
next
  case (5 js)
  then obtain m where n: "n = Suc m" by (cases n) auto
  show ?case
  proof (cases js)
    case Nil
    then show ?thesis by (simp add: n skip_ws_Cons)
  next
    case (Cons j js')
    then obtain c cs where "print_json j = c # cs" "\<not> is_ws c" "c \<noteq> CHR '']''"
      using "5.prems"(1) by (auto elim: print_json_first [of j])
    then have "\<not> starts_with (skip_ws (print_items js @ CHR '']'' # s)) '']''"
      using Cons by (simp add: print_items_Cons skip_ws_Cons)
    then show ?thesis
      using "5.IH" [of m s] "5.prems" Cons n by (simp add: skip_ws_Cons)
  qed
next
  case (6 kvs)
  then obtain m where n: "n = Suc m" by (cases n) auto
  show ?case
  proof (cases kvs)
    case Nil
    then show ?thesis by (simp add: n skip_ws_Cons)
  next
    case (Cons e kvs')
    then have "\<not> starts_with (skip_ws (print_members kvs @ CHR ''}'' # s)) ''}''"
      by (cases e) (simp add: print_members_Cons skip_ws_Cons quote_def)
    then show ?thesis
      using "6.IH" [of m s] "6.prems" Cons n by (simp add: skip_ws_Cons)
  qed
next
  case 7
  then show ?case by simp
next
  case (8 j)
  then obtain m where n: "n = Suc m" by (cases n) auto
  have "parse_value m (print_json j @ CHR '']'' # s) = Some (j, CHR '']'' # s)"
    using 8 n by simp
  then show ?case by (simp add: n skip_ws_Cons)
next
  case (9 j i js)
  then obtain m where n: "n = Suc m" by (cases n) auto
  have "parse_value m (print_json j @ CHR '','' # print_items (i # js) @ CHR '']'' # s)
        = Some (j, CHR '','' # print_items (i # js) @ CHR '']'' # s)"
    using 9(1,3-) n by simp
  moreover have "parse_items m (print_items (i # js) @ CHR '']'' # s) = Some (i # js, s)"
    using 9(2-) n by simp
  ultimately show ?case by (simp add: n skip_ws_Cons)
next
  case 10
  then show ?case by simp
next
  case (11 k j)
  then obtain m where n: "n = Suc m" by (cases n) auto
  have "parse_value m (print_json j @ CHR ''}'' # s) = Some (j, CHR ''}'' # s)"
    using 11 n by simp
  then show ?case using 11 by (simp add: n skip_ws_Cons quote_def unquote_escape_string)
next
  case (12 k j e kvs)
  then obtain m where n: "n = Suc m" by (cases n) auto
  have "parse_value m (print_json j @ CHR '','' # print_members (e # kvs) @ CHR ''}'' # s)
        = Some (j, CHR '','' # print_members (e # kvs) @ CHR ''}'' # s)"
    using 12(1,3-) n by simp
  moreover have "parse_members m (print_members (e # kvs) @ CHR ''}'' # s) = Some (e # kvs, s)"
    using 12(2-) n by simp
  ultimately show ?case
    using 12 by (simp add: n skip_ws_Cons quote_def unquote_escape_string)
qed

theorem parse_json_print: "json_ok j \<Longrightarrow> parse_json (print_json j) = Some j"
  using parse_print(1) [of j "2 * length (print_json j)" "[]"]
  by (simp add: parse_json_def skip_ws_def)

interpretation json: codec print_json parse_json json_ok
  by unfold_locales (rule parse_json_print)

section \<open>Base64\<close>

definition b64_char :: "nat \<Rightarrow> char" where
  "b64_char n =
     (if n < 26 then char_of (65 + n) else if n < 52 then char_of (71 + n)
      else if n < 62 then char_of (n - 4) else if n = 62 then CHR ''+'' else CHR ''/'')"

definition b64_val :: "char \<Rightarrow> nat option" where
  "b64_val c =
     (let n = (of_char c :: nat)
      in if 65 \<le> n \<and> n \<le> 90 then Some (n - 65)
         else if 97 \<le> n \<and> n \<le> 122 then Some (n - 71)
         else if 48 \<le> n \<and> n \<le> 57 then Some (n + 4)
         else if c = CHR ''+'' then Some 62 else if c = CHR ''/'' then Some 63 else None)"

fun b64_encode :: "byte list \<Rightarrow> string" where
  "b64_encode [] = []"
| "b64_encode [a] =
     [b64_char (unat a div 4), b64_char (unat a mod 4 * 16), CHR ''='', CHR ''='']"
| "b64_encode [a, b] =
     [b64_char (unat a div 4), b64_char (unat a mod 4 * 16 + unat b div 16),
      b64_char (unat b mod 16 * 4), CHR ''='']"
| "b64_encode (a # b # c # bs) =
     b64_char (unat a div 4) # b64_char (unat a mod 4 * 16 + unat b div 16)
       # b64_char (unat b mod 16 * 4 + unat c div 64) # b64_char (unat c mod 64) # b64_encode bs"

text \<open>The three bytes of four six-bit groups.\<close>

definition b64_hi :: "nat \<Rightarrow> nat \<Rightarrow> byte" where
  "b64_hi p q = of_nat (p * 4 + q div 16)"

definition b64_mid :: "nat \<Rightarrow> nat \<Rightarrow> byte" where
  "b64_mid q r = of_nat (q mod 16 * 16 + r div 4)"

definition b64_lo :: "nat \<Rightarrow> nat \<Rightarrow> byte" where
  "b64_lo r s = of_nat (r mod 4 * 64 + s)"

fun b64_quads :: "string \<Rightarrow> byte list option" where
  "b64_quads [] = Some []"
| "b64_quads (p # q # r # s # rest) =
     (case (b64_val p, b64_val q) of
        (Some vp, Some vq) \<Rightarrow>
          (if r = CHR ''='' then
             (if s = CHR ''='' \<and> rest = [] then Some [b64_hi vp vq] else None)
           else (case b64_val r of
              None \<Rightarrow> None
            | Some vr \<Rightarrow>
                (if s = CHR ''='' then
                   (if rest = [] then Some [b64_hi vp vq, b64_mid vq vr]
                    else None)
                 else (case b64_val s of
                    None \<Rightarrow> None
                  | Some vs \<Rightarrow>
                      map_option (\<lambda>bs. b64_hi vp vq # b64_mid vq vr
                                       # b64_lo vr vs # bs) (b64_quads rest)))))
      | _ \<Rightarrow> None)"
| "b64_quads _ = None"

text \<open>\<^verbatim>\<open>base64.StdEncoding.Decode\<close> ignores line breaks.\<close>

definition b64_decode :: "string \<Rightarrow> byte list option" where
  "b64_decode s = b64_quads (filter (\<lambda>c. c \<noteq> CHR 0x0A \<and> c \<noteq> CHR 0x0D) s)"

lemma b64_val_char [simp]: "n < 64 \<Longrightarrow> b64_val (b64_char n) = Some n"
proof -
  assume "n < 64"
  then consider "n < 26" | "26 \<le> n" "n < 52" | "52 \<le> n" "n < 62" | "n = 62" | "n = 63" by linarith
  then show ?thesis by cases (auto simp: b64_val_def b64_char_def Let_def)
qed


lemma b64_char_plain [simp]:
  "n < 64 \<Longrightarrow> b64_char n \<noteq> CHR ''=''" "n < 64 \<Longrightarrow> b64_char n \<noteq> CHR 0x0A" "n < 64 \<Longrightarrow> b64_char n \<noteq> CHR 0x0D"
proof -
  assume n: "n < 64"
  then have "b64_val (b64_char n) \<noteq> None" by simp
  moreover have "b64_val CHR ''='' = None" "b64_val CHR 0x0A = None" "b64_val CHR 0x0D = None"
    by (simp_all add: b64_val_def)
  ultimately show "b64_char n \<noteq> CHR ''=''" "b64_char n \<noteq> CHR 0x0A" "b64_char n \<noteq> CHR 0x0D"
    by metis+
qed

lemma b64_bits:
  fixes a b c :: byte
  shows "unat a div 4 < 64" "unat a mod 4 * 16 < 64" "unat a mod 4 * 16 + unat b div 16 < 64"
    "unat b mod 16 * 4 < 64" "unat b mod 16 * 4 + unat c div 64 < 64" "unat c mod 64 < 64"
  using unat_byte_less [of a] unat_byte_less [of b] unat_byte_less [of c] by linarith+

lemma b64_groups:
  fixes a b c :: byte
  shows "b64_hi (unat a div 4) (unat a mod 4 * 16) = a"
    and "b64_hi (unat a div 4) (unat a mod 4 * 16 + unat b div 16) = a"
    and "b64_mid (unat a mod 4 * 16 + unat b div 16) (unat b mod 16 * 4) = b"
    and "b64_mid (unat a mod 4 * 16 + unat b div 16) (unat b mod 16 * 4 + unat c div 64) = b"
    and "b64_lo (unat b mod 16 * 4 + unat c div 64) (unat c mod 64) = c"
proof -
  have b: "unat b div 16 < 16" and c: "unat c div 64 < 4"
    using unat_byte_less [of b] unat_byte_less [of c] by linarith+
  have "unat a div 4 * 4 + (unat a mod 4 * 16) div 16 = unat a" by simp
  then show "b64_hi (unat a div 4) (unat a mod 4 * 16) = a" unfolding b64_hi_def by (simp only:) simp
  have "unat a div 4 * 4 + (unat a mod 4 * 16 + unat b div 16) div 16 = unat a" using b by simp
  then show "b64_hi (unat a div 4) (unat a mod 4 * 16 + unat b div 16) = a"
    unfolding b64_hi_def by (simp only:) simp
  have "(unat a mod 4 * 16 + unat b div 16) mod 16 * 16 + (unat b mod 16 * 4) div 4 = unat b"
    using b by simp
  then show "b64_mid (unat a mod 4 * 16 + unat b div 16) (unat b mod 16 * 4) = b"
    unfolding b64_mid_def by (simp only:) simp
  have "(unat a mod 4 * 16 + unat b div 16) mod 16 * 16 + (unat b mod 16 * 4 + unat c div 64) div 4 = unat b"
    using b c by simp
  then show "b64_mid (unat a mod 4 * 16 + unat b div 16) (unat b mod 16 * 4 + unat c div 64) = b"
    unfolding b64_mid_def by (simp only:) simp
  have "(unat b mod 16 * 4 + unat c div 64) mod 4 * 64 + unat c mod 64 = unat c" using c by simp
  then show "b64_lo (unat b mod 16 * 4 + unat c div 64) (unat c mod 64) = c"
    unfolding b64_lo_def by (simp only:) simp
qed

lemma b64_no_breaks: "filter (\<lambda>c. c \<noteq> CHR 0x0A \<and> c \<noteq> CHR 0x0D) (b64_encode bs) = b64_encode bs"
  by (induction bs rule: b64_encode.induct) (simp_all add: b64_bits)

lemma b64_quads_encode: "b64_quads (b64_encode bs) = Some bs"
  by (induction bs rule: b64_encode.induct) (simp_all add: b64_bits b64_groups)

interpretation base64: codec b64_encode b64_decode "\<lambda>_. True"
  by unfold_locales (simp add: b64_decode_def b64_no_breaks b64_quads_encode)

lemma b64_char_ascii: "n < 64 \<Longrightarrow> byte_in (b64_char n) 0 0x7F"
  by (auto simp: byte_in_def b64_char_def)

lemma valid_utf8_b64 [simp]: "valid_utf8 (b64_encode bs)"
proof (rule valid_utf8_ascii, induction bs rule: b64_encode.induct)
  case (4 a b c bs)
  then show ?case by (simp add: b64_bits b64_char_ascii)
qed (simp_all add: b64_bits b64_char_ascii, simp_all add: byte_in_def)

end
