(* ===== verification/IPPool.thy ===== *)
theory IPPool
  imports Protocol
begin

text \<open>
  The virtual address pool of \<^verbatim>\<open>internal/server/ipalloc.go\<close>. The locale
  \<open>addr_pool\<close> is the contract the device table relies on; the pool is an instance of it.
\<close>

section \<open>The contract of an address pool\<close>

locale addr_pool =
  fixes ok :: "'p \<Rightarrow> bool"
    and in_range :: "'p \<Rightarrow> u32 \<Rightarrow> bool"
    and held :: "'p \<Rightarrow> u32 \<Rightarrow> bool"
    and alloc :: "'p \<Rightarrow> (u32 \<times> 'p) option"
    and alloc_at :: "'p \<Rightarrow> u32 \<Rightarrow> 'p option"
    and release :: "'p \<Rightarrow> u32 \<Rightarrow> 'p"
  assumes alloc_Some:
      "ok p \<Longrightarrow> alloc p = Some (ip, p') \<Longrightarrow>
       in_range p ip \<and> \<not> held p ip \<and> ok p' \<and> held p' = (held p)(ip := True) \<and> in_range p' = in_range p"
    and alloc_None: "ok p \<Longrightarrow> alloc p = None \<Longrightarrow> in_range p ip \<Longrightarrow> held p ip"
    and alloc_at_Some:
      "ok p \<Longrightarrow> alloc_at p ip = Some p' \<Longrightarrow>
       in_range p ip \<and> \<not> held p ip \<and> ok p' \<and> held p' = (held p)(ip := True) \<and> in_range p' = in_range p"
    and alloc_at_None: "ok p \<Longrightarrow> alloc_at p ip = None \<Longrightarrow> \<not> in_range p ip \<or> held p ip"
    and release_held: "ok p \<Longrightarrow> held (release p ip) = (held p)(ip := False)"
    and release_ok: "ok p \<Longrightarrow> ok (release p ip) \<and> in_range (release p ip) = in_range p"
    and held_in_range: "ok p \<Longrightarrow> held p ip \<Longrightarrow> in_range p ip"
begin

text \<open>Allocating repeatedly: the addresses handed out are distinct and were free before.\<close>

fun alloc_many :: "nat \<Rightarrow> 'p \<Rightarrow> (u32 list \<times> 'p) option" where
  "alloc_many 0 p = Some ([], p)"
| "alloc_many (Suc n) p =
     (case alloc p of None \<Rightarrow> None
      | Some (ip, p1) \<Rightarrow> map_option (\<lambda>(ips, p2). (ip # ips, p2)) (alloc_many n p1))"

lemma alloc_many_distinct:
  "ok p \<Longrightarrow> alloc_many n p = Some (ips, p') \<Longrightarrow>
   distinct ips \<and> length ips = n \<and> (\<forall>ip \<in> set ips. in_range p ip \<and> \<not> held p ip)
   \<and> ok p' \<and> (\<forall>ip. held p' ip \<longleftrightarrow> held p ip \<or> ip \<in> set ips)"
proof (induction n arbitrary: p ips)
  case (Suc n)
  then obtain ip p1 ips1 where step: "alloc p = Some (ip, p1)" "alloc_many n p1 = Some (ips1, p')"
    and ips: "ips = ip # ips1"
    by (auto split: option.splits)
  note first = alloc_Some [OF Suc.prems(1) step(1)]
  then have "ok p1" by blast
  note rest = Suc.IH [OF this step(2)]
  have "ip \<notin> set ips1" and "\<forall>i \<in> set ips1. in_range p i \<and> \<not> held p i"
    using rest first by (auto split: if_splits)
  then show ?case using rest first ips by auto
qed simp

lemma alloc_at_fresh: "ok p \<Longrightarrow> in_range p ip \<Longrightarrow> \<not> held p ip \<Longrightarrow> \<exists>p'. alloc_at p ip = Some p'"
  using alloc_at_None by (cases "alloc_at p ip") auto

lemma release_alloc_at:
  "ok p \<Longrightarrow> held p ip \<Longrightarrow> \<exists>p'. alloc_at (release p ip) ip = Some p' \<and> held p' = held p"
proof -
  assume p: "ok p" "held p ip"
  then have "in_range (release p ip) ip" and "\<not> held (release p ip) ip" and ok: "ok (release p ip)"
    using release_held release_ok held_in_range by auto
  then obtain p' where p': "alloc_at (release p ip) ip = Some p'" using alloc_at_fresh by blast
  then have "held p' = (held (release p ip))(ip := True)" using alloc_at_Some [OF ok] by blast
  then show ?thesis using p p' by (auto simp: release_held fun_eq_iff)
qed

end

section \<open>The pool\<close>

text \<open>\<^verbatim>\<open>used\<close> only ever holds \<^verbatim>\<open>true\<close> values and is only read by key: a predicate.\<close>

record ip_pool =
  pool_net :: u32
  pool_start :: u32
  pool_end :: u32
  pool_used :: "u32 \<Rightarrow> bool"

definition mask_ones :: "u32 \<Rightarrow> nat" where
  "mask_ones m = length (filter (bit m) [0..<32])"

definition NewIPPool :: "ip_pool option" where
  "NewIPPool =
     (case ParseCIDR4 VNetCIDR of
        None \<Rightarrow> None
      | Some (netAddr, m) \<Rightarrow>
          let hostBits = push_bit (32 - mask_ones m) 1;
              broadcast = netAddr OR (hostBits - 1);
              start = netAddr + 2;
              e = broadcast - 1
          in if e < start then None
             else Some \<lparr>pool_net = netAddr, pool_start = start, pool_end = e, pool_used = (\<lambda>_. False)\<rparr>)"

definition ServerVIP :: "ip_pool \<Rightarrow> u32" where
  "ServerVIP p = pool_net p + 1"

definition InRange :: "ip_pool \<Rightarrow> u32 \<Rightarrow> bool" where
  "InRange p ip \<longleftrightarrow> pool_start p \<le> ip \<and> ip \<le> pool_end p"

definition Held :: "ip_pool \<Rightarrow> u32 \<Rightarrow> bool" where
  "Held p ip \<longleftrightarrow> pool_used p ip"

text \<open>
  The loop of \<^verbatim>\<open>Alloc\<close> as written: \<^term>\<open>None\<close> if it does not end (an end of
  \<^verbatim>\<open>0xffffffff\<close> with every address in use), \<^term>\<open>Some None\<close> if it falls through.
\<close>

partial_function (option) alloc_loop :: "(u32 \<Rightarrow> bool) \<Rightarrow> u32 \<Rightarrow> u32 \<Rightarrow> u32 option option" where
  "alloc_loop used e ip =
     (if ip \<le> e then (if \<not> used ip then Some (Some ip) else alloc_loop used e (ip + 1))
      else Some None)"

text \<open>The same scan by the number of candidates, used by the operations below.\<close>

fun alloc_scan :: "(u32 \<Rightarrow> bool) \<Rightarrow> nat \<Rightarrow> u32 \<Rightarrow> u32 option" where
  "alloc_scan used 0 ip = None"
| "alloc_scan used (Suc n) ip = (if \<not> used ip then Some ip else alloc_scan used n (ip + 1))"

definition candidates :: "ip_pool \<Rightarrow> nat" where
  "candidates p = (if pool_start p \<le> pool_end p then unat (pool_end p) - unat (pool_start p) + 1 else 0)"

definition Alloc :: "ip_pool \<Rightarrow> (u32 \<times> ip_pool) option" where
  "Alloc p =
     (case alloc_scan (pool_used p) (candidates p) (pool_start p) of
        None \<Rightarrow> None
      | Some ip \<Rightarrow> Some (ip, p\<lparr>pool_used := (pool_used p)(ip := True)\<rparr>))"

definition AllocAt :: "ip_pool \<Rightarrow> u32 \<Rightarrow> ip_pool option" where
  "AllocAt p ip =
     (if \<not> InRange p ip then None
      else if pool_used p ip then None
      else Some (p\<lparr>pool_used := (pool_used p)(ip := True)\<rparr>))"

definition Release :: "ip_pool \<Rightarrow> u32 \<Rightarrow> ip_pool" where
  "Release p ip = p\<lparr>pool_used := (pool_used p)(ip := False)\<rparr>"

section \<open>Correctness\<close>

definition pool_ok :: "ip_pool \<Rightarrow> bool" where
  "pool_ok p \<longleftrightarrow> pool_start p \<le> pool_end p \<and> pool_end p < - 1 \<and> (\<forall>ip. pool_used p ip \<longrightarrow> InRange p ip)"

lemma NewIPPool_value:
  "NewIPPool = Some \<lparr>pool_net = 0x0A000000, pool_start = 0x0A000002, pool_end = 0x0AFFFFFE,
                     pool_used = (\<lambda>_. False)\<rparr>"
proof -
  have "ParseCIDR4 VNetCIDR = Some (0x0A000000, 0xFF000000)" by code_simp
  moreover have "mask_ones 0xFF000000 = 8" by code_simp
  ultimately show ?thesis by (simp add: NewIPPool_def Let_def word_le_nat_alt word_less_nat_alt)
qed

lemma unat_minus_1_u32: "unat (- 1 :: u32) = 4294967295"
  by (simp add: unsigned_minus_1_eq_mask mask_eq_exp_minus_1)

lemma unat_Suc_u32: "(e :: u32) < - 1 \<Longrightarrow> unat (e + 1) = Suc (unat e)"
  by (simp add: word_less_nat_alt unat_minus_1_u32 unat_word_ariths(1))

lemma alloc_scan_eq_loop:
  assumes "e < - 1" and "n = Suc (unat e) - unat ip"
  shows "alloc_loop used e ip = Some (alloc_scan used n ip)"
  using assms
proof (induction n arbitrary: ip)
  case 0
  then have "\<not> ip \<le> e" by (simp add: word_le_nat_alt)
  then show ?case by (simp add: alloc_loop.simps)
next
  case (Suc n)
  then have le: "ip \<le> e" by (simp add: word_le_nat_alt)
  then have "ip < - 1" using Suc.prems(1) by order
  then have "n = Suc (unat e) - unat (ip + 1)" using Suc.prems(2) by (simp add: unat_Suc_u32)
  then have "alloc_loop used e (ip + 1) = Some (alloc_scan used n (ip + 1))"
    using Suc.IH Suc.prems(1) by blast
  then show ?case using le by (simp add: alloc_loop.simps [of used e ip])
qed

lemma candidates_eq: "candidates p = Suc (unat (pool_end p)) - unat (pool_start p)"
  by (auto simp: candidates_def word_le_nat_alt)

text \<open>What the scan finds: the least free address.\<close>

lemma alloc_scan_Some:
  assumes "alloc_scan used n a = Some ip" and "unat a + n \<le> 2 ^ 32"
  shows "a \<le> ip \<and> unat ip < unat a + n \<and> \<not> used ip \<and> (\<forall>i. a \<le> i \<and> i < ip \<longrightarrow> used i)"
  using assms
proof (induction n arbitrary: a)
  case (Suc n)
  show ?case
  proof (cases "used a")
    case False
    then show ?thesis using Suc.prems by auto
  next
    case True
    then have scan: "alloc_scan used n (a + 1) = Some ip" using Suc.prems(1) by simp
    then have "n \<noteq> 0" by (cases n) auto
    then have "a \<noteq> - 1" using Suc.prems(2) by (auto simp: unat_minus_1_u32)
    then have suc: "unat (a + 1) = Suc (unat a)" by (intro unat_Suc_u32) (simp add: word_order.not_eq_extremum)
    then have IH: "a + 1 \<le> ip \<and> unat ip < unat (a + 1) + n \<and> \<not> used ip
        \<and> (\<forall>i. a + 1 \<le> i \<and> i < ip \<longrightarrow> used i)"
      using Suc.IH [OF scan] Suc.prems(2) by simp
    moreover have "a + 1 \<le> i" if "a \<le> i" "i \<noteq> a" for i
      using that suc by (simp add: word_le_nat_alt) (metis le_antisym not_less_eq_eq word_unat_eq_iff)
    ultimately show ?thesis using True suc by (auto simp: word_le_nat_alt)
  qed
qed simp

lemma alloc_scan_None:
  assumes "alloc_scan used n a = None" and "a \<le> ip" and "unat ip < unat a + n"
  shows "used ip"
  using assms
proof (induction n arbitrary: a)
  case (Suc n)
  then have a: "used a" "alloc_scan used n (a + 1) = None" by (auto split: if_splits)
  show ?case
  proof (cases "ip = a")
    case False
    then have lt: "a < ip" using Suc.prems(2) by simp
    then have "a < - 1" by (rule order.strict_trans2) simp
    then have "unat (a + 1) = Suc (unat a)" by (rule unat_Suc_u32)
    then show ?thesis
      using Suc.IH [OF a(2)] lt Suc.prems(3) by (simp add: word_le_nat_alt word_less_nat_alt)
  qed (use a in simp)
qed (simp add: word_le_nat_alt)

interpretation ippool: addr_pool pool_ok InRange Held Alloc AllocAt Release
proof unfold_locales
  fix p p' ip
  assume ok: "pool_ok p"
  have bound: "unat (pool_start p) + candidates p \<le> 2 ^ 32"
    using ok unsigned_less [of "pool_end p"]
    by (simp add: candidates_eq pool_ok_def word_le_nat_alt Suc_le_eq)
  show "InRange p ip \<and> \<not> Held p ip \<and> pool_ok p' \<and> Held p' = (Held p)(ip := True) \<and> InRange p' = InRange p"
    if "Alloc p = Some (ip, p')"
  proof -
    from that have scan: "alloc_scan (pool_used p) (candidates p) (pool_start p) = Some ip"
      and p': "p' = p\<lparr>pool_used := (pool_used p)(ip := True)\<rparr>"
      by (auto simp: Alloc_def split: option.splits)
    have "InRange p ip" and "\<not> pool_used p ip"
      using alloc_scan_Some [OF scan bound] ok
      by (auto simp: InRange_def candidates_eq pool_ok_def word_le_nat_alt)
    then show ?thesis using ok p' by (auto simp: pool_ok_def InRange_def Held_def fun_eq_iff)
  qed
  show "Held p ip" if "Alloc p = None" "InRange p ip"
    using that alloc_scan_None [of "pool_used p" "candidates p" "pool_start p" ip] ok
    by (auto simp: Alloc_def Held_def InRange_def candidates_eq pool_ok_def word_le_nat_alt
        split: option.splits)
  show "InRange p ip \<and> \<not> Held p ip \<and> pool_ok p' \<and> Held p' = (Held p)(ip := True) \<and> InRange p' = InRange p"
    if "AllocAt p ip = Some p'"
    using that ok by (auto simp: AllocAt_def pool_ok_def InRange_def Held_def fun_eq_iff split: if_splits)
  show "\<not> InRange p ip \<or> Held p ip" if "AllocAt p ip = None"
    using that by (auto simp: AllocAt_def Held_def split: if_splits)
  show "Held (Release p ip) = (Held p)(ip := False)"
    by (auto simp: Release_def Held_def fun_eq_iff)
  show "pool_ok (Release p ip) \<and> InRange (Release p ip) = InRange p"
    using ok by (auto simp: Release_def pool_ok_def InRange_def fun_eq_iff)
  show "InRange p ip" if "Held p ip"
    using that ok by (simp add: pool_ok_def Held_def)
qed

text \<open>The constants of the built-in network.\<close>

lemma VNetBroadcast_value: "VNetBroadcast = 0x0AFFFFFF"
  by code_simp

lemma Alloc_first:
  assumes "pool_start p \<le> pool_end p" and "\<not> pool_used p (pool_start p)"
  shows "Alloc p = Some (pool_start p, p\<lparr>pool_used := (pool_used p)(pool_start p := True)\<rparr>)"
  using assms by (simp add: Alloc_def candidates_def)

lemma Alloc_second:
  assumes "pool_start p < pool_end p" and "pool_used p (pool_start p)" and "\<not> pool_used p (pool_start p + 1)"
  shows "Alloc p = Some (pool_start p + 1, p\<lparr>pool_used := (pool_used p)(pool_start p + 1 := True)\<rparr>)"
proof -
  have "\<exists>k. candidates p = Suc (Suc k)"
    using assms(1) by (simp add: candidates_def word_less_nat_alt word_le_nat_alt)
      (metis Suc_diff_Suc)
  then show ?thesis using assms(2,3) by (auto simp: Alloc_def)
qed

lemma NewIPPool_ok: "NewIPPool = Some p \<Longrightarrow> pool_ok p"
  by (auto simp: NewIPPool_value pool_ok_def word_le_nat_alt word_less_nat_alt unat_minus_1_u32)

text \<open>The fields that no operation changes.\<close>

definition same_range :: "ip_pool \<Rightarrow> ip_pool \<Rightarrow> bool" where
  "same_range p q \<longleftrightarrow>
     pool_net p = pool_net q \<and> pool_start p = pool_start q \<and> pool_end p = pool_end q"

lemma same_range_ops:
  "Alloc p = Some (ip, p') \<Longrightarrow> same_range p' p" "AllocAt p ip = Some p' \<Longrightarrow> same_range p' p"
  "same_range (Release p ip) p"
  by (auto simp: Alloc_def AllocAt_def Release_def same_range_def split: option.splits if_splits)

section \<open>Properties\<close>

text \<open>C4: On a pool with a well-formed range the allocation loop ends; it hands out the least
  free address of the range, marks exactly that address used, and fails only when every
  address of the range is in use.\<close>

theorem alloc_least_free:
  assumes "pool_ok p"
  shows "alloc_loop (pool_used p) (pool_end p) (pool_start p) = Some (map_option fst (Alloc p))
    \<and> (case Alloc p of
         Some (ip, p') \<Rightarrow> InRange p ip \<and> \<not> Held p ip \<and> (\<forall>i < ip. InRange p i \<longrightarrow> Held p i)
           \<and> p' = p\<lparr>pool_used := (pool_used p)(ip := True)\<rparr> \<and> pool_ok p'
       | None \<Rightarrow> \<forall>ip. InRange p ip \<longrightarrow> Held p ip)"
proof (cases "Alloc p")
  case None
  have "alloc_loop (pool_used p) (pool_end p) (pool_start p)
        = Some (alloc_scan (pool_used p) (candidates p) (pool_start p))"
    using assms by (intro alloc_scan_eq_loop) (auto simp: pool_ok_def candidates_eq)
  then show ?thesis
    using None ippool.alloc_None [OF assms None] by (auto simp: Alloc_def split: option.splits)
next
  case (Some r)
  obtain ip p' where r: "r = (ip, p')" by fastforce
  have scan: "alloc_scan (pool_used p) (candidates p) (pool_start p) = Some ip"
    and p': "p' = p\<lparr>pool_used := (pool_used p)(ip := True)\<rparr>"
    using Some r by (auto simp: Alloc_def split: option.splits)
  have "unat (pool_start p) + candidates p \<le> 2 ^ 32"
    using assms unat_u32_less [of "pool_end p"] by (simp add: candidates_eq pool_ok_def word_le_nat_alt)
  then have least: "\<forall>i. pool_start p \<le> i \<and> i < ip \<longrightarrow> pool_used p i"
    using alloc_scan_Some [OF scan] by blast
  have "alloc_loop (pool_used p) (pool_end p) (pool_start p) = Some (Some ip)"
    using assms scan by (subst alloc_scan_eq_loop) (auto simp: pool_ok_def candidates_eq)
  then show ?thesis
    using Some r least p' ippool.alloc_Some [OF assms, of ip p'] by (simp add: InRange_def Held_def)
qed

theorem alloc_least_free_witness:
  "\<exists>p. NewIPPool = Some p
    \<and> alloc_loop (pool_used p) (pool_end p) (pool_start p) = Some (map_option fst (Alloc p))"
proof -
  obtain p where p: "NewIPPool = Some p" using NewIPPool_value by blast
  then show ?thesis using alloc_least_free [OF NewIPPool_ok [OF p]] by blast
qed

text \<open>The pool never hands out the network address, the server's own address, or the
  broadcast address that the relay treats as the flood target, however it has been used.\<close>

theorem reserved_addresses_never_allocated:
  assumes "NewIPPool = Some p0" and "same_range p p0" and "pool_ok p"
    and "Alloc p = Some (ip, p') \<or> AllocAt p ip = Some p'"
  shows "ip \<noteq> pool_net p \<and> ip \<noteq> ServerVIP p \<and> ip \<noteq> VNetBroadcast"
proof -
  have "InRange p ip"
    using assms(3,4) ippool.alloc_Some ippool.alloc_at_Some by blast
  then have "0x0A000002 \<le> ip" and "ip \<le> 0x0AFFFFFE" and "pool_net p = 0x0A000000"
    using assms(1,2) by (auto simp: NewIPPool_value same_range_def InRange_def)
  then show ?thesis by (auto simp: ServerVIP_def VNetBroadcast_value word_le_nat_alt)
qed

theorem reserved_addresses_never_allocated_witness:
  "\<exists>p ip p'. NewIPPool = Some p \<and> Alloc p = Some (ip, p')
     \<and> ip \<noteq> pool_net p \<and> ip \<noteq> ServerVIP p \<and> ip \<noteq> VNetBroadcast"
proof -
  obtain p where p: "NewIPPool = Some p" using NewIPPool_value by blast
  then have "AllocAt p 0x0A000002 \<noteq> None"
    by (auto simp: NewIPPool_value AllocAt_def InRange_def word_le_nat_alt)
  then have "Alloc p \<noteq> None"
    using NewIPPool_ok [OF p] ippool.alloc_None ippool.alloc_at_Some by fastforce
  then obtain ip p' where alloc: "Alloc p = Some (ip, p')" by auto
  then show ?thesis
    using reserved_addresses_never_allocated [OF p _ NewIPPool_ok [OF p], of ip p'] p
    by (auto simp: same_range_def)
qed

end
