(* ===== verification/Forward.thy ===== *)
theory Forward
  imports Protocol
begin

text \<open>
  Port forwarding rules, \<^verbatim>\<open>internal/forward/forward.go\<close>: the rule text
  \<open>port=address:port\<close>, lists and sets of rules, and the splitting of a multi-line setting.
  The lemmas give the round trip of the text, what a parsed rule satisfies, and that an
  accepted set has no repeated virtual port.
\<close>

record rule =
  r_vport :: u16
  r_target_ip :: u32
  r_target_port :: u16

datatype rule_error =
  BadRuleFormat | BadVirtualPort | BadTargetAddr addr_error | BadTargetIP | BadTargetPort
  | RepeatedPort u16

definition ipString :: "u32 \<Rightarrow> string" where
  "ipString v = v4_string (put_be32 v)"

definition ip4u32 :: "string \<Rightarrow> u32 option" where
  "ip4u32 s = (case Option.bind (ParseIP s) To4 of None \<Rightarrow> None | Some ip \<Rightarrow> Some (be32 ip))"

definition parsePort :: "string \<Rightarrow> u16 option" where
  "parsePort s =
     (case Atoi (TrimSpace s) of
        None \<Rightarrow> None
      | Some n \<Rightarrow> if n < 1 \<or> n > 65535 then None else Some (of_int n))"

definition Target :: "rule \<Rightarrow> string" where
  "Target r = ipString (r_target_ip r) @ '':'' @ dec (unat (r_target_port r))"

definition Rule_String :: "rule \<Rightarrow> string" where
  "Rule_String r = dec (unat (r_vport r)) @ ''='' @ Target r"

definition Parse :: "string \<Rightarrow> rule_error + rule" where
  "Parse s =
     (case split_pair CHR ''='' s of
        None \<Rightarrow> Inl BadRuleFormat
      | Some (lhs, rhs) \<Rightarrow>
          (case parsePort (TrimSpace lhs) of
             None \<Rightarrow> Inl BadVirtualPort
           | Some vport \<Rightarrow>
               (case SplitHostPort (TrimSpace rhs) of
                  Inl e \<Rightarrow> Inl (BadTargetAddr e)
                | Inr (host, portStr) \<Rightarrow>
                    (case ip4u32 (TrimSpace host) of
                       None \<Rightarrow> Inl BadTargetIP
                     | Some ip \<Rightarrow>
                         (case parsePort portStr of
                            None \<Rightarrow> Inl BadTargetPort
                          | Some tport \<Rightarrow>
                              Inr \<lparr>r_vport = vport, r_target_ip = ip, r_target_port = tport\<rparr>)))))"

fun ParseList :: "string list \<Rightarrow> rule_error + rule list" where
  "ParseList [] = Inr []"
| "ParseList (s # list) =
     (case Parse s of
        Inl e \<Rightarrow> Inl e
      | Inr r \<Rightarrow> (case ParseList list of Inl e \<Rightarrow> Inl e | Inr rs \<Rightarrow> Inr (r # rs)))"

text \<open>The loop of \<^verbatim>\<open>ParseSet\<close> over the ports seen so far.\<close>

fun check_ports :: "u16 list \<Rightarrow> rule list \<Rightarrow> u16 option" where
  "check_ports seen [] = None"
| "check_ports seen (r # rs) =
     (if r_vport r \<in> set seen then Some (r_vport r) else check_ports (r_vport r # seen) rs)"

definition ParseSet :: "string list \<Rightarrow> rule_error + rule list" where
  "ParseSet list =
     (case ParseList list of
        Inl e \<Rightarrow> Inl e
      | Inr rules \<Rightarrow> (case check_ports [] rules of
                      Some p \<Rightarrow> Inl (RepeatedPort p)
                    | None \<Rightarrow> Inr rules))"

definition config_separators :: "string list" where
  "config_separators = [[CHR 0x0A], [CHR 0x0D], '','', '';''] @ space_runes"

text \<open>
  \<^verbatim>\<open>strings.FieldsFunc\<close>: runs of runes that are no separators; \<open>cur\<close> is the field being
  read. A byte that starts no valid rune counts as one rune.
\<close>

definition next_rune :: "string \<Rightarrow> string" where
  "next_rune s = take (max 1 (rune_len s)) s"

function fields :: "string list \<Rightarrow> string \<Rightarrow> string \<Rightarrow> string list" where
  "fields seps cur s =
     (if s = [] then (if cur = [] then [] else [cur])
      else let r = next_rune s; rest = drop (length r) s
           in if r \<in> set seps then (if cur = [] then [] else [cur]) @ fields seps [] rest
              else fields seps (cur @ r) rest)"
  by pat_completeness auto
termination
  by (relation "measure (\<lambda>(seps, cur, s). length s)") (auto simp: next_rune_def min_def max_def)

declare fields.simps [simp del]

definition SplitConfig :: "string \<Rightarrow> string list" where
  "SplitConfig v = filter (\<lambda>f. f \<noteq> []) (map TrimSpace (fields config_separators [] v))"

definition ParseConfig :: "string \<Rightarrow> rule_error + rule list" where
  "ParseConfig v = ParseList (SplitConfig v)"

section \<open>Text round trip\<close>

lemma parsePort_dec:
  assumes "0 < n" and "n \<le> 65535" shows "parsePort (dec n) = Some (of_nat n)"
  using assms Atoi_dec [of n] by (simp add: parsePort_def)

lemma unat_u16_bounds: "(p :: u16) \<noteq> 0 \<Longrightarrow> 0 < unat p \<and> unat p \<le> 65535"
  using unat_u16_less [of p] by (simp add: unat_gt_0)

lemma parsePort_unat: "(p :: u16) \<noteq> 0 \<Longrightarrow> parsePort (dec (unat p)) = Some p"
  using parsePort_dec [of "unat p"] unat_u16_bounds [of p] by simp

lemma parsePort_nonzero: "parsePort s = Some p \<Longrightarrow> p \<noteq> 0"
proof -
  assume "parsePort s = Some p"
  then obtain n :: int where "p = of_int n" "\<not> n < 1" "\<not> 65535 < n"
    by (auto simp: parsePort_def split: option.splits if_splits)
  then have n: "1 \<le> n" "n \<le> 65535" "p = of_int n" by simp_all
  then have "uint p = n" by (simp add: uint_word_of_int)
  then show "p \<noteq> 0" using n(1) by auto
qed

text \<open>Decimal and dotted-decimal text holds digits and dots only.\<close>

lemma v4_string_chars: "c \<in> set (v4_string bs) \<Longrightarrow> is_digit c \<or> c = CHR ''.''"
  by (auto simp: v4_string_def dest: dec_digits)

lemma v4_string_plain: "set (v4_string bs) \<inter> {CHR '':'', CHR ''['', CHR '']''} = {}"
  using v4_string_chars by (fastforce simp: is_digit_def)

lemma dec_plain: "set (dec n) \<inter> {CHR '':'', CHR ''['', CHR '']''} = {}"
  using dec_digits by (fastforce simp: is_digit_def)

lemma dec_no_eq: "CHR ''='' \<notin> set (dec n)"
  using dec_digits by (fastforce simp: is_digit_def)

lemma digit_or_dot_graphic: "is_digit c \<or> c = CHR ''.'' \<Longrightarrow> graphic c"
  using is_digit_graphic by (auto simp: graphic_def)

lemma v4_string_nonempty [simp]: "v4_string bs \<noteq> []"
  by (simp add: v4_string_def)

lemma TrimSpace_v4 [simp]: "TrimSpace (v4_string bs) = v4_string bs"
proof (rule TrimSpace_graphic)
  show "graphic (hd (v4_string bs))"
    by (rule digit_or_dot_graphic, rule v4_string_chars, rule hd_in_set) simp
  show "graphic (last (v4_string bs))"
    by (rule digit_or_dot_graphic, rule v4_string_chars, rule last_in_set) simp
qed simp

lemma ip4u32_ipString [simp]: "ip4u32 (ipString v) = Some v"
  by (simp add: ip4u32_def ipString_def ParseIP_v4_string)

lemma TrimSpace_Target [simp]: "TrimSpace (Target r) = Target r"
proof (rule TrimSpace_graphic)
  show "graphic (hd (Target r))"
    using digit_or_dot_graphic [OF v4_string_chars, OF hd_in_set, OF v4_string_nonempty]
    by (simp add: Target_def ipString_def)
  show "graphic (last (Target r))"
    using is_digit_graphic [OF dec_digits, OF last_in_set, OF dec_nonempty]
    by (simp add: Target_def)
qed (simp add: Target_def ipString_def)

definition rule_ok :: "rule \<Rightarrow> bool" where
  "rule_ok r \<longleftrightarrow> r_vport r \<noteq> 0 \<and> r_target_port r \<noteq> 0"

lemma Parse_Rule_String:
  assumes "rule_ok r" shows "Parse (Rule_String r) = Inr r"
proof -
  have "split_pair CHR ''='' (Rule_String r) = Some (dec (unat (r_vport r)), Target r)"
    using split_pair_append [OF dec_no_eq] by (simp add: Rule_String_def)
  moreover have "SplitHostPort (Target r) = Inr (ipString (r_target_ip r), dec (unat (r_target_port r)))"
    unfolding Target_def ipString_def by (rule SplitHostPort_plain [OF v4_string_plain dec_plain])
  moreover have "TrimSpace (ipString v) = ipString v" for v by (simp add: ipString_def)
  ultimately show ?thesis using assms by (simp add: Parse_def rule_ok_def parsePort_unat)
qed

definition parse_rule :: "string \<Rightarrow> rule option" where
  "parse_rule s = (case Parse s of Inl _ \<Rightarrow> None | Inr r \<Rightarrow> Some r)"

interpretation rule_text: codec Rule_String parse_rule rule_ok
  by unfold_locales (simp add: parse_rule_def Parse_Rule_String)

lemma Parse_ok: "Parse s = Inr r \<Longrightarrow> rule_ok r"
  by (auto simp: Parse_def rule_ok_def dest: parsePort_nonzero split: option.splits sum.splits prod.splits)

section \<open>Lists and sets of rules\<close>

lemma ParseList_Inr: "ParseList list = Inr rs \<longleftrightarrow> map Parse list = map Inr rs"
proof (induction list arbitrary: rs)
  case (Cons s list)
  then show ?case by (cases rs; cases "Parse s"; cases "ParseList list") auto
qed auto

text \<open>The first bad rule decides the error.\<close>

lemma ParseList_first_error:
  "ParseList list =
     (case List.find (\<lambda>s. isl (Parse s)) list of
        Some s \<Rightarrow> Inl (projl (Parse s))
      | None \<Rightarrow> Inr (map (\<lambda>s. projr (Parse s)) list))"
proof (induction list)
  case (Cons s list)
  then show ?case by (cases "Parse s") (auto split: option.splits)
qed simp

lemma check_ports_None:
  "check_ports seen rs = None \<longleftrightarrow> distinct (map r_vport rs) \<and> set seen \<inter> r_vport ` set rs = {}"
  by (induction rs arbitrary: seen) auto

lemma ParseSet_Inr:
  "ParseSet list = Inr rs \<longleftrightarrow> map Parse list = map Inr rs \<and> distinct (map r_vport rs)"
proof -
  have "ParseSet list = Inr rs \<longleftrightarrow> ParseList list = Inr rs \<and> check_ports [] rs = None"
    by (auto simp: ParseSet_def split: sum.splits option.splits)
  then show ?thesis by (simp add: ParseList_Inr check_ports_None)
qed

lemma ParseSet_round_trip:
  assumes "list_all rule_ok rs" and "distinct (map r_vport rs)"
  shows "ParseSet (map Rule_String rs) = Inr rs"
  using assms by (auto simp: ParseSet_Inr Parse_Rule_String list_all_iff)

section \<open>Properties\<close>

text \<open>A rule printed with \<^verbatim>\<open>Rule.String\<close> parses back to itself, and every rule that
  parses has nonzero ports, so every parsed rule has this round trip.\<close>

theorem rule_text_round_trip:
  "(rule_ok r \<longrightarrow> Parse (Rule_String r) = Inr r) \<and> (Parse s = Inr r \<longrightarrow> rule_ok r)"
  using Parse_Rule_String Parse_ok by blast

theorem rule_text_round_trip_witness:
  "Parse (Rule_String \<lparr>r_vport = 8080, r_target_ip = 0xC0A80105, r_target_port = 80\<rparr>)
   = Inr \<lparr>r_vport = 8080, r_target_ip = 0xC0A80105, r_target_port = 80\<rparr>"
  using rule_text_round_trip [of "\<lparr>r_vport = 8080, r_target_ip = 0xC0A80105, r_target_port = 80\<rparr>"]
  by (simp add: rule_ok_def)

text \<open>\<^verbatim>\<open>ParseSet\<close> accepts a list exactly when every entry parses and no virtual port
  occurs twice, and returns the parsed rules in order: on the client, which indexes the rules
  by port, none of an accepted set overwrites another.\<close>

theorem parse_set_exact:
  "ParseSet list = Inr rs \<longleftrightarrow> map Parse list = map Inr rs \<and> distinct (map r_vport rs)"
  by (rule ParseSet_Inr)

end
