(* ===== verification/DeviceTable.thy ===== *)
theory DeviceTable
  imports IPPool Forward "HOL-Library.Signed_Division" "HOL-Library.Product_Lexorder"
begin

text \<open>
  The device table of \<^verbatim>\<open>internal/server/devices.go\<close>: one record per hardware identifier
  (address lease, forwarding rules, credential, block flag), the two reverse indexes, and the
  file it is saved to and loaded from. Every operation is one atomic step, as each runs under
  the table's mutex. An instant is its nanoseconds since Go's zero time, so \<open>IsZero\<close> is
  \<open>= 0\<close>.
\<close>

type_synonym gotime = int

definition Second :: int where "Second = 1000000000"

definition LeaseDuration :: int where "LeaseDuration = 31 * 24 * 3600 * Second"

text \<open>\<^verbatim>\<open>time.Time.Unix\<close>; the zero time is 62135596800 seconds before 1970.\<close>

definition Unix :: "gotime \<Rightarrow> int" where
  "Unix t = t div Second - 62135596800"

record device_record =
  d_hwid :: string
  d_name :: string
  d_vip :: u32
  d_expire :: gotime
  d_forward :: "string list"
  d_device_id :: string
  d_device_key :: string
  d_blocked :: bool

definition new_record :: "string \<Rightarrow> device_record" where
  "new_record hwid =
     \<lparr>d_hwid = hwid, d_name = [], d_vip = 0, d_expire = 0, d_forward = [],
      d_device_id = [], d_device_key = [], d_blocked = False\<rparr>"

text \<open>The saved form: the address is dotted-decimal text, empty for none.\<close>

record device_json =
  j_hwid :: string
  j_name :: string
  j_vip :: string
  j_expire :: gotime
  j_forward :: "string list"
  j_device_id :: string
  j_device_key :: string
  j_blocked :: bool

record device_file =
  f_version :: int
  f_devices :: "device_json list"

text \<open>
  \<^verbatim>\<open>DeviceTable\<close>. \<open>t_disk\<close> is the content of the file at \<open>t_path\<close> (none before the
  first save) and \<open>t_writable\<close> whether the file system accepts writes: a failed write is
  only logged.
\<close>

record device_table =
  t_path :: string
  t_by_hwid :: "(string \<times> device_record) list"
  t_by_vip :: "u32 \<Rightarrow> string option"
  t_by_device_id :: "string \<Rightarrow> string option"
  t_disk :: "device_file option"
  t_writable :: bool

definition find_record :: "device_table \<Rightarrow> string \<Rightarrow> device_record option" where
  "find_record t hwid = map_of (t_by_hwid t) hwid"

definition put_record :: "string \<Rightarrow> device_record \<Rightarrow> device_table \<Rightarrow> device_table" where
  "put_record hwid rec t = t\<lparr>t_by_hwid := AList.update hwid rec (t_by_hwid t)\<rparr>"

text \<open>The record of a device, created when there is none.\<close>

definition record_or_new :: "device_table \<Rightarrow> string \<Rightarrow> device_record" where
  "record_or_new t hwid = (case find_record t hwid of Some rec \<Rightarrow> rec | None \<Rightarrow> new_record hwid)"

definition record_json :: "device_record \<Rightarrow> device_json" where
  "record_json rec =
     \<lparr>j_hwid = d_hwid rec, j_name = d_name rec,
      j_vip = (if d_vip rec \<noteq> 0 then IP4String (d_vip rec) else []),
      j_expire = (if d_vip rec \<noteq> 0 then d_expire rec else 0),
      j_forward = d_forward rec, j_device_id = d_device_id rec,
      j_device_key = d_device_key rec, j_blocked = d_blocked rec\<rparr>"

definition device_file_of :: "(string \<times> device_record) list \<Rightarrow> device_file" where
  "device_file_of recs =
     \<lparr>f_version = 1, f_devices = sort_key j_hwid (map (\<lambda>(_, rec). record_json rec) recs)\<rparr>"

definition saveLocked :: "device_table \<Rightarrow> device_table" where
  "saveLocked t =
     (if t_path t = [] then t
      else if t_writable t then t\<lparr>t_disk := Some (device_file_of (t_by_hwid t))\<rparr>
      else t)"

definition empty_table :: "string \<Rightarrow> device_file option \<Rightarrow> bool \<Rightarrow> device_table" where
  "empty_table path disk writable =
     \<lparr>t_path = path, t_by_hwid = [], t_by_vip = (\<lambda>_. None), t_by_device_id = (\<lambda>_. None),
      t_disk = disk, t_writable = writable\<rparr>"

text \<open>One record of the file, in the loop of \<^verbatim>\<open>NewDeviceTable\<close>.\<close>

definition load_device :: "device_table \<Rightarrow> device_json \<Rightarrow> device_table" where
  "load_device t d =
     (if j_hwid d = [] then t
      else
        let rec = \<lparr>d_hwid = j_hwid d, d_name = j_name d, d_vip = 0, d_expire = j_expire d,
                   d_forward = j_forward d, d_device_id = j_device_id d,
                   d_device_key = j_device_key d, d_blocked = j_blocked d\<rparr>;
            t1 = (if j_device_id d \<noteq> [] \<and> t_by_device_id t (j_device_id d) = None
                  then t\<lparr>t_by_device_id := (t_by_device_id t)(j_device_id d \<mapsto> j_hwid d)\<rparr> else t);
            (rec2, t2) =
              (if j_vip d \<noteq> [] then
                 (case IP4 (j_vip d) of
                    None \<Rightarrow> (rec, t1)
                  | Some vip \<Rightarrow> (rec\<lparr>d_vip := vip\<rparr>, t1\<lparr>t_by_vip := (t_by_vip t1)(vip \<mapsto> j_hwid d)\<rparr>))
               else (rec, t1))
        in put_record (j_hwid d) rec2 t2)"

definition NewDeviceTable :: "string \<Rightarrow> device_file option \<Rightarrow> bool \<Rightarrow> device_table" where
  "NewDeviceTable path disk writable =
     (if path = [] then empty_table path disk writable
      else case disk of
             None \<Rightarrow> empty_table path disk writable
           | Some f \<Rightarrow> foldl load_device (empty_table path disk writable) (f_devices f))"

section \<open>Credentials and blocking\<close>

datatype device_error =
  EmptyIdentity | CredentialTaken | AlreadyRegistered | MissingHWID | BadRules rule_error
  | NoSuchDevice | AddressNotAllocatable | AddressAssigned string | AddressInUse | PoolExhausted

definition SetCredential :: "device_table \<Rightarrow> string \<Rightarrow> string \<Rightarrow> string \<Rightarrow> string
    \<Rightarrow> device_error + device_table" where
  "SetCredential t hwid name deviceID deviceKey =
     (if hwid = [] \<or> deviceID = [] \<or> deviceKey = [] then Inl EmptyIdentity
      else if (case t_by_device_id t deviceID of Some owner \<Rightarrow> owner \<noteq> hwid | None \<Rightarrow> False)
        then Inl CredentialTaken
      else let rec = record_or_new t hwid
           in if d_device_id rec \<noteq> [] then Inl AlreadyRegistered
              else let rec1 = rec\<lparr>d_device_id := deviceID, d_device_key := deviceKey\<rparr>;
                       rec2 = (if name \<noteq> [] then rec1\<lparr>d_name := name\<rparr> else rec1);
                       t1 = put_record hwid rec2 t
                   in Inr (saveLocked (t1\<lparr>t_by_device_id := (t_by_device_id t1)(deviceID \<mapsto> hwid)\<rparr>)))"

definition DeviceKeyByID :: "device_table \<Rightarrow> string \<Rightarrow> string" where
  "DeviceKeyByID t deviceID =
     (if deviceID = [] then []
      else case t_by_device_id t deviceID of
             None \<Rightarrow> []
           | Some hwid \<Rightarrow>
               if hwid = [] then []
               else (case find_record t hwid of Some rec \<Rightarrow> d_device_key rec | None \<Rightarrow> []))"

definition Credential_of :: "device_table \<Rightarrow> string \<Rightarrow> (string \<times> string) option" where
  "Credential_of t hwid =
     (if hwid = [] then None
      else case find_record t hwid of
             None \<Rightarrow> None
           | Some rec \<Rightarrow> if d_device_id rec = [] then None else Some (d_device_id rec, d_device_key rec))"

definition drop_credential :: "string \<Rightarrow> device_record \<Rightarrow> device_table \<Rightarrow> device_table" where
  "drop_credential hwid rec t =
     put_record hwid (rec\<lparr>d_device_id := [], d_device_key := []\<rparr>)
       (t\<lparr>t_by_device_id := (t_by_device_id t)(d_device_id rec := None)\<rparr>)"

definition ClearCredential :: "device_table \<Rightarrow> string \<Rightarrow> bool \<times> device_table" where
  "ClearCredential t hwid =
     (if hwid = [] then (False, t)
      else case find_record t hwid of
             None \<Rightarrow> (False, t)
           | Some rec \<Rightarrow>
               if d_device_id rec = [] then (False, t)
               else (True, saveLocked (drop_credential hwid rec t)))"

definition IsBlocked :: "device_table \<Rightarrow> string \<Rightarrow> bool" where
  "IsBlocked t hwid =
     (if hwid = [] then False
      else case find_record t hwid of None \<Rightarrow> False | Some rec \<Rightarrow> d_blocked rec)"

text \<open>A record created by \<^verbatim>\<open>Block\<close> stays even when nothing else changes.\<close>

definition Block :: "device_table \<Rightarrow> string \<Rightarrow> bool \<times> device_table" where
  "Block t hwid =
     (if hwid = [] then (False, t)
      else let rec = record_or_new t hwid; t1 = put_record hwid rec t
           in if d_blocked rec \<and> d_device_id rec = [] then (False, t1)
              else let t2 = (if d_device_id rec \<noteq> [] then drop_credential hwid rec t1 else t1);
                       rec2 = record_or_new t2 hwid
                   in (True, saveLocked (put_record hwid (rec2\<lparr>d_blocked := True\<rparr>) t2)))"

definition Unblock :: "device_table \<Rightarrow> string \<Rightarrow> bool \<times> device_table" where
  "Unblock t hwid =
     (if hwid = [] then (False, t)
      else case find_record t hwid of
             None \<Rightarrow> (False, t)
           | Some rec \<Rightarrow>
               if \<not> d_blocked rec then (False, t)
               else (True, saveLocked (put_record hwid (rec\<lparr>d_blocked := False\<rparr>) t)))"

section \<open>Leases\<close>

definition lease_expired :: "gotime \<Rightarrow> device_record \<Rightarrow> bool" where
  "lease_expired now rec \<longleftrightarrow> \<not> (d_vip rec = 0 \<or> d_expire rec = 0 \<or> now < d_expire rec)"

definition prune_step :: "gotime \<Rightarrow> string \<times> device_record
    \<Rightarrow> device_table \<times> ip_pool \<times> nat \<Rightarrow> device_table \<times> ip_pool \<times> nat" where
  "prune_step now e st =
     (case (e, st) of ((hwid, rec), (t, pool, n)) \<Rightarrow>
        if \<not> lease_expired now rec then st
        else (put_record hwid (rec\<lparr>d_vip := 0, d_expire := 0\<rparr>)
                (t\<lparr>t_by_vip := (t_by_vip t)(d_vip rec := None)\<rparr>),
              Release pool (d_vip rec), Suc n))"

definition pruneLocked :: "gotime \<Rightarrow> device_table \<Rightarrow> ip_pool \<Rightarrow> device_table \<times> ip_pool \<times> nat" where
  "pruneLocked now t pool = foldl (\<lambda>st e. prune_step now e st) (t, pool, 0) (t_by_hwid t)"

definition Prune :: "gotime \<Rightarrow> device_table \<Rightarrow> ip_pool \<Rightarrow> device_table \<times> ip_pool \<times> nat" where
  "Prune now t pool =
     (case pruneLocked now t pool of (t1, pool1, n) \<Rightarrow>
        (if n > 0 then saveLocked t1 else t1, pool1, n))"

text \<open>The address \<^verbatim>\<open>Assign\<close> settles on, with the reverse index and the pool.\<close>

definition choose_vip :: "string \<Rightarrow> u32 \<Rightarrow> device_table \<Rightarrow> ip_pool
    \<Rightarrow> (u32 \<times> device_table \<times> ip_pool) option" where
  "choose_vip hwid have t pool =
     (if have = 0 then
        (case Alloc pool of
           None \<Rightarrow> None
         | Some (vip, pool1) \<Rightarrow> Some (vip, t\<lparr>t_by_vip := (t_by_vip t)(vip \<mapsto> hwid)\<rparr>, pool1))
      else if Held pool have then Some (have, t, pool)
      else (case AllocAt pool have of
              Some pool1 \<Rightarrow> Some (have, t, pool1)
            | None \<Rightarrow>
                (case Alloc pool of
                   None \<Rightarrow> None
                 | Some (vip, pool1) \<Rightarrow>
                     Some (vip, t\<lparr>t_by_vip := (t_by_vip t)(have := None, vip \<mapsto> hwid)\<rparr>, pool1))))"

definition Assign :: "device_table \<Rightarrow> string \<Rightarrow> string \<Rightarrow> ip_pool \<Rightarrow> gotime
    \<Rightarrow> (device_error + u32 \<times> gotime) \<times> device_table \<times> ip_pool" where
  "Assign t hwid name pool now =
     (case pruneLocked now t pool of (t1, pool1, _) \<Rightarrow>
        let rec = record_or_new t1 hwid; t2 = put_record hwid rec t1
        in case choose_vip hwid (d_vip rec) t2 pool1 of
             None \<Rightarrow> (Inl PoolExhausted, t2, pool1)
           | Some (vip, t3, pool2) \<Rightarrow>
               (Inr (vip, now + LeaseDuration),
                saveLocked (put_record hwid
                  (rec\<lparr>d_vip := vip, d_name := name, d_expire := now + LeaseDuration\<rparr>) t3),
                pool2))"

definition SetIP :: "device_table \<Rightarrow> string \<Rightarrow> u32 \<Rightarrow> ip_pool
    \<Rightarrow> device_error + device_table \<times> ip_pool" where
  "SetIP t hwid vip pool =
     (if hwid = [] then Inl MissingHWID
      else case find_record t hwid of
             None \<Rightarrow> Inl NoSuchDevice
           | Some rec \<Rightarrow>
               if \<not> InRange pool vip then Inl AddressNotAllocatable
               else if (case t_by_vip t vip of Some owner \<Rightarrow> owner \<noteq> hwid | None \<Rightarrow> False)
                 then Inl (AddressAssigned (the (t_by_vip t vip)))
               else if d_vip rec = vip then Inr (t, pool)
               else (case AllocAt pool vip of
                       None \<Rightarrow> Inl AddressInUse
                     | Some pool1 \<Rightarrow>
                         let (t1, pool2) =
                               (if d_vip rec \<noteq> 0
                                then (t\<lparr>t_by_vip := (t_by_vip t)(d_vip rec := None)\<rparr>, Release pool1 (d_vip rec))
                                else (t, pool1));
                             t2 = put_record hwid (rec\<lparr>d_vip := vip\<rparr>)
                                    (t1\<lparr>t_by_vip := (t_by_vip t1)(vip \<mapsto> hwid)\<rparr>)
                         in Inr (saveLocked t2, pool2)))"

section \<open>Forwarding rules\<close>

definition Forward_of :: "device_table \<Rightarrow> string \<Rightarrow> string list" where
  "Forward_of t hwid =
     (if hwid = [] then []
      else case find_record t hwid of None \<Rightarrow> [] | Some rec \<Rightarrow> d_forward rec)"

definition SetForward :: "device_table \<Rightarrow> string \<Rightarrow> string list \<Rightarrow> device_error + device_table" where
  "SetForward t hwid rules =
     (if hwid = [] then Inl MissingHWID
      else case ParseSet rules of
             Inl e \<Rightarrow> Inl (BadRules e)
           | Inr _ \<Rightarrow>
               Inr (saveLocked (put_record hwid ((record_or_new t hwid)\<lparr>d_forward := rules\<rparr>) t)))"

section \<open>Snapshots\<close>

record lease_info =
  l_hwid :: string
  l_name :: string
  l_vip :: string
  l_online :: bool
  l_expire_at :: int
  l_remain_secs :: int
  l_forward :: "string list"
  l_registered :: bool
  l_blocked :: bool

text \<open>\<^verbatim>\<open>int64(d.Seconds())\<close>: whole seconds towards zero.\<close>

definition whole_seconds :: "int \<Rightarrow> int" where
  "whole_seconds d = d sdiv Second"

definition lease_info_of :: "gotime \<Rightarrow> (u32 \<Rightarrow> bool) \<Rightarrow> device_record \<Rightarrow> lease_info" where
  "lease_info_of now online rec =
     (let has = d_vip rec \<noteq> 0; dated = has \<and> d_expire rec \<noteq> 0
      in \<lparr>l_hwid = d_hwid rec, l_name = d_name rec,
          l_vip = (if has then IP4String (d_vip rec) else []),
          l_online = (has \<and> online (d_vip rec)),
          l_expire_at = (if dated then Unix (d_expire rec) else 0),
          l_remain_secs = (if dated then whole_seconds (d_expire rec - now) else 0),
          l_forward = d_forward rec,
          l_registered = (d_device_id rec \<noteq> []), l_blocked = d_blocked rec\<rparr>)"

definition lease_order :: "lease_info \<Rightarrow> bool \<times> string \<times> string" where
  "lease_order li = (l_vip li = [], l_vip li, l_hwid li)"

definition table_Snapshot :: "device_table \<Rightarrow> gotime \<Rightarrow> (u32 \<Rightarrow> bool) \<Rightarrow> lease_info list" where
  "table_Snapshot t now online =
     sort_key lease_order (map (\<lambda>(_, rec). lease_info_of now online rec) (t_by_hwid t))"

definition table_Len :: "device_table \<Rightarrow> nat" where
  "table_Len t = length (t_by_hwid t)"

definition shortHWID :: "string \<Rightarrow> string" where
  "shortHWID hwid = (if length hwid \<le> 8 then hwid else take 8 hwid)"

end
