(* ===== verification/Leases.thy ===== *)
theory Leases
  imports DeviceTable
begin

text \<open>
  Correctness of the device table: the invariant that ties the records, the two reverse
  indexes and the address pool together, its preservation by every operation, and what
  follows for leases, credentials and blocking.
\<close>

section \<open>Looking through the operations\<close>

named_theorems table_simps \<open>the components of a device table after an operation\<close>

lemma find_put [table_simps]: "find_record (put_record h rec t) = (find_record t)(h \<mapsto> rec)"
  by (simp add: find_record_def put_record_def fun_eq_iff)

lemma put_record_fields [table_simps]:
  "t_path (put_record h rec t) = t_path t" "t_by_vip (put_record h rec t) = t_by_vip t"
  "t_by_device_id (put_record h rec t) = t_by_device_id t" "t_disk (put_record h rec t) = t_disk t"
  "t_writable (put_record h rec t) = t_writable t"
  "t_by_hwid (put_record h rec t) = AList.update h rec (t_by_hwid t)"
  by (simp_all add: put_record_def)

lemma find_record_cong [table_simps]:
  "find_record (t\<lparr>t_by_vip := x\<rparr>) = find_record t"
  "find_record (t\<lparr>t_by_device_id := y\<rparr>) = find_record t"
  "find_record (t\<lparr>t_disk := z\<rparr>) = find_record t"
  by (simp_all add: find_record_def fun_eq_iff)

lemma save_fields [table_simps]:
  "t_by_hwid (saveLocked t) = t_by_hwid t" "t_by_vip (saveLocked t) = t_by_vip t"
  "t_by_device_id (saveLocked t) = t_by_device_id t" "find_record (saveLocked t) = find_record t"
  "t_path (saveLocked t) = t_path t" "t_writable (saveLocked t) = t_writable t"
  by (simp_all add: saveLocked_def find_record_def fun_eq_iff)

lemma record_or_new_Some [simp]: "find_record t h = Some rec \<Longrightarrow> record_or_new t h = rec"
  by (simp add: record_or_new_def)

lemma put_record_twice:
  "put_record h r ((put_record h r' t)\<lparr>t_by_vip := x\<rparr>) = put_record h r (t\<lparr>t_by_vip := x\<rparr>)"
  by (simp add: put_record_def update_last)

section \<open>The invariant\<close>

definition records_ok :: "(string \<times> device_record) list \<Rightarrow> bool" where
  "records_ok recs \<longleftrightarrow>
     keys_distinct recs \<and> list_all (\<lambda>(h, rec). d_hwid rec = h \<and> h \<noteq> []) recs"

text \<open>An index maps exactly the nonempty values of a field to the device that has them.\<close>

definition indexes :: "('v \<Rightarrow> string option) \<Rightarrow> (device_record \<Rightarrow> 'v) \<Rightarrow> 'v
    \<Rightarrow> (string \<Rightarrow> device_record option) \<Rightarrow> bool" where
  "indexes idx field none recs \<longleftrightarrow>
     (\<forall>v h. idx v = Some h \<longleftrightarrow> v \<noteq> none \<and> (\<exists>rec. recs h = Some rec \<and> field rec = v))"

definition table_ok :: "device_table \<Rightarrow> bool" where
  "table_ok t \<longleftrightarrow>
     records_ok (t_by_hwid t)
     \<and> indexes (t_by_device_id t) d_device_id [] (find_record t)
     \<and> indexes (t_by_vip t) d_vip 0 (find_record t)"

definition reserves :: "ip_pool \<Rightarrow> device_table \<Rightarrow> bool" where
  "reserves pool t \<longleftrightarrow> (\<forall>h rec. find_record t h = Some rec \<longrightarrow> d_vip rec \<noteq> 0 \<longrightarrow> Held pool (d_vip rec))"

definition lease_ok :: "device_table \<Rightarrow> ip_pool \<Rightarrow> bool" where
  "lease_ok t pool \<longleftrightarrow> table_ok t \<and> pool_ok pool \<and> \<not> InRange pool 0 \<and> reserves pool t"

lemma indexesD:
  "indexes idx field none recs \<Longrightarrow> idx v = Some h \<Longrightarrow> v \<noteq> none \<and> (\<exists>rec. recs h = Some rec \<and> field rec = v)"
  by (simp add: indexes_def)

lemma indexesI:
  "indexes idx field none recs \<Longrightarrow> recs h = Some rec \<Longrightarrow> field rec \<noteq> none \<Longrightarrow> idx (field rec) = Some h"
  by (auto simp: indexes_def)

lemma indexes_unique:
  assumes "indexes idx field none recs" and "recs h = Some rec" and "recs h' = Some rec'"
    and "field rec = field rec'" and "field rec \<noteq> none"
  shows "h = h'"
  using indexesI [OF assms(1,2,5)] indexesI [OF assms(1,3)] assms(4,5) by auto

text \<open>
  How an index follows a record update: the field unchanged, cleared, set on a record that
  had none, or moved to a value nobody else has.
\<close>

lemma indexes_same:
  assumes "indexes idx field none recs" and "recs h = Some rec" and "field rec' = field rec"
  shows "indexes idx field none (recs(h \<mapsto> rec'))"
  using assms by (auto simp: indexes_def)

lemma indexes_fresh:
  assumes "indexes idx field none recs" and "recs h = None" and "field rec' = none"
  shows "indexes idx field none (recs(h \<mapsto> rec'))"
  using assms by (auto simp: indexes_def)

lemma indexes_same_or_new:
  assumes "indexes idx field none (find_record t)" and "field rec' = field (record_or_new t h)"
    and "field (new_record h) = none"
  shows "indexes idx field none ((find_record t)(h \<mapsto> rec'))"
proof (cases "find_record t h")
  case None
  then show ?thesis
    using assms(2,3) by (intro indexes_fresh [OF assms(1)]) (simp_all add: record_or_new_def)
next
  case (Some rec)
  then show ?thesis using assms(2) by (intro indexes_same [OF assms(1)]) simp_all
qed

lemma indexes_clear:
  assumes idx: "indexes idx field none recs" and rec: "recs h = Some rec" and clear: "field rec' = none"
  shows "indexes (idx(field rec := None)) field none (recs(h \<mapsto> rec'))"
  unfolding indexes_def
proof (intro allI)
  fix v k
  show "(idx(field rec := None)) v = Some k \<longleftrightarrow>
      v \<noteq> none \<and> (\<exists>r. (recs(h \<mapsto> rec')) k = Some r \<and> field r = v)"
  proof (cases "k = h")
    case True
    have "idx v = Some h \<Longrightarrow> v = field rec" using indexesD [OF idx] rec by fastforce
    then show ?thesis using True clear by auto
  next
    case False
    then have "recs k = Some r \<Longrightarrow> field r = field rec \<Longrightarrow> field rec = none" for r
      using indexes_unique [OF idx rec] by metis
    then show ?thesis using False idx by (auto simp: indexes_def)
  qed
qed

lemma indexes_set:
  assumes idx: "indexes idx field none recs"
    and old: "\<And>rec. recs h = Some rec \<Longrightarrow> field rec = none \<or> field rec = field rec'"
    and free: "idx (field rec') = None \<or> idx (field rec') = Some h" and set: "field rec' \<noteq> none"
  shows "indexes (idx(field rec' \<mapsto> h)) field none (recs(h \<mapsto> rec'))"
  unfolding indexes_def
proof (intro allI)
  fix v k
  show "(idx(field rec' \<mapsto> h)) v = Some k \<longleftrightarrow>
      v \<noteq> none \<and> (\<exists>r. (recs(h \<mapsto> rec')) k = Some r \<and> field r = v)"
  proof (cases "k = h")
    case True
    have "idx v = Some h \<Longrightarrow> v = field rec'" using indexesD [OF idx] old by fastforce
    then show ?thesis using True set by auto
  next
    case False
    then have "recs k = Some r \<Longrightarrow> field r \<noteq> field rec'" for r
      using indexesI [OF idx] free set by (metis option.distinct(1) option.inject)
    then show ?thesis using False idx by (auto simp: indexes_def)
  qed
qed

lemma records_ok_put:
  assumes "records_ok (t_by_hwid t)" and "d_hwid rec = h" and "h \<noteq> []"
  shows "records_ok (t_by_hwid (put_record h rec t))"
proof -
  have "set (AList.update h rec m) \<subseteq> insert (h, rec) (set m)" for m
    by (induction m) auto
  then show ?thesis
    using assms unfolding records_ok_def put_record_fields list_all_iff by fastforce
qed

lemma find_record_hwid: "records_ok (t_by_hwid t) \<Longrightarrow> find_record t h = Some rec \<Longrightarrow> d_hwid rec = h \<and> h \<noteq> []"
  unfolding find_record_def records_ok_def list_all_iff by (fastforce dest: map_of_SomeD)

lemma record_or_new_hwid: "records_ok (t_by_hwid t) \<Longrightarrow> d_hwid (record_or_new t h) = h"
  using find_record_hwid by (auto simp: record_or_new_def new_record_def split: option.splits)

lemma new_record_fields [simp]:
  "d_vip (new_record h) = 0" "d_device_id (new_record h) = []" "d_blocked (new_record h) = False"
  "d_hwid (new_record h) = h"
  by (simp_all add: new_record_def)

lemma reserves_put:
  assumes "reserves pool t" and "d_vip rec \<noteq> 0 \<longrightarrow> Held pool (d_vip rec)"
  shows "reserves pool (put_record h rec t)"
  using assms by (simp add: reserves_def table_simps)

lemma table_ok_save [simp]: "table_ok (saveLocked t) = table_ok t"
  by (simp add: table_ok_def table_simps)

lemma reserves_save [simp]: "reserves pool (saveLocked t) = reserves pool t"
  by (simp add: reserves_def table_simps)

lemma lease_ok_save [simp]: "lease_ok (saveLocked t) pool = lease_ok t pool"
  by (simp add: lease_ok_def)

text \<open>Creating the record of a device, and updating fields that no index covers.\<close>

lemma table_ok_update:
  assumes "table_ok t" and "h \<noteq> []" and "d_hwid rec = h"
    and "d_vip rec = d_vip (record_or_new t h)" and "d_device_id rec = d_device_id (record_or_new t h)"
  shows "table_ok (put_record h rec t)"
  using assms by (simp add: table_ok_def find_put records_ok_put put_record_fields(2,3)
      indexes_same_or_new)

lemma lease_ok_update:
  assumes "lease_ok t pool" and "h \<noteq> []" and "d_hwid rec = h"
    and "d_vip rec = d_vip (record_or_new t h)" and "d_device_id rec = d_device_id (record_or_new t h)"
  shows "lease_ok (put_record h rec t) pool"
proof -
  have "d_vip rec \<noteq> 0 \<longrightarrow> Held pool (d_vip rec)"
    using assms(1,4) by (auto simp: lease_ok_def reserves_def record_or_new_def split: option.splits)
  then show ?thesis
    using assms table_ok_update reserves_put by (auto simp: lease_ok_def)
qed

section \<open>Credentials and blocking\<close>

lemma drop_credential_ok:
  assumes "table_ok t" and "find_record t h = Some rec"
  shows "table_ok (drop_credential h rec t)"
proof -
  have "d_hwid rec = h \<and> h \<noteq> []" using assms find_record_hwid by (auto simp: table_ok_def)
  then have "records_ok (t_by_hwid (drop_credential h rec t))"
    unfolding drop_credential_def using assms by (intro records_ok_put) (auto simp: table_ok_def)
  then show ?thesis
    using assms by (auto simp: table_ok_def drop_credential_def table_simps
        intro: indexes_same indexes_clear)
qed

lemma drop_credential_reserves:
  "reserves pool t \<Longrightarrow> find_record t h = Some rec \<Longrightarrow> reserves pool (drop_credential h rec t)"
  by (auto simp: reserves_def drop_credential_def table_simps)

lemma drop_credential_lease_ok:
  "lease_ok t pool \<Longrightarrow> find_record t h = Some rec \<Longrightarrow> lease_ok (drop_credential h rec t) pool"
  by (simp add: lease_ok_def drop_credential_ok drop_credential_reserves)

lemma SetCredential_Inr:
  assumes "SetCredential t h name did key = Inr t'"
  obtains r where
    "r = (record_or_new t h)\<lparr>d_device_id := did, d_device_key := key,
            d_name := (if name \<noteq> [] then name else d_name (record_or_new t h))\<rparr>"
    "t' = saveLocked ((put_record h r t)\<lparr>t_by_device_id := (t_by_device_id t)(did \<mapsto> h)\<rparr>)"
    "h \<noteq> []" "did \<noteq> []" "key \<noteq> []" "d_device_id (record_or_new t h) = []"
    "t_by_device_id t did = None \<or> t_by_device_id t did = Some h"
proof (rule that)
  let ?r = "(record_or_new t h)\<lparr>d_device_id := did, d_device_key := key,
              d_name := (if name \<noteq> [] then name else d_name (record_or_new t h))\<rparr>"
  have "?r = (if name \<noteq> [] then (record_or_new t h)\<lparr>d_device_id := did, d_device_key := key, d_name := name\<rparr>
              else (record_or_new t h)\<lparr>d_device_id := did, d_device_key := key\<rparr>)"
    by simp
  then show "t' = saveLocked ((put_record h ?r t)\<lparr>t_by_device_id := (t_by_device_id t)(did \<mapsto> h)\<rparr>)"
    using assms unfolding SetCredential_def Let_def put_record_fields(3)
    by (auto split: if_split_asm option.splits)
qed (use assms in \<open>auto simp: SetCredential_def Let_def split: if_split_asm option.splits\<close>)

lemma SetCredential_ok:
  assumes "lease_ok t pool" and "SetCredential t h name did key = Inr t'"
  shows "lease_ok t' pool"
  using assms(2)
proof (cases rule: SetCredential_Inr)
  case (1 r)
  let ?t = "(put_record h r t)\<lparr>t_by_device_id := (t_by_device_id t)(did \<mapsto> h)\<rparr>"
  have r: "d_device_id r = did" "d_vip r = d_vip (record_or_new t h)" "d_hwid r = d_hwid (record_or_new t h)"
    by (simp_all add: 1(1))
  have ok: "table_ok t" "reserves pool t" using assms(1) by (auto simp: lease_ok_def)
  then have hw: "d_hwid r = h" using r(3) record_or_new_hwid by (auto simp: table_ok_def)
  have "\<And>rec. find_record t h = Some rec \<Longrightarrow> d_device_id rec = []" using 1(6) by simp
  have "records_ok (t_by_hwid ?t)"
    using records_ok_put [of t r h] ok hw 1(3) by (simp add: table_ok_def)
  moreover have "indexes (t_by_device_id ?t) d_device_id [] (find_record ?t)"
    using indexes_set [of "t_by_device_id t" d_device_id "[]" "find_record t" h r] ok 1(4,7) r(1)
      \<open>\<And>rec. find_record t h = Some rec \<Longrightarrow> d_device_id rec = []\<close>
    by (simp add: table_ok_def table_simps)
  moreover have "indexes (t_by_vip ?t) d_vip 0 (find_record ?t)"
    using ok(1) r(2) by (simp add: table_ok_def table_simps indexes_same_or_new)
  moreover have "reserves pool ?t"
    using ok(2) r(2) by (auto simp: reserves_def table_simps record_or_new_def split: option.splits)
  ultimately show ?thesis
    unfolding 1(2) lease_ok_save using assms(1) by (simp add: lease_ok_def table_ok_def)
qed

lemma Block_ok:
  assumes "lease_ok t pool" shows "lease_ok (snd (Block t h)) pool"
proof (cases "h = []")
  case False
  let ?rec = "record_or_new t h" and ?t1 = "put_record h (record_or_new t h) t"
  have t: "table_ok t" using assms by (simp add: lease_ok_def)
  have "d_hwid ?rec = h" using t record_or_new_hwid by (simp add: table_ok_def)
  then have t1: "lease_ok ?t1 pool" using lease_ok_update [OF assms False] by simp
  let ?t2 = "if d_device_id ?rec \<noteq> [] then drop_credential h ?rec ?t1 else ?t1"
  have t2: "lease_ok ?t2 pool"
    using drop_credential_lease_ok [OF t1, of h ?rec] t1 by (simp add: find_put)
  then have "d_hwid (record_or_new ?t2 h) = h"
    using record_or_new_hwid by (simp add: lease_ok_def table_ok_def)
  then have "lease_ok (put_record h ((record_or_new ?t2 h)\<lparr>d_blocked := True\<rparr>) ?t2) pool"
    by (intro lease_ok_update [OF t2 False]) simp_all
  then show ?thesis using False t1 by (simp add: Block_def Let_def)
qed (simp add: Block_def assms)

lemma Unblock_ok:
  assumes "lease_ok t pool" shows "lease_ok (snd (Unblock t h)) pool"
proof (cases "find_record t h")
  case (Some rec)
  then have "d_hwid rec = h \<and> h \<noteq> []"
    using assms find_record_hwid by (auto simp: lease_ok_def table_ok_def)
  then have "lease_ok (put_record h (rec\<lparr>d_blocked := False\<rparr>) t) pool"
    using lease_ok_update [OF assms] Some by simp
  then show ?thesis using Some assms by (simp add: Unblock_def)
qed (simp add: Unblock_def assms)

lemma ClearCredential_ok:
  assumes "lease_ok t pool" shows "lease_ok (snd (ClearCredential t h)) pool"
  using assms drop_credential_lease_ok [OF assms]
  by (auto simp: ClearCredential_def split: option.splits)

lemma SetForward_ok:
  assumes "lease_ok t pool" and "SetForward t h rules = Inr t'"
  shows "lease_ok t' pool"
proof -
  have h: "h \<noteq> []" and t': "t' = saveLocked (put_record h ((record_or_new t h)\<lparr>d_forward := rules\<rparr>) t)"
    using assms(2) by (auto simp: SetForward_def split: if_splits sum.splits)
  have "d_hwid (record_or_new t h) = h"
    using assms(1) record_or_new_hwid by (simp add: lease_ok_def table_ok_def)
  then show ?thesis using lease_ok_update [OF assms(1) h] by (simp add: t')
qed


section \<open>Expiry\<close>

definition pruned :: "gotime \<Rightarrow> device_record \<Rightarrow> device_record" where
  "pruned now rec = (if lease_expired now rec then rec\<lparr>d_vip := 0, d_expire := 0\<rparr> else rec)"

lemma pruned_fields [simp]:
  "d_hwid (pruned now rec) = d_hwid rec" "d_name (pruned now rec) = d_name rec"
  "d_forward (pruned now rec) = d_forward rec" "d_device_id (pruned now rec) = d_device_id rec"
  "d_device_key (pruned now rec) = d_device_key rec" "d_blocked (pruned now rec) = d_blocked rec"
  by (simp_all add: pruned_def)

definition expires :: "gotime \<Rightarrow> (string \<times> device_record) list \<Rightarrow> u32 \<Rightarrow> bool" where
  "expires now es v \<longleftrightarrow> (\<exists>h rec. (h, rec) \<in> set es \<and> lease_expired now rec \<and> d_vip rec = v)"

lemma lease_ok_drop_vip:
  assumes ok: "lease_ok t pool" and rec: "find_record t h = Some rec"
    and r: "d_vip r = 0" "d_device_id r = d_device_id rec" "d_hwid r = h"
  shows "lease_ok (put_record h r (t\<lparr>t_by_vip := (t_by_vip t)(d_vip rec := None)\<rparr>))
           (Release pool (d_vip rec))" (is "lease_ok ?t ?pool")
proof -
  have tok: "table_ok t" and pool: "pool_ok pool" "\<not> InRange pool 0" and res: "reserves pool t"
    using ok by (auto simp: lease_ok_def)
  have h: "h \<noteq> []" using tok rec find_record_hwid by (auto simp: table_ok_def)
  have "records_ok (t_by_hwid ?t)"
    using records_ok_put [of "t\<lparr>t_by_vip := (t_by_vip t)(d_vip rec := None)\<rparr>" r h] tok h r(3)
    by (simp add: table_ok_def)
  moreover have "indexes (t_by_device_id ?t) d_device_id [] (find_record ?t)"
    using tok rec r(2) by (simp add: table_ok_def table_simps indexes_same)
  moreover have "indexes (t_by_vip ?t) d_vip 0 (find_record ?t)"
    using tok rec r(1) by (simp add: table_ok_def table_simps indexes_clear)
  moreover have "reserves ?pool ?t"
    unfolding reserves_def
  proof (intro allI impI)
    fix k q assume q: "find_record ?t k = Some q" "d_vip q \<noteq> 0"
    then have k: "k \<noteq> h" "find_record t k = Some q" using r(1) by (auto simp: table_simps split: if_splits)
    then have "d_vip q \<noteq> d_vip rec"
      using indexes_unique [of "t_by_vip t" d_vip 0 "find_record t" k q h rec] tok rec q(2)
      by (auto simp: table_ok_def)
    then show "Held ?pool (d_vip q)"
      using res k q(2) ippool.release_held [OF pool(1)] by (simp add: reserves_def)
  qed
  moreover have "pool_ok ?pool" "\<not> InRange ?pool 0"
    using ippool.release_ok [OF pool(1)] pool(2) by simp_all
  ultimately show ?thesis by (simp add: lease_ok_def table_ok_def)
qed

lemma prune_step_ok:
  assumes ok: "lease_ok t pool" and rec: "find_record t h = Some rec"
    and step: "prune_step now (h, rec) (t, pool, n) = (t', pool', n')"
  shows "lease_ok t' pool' \<and> find_record t' = (find_record t)(h \<mapsto> pruned now rec)
      \<and> same_range pool' pool \<and> (\<forall>v. Held pool' v = (Held pool v \<and> \<not> expires now [(h, rec)] v))
      \<and> n' = n + length (filter (\<lambda>(h, rec). lease_expired now rec) [(h, rec)])
      \<and> t_path t' = t_path t \<and> t_disk t' = t_disk t \<and> t_writable t' = t_writable t"
proof (cases "lease_expired now rec")
  case False
  then show ?thesis
    using step ok rec by (auto simp: prune_step_def pruned_def same_range_def expires_def fun_upd_idem)
next
  case True
  let ?rec = "rec\<lparr>d_vip := 0, d_expire := 0\<rparr>"
  have st: "t' = put_record h ?rec (t\<lparr>t_by_vip := (t_by_vip t)(d_vip rec := None)\<rparr>)"
    "pool' = Release pool (d_vip rec)" "n' = Suc n"
    using step True by (auto simp: prune_step_def)
  have pool: "pool_ok pool" using ok by (simp add: lease_ok_def)
  have "lease_ok t' pool'"
    unfolding st using ok rec find_record_hwid
    by (intro lease_ok_drop_vip) (auto simp: lease_ok_def table_ok_def)
  moreover have "\<forall>v. Held pool' v = (Held pool v \<and> \<not> expires now [(h, rec)] v)"
    using True ippool.release_held [OF pool] by (auto simp: st expires_def)
  ultimately show ?thesis
    using True by (simp add: st table_simps same_range_ops pruned_def)
qed

lemma same_range_trans: "same_range p q \<Longrightarrow> same_range q r \<Longrightarrow> same_range p r"
  by (simp add: same_range_def)

lemma prune_fold:
  assumes "lease_ok t pool" and "keys_distinct es"
    and "\<And>h rec. (h, rec) \<in> set es \<Longrightarrow> find_record t h = Some rec"
    and "foldl (\<lambda>st e. prune_step now e st) (t, pool, n) es = (t', pool', n')"
  shows "lease_ok t' pool'
    \<and> find_record t' = (\<lambda>h. if h \<in> fst ` set es then map_option (pruned now) (find_record t h) else find_record t h)
    \<and> same_range pool' pool \<and> (\<forall>v. Held pool' v \<longleftrightarrow> Held pool v \<and> \<not> expires now es v)
    \<and> n' = n + length (filter (\<lambda>(h, rec). lease_expired now rec) es)
    \<and> t_path t' = t_path t \<and> t_disk t' = t_disk t \<and> t_writable t' = t_writable t"
  using assms
proof (induction es arbitrary: t pool n)
  case Nil
  then show ?case by (simp add: same_range_def expires_def)
next
  case (Cons e es)
  obtain h rec where e: "e = (h, rec)" by fastforce
  obtain t1 p1 n1 where step: "prune_step now (h, rec) (t, pool, n) = (t1, p1, n1)"
    by (metis prod_cases3)
  have "find_record t h = Some rec" using Cons.prems(3) [of h rec] e by simp
  note one = prune_step_ok [OF Cons.prems(1) this step]
  have rest: "find_record t1 k = Some r" if "(k, r) \<in> set es" for k r
  proof -
    have "k \<noteq> h" using that Cons.prems(2) e by force
    then show ?thesis using that Cons.prems(3) [of k r] one e by simp
  qed
  have dist: "keys_distinct es" "h \<notin> fst ` set es" using Cons.prems(2) e by auto
  have "foldl (\<lambda>st e. prune_step now e st) (t1, p1, n1) es = (t', pool', n')"
    using Cons.prems(4) step e by simp
  with Cons.IH [OF _ dist(1) rest] one
  have IH: "lease_ok t' pool'"
    "find_record t' = (\<lambda>k. if k \<in> fst ` set es then map_option (pruned now) (find_record t1 k) else find_record t1 k)"
    "same_range pool' p1" "\<And>v. Held pool' v \<longleftrightarrow> Held p1 v \<and> \<not> expires now es v"
    "n' = n1 + length (filter (\<lambda>(h, rec). lease_expired now rec) es)"
    "t_path t' = t_path t1 \<and> t_disk t' = t_disk t1 \<and> t_writable t' = t_writable t1"
    by blast+
  have "find_record t' = (\<lambda>k. if k \<in> fst ` set (e # es) then map_option (pruned now) (find_record t k)
                              else find_record t k)"
    using IH(2) one dist(2) \<open>find_record t h = Some rec\<close> by (auto simp: e fun_eq_iff)
  moreover have "\<forall>v. Held pool' v \<longleftrightarrow> Held pool v \<and> \<not> expires now (e # es) v"
    using IH(4) one by (auto simp: expires_def e)
  moreover have "n' = n + length (filter (\<lambda>(h, rec). lease_expired now rec) (e # es))"
    using IH(5) one by (simp add: e)
  moreover have "same_range pool' pool" using IH(3) one same_range_trans by blast
  ultimately show ?case using IH(1,6) one by simp
qed

lemma set_t_by_hwid:
  "keys_distinct (t_by_hwid t) \<Longrightarrow> (h, rec) \<in> set (t_by_hwid t) \<longleftrightarrow> find_record t h = Some rec"
  unfolding find_record_def by (rule in_set_conv_map_of)

lemma pruneLocked_ok:
  assumes ok: "lease_ok t pool" and run: "pruneLocked now t pool = (t', pool', n)"
  shows "lease_ok t' pool'" and "find_record t' = (\<lambda>h. map_option (pruned now) (find_record t h))"
    and "same_range pool' pool"
    and "Held pool' v \<longleftrightarrow> Held pool v
           \<and> \<not> (\<exists>h rec. find_record t h = Some rec \<and> lease_expired now rec \<and> d_vip rec = v)"
    and "n = length (filter (\<lambda>(h, rec). lease_expired now rec) (t_by_hwid t))"
    and "t_path t' = t_path t" and "t_disk t' = t_disk t" and "t_writable t' = t_writable t"
proof -
  have keys: "keys_distinct (t_by_hwid t)" using ok by (simp add: lease_ok_def table_ok_def records_ok_def)
  note all = prune_fold [OF ok keys, of now 0 t' pool' n]
  have all: "lease_ok t' pool'
    \<and> find_record t' = (\<lambda>h. if h \<in> fst ` set (t_by_hwid t) then map_option (pruned now) (find_record t h) else find_record t h)
    \<and> same_range pool' pool \<and> (\<forall>v. Held pool' v \<longleftrightarrow> Held pool v \<and> \<not> expires now (t_by_hwid t) v)
    \<and> n = 0 + length (filter (\<lambda>(h, rec). lease_expired now rec) (t_by_hwid t))
    \<and> t_path t' = t_path t \<and> t_disk t' = t_disk t \<and> t_writable t' = t_writable t"
    using run set_t_by_hwid [OF keys] by (intro all) (simp_all add: pruneLocked_def)
  then show "lease_ok t' pool'" "same_range pool' pool" "t_path t' = t_path t"
    "t_disk t' = t_disk t" "t_writable t' = t_writable t"
    "n = length (filter (\<lambda>(h, rec). lease_expired now rec) (t_by_hwid t))" by simp_all
  have "h \<in> fst ` set (t_by_hwid t) \<longleftrightarrow> find_record t h \<noteq> None" for h
    by (auto simp: find_record_def map_of_eq_None_iff)
  then show "find_record t' = (\<lambda>h. map_option (pruned now) (find_record t h))"
    using all by (auto simp: fun_eq_iff)
  have "expires now (t_by_hwid t) v
      \<longleftrightarrow> (\<exists>h rec. find_record t h = Some rec \<and> lease_expired now rec \<and> d_vip rec = v)"
    unfolding expires_def set_t_by_hwid [OF keys] ..
  then show "Held pool' v \<longleftrightarrow> Held pool v
      \<and> \<not> (\<exists>h rec. find_record t h = Some rec \<and> lease_expired now rec \<and> d_vip rec = v)"
    using all by blast
qed

lemma Prune_ok:
  assumes "lease_ok t pool" and "Prune now t pool = (t', pool', n)"
  shows "lease_ok t' pool'"
proof -
  obtain t1 p1 m where "pruneLocked now t pool = (t1, p1, m)" by (metis prod_cases3)
  then show ?thesis
    using pruneLocked_ok(1) [OF assms(1)] assms(2) by (auto simp: Prune_def split: if_splits)
qed


section \<open>Assignment\<close>

text \<open>A device whose record has an address keeps it; otherwise it gets a fresh one.\<close>

lemma lease_ok_new_vip:
  assumes ok: "lease_ok t pool" and rec: "find_record t h = Some rec" "d_vip rec = 0"
    and pool': "pool_ok pool'" "\<not> InRange pool' 0" "Held pool' = (Held pool)(vip := True)" "\<not> Held pool vip"
    and r: "d_vip r = vip" "vip \<noteq> 0" "d_device_id r = d_device_id rec" "d_hwid r = h"
  shows "lease_ok (put_record h r (t\<lparr>t_by_vip := (t_by_vip t)(vip \<mapsto> h)\<rparr>)) pool'"
proof -
  let ?t = "put_record h r (t\<lparr>t_by_vip := (t_by_vip t)(vip \<mapsto> h)\<rparr>)"
  have tok: "table_ok t" "reserves pool t" using ok by (auto simp: lease_ok_def)
  have h: "h \<noteq> []" using tok rec find_record_hwid by (auto simp: table_ok_def)
  have free: "t_by_vip t vip = None"
    using tok pool'(4) indexesD [of "t_by_vip t" d_vip 0 "find_record t" vip]
    by (cases "t_by_vip t vip") (auto simp: table_ok_def reserves_def)
  have "records_ok (t_by_hwid ?t)"
    using records_ok_put [of "t\<lparr>t_by_vip := (t_by_vip t)(vip \<mapsto> h)\<rparr>" r h] tok h r(4)
    by (simp add: table_ok_def)
  moreover have "indexes (t_by_device_id ?t) d_device_id [] (find_record ?t)"
    using tok rec(1) r(3) by (simp add: table_ok_def table_simps indexes_same)
  moreover have "indexes (t_by_vip ?t) d_vip 0 (find_record ?t)"
    using indexes_set [of "t_by_vip t" d_vip 0 "find_record t" h r] tok free rec r(1,2)
    by (simp add: table_ok_def table_simps)
  moreover have "reserves pool' ?t"
    using tok(2) pool'(3) r(1) by (auto simp: reserves_def table_simps)
  ultimately show ?thesis using pool' by (simp add: lease_ok_def table_ok_def)
qed

lemma choose_vip_ok:
  assumes ok: "lease_ok t pool" and rec: "find_record t h = Some rec"
    and run: "choose_vip h (d_vip rec) t pool = Some (vip, t', pool')"
    and r: "d_vip r = vip" "d_device_id r = d_device_id rec" "d_hwid r = h"
  shows "lease_ok (put_record h r t') pool' \<and> Held pool' vip \<and> InRange pool' vip
    \<and> same_range pool' pool \<and> (\<forall>v. Held pool v \<longrightarrow> Held pool' v) \<and> find_record t' = find_record t
    \<and> (if d_vip rec = 0 then \<not> Held pool vip else vip = d_vip rec \<and> pool' = pool)"
proof (cases "d_vip rec = 0")
  case True
  have pool: "pool_ok pool" "\<not> InRange pool 0" using ok by (auto simp: lease_ok_def)
  have alloc: "Alloc pool = Some (vip, pool')" and t': "t' = t\<lparr>t_by_vip := (t_by_vip t)(vip \<mapsto> h)\<rparr>"
    using run True by (auto simp: choose_vip_def split: option.splits)
  note new = ippool.alloc_Some [OF pool(1) alloc]
  have "vip \<noteq> 0" using new pool(2) by blast
  then have "lease_ok (put_record h r t') pool'"
    unfolding t' using lease_ok_new_vip [OF ok rec True, of pool' vip r] new pool(2) r by simp
  then show ?thesis using new True same_range_ops(1) [OF alloc] by (simp add: t' table_simps)
next
  case False
  then have held: "Held pool (d_vip rec)" using ok rec by (auto simp: lease_ok_def reserves_def)
  then have eq: "vip = d_vip rec" "t' = t" "pool' = pool" using run False by (auto simp: choose_vip_def)
  have "h \<noteq> []" using ok rec find_record_hwid by (auto simp: lease_ok_def table_ok_def)
  then have "lease_ok (put_record h r t) pool"
    using lease_ok_update [OF ok] rec r eq by simp
  then show ?thesis
    using held False eq ok ippool.held_in_range by (auto simp: lease_ok_def same_range_def)
qed

lemma Assign_cases:
  assumes "Assign t h name pool now = (res, t', pool')"
  obtains (fail) t1 pool1 n where "pruneLocked now t pool = (t1, pool1, n)" "res = Inl PoolExhausted"
      "t' = put_record h (record_or_new t1 h) t1" "pool' = pool1" "Alloc pool1 = None"
  | (assigned) t1 pool1 n vip t3 where "pruneLocked now t pool = (t1, pool1, n)"
      "choose_vip h (d_vip (record_or_new t1 h)) (put_record h (record_or_new t1 h) t1) pool1
         = Some (vip, t3, pool')"
      "res = Inr (vip, now + LeaseDuration)"
      "t' = saveLocked (put_record h ((record_or_new t1 h)\<lparr>d_vip := vip, d_name := name,
                                        d_expire := now + LeaseDuration\<rparr>) t3)"
proof -
  obtain t1 pool1 n where prune: "pruneLocked now t pool = (t1, pool1, n)" by (metis prod_cases3)
  show ?thesis
  proof (cases "choose_vip h (d_vip (record_or_new t1 h)) (put_record h (record_or_new t1 h) t1) pool1")
    case None
    moreover from this have "Alloc pool1 = None" by (auto simp: choose_vip_def split: if_splits option.splits)
    ultimately show ?thesis using that(1) [OF prune] assms prune by (simp add: Assign_def Let_def)
  next
    case (Some x)
    then show ?thesis using that(2) [OF prune] assms prune by (cases x) (auto simp: Assign_def Let_def)
  qed
qed

lemma Assign_ok:
  assumes ok: "lease_ok t pool" and h: "h \<noteq> []" and run: "Assign t h name pool now = (res, t', pool')"
  shows "lease_ok t' pool'"
  using run
proof (cases rule: Assign_cases)
  case (fail t1 pool1 n)
  have t1: "lease_ok t1 pool1" using pruneLocked_ok(1) [OF ok fail(1)] .
  then have "d_hwid (record_or_new t1 h) = h" using record_or_new_hwid by (simp add: lease_ok_def table_ok_def)
  then show ?thesis using lease_ok_update [OF t1 h] fail by simp
next
  case (assigned t1 pool1 n vip t3)
  let ?rec = "record_or_new t1 h"
  have t1: "lease_ok t1 pool1" using pruneLocked_ok(1) [OF ok assigned(1)] .
  then have hw: "d_hwid ?rec = h" using record_or_new_hwid by (simp add: lease_ok_def table_ok_def)
  then have t2: "lease_ok (put_record h ?rec t1) pool1" using lease_ok_update [OF t1 h] by simp
  show ?thesis
    unfolding assigned(4) lease_ok_save
    using choose_vip_ok [OF t2 _ assigned(2), of "?rec\<lparr>d_vip := vip, d_name := name, d_expire := now + LeaseDuration\<rparr>"] hw
    by (simp add: find_put)
qed

lemma SetIP_ok:
  assumes ok: "lease_ok t pool" and run: "SetIP t h vip pool = Inr (t', pool')"
  shows "lease_ok t' pool' \<and> (\<exists>rec. find_record t' h = Some rec \<and> d_vip rec = vip)"
proof -
  obtain rec where rec: "find_record t h = Some rec" and h: "h \<noteq> []" and range: "InRange pool vip"
    using run by (auto simp: SetIP_def split: if_splits option.splits)
  have tok: "table_ok t" "reserves pool t" and pool: "pool_ok pool" "\<not> InRange pool 0"
    using ok by (auto simp: lease_ok_def)
  have hw: "d_hwid rec = h" using tok rec find_record_hwid by (auto simp: table_ok_def)
  show ?thesis
  proof (cases "d_vip rec = vip")
    case True
    then have "t' = t \<and> pool' = pool" using run rec by (auto simp: SetIP_def split: if_splits)
    then show ?thesis using ok rec True by blast
  next
    case False
    then obtain pool1 where at: "AllocAt pool vip = Some pool1"
      using run rec by (auto simp: SetIP_def split: if_splits option.splits)
    note new = ippool.alloc_at_Some [OF pool(1) at]
    have vip0: "vip \<noteq> 0" using range pool(2) by blast
    let ?t1 = "t\<lparr>t_by_vip := (t_by_vip t)(d_vip rec := None)\<rparr>"
    let ?t = "if d_vip rec \<noteq> 0 then ?t1 else t"
    let ?pool = "if d_vip rec \<noteq> 0 then Release pool1 (d_vip rec) else pool1"
    have res: "t' = saveLocked (put_record h (rec\<lparr>d_vip := vip\<rparr>) (?t\<lparr>t_by_vip := (t_by_vip ?t)(vip \<mapsto> h)\<rparr>))"
      "pool' = ?pool"
      using run rec at False by (auto simp: SetIP_def Let_def split: if_splits option.splits)
    show ?thesis
    proof (cases "d_vip rec = 0")
      case True
      then show ?thesis
        using lease_ok_new_vip [OF ok rec True, of pool1 vip "rec\<lparr>d_vip := vip\<rparr>"] new pool(2) vip0 hw
        by (simp add: res table_simps)
    next
      case nonzero: False
      let ?q = "Release pool (d_vip rec)"
      let ?rz = "rec\<lparr>d_vip := 0\<rparr>" and ?r = "rec\<lparr>d_vip := vip\<rparr>"
      have mid: "lease_ok (put_record h ?rz ?t1) ?q"
        using lease_ok_drop_vip [OF ok rec, of ?rz] hw by simp
      have pools: "Held ?pool = (Held ?q)(vip := True)" "\<not> Held ?q vip" "pool_ok ?pool" "\<not> InRange ?pool 0"
        using new False nonzero pool ippool.release_held ippool.release_ok by (auto simp: fun_eq_iff)
      have "lease_ok (put_record h ?r ((put_record h ?rz ?t1)
              \<lparr>t_by_vip := (t_by_vip (put_record h ?rz ?t1))(vip \<mapsto> h)\<rparr>)) ?pool"
        using lease_ok_new_vip [OF mid, of h ?rz ?pool vip ?r] pools vip0 hw by (simp add: table_simps)
      then show ?thesis using nonzero by (simp add: res table_simps put_record_twice)
    qed
  qed
qed

end
