(* ===== verification/Persistence.thy ===== *)
theory Persistence
  imports Leases
begin

text \<open>
  The device table across a restart: what \<^verbatim>\<open>saveLocked\<close> writes, \<^verbatim>\<open>NewDeviceTable\<close>
  reads back, with the indexes rebuilt.
\<close>

definition undated :: "device_record \<Rightarrow> device_record" where
  "undated rec = (if d_vip rec = 0 then rec\<lparr>d_expire := 0\<rparr> else rec)"

lemma undated_fields [simp]:
  "d_hwid (undated rec) = d_hwid rec" "d_vip (undated rec) = d_vip rec"
  "d_device_id (undated rec) = d_device_id rec" "d_device_key (undated rec) = d_device_key rec"
  "d_forward (undated rec) = d_forward rec" "d_blocked (undated rec) = d_blocked rec"
  "d_name (undated rec) = d_name rec"
  by (simp_all add: undated_def)

text \<open>What a loader finds free for the next record.\<close>

definition free_for :: "device_table \<Rightarrow> device_record \<Rightarrow> bool" where
  "free_for t rec \<longleftrightarrow>
     find_record t (d_hwid rec) = None
     \<and> (d_device_id rec \<noteq> [] \<longrightarrow> t_by_device_id t (d_device_id rec) = None)
     \<and> (d_vip rec \<noteq> 0 \<longrightarrow> t_by_vip t (d_vip rec) = None)"

lemma v4_string_not_Nil [simp]: "IP4String v \<noteq> []"
  by (simp add: IP4String_def)

lemma load_device_record:
  assumes "free_for t rec" and "d_hwid rec \<noteq> []"
  shows "load_device t (record_json rec) =
    put_record (d_hwid rec) (undated rec)
      (t\<lparr>t_by_device_id := (if d_device_id rec \<noteq> [] then (t_by_device_id t)(d_device_id rec \<mapsto> d_hwid rec)
                            else t_by_device_id t),
         t_by_vip := (if d_vip rec \<noteq> 0 then (t_by_vip t)(d_vip rec \<mapsto> d_hwid rec) else t_by_vip t)\<rparr>)"
  using assms by (cases rec) (simp add: load_device_def record_json_def undated_def free_for_def)

lemma indexes_insert:
  assumes "indexes idx field none recs" and "recs h = None" and "field rec \<noteq> none \<longrightarrow> idx (field rec) = None"
  shows "indexes (if field rec \<noteq> none then idx(field rec \<mapsto> h) else idx) field none (recs(h \<mapsto> rec))"
proof (cases "field rec = none")
  case True
  then show ?thesis using indexes_fresh [OF assms(1,2)] by simp
next
  case False
  then show ?thesis using indexes_set [OF assms(1), of h rec] assms(2,3) by simp
qed

lemma load_device_ok:
  assumes "table_ok t" and "free_for t rec" and "d_hwid rec \<noteq> []"
  shows "table_ok (load_device t (record_json rec))"
    and "find_record (load_device t (record_json rec)) = (find_record t)(d_hwid rec \<mapsto> undated rec)"
proof -
  let ?t = "load_device t (record_json rec)"
  note load = load_device_record [OF assms(2,3)]
  show find: "find_record ?t = (find_record t)(d_hwid rec \<mapsto> undated rec)"
    unfolding load by (simp add: find_put) (simp add: find_record_def fun_eq_iff)
  have "records_ok (t_by_hwid ?t)"
    unfolding load using assms(1,3) by (intro records_ok_put) (simp_all add: table_ok_def)
  moreover have "indexes (t_by_device_id ?t) d_device_id [] (find_record ?t)"
    using indexes_insert [of "t_by_device_id t" d_device_id "[]" "find_record t" "d_hwid rec" "undated rec"] assms
    unfolding find unfolding load
    by (cases "d_device_id rec = []") (simp_all add: table_ok_def free_for_def put_record_fields)
  moreover have "indexes (t_by_vip ?t) d_vip 0 (find_record ?t)"
    using indexes_insert [of "t_by_vip t" d_vip 0 "find_record t" "d_hwid rec" "undated rec"] assms
    unfolding find unfolding load
    by (cases "d_vip rec = 0") (simp_all add: table_ok_def free_for_def put_record_fields)
  ultimately show "table_ok ?t" by (simp add: table_ok_def)
qed

text \<open>Records that can stand in one table: no two share an identifier, address or credential.\<close>

definition separate :: "device_record \<Rightarrow> device_record \<Rightarrow> bool" where
  "separate r s \<longleftrightarrow>
     d_hwid r \<noteq> d_hwid s \<and> (d_device_id r \<noteq> [] \<longrightarrow> d_device_id r \<noteq> d_device_id s)
     \<and> (d_vip r \<noteq> 0 \<longrightarrow> d_vip r \<noteq> d_vip s)"

lemma free_for_load:
  assumes "free_for t s" and "free_for t rec" and "d_hwid rec \<noteq> []" and "separate s rec"
  shows "free_for (load_device t (record_json rec)) s"
  using assms unfolding load_device_record [OF assms(2,3)]
  by (auto simp: free_for_def separate_def put_record_fields find_put find_record_def)

lemma load_all:
  assumes "table_ok t" and "\<forall>rec \<in> set rs. free_for t rec \<and> d_hwid rec \<noteq> []"
    and "sorted_wrt (\<lambda>r s. separate s r) rs"
  shows "table_ok (foldl load_device t (map record_json rs))
    \<and> find_record (foldl load_device t (map record_json rs))
        = find_record t ++ map_of (map (\<lambda>rec. (d_hwid rec, undated rec)) rs)"
  using assms
proof (induction rs arbitrary: t)
  case (Cons rec rs)
  let ?t = "load_device t (record_json rec)"
  have rec: "free_for t rec" "d_hwid rec \<noteq> []" using Cons.prems(2) by simp_all
  note one = load_device_ok [OF Cons.prems(1) rec]
  have "\<forall>s \<in> set rs. free_for ?t s \<and> d_hwid s \<noteq> []"
    using Cons.prems(2,3) free_for_load rec by auto
  then have IH: "table_ok (foldl load_device ?t (map record_json rs))"
    "find_record (foldl load_device ?t (map record_json rs))
       = find_record ?t ++ map_of (map (\<lambda>rec. (d_hwid rec, undated rec)) rs)"
    using Cons.IH [OF one(1)] Cons.prems(3) by simp_all
  have "map_of (map (\<lambda>rec. (d_hwid rec, undated rec)) rs) (d_hwid rec) = None"
    using Cons.prems(3) by (auto simp: map_of_eq_None_iff separate_def)
  then have "find_record ?t ++ map_of (map (\<lambda>rec. (d_hwid rec, undated rec)) rs)
      = find_record t ++ map_of (map (\<lambda>rec. (d_hwid rec, undated rec)) (rec # rs))"
    by (simp only: one(2) list.map(2) map_of.simps fst_conv snd_conv map_add_upd map_add_upd_left domIff
        not_not)
  then show ?case using IH by (simp only: list.map(2) foldl_Cons)
qed simp

lemma indexes_functional:
  assumes "indexes idx field none recs" and "indexes idx' field none recs"
  shows "idx = idx'"
proof
  fix v
  have "idx v = Some h \<longleftrightarrow> idx' v = Some h" for h using assms by (simp add: indexes_def)
  then show "idx v = idx' v" by (metis not_None_eq)
qed

lemma indexes_map:
  assumes "indexes idx field none recs" and "\<And>rec. field (f rec) = field rec"
  shows "indexes idx field none (\<lambda>h. map_option f (recs h))"
  using assms by (auto simp: indexes_def)

lemma empty_table_ok: "table_ok (empty_table path disk w)"
  by (simp add: table_ok_def empty_table_def records_ok_def indexes_def find_record_def)


lemma separate_records:
  assumes "table_ok t" and "(h, r) \<in> set (t_by_hwid t)" and "(k, s) \<in> set (t_by_hwid t)" and "h \<noteq> k"
  shows "separate r s"
proof -
  have keys: "keys_distinct (t_by_hwid t)" using assms(1) by (simp add: table_ok_def records_ok_def)
  then have rs: "find_record t h = Some r" "find_record t k = Some s"
    using assms(2,3) set_t_by_hwid by auto
  then have "d_hwid r = h" "d_hwid s = k" using assms(1) find_record_hwid by (auto simp: table_ok_def)
  moreover have "d_device_id r \<noteq> [] \<Longrightarrow> d_device_id r \<noteq> d_device_id s"
    using indexes_unique [of "t_by_device_id t" d_device_id "[]" "find_record t" h r k s] assms(1,4) rs
    by (auto simp: table_ok_def)
  moreover have "d_vip r \<noteq> 0 \<Longrightarrow> d_vip r \<noteq> d_vip s"
    using indexes_unique [of "t_by_vip t" d_vip 0 "find_record t" h r k s] assms(1,4) rs
    by (auto simp: table_ok_def)
  ultimately show ?thesis using assms(4) by (simp add: separate_def)
qed

text \<open>The records of a table in the order of the file: sorted by identifier.\<close>

definition file_records :: "(string \<times> device_record) list \<Rightarrow> device_record list" where
  "file_records recs = sort_key d_hwid (map snd recs)"

lemma sort_key_map: "sort_key k (map f xs) = map f (sort_key (k \<circ> f) xs)"
proof -
  have "insort_key k (f x) (map f ys) = map f (insort_key (k \<circ> f) x ys)" for x ys
    by (induction ys) auto
  then show ?thesis by (induction xs) auto
qed

lemma device_file_records: "f_devices (device_file_of recs) = map record_json (file_records recs)"
proof -
  have snd: "(\<lambda>(_, rec). record_json rec) = record_json \<circ> snd" by auto
  have "j_hwid \<circ> (record_json \<circ> snd) = d_hwid \<circ> (snd :: string \<times> device_record \<Rightarrow> _)"
    by (simp add: record_json_def fun_eq_iff)
  then show ?thesis by (simp add: device_file_of_def snd file_records_def sort_key_map)
qed

lemma sorted_wrt_separate:
  assumes "distinct (map d_hwid rs)"
    and "\<And>r s. r \<in> set rs \<Longrightarrow> s \<in> set rs \<Longrightarrow> d_hwid r \<noteq> d_hwid s \<Longrightarrow> separate r s"
  shows "sorted_wrt (\<lambda>r s. separate s r) rs"
  using assms
proof (induction rs)
  case (Cons r rs)
  have "separate s r" if "s \<in> set rs" for s
  proof (rule Cons.prems(2))
    show "d_hwid s \<noteq> d_hwid r" using that Cons.prems(1) by (metis distinct.simps(2) image_eqI list.set_map list.simps(9))
  qed (use that in simp_all)
  moreover have "sorted_wrt (\<lambda>r s. separate s r) rs"
    using Cons.prems by (intro Cons.IH) auto
  ultimately show ?case by simp
qed simp

lemma reload_table:
  fixes w :: bool
  assumes ok: "table_ok t" and path: "p \<noteq> []"
  defines "t' \<equiv> NewDeviceTable p (Some (device_file_of (t_by_hwid t))) w"
  shows "table_ok t'" and "find_record t' = (\<lambda>h. map_option undated (find_record t h))"
    and "t_by_vip t' = t_by_vip t" and "t_by_device_id t' = t_by_device_id t"
proof -
  let ?rs = "file_records (t_by_hwid t)" and ?t0 = "empty_table p (Some (device_file_of (t_by_hwid t))) w"
  have keys: "keys_distinct (t_by_hwid t)" and hw: "\<forall>(h, rec) \<in> set (t_by_hwid t). d_hwid rec = h \<and> h \<noteq> []"
    using ok by (auto simp: table_ok_def records_ok_def list_all_iff)
  have ids: "map d_hwid (map snd (t_by_hwid t)) = map fst (t_by_hwid t)"
  proof -
    have "map (d_hwid \<circ> snd) (t_by_hwid t) = map fst (t_by_hwid t)"
      using hw by (intro map_cong refl) auto
    then show ?thesis by simp
  qed
  then have dist: "distinct (map d_hwid ?rs)"
    using keys unfolding file_records_def ids [symmetric]
    by (simp only: distinct_map distinct_sort set_sort)
  have "sorted_wrt (\<lambda>r s. separate s r) ?rs"
  proof (rule sorted_wrt_separate [OF dist])
    fix r s assume rs: "r \<in> set ?rs" "s \<in> set ?rs" and ne: "d_hwid r \<noteq> d_hwid s"
    then obtain h k where hk: "(h, r) \<in> set (t_by_hwid t)" "(k, s) \<in> set (t_by_hwid t)"
      by (auto simp: file_records_def)
    then have "h \<noteq> k" using bspec [OF hw hk(1)] bspec [OF hw hk(2)] ne by auto
    then show "separate r s" using separate_records [OF ok hk] by blast
  qed
  moreover have "\<forall>rec \<in> set ?rs. free_for ?t0 rec \<and> d_hwid rec \<noteq> []"
    using hw by (auto simp: file_records_def free_for_def empty_table_def find_record_def)
  ultimately have load: "table_ok (foldl load_device ?t0 (map record_json ?rs))"
    "find_record (foldl load_device ?t0 (map record_json ?rs))
      = find_record ?t0 ++ map_of (map (\<lambda>rec. (d_hwid rec, undated rec)) ?rs)"
    using load_all [OF empty_table_ok] by blast+
  have t': "t' = foldl load_device ?t0 (map record_json ?rs)"
    using path by (simp add: t'_def NewDeviceTable_def device_file_records)
  show tok: "table_ok t'" using load(1) t' by simp
  have "map_of (map (\<lambda>rec. (d_hwid rec, undated rec)) ?rs) h = map_option undated (find_record t h)" for h
  proof -
    have "map_of (map (\<lambda>rec. (d_hwid rec, undated rec)) ?rs)
        = map_of (map (\<lambda>(h, rec). (h, undated rec)) (t_by_hwid t))"
    proof (rule map_of_perm)
      show "distinct (map fst (map (\<lambda>rec. (d_hwid rec, undated rec)) ?rs))" using dist by (simp add: comp_def)
      show "set (map (\<lambda>rec. (d_hwid rec, undated rec)) ?rs)
          = set (map (\<lambda>(h, rec). (h, undated rec)) (t_by_hwid t))"
        using hw by (force simp: file_records_def)
      show "distinct (map fst (map (\<lambda>(h, rec). (h, undated rec)) (t_by_hwid t)))"
        using keys by (simp only: map_fst_map_values)
    qed
    then show ?thesis by (simp add: map_of_map_values find_record_def)
  qed
  then show find: "find_record t' = (\<lambda>h. map_option undated (find_record t h))"
    using load(2) t' by (simp add: fun_eq_iff map_add_def empty_table_def find_record_def split: option.splits)
  have "indexes (t_by_vip t) d_vip 0 (find_record t')"
    "indexes (t_by_device_id t) d_device_id [] (find_record t')"
    using ok unfolding find table_ok_def by (auto intro: indexes_map)
  then show "t_by_vip t' = t_by_vip t" "t_by_device_id t' = t_by_device_id t"
    using tok indexes_functional by (auto simp: table_ok_def)
qed

end
