(* ===== verification/Device_Properties.thy ===== *)
theory Device_Properties
  imports Persistence
begin

text \<open>
  What the device table promises, over every sequence of its operations: the transition
  system of a table and its pool, its reachable states, and the theorems on leases,
  credentials, restarts. Two theorems state behaviour the documentation does not promise:
  a restarted server can give one address to two devices.
\<close>

section \<open>All operations as steps\<close>

inductive table_step :: "device_table \<times> ip_pool \<Rightarrow> device_table \<times> ip_pool \<Rightarrow> bool" where
  assign: "h \<noteq> [] \<Longrightarrow> Assign t h name pool now = (res, t', pool') \<Longrightarrow> table_step (t, pool) (t', pool')"
| set_ip: "SetIP t h vip pool = Inr (t', pool') \<Longrightarrow> table_step (t, pool) (t', pool')"
| prune: "Prune now t pool = (t', pool', n) \<Longrightarrow> table_step (t, pool) (t', pool')"
| set_credential: "SetCredential t h name did key = Inr t' \<Longrightarrow> table_step (t, pool) (t', pool)"
| clear: "ClearCredential t h = (b, t') \<Longrightarrow> table_step (t, pool) (t', pool)"
| block: "Block t h = (b, t') \<Longrightarrow> table_step (t, pool) (t', pool)"
| unblock: "Unblock t h = (b, t') \<Longrightarrow> table_step (t, pool) (t', pool)"
| set_forward: "SetForward t h rules = Inr t' \<Longrightarrow> table_step (t, pool) (t', pool)"

inductive_cases table_stepE: "table_step (t, pool) (t', pool')"

text \<open>A server that starts without a device file.\<close>

definition table_start :: "string \<Rightarrow> bool \<Rightarrow> (device_table \<times> ip_pool) option" where
  "table_start path w = map_option (\<lambda>pool. (NewDeviceTable path None w, pool)) NewIPPool"

definition table_reachable :: "string \<Rightarrow> bool \<Rightarrow> device_table \<times> ip_pool \<Rightarrow> bool" where
  "table_reachable path w st \<longleftrightarrow> (\<exists>st0. table_start path w = Some st0 \<and> table_step\<^sup>*\<^sup>* st0 st)"

lemma table_step_lease_ok:
  assumes "table_step st st'" and "lease_ok (fst st) (snd st)" shows "lease_ok (fst st') (snd st')"
  using assms
  by (cases rule: table_step.cases)
    (auto dest: Assign_ok SetIP_ok Prune_ok SetCredential_ok SetForward_ok
      ClearCredential_ok Block_ok Unblock_ok simp del: split_paired_Ex,
     metis ClearCredential_ok snd_conv, metis Block_ok snd_conv, metis Unblock_ok snd_conv)

lemma NewDeviceTable_no_file [simp]: "NewDeviceTable path None w = empty_table path None w"
  by (simp add: NewDeviceTable_def)

lemma find_record_empty [simp]: "find_record (empty_table path d w) h = None"
  by (simp add: find_record_def empty_table_def)

lemma NewIPPool_excludes_0: "NewIPPool = Some pool \<Longrightarrow> \<not> InRange pool 0"
  by (auto simp: NewIPPool_value InRange_def word_le_nat_alt)

lemma table_start_ok: "table_start path w = Some (t, pool) \<Longrightarrow> lease_ok t pool"
  using NewIPPool_ok NewIPPool_excludes_0
  by (auto simp: table_start_def lease_ok_def reserves_def empty_table_ok)

lemma reachable_lease_ok: "table_reachable path w (t, pool) \<Longrightarrow> lease_ok t pool"
proof -
  have "table_step\<^sup>*\<^sup>* st0 st \<Longrightarrow> lease_ok (fst st0) (snd st0) \<Longrightarrow> lease_ok (fst st) (snd st)" for st0 st
    by (induction rule: rtranclp_induct) (auto intro: table_step_lease_ok)
  moreover assume "table_reachable path w (t, pool)"
  ultimately show ?thesis
    using table_start_ok unfolding table_reachable_def by (metis fst_conv prod.collapse snd_conv)
qed


section \<open>Leases\<close>

lemma unexpired_after_prune:
  assumes ok: "lease_ok t pool" and run: "pruneLocked now t pool = (t1, pool1, n)"
    and rec: "find_record t h = Some rec" and live: "\<not> lease_expired now rec"
  shows "find_record t1 h = Some rec"
  using pruneLocked_ok(2) [OF ok run] rec live by (simp add: pruned_def)

lemma Assign_keeps_address:
  assumes ok: "lease_ok t pool" and rec: "find_record t h = Some rec"
    and live: "d_vip rec \<noteq> 0" "now < d_expire rec"
  shows "\<exists>t' pool'. Assign t h name pool now = (Inr (d_vip rec, now + LeaseDuration), t', pool')
    \<and> find_record t' h = Some (rec\<lparr>d_name := name, d_expire := now + LeaseDuration\<rparr>)"
proof -
  obtain t1 pool1 n where prune: "pruneLocked now t pool = (t1, pool1, n)" by (metis prod_cases3)
  have rec1: "find_record t1 h = Some rec"
    using unexpired_after_prune [OF ok prune rec] live by (simp add: lease_expired_def)
  have "Held pool1 (d_vip rec)"
    using pruneLocked_ok(1) [OF ok prune] rec1 live by (auto simp: lease_ok_def reserves_def)
  then have "choose_vip h (d_vip rec) (put_record h rec t1) pool1 = Some (d_vip rec, put_record h rec t1, pool1)"
    using live by (simp add: choose_vip_def)
  then show ?thesis using prune rec1 by (simp add: Assign_def table_simps)
qed


definition example_start :: "device_table \<times> ip_pool" where
  "example_start = the (table_start ''leases.json'' True)"

lemma example_reachable:
  assumes "h \<noteq> []"
  shows "\<exists>t pool rec. table_reachable ''leases.json'' True (t, pool) \<and> find_record t h = Some rec
    \<and> d_vip rec \<noteq> 0 \<and> d_expire rec = LeaseDuration"
proof -
  obtain pool0 where p0: "NewIPPool = Some pool0" using NewIPPool_value by blast
  let ?t0 = "empty_table ''leases.json'' None True"
  have start: "table_start ''leases.json'' True = Some (?t0, pool0)" by (simp add: table_start_def p0)
  obtain res t pool where run: "Assign ?t0 h ''pc'' pool0 0 = (res, t, pool)" by (metis prod_cases3)
  have reach: "table_reachable ''leases.json'' True (t, pool)"
    unfolding table_reachable_def using start table_step.assign [OF assms run] by blast
  have prune0: "pruneLocked 0 ?t0 pool0 = (?t0, pool0, 0)" by (simp add: pruneLocked_def empty_table_def)
  have "\<not> Held pool0 0x0A000002" and "InRange pool0 0x0A000002" and "\<not> InRange pool0 0"
    using p0 NewIPPool_excludes_0 by (auto simp: NewIPPool_value Held_def InRange_def word_le_nat_alt)
  then have "Alloc pool0 \<noteq> None" using ippool.alloc_None [OF NewIPPool_ok [OF p0]] by blast
  then obtain vip pool1 where alloc: "Alloc pool0 = Some (vip, pool1)" by auto
  have "vip \<noteq> 0"
    using ippool.alloc_Some [OF NewIPPool_ok [OF p0] alloc] NewIPPool_excludes_0 [OF p0] by auto
  moreover have "find_record t h = Some ((new_record h)\<lparr>d_vip := vip, d_name := ''pc'', d_expire := LeaseDuration\<rparr>)"
    using run unfolding Assign_def prune0
    by (auto simp: choose_vip_def alloc record_or_new_def table_simps Let_def)
  ultimately show ?thesis using reach by fastforce
qed


text \<open>A device that comes back before its lease expires gets the same address, whatever
  happened to the other devices in between, and the lease is renewed for 31 days from then.\<close>

theorem lease_stable:
  assumes "table_reachable path w (t, pool)" and "find_record t h = Some rec"
    and "d_vip rec \<noteq> 0" and "now < d_expire rec"
  shows "fst (Assign t h name pool now) = Inr (d_vip rec, now + LeaseDuration)
    \<and> find_record (fst (snd (Assign t h name pool now))) h
        = Some (rec\<lparr>d_name := name, d_expire := now + LeaseDuration\<rparr>)"
  using Assign_keeps_address [OF reachable_lease_ok [OF assms(1)] assms(2-4), of name] by auto

theorem lease_stable_witness:
  "\<exists>t pool rec. table_reachable ''leases.json'' True (t, pool) \<and> find_record t ''hw'' = Some rec
    \<and> fst (Assign t ''hw'' ''pc2'' pool 5) = Inr (d_vip rec, 5 + LeaseDuration)"
proof -
  obtain t pool rec where st: "table_reachable ''leases.json'' True (t, pool)"
    "find_record t ''hw'' = Some rec" "d_vip rec \<noteq> 0" "d_expire rec = LeaseDuration"
    using example_reachable [of "''hw''"] by auto
  moreover have "(5 :: int) < LeaseDuration" by (simp add: LeaseDuration_def Second_def)
  ultimately show ?thesis using lease_stable [OF st(1-3), of 5 "''pc2''"] by auto
qed

text \<open>\<^verbatim>\<open>Prune\<close> takes the address of exactly the devices whose lease has run out: it
  keeps every record with its name, rules, credential and block flag, frees the address in
  the pool and in the index, leaves every other device as it is, and returns their number.\<close>

theorem prune_exact:
  assumes "table_reachable path w (t, pool)" and "Prune now t pool = (t', pool', n)"
  shows "find_record t' = (\<lambda>h. map_option
            (\<lambda>rec. if d_vip rec \<noteq> 0 \<and> d_expire rec \<noteq> 0 \<and> d_expire rec \<le> now
                   then rec\<lparr>d_vip := 0, d_expire := 0\<rparr> else rec) (find_record t h))
    \<and> (\<forall>v. Held pool' v \<longleftrightarrow> Held pool v
            \<and> \<not> (\<exists>h rec. find_record t h = Some rec \<and> lease_expired now rec \<and> d_vip rec = v))
    \<and> n = length (filter (\<lambda>(h, rec). lease_expired now rec) (t_by_hwid t))"
proof -
  obtain t1 p1 m where run: "pruneLocked now t pool = (t1, p1, m)" by (metis prod_cases3)
  have eq: "find_record t' = find_record t1" "pool' = p1" "n = m"
    using assms(2) run by (auto simp: Prune_def table_simps split: if_splits)
  have "pruned now = (\<lambda>rec. if d_vip rec \<noteq> 0 \<and> d_expire rec \<noteq> 0 \<and> d_expire rec \<le> now
                   then rec\<lparr>d_vip := 0, d_expire := 0\<rparr> else rec)"
    by (auto simp: pruned_def lease_expired_def fun_eq_iff)
  then show ?thesis
    using pruneLocked_ok(2,4,5) [OF reachable_lease_ok [OF assms(1)] run] by (simp add: eq)
qed

theorem prune_exact_witness:
  "\<exists>t pool t' pool' n. table_reachable ''leases.json'' True (t, pool)
    \<and> Prune LeaseDuration t pool = (t', pool', n)
    \<and> map_option d_vip (find_record t' ''hw'') = Some 0"
proof -
  obtain t pool rec where st: "table_reachable ''leases.json'' True (t, pool)"
    "find_record t ''hw'' = Some rec" "d_vip rec \<noteq> 0" "d_expire rec = LeaseDuration"
    using example_reachable [of "''hw''"] by auto
  obtain t' pool' n where run: "Prune LeaseDuration t pool = (t', pool', n)" by (metis prod_cases3)
  have "LeaseDuration \<noteq> 0" by (simp add: LeaseDuration_def Second_def)
  then have "map_option d_vip (find_record t' ''hw'') = Some 0"
    using prune_exact [OF st(1) run] st(2-) by simp
  then show ?thesis using st(1) run by blast
qed


section \<open>Credentials\<close>

text \<open>Life of a credential: once issued it is what both lookups return, it cannot be
  replaced by another one while it stands, nor claimed by another device; blocking removes it,
  marks the device blocked, and from then on neither the identifier nor the device yields a
  key, while the credentials of all other devices are untouched.\<close>

theorem credential_life_cycle:
  assumes "table_reachable path w (t, pool)" and "SetCredential t h name did key = Inr t'"
  shows "Credential_of t' h = Some (did, key) \<and> DeviceKeyByID t' did = key
    \<and> (\<forall>name' did' key'. \<exists>e. SetCredential t' h name' did' key' = Inl e)
    \<and> (\<forall>h' name' key'. h' \<noteq> h \<longrightarrow> h' \<noteq> [] \<longrightarrow> key' \<noteq> [] \<longrightarrow>
         SetCredential t' h' name' did key' = Inl CredentialTaken)
    \<and> (case Block t' h of (b, u) \<Rightarrow>
         b \<and> IsBlocked u h \<and> Credential_of u h = None \<and> DeviceKeyByID u did = []
         \<and> (\<forall>k. k \<noteq> h \<longrightarrow> Credential_of u k = Credential_of t' k \<and> IsBlocked u k = IsBlocked t' k))"
  using assms(2)
proof (cases rule: SetCredential_Inr)
  case (1 r)
  note t' = 1(2)
  have rec: "find_record t' h = Some r" by (simp add: t' table_simps)
  have idx: "t_by_device_id t' did = Some h" by (simp add: t' table_simps)
  have r: "d_device_id r = did" "d_device_key r = key" by (simp_all add: 1(1))
  have new: "record_or_new t' h = r" using rec by simp
  have issued: "Credential_of t' h = Some (did, key) \<and> DeviceKeyByID t' did = key"
    using rec idx r 1(3-5) by (simp add: Credential_of_def DeviceKeyByID_def)
  moreover have "\<exists>e. SetCredential t' h name' did' key' = Inl e" for name' did' key'
    using new r 1(4) by (auto simp: SetCredential_def Let_def split: option.splits)
  moreover have "SetCredential t' h' name' did key' = Inl CredentialTaken"
    if "h' \<noteq> h" "h' \<noteq> []" "key' \<noteq> []" for h' name' key'
    using that idx 1(4) by (simp add: SetCredential_def)
  moreover have "case Block t' h of (b, u) \<Rightarrow>
      b \<and> IsBlocked u h \<and> Credential_of u h = None \<and> DeviceKeyByID u did = []
      \<and> (\<forall>k. k \<noteq> h \<longrightarrow> Credential_of u k = Credential_of t' k \<and> IsBlocked u k = IsBlocked t' k)"
    using new r 1(3,4)
    by (simp add: Block_def Let_def drop_credential_def table_simps IsBlocked_def Credential_of_def
        DeviceKeyByID_def record_or_new_def)
  ultimately show ?thesis by blast
qed

lemma first_credential:
  "\<exists>t'. SetCredential (empty_table ''f'' None True) ''hw'' ''pc'' ''ID'' ''key'' = Inr t'"
proof -
  have "t_by_device_id (empty_table ''f'' None True) d = None" for d by (simp add: empty_table_def)
  then show ?thesis by (simp add: SetCredential_def Let_def record_or_new_def)
qed

theorem credential_life_cycle_witness:
  "\<exists>t t' pool. table_reachable ''f'' True (t, pool) \<and> SetCredential t ''hw'' ''pc'' ''ID'' ''key'' = Inr t'
    \<and> Credential_of t' ''hw'' = Some (''ID'', ''key'') \<and> \<not> IsBlocked t' ''hw''
    \<and> IsBlocked (snd (Block t' ''hw'')) ''hw''"
proof -
  obtain pool where pool: "NewIPPool = Some pool" using NewIPPool_value by blast
  let ?t = "empty_table ''f'' None True"
  have reach: "table_reachable ''f'' True (?t, pool)"
    unfolding table_reachable_def table_start_def by (auto simp: pool)
  obtain t' where set: "SetCredential ?t ''hw'' ''pc'' ''ID'' ''key'' = Inr t'"
    using first_credential by blast
  have "\<not> IsBlocked t' ''hw''"
    using set by (cases rule: SetCredential_Inr) (simp add: IsBlocked_def table_simps record_or_new_def)
  then show ?thesis
    using credential_life_cycle [OF reach set] reach set by (auto split: prod.splits)
qed

text \<open>After a device was blocked and unblocked, it has no credential: the original one is
  gone for good, so the device must be issued a new one (the comments on
  \<^verbatim>\<open>ClearCredential\<close> and \<^verbatim>\<open>Unblock\<close> say it gets its original credential back).\<close>

theorem unblock_does_not_restore_credential:
  assumes "table_reachable path w (t, pool)" and "Credential_of t h = Some (did, key)"
  shows "case Unblock (snd (Block t h)) h of (b, u) \<Rightarrow>
      b \<and> \<not> IsBlocked u h \<and> Credential_of u h = None \<and> DeviceKeyByID u did = []
      \<and> (\<forall>did' key'. did' \<noteq> [] \<longrightarrow> key' \<noteq> [] \<longrightarrow> t_by_device_id u did' = None \<longrightarrow>
           (\<exists>u'. SetCredential u h [] did' key' = Inr u' \<and> Credential_of u' h = Some (did', key')))"
proof -
  obtain rec where rec: "find_record t h = Some rec" "d_device_id rec = did" "did \<noteq> []" "h \<noteq> []"
    using assms(2) by (auto simp: Credential_of_def split: if_splits option.splits)
  then have block: "snd (Block t h) = saveLocked (put_record h (rec\<lparr>d_device_id := [], d_device_key := [], d_blocked := True\<rparr>)
      (drop_credential h rec (put_record h rec t)))"
    by (simp add: Block_def Let_def drop_credential_def table_simps record_or_new_def)
  show ?thesis
    unfolding block
    by (simp add: Unblock_def drop_credential_def table_simps rec IsBlocked_def Credential_of_def
        DeviceKeyByID_def SetCredential_def Let_def record_or_new_def)
qed

theorem unblock_does_not_restore_credential_witness:
  "\<exists>t pool. table_reachable ''f'' True (t, pool) \<and> Credential_of t ''hw'' = Some (''ID'', ''key'')
    \<and> Credential_of (snd (Unblock (snd (Block t ''hw'')) ''hw'')) ''hw'' = None"
proof -
  obtain pool where pool: "NewIPPool = Some pool" using NewIPPool_value by blast
  let ?t = "empty_table ''f'' None True"
  obtain t' where set: "SetCredential ?t ''hw'' ''pc'' ''ID'' ''key'' = Inr t'"
    using first_credential by blast
  have start: "table_start ''f'' True = Some (?t, pool)" by (simp add: table_start_def pool)
  have reach: "table_reachable ''f'' True (t', pool)"
    unfolding table_reachable_def using start table_step.set_credential [OF set] by blast
  have cred: "Credential_of t' ''hw'' = Some (''ID'', ''key'')"
    using set by (cases rule: SetCredential_Inr) (simp add: Credential_of_def table_simps)
  then have "Credential_of (snd (Unblock (snd (Block t' ''hw'')) ''hw'')) ''hw'' = None"
    using unblock_does_not_restore_credential [OF reach cred] by (auto split: prod.splits)
  then show ?thesis using reach cred by blast
qed

section \<open>Restart\<close>

text \<open>The saved file carries the whole table: a server that loads the file written by
  \<^verbatim>\<open>saveLocked\<close> has the same records (an expiry date without an address is dropped) and
  exactly the same reverse indexes, so credentials and rules survive a restart.\<close>

theorem restart_restores_table:
  assumes "table_reachable path w (t, pool)" and "path' \<noteq> []"
  shows "case NewDeviceTable path' (Some (device_file_of (t_by_hwid t))) w' of t' \<Rightarrow>
      find_record t' = (\<lambda>h. map_option undated (find_record t h))
      \<and> t_by_vip t' = t_by_vip t \<and> t_by_device_id t' = t_by_device_id t
      \<and> (\<forall>h. Credential_of t' h = Credential_of t h \<and> Forward_of t' h = Forward_of t h
            \<and> IsBlocked t' h = IsBlocked t h)"
proof -
  have ok: "table_ok t" using reachable_lease_ok [OF assms(1)] by (simp add: lease_ok_def)
  note load = reload_table [OF ok assms(2), of w']
  then show ?thesis
    by (auto simp: Credential_of_def Forward_of_def IsBlocked_def split: option.splits)
qed

theorem restart_restores_table_witness:
  "\<exists>t pool. table_reachable ''leases.json'' True (t, pool) \<and> find_record t ''hw'' \<noteq> None
     \<and> t_by_vip (NewDeviceTable ''x'' (Some (device_file_of (t_by_hwid t))) True) = t_by_vip t"
proof -
  obtain t pool rec where st: "table_reachable ''leases.json'' True (t, pool)" "find_record t ''hw'' = Some rec"
    using example_reachable [of "''hw''"] by auto
  then show ?thesis using restart_restores_table [OF st(1), of "''x''" True] by auto
qed


text \<open>
  A fresh pool does not know the addresses of a loaded table. As long as no new device has
  taken it, a returning device still gets its old address back.
\<close>

lemma pruneLocked_none:
  assumes "\<And>h rec. (h, rec) \<in> set (t_by_hwid t) \<Longrightarrow> \<not> lease_expired now rec"
  shows "pruneLocked now t pool = (t, pool, 0)"
proof -
  have "foldl (\<lambda>st e. prune_step now e st) st es = st"
    if "\<And>h rec. (h, rec) \<in> set es \<Longrightarrow> \<not> lease_expired now rec" for st es
    using that
  proof (induction es arbitrary: st)
    case (Cons e es)
    have "prune_step now e st = st"
      using Cons.prems [of "fst e" "snd e"] by (cases e; cases st) (simp add: prune_step_def)
    moreover have "foldl (\<lambda>st e. prune_step now e st) st es = st"
      by (rule Cons.IH) (use Cons.prems in auto)
    ultimately show ?case by simp
  qed simp
  then show ?thesis using assms unfolding pruneLocked_def by blast
qed

definition all_unexpired :: "gotime \<Rightarrow> device_table \<Rightarrow> bool" where
  "all_unexpired now t \<longleftrightarrow> list_all (\<lambda>(h, rec). \<not> lease_expired now rec) (t_by_hwid t)"

lemma prune_all_unexpired: "all_unexpired now t \<Longrightarrow> pruneLocked now t pool = (t, pool, 0)"
  by (rule pruneLocked_none) (auto simp: all_unexpired_def list_all_iff)

text \<open>C2: After a restart two devices can be given the same address. The server loads a table
  in which device A holds an unexpired lease on the pool's first address; the pool starts
  empty. When a new device B registers first it is given A's address, and when A comes back
  it is given that address too, because \<^verbatim>\<open>Assign\<close> takes an address that is in use to be
  its own.\<close>

theorem restart_gives_one_address_twice:
  assumes "NewIPPool = Some pool" and "all_unexpired now t"
    and "find_record t a = Some rec" and "d_vip rec = pool_start pool"
    and "find_record t b = None" and "a \<noteq> b"
  shows "case Assign t b name_b pool now of (res_b, t1, pool1) \<Rightarrow>
      res_b = Inr (pool_start pool, now + LeaseDuration)
      \<and> (case Assign t1 a name_a pool1 now of (res_a, t2, _) \<Rightarrow>
           res_a = Inr (pool_start pool, now + LeaseDuration)
           \<and> map_option d_vip (find_record t2 a) = Some (pool_start pool)
           \<and> map_option d_vip (find_record t2 b) = Some (pool_start pool))"
proof -
  let ?v = "pool_start pool"
  let ?pool = "pool\<lparr>pool_used := (pool_used pool)(?v := True)\<rparr>"
  let ?b = "(new_record b)\<lparr>d_vip := ?v, d_name := name_b, d_expire := now + LeaseDuration\<rparr>"
  let ?t = "put_record b (new_record b) t"
  let ?t1 = "saveLocked (put_record b ?b (?t\<lparr>t_by_vip := (t_by_vip t)(?v \<mapsto> b)\<rparr>))"
  have pool: "pool_start pool = 0x0A000002" "pool_end pool = 0x0AFFFFFE" "pool_used pool = (\<lambda>_. False)"
    using assms(1) by (auto simp: NewIPPool_value)
  then have alloc: "Alloc pool = Some (?v, ?pool)"
    by (intro Alloc_first) (simp_all add: word_le_nat_alt)
  have first: "Assign t b name_b pool now = (Inr (?v, now + LeaseDuration), ?t1, ?pool)"
    unfolding Assign_def prune_all_unexpired [OF assms(2)]
    by (simp add: record_or_new_def assms(5) choose_vip_def alloc Let_def put_record_fields)
  have mem: "set (AList.update h r m) \<subseteq> insert (h, r) (set m)" for h :: string and r :: device_record and m
    by (induction m) auto
  have live: "\<not> lease_expired now ?b" by (simp add: lease_expired_def LeaseDuration_def Second_def)
  have "set (t_by_hwid ?t1) \<subseteq> insert (b, ?b) (insert (b, new_record b) (set (t_by_hwid t)))"
    unfolding save_fields put_record_fields
    using mem [of b ?b "AList.update b (new_record b) (t_by_hwid t)"] mem [of b "new_record b" "t_by_hwid t"]
    by (auto simp: put_record_def)
  moreover have "\<not> lease_expired now (new_record b)" by (simp add: lease_expired_def)
  ultimately have "all_unexpired now ?t1"
    using live assms(2) by (auto simp: all_unexpired_def list_all_iff)
  note prune1 = prune_all_unexpired [OF this]
  have rec: "find_record ?t1 a = Some rec" using assms(3,6) by (simp add: table_simps)
  have "Held ?pool (d_vip rec)" by (simp add: Held_def assms(4))
  then have "choose_vip a (d_vip rec) (put_record a rec ?t1) ?pool
      = Some (d_vip rec, put_record a rec ?t1, ?pool)"
    using assms(4) pool by (simp add: choose_vip_def)
  then have "Assign ?t1 a name_a ?pool now = (Inr (?v, now + LeaseDuration),
      saveLocked (put_record a (rec\<lparr>d_vip := ?v, d_name := name_a, d_expire := now + LeaseDuration\<rparr>)
        (put_record a rec ?t1)), ?pool)"
    unfolding Assign_def prune1 using rec assms(4) by (simp add: Let_def)
  then show ?thesis using assms(6) by (simp add: first table_simps)
qed

definition restarted_table :: device_table where
  "restarted_table =
     NewDeviceTable ''leases.json''
       (Some \<lparr>f_version = 1,
              f_devices = [\<lparr>j_hwid = ''A'', j_name = ''pc'', j_vip = ''10.0.0.2'', j_expire = 100,
                            j_forward = [], j_device_id = [], j_device_key = [], j_blocked = False\<rparr>]\<rparr>)
       True"

theorem restart_gives_one_address_twice_witness:
  "\<exists>pool t1 pool1. NewIPPool = Some pool
     \<and> Assign restarted_table ''B'' ''b'' pool 50 = (Inr (0x0A000002, 50 + LeaseDuration), t1, pool1)
     \<and> fst (Assign t1 ''A'' ''pc'' pool1 50) = Inr (0x0A000002, 50 + LeaseDuration)"
proof -
  obtain pool where pool: "NewIPPool = Some pool" using NewIPPool_value by blast
  have ip: "IP4 ''10.0.0.2'' = Some 0x0A000002" by code_simp
  have recs: "t_by_hwid restarted_table = [(''A'', \<lparr>d_hwid = ''A'', d_name = ''pc'', d_vip = 0x0A000002,
      d_expire = 100, d_forward = [], d_device_id = [], d_device_key = [], d_blocked = False\<rparr>)]"
    by (simp add: restarted_table_def NewDeviceTable_def load_device_def ip put_record_def empty_table_def)
  have "all_unexpired 50 restarted_table"
    by (simp add: all_unexpired_def recs lease_expired_def)
  moreover have "pool_start pool = 0x0A000002" using pool by (auto simp: NewIPPool_value)
  ultimately show ?thesis
    using restart_gives_one_address_twice [OF pool, of 50 restarted_table "''A''" _ "''B''" "''pc''" "''b''"] pool
    by (fastforce simp: find_record_def recs split: prod.splits)
qed

end
