(* ===== verification/Checksum.thy ===== *)
theory Checksum
  imports Prelude
begin

text \<open>
  The Internet checksum, \<^verbatim>\<open>checksum\<close> of \<^verbatim>\<open>internal/server/icmp.go\<close> (the client's
  \<^verbatim>\<open>internal/client/nat.go\<close> has the same code): 32-bit accumulation of big-endian
  words, the folding loop, and its meaning: a buffer into which the checksum has been written
  sums to all ones, which is what a receiver verifies.
\<close>

section \<open>The code\<close>

fun sum_words :: "u32 \<Rightarrow> byte list \<Rightarrow> u32" where
  "sum_words s (a # b # bs) = sum_words (s + (push_bit 8 (ucast a) OR ucast b)) bs"
| "sum_words s [a] = s + push_bit 8 (ucast a)"
| "sum_words s [] = s"

lemma unat_drop_16: "unat (drop_bit 16 (s :: u32)) = unat s div 65536"
  by (simp add: unat_drop_bit_eq drop_bit_nat_def)

lemma unat_and_ffff: "unat ((s :: u32) AND 0xffff) = unat s mod 65536"
proof -
  have "(0xffff :: u32) = mask 16" by (simp add: mask_eq_exp_minus_1)
  then have "unat (s AND 0xffff) = unat (take_bit 16 s)" by (simp add: take_bit_eq_mask)
  also have "\<dots> = unat s mod 2 ^ 16" by (simp only: unsigned_take_bit_eq take_bit_nat_def)
  also have "\<dots> = unat s mod 65536" by simp
  finally show ?thesis .
qed

lemma unat_fold_step:
  "unat ((s AND 0xffff) + drop_bit 16 s) = unat (s :: u32) mod 65536 + unat s div 65536"
proof -
  have "unat s mod 65536 + unat s div 65536 < 2 ^ LENGTH(32)"
    using unat_u32_less [of s] mult_div_mod_eq [of 65536 "unat s"] by (simp del: mult_div_mod_eq)
  then show ?thesis
    by (simp add: unat_word_ariths(1) unat_drop_16 unat_and_ffff)
qed

function fold16 :: "u32 \<Rightarrow> u32" where
  "fold16 s = (if drop_bit 16 s \<noteq> 0 then fold16 ((s AND 0xffff) + drop_bit 16 s) else s)"
  by pat_completeness auto
termination
proof (relation "measure unat")
  fix s :: u32 assume "drop_bit 16 s \<noteq> 0"
  then have "0 < unat s div 65536" using unat_drop_16 [of s] unat_gt_0 [of "drop_bit 16 s"] by simp
  then show "((s AND 0xffff) + drop_bit 16 s, s) \<in> measure unat"
    using mult_div_mod_eq [of 65536 "unat s"] by (simp add: unat_fold_step del: mult_div_mod_eq, linarith)
qed simp

declare fold16.simps [simp del]

definition checksum :: "byte list \<Rightarrow> u16" where
  "checksum buf = NOT (ucast (fold16 (sum_words 0 buf)))"

section \<open>Its arithmetic\<close>

text \<open>The sum of the 16-bit words as a number, an odd last byte padded with zero.\<close>

fun word_sum :: "byte list \<Rightarrow> nat" where
  "word_sum (a # b # bs) = 256 * unat a + unat b + word_sum bs"
| "word_sum [a] = 256 * unat a"
| "word_sum [] = 0"

definition fold_nat :: "nat \<Rightarrow> nat" where
  "fold_nat n = (if n = 0 then 0 else (n - 1) mod 65535 + 1)"

lemma unat_ucast_byte: "unat (ucast (a :: byte) :: u32) = unat a"
proof -
  have "unat a < 4294967296" using unat_byte_less [of a] by linarith
  then show ?thesis by (simp only: unsigned_ucast_eq take_bit_nat_def) simp
qed

lemma byte_pair_bound: "256 * unat (a :: byte) + unat (b :: byte) < 65536"
  using unat_byte_less [of a] unat_byte_less [of b] by linarith

lemma unat_word_of_bytes: "unat (push_bit 8 (ucast (a :: byte)) OR ucast (b :: byte) :: u32) = 256 * unat a + unat b"
proof -
  have "(push_bit 8 (ucast a) OR ucast b :: u32) = push_bit 8 (ucast a) + ucast b"
    by (rule disjunctive_add_eq_or [symmetric], rule bit_eqI) (auto simp: bit_simps)
  also have "unat \<dots> = 256 * unat a + unat b"
    using byte_pair_bound [of a b] by (simp add: unat_word_ariths push_bit_eq_mult unat_ucast_byte)
  finally show ?thesis .
qed

lemma word_sum_bound: "word_sum bs \<le> 65535 * ((length bs + 1) div 2)"
proof (induction bs rule: word_sum.induct)
  case (1 a b bs)
  then show ?case using byte_pair_bound [of a b] by simp
next
  case (2 a)
  have "256 * unat a \<le> 65535" using byte_pair_bound [of a 0] by linarith
  then show ?case by simp
qed simp

lemma unat_sum_words:
  "unat s + word_sum bs < 2 ^ 32 \<Longrightarrow> unat (sum_words s bs) = unat s + word_sum bs"
proof (induction s bs rule: sum_words.induct)
  case (1 s a b bs)
  have "unat (s + (push_bit 8 (ucast a) OR ucast b)) = unat s + (256 * unat a + unat b)"
    using "1.prems" by (simp add: unat_word_ariths(1) unat_word_of_bytes)
  then show ?case using 1 by simp
next
  case (2 s a)
  then show ?case using unat_word_of_bytes [of a 0] by (simp add: unat_word_ariths(1))
qed simp

lemma fold_nat_small: "0 < n \<Longrightarrow> n \<le> 65535 \<Longrightarrow> fold_nat n = n"
  by (simp add: fold_nat_def)

lemma fold_nat_alt: "0 < n \<Longrightarrow> fold_nat n = (n + 65534) mod 65535 + 1"
proof -
  assume "0 < n"
  then have "n + 65534 = (n - 1) + 65535" by simp
  then show ?thesis using \<open>0 < n\<close> by (simp only: fold_nat_def mod_add_self2) simp
qed

lemma fold_nat_cong: "0 < m \<Longrightarrow> 0 < n \<Longrightarrow> m mod 65535 = n mod 65535 \<Longrightarrow> fold_nat m = fold_nat n"
  by (simp only: fold_nat_alt) (metis mod_add_left_eq)

lemma fold_nat_step:
  assumes "0 < n div 65536" shows "fold_nat (n mod 65536 + n div 65536) = fold_nat n"
proof (rule fold_nat_cong)
  have "n = 65535 * (n div 65536) + (n mod 65536 + n div 65536)"
    using mult_div_mod_eq [of 65536 n] by linarith
  then show "(n mod 65536 + n div 65536) mod 65535 = n mod 65535"
    by (metis mod_mult_self4)
qed (use assms in \<open>simp_all add: gr0I\<close>)

lemma unat_fold16: "unat (fold16 s) = fold_nat (unat s)"
proof (induction s rule: fold16.induct)
  case (1 s)
  show ?case
  proof (cases "drop_bit 16 s = 0")
    case True
    then have "unat s < 65536" using unat_drop_16 [of s] by (simp add: div_eq_0_iff)
    then show ?thesis using True by (cases "unat s = 0") (simp_all add: fold16.simps [of s] fold_nat_def)
  next
    case False
    then have "0 < unat s div 65536" using unat_drop_16 [of s] unat_gt_0 [of "drop_bit 16 s"] by simp
    then show ?thesis using "1.IH" False
      by (simp add: fold16.simps [of s] unat_fold_step fold_nat_step)
  qed
qed

lemma fold_nat_le: "fold_nat n \<le> 65535"
  using pos_mod_bound [of 65535] by (simp add: fold_nat_def Suc_le_eq)

lemma unat_not_u16: "unat (NOT (x :: u16)) = 65535 - unat x"
proof -
  have "NOT x = - x - 1" by (simp add: not_eq_complement)
  also have "\<dots> = 65535 - x" by simp
  moreover have "x \<le> 65535" using unat_u16_less [of x] by (simp add: word_le_nat_alt)
  ultimately show ?thesis by (simp add: unat_sub)
qed

lemma unat_checksum:
  assumes "length buf \<le> 131070" shows "unat (checksum buf) = 65535 - fold_nat (word_sum buf)"
proof -
  have "word_sum buf < 2 ^ 32" using word_sum_bound [of buf] assms by simp
  then have "unat (fold16 (sum_words 0 buf)) = fold_nat (word_sum buf)"
    by (simp add: unat_fold16 unat_sum_words)
  then have "unat (ucast (fold16 (sum_words 0 buf)) :: u16) = fold_nat (word_sum buf)"
    using fold_nat_le [of "word_sum buf"] by (simp add: unsigned_ucast_eq take_bit_nat_def)
  then show ?thesis by (simp add: checksum_def unat_not_u16)
qed

text \<open>Writing the checksum into its zeroed field makes the buffer verify.\<close>

lemma fold_nat_complement: "fold_nat (n + (65535 - fold_nat n)) = 65535"
proof (cases "n = 0")
  case True
  then show ?thesis by (simp add: fold_nat_def)
next
  case False
  then obtain k where n: "n = Suc k" by (cases n) auto
  have "k = 65535 * (k div 65535) + k mod 65535" and r: "k mod 65535 < 65535" by simp_all
  moreover have "fold_nat n = k mod 65535 + 1" by (simp add: n fold_nat_def)
  ultimately have "n + (65535 - fold_nat n) = Suc (65534 + 65535 * (k div 65535))"
    unfolding n by linarith
  then show ?thesis by (simp only: fold_nat_def) simp
qed

lemma word_sum_append: "even (length xs) \<Longrightarrow> word_sum (xs @ ys) = word_sum xs + word_sum ys"
  by (induction xs rule: word_sum.induct) auto

definition verifies :: "byte list \<Rightarrow> bool" where
  "verifies buf \<longleftrightarrow> fold_nat (word_sum buf) = 65535"

lemma verifies_checksum: "length buf \<le> 131070 \<Longrightarrow> verifies buf \<longleftrightarrow> checksum buf = 0"
  using unat_checksum [of buf] fold_nat_le [of "word_sum buf"]
  by (auto simp: verifies_def unat_eq_zero)

lemma unat_be16: "unat (be16 [a, b]) = 256 * unat a + unat b"
proof -
  have "be16 [a, b] = push_bit 8 (ucast a) + ucast b"
    unfolding be16_def by (simp, rule disjunctive_add_eq_or [symmetric], rule bit_eqI) (auto simp: bit_simps)
  moreover have "unat (ucast a :: u16) = unat a" for a :: byte
  proof -
    have "unat a < 65536" using unat_byte_less [of a] by linarith
    then show ?thesis by (simp only: unsigned_ucast_eq take_bit_nat_def) simp
  qed
  ultimately show ?thesis
    using byte_pair_bound [of a b] by (simp add: unat_word_ariths push_bit_eq_mult)
qed

lemma word_sum_put_be16: "word_sum (put_be16 v) = unat v"
  using unat_be16 [of "ucast (drop_bit 8 v)" "ucast v"] be16_put [of v] by (simp add: put_be16_def)

lemma checksum_verifies:
  assumes "length buf = n" and "even (length pre)" and "buf = pre @ [0, 0] @ post" and "n \<le> 131070"
  shows "verifies (pre @ put_be16 (checksum buf) @ post)"
proof -
  have len: "even (length (put_be16 v))" for v by simp
  have "word_sum (pre @ put_be16 (checksum buf) @ post) = word_sum pre + unat (checksum buf) + word_sum post"
    using assms(2) by (simp only: word_sum_append len word_sum_put_be16)
  also have "\<dots> = word_sum buf + unat (checksum buf)"
    using assms(2) by (simp add: assms(3) word_sum_append)
  finally show ?thesis
    using fold_nat_complement unat_checksum assms(1,4) by (simp add: verifies_def)
qed

end
