(* ===== verification/Icmp.thy ===== *)
theory Icmp
  imports Checksum IPPool
begin

text \<open>
  The echo replies the server synthesises for its own virtual address,
  \<^verbatim>\<open>internal/server/icmp.go\<close>. Every index and slice is checked as in Go, so the absence
  of panics is a theorem; a reply has valid checksums and returns the request's payload to
  its sender.
\<close>

section \<open>The code\<close>

definition ipProtoICMP :: byte where "ipProtoICMP = 1"
definition icmpEchoRequest :: byte where "icmpEchoRequest = 8"
definition icmpEchoReply :: byte where "icmpEchoReply = 0"

definition ipv4HeaderLen :: "byte list \<Rightarrow> nat" where
  "ipv4HeaderLen pkt =
     (if length pkt < 20 \<or> drop_bit 4 (pkt ! 0) \<noteq> 4 then 0
      else let ihl = unat (pkt ! 0 AND 0x0f) * 4
           in if ihl < 20 \<or> length pkt < ihl then 0 else ihl)"

text \<open>\<^term>\<open>None\<close> is a panic, \<^term>\<open>Some None\<close> the result \<^verbatim>\<open>nil, false\<close>.\<close>

definition echoReply :: "byte list \<Rightarrow> u32 \<Rightarrow> byte list option option" where
  "echoReply pkt vip =
     (let ihl = ipv4HeaderLen pkt
      in if ihl = 0 then Some None
         else do {
           frag \<leftarrow> go_slice pkt 6 8;
           if be16 frag AND 0x3FFF \<noteq> 0 then Some None
           else do {
             len \<leftarrow> go_slice pkt 2 4;
             let tot = unat (be16 len);
             if tot < ihl + 8 \<or> tot > length pkt then Some None
             else do {
               proto \<leftarrow> go_index pkt 9;
               if proto \<noteq> ipProtoICMP then Some None
               else do {
                 dst \<leftarrow> go_slice pkt 16 20;
                 if be32 dst \<noteq> vip then Some None
                 else do {
                   icmp \<leftarrow> go_slice pkt ihl tot;
                   typ \<leftarrow> go_index icmp 0;
                   code \<leftarrow> go_index icmp 1;
                   if typ \<noteq> icmpEchoRequest \<or> code \<noteq> 0 then Some None
                   else do {
                     reply \<leftarrow> go_slice pkt 0 tot;
                     src \<leftarrow> go_slice pkt 12 16;
                     reply \<leftarrow> go_write reply 12 dst;
                     reply \<leftarrow> go_write reply 16 src;
                     reply \<leftarrow> go_write reply ihl [icmpEchoReply];
                     reply \<leftarrow> go_write reply (ihl + 2) [0, 0];
                     seg \<leftarrow> go_slice reply ihl tot;
                     reply \<leftarrow> go_write reply (ihl + 2) (put_be16 (checksum seg));
                     reply \<leftarrow> go_write reply 10 [0, 0];
                     hdr \<leftarrow> go_slice reply 0 ihl;
                     reply \<leftarrow> go_write reply 10 (put_be16 (checksum hdr));
                     Some (Some reply)
                   }
                 }
               }
             }
           }
         })"

section \<open>Correctness\<close>

lemma low_nibble: "unat (b AND 0x0f :: byte) \<le> 15"
proof -
  have "(0x0f :: byte) = mask 4" by (simp add: mask_eq_exp_minus_1)
  then have "unat (b AND 0x0f) = unat (take_bit 4 b)" by (simp add: take_bit_eq_mask)
  also have "\<dots> = unat b mod 2 ^ 4" by (simp only: unsigned_take_bit_eq take_bit_nat_def)
  finally show ?thesis by simp
qed

lemma ipv4HeaderLen_bounds:
  assumes "ipv4HeaderLen pkt \<noteq> 0"
  shows "20 \<le> ipv4HeaderLen pkt" "ipv4HeaderLen pkt \<le> length pkt" "ipv4HeaderLen pkt \<le> 60"
    "even (ipv4HeaderLen pkt)"
  using assms low_nibble [of "pkt ! 0"] by (auto simp: ipv4HeaderLen_def Let_def split: if_splits)

text \<open>The request, cut into the fields the code touches.\<close>

definition echo_layout :: "byte list \<Rightarrow> byte list \<Rightarrow> byte list \<Rightarrow> byte list \<Rightarrow> byte list \<Rightarrow> byte \<Rightarrow> byte
    \<Rightarrow> byte list \<Rightarrow> byte list \<Rightarrow> byte list \<Rightarrow> byte list" where
  "echo_layout a k s d opts ty cd x r extra =
     a @ k @ s @ d @ opts @ [ty, cd] @ x @ r @ extra"

lemma split_block:
  assumes "n \<le> length xs" obtains ys zs where "xs = ys @ zs" "length ys = n"
  using assms that [of "take n xs" "drop n xs"] by simp

lemma go_slice_block:
  "length xs = i \<Longrightarrow> j = i + length ys \<Longrightarrow> go_slice (xs @ ys @ zs) i j = Some ys"
  by (simp add: go_slice_def)

lemma go_write_block:
  "length xs = i \<Longrightarrow> length ys' = length ys \<Longrightarrow> go_write (xs @ ys @ zs) i ys' = Some (xs @ ys' @ zs)"
  by (simp add: go_write_def splice_def)

lemma echo_layout_exists:
  assumes "20 \<le> ihl" and "ihl + 8 \<le> tot" and "tot \<le> length pkt"
  obtains a k s d opts ty cd x r extra where
    "pkt = echo_layout a k s d opts ty cd x r extra" "length a = 10" "length k = 2" "length s = 4"
    "length d = 4" "length opts = ihl - 20" "length x = 2" "length r = tot - ihl - 4"
proof -
  obtain a p1 where 1: "pkt = a @ p1" "length a = 10"
    by (rule split_block [of 10 pkt]) (use assms in simp_all)
  obtain k p2 where 2: "p1 = k @ p2" "length k = 2"
    by (rule split_block [of 2 p1]) (use assms 1 in simp_all)
  obtain s p3 where 3: "p2 = s @ p3" "length s = 4"
    by (rule split_block [of 4 p2]) (use assms 1 2 in simp_all)
  obtain d p4 where 4: "p3 = d @ p4" "length d = 4"
    by (rule split_block [of 4 p3]) (use assms 1 2 3 in simp_all)
  obtain opts p5 where 5: "p4 = opts @ p5" "length opts = ihl - 20"
    by (rule split_block [of "ihl - 20" p4]) (use assms 1 2 3 4 in simp_all)
  obtain tc p6 where 6: "p5 = tc @ p6" "length tc = 2"
    by (rule split_block [of 2 p5]) (use assms 1 2 3 4 5 in simp_all)
  obtain x p7 where 7: "p6 = x @ p7" "length x = 2"
    by (rule split_block [of 2 p6]) (use assms 1 2 3 4 5 6 in simp_all)
  obtain r extra where 8: "p7 = r @ extra" "length r = tot - ihl - 4"
    by (rule split_block [of "tot - ihl - 4" p7]) (use assms 1 2 3 4 5 6 7 in simp_all)
  obtain ty cd where tc: "tc = [ty, cd]" using 6(2) length_2_list by blast
  show ?thesis
    using that [of a k s d opts ty cd x r extra] 1 2 3 4 5 6 7 8 tc by (simp add: echo_layout_def)
qed

definition reply_of :: "byte list \<Rightarrow> byte list \<Rightarrow> byte list \<Rightarrow> byte list \<Rightarrow> byte \<Rightarrow> byte list \<Rightarrow> byte list" where
  "reply_of a s d opts cd r =
     a @ put_be16 (checksum (a @ [0, 0] @ d @ s @ opts)) @ d @ s @ opts @ [icmpEchoReply, cd]
     @ put_be16 (checksum ([icmpEchoReply, cd] @ [0, 0] @ r)) @ r"

definition echo_accepted :: "byte list \<Rightarrow> u32 \<Rightarrow> bool" where
  "echo_accepted pkt vip \<longleftrightarrow>
     (let ihl = ipv4HeaderLen pkt; tot = unat (be16 (take 2 (drop 2 pkt)))
      in ihl \<noteq> 0 \<and> be16 (take 2 (drop 6 pkt)) AND 0x3FFF = 0 \<and> ihl + 8 \<le> tot \<and> tot \<le> length pkt
         \<and> pkt ! 9 = ipProtoICMP \<and> be32 (take 4 (drop 16 pkt)) = vip
         \<and> pkt ! ihl = icmpEchoRequest \<and> pkt ! (ihl + 1) = 0)"

lemma echoReply_rejected:
  assumes "\<not> echo_accepted pkt vip" shows "echoReply pkt vip = Some None"
proof (cases "ipv4HeaderLen pkt = 0")
  case True
  then show ?thesis by (simp add: echoReply_def)
next
  case False
  note b = ipv4HeaderLen_bounds [OF False]
  define tot where "tot = unat (be16 (take 2 (drop 2 pkt)))"
  have hdr: "go_slice pkt 6 8 = Some (take 2 (drop 6 pkt))" "go_slice pkt 2 4 = Some (take 2 (drop 2 pkt))"
    "go_index pkt 9 = Some (pkt ! 9)" "go_slice pkt 16 20 = Some (take 4 (drop 16 pkt))"
    using b by (simp_all add: go_slice_def go_index_def)
  show ?thesis
  proof (cases "ipv4HeaderLen pkt + 8 \<le> tot \<and> tot \<le> length pkt")
    case out: False
    then show ?thesis using False hdr by (auto simp: echoReply_def Let_def tot_def)
  next
    case inside: True
    then have "go_slice pkt (ipv4HeaderLen pkt) tot = Some (take (tot - ipv4HeaderLen pkt) (drop (ipv4HeaderLen pkt) pkt))"
      by (simp add: go_slice_def)
    with inside show ?thesis
      using assms False hdr by (auto simp: echoReply_def echo_accepted_def Let_def tot_def go_index_def)
  qed
qed

lemma echoReply_accepted:
  assumes "echo_accepted pkt vip"
    and "pkt = echo_layout a k s d opts ty cd x r extra" "length a = 10" "length k = 2" "length s = 4"
    "length d = 4" "length opts = ipv4HeaderLen pkt - 20" "length x = 2"
    "length r = unat (be16 (take 2 (drop 2 pkt))) - ipv4HeaderLen pkt - 4"
  shows "echoReply pkt vip = Some (Some (reply_of a s d opts cd r))"
proof -
  define ihl where "ihl = ipv4HeaderLen pkt"
  define tot where "tot = unat (be16 (take 2 (drop 2 pkt)))"
  have cond: "ihl \<noteq> 0" "be16 (take 2 (drop 6 pkt)) AND 0x3FFF = 0" "ihl + 8 \<le> tot" "tot \<le> length pkt"
    "pkt ! 9 = ipProtoICMP" "be32 (take 4 (drop 16 pkt)) = vip"
    "pkt ! ihl = icmpEchoRequest" "pkt ! (ihl + 1) = 0"
    using assms(1) by (auto simp: echo_accepted_def Let_def ihl_def tot_def)
  have b: "20 \<le> ihl" "ihl \<le> length pkt"
    using ipv4HeaderLen_bounds cond(1) by (auto simp: ihl_def)
  have ihl: "ihl = 20 + length opts" and tot: "tot = 24 + length opts + length r"
    using assms(7,9) b cond(3) by (auto simp: ihl_def tot_def)
  have tt: "unat (be16 (take 2 (drop 2 pkt))) = 24 + length opts + length r"
    using tot by (simp add: tot_def)
  have ih: "ipv4HeaderLen pkt = 20 + length opts" using ihl by (simp add: ihl_def)
  have dd: "be32 d = vip" using cond(6) assms(2-6) by (simp add: echo_layout_def)
  have tc: "ty = icmpEchoRequest" "cd = 0"
    using cond(7,8) ihl assms(2-7) ih by (auto simp: echo_layout_def nth_append)
  have fr: "be16 (take 2 (drop 6 pkt)) AND 0x3FFF = 0" "pkt ! 9 = ipProtoICMP" using cond by simp_all
  have lp: "length pkt = 24 + length opts + length r + length extra"
    using assms(2-9) by (simp add: echo_layout_def)
  define n where "n = length opts"
  define m where "m = length r"
  have P: "pkt = a @ k @ s @ d @ opts @ [icmpEchoRequest, 0] @ x @ r @ extra"
    using assms(2) tc by (simp add: echo_layout_def)
  have l: "length a = 10" "length k = 2" "length s = 4" "length d = 4" "length opts = n" "length x = 2"
    "length r = m"
    using assms(3-8) by (simp_all add: n_def m_def)
  have f: "go_slice pkt 2 4 = Some (take 2 (drop 2 pkt))" "go_slice pkt 6 8 = Some (take 2 (drop 6 pkt))"
    "go_index pkt 9 = Some ipProtoICMP" "go_slice pkt 16 20 = Some d" "go_slice pkt 12 16 = Some s"
    using l fr lp by (simp_all add: go_slice_def go_index_def P)
  have seg: "go_slice pkt (20 + n) (24 + n + m) = Some ([icmpEchoRequest, 0] @ x @ r)"
    using go_slice_block [of "a @ k @ s @ d @ opts" "20 + n" "24 + n + m" "[icmpEchoRequest, 0] @ x @ r" extra] l
    by (simp add: P)
  have w0: "go_slice pkt 0 (24 + n + m) = Some (a @ k @ s @ d @ opts @ [icmpEchoRequest, 0] @ x @ r)"
    using go_slice_block [of "[]" 0 "24 + n + m" "a @ k @ s @ d @ opts @ [icmpEchoRequest, 0] @ x @ r" extra] l
    by (simp add: P)
  let ?rest = "opts @ [icmpEchoRequest, 0] @ x @ r"
  have w1: "go_write (a @ k @ s @ d @ ?rest) 12 d = Some (a @ k @ d @ d @ ?rest)"
    using go_write_block [of "a @ k" 12 d s "d @ ?rest"] l by simp
  have w2: "go_write (a @ k @ d @ d @ ?rest) 16 s = Some (a @ k @ d @ s @ ?rest)"
    using go_write_block [of "a @ k @ d" 16 s d "?rest"] l by simp
  let ?h = "a @ k @ d @ s @ opts"
  have w3: "go_write (a @ k @ d @ s @ ?rest) (20 + n) [icmpEchoReply] = Some (?h @ [icmpEchoReply, 0] @ x @ r)"
    using go_write_block [of ?h "20 + n" "[icmpEchoReply]" "[icmpEchoRequest]" "[0] @ x @ r"] l by simp
  have w4: "go_write (?h @ [icmpEchoReply, 0] @ x @ r) (22 + n) z = Some (?h @ [icmpEchoReply, 0] @ z @ r)"
    if "length z = 2" "length x = 2" for x z
    using go_write_block [of "?h @ [icmpEchoReply, 0]" "22 + n" z x r] l that by simp
  have s5: "go_slice (?h @ [icmpEchoReply, 0] @ [0, 0] @ r) (20 + n) (24 + n + m) = Some ([icmpEchoReply, 0] @ [0, 0] @ r)"
    using go_slice_block [of ?h "20 + n" "24 + n + m" "[icmpEchoReply, 0] @ [0, 0] @ r" "[]"] l by simp
  have w6: "go_write (a @ y @ d @ s @ opts @ q) 10 z = Some (a @ z @ d @ s @ opts @ q)"
    if "length y = 2" "length z = 2" for y z q
    using go_write_block [of a 10 z y "d @ s @ opts @ q"] l that by simp
  have s6: "go_slice (a @ [0, 0] @ d @ s @ opts @ q) 0 (20 + n) = Some (a @ [0, 0] @ d @ s @ opts)" for q
    using go_slice_block [of "[]" 0 "20 + n" "a @ [0, 0] @ d @ s @ opts" q] l by simp
  have run: "echoReply pkt vip = do {
      reply \<leftarrow> go_slice pkt 0 (24 + n + m);
      reply \<leftarrow> go_write reply 12 d;
      reply \<leftarrow> go_write reply 16 s;
      reply \<leftarrow> go_write reply (20 + n) [icmpEchoReply];
      reply \<leftarrow> go_write reply (22 + n) [0, 0];
      seg \<leftarrow> go_slice reply (20 + n) (24 + n + m);
      reply \<leftarrow> go_write reply (22 + n) (put_be16 (checksum seg));
      reply \<leftarrow> go_write reply 10 [0, 0];
      hdr \<leftarrow> go_slice reply 0 (20 + n);
      reply \<leftarrow> go_write reply 10 (put_be16 (checksum hdr));
      Some (Some reply)}"
  proof -
    have c: "(20 + n = 0) = False" "(24 + n + m < 20 + n + 8 \<or> length pkt < 24 + n + m) = False"
      "(ipProtoICMP \<noteq> ipProtoICMP) = False" "(vip \<noteq> vip) = False" "20 + n + 2 = 22 + n"
      "(icmpEchoRequest \<noteq> icmpEchoRequest \<or> (0::byte) \<noteq> 0) = False" "((0::u16) \<noteq> 0) = False"
      "go_index ([icmpEchoRequest, 0] @ x @ r) 0 = Some icmpEchoRequest"
      "go_index ([icmpEchoRequest, 0] @ x @ r) 1 = Some 0"
      using lp l cond(3) ih tot by (simp_all add: go_index_def ihl)
    have ih': "ipv4HeaderLen pkt = 20 + n" and tt': "unat (be16 (take 2 (drop 2 pkt))) = 24 + n + m"
      using ih tt by (simp_all add: n_def m_def)
    show ?thesis
      by (simp only: echoReply_def Let_def ih' tt' c f seg dd fr Option.bind.simps if_False)
  qed
  have len: "length [0::byte, 0] = 2" "length (put_be16 v) = 2" for v by simp_all
  show ?thesis
    by (simp only: run w0 w1 w2 w3 w4 [OF len(1) l(6), unfolded append_assoc]
        w4 [OF len(2) len(1), unfolded append_assoc] s5 [unfolded append_assoc] w6 [OF l(2) len(1)]
        w6 [OF len(1) len(2)] s6 Option.bind.simps reply_of_def tc append_assoc)
qed

text \<open>The request's total length field, and what a reply has to look like.\<close>

definition ip_total :: "byte list \<Rightarrow> nat" where
  "ip_total pkt = unat (be16 (take 2 (drop 2 pkt)))"

definition is_echo_reply_to :: "byte list \<Rightarrow> byte list \<Rightarrow> bool" where
  "is_echo_reply_to pkt rep \<longleftrightarrow>
     (let ihl = ipv4HeaderLen pkt; tot = ip_total pkt
      in length rep = tot
         \<and> take 10 rep = take 10 pkt
         \<and> take 4 (drop 12 rep) = take 4 (drop 16 pkt)
         \<and> take 4 (drop 16 rep) = take 4 (drop 12 pkt)
         \<and> take (ihl - 20) (drop 20 rep) = take (ihl - 20) (drop 20 pkt)
         \<and> rep ! ihl = icmpEchoReply \<and> rep ! (ihl + 1) = pkt ! (ihl + 1)
         \<and> drop (ihl + 4) rep = take (tot - ihl - 4) (drop (ihl + 4) pkt)
         \<and> verifies (take ihl rep) \<and> verifies (drop ihl rep))"

lemma reply_of_verifies:
  assumes "length a = 10" "length s = 4" "length d = 4" "even (length opts)"
    and "length opts \<le> 40" "length r \<le> 65535"
  shows "verifies (a @ put_be16 (checksum (a @ [0, 0] @ d @ s @ opts)) @ d @ s @ opts)"
    and "verifies ([t, cd] @ put_be16 (checksum ([t, cd] @ [0, 0] @ r)) @ r)"
  by (rule checksum_verifies [OF refl]; use assms in simp)+

lemma echo_accepted_reply:
  assumes acc: "echo_accepted pkt vip"
  shows "\<exists>rep. echoReply pkt vip = Some (Some rep) \<and> is_echo_reply_to pkt rep"
proof -
  have b: "20 \<le> ipv4HeaderLen pkt" "ipv4HeaderLen pkt \<le> 60" "even (ipv4HeaderLen pkt)"
    and t: "ipv4HeaderLen pkt + 8 \<le> ip_total pkt" "ip_total pkt \<le> length pkt" "ip_total pkt < 65536"
    using acc ipv4HeaderLen_bounds unat_u16_less
    by (auto simp: echo_accepted_def Let_def ip_total_def)
  obtain a k s d opts ty cd x r extra where lay:
    "pkt = echo_layout a k s d opts ty cd x r extra" "length a = 10" "length k = 2" "length s = 4"
    "length d = 4" "length opts = ipv4HeaderLen pkt - 20" "length x = 2"
    "length r = ip_total pkt - ipv4HeaderLen pkt - 4"
    by (rule echo_layout_exists [OF b(1) t(1,2)])
  have run: "echoReply pkt vip = Some (Some (reply_of a s d opts cd r))"
    by (rule echoReply_accepted [OF acc lay(1-7)]) (use lay(8) in \<open>simp add: ip_total_def\<close>)
  have ihl: "ipv4HeaderLen pkt = 20 + length opts" using lay(6) b by simp
  have tot: "ip_total pkt = 24 + length opts + length r" using lay(8) ihl t by simp
  let ?rep = "reply_of a s d opts cd r"
  have "is_echo_reply_to pkt ?rep"
    unfolding is_echo_reply_to_def Let_def ihl tot
  proof (intro conjI)
    have v: "length opts \<le> 40" "even (length opts)" "length r \<le> 65535" using b t(3) ihl tot by simp_all
    note ver = reply_of_verifies [OF lay(2,4,5) v(2,1,3)]
    have "take (20 + length opts) ?rep = a @ put_be16 (checksum (a @ [0, 0] @ d @ s @ opts)) @ d @ s @ opts"
      using lay(2,4,5) by (simp add: reply_of_def)
    then show "verifies (take (20 + length opts) ?rep)" by (simp only: ver(1))
    have "drop (20 + length opts) ?rep = [icmpEchoReply, cd] @ put_be16 (checksum ([icmpEchoReply, cd] @ [0, 0] @ r)) @ r"
      using lay(2,4,5) by (simp add: reply_of_def)
    then show "verifies (drop (20 + length opts) ?rep)" by (simp only: ver(2))
  qed (use lay(2-5,7) in \<open>simp_all add: lay(1) echo_layout_def reply_of_def nth_append\<close>)
  with run show ?thesis by blast
qed

section \<open>Properties\<close>

text \<open>C10: whatever bytes a client sends, the server's ICMP responder never panics. It answers
  exactly the unfragmented IPv4 echo requests to its own address whose total length fits the
  packet; the answer has the length of the request, its addresses swapped, the type echo reply,
  the request's identifier, sequence number and payload, and valid header and ICMP checksums.\<close>

theorem echo_reply_correct:
  "case echoReply pkt vip of None \<Rightarrow> False
   | Some None \<Rightarrow> \<not> echo_accepted pkt vip
   | Some (Some rep) \<Rightarrow> echo_accepted pkt vip \<and> is_echo_reply_to pkt rep"
proof (cases "echo_accepted pkt vip")
  case True
  then show ?thesis using echo_accepted_reply by fastforce
next
  case False
  then show ?thesis by (simp add: echoReply_rejected)
qed

definition ping_10_0_0_1 :: "byte list" where
  "ping_10_0_0_1 =
     [0x45, 0, 0, 30, 0x12, 0x34, 0x40, 0, 64, 1, 0, 0, 10, 0, 0, 2, 10, 0, 0, 1,
      8, 0, 0, 0, 0, 7, 0, 1, 0x61, 0x62]"

lemma echo_reply_sample:
  "map_option (map_option (\<lambda>r. take 4 (drop 16 r) @ drop 20 r)) (echoReply ping_10_0_0_1 0x0A000001)
   = Some (Some [10, 0, 0, 2, 0, 0, 0x9E, 0x95, 0, 7, 0, 1, 0x61, 0x62])"
  by code_simp

end
