(* ===== verification/Conntrack.thy ===== *)
theory Conntrack
  imports Checksum Forward DeviceTable Icmp
begin

text \<open>
  The client's port forwarding, \<^verbatim>\<open>internal/client/nat.go\<close>: parsing of IPv4 packets,
  rewriting of addresses, ports and checksums in place, and the connection tracking tables.
  A function that indexes or slices the packet returns an option, \<^term>\<open>None\<close> for a panic; the
  packet's bytes are passed and returned, as the parsed form shares them.
\<close>

section \<open>Packets\<close>

record ipv4_pkt =
  ip_proto :: byte
  ip_src :: u32
  ip_dst :: u32
  ip_ihl :: nat
  ip_len :: nat

definition parseIPv4 :: "byte list \<Rightarrow> ipv4_pkt option option" where
  "parseIPv4 buf =
     (if length buf < 20 \<or> drop_bit 4 (buf ! 0) \<noteq> 4 then Some None
      else let ihl = unat (buf ! 0 AND 0x0f) * 4
           in if ihl < 20 \<or> length buf < ihl then Some None
              else do {
                l \<leftarrow> go_slice buf 2 4;
                let tot = min (unat (be16 l)) (length buf);
                if tot < ihl then Some None
                else do {
                  proto \<leftarrow> go_index buf 9;
                  src \<leftarrow> go_slice buf 12 16;
                  dst \<leftarrow> go_slice buf 16 20;
                  Some (Some \<lparr>ip_proto = proto, ip_src = be32 src, ip_dst = be32 dst, ip_ihl = ihl, ip_len = tot\<rparr>)
                }
              })"

definition has_ports :: "byte \<Rightarrow> bool" where
  "has_ports proto \<longleftrightarrow> proto = 6 \<or> proto = 17"

definition transportOK :: "ipv4_pkt \<Rightarrow> bool" where
  "transportOK p =
     (if ip_proto p = 6 then ip_ihl p + 20 \<le> ip_len p
      else if ip_proto p = 17 then ip_ihl p + 8 \<le> ip_len p
      else True)"

definition srcPort :: "byte list \<Rightarrow> ipv4_pkt \<Rightarrow> u16 option" where
  "srcPort buf p =
     (if \<not> has_ports (ip_proto p) \<or> ip_len p < ip_ihl p + 4 then Some 0
      else map_option be16 (go_slice buf (ip_ihl p) (ip_ihl p + 2)))"

definition dstPort :: "byte list \<Rightarrow> ipv4_pkt \<Rightarrow> u16 option" where
  "dstPort buf p =
     (if \<not> has_ports (ip_proto p) \<or> ip_len p < ip_ihl p + 4 then Some 0
      else map_option be16 (go_slice buf (ip_ihl p + 2) (ip_ihl p + 4)))"

definition setSrc :: "u32 \<Rightarrow> byte list \<Rightarrow> byte list option" where
  "setSrc ip buf = go_write buf 12 (put_be32 ip)"

definition setDst :: "u32 \<Rightarrow> byte list \<Rightarrow> byte list option" where
  "setDst ip buf = go_write buf 16 (put_be32 ip)"

definition setSrcPort :: "ipv4_pkt \<Rightarrow> u16 \<Rightarrow> byte list \<Rightarrow> byte list option" where
  "setSrcPort p port buf =
     (if \<not> has_ports (ip_proto p) \<or> ip_len p < ip_ihl p + 4 then Some buf
      else go_write buf (ip_ihl p) (put_be16 port))"

definition setDstPort :: "ipv4_pkt \<Rightarrow> u16 \<Rightarrow> byte list \<Rightarrow> byte list option" where
  "setDstPort p port buf =
     (if \<not> has_ports (ip_proto p) \<or> ip_len p < ip_ihl p + 4 then Some buf
      else go_write buf (ip_ihl p + 2) (put_be16 port))"

definition pseudo_header :: "ipv4_pkt \<Rightarrow> nat \<Rightarrow> byte list" where
  "pseudo_header p n = put_be32 (ip_src p) @ put_be32 (ip_dst p) @ [0, ip_proto p] @ put_be16 (of_nat n)"

definition rewriteChecksums :: "byte list \<Rightarrow> byte list option" where
  "rewriteChecksums buf = do {
     parsed \<leftarrow> parseIPv4 buf;
     case parsed of
       None \<Rightarrow> Some buf
     | Some p \<Rightarrow> do {
         buf \<leftarrow> go_write buf 10 [0, 0];
         hdr \<leftarrow> go_slice buf 0 (ip_ihl p);
         buf \<leftarrow> go_write buf 10 (put_be16 (checksum hdr));
         seg \<leftarrow> go_slice buf (ip_ihl p) (ip_len p);
         if \<not> has_ports (ip_proto p) then Some buf
         else if ip_proto p = 17 \<and> length seg \<ge> 8 \<and> seg ! 6 = 0 \<and> seg ! 7 = 0 then Some buf
         else do {
           let off = (if ip_proto p = 6 then 16 else 6);
           if length seg < off + 2 then Some buf
           else do {
             buf \<leftarrow> go_write buf (ip_ihl p + off) [0, 0];
             seg \<leftarrow> go_slice buf (ip_ihl p) (ip_len p);
             go_write buf (ip_ihl p + off) (put_be16 (checksum (pseudo_header p (length seg) @ seg)))
           }
         }
       }
   }"

definition rewriteDstToSelf :: "byte list \<Rightarrow> u32 \<Rightarrow> (bool \<times> byte list) option" where
  "rewriteDstToSelf buf self = do {
     parsed \<leftarrow> parseIPv4 buf;
     case parsed of
       None \<Rightarrow> Some (False, buf)
     | Some p \<Rightarrow>
         if ip_dst p = self then Some (True, buf)
         else do { buf \<leftarrow> setDst self buf; buf \<leftarrow> rewriteChecksums buf; Some (True, buf) }
   }"

section \<open>Connection tracking\<close>

record flow_key =
  fk_proto :: byte
  fk_src_ip :: u32
  fk_src_port :: u16
  fk_dst_ip :: u32
  fk_dst_port :: u16

record flow_entry =
  fe_target_ip :: u32
  fe_target_port :: u16
  fe_last_seen :: gotime

record nat_state =
  n_self :: u32
  n_rules :: "u16 \<Rightarrow> rule option"
  n_fwd :: "flow_key \<Rightarrow> flow_entry option"
  n_rev :: "flow_key \<Rightarrow> u16 option"
  n_rev_seen :: "flow_key \<Rightarrow> gotime option"
  n_closed :: bool

definition rule_table :: "rule list \<Rightarrow> u16 \<Rightarrow> rule option" where
  "rule_table rules = foldl (\<lambda>m r. m(r_vport r \<mapsto> r)) (\<lambda>_. None) rules"

definition NewNat :: "u32 \<Rightarrow> rule list \<Rightarrow> nat_state" where
  "NewNat self rules =
     \<lparr>n_self = self, n_rules = rule_table rules, n_fwd = (\<lambda>_. None), n_rev = (\<lambda>_. None),
      n_rev_seen = (\<lambda>_. None), n_closed = False\<rparr>"

definition nat_Close :: "nat_state \<Rightarrow> nat_state" where
  "nat_Close n = n\<lparr>n_closed := True\<rparr>"

definition SetRules :: "rule list \<Rightarrow> nat_state \<Rightarrow> nat_state" where
  "SetRules rules n = n\<lparr>n_rules := rule_table rules\<rparr>"

text \<open>The tables after a request from \<open>src:sport\<close> to virtual port \<open>vport\<close>.\<close>

definition request_key :: "byte \<Rightarrow> u32 \<Rightarrow> u16 \<Rightarrow> u32 \<Rightarrow> u16 \<Rightarrow> flow_key" where
  "request_key proto src sport self vport =
     \<lparr>fk_proto = proto, fk_src_ip = src, fk_src_port = sport, fk_dst_ip = self, fk_dst_port = vport\<rparr>"

definition response_key :: "byte \<Rightarrow> rule \<Rightarrow> u32 \<Rightarrow> u16 \<Rightarrow> flow_key" where
  "response_key proto r src sport =
     \<lparr>fk_proto = proto, fk_src_ip = r_target_ip r, fk_src_port = r_target_port r, fk_dst_ip = src, fk_dst_port = sport\<rparr>"

definition track :: "byte \<Rightarrow> rule \<Rightarrow> u32 \<Rightarrow> u16 \<Rightarrow> u16 \<Rightarrow> gotime \<Rightarrow> nat_state \<Rightarrow> nat_state" where
  "track proto r src sport vport now n =
     (let fk = request_key proto src sport (n_self n) vport; rk = response_key proto r src sport
      in n\<lparr>n_fwd := (n_fwd n)(fk \<mapsto> \<lparr>fe_target_ip = r_target_ip r, fe_target_port = r_target_port r, fe_last_seen = now\<rparr>),
           n_rev := (n_rev n)(rk \<mapsto> vport), n_rev_seen := (n_rev_seen n)(rk \<mapsto> now)\<rparr>)"

definition DNAT :: "nat_state \<Rightarrow> byte list \<Rightarrow> gotime \<Rightarrow> (bool \<times> nat_state \<times> byte list) option" where
  "DNAT n buf now = do {
     parsed \<leftarrow> parseIPv4 buf;
     case parsed of
       None \<Rightarrow> Some (False, n, buf)
     | Some p \<Rightarrow>
         if \<not> has_ports (ip_proto p) then Some (False, n, buf)
         else if ip_dst p \<noteq> n_self n then Some (False, n, buf)
         else do {
           vport \<leftarrow> dstPort buf p;
           case n_rules n vport of
             None \<Rightarrow> Some (False, n, buf)
           | Some r \<Rightarrow>
               if \<not> transportOK p then Some (False, n, buf)
               else do {
                 sport \<leftarrow> srcPort buf p;
                 let n = track (ip_proto p) r (ip_src p) sport vport now n;
                 buf \<leftarrow> setDst (r_target_ip r) buf;
                 buf \<leftarrow> setDstPort p (r_target_port r) buf;
                 buf \<leftarrow> rewriteChecksums buf;
                 Some (True, n, buf)
               }
         }
   }"

definition SNAT :: "nat_state \<Rightarrow> byte list \<Rightarrow> gotime \<Rightarrow> (bool \<times> nat_state \<times> byte list) option" where
  "SNAT n buf now = do {
     parsed \<leftarrow> parseIPv4 buf;
     case parsed of
       None \<Rightarrow> Some (False, n, buf)
     | Some p \<Rightarrow>
         if \<not> has_ports (ip_proto p) then Some (False, n, buf)
         else do {
           sport \<leftarrow> srcPort buf p;
           dport \<leftarrow> dstPort buf p;
           let rk = \<lparr>fk_proto = ip_proto p, fk_src_ip = ip_src p, fk_src_port = sport,
                     fk_dst_ip = ip_dst p, fk_dst_port = dport\<rparr>;
           case n_rev n rk of
             None \<Rightarrow> Some (False, n, buf)
           | Some vport \<Rightarrow>
               if \<not> transportOK p then Some (False, n, buf)
               else do {
                 let n = n\<lparr>n_rev_seen := (n_rev_seen n)(rk \<mapsto> now)\<rparr>;
                 buf \<leftarrow> setSrc (n_self n) buf;
                 buf \<leftarrow> setSrcPort p vport buf;
                 buf \<leftarrow> rewriteChecksums buf;
                 Some (True, n, buf)
               }
         }
   }"

text \<open>One round of \<^verbatim>\<open>cleanLoop\<close>.\<close>

definition flow_idle :: int where "flow_idle = 2 * 60 * Second"

definition clean :: "gotime \<Rightarrow> nat_state \<Rightarrow> nat_state" where
  "clean now n =
     (let stale = (\<lambda>k. case n_rev_seen n k of None \<Rightarrow> False | Some seen \<Rightarrow> now - seen > flow_idle)
      in n\<lparr>n_fwd := (\<lambda>k. case n_fwd n k of
                          None \<Rightarrow> None
                        | Some f \<Rightarrow> if now - fe_last_seen f > flow_idle then None else Some f),
           n_rev := (\<lambda>k. if stale k then None else n_rev n k),
           n_rev_seen := (\<lambda>k. if stale k then None else n_rev_seen n k)\<rparr>)"

section \<open>Splicing\<close>

lemma take_drop_splice_inside:
  assumes "a \<le> i" and "i + length ys \<le> a + n" and "a + n \<le> length xs"
  shows "take n (drop a (splice xs i ys)) = splice (take n (drop a xs)) (i - a) ys"
proof (rule nth_equalityI)
  show "length (take n (drop a (splice xs i ys))) = length (splice (take n (drop a xs)) (i - a) ys)"
    using assms by simp
  fix k assume "k < length (take n (drop a (splice xs i ys)))"
  then show "take n (drop a (splice xs i ys)) ! k = splice (take n (drop a xs)) (i - a) ys ! k"
    using assms by (auto simp: nth_splice ac_simps)
qed

lemma splice_splice_same:
  "length zs = length ys \<Longrightarrow> i + length ys \<le> length xs \<Longrightarrow> splice (splice xs i ys) i zs = splice xs i zs"
  by (simp add: splice_def)

lemma nth_splice_0 [simp]: "a + length ys \<le> length xs \<Longrightarrow> 0 < a \<Longrightarrow> splice xs a ys ! 0 = xs ! 0"
  by (cases xs) (auto simp: splice_def nth_append)

lemma splice_append:
  "splice (h @ xs) (length h + i) ys = h @ splice xs i ys"
  by (simp add: splice_def)

lemma checksum_splice:
  assumes "even i" and "i + 2 \<le> length xs" and "length xs \<le> 131070"
  shows "verifies (splice xs i (put_be16 (checksum (splice xs i [0, 0]))))"
proof -
  have "splice xs i [0, 0] = take i xs @ [0, 0] @ drop (i + 2) xs"
    "splice xs i (put_be16 c) = take i xs @ put_be16 c @ drop (i + 2) xs" for c
    by (simp_all add: splice_def)
  then show ?thesis
    using checksum_verifies [of "splice xs i [0, 0]" _ "take i xs" "drop (i + 2) xs"] assms by simp
qed


section \<open>Rewriting in place\<close>

definition pkt_wf :: "byte list \<Rightarrow> ipv4_pkt \<Rightarrow> bool" where
  "pkt_wf buf p \<longleftrightarrow> parseIPv4 buf = Some (Some p) \<and> 20 \<le> ip_ihl p \<and> ip_ihl p \<le> 60 \<and> even (ip_ihl p)
     \<and> ip_ihl p \<le> ip_len p \<and> ip_len p \<le> length buf \<and> ip_len p < 65536"

lemma parseIPv4_eq:
  "parseIPv4 buf =
     (let ihl = unat (buf ! 0 AND 0x0f) * 4; tot = min (unat (be16 (take 2 (drop 2 buf)))) (length buf)
      in if length buf < 20 \<or> drop_bit 4 (buf ! 0) \<noteq> 4 \<or> ihl < 20 \<or> length buf < ihl \<or> tot < ihl then Some None
         else Some (Some \<lparr>ip_proto = buf ! 9, ip_src = be32 (take 4 (drop 12 buf)),
                          ip_dst = be32 (take 4 (drop 16 buf)), ip_ihl = ihl, ip_len = tot\<rparr>))"
  by (simp add: parseIPv4_def Let_def buffer_simps)

lemma parseIPv4_no_panic: "parseIPv4 buf \<noteq> None"
  by (simp add: parseIPv4_eq Let_def)

lemma parseIPv4_wf: "parseIPv4 buf = Some (Some p) \<Longrightarrow> pkt_wf buf p"
  using low_nibble [of "buf ! 0"] unat_u16_less [of "be16 (take 2 (drop 2 buf))"]
  by (auto simp: pkt_wf_def parseIPv4_eq Let_def split: if_splits)

lemma parseIPv4_cases:
  obtains (bad) "parseIPv4 buf = Some None" | (pkt) p where "parseIPv4 buf = Some (Some p)" "pkt_wf buf p"
  using parseIPv4_no_panic [of buf] parseIPv4_wf by (metis option.exhaust)

lemma parseIPv4_cong:
  assumes "length buf' = length buf" "buf' ! 0 = buf ! 0" "take 2 (drop 2 buf') = take 2 (drop 2 buf)" "buf' ! 9 = buf ! 9"
    and "parseIPv4 buf = Some (Some p)"
  shows "parseIPv4 buf' = Some (Some (p\<lparr>ip_src := be32 (take 4 (drop 12 buf')), ip_dst := be32 (take 4 (drop 16 buf'))\<rparr>))"
  using assms by (auto simp: parseIPv4_eq Let_def split: if_splits)

text \<open>A write behind the addresses, or into the checksum field, keeps the parse.\<close>

lemma parseIPv4_splice:
  assumes "pkt_wf buf p" and "i + length ys \<le> length buf" and "20 \<le> i \<or> i = 10 \<and> length ys = 2"
  shows "pkt_wf (splice buf i ys) p"
proof -
  have l: "20 \<le> length buf" and p: "parseIPv4 buf = Some (Some p)" using assms(1) by (auto simp: pkt_wf_def)
  have "parseIPv4 (splice buf i ys) = Some (Some (p\<lparr>ip_src := be32 (take 4 (drop 12 (splice buf i ys))),
      ip_dst := be32 (take 4 (drop 16 (splice buf i ys)))\<rparr>))"
    by (rule parseIPv4_cong [OF _ _ _ _ p]) (use assms l in \<open>auto simp: nth_splice take_drop_splice_disjoint\<close>)
  also have "p\<lparr>ip_src := be32 (take 4 (drop 12 (splice buf i ys))), ip_dst := be32 (take 4 (drop 16 (splice buf i ys)))\<rparr> = p"
    using p assms l by (auto simp: parseIPv4_eq Let_def take_drop_splice_disjoint split: if_splits)
  finally show ?thesis using assms by (simp add: pkt_wf_def)
qed

lemma parseIPv4_setDst:
  assumes "pkt_wf buf p" shows "setDst ip buf = Some (splice buf 16 (put_be32 ip))"
    and "pkt_wf (splice buf 16 (put_be32 ip)) (p\<lparr>ip_dst := ip\<rparr>)"
proof -
  have l: "20 \<le> length buf" and p: "parseIPv4 buf = Some (Some p)" using assms(1) by (auto simp: pkt_wf_def)
  show "setDst ip buf = Some (splice buf 16 (put_be32 ip))" using l by (simp add: setDst_def buffer_simps)
  let ?b = "splice buf 16 (put_be32 ip)"
  have "parseIPv4 ?b = Some (Some (p\<lparr>ip_src := be32 (take 4 (drop 12 ?b)), ip_dst := be32 (take 4 (drop 16 ?b))\<rparr>))"
    by (rule parseIPv4_cong [OF _ _ _ _ p]) (use l in \<open>auto simp: nth_splice take_drop_splice_disjoint\<close>)
  also have "p\<lparr>ip_src := be32 (take 4 (drop 12 ?b)), ip_dst := be32 (take 4 (drop 16 ?b))\<rparr> = p\<lparr>ip_dst := ip\<rparr>"
    using p l by (auto simp: parseIPv4_eq Let_def take_drop_splice_disjoint split: if_splits)
  finally show "pkt_wf ?b (p\<lparr>ip_dst := ip\<rparr>)" using assms l by (simp add: pkt_wf_def)
qed

lemma parseIPv4_setSrc:
  assumes "pkt_wf buf p" shows "setSrc ip buf = Some (splice buf 12 (put_be32 ip))"
    and "pkt_wf (splice buf 12 (put_be32 ip)) (p\<lparr>ip_src := ip\<rparr>)"
proof -
  have l: "20 \<le> length buf" and p: "parseIPv4 buf = Some (Some p)" using assms(1) by (auto simp: pkt_wf_def)
  show "setSrc ip buf = Some (splice buf 12 (put_be32 ip))" using l by (simp add: setSrc_def buffer_simps)
  let ?b = "splice buf 12 (put_be32 ip)"
  have "parseIPv4 ?b = Some (Some (p\<lparr>ip_src := be32 (take 4 (drop 12 ?b)), ip_dst := be32 (take 4 (drop 16 ?b))\<rparr>))"
    by (rule parseIPv4_cong [OF _ _ _ _ p]) (use l in \<open>auto simp: nth_splice take_drop_splice_disjoint\<close>)
  also have "p\<lparr>ip_src := be32 (take 4 (drop 12 ?b)), ip_dst := be32 (take 4 (drop 16 ?b))\<rparr> = p\<lparr>ip_src := ip\<rparr>"
    using p l by (auto simp: parseIPv4_eq Let_def take_drop_splice_disjoint split: if_splits)
  finally show "pkt_wf ?b (p\<lparr>ip_src := ip\<rparr>)" using assms l by (simp add: pkt_wf_def)
qed


text \<open>The two checksum fields, and what a receiver checks.\<close>

definition csum_off :: "ipv4_pkt \<Rightarrow> nat" where
  "csum_off p = ip_ihl p + (if ip_proto p = 6 then 16 else 6)"

definition segment :: "byte list \<Rightarrow> ipv4_pkt \<Rightarrow> byte list" where
  "segment buf p = take (ip_len p - ip_ihl p) (drop (ip_ihl p) buf)"

definition udp_unchecked :: "byte list \<Rightarrow> ipv4_pkt \<Rightarrow> bool" where
  "udp_unchecked buf p \<longleftrightarrow> ip_proto p = 17 \<and> buf ! (ip_ihl p + 6) = 0 \<and> buf ! (ip_ihl p + 7) = 0"

definition checksums_valid :: "byte list \<Rightarrow> ipv4_pkt \<Rightarrow> bool" where
  "checksums_valid buf p \<longleftrightarrow>
     verifies (take (ip_ihl p) buf)
     \<and> (udp_unchecked buf p
        \<or> verifies (pseudo_header p (ip_len p - ip_ihl p) @ segment buf p))"

definition changed_only :: "nat set \<Rightarrow> byte list \<Rightarrow> byte list \<Rightarrow> bool" where
  "changed_only I buf buf' \<longleftrightarrow> length buf' = length buf \<and> (\<forall>i. i < length buf \<longrightarrow> i \<notin> I \<longrightarrow> buf' ! i = buf ! i)"

lemma changed_only_splice:
  "i + length ys \<le> length buf \<Longrightarrow> {i..<i + length ys} \<subseteq> I \<Longrightarrow> changed_only I buf (splice buf i ys)"
  by (auto simp: changed_only_def nth_splice subset_iff)

lemma changed_only_trans:
  "changed_only I a b \<Longrightarrow> changed_only J b c \<Longrightarrow> I \<union> J \<subseteq> K \<Longrightarrow> changed_only K a c"
  unfolding changed_only_def by (metis Un_iff subsetD)

lemma changed_only_refl [simp]: "changed_only I buf buf"
  by (simp add: changed_only_def)

lemma changed_only_take_drop:
  assumes "changed_only I buf buf'" and "i + n \<le> length buf" and "I \<inter> {i..<i + n} = {}"
  shows "take n (drop i buf') = take n (drop i buf)"
proof -
  have "i + k \<notin> I" if "k < n" for k using assms(3) that by (auto simp: disjoint_iff)
  with assms show ?thesis by (auto simp: changed_only_def take_drop_eq_map_nth)
qed

definition header_fixed :: "byte list \<Rightarrow> ipv4_pkt \<Rightarrow> byte list" where
  "header_fixed buf p =
     (let z = splice buf 10 [0, 0] in splice z 10 (put_be16 (checksum (take (ip_ihl p) z))))"

definition transport_fixed :: "byte list \<Rightarrow> ipv4_pkt \<Rightarrow> byte list" where
  "transport_fixed buf p =
     (let z = splice buf (csum_off p) [0, 0]
      in splice z (csum_off p) (put_be16 (checksum (pseudo_header p (ip_len p - ip_ihl p) @ segment z p))))"

lemma header_fixed:
  assumes "pkt_wf buf p"
  shows "pkt_wf (header_fixed buf p) p" "verifies (take (ip_ihl p) (header_fixed buf p))"
    "changed_only {10, 11} buf (header_fixed buf p)"
proof -
  have l: "20 \<le> ip_ihl p" "ip_ihl p \<le> length buf" "ip_ihl p \<le> 60" using assms by (auto simp: pkt_wf_def)
  let ?z = "splice buf 10 [0, 0]"
  have z: "pkt_wf ?z p" by (rule parseIPv4_splice [OF assms]) (use l in simp_all)
  then show "pkt_wf (header_fixed buf p) p"
    unfolding header_fixed_def Let_def by (rule parseIPv4_splice) (use l in simp_all)
  have same: "header_fixed buf p = splice buf 10 (put_be16 (checksum (take (ip_ihl p) ?z)))"
    unfolding header_fixed_def Let_def by (rule splice_splice_same) (use l in simp_all)
  have t: "take (ip_ihl p) (splice buf 10 ys) = splice (take (ip_ihl p) buf) 10 ys" if "length ys = 2" for ys
    using take_drop_splice_inside [of 0 10 ys "ip_ihl p" buf] l that by simp
  show "verifies (take (ip_ihl p) (header_fixed buf p))"
    unfolding same using checksum_splice [of 10 "take (ip_ihl p) buf"] l by (simp add: t)
  show "changed_only {10, 11} buf (header_fixed buf p)"
    unfolding same by (rule changed_only_splice) (use l in auto)
qed

lemma transportOK_ports:
  "has_ports (ip_proto p) \<Longrightarrow> transportOK p \<Longrightarrow> csum_off p + 2 \<le> ip_len p \<and> ip_ihl p + 8 \<le> ip_len p \<and> ip_ihl p + 6 \<le> csum_off p"
  by (auto simp: has_ports_def transportOK_def csum_off_def split: if_splits)

lemma segment_splice:
  assumes "ip_ihl p \<le> i" "i + length ys \<le> ip_len p" "ip_len p \<le> length buf" "ip_ihl p \<le> ip_len p"
  shows "segment (splice buf i ys) p = splice (segment buf p) (i - ip_ihl p) ys"
  unfolding segment_def by (rule take_drop_splice_inside) (use assms in simp_all)

lemma transport_fixed:
  assumes "pkt_wf buf p" and ports: "has_ports (ip_proto p)" "transportOK p"
  shows "pkt_wf (transport_fixed buf p) p"
    "verifies (pseudo_header p (ip_len p - ip_ihl p) @ segment (transport_fixed buf p) p)"
    "changed_only {csum_off p, csum_off p + 1} buf (transport_fixed buf p)"
proof -
  note t = transportOK_ports [OF ports]
  have l: "20 \<le> ip_ihl p" "ip_ihl p \<le> ip_len p" "ip_len p \<le> length buf" "ip_len p < 65536" "even (ip_ihl p)"
    using assms by (auto simp: pkt_wf_def)
  let ?z = "splice buf (csum_off p) [0, 0]" and ?h = "pseudo_header p (ip_len p - ip_ihl p)"
  let ?i = "csum_off p - ip_ihl p"
  have z: "pkt_wf ?z p" by (rule parseIPv4_splice [OF assms(1)]) (use l t in simp_all)
  then show "pkt_wf (transport_fixed buf p) p"
    unfolding transport_fixed_def Let_def by (rule parseIPv4_splice) (use l t in simp_all)
  have same: "transport_fixed buf p = splice buf (csum_off p) (put_be16 (checksum (?h @ segment ?z p)))"
    unfolding transport_fixed_def Let_def by (rule splice_splice_same) (use l t in simp_all)
  have seg: "segment (splice buf (csum_off p) ys) p = splice (segment buf p) ?i ys" if "length ys = 2" for ys
    by (rule segment_splice) (use l t that in simp_all)
  have ls: "length (segment buf p) = ip_len p - ip_ihl p" using l by (simp add: segment_def)
  have hs: "?h @ splice (segment buf p) ?i ys = splice (?h @ segment buf p) (12 + ?i) ys" for ys
    using splice_append [of ?h "segment buf p" ?i ys] by (simp add: pseudo_header_def)
  have "even ?i" using t by (auto simp: csum_off_def)
  then have v: "verifies (splice (?h @ segment buf p) (12 + ?i)
      (put_be16 (checksum (splice (?h @ segment buf p) (12 + ?i) [0, 0]))))"
    by (intro checksum_splice) (use l t ls in \<open>auto simp: pseudo_header_def\<close>)
  have two: "length [0::byte, 0] = 2" by simp
  show "verifies (?h @ segment (transport_fixed buf p) p)"
    unfolding same seg [OF length_put_be16] seg [OF two] hs by (rule v)
  show "changed_only {csum_off p, csum_off p + 1} buf (transport_fixed buf p)"
    unfolding same by (rule changed_only_splice) (use l t in auto)
qed

lemma rewriteChecksums_eq:
  assumes "pkt_wf buf p" and ports: "has_ports (ip_proto p)" "transportOK p"
  shows "rewriteChecksums buf =
     Some (if udp_unchecked buf p then header_fixed buf p else transport_fixed (header_fixed buf p) p)"
proof -
  note t = transportOK_ports [OF ports]
  have l: "20 \<le> ip_ihl p" "ip_ihl p \<le> ip_len p" "ip_len p \<le> length buf" "parseIPv4 buf = Some (Some p)"
    using assms by (auto simp: pkt_wf_def)
  let ?b = "header_fixed buf p"
  have lb: "length ?b = length buf" using header_fixed(3) [OF assms(1)] by (simp add: changed_only_def)
  have bi: "?b ! (ip_ihl p + 6) = buf ! (ip_ihl p + 6)" "?b ! (ip_ihl p + 7) = buf ! (ip_ihl p + 7)"
    using header_fixed(3) [OF assms(1)] l t by (auto simp: changed_only_def)
  have seg: "go_slice c (ip_ihl p) (ip_len p) = Some (segment c p)" if "length c = length buf" for c
    using l that by (simp add: go_slice_def segment_def)
  have ls: "length (segment c p) = ip_len p - ip_ihl p" if "length c = length buf" for c
    using l that by (simp add: segment_def)
  have six: "6 < ip_len p - ip_ihl p" "7 < ip_len p - ip_ihl p" using t by linarith+
  have "segment ?b p ! 6 = buf ! (ip_ihl p + 6)" "segment ?b p ! 7 = buf ! (ip_ihl p + 7)"
    using bi l t lb six by (simp_all add: segment_def)
  then have u: "(ip_proto p = 17 \<and> 8 \<le> ip_len p - ip_ihl p \<and> segment ?b p ! 6 = 0 \<and> segment ?b p ! 7 = 0) = udp_unchecked buf p"
    using ls [OF lb] t by (auto simp: udp_unchecked_def)
  have w: "go_write buf 10 [0, 0] = Some (splice buf 10 [0, 0])"
    "go_slice (splice buf 10 [0, 0]) 0 (ip_ihl p) = Some (take (ip_ihl p) (splice buf 10 [0, 0]))"
    "go_write (splice buf 10 [0, 0]) 10 (put_be16 c) = Some (splice (splice buf 10 [0, 0]) 10 (put_be16 c))" for c
    using l by (simp_all add: buffer_simps)
  have hd: "splice (splice buf 10 [0, 0]) 10 (put_be16 (checksum (take (ip_ihl p) (splice buf 10 [0, 0])))) = ?b"
    by (simp add: header_fixed_def Let_def)
  have off: "ip_ihl p + (if ip_proto p = 6 then 16 else 6) = csum_off p" by (simp add: csum_off_def)
  have short: "(ip_len p - ip_ihl p < (if ip_proto p = 6 then 16 else 6) + 2) = False"
    using t by (auto simp: csum_off_def)
  show ?thesis
    using ports(1) l(4) t lb l
    by (simp only: rewriteChecksums_def w seg [OF lb] hd Option.bind.simps option.case u Let_def ls [OF lb] short off simp_thms if_True if_False)
      (simp add: transport_fixed_def Let_def buffer_simps segment_def)
qed

lemma rewriteChecksums_valid:
  assumes "pkt_wf buf p" and ports: "has_ports (ip_proto p)" "transportOK p"
  obtains buf' where "rewriteChecksums buf = Some buf'" "pkt_wf buf' p" "checksums_valid buf' p"
    "changed_only {10, 11, csum_off p, csum_off p + 1} buf buf'"
proof -
  note t = transportOK_ports [OF ports]
  have l: "20 \<le> ip_ihl p" "ip_ihl p \<le> ip_len p" "ip_len p \<le> length buf" using assms by (auto simp: pkt_wf_def)
  note h = header_fixed [OF assms(1)]
  note tr = transport_fixed [OF h(1) ports]
  have tk: "take (ip_ihl p) (transport_fixed (header_fixed buf p) p) = take (ip_ihl p) (header_fixed buf p)"
    using changed_only_take_drop [OF tr(3), of 0 "ip_ihl p"] h(3) l t by (auto simp: changed_only_def)
  have un: "udp_unchecked (header_fixed buf p) p = udp_unchecked buf p"
    using h(3) l t by (auto simp: udp_unchecked_def changed_only_def)
  show ?thesis
  proof (cases "udp_unchecked buf p")
    case True
    show ?thesis
      by (rule that [of "header_fixed buf p"])
        (use True h un in \<open>auto simp: rewriteChecksums_eq [OF assms] checksums_valid_def changed_only_def\<close>)
  next
    case False
    show ?thesis
    proof (rule that [of "transport_fixed (header_fixed buf p) p"])
      show "changed_only {10, 11, csum_off p, csum_off p + 1} buf (transport_fixed (header_fixed buf p) p)"
        by (rule changed_only_trans [OF h(3) tr(3)]) auto
      show "checksums_valid (transport_fixed (header_fixed buf p) p) p"
        unfolding checksums_valid_def tk using h(2) tr(2) by simp
    qed (use False tr in \<open>simp_all add: rewriteChecksums_eq [OF assms]\<close>)
  qed
qed


section \<open>Address translation\<close>

definition src_port :: "byte list \<Rightarrow> ipv4_pkt \<Rightarrow> u16" where
  "src_port buf p = be16 (take 2 (drop (ip_ihl p) buf))"

definition dst_port :: "byte list \<Rightarrow> ipv4_pkt \<Rightarrow> u16" where
  "dst_port buf p = be16 (take 2 (drop (ip_ihl p + 2) buf))"

text \<open>The rule a packet is forwarded by, and the virtual port an answer comes back from.\<close>

definition dnat_rule :: "nat_state \<Rightarrow> byte list \<Rightarrow> ipv4_pkt \<Rightarrow> rule option" where
  "dnat_rule n buf p =
     (if has_ports (ip_proto p) \<and> transportOK p \<and> ip_dst p = n_self n then n_rules n (dst_port buf p) else None)"

definition dnat_match :: "nat_state \<Rightarrow> byte list \<Rightarrow> (ipv4_pkt \<times> rule) option" where
  "dnat_match n buf =
     (case parseIPv4 buf of Some (Some p) \<Rightarrow> map_option (Pair p) (dnat_rule n buf p) | _ \<Rightarrow> None)"

definition flow_of :: "byte list \<Rightarrow> ipv4_pkt \<Rightarrow> flow_key" where
  "flow_of buf p = \<lparr>fk_proto = ip_proto p, fk_src_ip = ip_src p, fk_src_port = src_port buf p,
     fk_dst_ip = ip_dst p, fk_dst_port = dst_port buf p\<rparr>"

definition snat_port :: "nat_state \<Rightarrow> byte list \<Rightarrow> ipv4_pkt \<Rightarrow> u16 option" where
  "snat_port n buf p =
     (if has_ports (ip_proto p) \<and> transportOK p then n_rev n (flow_of buf p) else None)"

lemma ports_read:
  assumes "pkt_wf buf p" "has_ports (ip_proto p)" "transportOK p"
  shows "srcPort buf p = Some (src_port buf p)" "dstPort buf p = Some (dst_port buf p)"
  using transportOK_ports [OF assms(2,3)] assms
  by (auto simp: srcPort_def dstPort_def src_port_def dst_port_def pkt_wf_def buffer_simps)

lemma ports_no_panic:
  assumes "pkt_wf buf p" shows "\<exists>a. srcPort buf p = Some a" "\<exists>a. dstPort buf p = Some a"
  using assms by (auto simp: srcPort_def dstPort_def pkt_wf_def buffer_simps)

text \<open>What a rewritten packet has to look like: the new endpoints, the rest of the bytes kept,
  valid checksums.\<close>

definition retargeted :: "byte list \<Rightarrow> ipv4_pkt \<Rightarrow> u32 \<Rightarrow> u16 \<Rightarrow> byte list \<Rightarrow> bool" where
  "retargeted buf p ip port buf' \<longleftrightarrow>
     (let p' = p\<lparr>ip_dst := ip\<rparr>
      in pkt_wf buf' p' \<and> dst_port buf' p' = port \<and> checksums_valid buf' p'
         \<and> changed_only ({10, 11} \<union> {16..<20} \<union> {ip_ihl p + 2, ip_ihl p + 3} \<union> {csum_off p, csum_off p + 1}) buf buf')"

definition resourced :: "byte list \<Rightarrow> ipv4_pkt \<Rightarrow> u32 \<Rightarrow> u16 \<Rightarrow> byte list \<Rightarrow> bool" where
  "resourced buf p ip port buf' \<longleftrightarrow>
     (let p' = p\<lparr>ip_src := ip\<rparr>
      in pkt_wf buf' p' \<and> src_port buf' p' = port \<and> checksums_valid buf' p'
         \<and> changed_only ({10, 11} \<union> {12..<16} \<union> {ip_ihl p, ip_ihl p + 1} \<union> {csum_off p, csum_off p + 1}) buf buf')"

lemma retarget:
  assumes "pkt_wf buf p" and ports: "has_ports (ip_proto p)" "transportOK p"
  obtains b1 b2 b3 where "setDst ip buf = Some b1" "setDstPort p port b1 = Some b2" "rewriteChecksums b2 = Some b3"
    "retargeted buf p ip port b3"
proof -
  note t = transportOK_ports [OF ports]
  have l: "20 \<le> ip_ihl p" "ip_ihl p \<le> ip_len p" "ip_len p \<le> length buf" using assms by (auto simp: pkt_wf_def)
  let ?p = "p\<lparr>ip_dst := ip\<rparr>" and ?b1 = "splice buf 16 (put_be32 ip)"
  let ?b2 = "splice ?b1 (ip_ihl p + 2) (put_be16 port)"
  note s = parseIPv4_setDst [OF assms(1)]
  have l1: "length ?b1 = length buf" using l by simp
  have w: "setDstPort p port ?b1 = Some ?b2"
    using l t ports l1 by (auto simp: setDstPort_def buffer_simps)
  have b2: "pkt_wf ?b2 ?p" by (rule parseIPv4_splice [OF s(2)]) (use l t l1 in simp_all)
  have off: "csum_off ?p = csum_off p" by (simp add: csum_off_def)
  obtain b3 where b3: "rewriteChecksums ?b2 = Some b3" "pkt_wf b3 ?p" "checksums_valid b3 ?p"
      "changed_only {10, 11, csum_off ?p, csum_off ?p + 1} ?b2 b3"
    by (rule rewriteChecksums_valid [OF b2]) (use ports in \<open>simp_all add: transportOK_def\<close>)
  have port: "dst_port b3 ?p = port"
  proof -
    have "take 2 (drop (ip_ihl p + 2) b3) = take 2 (drop (ip_ihl p + 2) ?b2)"
      by (rule changed_only_take_drop [OF b3(4)]) (use l t l1 off in auto)
    with l t l1 show ?thesis by (simp add: dst_port_def)
  qed
  have c1: "changed_only {16..<20} buf ?b1" by (rule changed_only_splice) (use l in auto)
  have c2: "changed_only {ip_ihl p + 2, ip_ihl p + 3} ?b1 ?b2" by (rule changed_only_splice) (use l t l1 in auto)
  have "changed_only ({10, 11} \<union> {16..<20} \<union> {ip_ihl p + 2, ip_ihl p + 3} \<union> {csum_off p, csum_off p + 1}) buf b3"
    by (rule changed_only_trans [OF changed_only_trans [OF c1 c2 order_refl] b3(4)]) (use off in auto)
  with b3 port have "retargeted buf p ip port b3" by (simp add: retargeted_def)
  with s(1) w b3(1) show ?thesis by (rule that)
qed

lemma resource:
  assumes "pkt_wf buf p" and ports: "has_ports (ip_proto p)" "transportOK p"
  obtains b1 b2 b3 where "setSrc ip buf = Some b1" "setSrcPort p port b1 = Some b2" "rewriteChecksums b2 = Some b3"
    "resourced buf p ip port b3"
proof -
  note t = transportOK_ports [OF ports]
  have l: "20 \<le> ip_ihl p" "ip_ihl p \<le> ip_len p" "ip_len p \<le> length buf" using assms by (auto simp: pkt_wf_def)
  let ?p = "p\<lparr>ip_src := ip\<rparr>" and ?b1 = "splice buf 12 (put_be32 ip)"
  let ?b2 = "splice ?b1 (ip_ihl p) (put_be16 port)"
  note s = parseIPv4_setSrc [OF assms(1)]
  have l1: "length ?b1 = length buf" using l by simp
  have w: "setSrcPort p port ?b1 = Some ?b2"
    using l t ports l1 by (auto simp: setSrcPort_def buffer_simps)
  have b2: "pkt_wf ?b2 ?p" by (rule parseIPv4_splice [OF s(2)]) (use l t l1 in simp_all)
  have off: "csum_off ?p = csum_off p" by (simp add: csum_off_def)
  obtain b3 where b3: "rewriteChecksums ?b2 = Some b3" "pkt_wf b3 ?p" "checksums_valid b3 ?p"
      "changed_only {10, 11, csum_off ?p, csum_off ?p + 1} ?b2 b3"
    by (rule rewriteChecksums_valid [OF b2]) (use ports in \<open>simp_all add: transportOK_def\<close>)
  have port: "src_port b3 ?p = port"
  proof -
    have "take 2 (drop (ip_ihl p) b3) = take 2 (drop (ip_ihl p) ?b2)"
      by (rule changed_only_take_drop [OF b3(4)]) (use l t l1 off in auto)
    with l t l1 show ?thesis by (simp add: src_port_def)
  qed
  have c1: "changed_only {12..<16} buf ?b1" by (rule changed_only_splice) (use l in auto)
  have c2: "changed_only {ip_ihl p, ip_ihl p + 1} ?b1 ?b2" by (rule changed_only_splice) (use l t l1 in auto)
  have "changed_only ({10, 11} \<union> {12..<16} \<union> {ip_ihl p, ip_ihl p + 1} \<union> {csum_off p, csum_off p + 1}) buf b3"
    by (rule changed_only_trans [OF changed_only_trans [OF c1 c2 order_refl] b3(4)]) (use off in auto)
  with b3 port have "resourced buf p ip port b3" by (simp add: resourced_def)
  with s(1) w b3(1) show ?thesis by (rule that)
qed

lemma DNAT_miss:
  assumes "pkt_wf buf p" "dnat_rule n buf p = None"
  shows "DNAT n buf now = Some (False, n, buf)"
proof -
  obtain v where "dstPort buf p = Some v" using ports_no_panic [OF assms(1)] by blast
  moreover have "dstPort buf p = Some (dst_port buf p)" if "has_ports (ip_proto p)" "transportOK p"
    using ports_read [OF assms(1) that] by simp
  moreover have "parseIPv4 buf = Some (Some p)" using assms by (simp add: pkt_wf_def)
  ultimately show ?thesis
    using assms(2) by (auto simp: DNAT_def dnat_rule_def split: option.splits if_splits)
qed

lemma DNAT_hit:
  assumes "pkt_wf buf p" "dnat_rule n buf p = Some r"
  obtains buf' where "retargeted buf p (r_target_ip r) (r_target_port r) buf'"
    "DNAT n buf now = Some (True, track (ip_proto p) r (ip_src p) (src_port buf p) (dst_port buf p) now n, buf')"
proof -
  have ports: "has_ports (ip_proto p)" "transportOK p" and d: "ip_dst p = n_self n" "n_rules n (dst_port buf p) = Some r"
    using assms(2) by (auto simp: dnat_rule_def split: if_splits)
  obtain b1 b2 b3 where b: "setDst (r_target_ip r) buf = Some b1" "setDstPort p (r_target_port r) b1 = Some b2"
      "rewriteChecksums b2 = Some b3" "retargeted buf p (r_target_ip r) (r_target_port r) b3"
    by (rule retarget [OF assms(1) ports])
  show ?thesis
    by (rule that [OF b(4)])
      (use assms(1) ports d b ports_read [OF assms(1) ports] in \<open>simp add: DNAT_def pkt_wf_def Let_def\<close>)
qed

lemma DNAT_not_ip: "parseIPv4 buf = Some None \<Longrightarrow> DNAT n buf now = Some (False, n, buf)"
  by (simp add: DNAT_def)

lemma SNAT_miss:
  assumes "pkt_wf buf p" "snat_port n buf p = None"
  shows "SNAT n buf now = Some (False, n, buf)"
proof -
  obtain u v where "srcPort buf p = Some u" "dstPort buf p = Some v" using ports_no_panic [OF assms(1)] by blast
  moreover have "srcPort buf p = Some (src_port buf p)" "dstPort buf p = Some (dst_port buf p)"
    if "has_ports (ip_proto p)" "transportOK p"
    using ports_read [OF assms(1) that] by simp_all
  moreover have "parseIPv4 buf = Some (Some p)" using assms by (simp add: pkt_wf_def)
  ultimately show ?thesis
    using assms(2) by (auto simp: SNAT_def snat_port_def flow_of_def Let_def split: option.splits if_splits)
qed

lemma SNAT_hit:
  assumes "pkt_wf buf p" "snat_port n buf p = Some v"
  obtains buf' where "resourced buf p (n_self n) v buf'"
    "SNAT n buf now = Some (True, n\<lparr>n_rev_seen := (n_rev_seen n)(flow_of buf p \<mapsto> now)\<rparr>, buf')"
proof -
  have ports: "has_ports (ip_proto p)" "transportOK p" and d: "n_rev n (flow_of buf p) = Some v"
    using assms(2) by (auto simp: snat_port_def split: if_splits)
  obtain b1 b2 b3 where b: "setSrc (n_self n) buf = Some b1" "setSrcPort p v b1 = Some b2"
      "rewriteChecksums b2 = Some b3" "resourced buf p (n_self n) v b3"
    by (rule resource [OF assms(1) ports])
  show ?thesis
    by (rule that [OF b(4)])
      (use assms(1) ports d b ports_read [OF assms(1) ports] in \<open>simp add: SNAT_def pkt_wf_def Let_def flow_of_def\<close>)
qed

lemma SNAT_not_ip: "parseIPv4 buf = Some None \<Longrightarrow> SNAT n buf now = Some (False, n, buf)"
  by (simp add: SNAT_def)

section \<open>Properties\<close>

text \<open>C17: the client translates exactly the complete TCP and UDP packets to its own address
  whose port has a rule. Whatever the bytes, \<^verbatim>\<open>DNAT\<close> does not panic; a packet without a rule
  is left alone, tables included; a translated packet goes to the rule's target, differs from
  the original only in the destination, the destination port and the checksums, has valid
  checksums, and leaves an entry under which its answer is found.\<close>

theorem dnat_correct:
  "case DNAT n buf now of
     None \<Rightarrow> False
   | Some (False, n', buf') \<Rightarrow>
       n' = n \<and> buf' = buf \<and> dnat_match n buf = None
   | Some (True, n', buf') \<Rightarrow>
       \<exists>p r. dnat_match n buf = Some (p, r)
         \<and> retargeted buf p (r_target_ip r) (r_target_port r) buf'
         \<and> n_rules n' = n_rules n \<and> n_self n' = n_self n
         \<and> n_rev n' (response_key (ip_proto p) r (ip_src p) (src_port buf p)) = Some (dst_port buf p)"
proof (cases buf rule: parseIPv4_cases)
  case bad
  then show ?thesis by (simp add: DNAT_not_ip dnat_match_def)
next
  case (pkt p)
  show ?thesis
  proof (cases "dnat_rule n buf p")
    case None
    then show ?thesis using DNAT_miss [OF pkt(2)] pkt(1) by (simp add: dnat_match_def)
  next
    case (Some r)
    show ?thesis by (rule DNAT_hit [OF pkt(2) Some, of now]) (use Some pkt(1) in \<open>auto simp: track_def Let_def dnat_match_def\<close>)
  qed
qed

text \<open>C18: answers come back. After a request from a client was translated by a rule, the packet
  the rule's target sends to that client's port is given the client's own view of the peer: it
  leaves with the virtual address and the virtual port as its source, with valid checksums and
  all other bytes kept. Replacing the rules does not break the flow, and neither does a round
  of the cleaner within two minutes of the request.\<close>

theorem snat_answers_dnat:
  assumes "parseIPv4 req = Some (Some p)" and "DNAT n req now = Some (True, n1, req')"
    and "dnat_rule n req p = Some r"
    and "parseIPv4 ans = Some (Some q)" and "transportOK q"
    and "flow_of ans q = response_key (ip_proto p) r (ip_src p) (src_port req p)"
    and "t - now \<le> flow_idle"
  shows "\<exists>n2 ans'. SNAT (clean t (SetRules rules n1)) ans later = Some (True, n2, ans')
      \<and> resourced ans q (ip_dst p) (dst_port req p) ans'"
proof -
  have wf: "pkt_wf req p" "pkt_wf ans q" using assms parseIPv4_wf by auto
  have d: "has_ports (ip_proto p)" "ip_dst p = n_self n" using assms(3) by (auto simp: dnat_rule_def split: if_splits)
  have n1: "n1 = track (ip_proto p) r (ip_src p) (src_port req p) (dst_port req p) now n"
    by (rule DNAT_hit [OF wf(1) assms(3), of now]) (use assms(2) in simp)
  have q: "ip_proto q = ip_proto p" using assms(6) by (simp add: flow_of_def response_key_def)
  let ?n = "clean t (SetRules rules n1)"
  have "snat_port ?n ans q = Some (dst_port req p)"
    using assms(5-7) d q by (simp add: snat_port_def SetRules_def clean_def n1 track_def Let_def)
  then obtain ans' where "resourced ans q (n_self ?n) (dst_port req p) ans'"
      "SNAT ?n ans later = Some (True, ?n\<lparr>n_rev_seen := (n_rev_seen ?n)(flow_of ans q \<mapsto> later)\<rparr>, ans')"
    by (rule SNAT_hit [OF wf(2)])
  moreover have "n_self ?n = ip_dst p" using d by (simp add: SetRules_def clean_def n1 track_def Let_def)
  ultimately show ?thesis by auto
qed

text \<open>A request from 10.0.0.2:5000 to 10.0.0.1:8080, forwarded to 192.168.1.5:80, and its answer.\<close>

definition demo_request :: "byte list" where
  "demo_request = [0x45, 0, 0, 28, 0, 0, 0, 0, 64, 17, 0, 0, 10, 0, 0, 2, 10, 0, 0, 1,
     0x13, 0x88, 0x1F, 0x90, 0, 8, 0x12, 0x34]"

definition demo_answer :: "byte list" where
  "demo_answer = [0x45, 0, 0, 28, 0, 0, 0, 0, 64, 17, 0, 0, 192, 168, 1, 5, 10, 0, 0, 2,
     0, 80, 0x13, 0x88, 0, 8, 0, 0]"

definition demo_rule :: "u16 \<Rightarrow> rule" where
  "demo_rule port = \<lparr>r_vport = port, r_target_ip = 0xC0A80105, r_target_port = 80\<rparr>"

definition demo_pkt :: "u32 \<Rightarrow> u32 \<Rightarrow> ipv4_pkt" where
  "demo_pkt src dst = \<lparr>ip_proto = 17, ip_src = src, ip_dst = dst, ip_ihl = 20, ip_len = 28\<rparr>"

lemma demo_parse:
  "parseIPv4 demo_request = Some (Some (demo_pkt 0x0A000002 0x0A000001))"
  "parseIPv4 demo_answer = Some (Some (demo_pkt 0xC0A80105 0x0A000002))"
  by code_simp+

lemma demo_ports:
  "src_port demo_request (demo_pkt a b) = 5000" "dst_port demo_request (demo_pkt a b) = 8080"
  "src_port demo_answer (demo_pkt a b) = 80" "dst_port demo_answer (demo_pkt a b) = 5000"
  by (simp_all add: src_port_def dst_port_def demo_pkt_def demo_request_def demo_answer_def be16_def)

lemma ip_dst_demo: "ip_dst (demo_pkt a b) = b"
  by (simp add: demo_pkt_def)

abbreviation demo_nat :: nat_state where
  "demo_nat \<equiv> NewNat 0x0A000001 [demo_rule 8080]"

lemma demo_hit: "dnat_rule demo_nat demo_request (demo_pkt 0x0A000002 0x0A000001) = Some (demo_rule 8080)"
  by (simp add: dnat_rule_def demo_ports NewNat_def rule_table_def demo_rule_def)
    (simp add: demo_pkt_def has_ports_def transportOK_def)

theorem snat_answers_dnat_witness:
  "\<exists>n1 req' n2 ans'. DNAT demo_nat demo_request 0 = Some (True, n1, req')
     \<and> SNAT (clean Second (SetRules [] n1)) demo_answer 9 = Some (True, n2, ans')
     \<and> resourced demo_answer (demo_pkt 0xC0A80105 0x0A000002) 0x0A000001 8080 ans'"
proof -
  obtain n1 req' where d: "DNAT demo_nat demo_request 0 = Some (True, n1, req')"
    using DNAT_hit [OF parseIPv4_wf [OF demo_parse(1)] demo_hit] by metis
  have "\<exists>n2 ans'. SNAT (clean Second (SetRules [] n1)) demo_answer 9 = Some (True, n2, ans')
      \<and> resourced demo_answer (demo_pkt 0xC0A80105 0x0A000002) (ip_dst (demo_pkt 0x0A000002 0x0A000001))
          (dst_port demo_request (demo_pkt 0x0A000002 0x0A000001)) ans'"
    by (rule snat_answers_dnat [OF demo_parse(1) d demo_hit demo_parse(2)])
      (simp_all add: flow_of_def response_key_def demo_ports demo_rule_def,
       simp_all add: demo_pkt_def transportOK_def flow_idle_def Second_def)
  then show ?thesis using d by (simp only: demo_ports ip_dst_demo) blast
qed

text \<open>Two virtual ports with one target share the key of the answers: a second request of the
  same client port makes the answers of the first come from the second virtual port.\<close>

lemma response_keys_collide:
  "response_key proto (demo_rule 8080) src sport = response_key proto (demo_rule 8081) src sport"
  by (simp add: response_key_def demo_rule_def)

lemma answers_take_the_last_virtual_port:
  assumes "parseIPv4 ans = Some (Some q)" and "transportOK q" "has_ports (ip_proto q)"
    and "flow_of ans q = response_key proto (demo_rule 8080) src sport"
  shows "snat_port (track proto (demo_rule 8081) src sport 8081 now' (track proto (demo_rule 8080) src sport 8080 now n)) ans q
     = Some 8081"
  using assms response_keys_collide by (simp add: snat_port_def track_def Let_def)

section \<open>The tables over time\<close>

text \<open>What happens to a tracker between its creation and its closing.\<close>

inductive nat_run :: "u32 \<Rightarrow> nat_state \<Rightarrow> bool" for self where
  start: "nat_run self (NewNat self rules)"
| request: "nat_run self n \<Longrightarrow> DNAT n buf now = Some (hit, n', buf') \<Longrightarrow> nat_run self n'"
| answer: "nat_run self n \<Longrightarrow> SNAT n buf now = Some (hit, n', buf') \<Longrightarrow> nat_run self n'"
| replace: "nat_run self n \<Longrightarrow> nat_run self (SetRules rules n)"
| tick: "nat_run self n \<Longrightarrow> nat_run self (clean now n)"

definition nat_coherent :: "nat_state \<Rightarrow> bool" where
  "nat_coherent n \<longleftrightarrow> dom (n_rev n) = dom (n_rev_seen n)
     \<and> (\<forall>k. k \<in> dom (n_fwd n) \<longrightarrow> fk_dst_ip k = n_self n \<and> has_ports (fk_proto k))"

lemma coherent_track:
  "nat_coherent n \<Longrightarrow> has_ports proto \<Longrightarrow> nat_coherent (track proto r src sport vport now n)"
  by (auto simp: nat_coherent_def track_def Let_def request_key_def split: if_splits)

lemma n_self_track: "n_self (track proto r src sport vport now n) = n_self n"
  by (simp add: track_def Let_def)

lemma DNAT_coherent:
  assumes "nat_coherent n" "DNAT n buf now = Some (hit, n', buf')"
  shows "nat_coherent n' \<and> n_self n' = n_self n"
proof (cases buf rule: parseIPv4_cases)
  case bad
  then show ?thesis using assms by (simp add: DNAT_not_ip)
next
  case (pkt p)
  show ?thesis
  proof (cases "dnat_rule n buf p")
    case None
    then show ?thesis using assms DNAT_miss [OF pkt(2)] by simp
  next
    case (Some r)
    then have ports: "has_ports (ip_proto p)" by (auto simp: dnat_rule_def split: if_splits)
    have "n' = track (ip_proto p) r (ip_src p) (src_port buf p) (dst_port buf p) now n"
      by (rule DNAT_hit [OF pkt(2) Some, of now]) (use assms(2) in simp)
    then show ?thesis using coherent_track [OF assms(1) ports] by (simp add: n_self_track)
  qed
qed

lemma SNAT_coherent:
  assumes "nat_coherent n" "SNAT n buf now = Some (hit, n', buf')"
  shows "nat_coherent n' \<and> n_self n' = n_self n"
proof (cases buf rule: parseIPv4_cases)
  case bad
  then show ?thesis using assms by (simp add: SNAT_not_ip)
next
  case (pkt p)
  show ?thesis
  proof (cases "snat_port n buf p")
    case None
    then show ?thesis using assms SNAT_miss [OF pkt(2)] by simp
  next
    case (Some v)
    then have "flow_of buf p \<in> dom (n_rev n)" by (auto simp: snat_port_def split: if_splits)
    moreover have "n' = n\<lparr>n_rev_seen := (n_rev_seen n)(flow_of buf p \<mapsto> now)\<rparr>"
      by (rule SNAT_hit [OF pkt(2) Some, of now]) (use assms(2) in simp)
    ultimately show ?thesis using assms(1) by (simp add: nat_coherent_def insert_absorb)
  qed
qed

lemma clean_coherent: "nat_coherent n \<Longrightarrow> nat_coherent (clean now n)"
  by (auto simp: nat_coherent_def clean_def Let_def dom_def set_eq_iff split: option.splits if_splits)

lemma nat_run_coherent: "nat_run self n \<Longrightarrow> nat_coherent n \<and> n_self n = self"
proof (induction rule: nat_run.induct)
  case (start rules)
  then show ?case by (simp add: nat_coherent_def NewNat_def)
next
  case (replace n rules)
  then show ?case by (simp add: nat_coherent_def SetRules_def)
next
  case (tick n now)
  then show ?case using clean_coherent by (simp add: clean_def Let_def)
qed (use DNAT_coherent SNAT_coherent in blast)+

text \<open>The tracking tables do not leak. In every state a tracker can reach, each entry of
  the answer table has its time stamp, each entry of the request table belongs to the client's
  own address, and the cleaner removes exactly the entries that saw no packet for more than two
  minutes: what remains is younger, and what is younger remains.\<close>

theorem nat_tables_do_not_leak:
  assumes "nat_run self n"
  shows "\<forall>k. (n_rev n k \<noteq> None \<longleftrightarrow> n_rev_seen n k \<noteq> None)
      \<and> (n_rev (clean now n) k \<noteq> None \<longleftrightarrow> (\<exists>seen. n_rev_seen n k = Some seen \<and> now - seen \<le> flow_idle))
      \<and> (n_fwd (clean now n) k \<noteq> None \<longleftrightarrow> (\<exists>f. n_fwd n k = Some f \<and> now - fe_last_seen f \<le> flow_idle))
      \<and> (n_fwd n k \<noteq> None \<longrightarrow> fk_dst_ip k = self)"
proof -
  have c: "dom (n_rev n) = dom (n_rev_seen n)" "\<forall>k. k \<in> dom (n_fwd n) \<longrightarrow> fk_dst_ip k = self"
    using nat_run_coherent [OF assms] by (auto simp: nat_coherent_def)
  have "n_rev n k \<noteq> None \<longleftrightarrow> n_rev_seen n k \<noteq> None" for k using c(1) by (auto simp: set_eq_iff)
  with c(2) show ?thesis by (auto simp: clean_def Let_def split: option.splits if_splits)
qed

theorem nat_tables_do_not_leak_witness:
  "\<forall>k. (n_rev demo_nat k \<noteq> None \<longleftrightarrow> n_rev_seen demo_nat k \<noteq> None)
      \<and> (n_rev (clean 5 demo_nat) k \<noteq> None \<longleftrightarrow> (\<exists>seen. n_rev_seen demo_nat k = Some seen \<and> 5 - seen \<le> flow_idle))
      \<and> (n_fwd (clean 5 demo_nat) k \<noteq> None \<longleftrightarrow> (\<exists>f. n_fwd demo_nat k = Some f \<and> 5 - fe_last_seen f \<le> flow_idle))
      \<and> (n_fwd demo_nat k \<noteq> None \<longrightarrow> fk_dst_ip k = 0x0A000001)"
  by (rule nat_tables_do_not_leak [OF nat_run.start])

end
