(* ===== verification/Protocol_Json.thy ===== *)
theory Protocol_Json
  imports Protocol
begin

text \<open>
  The JSON form of the signalling messages (the struct tags of
  \<^verbatim>\<open>internal/protocol/msg.go\<close> as \<^verbatim>\<open>encoding/json\<close> reads them) and the frames of
  \<^verbatim>\<open>WriteMsg\<close> and \<^verbatim>\<open>ReadMsg\<close>. A message with well-formed text is read back
  exactly, alone or in a stream of messages.
\<close>

section \<open>Decoding into Go values\<close>

text \<open>
  Each decoder gets the value the target holds already: \<^verbatim>\<open>null\<close> leaves a string or a
  number as it is and makes a slice or a map empty.
\<close>

definition js_str :: "json \<Rightarrow> string \<Rightarrow> string option" where
  "js_str j old = (case j of JStr s \<Rightarrow> Some s | JNull \<Rightarrow> Some old | _ \<Rightarrow> None)"

definition js_uint :: "json \<Rightarrow> 'a::len word \<Rightarrow> 'a word option" where
  "js_uint j old =
     (case j of
        JNum t \<Rightarrow> (case parse_dec t of
                    None \<Rightarrow> None
                  | Some n \<Rightarrow> if n < 2 ^ LENGTH('a) then Some (of_nat n) else None)
      | JNull \<Rightarrow> Some old
      | _ \<Rightarrow> None)"

definition js_int :: "json \<Rightarrow> int \<Rightarrow> int option" where
  "js_int j old = (case j of JNum t \<Rightarrow> Atoi t | JNull \<Rightarrow> Some old | _ \<Rightarrow> None)"

definition js_slice :: "(json \<Rightarrow> 'a option) \<Rightarrow> json \<Rightarrow> 'a list option" where
  "js_slice f j = (case j of JArr js \<Rightarrow> traverse f js | JNull \<Rightarrow> Some [] | _ \<Rightarrow> None)"

definition js_bytes :: "json \<Rightarrow> byte list option" where
  "js_bytes j =
     (case j of
        JStr s \<Rightarrow> b64_decode s
      | _ \<Rightarrow> js_slice (\<lambda>e. js_uint e (0 :: byte)) j)"

fun js_map_entries :: "(string \<times> json) list \<Rightarrow> (string \<times> string) list \<Rightarrow> (string \<times> string) list option" where
  "js_map_entries [] m = Some m"
| "js_map_entries ((k, j) # kvs) m =
     (case js_str j [] of None \<Rightarrow> None | Some v \<Rightarrow> js_map_entries kvs (map_put k v m))"

definition js_map :: "json \<Rightarrow> (string \<times> string) list \<Rightarrow> (string \<times> string) list option" where
  "js_map j old =
     (case j of JObj kvs \<Rightarrow> js_map_entries kvs old | JNull \<Rightarrow> Some [] | _ \<Rightarrow> None)"

text \<open>
  Struct fields: a key selects the field whose tag it equals, else one it equals up to case
  (with the two code points that fold into ASCII letters); other keys are ignored.
\<close>

fun fold_name :: "string \<Rightarrow> string" where
  "fold_name [] = []"
| "fold_name (c # s) =
     (if starts_with (c # s) [CHR 0xC5, CHR 0xBF] then CHR ''s'' # fold_name (drop 1 s)
      else if starts_with (c # s) [CHR 0xE2, CHR 0x84, CHR 0xAA] then CHR ''k'' # fold_name (drop 2 s)
      else lower_char c # fold_name s)"

definition find_field :: "(string \<times> 'f) list \<Rightarrow> string \<Rightarrow> 'f option" where
  "find_field tags k =
     (case map_of tags k of
        Some f \<Rightarrow> Some f
      | None \<Rightarrow> map_option snd (List.find (\<lambda>(t, _). fold_name t = fold_name k) tags))"

lemma find_field_exact [simp]: "map_of tags k = Some f \<Longrightarrow> find_field tags k = Some f"
  by (simp add: find_field_def)

fun js_members :: "(string \<times> 'f) list \<Rightarrow> ('f \<Rightarrow> json \<Rightarrow> 'a \<Rightarrow> 'a option) \<Rightarrow> (string \<times> json) list
    \<Rightarrow> 'a \<Rightarrow> 'a option" where
  "js_members tags set_f [] x = Some x"
| "js_members tags set_f ((k, j) # kvs) x =
     (case find_field tags k of
        None \<Rightarrow> js_members tags set_f kvs x
      | Some f \<Rightarrow>
          (case set_f f j x of None \<Rightarrow> None | Some y \<Rightarrow> js_members tags set_f kvs y))"

definition js_struct :: "(string \<times> 'f) list \<Rightarrow> ('f \<Rightarrow> json \<Rightarrow> 'a \<Rightarrow> 'a option) \<Rightarrow> 'a \<Rightarrow> json \<Rightarrow> 'a option" where
  "js_struct tags set_f x j =
     (case j of JObj kvs \<Rightarrow> js_members tags set_f kvs x | JNull \<Rightarrow> Some x | _ \<Rightarrow> None)"

section \<open>Encoding Go values\<close>

definition to_js_uint :: "'a::len word \<Rightarrow> json" where
  "to_js_uint v = JNum (dec (unat v))"

definition to_js_int :: "int \<Rightarrow> json" where
  "to_js_int i = JNum (fmt_int i)"

definition to_js_bytes :: "byte list \<Rightarrow> json" where
  "to_js_bytes bs = JStr (b64_encode bs)"

definition to_js_map :: "(string \<times> string) list \<Rightarrow> json" where
  "to_js_map m = JObj (map (\<lambda>(k, v). (k, JStr v)) m)"

text \<open>A field with \<^verbatim>\<open>omitempty\<close> is left out when it has its zero value.\<close>

definition omitempty :: "'v \<Rightarrow> string \<Rightarrow> ('v \<Rightarrow> json) \<Rightarrow> 'v \<Rightarrow> (string \<times> json) list" where
  "omitempty zero tag f v = (if v = zero then [] else [(tag, f v)])"

lemma js_str_JStr [simp]: "js_str (JStr s) old = Some s"
  by (simp add: js_str_def)

lemma js_uint_to [simp]: "js_uint (to_js_uint (v :: 'a::len word)) old = Some v"
  using unsigned_less [of v] by (simp add: js_uint_def to_js_uint_def)

lemma Atoi_fmt_int:
  assumes "- 9223372036854775808 \<le> i" and "i \<le> 9223372036854775807"
  shows "Atoi (fmt_int i) = Some i"
proof (cases "i < 0")
  case True
  then show ?thesis using assms by (simp add: fmt_int_def Atoi_def)
next
  case False
  then have "nat i \<le> 9223372036854775807" using assms by (simp add: nat_le_iff)
  then show ?thesis using False Atoi_dec by (simp add: fmt_int_def)
qed

definition int64_ok :: "int \<Rightarrow> bool" where
  "int64_ok i \<longleftrightarrow> - 9223372036854775808 \<le> i \<and> i \<le> 9223372036854775807"

lemma js_int_to [simp]: "int64_ok i \<Longrightarrow> js_int (to_js_int i) old = Some i"
  by (simp add: js_int_def to_js_int_def Atoi_fmt_int int64_ok_def)

lemma js_bytes_to [simp]: "js_bytes (to_js_bytes bs) = Some bs"
  using base64.dec_enc by (simp add: js_bytes_def to_js_bytes_def)

lemma js_slice_map:
  "(\<And>x. x \<in> set xs \<Longrightarrow> f (g x) = Some x) \<Longrightarrow> js_slice f (JArr (map g xs)) = Some xs"
  by (simp add: js_slice_def traverse_map_Some)

lemma js_map_entries_to:
  "ascending (m0 @ m) \<Longrightarrow> js_map_entries (map (\<lambda>(k, v). (k, JStr v)) m) m0 = Some (m0 @ m)"
proof (induction m arbitrary: m0)
  case (Cons e m)
  obtain k v where e: "e = (k, v)" by fastforce
  have "\<forall>k' \<in> fst ` set m0. k' < k"
    using Cons.prems e by (auto simp: ascending_def sorted_wrt_append)
  then have "map_put k v m0 = m0 @ [(k, v)]" by (rule map_put_last)
  then show ?case using Cons.IH [of "m0 @ [e]"] Cons.prems e by simp
qed simp

lemma js_map_to [simp]: "ascending m \<Longrightarrow> js_map (to_js_map m) [] = Some m"
  using js_map_entries_to [of "[]" m] by (simp add: js_map_def to_js_map_def)

text \<open>The step of a struct round trip: reading one field that may have been left out.\<close>

lemma js_members_omitempty:
  assumes "map_of tags tag = Some f"
    and "set_f f (enc v) x = Some (upd v x)"
    and "upd zero x = x"
  shows "js_members tags set_f (omitempty zero tag enc v @ kvs) x = js_members tags set_f kvs (upd v x)"
  using assms by (simp add: omitempty_def)

section \<open>Messages\<close>

datatype field =
    FType | FName | FHwid | FNonce | FAuth | FDeviceId | FBlob | FNetworkKey | FVip
  | FLeaseUntil | FPeer | FAddrs | FErr | FPeers | FCfg | FRules | FProxySession
  | FProxyProto | FProxyVPort

definition message_tags :: "(string \<times> field) list" where
  "message_tags =
     [(''t'', FType), (''name'', FName), (''hwid'', FHwid), (''nonce'', FNonce), (''auth'', FAuth),
      (''deviceId'', FDeviceId), (''blob'', FBlob), (''networkKey'', FNetworkKey), (''vip'', FVip),
      (''leaseUntil'', FLeaseUntil), (''peer'', FPeer), (''addrs'', FAddrs), (''err'', FErr),
      (''peers'', FPeers), (''cfg'', FCfg), (''rules'', FRules), (''proxySession'', FProxySession),
      (''proxyProto'', FProxyProto), (''proxyVPort'', FProxyVPort)]"

datatype addr_field = FIp | FPort

fun set_addr :: "addr_field \<Rightarrow> json \<Rightarrow> addr \<Rightarrow> addr option" where
  "set_addr FIp j a = map_option (\<lambda>v. a\<lparr>a_ip := v\<rparr>) (js_str j (a_ip a))"
| "set_addr FPort j a = map_option (\<lambda>v. a\<lparr>a_port := v\<rparr>) (js_int j (a_port a))"

definition js_addr :: "json \<Rightarrow> addr option" where
  "js_addr = js_struct [(''ip'', FIp), (''port'', FPort)] set_addr \<lparr>a_ip = [], a_port = 0\<rparr>"

definition to_js_addr :: "addr \<Rightarrow> json" where
  "to_js_addr a = JObj [(''ip'', JStr (a_ip a)), (''port'', to_js_int (a_port a))]"

datatype peer_field = FPeerName | FPeerVip

fun set_peer :: "peer_field \<Rightarrow> json \<Rightarrow> peer \<Rightarrow> peer option" where
  "set_peer FPeerName j p = map_option (\<lambda>v. p\<lparr>p_name := v\<rparr>) (js_str j (p_name p))"
| "set_peer FPeerVip j p = map_option (\<lambda>v. p\<lparr>p_vip := v\<rparr>) (js_uint j (p_vip p))"

definition js_peer :: "json \<Rightarrow> peer option" where
  "js_peer = js_struct [(''name'', FPeerName), (''vip'', FPeerVip)] set_peer \<lparr>p_name = [], p_vip = 0\<rparr>"

definition to_js_peer :: "peer \<Rightarrow> json" where
  "to_js_peer p = JObj [(''name'', JStr (p_name p)), (''vip'', to_js_uint (p_vip p))]"

fun set_field :: "field \<Rightarrow> json \<Rightarrow> message \<Rightarrow> message option" where
  "set_field FType j m = map_option (\<lambda>v. m\<lparr>m_type := v\<rparr>) (js_uint j (m_type m))"
| "set_field FName j m = map_option (\<lambda>v. m\<lparr>m_device_name := v\<rparr>) (js_str j (m_device_name m))"
| "set_field FHwid j m = map_option (\<lambda>v. m\<lparr>m_hwid := v\<rparr>) (js_str j (m_hwid m))"
| "set_field FNonce j m = map_option (\<lambda>v. m\<lparr>m_nonce := v\<rparr>) (js_bytes j)"
| "set_field FAuth j m = map_option (\<lambda>v. m\<lparr>m_auth := v\<rparr>) (js_bytes j)"
| "set_field FDeviceId j m = map_option (\<lambda>v. m\<lparr>m_device_id := v\<rparr>) (js_str j (m_device_id m))"
| "set_field FBlob j m = map_option (\<lambda>v. m\<lparr>m_blob := v\<rparr>) (js_bytes j)"
| "set_field FNetworkKey j m = map_option (\<lambda>v. m\<lparr>m_network_key := v\<rparr>) (js_bytes j)"
| "set_field FVip j m = map_option (\<lambda>v. m\<lparr>m_vip := v\<rparr>) (js_uint j (m_vip m))"
| "set_field FLeaseUntil j m = map_option (\<lambda>v. m\<lparr>m_lease_until := v\<rparr>) (js_int j (m_lease_until m))"
| "set_field FPeer j m = map_option (\<lambda>v. m\<lparr>m_peer_vip := v\<rparr>) (js_uint j (m_peer_vip m))"
| "set_field FAddrs j m = map_option (\<lambda>v. m\<lparr>m_addrs := v\<rparr>) (js_slice js_addr j)"
| "set_field FErr j m = map_option (\<lambda>v. m\<lparr>m_error := v\<rparr>) (js_str j (m_error m))"
| "set_field FPeers j m = map_option (\<lambda>v. m\<lparr>m_peers := v\<rparr>) (js_slice js_peer j)"
| "set_field FCfg j m = map_option (\<lambda>v. m\<lparr>m_config := v\<rparr>) (js_map j (m_config m))"
| "set_field FRules j m = map_option (\<lambda>v. m\<lparr>m_rules := v\<rparr>) (js_slice (\<lambda>e. js_str e []) j)"
| "set_field FProxySession j m =
     map_option (\<lambda>v. m\<lparr>m_proxy_session := v\<rparr>) (js_uint j (m_proxy_session m))"
| "set_field FProxyProto j m =
     map_option (\<lambda>v. m\<lparr>m_proxy_proto := v\<rparr>) (js_str j (m_proxy_proto m))"
| "set_field FProxyVPort j m =
     map_option (\<lambda>v. m\<lparr>m_proxy_vport := v\<rparr>) (js_uint j (m_proxy_vport m))"

definition to_json :: "message \<Rightarrow> json" where
  "to_json m = JObj
     ((''t'', to_js_uint (m_type m))
      # omitempty [] ''name'' JStr (m_device_name m)
      @ omitempty [] ''hwid'' JStr (m_hwid m)
      @ omitempty [] ''nonce'' to_js_bytes (m_nonce m)
      @ omitempty [] ''auth'' to_js_bytes (m_auth m)
      @ omitempty [] ''deviceId'' JStr (m_device_id m)
      @ omitempty [] ''blob'' to_js_bytes (m_blob m)
      @ omitempty [] ''networkKey'' to_js_bytes (m_network_key m)
      @ omitempty 0 ''vip'' to_js_uint (m_vip m)
      @ omitempty 0 ''leaseUntil'' to_js_int (m_lease_until m)
      @ omitempty 0 ''peer'' to_js_uint (m_peer_vip m)
      @ omitempty [] ''addrs'' (\<lambda>xs. JArr (map to_js_addr xs)) (m_addrs m)
      @ omitempty [] ''err'' JStr (m_error m)
      @ omitempty [] ''peers'' (\<lambda>xs. JArr (map to_js_peer xs)) (m_peers m)
      @ omitempty [] ''cfg'' to_js_map (m_config m)
      @ omitempty [] ''rules'' (\<lambda>xs. JArr (map JStr xs)) (m_rules m)
      @ omitempty 0 ''proxySession'' to_js_uint (m_proxy_session m)
      @ omitempty [] ''proxyProto'' JStr (m_proxy_proto m)
      @ omitempty 0 ''proxyVPort'' to_js_uint (m_proxy_vport m))"

definition of_json :: "json \<Rightarrow> message option" where
  "of_json = js_struct message_tags set_field (msg_of 0)"


text \<open>
  What the two ends agree on: text is valid UTF-8 (Go replaces ill-formed bytes), the settings
  are a canonical map, and the integers fit their Go type.
\<close>

definition addr_ok :: "addr \<Rightarrow> bool" where
  "addr_ok a \<longleftrightarrow> valid_utf8 (a_ip a) \<and> int64_ok (a_port a)"

definition message_ok :: "message \<Rightarrow> bool" where
  "message_ok m \<longleftrightarrow>
     valid_utf8 (m_device_name m) \<and> valid_utf8 (m_hwid m) \<and> valid_utf8 (m_device_id m)
     \<and> valid_utf8 (m_error m) \<and> valid_utf8 (m_proxy_proto m) \<and> int64_ok (m_lease_until m)
     \<and> list_all addr_ok (m_addrs m) \<and> list_all (\<lambda>p. valid_utf8 (p_name p)) (m_peers m)
     \<and> list_all valid_utf8 (m_rules m) \<and> ascending (m_config m)
     \<and> list_all (\<lambda>(k, v). valid_utf8 k \<and> valid_utf8 v) (m_config m)"

lemma js_addr_to: "addr_ok a \<Longrightarrow> js_addr (to_js_addr a) = Some a"
  by (simp add: js_addr_def to_js_addr_def js_struct_def addr_ok_def)

lemma js_peer_to [simp]: "js_peer (to_js_peer p) = Some p"
  by (simp add: js_peer_def to_js_peer_def js_struct_def)

lemma js_addrs_to [simp]:
  "list_all addr_ok xs \<Longrightarrow> js_slice js_addr (JArr (map to_js_addr xs)) = Some xs"
  by (rule js_slice_map) (auto simp: list_all_iff js_addr_to)

lemma js_peers_to [simp]: "js_slice js_peer (JArr (map to_js_peer xs)) = Some xs"
  by (rule js_slice_map) simp

lemma js_strs_to [simp]: "js_slice (\<lambda>e. js_str e []) (JArr (map JStr xs)) = Some xs"
  by (rule js_slice_map) simp

text \<open>One rule per field: reading it sets the field, also when it was left out.\<close>

abbreviation read_members :: "(string \<times> json) list \<Rightarrow> message \<Rightarrow> message option" where
  "read_members \<equiv> js_members message_tags set_field"

lemma read_type: "read_members ((''t'', to_js_uint v) # kvs) m = read_members kvs (m\<lparr>m_type := v\<rparr>)"
  by (simp add: find_field_def message_tags_def)

lemma read_fields:
  "m_device_name m = [] \<Longrightarrow> read_members (omitempty [] ''name'' JStr v_name @ kvs) m = read_members kvs (m\<lparr>m_device_name := v_name\<rparr>)"
  "m_hwid m = [] \<Longrightarrow> read_members (omitempty [] ''hwid'' JStr v_hwid @ kvs) m = read_members kvs (m\<lparr>m_hwid := v_hwid\<rparr>)"
  "m_nonce m = [] \<Longrightarrow> read_members (omitempty [] ''nonce'' to_js_bytes v_nonce @ kvs) m = read_members kvs (m\<lparr>m_nonce := v_nonce\<rparr>)"
  "m_auth m = [] \<Longrightarrow> read_members (omitempty [] ''auth'' to_js_bytes v_auth @ kvs) m = read_members kvs (m\<lparr>m_auth := v_auth\<rparr>)"
  "m_device_id m = [] \<Longrightarrow> read_members (omitempty [] ''deviceId'' JStr v_deviceId @ kvs) m = read_members kvs (m\<lparr>m_device_id := v_deviceId\<rparr>)"
  "m_blob m = [] \<Longrightarrow> read_members (omitempty [] ''blob'' to_js_bytes v_blob @ kvs) m = read_members kvs (m\<lparr>m_blob := v_blob\<rparr>)"
  "m_network_key m = [] \<Longrightarrow> read_members (omitempty [] ''networkKey'' to_js_bytes v_networkKey @ kvs) m = read_members kvs (m\<lparr>m_network_key := v_networkKey\<rparr>)"
  "m_vip m = 0 \<Longrightarrow> read_members (omitempty 0 ''vip'' to_js_uint v_vip @ kvs) m = read_members kvs (m\<lparr>m_vip := v_vip\<rparr>)"
  "m_peer_vip m = 0 \<Longrightarrow> read_members (omitempty 0 ''peer'' to_js_uint v_peer @ kvs) m = read_members kvs (m\<lparr>m_peer_vip := v_peer\<rparr>)"
  "m_error m = [] \<Longrightarrow> read_members (omitempty [] ''err'' JStr v_err @ kvs) m = read_members kvs (m\<lparr>m_error := v_err\<rparr>)"
  "m_peers m = [] \<Longrightarrow> read_members (omitempty [] ''peers'' (\<lambda>xs. JArr (map to_js_peer xs)) v_peers @ kvs) m = read_members kvs (m\<lparr>m_peers := v_peers\<rparr>)"
  "m_rules m = [] \<Longrightarrow> read_members (omitempty [] ''rules'' (\<lambda>xs. JArr (map JStr xs)) v_rules @ kvs) m = read_members kvs (m\<lparr>m_rules := v_rules\<rparr>)"
  "m_proxy_session m = 0 \<Longrightarrow> read_members (omitempty 0 ''proxySession'' to_js_uint v_proxySession @ kvs) m = read_members kvs (m\<lparr>m_proxy_session := v_proxySession\<rparr>)"
  "m_proxy_proto m = [] \<Longrightarrow> read_members (omitempty [] ''proxyProto'' JStr v_proxyProto @ kvs) m = read_members kvs (m\<lparr>m_proxy_proto := v_proxyProto\<rparr>)"
  "m_proxy_vport m = 0 \<Longrightarrow> read_members (omitempty 0 ''proxyVPort'' to_js_uint v_proxyVPort @ kvs) m = read_members kvs (m\<lparr>m_proxy_vport := v_proxyVPort\<rparr>)"
  by (cases m; simp add: omitempty_def find_field_def message_tags_def)+

lemma read_lease:
  "int64_ok v \<Longrightarrow> m_lease_until m = 0 \<Longrightarrow>
   read_members (omitempty 0 ''leaseUntil'' to_js_int v @ kvs) m = read_members kvs (m\<lparr>m_lease_until := v\<rparr>)"
  by (cases m; simp add: omitempty_def find_field_def message_tags_def)

lemma read_addrs:
  "list_all addr_ok v \<Longrightarrow> m_addrs m = [] \<Longrightarrow>
   read_members (omitempty [] ''addrs'' (\<lambda>xs. JArr (map to_js_addr xs)) v @ kvs) m
   = read_members kvs (m\<lparr>m_addrs := v\<rparr>)"
  by (cases m; simp add: omitempty_def find_field_def message_tags_def)

lemma read_config:
  "ascending v \<Longrightarrow> m_config m = [] \<Longrightarrow>
   read_members (omitempty [] ''cfg'' to_js_map v @ kvs) m = read_members kvs (m\<lparr>m_config := v\<rparr>)"
  by (cases m; simp add: omitempty_def find_field_def message_tags_def)

lemmas read_rules = read_type read_fields read_lease read_addrs read_config

theorem of_json_to_json: "message_ok m \<Longrightarrow> of_json (to_json m) = Some m"
  unfolding of_json_def to_json_def js_struct_def json.case
  using read_fields(15) [where kvs = "[]"]
  by (simp add: read_rules message_ok_def msg_of_def del: js_members.simps(2))

lemma json_ok_fields [simp]:
  "json_ok (to_js_int i)" "json_ok (to_js_bytes bs)"
  by (auto simp: to_js_int_def to_js_bytes_def)

lemma json_ok_uint [simp]: "json_ok (to_js_uint v)"
  unfolding to_js_uint_def json_ok.simps
  by (rule exI [of _ "int (unat v)"]) (simp add: fmt_int_def del: of_nat_unat)

lemma json_ok_map [simp]:
  "list_all (\<lambda>(k, v). valid_utf8 k \<and> valid_utf8 v) m \<Longrightarrow> json_ok (to_js_map m)"
  by (auto simp: to_js_map_def list_all_iff)

lemma tag_ok: "list_all (\<lambda>c. byte_in c 0 0x7F) tag \<Longrightarrow> valid_utf8 tag"
  by (rule valid_utf8_ascii)

lemma json_ok_addr [simp]: "addr_ok a \<Longrightarrow> json_ok (to_js_addr a)"
  by (simp add: to_js_addr_def addr_ok_def tag_ok byte_in_def)

lemma json_ok_peer [simp]: "valid_utf8 (p_name p) \<Longrightarrow> json_ok (to_js_peer p)"
  by (simp add: to_js_peer_def tag_ok byte_in_def)

definition member_ok :: "string \<times> json \<Rightarrow> bool" where
  "member_ok e \<longleftrightarrow> valid_utf8 (fst e) \<and> json_ok (snd e)"

lemma json_ok_members: "json_ok (JObj kvs) \<longleftrightarrow> list_all member_ok kvs"
  by (auto simp: member_ok_def list_all_iff)

lemma members_ok [simp]:
  "list_all (\<lambda>c. byte_in c 0 0x7F) tag \<Longrightarrow> json_ok (f v) \<Longrightarrow> list_all member_ok (omitempty z tag f v)"
  by (simp add: omitempty_def tag_ok member_ok_def)

lemma json_ok_to_json:
  assumes "message_ok m" shows "json_ok (to_json m)"
proof -
  have "json_ok (JArr (map to_js_addr (m_addrs m)))" "json_ok (JArr (map to_js_peer (m_peers m)))"
    "json_ok (JArr (map JStr (m_rules m)))"
    using assms by (auto simp: message_ok_def list_all_iff)
  moreover have "member_ok (''t'', to_js_uint (m_type m))"
    by (simp add: member_ok_def tag_ok byte_in_def)
  ultimately show ?thesis
    using assms unfolding to_json_def json_ok_members
    by (simp add: byte_in_def message_ok_def del: json_ok.simps(5))
qed

section \<open>Frames\<close>

text \<open>\<^verbatim>\<open>json.Marshal\<close> and \<^verbatim>\<open>json.Unmarshal\<close> of a message, on bytes.\<close>

definition marshal :: "message \<Rightarrow> byte list" where
  "marshal m = str_bytes (print_json (to_json m))"

definition unmarshal :: "byte list \<Rightarrow> message option" where
  "unmarshal bs = Option.bind (parse_json (bytes_str bs)) of_json"

lemma unmarshal_marshal: "message_ok m \<Longrightarrow> unmarshal (marshal m) = Some m"
  by (simp add: unmarshal_def marshal_def parse_json_print json_ok_to_json of_json_to_json)

interpretation envelope: codec marshal unmarshal message_ok
  by unfold_locales (rule unmarshal_marshal)

definition WriteMsg :: "message \<Rightarrow> byte list" where
  "WriteMsg m = (let data = marshal m in put_be32 (of_nat (length data)) @ data)"

datatype read_error = ReadEOF | MsgTooLarge u32 | BadMessage

definition ReadMsg :: "byte list \<Rightarrow> read_error + message \<times> byte list" where
  "ReadMsg r =
     (if length r < 4 then Inl ReadEOF
      else let n = be32 (take 4 r)
           in if n > 2 ^ 20 then Inl (MsgTooLarge n)
              else if length (drop 4 r) < unat n then Inl ReadEOF
              else (case unmarshal (take (unat n) (drop 4 r)) of
                      None \<Rightarrow> Inl BadMessage
                    | Some m \<Rightarrow> Inr (m, drop (unat n) (drop 4 r))))"

definition read_msg :: "byte list \<Rightarrow> (message \<times> byte list) option" where
  "read_msg r = (case ReadMsg r of Inl _ \<Rightarrow> None | Inr x \<Rightarrow> Some x)"

definition frame_ok :: "message \<Rightarrow> bool" where
  "frame_ok m \<longleftrightarrow> message_ok m \<and> length (marshal m) \<le> 2 ^ 20"

lemma unat_of_length: "n \<le> 2 ^ 20 \<Longrightarrow> unat (of_nat n :: u32) = n"
  by (simp add: unat_of_nat take_bit_nat_eq_self)

lemma ReadMsg_WriteMsg:
  assumes "frame_ok m" shows "ReadMsg (WriteMsg m @ rest) = Inr (m, rest)"
proof -
  let ?n = "of_nat (length (marshal m)) :: u32"
  have len: "unat ?n = length (marshal m)" and small: "length (marshal m) \<le> 2 ^ 20"
    using assms unat_of_length by (auto simp: frame_ok_def)
  then have "\<not> ?n > 2 ^ 20" by (simp add: word_less_nat_alt)
  then show ?thesis
    using assms len by (simp add: ReadMsg_def WriteMsg_def frame_ok_def unmarshal_marshal Let_def)
qed

interpretation frames: stream_codec WriteMsg read_msg frame_ok
  by unfold_locales (simp add: read_msg_def ReadMsg_WriteMsg)


section \<open>Properties\<close>

text \<open>C3: Messages written one after the other with \<^verbatim>\<open>WriteMsg\<close> are read back by
  \<^verbatim>\<open>ReadMsg\<close> in the same order and with every field unchanged, whatever follows on the
  connection, as long as their text is valid UTF-8 and each fits the reader's limit of 1 MB.\<close>

theorem signalling_stream_round_trip:
  "list_all frame_ok ms \<Longrightarrow>
   read_items read_msg (length ms) (concat (map WriteMsg ms) @ rest) = Some (ms, rest)"
  by (rule frames.read_items_puts)

definition example_messages :: "message list" where
  "example_messages =
     [(msg_of MsgHello)\<lparr>m_device_name := ''pc'', m_auth := [1, 2, 3], m_device_id := ''AB''\<rparr>,
      (msg_of MsgWelcome)\<lparr>m_vip := 5, m_lease_until := 7\<rparr>]"

lemma example_messages_ok: "list_all frame_ok example_messages"
proof -
  have "valid_utf8 ''pc''" and "valid_utf8 ''AB''" by (rule tag_ok, simp add: byte_in_def)+
  moreover have "map (\<lambda>m. length (marshal m)) example_messages = [49, 30]" by code_simp
  ultimately show ?thesis
    by (simp add: example_messages_def frame_ok_def message_ok_def msg_of_def int64_ok_def)
qed

theorem signalling_stream_round_trip_witness:
  "read_items read_msg (length example_messages) (concat (map WriteMsg example_messages) @ [7])
   = Some (example_messages, [7])"
  by (rule signalling_stream_round_trip [OF example_messages_ok])

text \<open>A frame whose length prefix exceeds 1 MB is refused before its body is read, and
  \<^verbatim>\<open>WriteMsg\<close> itself enforces no such limit: a message whose JSON text is longer than
  1 MB (and shorter than 4 GB) is written without error and can never be read back.\<close>

theorem oversized_message_unreadable:
  assumes "2 ^ 20 < length (marshal m)" and "length (marshal m) < 2 ^ 32"
  shows "ReadMsg (WriteMsg m @ rest) = Inl (MsgTooLarge (of_nat (length (marshal m))))"
proof -
  have "unat (of_nat (length (marshal m)) :: u32) = length (marshal m)"
    using assms(2) by (simp add: unat_of_nat take_bit_nat_eq_self)
  then have "(2 ^ 20 :: u32) < of_nat (length (marshal m))"
    using assms(1) by (simp add: word_less_nat_alt)
  then show ?thesis by (simp add: ReadMsg_def WriteMsg_def Let_def)
qed


lemma escape_string_letters: "escape_string (replicate n CHR ''a'') = replicate n CHR ''a''"
proof (induction n)
  case (Suc n)
  have "rune_len (CHR ''a'' # s) = 1" for s by (simp add: rune_len_def byte_in_def)
  then show ?case using Suc
    by (subst escape_string.simps) (simp add: escape_rune_def byte_in_def)
qed (simp add: escape_string.simps)

lemma length_marshal_hwid:
  "0 < n \<Longrightarrow> length (marshal ((msg_of MsgHello)\<lparr>m_hwid := replicate n CHR ''a''\<rparr>)) = n + 17"
proof -
  have "escape_string ''t'' = ''t''" and "escape_string ''hwid'' = ''hwid''" by code_simp+
  moreover assume "0 < n"
  ultimately show ?thesis
    by (simp add: marshal_def to_json_def msg_of_def omitempty_def quote_def to_js_uint_def
        MsgHello_def dec_small escape_string_letters)
qed

theorem oversized_message_unreadable_witness:
  "ReadMsg (WriteMsg ((msg_of MsgHello)\<lparr>m_hwid := replicate (2 ^ 20) CHR ''a''\<rparr>) @ [])
   = Inl (MsgTooLarge (of_nat (2 ^ 20 + 17)))"
  using oversized_message_unreadable [of "(msg_of MsgHello)\<lparr>m_hwid := replicate (2 ^ 20) CHR ''a''\<rparr>" "[]"]
    length_marshal_hwid [of "2 ^ 20"] by simp

end
