(* ===== verification/Go_Crypto.thy ===== *)
theory Go_Crypto
  imports Prelude
begin

text \<open>
  The primitives of \<^verbatim>\<open>crypto/sha256\<close>, \<^verbatim>\<open>crypto/hmac\<close>, \<^verbatim>\<open>crypto/aes\<close> and
  \<^verbatim>\<open>crypto/cipher\<close> the code uses: HMAC-SHA256 and AES-256-GCM with 12-byte nonces and
  16-byte tags (FIPS 180-4, RFC 2104, FIPS 197, SP 800-38D). The locale \<open>aead\<close> is the
  contract the packet and credential formats rely on; AES-GCM is shown to satisfy it.
  Nothing is claimed of the security of the primitives.
\<close>

section \<open>SHA-256 and HMAC\<close>

definition sha_K :: "u32 list" where
  "sha_K =
     [1116352408, 1899447441, 3049323471, 3921009573, 961987163, 1508970993,
      2453635748, 2870763221, 3624381080, 310598401, 607225278, 1426881987,
      1925078388, 2162078206, 2614888103, 3248222580, 3835390401, 4022224774,
      264347078, 604807628, 770255983, 1249150122, 1555081692, 1996064986,
      2554220882, 2821834349, 2952996808, 3210313671, 3336571891, 3584528711,
      113926993, 338241895, 666307205, 773529912, 1294757372, 1396182291,
      1695183700, 1986661051, 2177026350, 2456956037, 2730485921, 2820302411,
      3259730800, 3345764771, 3516065817, 3600352804, 4094571909, 275423344,
      430227734, 506948616, 659060556, 883997877, 958139571, 1322822218,
      1537002063, 1747873779, 1955562222, 2024104815, 2227730452, 2361852424,
      2428436474, 2756734187, 3204031479, 3329325298]"

definition sha_H0 :: "u32 list" where
  "sha_H0 =
     [1779033703, 3144134277, 1013904242, 2773480762,
      1359893119, 2600822924, 528734635, 1541459225]"

definition rotr :: "nat \<Rightarrow> u32 \<Rightarrow> u32" where
  "rotr n x = drop_bit n x OR push_bit (32 - n) x"

definition sha_sigma0 :: "u32 \<Rightarrow> u32" where
  "sha_sigma0 x = rotr 7 x XOR rotr 18 x XOR drop_bit 3 x"

definition sha_sigma1 :: "u32 \<Rightarrow> u32" where
  "sha_sigma1 x = rotr 17 x XOR rotr 19 x XOR drop_bit 10 x"

text \<open>The message schedule, newest word first.\<close>

fun sha_extend :: "nat \<Rightarrow> u32 list \<Rightarrow> u32 list" where
  "sha_extend 0 ws = ws"
| "sha_extend (Suc n) ws =
     sha_extend n ((sha_sigma1 (ws ! 1) + ws ! 6 + sha_sigma0 (ws ! 14) + ws ! 15) # ws)"

fun sha_round :: "u32 list \<Rightarrow> u32 \<times> u32 \<Rightarrow> u32 list" where
  "sha_round [a, b, c, d, e, f, g, h] (k, w) =
     (let s1 = rotr 6 e XOR rotr 11 e XOR rotr 25 e;
          ch = (e AND f) XOR (NOT e AND g);
          t1 = h + s1 + ch + k + w;
          s0 = rotr 2 a XOR rotr 13 a XOR rotr 22 a;
          mj = (a AND b) XOR (a AND c) XOR (b AND c)
      in [t1 + (s0 + mj), a, b, c, d + t1, e, f, g])"
| "sha_round st _ = st"

fun be32_words :: "byte list \<Rightarrow> u32 list" where
  "be32_words (a # b # c # d # bs) = be32 [a, b, c, d] # be32_words bs"
| "be32_words _ = []"

definition sha_compress :: "u32 list \<Rightarrow> byte list \<Rightarrow> u32 list" where
  "sha_compress st block =
     map2 (+) st (foldl sha_round st (zip sha_K (rev (sha_extend 48 (rev (be32_words block))))))"

fun chunks_of :: "nat \<Rightarrow> nat \<Rightarrow> 'a list \<Rightarrow> 'a list list" where
  "chunks_of k 0 xs = []"
| "chunks_of k (Suc n) xs = take k xs # chunks_of k n (drop k xs)"

definition put_be64 :: "nat \<Rightarrow> byte list" where
  "put_be64 n = put_be32 (of_nat (n div 2 ^ 32)) @ put_be32 (of_nat n)"

definition sha_pad :: "byte list \<Rightarrow> byte list" where
  "sha_pad m = m @ [0x80] @ replicate ((119 - length m mod 64) mod 64) 0 @ put_be64 (8 * length m)"

definition sha256 :: "byte list \<Rightarrow> byte list" where
  "sha256 m =
     (let p = sha_pad m
      in concat (map put_be32 (foldl sha_compress sha_H0 (chunks_of 64 (length p div 64) p))))"

definition hmac_sha256 :: "byte list \<Rightarrow> byte list \<Rightarrow> byte list" where
  "hmac_sha256 key msg =
     (let k0 = (if length key > 64 then sha256 key else key);
          k = k0 @ replicate (64 - length k0) 0
      in sha256 (map ((XOR) 0x5c) k @ sha256 (map ((XOR) 0x36) k @ msg)))"

lemma length_sha_round [simp]: "length st = 8 \<Longrightarrow> length (sha_round st kw) = 8"
  by (induction st kw rule: sha_round.induct) (simp_all add: Let_def)

lemma length_foldl_sha_round: "length st = 8 \<Longrightarrow> length (foldl sha_round st kws) = 8"
  by (induction kws arbitrary: st) simp_all

lemma length_foldl_sha_compress: "length st = 8 \<Longrightarrow> length (foldl sha_compress st bs) = 8"
  by (induction bs arbitrary: st) (simp_all add: sha_compress_def length_foldl_sha_round)

lemma length_concat_put_be32: "length (concat (map put_be32 ws)) = 4 * length ws"
  by (induction ws) simp_all

lemma length_sha256 [simp]: "length (sha256 m) = 32"
  by (simp add: sha256_def length_concat_put_be32 length_foldl_sha_compress sha_H0_def Let_def)

lemma length_hmac_sha256 [simp]: "length (hmac_sha256 k m) = 32"
  by (simp add: hmac_sha256_def Let_def)

lemma hmac_sha256_nonempty [simp]: "hmac_sha256 k m \<noteq> []" "[] \<noteq> hmac_sha256 k m"
  using length_hmac_sha256 [of k m] by fastforce+

section \<open>AES-256\<close>

definition aes_sbox :: "byte list" where
  "aes_sbox =
     [0x63, 0x7c, 0x77, 0x7b, 0xf2, 0x6b, 0x6f, 0xc5, 0x30, 0x01, 0x67, 0x2b,
      0xfe, 0xd7, 0xab, 0x76, 0xca, 0x82, 0xc9, 0x7d, 0xfa, 0x59, 0x47, 0xf0,
      0xad, 0xd4, 0xa2, 0xaf, 0x9c, 0xa4, 0x72, 0xc0, 0xb7, 0xfd, 0x93, 0x26,
      0x36, 0x3f, 0xf7, 0xcc, 0x34, 0xa5, 0xe5, 0xf1, 0x71, 0xd8, 0x31, 0x15,
      0x04, 0xc7, 0x23, 0xc3, 0x18, 0x96, 0x05, 0x9a, 0x07, 0x12, 0x80, 0xe2,
      0xeb, 0x27, 0xb2, 0x75, 0x09, 0x83, 0x2c, 0x1a, 0x1b, 0x6e, 0x5a, 0xa0,
      0x52, 0x3b, 0xd6, 0xb3, 0x29, 0xe3, 0x2f, 0x84, 0x53, 0xd1, 0x00, 0xed,
      0x20, 0xfc, 0xb1, 0x5b, 0x6a, 0xcb, 0xbe, 0x39, 0x4a, 0x4c, 0x58, 0xcf,
      0xd0, 0xef, 0xaa, 0xfb, 0x43, 0x4d, 0x33, 0x85, 0x45, 0xf9, 0x02, 0x7f,
      0x50, 0x3c, 0x9f, 0xa8, 0x51, 0xa3, 0x40, 0x8f, 0x92, 0x9d, 0x38, 0xf5,
      0xbc, 0xb6, 0xda, 0x21, 0x10, 0xff, 0xf3, 0xd2, 0xcd, 0x0c, 0x13, 0xec,
      0x5f, 0x97, 0x44, 0x17, 0xc4, 0xa7, 0x7e, 0x3d, 0x64, 0x5d, 0x19, 0x73,
      0x60, 0x81, 0x4f, 0xdc, 0x22, 0x2a, 0x90, 0x88, 0x46, 0xee, 0xb8, 0x14,
      0xde, 0x5e, 0x0b, 0xdb, 0xe0, 0x32, 0x3a, 0x0a, 0x49, 0x06, 0x24, 0x5c,
      0xc2, 0xd3, 0xac, 0x62, 0x91, 0x95, 0xe4, 0x79, 0xe7, 0xc8, 0x37, 0x6d,
      0x8d, 0xd5, 0x4e, 0xa9, 0x6c, 0x56, 0xf4, 0xea, 0x65, 0x7a, 0xae, 0x08,
      0xba, 0x78, 0x25, 0x2e, 0x1c, 0xa6, 0xb4, 0xc6, 0xe8, 0xdd, 0x74, 0x1f,
      0x4b, 0xbd, 0x8b, 0x8a, 0x70, 0x3e, 0xb5, 0x66, 0x48, 0x03, 0xf6, 0x0e,
      0x61, 0x35, 0x57, 0xb9, 0x86, 0xc1, 0x1d, 0x9e, 0xe1, 0xf8, 0x98, 0x11,
      0x69, 0xd9, 0x8e, 0x94, 0x9b, 0x1e, 0x87, 0xe9, 0xce, 0x55, 0x28, 0xdf,
      0x8c, 0xa1, 0x89, 0x0d, 0xbf, 0xe6, 0x42, 0x68, 0x41, 0x99, 0x2d, 0x0f,
      0xb0, 0x54, 0xbb, 0x16]"

definition sub_byte :: "byte \<Rightarrow> byte" where
  "sub_byte b = aes_sbox ! unat b"

definition xtime :: "byte \<Rightarrow> byte" where
  "xtime b = push_bit 1 b XOR (if bit b 7 then 0x1b else 0)"

text \<open>The key schedule: sixty four-byte words, newest first.\<close>

fun aes_expand :: "nat \<Rightarrow> nat \<Rightarrow> byte \<Rightarrow> byte list list \<Rightarrow> byte list list" where
  "aes_expand 0 i rcon ws = ws"
| "aes_expand (Suc n) i rcon ws =
     (let t = hd ws;
          u = (if i mod 8 = 0 then map2 (XOR) (map sub_byte (tl t @ [hd t])) [rcon, 0, 0, 0]
               else if i mod 8 = 4 then map sub_byte t else t)
      in aes_expand n (Suc i) (if i mod 8 = 0 then xtime rcon else rcon) (map2 (XOR) (ws ! 7) u # ws))"

definition aes_round_keys :: "byte list \<Rightarrow> byte list list" where
  "aes_round_keys key = chunks_of 16 15 (concat (rev (aes_expand 52 8 1 (rev (chunks_of 4 8 key)))))"

definition shift_rows :: "byte list \<Rightarrow> byte list" where
  "shift_rows s = map ((!) s) [0, 5, 10, 15, 4, 9, 14, 3, 8, 13, 2, 7, 12, 1, 6, 11]"

fun mix_columns :: "byte list \<Rightarrow> byte list" where
  "mix_columns (a # b # c # d # s) =
     [xtime a XOR xtime b XOR b XOR c XOR d, a XOR xtime b XOR xtime c XOR c XOR d,
      a XOR b XOR xtime c XOR xtime d XOR d, xtime a XOR a XOR b XOR c XOR xtime d] @ mix_columns s"
| "mix_columns _ = []"

definition aes_mid_round :: "byte list \<Rightarrow> byte list \<Rightarrow> byte list" where
  "aes_mid_round s rk = map2 (XOR) (mix_columns (shift_rows (map sub_byte s))) rk"

definition aes_block :: "byte list \<Rightarrow> byte list \<Rightarrow> byte list" where
  "aes_block key b =
     (let rks = aes_round_keys key;
          s = foldl aes_mid_round (map2 (XOR) b (rks ! 0)) (take 13 (drop 1 rks));
          t = shift_rows (map sub_byte s)
      in map (\<lambda>i. t ! i XOR (rks ! 14) ! i) [0..<16])"

lemma length_aes_block [simp]: "length (aes_block key b) = 16"
  by (simp add: aes_block_def Let_def)

section \<open>GCM\<close>

type_synonym block = "128 word"

definition block_bytes :: "block \<Rightarrow> byte list" where
  "block_bytes v = map (\<lambda>i. ucast (drop_bit (120 - 8 * i) v)) [0..<16]"

definition bytes_block :: "byte list \<Rightarrow> block" where
  "bytes_block bs = foldl (\<lambda>a b. push_bit 8 a OR ucast b) 0 bs"

fun gf_mult :: "nat \<Rightarrow> block \<Rightarrow> block \<Rightarrow> block \<Rightarrow> block" where
  "gf_mult 0 x v z = z"
| "gf_mult (Suc n) x v z =
     gf_mult n x (drop_bit 1 v XOR (if bit v 0 then push_bit 120 0xe1 else 0))
       (if bit x n then z XOR v else z)"

definition pad16 :: "byte list \<Rightarrow> byte list" where
  "pad16 bs = bs @ replicate ((16 - length bs mod 16) mod 16) 0"

definition ghash :: "block \<Rightarrow> byte list \<Rightarrow> block" where
  "ghash h bs =
     foldl (\<lambda>y x. gf_mult 128 (y XOR bytes_block x) h 0) 0 (chunks_of 16 (length bs div 16) bs)"

definition inc32 :: "block \<Rightarrow> block" where
  "inc32 v = (v AND NOT (mask 32)) OR ucast (ucast v + 1 :: u32)"

function gctr :: "(block \<Rightarrow> byte list) \<Rightarrow> block \<Rightarrow> byte list \<Rightarrow> byte list" where
  "gctr e cb xs =
     (if xs = [] then []
      else map2 (XOR) (take 16 xs) (e cb) @ gctr e (inc32 cb) (drop 16 xs))"
  by pat_completeness auto
termination by (relation "measure (\<lambda>(e, cb, xs). length xs)") auto

declare gctr.simps [simp del]

definition aes_cipher :: "byte list \<Rightarrow> block \<Rightarrow> byte list" where
  "aes_cipher key cb = aes_block key (block_bytes cb)"

definition gcm_j0 :: "byte list \<Rightarrow> block" where
  "gcm_j0 nonce = bytes_block (nonce @ [0, 0, 0, 1])"

definition gcm_tag :: "byte list \<Rightarrow> byte list \<Rightarrow> byte list \<Rightarrow> byte list \<Rightarrow> byte list" where
  "gcm_tag key nonce ct aad =
     (let h = bytes_block (aes_cipher key 0);
          s = ghash h (pad16 aad @ pad16 ct @ put_be64 (8 * length aad) @ put_be64 (8 * length ct))
      in map2 (XOR) (block_bytes s) (aes_cipher key (gcm_j0 nonce)))"

definition gcm_overhead :: nat where "gcm_overhead = 16"

text \<open>\<^verbatim>\<open>AEAD.Seal(nil, nonce, plaintext, additionalData)\<close> and \<^verbatim>\<open>AEAD.Open\<close>.\<close>

definition gcm_seal :: "byte list \<Rightarrow> byte list \<Rightarrow> byte list \<Rightarrow> byte list \<Rightarrow> byte list" where
  "gcm_seal key nonce pt aad =
     (let ct = gctr (aes_cipher key) (inc32 (gcm_j0 nonce)) pt in ct @ gcm_tag key nonce ct aad)"

definition gcm_open :: "byte list \<Rightarrow> byte list \<Rightarrow> byte list \<Rightarrow> byte list \<Rightarrow> byte list option" where
  "gcm_open key nonce sealed aad =
     (if length sealed < gcm_overhead then None
      else let n = length sealed - gcm_overhead; ct = take n sealed
           in if drop n sealed = gcm_tag key nonce ct aad
              then Some (gctr (aes_cipher key) (inc32 (gcm_j0 nonce)) ct) else None)"

lemma length_gctr:
  assumes e: "\<And>cb. length (e cb) = 16" shows "length (gctr e cb xs) = length xs"
  using assms
proof (induction e cb xs rule: gctr.induct)
  case (1 e cb xs)
  then show ?case by (cases "xs = []") (simp_all add: gctr.simps [of e cb])
qed

text \<open>Counter mode is an involution: the key stream does not depend on the text.\<close>

lemma xor_map2_twice:
  fixes xs ks :: "byte list"
  shows "length xs \<le> length ks \<Longrightarrow> map2 (XOR) (map2 (XOR) xs ks) ks = xs"
proof (induction xs arbitrary: ks)
  case (Cons x xs)
  then show ?case by (cases ks) (simp_all add: xor.assoc)
qed simp

lemma gctr_step:
  "xs \<noteq> [] \<Longrightarrow> gctr e cb xs = map2 (XOR) (take 16 xs) (e cb) @ gctr e (inc32 cb) (drop 16 xs)"
  by (simp add: gctr.simps [of e cb xs])

lemma gctr_gctr:
  assumes "\<And>cb. length (e cb) = 16" shows "gctr e cb (gctr e cb xs) = xs"
  using assms
proof (induction e cb xs rule: gctr.induct)
  case (1 e cb xs)
  show ?case
  proof (cases "xs = []")
    case False
    let ?ys = "map2 (XOR) (take 16 xs) (e cb)" and ?zs = "gctr e (inc32 cb) (drop 16 xs)"
    have unfold: "gctr e cb xs = ?ys @ ?zs" using False by (simp add: gctr.simps [of e cb xs])
    have ys: "length ?ys = min 16 (length xs)" using "1.prems" by simp
    have parts: "take 16 (?ys @ ?zs) = ?ys \<and> drop 16 (?ys @ ?zs) = ?zs"
    proof (cases "length xs \<le> 16")
      case True
      then have "?zs = []" by (simp add: gctr.simps)
      then show ?thesis using ys True by simp
    qed (use ys in simp)
    have undo: "map2 (XOR) ?ys (e cb) = take 16 xs"
      using "1.prems" by (intro xor_map2_twice) simp
    have "?ys @ ?zs \<noteq> []" using False ys by (metis append_is_Nil_conv length_0_conv min_def zero_neq_numeral)
    then have "gctr e cb (?ys @ ?zs) = map2 (XOR) ?ys (e cb) @ gctr e (inc32 cb) ?zs"
      by (subst gctr_step, assumption) (simp only: parts)
    then show ?thesis using "1.IH" [OF False] "1.prems" undo unfold by simp
  qed (simp add: gctr.simps)
qed

lemma length_aes_cipher [simp]: "length (aes_cipher key cb) = 16"
  by (simp add: aes_cipher_def)

lemma length_gcm_tag [simp]: "length (gcm_tag key nonce ct aad) = 16"
  by (simp add: gcm_tag_def block_bytes_def Let_def)

section \<open>The contract\<close>

locale aead =
  fixes seal :: "byte list \<Rightarrow> byte list \<Rightarrow> byte list \<Rightarrow> byte list"
    and opn :: "byte list \<Rightarrow> byte list \<Rightarrow> byte list \<Rightarrow> byte list option"
    and overhead :: nat
  assumes opn_seal: "opn nonce (seal nonce pt aad) aad = Some pt"
    and length_seal: "length (seal nonce pt aad) = length pt + overhead"
    and opn_length: "opn nonce ct aad = Some pt \<Longrightarrow> length ct = length pt + overhead"
begin

lemma seal_injective: "seal nonce pt aad = seal nonce pt' aad \<Longrightarrow> pt = pt'"
  by (metis opn_seal option.inject)

lemma opn_short: "length ct < overhead \<Longrightarrow> opn nonce ct aad = None"
  by (metis not_add_less2 not_None_eq opn_length)

end

lemma gcm_open_seal: "gcm_open key nonce (gcm_seal key nonce pt aad) aad = Some pt"
  by (simp add: gcm_open_def gcm_seal_def gcm_overhead_def Let_def gctr_gctr length_gctr)

interpretation gcm: aead "gcm_seal key" "gcm_open key" gcm_overhead
proof unfold_locales
  fix nonce pt aad ct
  show "gcm_open key nonce (gcm_seal key nonce pt aad) aad = Some pt" by (rule gcm_open_seal)
  show "length (gcm_seal key nonce pt aad) = length pt + gcm_overhead"
    by (simp add: gcm_seal_def gcm_overhead_def Let_def length_gctr)
  show "length ct = length pt + gcm_overhead" if "gcm_open key nonce ct aad = Some pt"
    using that by (auto simp: gcm_open_def Let_def length_gctr split: if_splits)
qed

end
