(* ===== verification/Packet.thy ===== *)
theory Packet
  imports Go_Crypto
begin

text \<open>
  The data plane packets of \<^verbatim>\<open>internal/protocol/packet.go\<close>: a 21-byte header (flags,
  source and destination virtual address, nonce) authenticated as additional data, and the
  AEAD ciphertext of one IP packet. The random nonce of \<^verbatim>\<open>Encrypt\<close> is an argument.
\<close>

definition FlagData :: byte where "FlagData = 0x10"
definition FlagProbe :: byte where "FlagProbe = 0x20"
definition FlagReply :: byte where "FlagReply = 0x30"

definition HeaderLen :: nat where "HeaderLen = 1 + 4 + 4 + 12"
definition NonceLen :: nat where "NonceLen = 12"
definition MaxPayload :: nat where "MaxPayload = 1500"
definition MaxPacket :: nat where "MaxPacket = HeaderLen + MaxPayload + 16"

lemmas packet_consts = HeaderLen_def NonceLen_def MaxPayload_def MaxPacket_def
lemmas packet_flags = FlagData_def FlagProbe_def FlagReply_def

record packet =
  pk_flags :: byte
  pk_source :: u32
  pk_dest :: u32
  pk_data :: "byte list"

text \<open>\<^verbatim>\<open>Crypto\<close>: the AEAD interface value (its two operations and overhead) and the key.\<close>

record crypto =
  c_seal :: "byte list \<Rightarrow> byte list \<Rightarrow> byte list \<Rightarrow> byte list"
  c_open :: "byte list \<Rightarrow> byte list \<Rightarrow> byte list \<Rightarrow> byte list option"
  c_overhead :: nat
  c_auth_key :: "byte list"

definition NewCryptoWithKeys :: "byte list \<Rightarrow> byte list \<Rightarrow> crypto option" where
  "NewCryptoWithKeys dataKey authKey =
     (if length dataKey \<noteq> 32 then None
      else Some \<lparr>c_seal = gcm_seal dataKey, c_open = gcm_open dataKey,
                 c_overhead = gcm_overhead, c_auth_key = authKey\<rparr>)"

definition AuthTagFor :: "byte list \<Rightarrow> byte list \<Rightarrow> byte list" where
  "AuthTagFor authKey nonce = hmac_sha256 authKey nonce"

definition AuthTag :: "crypto \<Rightarrow> byte list \<Rightarrow> byte list" where
  "AuthTag c nonce = AuthTagFor (c_auth_key c) nonce"

definition VerifyAuth :: "crypto \<Rightarrow> byte list \<Rightarrow> byte list \<Rightarrow> bool" where
  "VerifyAuth c nonce tag \<longleftrightarrow> AuthTag c nonce = tag"

datatype packet_error = PayloadTooLarge | PacketTooShort | OpenFailed

definition packet_header :: "byte \<Rightarrow> u32 \<Rightarrow> u32 \<Rightarrow> byte list \<Rightarrow> byte list" where
  "packet_header flag src dst nonce = [flag] @ put_be32 src @ put_be32 dst @ nonce"

definition Encrypt :: "crypto \<Rightarrow> byte list \<Rightarrow> byte \<Rightarrow> u32 \<Rightarrow> u32 \<Rightarrow> byte list
    \<Rightarrow> packet_error + byte list" where
  "Encrypt c nonce flag src dst payload =
     (if length payload > MaxPayload then Inl PayloadTooLarge
      else let hdr = packet_header flag src dst nonce
           in Inr (hdr @ c_seal c nonce payload hdr))"

definition Decrypt :: "crypto \<Rightarrow> byte list \<Rightarrow> packet_error + packet" where
  "Decrypt c buf =
     (if length buf < HeaderLen then Inl PacketTooShort
      else let flag = buf ! 0;
               src = be32 (take 4 (drop 1 buf));
               dst = be32 (take 4 (drop 5 buf));
               nonce = take 12 (drop 9 buf);
               ct = drop HeaderLen buf
           in case c_open c nonce ct (take HeaderLen buf) of
                None \<Rightarrow> Inl OpenFailed
              | Some pt \<Rightarrow> Inr \<lparr>pk_flags = flag, pk_source = src, pk_dest = dst, pk_data = pt\<rparr>)"

section \<open>The format over any AEAD\<close>

lemma length_packet_header [simp]:
  "length nonce = NonceLen \<Longrightarrow> length (packet_header flag src dst nonce) = HeaderLen"
  by (simp add: packet_header_def packet_consts)

lemma packet_header_fields:
  fixes flag src dst
  assumes "length nonce = NonceLen"
  defines "hdr \<equiv> packet_header flag src dst nonce"
  shows "(hdr @ ct) ! 0 = flag" "take 4 (drop 1 (hdr @ ct)) = put_be32 src"
    "take 4 (drop 5 (hdr @ ct)) = put_be32 dst" "take 12 (drop 9 (hdr @ ct)) = nonce"
    "drop HeaderLen (hdr @ ct) = ct" "take HeaderLen (hdr @ ct) = hdr"
  using assms by (simp_all add: hdr_def packet_header_def packet_consts put_be32_def)

definition uses_aead :: "crypto \<Rightarrow> (byte list \<Rightarrow> byte list \<Rightarrow> byte list \<Rightarrow> byte list)
    \<Rightarrow> (byte list \<Rightarrow> byte list \<Rightarrow> byte list \<Rightarrow> byte list option) \<Rightarrow> nat \<Rightarrow> bool" where
  "uses_aead c s op n \<longleftrightarrow> c_seal c = s \<and> c_open c = op \<and> c_overhead c = n"

context aead begin

lemma decrypt_encrypt:
  assumes "uses_aead c seal opn overhead" and "length nonce = NonceLen"
    and "Encrypt c nonce flag src dst payload = Inr buf"
  shows "Decrypt c buf = Inr \<lparr>pk_flags = flag, pk_source = src, pk_dest = dst, pk_data = payload\<rparr>"
proof -
  let ?hdr = "packet_header flag src dst nonce"
  have buf: "buf = ?hdr @ seal nonce payload ?hdr"
    using assms by (auto simp: Encrypt_def uses_aead_def Let_def split: if_splits)
  have "\<not> length buf < HeaderLen" using assms(2) buf by simp
  then show ?thesis
    using assms(1) packet_header_fields [OF assms(2), of flag src dst "seal nonce payload ?hdr"]
    by (simp add: Decrypt_def buf uses_aead_def opn_seal)
qed

lemma encrypt_length:
  assumes "uses_aead c seal opn overhead" and "length nonce = NonceLen"
    and "Encrypt c nonce flag src dst payload = Inr buf"
  shows "length buf = HeaderLen + length payload + overhead"
proof -
  let ?hdr = "packet_header flag src dst nonce"
  have "buf = ?hdr @ seal nonce payload ?hdr"
    using assms by (auto simp: Encrypt_def uses_aead_def Let_def split: if_splits)
  then show ?thesis using assms(2) by (simp add: length_seal)
qed

lemma decrypt_length:
  assumes "uses_aead c seal opn overhead" and "Decrypt c buf = Inr p"
  shows "length buf = HeaderLen + length (pk_data p) + overhead"
proof -
  have "\<not> length buf < HeaderLen"
    and "opn (take 12 (drop 9 buf)) (drop HeaderLen buf) (take HeaderLen buf) = Some (pk_data p)"
    using assms by (auto simp: Decrypt_def uses_aead_def Let_def split: if_splits option.splits)
  then show ?thesis using opn_length by fastforce
qed

lemma encrypt_injective:
  assumes "uses_aead c seal opn overhead" and "length nonce = NonceLen" and "length nonce' = NonceLen"
    and "Encrypt c nonce flag src dst p = Inr buf" and "Encrypt c nonce' flag' src' dst' p' = Inr buf"
  shows "flag = flag' \<and> src = src' \<and> dst = dst' \<and> p = p'"
  using decrypt_encrypt [OF assms(1,2,4)] decrypt_encrypt [OF assms(1,3,5)] by simp

end

section \<open>With AES-GCM\<close>

lemma NewCryptoWithKeys_gcm:
  "NewCryptoWithKeys dataKey authKey = Some c \<Longrightarrow>
   uses_aead c (gcm_seal dataKey) (gcm_open dataKey) gcm_overhead"
  by (auto simp: NewCryptoWithKeys_def uses_aead_def split: if_splits)

lemmas gcm_packets =
  gcm.decrypt_encrypt [OF NewCryptoWithKeys_gcm]
  gcm.encrypt_length [OF NewCryptoWithKeys_gcm]
  gcm.decrypt_length [OF NewCryptoWithKeys_gcm]

lemma VerifyAuth_AuthTag [simp]: "VerifyAuth c nonce (AuthTag c nonce)"
  by (simp add: VerifyAuth_def)

section \<open>Properties\<close>

text \<open>Whatever \<^verbatim>\<open>Encrypt\<close> produces for a 12-byte nonce, \<^verbatim>\<open>Decrypt\<close> with the
  same data key opens to the same flags, addresses and payload, even if the two ends hold
  different authentication keys; the packet is 37 bytes longer than its payload, so it never
  exceeds \<^verbatim>\<open>MaxPacket\<close>; and \<^verbatim>\<open>Encrypt\<close> succeeds exactly up to
  \<^verbatim>\<open>MaxPayload\<close> bytes.\<close>

theorem packet_round_trip:
  assumes "NewCryptoWithKeys dataKey authKey = Some c"
    and "NewCryptoWithKeys dataKey authKey' = Some c'"
    and "length nonce = NonceLen"
  shows "case Encrypt c nonce flag src dst payload of
           Inl e \<Rightarrow> e = PayloadTooLarge \<and> MaxPayload < length payload
         | Inr buf \<Rightarrow>
             Decrypt c' buf = Inr \<lparr>pk_flags = flag, pk_source = src, pk_dest = dst, pk_data = payload\<rparr>
             \<and> length buf = HeaderLen + length payload + 16 \<and> length buf \<le> MaxPacket"
proof (cases "Encrypt c nonce flag src dst payload")
  case (Inl e)
  then show ?thesis by (auto simp: Encrypt_def Let_def split: if_splits)
next
  case (Inr buf)
  have "Encrypt c' = Encrypt c"
    using assms(1,2) by (auto simp: NewCryptoWithKeys_def Encrypt_def fun_eq_iff split: if_splits)
  then have "Encrypt c' nonce flag src dst payload = Inr buf" using Inr by simp
  then have "Decrypt c' buf = Inr \<lparr>pk_flags = flag, pk_source = src, pk_dest = dst, pk_data = payload\<rparr>"
    using gcm_packets(1) assms(2,3) by blast
  moreover have "length payload \<le> MaxPayload"
    using Inr by (auto simp: Encrypt_def Let_def split: if_splits)
  ultimately show ?thesis
    using gcm_packets(2) [OF assms(1,3) Inr] by (simp add: Inr gcm_overhead_def MaxPacket_def)
qed

theorem packet_round_trip_witness:
  "\<exists>c c'. NewCryptoWithKeys (replicate 32 7) [1] = Some c \<and> NewCryptoWithKeys (replicate 32 7) [2] = Some c'
    \<and> (case Encrypt c (replicate 12 9) FlagData 1 2 [65, 66] of
          Inl e \<Rightarrow> e = PayloadTooLarge \<and> MaxPayload < length [65 :: byte, 66]
        | Inr buf \<Rightarrow>
            Decrypt c' buf = Inr \<lparr>pk_flags = FlagData, pk_source = 1, pk_dest = 2, pk_data = [65, 66]\<rparr>
            \<and> length buf = HeaderLen + length [65 :: byte, 66] + 16 \<and> length buf \<le> MaxPacket)"
proof -
  obtain c c' where keys: "NewCryptoWithKeys (replicate 32 7) [1] = Some c"
    "NewCryptoWithKeys (replicate 32 7) [2] = Some c'"
    by (simp add: NewCryptoWithKeys_def)
  then show ?thesis
    using packet_round_trip [OF keys, where nonce = "replicate 12 9" and flag = FlagData and src = 1
        and dst = 2 and payload = "[65, 66]"] NonceLen_def by auto
qed

text \<open>What \<^verbatim>\<open>Decrypt\<close> accepts: at least 37 bytes, whose length is the payload's
  plus 37, and whose first nine bytes are the flags and addresses it reports; anything
  shorter is refused as too short or fails to open, never read out of bounds.\<close>

theorem decrypt_accepts:
  assumes "NewCryptoWithKeys dataKey authKey = Some c"
  shows "case Decrypt c buf of
           Inr p \<Rightarrow> length buf = HeaderLen + 16 + length (pk_data p)
                    \<and> take 9 buf = pk_flags p # put_be32 (pk_source p) @ put_be32 (pk_dest p)
         | Inl e \<Rightarrow> (e = PacketTooShort) = (length buf < HeaderLen) \<and> e \<noteq> PayloadTooLarge"
proof (cases "Decrypt c buf")
  case (Inl e)
  then show ?thesis by (auto simp: Decrypt_def Let_def split: if_splits option.splits)
next
  case (Inr p)
  have len: "length buf = HeaderLen + length (pk_data p) + 16"
    using gcm_packets(3) [OF assms Inr] by (simp add: gcm_overhead_def)
  have p: "pk_flags p = buf ! 0" "pk_source p = be32 (take 4 (drop 1 buf))"
    "pk_dest p = be32 (take 4 (drop 5 buf))"
    using Inr by (auto simp: Decrypt_def Let_def split: if_splits option.splits)
  have "take 9 buf = take 1 buf @ take 4 (drop 1 buf) @ take 4 (drop 5 buf)"
    using take_add [of 1 8 buf] take_add [of 4 4 "drop 1 buf"] by simp
  moreover have "take 1 buf = [buf ! 0]" using len by (cases buf) (auto simp: packet_consts)
  ultimately have "take 9 buf = pk_flags p # put_be32 (pk_source p) @ put_be32 (pk_dest p)"
    using len by (simp add: p put_be32_of_be32 packet_consts)
  then show ?thesis using len Inr by simp
qed

theorem decrypt_accepts_witness:
  "\<exists>c. NewCryptoWithKeys (replicate 32 7) [1] = Some c
    \<and> (case Decrypt c [1, 2, 3] of
          Inr p \<Rightarrow> length [1 :: byte, 2, 3] = HeaderLen + 16 + length (pk_data p)
                   \<and> take 9 [1, 2, 3] = pk_flags p # put_be32 (pk_source p) @ put_be32 (pk_dest p)
        | Inl e \<Rightarrow> (e = PacketTooShort) = (length [1 :: byte, 2, 3] < HeaderLen) \<and> e \<noteq> PayloadTooLarge)"
proof -
  obtain c where key: "NewCryptoWithKeys (replicate 32 7) [1] = Some c"
    by (simp add: NewCryptoWithKeys_def)
  then show ?thesis using decrypt_accepts [OF key, of "[1, 2, 3]"] by blast
qed

end
