(* ===== verification/Credential.thy ===== *)
theory Credential
  imports Packet Protocol_Json
begin

text \<open>
  Device credentials and the registration reply of \<^verbatim>\<open>internal/protocol/register.go\<close>:
  device identifiers (base32 of 16 random bytes), hexadecimal keys, the HMAC challenge
  answers of a registration and of a device, and the encrypted credential bundle. Random
  bytes are arguments.
\<close>

section \<open>Base32 without padding\<close>

definition b32_char :: "nat \<Rightarrow> char" where
  "b32_char n = (if n < 26 then char_of (65 + n) else char_of (24 + n))"

definition bits_of :: "byte list \<Rightarrow> bool list" where
  "bits_of bs = concat (map (\<lambda>b. map (\<lambda>i. bit b (7 - i)) [0..<8]) bs)"

definition bits_num :: "bool list \<Rightarrow> nat" where
  "bits_num = foldl (\<lambda>a b. 2 * a + of_bool b) 0"

fun b32_groups :: "nat \<Rightarrow> bool list \<Rightarrow> string" where
  "b32_groups 0 bits = []"
| "b32_groups (Suc n) bits =
     (if bits = [] then []
      else b32_char (bits_num (take 5 bits @ replicate (5 - length bits) False))
           # b32_groups n (drop 5 bits))"

definition base32 :: "byte list \<Rightarrow> string" where
  "base32 bs = b32_groups (2 * length bs) (bits_of bs)"

section \<open>Credentials\<close>

record credential =
  cr_device_id :: string
  cr_device_key :: string
  cr_network_key :: string

definition GenerateDeviceID :: "byte list \<Rightarrow> string" where
  "GenerateDeviceID buf = base32 buf"

definition GenerateKey :: "byte list \<Rightarrow> string" where
  "GenerateKey buf = hex_encode buf"

definition ParseKey :: "string \<Rightarrow> byte list option" where
  "ParseKey s =
     (case hex_decode s of
        None \<Rightarrow> None
      | Some key \<Rightarrow> if length key \<noteq> 32 then None else Some key)"

definition registerBlobInfo :: string where "registerBlobInfo = ''sulink-lan/v1/register-blob''"
definition registerAuthInfo :: string where "registerAuthInfo = ''sulink-lan/v1/register-auth''"
definition deviceAuthInfo :: string where "deviceAuthInfo = ''sulink-lan/v1/device-auth''"

definition RegisterAuthKey :: "string \<Rightarrow> byte list" where
  "RegisterAuthKey hwid = hmac_sha256 (str_bytes hwid) (str_bytes registerAuthInfo)"

definition DeviceAuthKey :: "byte list \<Rightarrow> byte list" where
  "DeviceAuthKey deviceKey = hmac_sha256 deviceKey (str_bytes deviceAuthInfo)"

definition VerifyRegisterAuth :: "string \<Rightarrow> byte list \<Rightarrow> byte list \<Rightarrow> bool" where
  "VerifyRegisterAuth hwid nonce tag \<longleftrightarrow>
     tag \<noteq> [] \<and> hmac_sha256 (RegisterAuthKey hwid) nonce = tag"

definition VerifyDeviceAuth :: "string \<Rightarrow> byte list \<Rightarrow> byte list \<Rightarrow> bool" where
  "VerifyDeviceAuth deviceKeyHex nonce tag \<longleftrightarrow>
     (if tag = [] then False
      else case ParseKey deviceKeyHex of
             None \<Rightarrow> False
           | Some key \<Rightarrow> hmac_sha256 (DeviceAuthKey key) nonce = tag)"

datatype cred_field = CDeviceId | CDeviceKey | CNetworkKey

fun set_cred :: "cred_field \<Rightarrow> json \<Rightarrow> credential \<Rightarrow> credential option" where
  "set_cred CDeviceId j c = map_option (\<lambda>v. c\<lparr>cr_device_id := v\<rparr>) (js_str j (cr_device_id c))"
| "set_cred CDeviceKey j c = map_option (\<lambda>v. c\<lparr>cr_device_key := v\<rparr>) (js_str j (cr_device_key c))"
| "set_cred CNetworkKey j c = map_option (\<lambda>v. c\<lparr>cr_network_key := v\<rparr>) (js_str j (cr_network_key c))"

definition cred_to_json :: "credential \<Rightarrow> json" where
  "cred_to_json c = JObj [(''deviceId'', JStr (cr_device_id c)), (''deviceKey'', JStr (cr_device_key c)),
     (''networkKey'', JStr (cr_network_key c))]"

definition cred_of_json :: "json \<Rightarrow> credential option" where
  "cred_of_json =
     js_struct [(''deviceId'', CDeviceId), (''deviceKey'', CDeviceKey), (''networkKey'', CNetworkKey)]
       set_cred \<lparr>cr_device_id = [], cr_device_key = [], cr_network_key = []\<rparr>"

definition blob_key :: "string \<Rightarrow> byte list" where
  "blob_key hwid = hmac_sha256 (str_bytes hwid) (str_bytes registerBlobInfo)"

definition EncryptCredential :: "byte list \<Rightarrow> string \<Rightarrow> credential \<Rightarrow> byte list" where
  "EncryptCredential nonce hwid cred =
     nonce @ gcm_seal (blob_key hwid) nonce (str_bytes (print_json (cred_to_json cred))) []"

datatype cred_error = BlobTooShort | BlobOpenFailed | BlobMalformed | BlobFieldMissing

definition DecryptCredential :: "string \<Rightarrow> byte list \<Rightarrow> cred_error + credential" where
  "DecryptCredential hwid blob =
     (if length blob < NonceLen + gcm_overhead then Inl BlobTooShort
      else case gcm_open (blob_key hwid) (take NonceLen blob) (drop NonceLen blob) [] of
             None \<Rightarrow> Inl BlobOpenFailed
           | Some payload \<Rightarrow>
               (case Option.bind (parse_json (bytes_str payload)) cred_of_json of
                  None \<Rightarrow> Inl BlobMalformed
                | Some cred \<Rightarrow>
                    if cr_device_id cred = [] \<or> cr_device_key cred = [] \<or> cr_network_key cred = []
                    then Inl BlobFieldMissing else Inr cred))"

section \<open>Lemmas\<close>

lemma ParseKey_GenerateKey: "length buf = 32 \<Longrightarrow> ParseKey (GenerateKey buf) = Some buf"
  by (simp add: ParseKey_def GenerateKey_def)

interpretation device_keys: codec GenerateKey ParseKey "\<lambda>buf. length buf = 32"
  by unfold_locales (rule ParseKey_GenerateKey)

lemma ParseKey_length: "ParseKey s = Some key \<Longrightarrow> length key = 32"
  by (auto simp: ParseKey_def split: option.splits if_splits)

lemma VerifyDeviceAuth_iff:
  "VerifyDeviceAuth k nonce tag \<longleftrightarrow>
   (\<exists>key. ParseKey k = Some key \<and> tag = AuthTagFor (DeviceAuthKey key) nonce)"
  by (auto simp: VerifyDeviceAuth_def AuthTagFor_def split: option.splits)

lemma VerifyRegisterAuth_iff:
  "VerifyRegisterAuth hwid nonce tag \<longleftrightarrow> tag = AuthTagFor (RegisterAuthKey hwid) nonce"
  by (auto simp: VerifyRegisterAuth_def AuthTagFor_def)

definition credential_ok :: "credential \<Rightarrow> bool" where
  "credential_ok c \<longleftrightarrow>
     (\<forall>s \<in> {cr_device_id c, cr_device_key c, cr_network_key c}. s \<noteq> [] \<and> valid_utf8 s)"

lemma cred_json_ok: "credential_ok c \<Longrightarrow> json_ok (cred_to_json c)"
  by (simp add: cred_to_json_def credential_ok_def tag_ok byte_in_def)

lemma cred_of_json_to_json: "cred_of_json (cred_to_json c) = Some c"
  by (simp add: cred_of_json_def cred_to_json_def js_struct_def)

lemma DecryptCredential_Encrypt:
  assumes "length nonce = NonceLen" and "credential_ok c"
  shows "DecryptCredential hwid (EncryptCredential nonce hwid c) = Inr c"
proof -
  have "\<not> length (EncryptCredential nonce hwid c) < NonceLen + gcm_overhead"
    using assms(1) by (simp add: EncryptCredential_def gcm.length_seal)
  moreover have "cr_device_id c \<noteq> []" "cr_device_key c \<noteq> []" "cr_network_key c \<noteq> []"
    using assms(2) by (auto simp: credential_ok_def)
  ultimately show ?thesis
    using assms by (simp add: DecryptCredential_def EncryptCredential_def gcm_open_seal
        parse_json_print cred_json_ok cred_of_json_to_json)
qed

section \<open>Properties\<close>

text \<open>The credential bundle a server encrypts for a device identifier is decrypted by
  the client with that identifier to the same credential.\<close>

theorem credential_round_trip:
  "length nonce = NonceLen \<Longrightarrow> credential_ok c \<Longrightarrow>
   DecryptCredential hwid (EncryptCredential nonce hwid c) = Inr c"
  by (rule DecryptCredential_Encrypt)

theorem credential_round_trip_witness:
  "DecryptCredential ''pc'' (EncryptCredential (replicate 12 1) ''pc''
     \<lparr>cr_device_id = ''A'', cr_device_key = ''b'', cr_network_key = ''c''\<rparr>)
   = Inr \<lparr>cr_device_id = ''A'', cr_device_key = ''b'', cr_network_key = ''c''\<rparr>"
  by (rule credential_round_trip) (simp_all add: NonceLen_def credential_ok_def tag_ok byte_in_def)

text \<open>A device credential passes the server's check exactly when the tag is the one the
  holder of the device key computes over the challenge; a key that is not 32 bytes of
  hexadecimal never passes, and the generated key always parses.\<close>

theorem device_auth_exact:
  "(VerifyDeviceAuth keyHex nonce tag \<longleftrightarrow>
     (\<exists>key. ParseKey keyHex = Some key \<and> tag = AuthTagFor (DeviceAuthKey key) nonce))
   \<and> ParseKey (GenerateKey (take 32 (buf @ replicate 32 0))) = Some (take 32 (buf @ replicate 32 0))"
  by (simp add: VerifyDeviceAuth_iff ParseKey_GenerateKey)

end
