(* ===== verification/Udp_Addr.thy ===== *)
theory Udp_Addr
  imports Go_Net
begin

text \<open>
  UDP endpoints as the server records them and the client compares them: \<^verbatim>\<open>net.UDPAddr\<close>,
  the text of an address (\<^verbatim>\<open>net.IP.String\<close>, with the zero compression of IPv6), its
  equality \<^verbatim>\<open>net.IP.Equal\<close>, and \<^verbatim>\<open>sameUDPAddr\<close> of
  \<^verbatim>\<open>internal/client/client.go\<close>.
\<close>

record udp_addr =
  u_ip :: "byte list"
  u_port :: int
  u_zone :: string

type_synonym datagram = "udp_addr \<times> byte list"

text \<open>A 16-bit group in hexadecimal without leading zeros.\<close>

definition group_hex :: "u16 \<Rightarrow> string" where
  "group_hex w =
     (let ds = map (\<lambda>i. unat (drop_bit i w AND 15)) [12, 8, 4]
      in map hex_char (dropWhile (\<lambda>d. d = 0) ds) @ [hex_char (unat (w AND 15))])"

definition v6_groups :: "byte list \<Rightarrow> u16 list" where
  "v6_groups bs = map (\<lambda>i. be16 (drop (2 * i) bs)) [0..<8]"

text \<open>The longest run of at least two zero groups, the first of equally long ones.\<close>

definition zero_run :: "u16 list \<Rightarrow> nat \<times> nat" where
  "zero_run gs =
     foldl (\<lambda>(start, len) i.
       let l = length (takeWhile (\<lambda>g. g = 0) (drop i gs))
       in if l \<ge> 2 \<and> l > len then (i, l) else (start, len)) (length gs, 0) [0..<length gs]"

definition colon_join :: "u16 list \<Rightarrow> string" where
  "colon_join gs = concat (map (\<lambda>i. (if i = 0 then [] else '':'') @ group_hex (gs ! i)) [0..<length gs])"

definition v6_string :: "byte list \<Rightarrow> string" where
  "v6_string bs =
     (let gs = v6_groups bs; (start, len) = zero_run gs
      in if len = 0 then colon_join gs
         else colon_join (take start gs) @ ''::'' @ colon_join (drop (start + len) gs))"

definition IP_String :: "byte list \<Rightarrow> string" where
  "IP_String ip =
     (if ip = [] then ''<nil>''
      else case To4 ip of
             Some v4 \<Rightarrow> v4_string v4
           | None \<Rightarrow> if length ip = 16 then v6_string ip else ''?'' @ hex_encode ip)"

definition int_string :: "int \<Rightarrow> string" where
  "int_string n = (if n < 0 then ''-'' @ dec (nat (- n)) else dec (nat n))"

definition UDPAddr_String :: "udp_addr \<Rightarrow> string" where
  "UDPAddr_String a =
     (let ip = (if u_ip a = [] then [] else IP_String (u_ip a))
      in JoinHostPort (if u_zone a = [] then ip else ip @ ''%'' @ u_zone a) (int_string (u_port a)))"

text \<open>An IPv4 address and its IPv6-mapped form are the same address.\<close>

definition IP_Equal :: "byte list \<Rightarrow> byte list \<Rightarrow> bool" where
  "IP_Equal a b \<longleftrightarrow>
     (if length a = length b then a = b
      else if length a = 4 \<and> length b = 16 then b = v4_mapped a
      else if length a = 16 \<and> length b = 4 then a = v4_mapped b
      else False)"

definition sameUDPAddr :: "udp_addr option \<Rightarrow> udp_addr option \<Rightarrow> bool" where
  "sameUDPAddr a b \<longleftrightarrow>
     (case (a, b) of (Some x, Some y) \<Rightarrow> u_port x = u_port y \<and> IP_Equal (u_ip x) (u_ip y) | _ \<Rightarrow> False)"

lemma IP_Equal_refl [simp]: "IP_Equal a a"
  by (simp add: IP_Equal_def)

lemma IP_Equal_sym: "IP_Equal a b \<longleftrightarrow> IP_Equal b a"
  by (auto simp: IP_Equal_def)

lemma IP_Equal_16:
  "length a \<in> {4, 16} \<Longrightarrow> length b \<in> {4, 16} \<Longrightarrow>
   IP_Equal a b \<longleftrightarrow> (if length a = 4 then v4_mapped a else a) = (if length b = 4 then v4_mapped b else b)"
  by (auto simp: IP_Equal_def v4_mapped_def)

lemma sameUDPAddr_trans:
  assumes "sameUDPAddr (Some a) (Some b)" and "sameUDPAddr (Some b) (Some c)"
    and "length (u_ip a) \<in> {4, 16}" and "length (u_ip b) \<in> {4, 16}" and "length (u_ip c) \<in> {4, 16}"
  shows "sameUDPAddr (Some a) (Some c)"
  using assms by (simp add: sameUDPAddr_def IP_Equal_16)

lemma IP_String_samples:
  "IP_String [10, 0, 0, 2] = ''10.0.0.2''"
  "IP_String ([0x20, 1, 0x0D, 0xB8] @ replicate 11 0 @ [1]) = ''2001:db8::1''"
  "IP_String (replicate 15 0 @ [1]) = ''::1''"
  "IP_String [0x20, 1, 0, 0, 0, 1, 0, 0, 0, 0, 0, 0, 0, 0, 0, 0xAB] = ''2001:0:1::ab''"
  by code_simp+

end
