(* ===== verification/Settings.thy ===== *)
theory Settings
  imports Protocol
begin

text \<open>
  The network-wide settings of \<^verbatim>\<open>internal/server/settings.go\<close> and of \<^verbatim>\<open>Push\<close> in
  \<^verbatim>\<open>internal/server/control.go\<close>: loading, merging and saving. The settings in force are
  only looked up, copied and written in key order, so they are a list with ascending keys; the
  map an administrator submits, and the one a file holds, is iterated, so it is a list of pairs
  in iteration order and theorems quantify over it.
\<close>

type_synonym settings = "(string \<times> string) list"

fun map_delete :: "'k::linorder \<Rightarrow> ('k \<times> 'v) list \<Rightarrow> ('k \<times> 'v) list" where
  "map_delete k [] = []"
| "map_delete k ((k', v') # m) = (if k = k' then m else (k', v') # map_delete k m)"

lemma fst_set_map_delete: "ascending m \<Longrightarrow> fst ` set (map_delete k m) = fst ` set m - {k}"
  by (induction k m rule: map_delete.induct) (auto simp: ascending_def)

lemma ascending_map_delete [simp]: "ascending m \<Longrightarrow> ascending (map_delete k m)"
proof (induction k m rule: map_delete.induct)
  case (2 k k' v' m)
  then show ?case using fst_set_map_delete [of m k] by (auto simp: ascending_def)
qed simp

lemma map_of_map_delete [simp, assoc_simps]:
  "ascending m \<Longrightarrow> map_of (map_delete k m) = (map_of m)(k := None)"
proof (induction k m rule: map_delete.induct)
  case (2 k k' v' m)
  then have m: "ascending m" "k' \<notin> fst ` set m" by (auto simp: ascending_def)
  then have "map_of m k' = None" by (simp add: map_of_eq_None_iff)
  then show ?case using 2 m by (auto simp: fun_eq_iff)
qed auto

section \<open>The code\<close>

record settings_file =
  sf_version :: int
  sf_config :: settings

text \<open>\<^verbatim>\<open>copyMap\<close>: the range over the source, whatever its order.\<close>

definition copyMap :: "settings \<Rightarrow> settings" where
  "copyMap m = foldl (\<lambda>out (k, v). map_put k v out) [] m"

definition sortedKeys :: "settings \<Rightarrow> string list" where
  "sortedKeys m = sort (map fst m)"

definition load_setting :: "settings \<Rightarrow> string \<times> string \<Rightarrow> settings" where
  "load_setting out e =
     (case e of (k0, v) \<Rightarrow>
        let k = TrimSpace k0
        in if k = [] \<or> TrimSpace v = [] then out else map_put k v out)"

text \<open>The file is \<^term>\<open>None\<close> when it does not exist, cannot be read or is not JSON.\<close>

definition loadSettings :: "string \<Rightarrow> settings_file option \<Rightarrow> settings" where
  "loadSettings path file =
     (if path = [] then []
      else case file of None \<Rightarrow> [] | Some f \<Rightarrow> foldl load_setting [] (sf_config f))"

text \<open>The file after a save, on a file system that accepts writes or does not.\<close>

definition saveSettings :: "string \<Rightarrow> bool \<Rightarrow> settings \<Rightarrow> settings_file option \<Rightarrow> settings_file option" where
  "saveSettings path writable cfg file =
     (if path = [] then file
      else if writable then Some \<lparr>sf_version = 1, sf_config = cfg\<rparr> else file)"

definition merge_setting :: "settings \<Rightarrow> string \<times> string \<Rightarrow> settings" where
  "merge_setting pushed e =
     (case e of (k0, v) \<Rightarrow>
        let k = TrimSpace k0
        in if k = [] then pushed
           else if TrimSpace v = [] then map_delete k pushed
           else map_put k v pushed)"

definition merge_settings :: "settings \<Rightarrow> settings \<Rightarrow> settings" where
  "merge_settings pushed cfg = foldl merge_setting pushed cfg"

section \<open>Correctness\<close>

text \<open>The settings in force: trimmed keys, no blank value.\<close>

definition settings_ok :: "settings \<Rightarrow> bool" where
  "settings_ok m \<longleftrightarrow>
     ascending m \<and> (\<forall>(k, v) \<in> set m. k \<noteq> [] \<and> TrimSpace k = k \<and> TrimSpace v \<noteq> [])"

lemma set_map_put: "set (map_put k v m) \<subseteq> insert (k, v) (set m)"
  by (induction k v m rule: map_put.induct) auto

lemma set_map_delete: "set (map_delete k m) \<subseteq> set m"
  by (induction k m rule: map_delete.induct) auto

lemma settings_ok_put:
  "settings_ok m \<Longrightarrow> TrimSpace k \<noteq> [] \<Longrightarrow> TrimSpace v \<noteq> [] \<Longrightarrow> settings_ok (map_put (TrimSpace k) v m)"
  using set_map_put [of "TrimSpace k" v m] by (fastforce simp: settings_ok_def)

lemma settings_ok_delete: "settings_ok m \<Longrightarrow> settings_ok (map_delete k m)"
  using set_map_delete [of k m] by (fastforce simp: settings_ok_def)

lemma merge_setting_ok: "settings_ok m \<Longrightarrow> settings_ok (merge_setting m e)"
  by (auto simp: merge_setting_def Let_def settings_ok_put settings_ok_delete split: prod.splits)

lemma merge_settings_ok: "settings_ok m \<Longrightarrow> settings_ok (merge_settings m cfg)"
  unfolding merge_settings_def by (induction cfg arbitrary: m) (simp_all add: merge_setting_ok)

lemma load_setting_ok: "settings_ok m \<Longrightarrow> settings_ok (load_setting m e)"
  by (auto simp: load_setting_def Let_def settings_ok_put split: prod.splits)

lemma loadSettings_ok: "settings_ok (loadSettings path file)"
proof -
  have "settings_ok m \<Longrightarrow> settings_ok (foldl load_setting m es)" for m es
    by (induction es arbitrary: m) (simp_all add: load_setting_ok)
  moreover have "settings_ok []" by (simp add: settings_ok_def)
  ultimately show ?thesis by (simp add: loadSettings_def split: option.splits)
qed

text \<open>The effect of a merge on one key: the last entry for it in iteration order decides.\<close>

definition setting_entry :: "string \<Rightarrow> settings \<Rightarrow> string option" where
  "setting_entry k cfg = map_of (rev (map (\<lambda>(k0, v). (TrimSpace k0, v)) cfg)) k"

lemma setting_entry_Cons:
  "setting_entry k ((k0, v) # cfg) =
     (case setting_entry k cfg of Some w \<Rightarrow> Some w | None \<Rightarrow> if TrimSpace k0 = k then Some v else None)"
  by (simp add: setting_entry_def map_add_def split: option.splits)

lemma merge_settings_lookup:
  assumes "settings_ok m" and "k \<noteq> []"
  shows "map_of (merge_settings m cfg) k =
    (case setting_entry k cfg of
       None \<Rightarrow> map_of m k
     | Some v \<Rightarrow> if TrimSpace v = [] then None else Some v)"
  using assms(1)
proof (induction cfg arbitrary: m)
  case Nil
  then show ?case by (simp add: merge_settings_def setting_entry_def)
next
  case (Cons e cfg)
  obtain k0 v where e: "e = (k0, v)" by force
  have asc: "ascending m" using Cons.prems by (simp add: settings_ok_def)
  have "map_of (merge_setting m e) k =
      (if TrimSpace k0 = k then if TrimSpace v = [] then None else Some v else map_of m k)"
    using assms(2) asc by (auto simp: merge_setting_def e Let_def)
  moreover have "map_of (merge_settings m (e # cfg)) k = map_of (merge_settings (merge_setting m e) cfg) k"
    by (simp add: merge_settings_def)
  ultimately show ?case
    using Cons.IH [OF merge_setting_ok [OF Cons.prems, of e]]
    by (simp add: e setting_entry_Cons split: option.splits)
qed

lemma copyMap_ascending: "ascending m \<Longrightarrow> copyMap m = m"
proof -
  have "ascending (acc @ m) \<Longrightarrow> foldl (\<lambda>out (k, v). map_put k v out) acc m = acc @ m" for acc
  proof (induction m arbitrary: acc)
    case (Cons e m)
    obtain k v where e: "e = (k, v)" by force
    have "\<forall>k' \<in> fst ` set acc. k' < k"
      using Cons.prems by (auto simp: ascending_def sorted_wrt_append e)
    then have "map_put k v acc = acc @ [(k, v)]" by (rule map_put_last)
    then show ?case using Cons.IH [of "acc @ [e]"] Cons.prems by (simp add: e)
  qed simp
  from this [of "[]"] show "ascending m \<Longrightarrow> copyMap m = m" by (simp add: copyMap_def)
qed

lemma sortedKeys_ascending: "ascending m \<Longrightarrow> sortedKeys m = map fst m"
  by (simp add: sortedKeys_def ascending_def strict_sorted_iff sorted_sort_id)

text \<open>What was saved is loaded again, with nothing lost and nothing added.\<close>

lemma reload_settings:
  assumes "settings_ok m" and "p \<noteq> []"
  shows "loadSettings p (saveSettings p True m file) = m"
proof -
  have "foldl load_setting acc es = foldl (\<lambda>out (k, v). map_put k v out) acc es"
    if "\<forall>(k, v) \<in> set es. k \<noteq> [] \<and> TrimSpace k = k \<and> TrimSpace v \<noteq> []" for acc es
    using that by (induction es arbitrary: acc) (auto simp: load_setting_def)
  then have "foldl load_setting [] m = copyMap m"
    using assms(1) by (simp add: settings_ok_def copyMap_def)
  then show ?thesis
    using assms by (simp add: loadSettings_def saveSettings_def copyMap_ascending settings_ok_def)
qed

section \<open>Properties\<close>

text \<open>Pushing settings merges them key by key: keys that are not mentioned keep their value,
  a mentioned key takes the submitted value or disappears when that is blank, nothing with a
  blank key is stored, and the merged settings are read back from the file after a restart.\<close>

theorem push_merges_and_persists:
  assumes "settings_ok m" and "k \<noteq> []" and "p \<noteq> []"
  shows "settings_ok (merge_settings m cfg)
    \<and> map_of (merge_settings m cfg) k =
        (case setting_entry k cfg of
           None \<Rightarrow> map_of m k
         | Some v \<Rightarrow> if TrimSpace v = [] then None else Some v)
    \<and> loadSettings p (saveSettings p True (merge_settings m cfg) file) = merge_settings m cfg"
  using assms merge_settings_ok merge_settings_lookup reload_settings by simp

definition notice_settings :: settings where
  "notice_settings = [(CfgNoPunch, ''1''), (CfgNotice, ''hi'')]"

theorem push_merges_and_persists_witness:
  "map_of (merge_settings notice_settings [('' notice '', ''  ''), (''x'', ''y'')]) CfgNotice = None
   \<and> map_of (merge_settings notice_settings [('' notice '', ''  ''), (''x'', ''y'')]) CfgNoPunch = Some ''1''"
proof -
  let ?cfg = "[('' notice '', ''  ''), (''x'', ''y'')]"
  have ok: "settings_ok notice_settings" by code_simp
  have "CfgNotice \<noteq> []" "CfgNoPunch \<noteq> []" by (simp_all add: CfgNotice_def CfgNoPunch_def)
  note look = push_merges_and_persists [OF ok this(1), where p = "''f''" and cfg = "?cfg"]
    push_merges_and_persists [OF ok this(2), where p = "''f''" and cfg = "?cfg"]
  have "setting_entry CfgNotice ?cfg = Some ''  ''" "setting_entry CfgNoPunch ?cfg = None" "TrimSpace ''  '' = []"
    "map_of notice_settings CfgNoPunch = Some ''1''"
    by code_simp+
  then show ?thesis using look by simp
qed

end
