(* ===== verification/Client.thy ===== *)
theory Client
  imports Conntrack Protocol_Json Credential Packet Udp_Addr Settings IPPool
begin

text \<open>
  The client's state and its loops, \<^verbatim>\<open>internal/client/client.go\<close> and
  \<^verbatim>\<open>push.go\<close>: the peer table and hole punching, one round of each of
  \<^verbatim>\<open>signalingLoop\<close>, \<^verbatim>\<open>udpLoop\<close>, \<^verbatim>\<open>tunLoop\<close> and
  \<^verbatim>\<open>heartbeatLoop\<close>, pushed settings and forwarding rules. What a round writes to the
  server, sends over UDP or hands to the virtual interface is part of its result. The nonces of
  sealed packets and the answers of the name service are arguments.
\<close>

section \<open>State\<close>

record client_config =
  cc_server :: string
  cc_name :: string
  cc_no_punch :: bool
  cc_device_id :: string
  cc_device_key :: string
  cc_network_key :: string
  cc_hwid :: string

record peer_state =
  ps_vip :: u32
  ps_name :: string
  ps_addr :: "udp_addr option"
  ps_cand :: "udp_addr option"
  ps_p2p :: bool

text \<open>\<open>cl_udp\<close> says whether the data socket exists, \<open>cl_saved\<close> lists what was passed to
  \<^verbatim>\<open>OnCredential\<close>.\<close>

record client =
  cl_cfg :: client_config
  cl_crypto :: "crypto option"
  cl_udp :: bool
  cl_srv :: "udp_addr option"
  cl_self :: u32
  cl_nat :: "nat_state option"
  cl_peers :: "(u32 \<times> peer_state) list"
  cl_punching :: "u32 \<Rightarrow> bool"
  cl_no_punch :: bool
  cl_pushed :: settings
  cl_hwid :: string
  cl_lease :: int
  cl_rules :: "string list"
  cl_session_ended :: bool
  cl_closed :: bool
  cl_saved :: "credential list"

definition NewClient :: "client_config \<Rightarrow> client" where
  "NewClient cfg =
     \<lparr>cl_cfg = cfg, cl_crypto = None, cl_udp = False, cl_srv = None, cl_self = 0, cl_nat = None,
      cl_peers = [], cl_punching = (\<lambda>_. False), cl_no_punch = False, cl_pushed = [], cl_hwid = [],
      cl_lease = 0, cl_rules = [], cl_session_ended = False, cl_closed = False, cl_saved = []\<rparr>"

definition new_peer :: "u32 \<Rightarrow> string \<Rightarrow> peer_state" where
  "new_peer vip name = \<lparr>ps_vip = vip, ps_name = name, ps_addr = None, ps_cand = None, ps_p2p = False\<rparr>"

section \<open>Peers\<close>

definition get_peer :: "u32 \<Rightarrow> client \<Rightarrow> peer_state option" where
  "get_peer vip c = map_of (cl_peers c) vip"

definition put_peer :: "u32 \<Rightarrow> peer_state \<Rightarrow> client \<Rightarrow> client" where
  "put_peer vip p c = c\<lparr>cl_peers := AList.update vip p (cl_peers c)\<rparr>"

definition peer_or_new :: "u32 \<Rightarrow> string \<Rightarrow> client \<Rightarrow> peer_state" where
  "peer_or_new vip name c = (case get_peer vip c of Some p \<Rightarrow> p | None \<Rightarrow> new_peer vip name)"

definition ensurePeer :: "u32 \<Rightarrow> string \<Rightarrow> client \<Rightarrow> client" where
  "ensurePeer vip name c =
     (let p = peer_or_new vip name c
      in put_peer vip (if name \<noteq> [] then p\<lparr>ps_name := name\<rparr> else p) c)"

definition setCandidate :: "u32 \<Rightarrow> udp_addr \<Rightarrow> client \<Rightarrow> client" where
  "setCandidate vip a c = put_peer vip ((peer_or_new vip [] c)\<lparr>ps_cand := Some a\<rparr>) c"

definition isP2P :: "u32 \<Rightarrow> client \<Rightarrow> bool" where
  "isP2P vip c \<longleftrightarrow> (case get_peer vip c of None \<Rightarrow> False | Some p \<Rightarrow> ps_p2p p)"

definition setP2P :: "u32 \<Rightarrow> udp_addr \<Rightarrow> client \<Rightarrow> client" where
  "setP2P vip a c = put_peer vip ((peer_or_new vip [] c)\<lparr>ps_addr := Some a, ps_p2p := True\<rparr>) c"

definition forget_peer :: "u32 \<Rightarrow> client \<Rightarrow> client" where
  "forget_peer vip c = c\<lparr>cl_peers := AList.delete vip (cl_peers c), cl_punching := (cl_punching c)(vip := False)\<rparr>"

definition PeerStats :: "client \<Rightarrow> nat \<times> nat" where
  "PeerStats c = (length (filter (\<lambda>(_, p). ps_p2p p) (cl_peers c)), length (cl_peers c))"

section \<open>Hole punching\<close>

text \<open>\<^verbatim>\<open>startPunch\<close>; the first component says whether a goroutine was started.\<close>

definition startPunch :: "u32 \<Rightarrow> client \<Rightarrow> bool \<times> client" where
  "startPunch vip c =
     (if cl_punching c vip then (False, c) else (True, c\<lparr>cl_punching := (cl_punching c)(vip := True)\<rparr>))"

definition punch_tries :: nat where "punch_tries = 20"

text \<open>Round \<open>n\<close> of that goroutine: \<^term>\<open>None\<close> when it ends, else the probe it sends; its end.\<close>

definition punch_round :: "nat \<Rightarrow> u32 \<Rightarrow> byte list \<Rightarrow> client \<Rightarrow> datagram list option" where
  "punch_round n vip nonce c =
     (if n \<ge> punch_tries then None
      else if isP2P vip c then None
      else case Option.bind (get_peer vip c) ps_cand of
             None \<Rightarrow> None
           | Some cand \<Rightarrow>
               Some (case cl_crypto c of
                       None \<Rightarrow> []
                     | Some k \<Rightarrow> (case Encrypt k nonce FlagProbe (cl_self c) vip [] of
                                   Inl _ \<Rightarrow> [] | Inr pkt \<Rightarrow> [(cand, pkt)])))"

definition punch_end :: "u32 \<Rightarrow> client \<Rightarrow> client" where
  "punch_end vip c = c\<lparr>cl_punching := (cl_punching c)(vip := False)\<rparr>"

section \<open>Pushed configuration\<close>

definition applyPushedConfig :: "settings \<Rightarrow> client \<Rightarrow> client" where
  "applyPushedConfig cfg c =
     (let pushed = filter (\<lambda>(k, v). v \<noteq> []) cfg;
          c1 = c\<lparr>cl_pushed := pushed\<rparr>
      in case map_of pushed CfgNoPunch of
           Some v \<Rightarrow> c1\<lparr>cl_no_punch := ParseBool v\<rparr>
         | None \<Rightarrow> c1\<lparr>cl_no_punch := cc_no_punch (cl_cfg c)\<rparr>)"

definition client_PushedConfig :: "client \<Rightarrow> settings" where
  "client_PushedConfig c = cl_pushed c"

definition Notice :: "client \<Rightarrow> string" where
  "Notice c = (case map_of (cl_pushed c) CfgNotice of None \<Rightarrow> [] | Some v \<Rightarrow> v)"

definition LeaseUntil :: "client \<Rightarrow> int" where
  "LeaseUntil c = cl_lease c"

definition SelfVIP :: "client \<Rightarrow> u32" where
  "SelfVIP c = cl_self c"

definition Rules :: "client \<Rightarrow> string list" where
  "Rules c = cl_rules c"

definition setRules :: "string list \<Rightarrow> client \<Rightarrow> client" where
  "setRules raw c =
     (let c1 = c\<lparr>cl_rules := raw\<rparr>
      in case ParseList raw of
           Inl _ \<Rightarrow> c1
         | Inr parsed \<Rightarrow> c1\<lparr>cl_nat := map_option (SetRules parsed) (cl_nat c)\<rparr>)"

section \<open>The signalling loop\<close>

text \<open>\<^verbatim>\<open>net.ResolveUDPAddr\<close> for a numeric port; \<open>lookup\<close> is the name service.\<close>

definition ResolveUDPAddr :: "(string \<Rightarrow> byte list option) \<Rightarrow> string \<Rightarrow> udp_addr option" where
  "ResolveUDPAddr lookup a =
     (case SplitHostPort a of
        Inl _ \<Rightarrow> None
      | Inr (host, port) \<Rightarrow>
          (case Atoi port of
             None \<Rightarrow> None
           | Some n \<Rightarrow>
               if n < 0 \<or> n > 65535 then None
               else if host = [] then Some \<lparr>u_ip = [], u_port = n, u_zone = []\<rparr>
               else case (case ParseIP host of Some ip \<Rightarrow> Some ip | None \<Rightarrow> lookup host) of
                      None \<Rightarrow> None
                    | Some ip \<Rightarrow> Some \<lparr>u_ip = ip, u_port = n, u_zone = []\<rparr>))"

definition hole_request :: "u32 \<Rightarrow> message" where
  "hole_request vip = (msg_of MsgHoleRequest)\<lparr>m_peer_vip := vip\<rparr>"

text \<open>What a round of the loop causes besides the new state.\<close>

datatype client_action =
  WriteServer message | StartPunch u32 | RetryHole u32

fun peers_announced :: "peer list \<Rightarrow> client \<Rightarrow> client_action list \<times> client" where
  "peers_announced [] c = ([], c)"
| "peers_announced (p # ps) c =
     (let c1 = ensurePeer (p_vip p) (p_name p) c;
          (acts, c2) = peers_announced ps c1
      in ((if \<not> cl_no_punch c1 then [WriteServer (hole_request (p_vip p))] else []) @ acts, c2))"

fun punch_candidates :: "(string \<Rightarrow> byte list option) \<Rightarrow> u32 \<Rightarrow> addr list \<Rightarrow> client \<Rightarrow> client_action list \<times> client" where
  "punch_candidates lookup vip [] c = ([], c)"
| "punch_candidates lookup vip (a # as) c =
     (case ResolveUDPAddr lookup (JoinHostPort (a_ip a) (int_string (a_port a))) of
        None \<Rightarrow> punch_candidates lookup vip as c
      | Some ua \<Rightarrow>
          let (started, c1) = startPunch vip (setCandidate vip ua c);
              (acts, c2) = punch_candidates lookup vip as c1
          in ((if started then [StartPunch vip] else []) @ acts, c2))"

definition signal_round :: "(string \<Rightarrow> byte list option) \<Rightarrow> message \<Rightarrow> client \<Rightarrow> client_action list \<times> client" where
  "signal_round lookup m c =
     (if m_type m = MsgPeerList then peers_announced (m_peers m) c
      else if m_type m = MsgPeerOnline then peers_announced (m_peers m) c
      else if m_type m = MsgPeerOffline then ([], forget_peer (m_peer_vip m) c)
      else if m_type m = MsgConfigPush then ([], applyPushedConfig (m_config m) c)
      else if m_type m = MsgForwardPush then ([], setRules (m_rules m) c)
      else if m_type m = MsgHeartbeat then ([], c)
      else if m_type m = MsgHoleNotify then
        (if cl_no_punch c then ([], c) else punch_candidates lookup (m_peer_vip m) (m_addrs m) c)
      else if m_type m = MsgError then
        (if m_peer_vip m \<noteq> 0 \<and> \<not> cl_no_punch c \<and> Contains (m_error m) ''not ready''
         then ([RetryHole (m_peer_vip m)], c) else ([], c))
      else ([], c))"

text \<open>Half a second after \<^const>\<open>RetryHole\<close>; a tick of the heartbeat; the end of a loop.\<close>

definition retry_hole :: "u32 \<Rightarrow> client \<Rightarrow> client_action list" where
  "retry_hole vip c = (if get_peer vip c \<noteq> None then [WriteServer (hole_request vip)] else [])"

definition heartbeat :: "client \<Rightarrow> client_action list" where
  "heartbeat c = (if cl_session_ended c then [] else [WriteServer (msg_of MsgHeartbeat)])"

definition endSession :: "client \<Rightarrow> client" where
  "endSession c = c\<lparr>cl_session_ended := True\<rparr>"

section \<open>The data loops\<close>

text \<open>\<^verbatim>\<open>net.IPNet.Contains\<close> for the virtual network.\<close>

definition vnet_contains :: "u32 \<Rightarrow> bool" where
  "vnet_contains ip = (case ParseCIDR4 VNetCIDR of None \<Rightarrow> False | Some (net, m) \<Rightarrow> ip AND m = net)"

definition sendEnc :: "byte list \<Rightarrow> u32 \<Rightarrow> client \<Rightarrow> datagram list" where
  "sendEnc enc dst c =
     (if \<not> cl_udp c then []
      else case cl_srv c of
             None \<Rightarrow> []
           | Some srv \<Rightarrow>
               (case Option.bind (get_peer dst c) (\<lambda>p. if ps_p2p p then ps_addr p else None) of
                  Some a \<Rightarrow> [(a, enc)]
                | None \<Rightarrow> [(srv, enc)]))"

text \<open>One packet read from the virtual interface; \<^term>\<open>None\<close> is a panic.\<close>

definition tun_round :: "byte list \<Rightarrow> byte list \<Rightarrow> gotime \<Rightarrow> client \<Rightarrow> (datagram list \<times> client) option" where
  "tun_round frame nonce now c =
     (let pkt = take 2048 frame
      in if length pkt < 20 \<or> drop_bit 4 (pkt ! 0) \<noteq> 4 then Some ([], c)
         else do {
           d \<leftarrow> go_slice pkt 16 20;
           let dst = be32 d;
           if \<not> vnet_contains dst then Some ([], c)
           else do {
             (nat, pkt) \<leftarrow> (case cl_nat c of
                None \<Rightarrow> Some (None, pkt)
              | Some n \<Rightarrow> map_option (\<lambda>(_, n', b). (Some n', b)) (SNAT n pkt now));
             let c1 = c\<lparr>cl_nat := nat\<rparr>;
             k \<leftarrow> cl_crypto c;
             case Encrypt k nonce FlagData (cl_self c) dst pkt of
               Inl _ \<Rightarrow> Some ([], c1)
             | Inr enc \<Rightarrow> Some (sendEnc enc dst c1, c1)
           }
         })"

text \<open>One datagram from the network: the datagrams sent and the packets written to the interface.\<close>

definition deliver :: "byte list \<Rightarrow> u32 \<Rightarrow> gotime \<Rightarrow> client \<Rightarrow> (byte list list \<times> client) option" where
  "deliver data dst now c =
     (if dst = cl_self c then
        (case cl_nat c of
           None \<Rightarrow> Some ([data], c)
         | Some n \<Rightarrow> map_option (\<lambda>(_, n', b). ([b], c\<lparr>cl_nat := Some n'\<rparr>)) (DNAT n data now))
      else if dst = VNetBroadcast then
        map_option (\<lambda>(ok, b). (if ok then [b] else [], c)) (rewriteDstToSelf data (cl_self c))
      else Some ([], c))"

definition udp_round :: "udp_addr \<Rightarrow> byte list \<Rightarrow> byte list \<Rightarrow> gotime \<Rightarrow> client
    \<Rightarrow> (datagram list \<times> byte list list \<times> client) option" where
  "udp_round from dg nonce now c = do {
     k \<leftarrow> cl_crypto c;
     case Decrypt k (take MaxPacket dg) of
       Inl _ \<Rightarrow> Some ([], [], c)
     | Inr pkt \<Rightarrow>
         let isRelay = sameUDPAddr (Some from) (cl_srv c);
             kind = pk_flags pkt AND 0xF0;
             direct = (pk_source pkt \<noteq> cl_self c \<and> \<not> isRelay);
             c1 = (if direct then setP2P (pk_source pkt) from c else c)
         in if kind = FlagProbe then
              Some (if direct then
                      (case Encrypt k nonce FlagReply (cl_self c) (pk_source pkt) [] of
                         Inl _ \<Rightarrow> ([], [], c1)
                       | Inr rep \<Rightarrow> ([(from, rep)], [], c1))
                    else ([], [], c))
            else if kind = FlagReply then Some ([], [], c1)
            else if kind = FlagData then
              (if pk_source pkt = cl_self c then Some ([], [], c)
               else map_option (\<lambda>(out, c2). ([], out, c2)) (deliver (pk_data pkt) (pk_dest pkt) now c1))
            else Some ([], [], c)
   }"

definition sendProbeToServer :: "byte list \<Rightarrow> client \<Rightarrow> datagram list option" where
  "sendProbeToServer nonce c = do {
     k \<leftarrow> cl_crypto c;
     srv \<leftarrow> cl_srv c;
     case Encrypt k nonce FlagProbe (cl_self c) 0 [] of Inl _ \<Rightarrow> None | Inr pkt \<Rightarrow> Some [(srv, pkt)]
   }"

end
