(* ===== verification/Client_Session.thy ===== *)
theory Client_Session
  imports Client
begin

text \<open>
  The client's sessions, \<^verbatim>\<open>connectOnce\<close>, \<^verbatim>\<open>Run\<close> and
  \<^verbatim>\<open>Close\<close> of \<^verbatim>\<open>internal/client/client.go\<close>: one attempt to connect is a
  function of what its environment answers (the bytes the server sends, the name service, the
  success of the system calls), and a round of \<^verbatim>\<open>Run\<close> turns its result into the
  decision to stop, to wait and retry, or to serve.
\<close>

section \<open>One attempt to connect\<close>

record connect_env =
  e_dial :: bool
  e_input :: "byte list"
  e_written :: bool
  e_listen :: bool
  e_lookup_host :: "string \<Rightarrow> string list"
  e_lookup_ip :: "string \<Rightarrow> byte list option"
  e_tun :: bool
  e_configure :: "string \<Rightarrow> bool"
  e_rules_asked :: bool
  e_probe_nonce :: "byte list"
  e_probe_sent :: bool

datatype connect_error =
  DialFailed | ReadFailed read_error | NoChallenge | WriteFailed
| RegisterRefused string
| BadCredential cred_error | BadKeyFormat | BadKeyLength
| Reconnect
| NameTaken | CredentialRevoked | HelloRefused string
| ListenFailed | BadServerAddr addr_error | LookupFailed | ResolveFailed
| TunFailed | ConfigureFailed | ProbeFailed

text \<open>What an attempt sends: messages on the connection, then the probe.\<close>

record connect_out =
  o_messages :: "message list"
  o_datagrams :: "datagram list"

definition no_output :: connect_out where
  "no_output = \<lparr>o_messages = [], o_datagrams = []\<rparr>"

definition server_address :: "string \<Rightarrow> string" where
  "server_address srv = (if Contains srv '':'' then srv else JoinHostPort srv ''9000'')"

definition load_crypto :: "string \<Rightarrow> string \<Rightarrow> connect_error + crypto" where
  "load_crypto device_key network_key =
     (case ParseKey device_key of
        None \<Rightarrow> Inl BadKeyFormat
      | Some dk \<Rightarrow>
          (case ParseKey network_key of
             None \<Rightarrow> Inl BadKeyFormat
           | Some nk \<Rightarrow>
               (case NewCryptoWithKeys nk (DeviceAuthKey dk) of
                  None \<Rightarrow> Inl BadKeyLength
                | Some k \<Rightarrow> Inr k)))"

definition register_request :: "client \<Rightarrow> byte list \<Rightarrow> message" where
  "register_request c challenge =
     (msg_of MsgRegister)\<lparr>m_device_name := cc_name (cl_cfg c), m_hwid := cl_hwid c,
       m_auth := AuthTagFor (RegisterAuthKey (cl_hwid c)) challenge\<rparr>"

text \<open>The answer to a registration; an accepted one ends the attempt with \<^const>\<open>Reconnect\<close>.\<close>

definition got_register_reply :: "message \<Rightarrow> client \<Rightarrow> connect_error \<times> client" where
  "got_register_reply m c =
     (if m_type m \<noteq> MsgRegisterOK then (RegisterRefused (m_error m), c)
      else case DecryptCredential (cl_hwid c) (m_blob m) of
             Inl e \<Rightarrow> (BadCredential e, c)
           | Inr cred \<Rightarrow>
               (case ParseKey (cr_device_key cred) of
                  None \<Rightarrow> (BadKeyFormat, c)
                | Some dk \<Rightarrow>
                    (case ParseKey (cr_network_key cred) of
                       None \<Rightarrow> (BadKeyFormat, c)
                     | Some nk \<Rightarrow>
                         let c1 = c\<lparr>cl_cfg := (cl_cfg c)\<lparr>cc_device_id := cr_device_id cred,
                               cc_device_key := cr_device_key cred, cc_network_key := cr_network_key cred\<rparr>\<rparr>
                         in (case NewCryptoWithKeys nk (DeviceAuthKey dk) of
                               None \<Rightarrow> (BadKeyLength, c1\<lparr>cl_crypto := None\<rparr>)
                             | Some k \<Rightarrow> (Reconnect, c1\<lparr>cl_crypto := Some k, cl_saved := cl_saved c1 @ [cred]\<rparr>)))))"

definition hello_request :: "client \<Rightarrow> crypto \<Rightarrow> byte list \<Rightarrow> message" where
  "hello_request c k challenge =
     (msg_of MsgHello)\<lparr>m_device_name := cc_name (cl_cfg c), m_hwid := cl_hwid c,
       m_device_id := cc_device_id (cl_cfg c), m_auth := AuthTag k challenge\<rparr>"

definition got_hello_reply :: "message \<Rightarrow> client \<Rightarrow> (connect_error + unit) \<times> client" where
  "got_hello_reply m c =
     (if m_type m \<noteq> MsgWelcome then
        (if m_error m = ErrNameTakenMsg then (Inl NameTaken, c)
         else if m_error m = ErrAuthFailedMsg then
           (Inl CredentialRevoked,
            c\<lparr>cl_cfg := (cl_cfg c)\<lparr>cc_device_id := [], cc_device_key := [], cc_network_key := []\<rparr>,
              cl_crypto := None\<rparr>)
         else (Inl (HelloRefused (m_error m)), c))
      else (Inr (), c\<lparr>cl_self := m_vip m,
                      cl_lease := (if m_lease_until m < 0 then 0 else m_lease_until m)\<rparr>))"

text \<open>Sockets and the virtual interface, after the welcome.\<close>

definition open_data_path :: "connect_env \<Rightarrow> client \<Rightarrow> (connect_error + unit) \<times> connect_out \<times> client" where
  "open_data_path env c =
     (if \<not> e_listen env then (Inl ListenFailed, no_output, c)
      else let c1 = c\<lparr>cl_udp := True\<rparr>
      in case SplitHostPort (server_address (cc_server (cl_cfg c))) of
           Inl e \<Rightarrow> (Inl (BadServerAddr e), no_output, c1)
         | Inr (host, port) \<Rightarrow>
             (case e_lookup_host env host of
                [] \<Rightarrow> (Inl LookupFailed, no_output, c1)
              | ip # _ \<Rightarrow>
                  (case ResolveUDPAddr (e_lookup_ip env) (JoinHostPort ip port) of
                     None \<Rightarrow> (Inl ResolveFailed, no_output, c1)
                   | Some srv \<Rightarrow>
                       let c2 = c1\<lparr>cl_srv := Some srv\<rparr>
                       in if \<not> e_tun env then (Inl TunFailed, no_output, c2)
                          else if \<not> e_configure env (IP4String (cl_self c)) then (Inl ConfigureFailed, no_output, c2)
                          else let c3 = c2\<lparr>cl_nat := Some (NewNat (cl_self c) [])\<rparr>
                          in if \<not> e_rules_asked env then (Inl WriteFailed, no_output, c3)
                             else case sendProbeToServer (e_probe_nonce env) c3 of
                                    None \<Rightarrow> (Inl ProbeFailed, \<lparr>o_messages = [msg_of MsgForwardGet], o_datagrams = []\<rparr>, c3)
                                  | Some ds \<Rightarrow>
                                      if \<not> e_probe_sent env
                                      then (Inl ProbeFailed, \<lparr>o_messages = [msg_of MsgForwardGet], o_datagrams = []\<rparr>, c3)
                                      else (Inr (), \<lparr>o_messages = [msg_of MsgForwardGet], o_datagrams = ds\<rparr>, c3))))"

definition prepend_message :: "message \<Rightarrow> connect_out \<Rightarrow> connect_out" where
  "prepend_message m out = out\<lparr>o_messages := m # o_messages out\<rparr>"

text \<open>
  \<^verbatim>\<open>connectOnce\<close>: \<^term>\<open>None\<close> is the panic of a missing \<^verbatim>\<open>crypto\<close>.
\<close>

definition connectOnce :: "connect_env \<Rightarrow> client \<Rightarrow> ((connect_error + unit) \<times> connect_out \<times> client) option" where
  "connectOnce env c =
     (if \<not> e_dial env then Some (Inl DialFailed, no_output, c)
      else case ReadMsg (e_input env) of
             Inl e \<Rightarrow> Some (Inl (ReadFailed e), no_output, c)
           | Inr (m, rest) \<Rightarrow>
               if m_type m \<noteq> MsgChallenge \<or> m_nonce m = [] then Some (Inl NoChallenge, no_output, c)
               else if cc_device_key (cl_cfg c) = [] then
                 Some (if \<not> e_written env then (Inl WriteFailed, no_output, c)
                       else let out = \<lparr>o_messages = [register_request c (m_nonce m)], o_datagrams = []\<rparr>
                       in case ReadMsg rest of
                            Inl e \<Rightarrow> (Inl (ReadFailed e), out, c)
                          | Inr (m2, _) \<Rightarrow> (let (e, c1) = got_register_reply m2 c in (Inl e, out, c1)))
               else case cl_crypto c of
                      None \<Rightarrow> None
                    | Some k \<Rightarrow>
                        Some (if \<not> e_written env then (Inl WriteFailed, no_output, c)
                              else let hello = hello_request c k (m_nonce m);
                                       out = \<lparr>o_messages = [hello], o_datagrams = []\<rparr>
                              in case ReadMsg rest of
                                   Inl e \<Rightarrow> (Inl (ReadFailed e), out, c)
                                 | Inr (m2, _) \<Rightarrow>
                                     (case got_hello_reply m2 c of
                                        (Inl e, c1) \<Rightarrow> (Inl e, out, c1)
                                      | (Inr _, c1) \<Rightarrow>
                                          (let (r, out2, c2) = open_data_path env c1
                                           in (r, prepend_message hello out2, c2)))))"

section \<open>Running\<close>

text \<open>Before the first attempt; \<open>hwid\<close> is the device identifier of the machine, if it has one.\<close>

datatype run_error = MissingField | BadKeys connect_error | NoHWID | Fatal connect_error

definition run_start :: "string option \<Rightarrow> client \<Rightarrow> run_error + client" where
  "run_start hwid c =
     (if cc_server (cl_cfg c) = [] \<or> cc_name (cl_cfg c) = [] then Inl MissingField
      else case (if cc_device_key (cl_cfg c) = [] then Inr (cl_crypto c)
                 else case load_crypto (cc_device_key (cl_cfg c)) (cc_network_key (cl_cfg c)) of
                        Inl e \<Rightarrow> Inl e | Inr k \<Rightarrow> Inr (Some k)) of
             Inl e \<Rightarrow> Inl (BadKeys e)
           | Inr k \<Rightarrow>
               (case (if cc_hwid (cl_cfg c) \<noteq> [] then Some (cc_hwid (cl_cfg c)) else hwid) of
                  None \<Rightarrow> Inl NoHWID
                | Some h \<Rightarrow>
                    Inr (c\<lparr>cl_crypto := k, cl_hwid := h, cl_peers := [], cl_punching := (\<lambda>_. False),
                           cl_closed := False, cl_no_punch := cc_no_punch (cl_cfg c), cl_pushed := []\<rparr>)))"

definition Millisecond :: int where "Millisecond = 1000000"

datatype run_decision = Stop connect_error | RetryAfter int | Serve

definition fatal_error :: "connect_error \<Rightarrow> bool" where
  "fatal_error e \<longleftrightarrow> (case e of NameTaken \<Rightarrow> True | RegisterRefused _ \<Rightarrow> True | _ \<Rightarrow> False)"

definition teardown :: "client \<Rightarrow> client" where
  "teardown c = c\<lparr>cl_nat := map_option nat_Close (cl_nat c)\<rparr>"

definition run_round :: "connect_env \<Rightarrow> client \<Rightarrow> (run_decision \<times> connect_out \<times> client) option" where
  "run_round env c0 =
     map_option (\<lambda>(r, out, c).
         case r of
           Inr _ \<Rightarrow> (Serve, out, c)
         | Inl e \<Rightarrow> if e = Reconnect then (RetryAfter (200 * Millisecond), out, teardown c)
                    else if fatal_error e then (Stop e, out, c)
                    else (RetryAfter (2 * Second), out, teardown c))
       (connectOnce env (c0\<lparr>cl_session_ended := False\<rparr>))"

definition client_Close :: "client \<Rightarrow> client" where
  "client_Close c = teardown (endSession (c\<lparr>cl_closed := True\<rparr>))"

end
