(* ===== verification/Wire_Size.thy ===== *)
theory Wire_Size
  imports Protocol_Json Credential Packet
begin

text \<open>
  Bounds on the size of encoded text, credentials and messages: the messages the two ends
  exchange while a client registers and is admitted stay below the limit of
  \<^verbatim>\<open>ReadMsg\<close>.
\<close>

section \<open>Text\<close>

lemma length_escape_rune: "r \<noteq> [] \<Longrightarrow> length (escape_rune r) \<le> 6 * length r"
  by (cases r rule: remdups_adj.cases) (simp_all add: escape_rune_def hex4_def)

lemma length_escape_string: "length (escape_string s) \<le> 6 * length s"
proof (induction s rule: escape_string.induct)
  case (1 s)
  consider "s = []" | "s \<noteq> []" "rune_len s = 0" | "s \<noteq> []" "rune_len s \<noteq> 0" by blast
  then show ?case
  proof cases
    case 2
    then show ?thesis using 1(1) by (subst escape_string.simps) (cases s; simp)
  next
    case 3
    have "length (escape_rune (take (rune_len s) s)) \<le> 6 * rune_len s"
      using length_escape_rune [of "take (rune_len s) s"] 3 rune_len_le [of s] by (simp add: min_absorb2)
    then show ?thesis using 1(2) [OF 3] 3 rune_len_le [of s] by (subst escape_string.simps) simp
  qed (simp add: escape_string.simps)
qed

lemma length_quote: "length (quote s) \<le> 6 * length s + 2"
  using length_escape_string [of s] by (simp add: quote_def)

lemma length_b64_encode: "length (b64_encode bs) \<le> 2 * length bs + 4"
  by (induction bs rule: b64_encode.induct) simp_all

lemma length_b32_groups: "length (b32_groups n bits) \<le> n"
  by (induction n bits rule: b32_groups.induct) simp_all

lemma length_base32: "length (base32 bs) \<le> 2 * length bs"
  by (simp add: base32_def length_b32_groups)

lemma length_dec: "n < 10 ^ k \<Longrightarrow> 0 < k \<Longrightarrow> length (dec n) \<le> k"
proof (induction k arbitrary: n)
  case (Suc k)
  show ?case
  proof (cases "n < 10")
    case False
    moreover from this have "k \<noteq> 0" using Suc.prems by (cases k) auto
    ultimately show ?thesis using Suc by (subst dec.simps) (auto simp: less_mult_imp_div_less)
  qed (simp add: dec.simps)
qed simp

lemma length_dec_byte: "length (dec (unat (b :: byte))) \<le> 3"
  using length_dec [of "unat b" 3] unat_byte_less [of b] by simp

lemma length_dec_u32: "length (dec (unat (v :: u32))) \<le> 10"
  using length_dec [of "unat v" 10] unsigned_less [of v, where 'a = nat] by simp

lemma length_fmt_int: "int64_ok i \<Longrightarrow> length (fmt_int i) \<le> 20"
proof -
  assume "int64_ok i"
  then have "nat i < 10 ^ 19" "nat (- i) < 10 ^ 19" by (auto simp: int64_ok_def)
  then have "length (dec (nat i)) \<le> 19" "length (dec (nat (- i))) \<le> 19" by (auto intro: length_dec)
  then show ?thesis by (simp add: fmt_int_def)
qed

section \<open>Credentials\<close>

lemma length_EncryptCredential:
  assumes "length n = NonceLen"
  shows "length (EncryptCredential n h \<lparr>cr_device_id = did, cr_device_key = key, cr_network_key = net\<rparr>)
    \<le> 6 * (length did + length key + length net) + 300"
proof -
  have q: "length (quote k) \<le> 6 * length k + 2" for k by (rule length_quote)
  have "length (print_json (cred_to_json \<lparr>cr_device_id = did, cr_device_key = key, cr_network_key = net\<rparr>))
      \<le> 6 * (length did + length key + length net) + 250"
    using q [of "''deviceId''"] q [of "''deviceKey''"] q [of "''networkKey''"] q [of did] q [of key] q [of net]
    by (simp add: cred_to_json_def)
  then show ?thesis
    using assms by (simp add: EncryptCredential_def gcm.length_seal gcm_overhead_def NonceLen_def str_bytes_def)
qed

section \<open>Messages\<close>

lemma length_tagged_bytes:
  "length (print_json (JObj [(k1, to_js_uint (t :: byte)), (k2, to_js_bytes b)]))
   \<le> 6 * (length k1 + length k2) + 12 * length b + 50"
proof -
  have "length (quote (b64_encode b)) \<le> 6 * length (b64_encode b) + 2" by (rule length_quote)
  also have "\<dots> \<le> 12 * length b + 26" using length_b64_encode [of b] by simp
  finally have "length (quote (b64_encode b)) \<le> 12 * length b + 26" .
  moreover have "length (quote k1) \<le> 6 * length k1 + 2" "length (quote k2) \<le> 6 * length k2 + 2"
    by (rule length_quote)+
  moreover have "length (dec (unat t)) \<le> 3" by (rule length_dec_byte)
  ultimately have "length (quote k1) + length (quote k2) + length (quote (b64_encode b)) + length (dec (unat t)) + 10
      \<le> 6 * (length k1 + length k2) + 12 * length b + 50"
    by (simp add: algebra_simps)
  then show ?thesis by (simp add: to_js_bytes_def to_js_uint_def)
qed

definition bytes_message :: "byte \<Rightarrow> string \<Rightarrow> byte list \<Rightarrow> message \<Rightarrow> bool" where
  "bytes_message t k b m \<longleftrightarrow> message_ok m \<and> to_json m = JObj [(''t'', to_js_uint t), (k, to_js_bytes b)]"

lemma frame_ok_bytes_message:
  assumes "bytes_message t k b m" and "length k \<le> 10" "length b \<le> 40000"
  shows "frame_ok m"
proof -
  have "length (marshal m) \<le> 6 * (length ''t'' + length k) + 12 * length b + 50"
    using assms(1) length_tagged_bytes [of "''t''" t k b] by (simp add: marshal_def str_bytes_def bytes_message_def)
  then show ?thesis using assms by (simp add: frame_ok_def bytes_message_def)
qed

lemma bytes_messages:
  "b \<noteq> [] \<Longrightarrow> bytes_message t ''blob'' b ((msg_of t)\<lparr>m_blob := b\<rparr>)"
  "b \<noteq> [] \<Longrightarrow> bytes_message t ''nonce'' b ((msg_of t)\<lparr>m_nonce := b\<rparr>)"
  by (simp_all add: bytes_message_def to_json_def msg_of_def omitempty_def message_ok_def int64_ok_def)

lemma frame_ok_welcome:
  assumes "int64_ok l" shows "frame_ok ((msg_of MsgWelcome)\<lparr>m_vip := v, m_lease_until := l\<rparr>)"
proof -
  let ?m = "(msg_of MsgWelcome)\<lparr>m_vip := v, m_lease_until := l\<rparr>"
  have "to_json ?m = JObj ((''t'', to_js_uint MsgWelcome) # omitempty 0 ''vip'' to_js_uint v
      @ omitempty 0 ''leaseUntil'' to_js_int l)"
    by (simp add: to_json_def msg_of_def omitempty_def)
  moreover have "length (quote ''t'') \<le> 8" "length (quote ''vip'') \<le> 20" "length (quote ''leaseUntil'') \<le> 62"
    using length_quote [of "''t''"] length_quote [of "''vip''"] length_quote [of "''leaseUntil''"] by simp_all
  moreover note length_dec_byte [of MsgWelcome] length_dec_u32 [of v] length_fmt_int [OF assms]
  ultimately have "length (print_json (to_json ?m)) \<le> 2 ^ 20"
    by (simp add: omitempty_def to_js_uint_def to_js_int_def)
  moreover have "message_ok ?m" using assms by (simp add: message_ok_def msg_of_def)
  ultimately show ?thesis by (simp add: frame_ok_def marshal_def str_bytes_def)
qed

end
