(* ===== verification/Client_Run.thy ===== *)
theory Client_Run
  imports Client_Session Wire_Size
begin

text \<open>
  What holds in every state a client reaches between the start of \<^verbatim>\<open>Run\<close> and its end:
  the loops do not panic, and the addresses used for direct connections were proven by packets.
\<close>

section \<open>Runs\<close>

text \<open>The direct sources of a datagram: who it shows to be reachable at the address it came from.\<close>

definition data_kinds :: "byte set" where
  "data_kinds = {FlagProbe, FlagReply, FlagData}"

definition proves :: "client \<Rightarrow> udp_addr \<Rightarrow> byte list \<Rightarrow> (u32 \<times> udp_addr) set" where
  "proves c from dg =
     {(v, a). a = from \<and> v \<noteq> cl_self c \<and> \<not> sameUDPAddr (Some from) (cl_srv c)
        \<and> (\<exists>k pkt. cl_crypto c = Some k \<and> Decrypt k (take MaxPacket dg) = Inr pkt
             \<and> pk_source pkt = v \<and> pk_flags pkt AND 0xF0 \<in> data_kinds)}"

text \<open>The second argument collects what the datagrams received so far have proven.\<close>

inductive client_run :: "client_config \<Rightarrow> (u32 \<times> udp_addr) set \<Rightarrow> client \<Rightarrow> bool" for cfg where
  begin_run: "run_start hwid (NewClient cfg) = Inr c \<Longrightarrow> client_run cfg {} c"
| attempt: "client_run cfg H c \<Longrightarrow> run_round env c = Some (dc, out, c') \<Longrightarrow> client_run cfg H c'"
| signal: "client_run cfg H c \<Longrightarrow> signal_round lookup m c = (acts, c') \<Longrightarrow> client_run cfg H c'"
| datagram: "client_run cfg H c \<Longrightarrow> udp_round a dg nonce now c = Some (out, wr, c') \<Longrightarrow>
    client_run cfg (H \<union> proves c a dg) c'"
| frame: "client_run cfg H c \<Longrightarrow> tun_round fr nonce now c = Some (out, c') \<Longrightarrow> client_run cfg H c'"
| punched: "client_run cfg H c \<Longrightarrow> client_run cfg H (punch_end vip c)"
| tick: "client_run cfg H c \<Longrightarrow> cl_nat c = Some n \<Longrightarrow> client_run cfg H (c\<lparr>cl_nat := Some (clean now n)\<rparr>)"
| ended: "client_run cfg H c \<Longrightarrow> client_run cfg H (endSession c)"
| closed: "client_run cfg H c \<Longrightarrow> client_run cfg H (client_Close c)"

section \<open>The invariant\<close>

definition proven_peers :: "(u32 \<times> udp_addr) set \<Rightarrow> client \<Rightarrow> bool" where
  "proven_peers H c \<longleftrightarrow>
     (\<forall>v p a. get_peer v c = Some p \<longrightarrow> ps_p2p p \<longrightarrow> ps_addr p = Some a \<longrightarrow> (v, a) \<in> H)"

definition client_ok :: "(u32 \<times> udp_addr) set \<Rightarrow> client \<Rightarrow> bool" where
  "client_ok H c \<longleftrightarrow> (cc_device_key (cl_cfg c) \<noteq> [] \<longrightarrow> cl_crypto c \<noteq> None) \<and> proven_peers H c"

text \<open>An operation that touches neither the peers nor the keys.\<close>

definition keeps :: "client \<Rightarrow> client \<Rightarrow> bool" where
  "keeps c c' \<longleftrightarrow> cl_cfg c' = cl_cfg c \<and> cl_crypto c' = cl_crypto c \<and> cl_peers c' = cl_peers c"

lemma keeps_ok: "keeps c c' \<Longrightarrow> client_ok H c \<Longrightarrow> client_ok H c'"
  by (simp add: keeps_def client_ok_def proven_peers_def get_peer_def)

lemma client_ok_mono: "client_ok H c \<Longrightarrow> H \<subseteq> H' \<Longrightarrow> client_ok H' c"
  by (auto simp: client_ok_def proven_peers_def)

lemma get_put_peer [simp]: "get_peer v (put_peer w p c) = (if v = w then Some p else get_peer v c)"
  by (simp add: get_peer_def put_peer_def update_conv')

lemma put_peer_fields [simp]:
  "cl_cfg (put_peer v p c) = cl_cfg c" "cl_crypto (put_peer v p c) = cl_crypto c"
  "cl_self (put_peer v p c) = cl_self c" "cl_nat (put_peer v p c) = cl_nat c"
  "cl_srv (put_peer v p c) = cl_srv c" "cl_no_punch (put_peer v p c) = cl_no_punch c"
  by (simp_all add: put_peer_def)

text \<open>Storing a peer whose direct address is the old one or a proven one.\<close>

lemma put_peer_ok:
  assumes "client_ok H c"
    and "\<And>a. ps_p2p p \<Longrightarrow> ps_addr p = Some a \<Longrightarrow> (v, a) \<in> H \<or>
           (\<exists>q. get_peer v c = Some q \<and> ps_p2p q \<and> ps_addr q = Some a)"
  shows "client_ok H (put_peer v p c)"
  using assms unfolding client_ok_def proven_peers_def by (fastforce split: if_splits)

lemma ensurePeer_ok: "client_ok H c \<Longrightarrow> client_ok H (ensurePeer v name c)"
  unfolding ensurePeer_def Let_def
  by (rule put_peer_ok) (auto simp: peer_or_new_def new_peer_def split: option.splits if_splits)

lemma setCandidate_ok: "client_ok H c \<Longrightarrow> client_ok H (setCandidate v a c)"
  unfolding setCandidate_def
  by (rule put_peer_ok) (auto simp: peer_or_new_def new_peer_def split: option.splits if_splits)

lemma setP2P_ok: "client_ok H c \<Longrightarrow> (v, a) \<in> H \<Longrightarrow> client_ok H (setP2P v a c)"
  unfolding setP2P_def by (rule put_peer_ok) auto

lemma forget_peer_ok: "client_ok H c \<Longrightarrow> client_ok H (forget_peer v c)"
  by (auto simp: client_ok_def proven_peers_def get_peer_def forget_peer_def delete_conv' split: if_splits)

lemma peers_announced_ok: "client_ok H c \<Longrightarrow> client_ok H (snd (peers_announced ps c))"
  by (induction ps arbitrary: c) (simp_all add: Let_def ensurePeer_ok split: prod.splits, metis ensurePeer_ok snd_conv)

lemma startPunch_keeps: "keeps c (snd (startPunch v c))"
  by (simp add: startPunch_def keeps_def)

lemma punch_candidates_ok: "client_ok H c \<Longrightarrow> client_ok H (snd (punch_candidates lookup v as c))"
proof (induction as arbitrary: c)
  case (Cons a as)
  have "client_ok H (snd (startPunch v (setCandidate v ua c)))" for ua
    using keeps_ok [OF startPunch_keeps] setCandidate_ok [OF Cons.prems] by blast
  then show ?case using Cons by (auto simp: Let_def split: option.splits prod.splits) (metis snd_conv)+
qed simp

lemma setRules_keeps: "keeps c (setRules raw c)"
  by (simp add: setRules_def Let_def keeps_def split: sum.splits)

lemma applyPushedConfig_keeps: "keeps c (applyPushedConfig cfg c)"
  by (simp add: applyPushedConfig_def Let_def keeps_def split: option.splits)

lemma signal_round_ok: "client_ok H c \<Longrightarrow> client_ok H (snd (signal_round lookup m c))"
  by (simp add: signal_round_def peers_announced_ok forget_peer_ok punch_candidates_ok
      keeps_ok [OF setRules_keeps] keeps_ok [OF applyPushedConfig_keeps])

section \<open>The data loops do not panic\<close>

lemma SNAT_total: "\<exists>hit n' b. SNAT n buf now = Some (hit, n', b)"
proof (cases buf rule: parseIPv4_cases)
  case bad
  then show ?thesis using SNAT_not_ip by blast
next
  case (pkt p)
  then show ?thesis
    using SNAT_miss [OF pkt(2), of n now] SNAT_hit [OF pkt(2), of n _ now] by (cases "snat_port n buf p") blast+
qed

lemma DNAT_total: "\<exists>hit n' b. DNAT n buf now = Some (hit, n', b)"
proof (cases buf rule: parseIPv4_cases)
  case bad
  then show ?thesis using DNAT_not_ip by blast
next
  case (pkt p)
  then show ?thesis
    using DNAT_miss [OF pkt(2), of n now] DNAT_hit [OF pkt(2), of n _ now] by (cases "dnat_rule n buf p") blast+
qed

lemma rewriteChecksums_total:
  assumes "pkt_wf buf p" shows "\<exists>b. rewriteChecksums buf = Some b"
proof -
  have l: "20 \<le> ip_ihl p" "ip_ihl p \<le> ip_len p" "ip_len p \<le> length buf" "parseIPv4 buf = Some (Some p)"
    using assms by (auto simp: pkt_wf_def)
  let ?b = "header_fixed buf p"
  have lb: "length ?b = length buf" using header_fixed(3) [OF assms(1)] by (simp add: changed_only_def)
  have w: "go_write buf 10 [0, 0] = Some (splice buf 10 [0, 0])"
    "go_slice (splice buf 10 [0, 0]) 0 (ip_ihl p) = Some (take (ip_ihl p) (splice buf 10 [0, 0]))"
    "go_write (splice buf 10 [0, 0]) 10 (put_be16 (checksum (take (ip_ihl p) (splice buf 10 [0, 0])))) = Some ?b"
    "go_slice ?b (ip_ihl p) (ip_len p) = Some (segment ?b p)" "length (segment ?b p) = ip_len p - ip_ihl p"
    using l lb by (simp_all add: buffer_simps header_fixed_def segment_def Let_def)
  show ?thesis
    unfolding rewriteChecksums_def l(4) Option.bind.simps option.case w
    using l lb by (auto simp: w(5) Let_def buffer_simps)
qed

lemma rewriteDstToSelf_total: "\<exists>ok b. rewriteDstToSelf buf self = Some (ok, b)"
proof (cases buf rule: parseIPv4_cases)
  case bad
  then have "rewriteDstToSelf buf self = Some (False, buf)" by (simp add: rewriteDstToSelf_def)
  then show ?thesis by blast
next
  case (pkt p)
  obtain b where "rewriteChecksums (splice buf 16 (put_be32 self)) = Some b"
    using rewriteChecksums_total [OF parseIPv4_setDst(2) [OF pkt(2)]] by blast
  then have "rewriteDstToSelf buf self = Some (True, if ip_dst p = self then buf else b)"
    using pkt parseIPv4_setDst(1) [OF pkt(2)] by (simp add: rewriteDstToSelf_def)
  then show ?thesis by blast
qed

lemma deliver_total: "\<exists>out c'. deliver data dst now c = Some (out, c') \<and> keeps c c'"
proof -
  obtain ok b where r: "rewriteDstToSelf data (cl_self c) = Some (ok, b)" using rewriteDstToSelf_total by blast
  show ?thesis
  proof (cases "cl_nat c")
    case None
    then show ?thesis using r by (simp add: deliver_def keeps_def)
  next
    case (Some n)
    obtain hit n' b' where "DNAT n data now = Some (hit, n', b')" using DNAT_total by blast
    then show ?thesis using r Some by (simp add: deliver_def keeps_def)
  qed
qed

lemma udp_round_total:
  assumes "cl_crypto c = Some k"
  shows "\<exists>out wr c'. udp_round a dg nonce now c = Some (out, wr, c')
    \<and> (keeps c c' \<or> (\<exists>v c1. (v, a) \<in> proves c a dg \<and> c1 = setP2P v a c \<and> keeps c1 c'))"
proof (cases "Decrypt k (take MaxPacket dg)")
  case (Inl e)
  then show ?thesis using assms by (simp add: udp_round_def keeps_def)
next
  case (Inr pkt)
  define v where "v = pk_source pkt"
  define direct where "direct \<longleftrightarrow> v \<noteq> cl_self c \<and> \<not> sameUDPAddr (Some a) (cl_srv c)"
  define c1 where "c1 = (if direct then setP2P v a c else c)"
  obtain wr c2 where dl: "deliver (pk_data pkt) (pk_dest pkt) now c1 = Some (wr, c2)" "keeps c1 c2"
    using deliver_total by blast
  have pr: "(v, a) \<in> proves c a dg" if "direct" "pk_flags pkt AND 0xF0 \<in> data_kinds"
    using that Inr assms by (auto simp: proves_def direct_def v_def)
  have split: "keeps c c' \<or> (\<exists>v c1. (v, a) \<in> proves c a dg \<and> c1 = setP2P v a c \<and> keeps c1 c')"
    if "keeps c1 c'" "pk_flags pkt AND 0xF0 \<in> data_kinds" for c'
    using that pr by (auto simp: c1_def split: if_splits)
  have refl: "keeps c' c'" for c' by (simp add: keeps_def)
  have run: "udp_round a dg nonce now c =
      (if pk_flags pkt AND 0xF0 = FlagProbe then
         Some (if direct then
                 (case Encrypt k nonce FlagReply (cl_self c) v [] of Inl _ \<Rightarrow> ([], [], c1) | Inr rep \<Rightarrow> ([(a, rep)], [], c1))
               else ([], [], c))
       else if pk_flags pkt AND 0xF0 = FlagReply then Some ([], [], c1)
       else if pk_flags pkt AND 0xF0 = FlagData then
         (if v = cl_self c then Some ([], [], c) else Some ([], wr, c2))
       else Some ([], [], c))"
    by (simp only: udp_round_def assms Inr Let_def Option.bind.simps sum.case v_def [symmetric]
        direct_def [symmetric] c1_def [symmetric]) (simp add: dl(1))
  show ?thesis
    unfolding run using split [OF refl] split [OF dl(2)] refl [of c]
    by (auto simp: data_kinds_def split: sum.splits)
qed

lemma tun_round_total:
  assumes "cl_crypto c = Some k"
  shows "\<exists>out c'. tun_round fr nonce now c = Some (out, c') \<and> keeps c c'
    \<and> (out = [] \<or> (\<exists>enc c1. keeps c c1 \<and> cl_srv c1 = cl_srv c \<and> out = sendEnc enc (be32 (take 4 (drop 16 fr))) c1))"
proof -
  let ?pkt = "take 2048 fr"
  obtain nat' b where nat: "(case cl_nat c of None \<Rightarrow> Some (None, ?pkt)
      | Some n \<Rightarrow> map_option (\<lambda>(_, n', b). (Some n', b)) (SNAT n ?pkt now)) = Some (nat', b)"
    using SNAT_total [of _ ?pkt now] by (cases "cl_nat c") (auto, fastforce)
  show ?thesis
  proof (cases "length ?pkt < 20 \<or> drop_bit 4 (?pkt ! 0) \<noteq> 4 \<or> \<not> vnet_contains (be32 (take 4 (drop 16 ?pkt)))")
    case True
    then show ?thesis by (auto simp: tun_round_def keeps_def Let_def buffer_simps)
  next
    case False
    let ?dst = "be32 (take 4 (drop 16 ?pkt))" and ?c = "c\<lparr>cl_nat := nat'\<rparr>"
    have "20 \<le> length ?pkt" using False not_less by blast
    then have "go_slice ?pkt 16 20 = Some (take 4 (drop 16 ?pkt))" by (simp add: go_slice_def)
    then have "tun_round fr nonce now c =
        (case Encrypt k nonce FlagData (cl_self c) ?dst b of Inl _ \<Rightarrow> Some ([], ?c) | Inr enc \<Rightarrow> Some (sendEnc enc ?dst ?c, ?c))"
      using False nat assms by (simp add: tun_round_def Let_def)
    moreover have "keeps c ?c" by (simp add: keeps_def)
    moreover have "?dst = be32 (take 4 (drop 16 fr))" by (simp add: drop_take)
    ultimately show ?thesis
      by (cases "Encrypt k nonce FlagData (cl_self c) ?dst b") (simp, force)
  qed
qed

section \<open>Sessions\<close>

lemma load_crypto_Inr: "load_crypto dk nk = Inr k \<Longrightarrow> dk \<noteq> []"
  by (auto simp: load_crypto_def ParseKey_def hex_decode.simps split: option.splits if_splits)

lemma run_start_ok: "run_start hwid (NewClient cfg) = Inr c \<Longrightarrow> client_ok {} c"
  by (auto simp: run_start_def client_ok_def proven_peers_def get_peer_def split: if_splits sum.splits option.splits)

lemma NewCrypto_None: "NewCryptoWithKeys k a = None \<longleftrightarrow> length k \<noteq> 32"
  by (simp add: NewCryptoWithKeys_def)

lemma got_register_reply_ok: "client_ok H c \<Longrightarrow> client_ok H (snd (got_register_reply m c))"
  by (auto simp: got_register_reply_def client_ok_def proven_peers_def get_peer_def Let_def NewCrypto_None
      dest!: ParseKey_length split: sum.splits option.splits)

lemma got_hello_reply_ok: "client_ok H c \<Longrightarrow> client_ok H (snd (got_hello_reply m c))"
  by (auto simp: got_hello_reply_def client_ok_def proven_peers_def get_peer_def)

lemma open_data_path_keeps: "keeps c (snd (snd (open_data_path env c)))"
  by (simp add: open_data_path_def Let_def keeps_def split: sum.split prod.split list.split option.split)

lemma connectOnce_ok:
  assumes "client_ok H c"
  shows "\<exists>r out c'. connectOnce env c = Some (r, out, c') \<and> client_ok H c'"
proof -
  have path: "client_ok H (snd (snd (open_data_path env c1)))" if "client_ok H c1" for c1
    using keeps_ok [OF open_data_path_keeps that] .
  have hello: "client_ok H c1" if "got_hello_reply m c = (r, c1)" for m r c1
    using got_hello_reply_ok [OF assms, of m] that by simp
  have reg: "client_ok H c1" if "got_register_reply m c = (r, c1)" for m r c1
    using got_register_reply_ok [OF assms, of m] that by simp
  have data: "client_ok H c2" if "got_hello_reply m c = (r, c1)" "open_data_path env c1 = (r2, o2, c2)" for m r c1 r2 o2 c2
    using path [OF hello [OF that(1)]] that(2) by simp
  have key: "cc_device_key (cl_cfg c) \<noteq> [] \<Longrightarrow> \<exists>k. cl_crypto c = Some k" using assms by (auto simp: client_ok_def)
  show ?thesis
    using assms key
    by (auto simp: connectOnce_def Let_def split: sum.split prod.split) (metis hello reg data)+
qed

lemma run_round_ok:
  assumes "client_ok H c"
  shows "\<exists>dc out c'. run_round env c = Some (dc, out, c') \<and> client_ok H c'"
proof -
  have "client_ok H (c\<lparr>cl_session_ended := False\<rparr>)" by (rule keeps_ok [OF _ assms]) (simp add: keeps_def)
  then obtain r out c' where r: "connectOnce env (c\<lparr>cl_session_ended := False\<rparr>) = Some (r, out, c')" "client_ok H c'"
    using connectOnce_ok by blast
  have "client_ok H (teardown c')" by (rule keeps_ok [OF _ r(2)]) (simp add: keeps_def teardown_def)
  then show ?thesis using r by (auto simp: run_round_def split: sum.split)
qed

lemma client_run_ok: "client_run cfg H c \<Longrightarrow> client_ok H c"
proof (induction rule: client_run.induct)
  case (begin_run hwid c)
  then show ?case by (rule run_start_ok)
next
  case (attempt H c env dc out c')
  then show ?case using run_round_ok [OF attempt.IH, of env] by auto
next
  case (signal H c lookup m acts c')
  then show ?case using signal_round_ok [OF signal.IH, of lookup m] by simp
next
  case (datagram H c a dg nonce now out wr c')
  obtain k where k: "cl_crypto c = Some k" using datagram.hyps(2) by (cases "cl_crypto c") (auto simp: udp_round_def)
  have mono: "client_ok (H \<union> proves c a dg) c" using client_ok_mono [OF datagram.IH] by blast
  from udp_round_total [OF k, of a dg nonce now] datagram.hyps(2)
  consider "keeps c c'" | v c1 where "(v, a) \<in> proves c a dg" "c1 = setP2P v a c" "keeps c1 c'" by auto
  then show ?case
  proof cases
    case 1
    then show ?thesis by (rule keeps_ok [OF _ mono])
  next
    case 2
    then have "client_ok (H \<union> proves c a dg) c1" using setP2P_ok [OF mono] by blast
    then show ?thesis by (rule keeps_ok [OF 2(3)])
  qed
next
  case (frame H c fr nonce now out c')
  have "keeps c c'"
  proof (cases "cl_crypto c")
    case None
    then show ?thesis using frame.hyps(2) by (auto simp: tun_round_def Let_def keeps_def bind_eq_Some_conv split: if_splits)
  next
    case (Some k)
    then show ?thesis using tun_round_total [OF Some, of fr nonce now] frame.hyps(2) by auto
  qed
  then show ?case by (rule keeps_ok [OF _ frame.IH])
next
  case (punched H c vip)
  show ?case by (rule keeps_ok [OF _ punched.IH]) (simp add: keeps_def punch_end_def)
next
  case (tick H c n now)
  show ?case by (rule keeps_ok [OF _ tick.IH]) (simp add: keeps_def)
next
  case (ended H c)
  show ?case by (rule keeps_ok [OF _ ended.IH]) (simp add: keeps_def endSession_def)
next
  case (closed H c)
  show ?case by (rule keeps_ok [OF _ closed.IH]) (simp add: keeps_def client_Close_def teardown_def endSession_def)
qed

section \<open>An attempt with a credential\<close>

lemma ReadMsg_two:
  assumes "frame_ok a" "frame_ok b"
  shows "ReadMsg (WriteMsg a @ WriteMsg b @ rest) = Inr (a, WriteMsg b @ rest)"
    "ReadMsg (WriteMsg b @ rest) = Inr (b, rest)"
  using assms by (simp_all add: ReadMsg_WriteMsg)

text \<open>A server that challenges the client and then answers its hello with \<open>w\<close>.\<close>

definition server_says :: "connect_env \<Rightarrow> message \<Rightarrow> message \<Rightarrow> bool" where
  "server_says env ch w \<longleftrightarrow>
     e_dial env \<and> e_written env \<and> frame_ok ch \<and> frame_ok w \<and> m_type ch = MsgChallenge \<and> m_nonce ch \<noteq> []
     \<and> (\<exists>rest. e_input env = WriteMsg ch @ WriteMsg w @ rest)"

lemma connectOnce_hello:
  assumes "server_says env ch w" and "cl_crypto c = Some key" and "cc_device_key (cl_cfg c) \<noteq> []"
  shows "connectOnce env c = Some (case got_hello_reply w c of
      (Inl e, c1) \<Rightarrow> (Inl e, \<lparr>o_messages = [hello_request c key (m_nonce ch)], o_datagrams = []\<rparr>, c1)
    | (Inr _, c1) \<Rightarrow> (let (r, out2, c2) = open_data_path env c1
                     in (r, prepend_message (hello_request c key (m_nonce ch)) out2, c2)))"
  using assms by (auto simp: connectOnce_def server_says_def ReadMsg_two Let_def split: sum.split prod.split)

text \<open>The system lets the client open its sockets and its interface.\<close>

definition data_path_opens :: "connect_env \<Rightarrow> string \<Rightarrow> u32 \<Rightarrow> udp_addr \<Rightarrow> bool" where
  "data_path_opens env server vip srv \<longleftrightarrow>
     e_listen env \<and> e_tun env \<and> e_configure env (IP4String vip) \<and> e_rules_asked env \<and> e_probe_sent env
     \<and> length (e_probe_nonce env) = NonceLen
     \<and> (\<exists>host port ip ips. SplitHostPort (server_address server) = Inr (host, port)
          \<and> e_lookup_host env host = ip # ips
          \<and> ResolveUDPAddr (e_lookup_ip env) (JoinHostPort ip port) = Some srv)"

lemma open_data_path_opens:
  assumes "data_path_opens env (cc_server (cl_cfg c)) (cl_self c) srv" and "cl_crypto c = Some key"
  obtains probe where "Encrypt key (e_probe_nonce env) FlagProbe (cl_self c) 0 [] = Inr probe"
    "open_data_path env c = (Inr (), \<lparr>o_messages = [msg_of MsgForwardGet], o_datagrams = [(srv, probe)]\<rparr>,
       c\<lparr>cl_udp := True, cl_srv := Some srv, cl_nat := Some (NewNat (cl_self c) [])\<rparr>)"
proof -
  obtain probe where probe: "Encrypt key (e_probe_nonce env) FlagProbe (cl_self c) 0 [] = Inr probe"
    by (simp add: Encrypt_def Let_def)
  show ?thesis
    by (rule that [OF probe])
      (use assms probe in \<open>auto simp: data_path_opens_def open_data_path_def sendProbeToServer_def Let_def\<close>)
qed

lemma run_round_serves:
  assumes "server_says env ch w" and "m_type w = MsgWelcome"
    and "cl_crypto c = Some key" and "cc_device_key (cl_cfg c) \<noteq> []"
    and "data_path_opens env (cc_server (cl_cfg c)) (m_vip w) srv"
  obtains probe c' where
    "Encrypt key (e_probe_nonce env) FlagProbe (m_vip w) 0 [] = Inr probe"
    "run_round env c = Some (Serve, \<lparr>o_messages = [hello_request c key (m_nonce ch), msg_of MsgForwardGet],
       o_datagrams = [(srv, probe)]\<rparr>, c')"
    "c' = c\<lparr>cl_session_ended := False, cl_self := m_vip w, cl_lease := max 0 (m_lease_until w),
            cl_udp := True, cl_srv := Some srv, cl_nat := Some (NewNat (m_vip w) [])\<rparr>"
proof -
  let ?c = "c\<lparr>cl_session_ended := False\<rparr>"
  let ?c1 = "?c\<lparr>cl_self := m_vip w, cl_lease := max 0 (m_lease_until w)\<rparr>"
  have "data_path_opens env (cc_server (cl_cfg ?c1)) (cl_self ?c1) srv" "cl_crypto ?c1 = Some key"
    using assms by simp_all
  then obtain probe where probe: "Encrypt key (e_probe_nonce env) FlagProbe (cl_self ?c1) 0 [] = Inr probe"
    "open_data_path env ?c1 = (Inr (), \<lparr>o_messages = [msg_of MsgForwardGet], o_datagrams = [(srv, probe)]\<rparr>,
       ?c1\<lparr>cl_udp := True, cl_srv := Some srv, cl_nat := Some (NewNat (cl_self ?c1) [])\<rparr>)"
    by (rule open_data_path_opens)
  have w: "got_hello_reply w ?c = (Inr (), ?c1)" using assms(2) by (simp add: got_hello_reply_def max_def)
  have h: "hello_request ?c key ch' = hello_request c key ch'" for ch' by (simp add: hello_request_def)
  have "connectOnce env ?c = Some (Inr (), prepend_message (hello_request c key (m_nonce ch))
      \<lparr>o_messages = [msg_of MsgForwardGet], o_datagrams = [(srv, probe)]\<rparr>,
      ?c1\<lparr>cl_udp := True, cl_srv := Some srv, cl_nat := Some (NewNat (cl_self ?c1) [])\<rparr>)"
    using connectOnce_hello [OF assms(1), of ?c key] assms(3,4) w probe(2) h by simp
  then show ?thesis
    using that [of probe] probe(1) by (simp add: run_round_def prepend_message_def)
qed

section \<open>A client at work\<close>

text \<open>A registered client that is let in as 10.0.0.2.\<close>

definition demo_config :: client_config where
  "demo_config =
     \<lparr>cc_server = ''192.0.2.1'', cc_name = ''pc'', cc_no_punch = False, cc_device_id = ''ID'',
      cc_device_key = GenerateKey (replicate 32 1), cc_network_key = GenerateKey (replicate 32 9), cc_hwid = ''h''\<rparr>"

definition demo_env :: "message \<Rightarrow> connect_env" where
  "demo_env answer =
     \<lparr>e_dial = True, e_input = WriteMsg ((msg_of MsgChallenge)\<lparr>m_nonce := [5]\<rparr>) @ WriteMsg answer,
      e_written = True, e_listen = True, e_lookup_host = (\<lambda>h. [h]), e_lookup_ip = (\<lambda>_. None), e_tun = True,
      e_configure = (\<lambda>_. True), e_rules_asked = True, e_probe_nonce = replicate 12 3, e_probe_sent = True\<rparr>"

definition demo_welcome :: message where
  "demo_welcome = (msg_of MsgWelcome)\<lparr>m_vip := 0x0A000002, m_lease_until := 7\<rparr>"

definition demo_srv :: udp_addr where
  "demo_srv = \<lparr>u_ip = v4_mapped [192, 0, 2, 1], u_port = 9000, u_zone = []\<rparr>"

lemma hex_encode_eq_Nil [simp]: "hex_encode bs = [] \<longleftrightarrow> bs = []"
  by (cases bs) simp_all

lemma demo_client:
  obtains c key where "run_start None (NewClient demo_config) = Inr c" "cl_cfg c = demo_config"
    "cl_crypto c = Some key" "NewCryptoWithKeys (replicate 32 9) (DeviceAuthKey (replicate 32 1)) = Some key"
    "cl_peers c = []"
proof -
  obtain key where key: "NewCryptoWithKeys (replicate 32 9) (DeviceAuthKey (replicate 32 1)) = Some key"
    by (simp add: NewCryptoWithKeys_def)
  have "ParseKey (GenerateKey (replicate 32 b)) = Some (replicate 32 b)" for b
    by (rule ParseKey_GenerateKey) simp
  then have "load_crypto (cc_device_key demo_config) (cc_network_key demo_config) = Inr key"
    using key by (simp add: load_crypto_def demo_config_def)
  moreover have "cc_device_key demo_config \<noteq> []"
    by (simp add: demo_config_def GenerateKey_def)
  moreover have "cc_server demo_config \<noteq> []" "cc_name demo_config \<noteq> []" "cc_hwid demo_config = ''h''"
    by (simp_all add: demo_config_def)
  ultimately show ?thesis
    using that key by (simp add: run_start_def NewClient_def)
qed

lemma demo_challenge_ok: "frame_ok ((msg_of MsgChallenge)\<lparr>m_nonce := [5]\<rparr>)" "frame_ok demo_welcome"
  using frame_ok_bytes_message [OF bytes_messages(2), of "[5]" MsgChallenge] frame_ok_welcome [of 7]
  by (simp_all add: demo_welcome_def int64_ok_def)

lemma demo_says: "frame_ok w \<Longrightarrow> server_says (demo_env w) ((msg_of MsgChallenge)\<lparr>m_nonce := [5]\<rparr>) w"
  using demo_challenge_ok by (auto simp: server_says_def demo_env_def msg_of_def)

lemma demo_opens: "data_path_opens (demo_env w) (cc_server demo_config) vip demo_srv"
proof -
  have "SplitHostPort (server_address ''192.0.2.1'') = Inr (''192.0.2.1'', ''9000'')"
    "ResolveUDPAddr (\<lambda>_. None) (JoinHostPort ''192.0.2.1'' ''9000'') = Some demo_srv"
    by code_simp+
  then show ?thesis by (simp add: data_path_opens_def demo_env_def demo_config_def NonceLen_def)
qed

lemma demo_serving:
  obtains c key where "client_run demo_config {} c" "cl_crypto c = Some key"
    "NewCryptoWithKeys (replicate 32 9) (DeviceAuthKey (replicate 32 1)) = Some key"
    "cl_self c = 0x0A000002" "cl_srv c = Some demo_srv" "cl_udp c" "cl_nat c = Some (NewNat 0x0A000002 [])"
proof -
  obtain c0 key where c0: "run_start None (NewClient demo_config) = Inr c0" "cl_cfg c0 = demo_config" "cl_crypto c0 = Some key"
    "NewCryptoWithKeys (replicate 32 9) (DeviceAuthKey (replicate 32 1)) = Some key"
    by (rule demo_client) blast
  have k: "cc_device_key (cl_cfg c0) \<noteq> []" by (simp add: c0(2) demo_config_def GenerateKey_def)
  have w: "m_type demo_welcome = MsgWelcome" "m_vip demo_welcome = 0x0A000002" by (simp_all add: demo_welcome_def msg_of_def)
  have opens: "data_path_opens (demo_env demo_welcome) (cc_server (cl_cfg c0)) (m_vip demo_welcome) demo_srv"
    using demo_opens c0(2) by simp
  obtain probe c where c: "run_round (demo_env demo_welcome) c0 = Some (Serve,
      \<lparr>o_messages = [hello_request c0 key (m_nonce ((msg_of MsgChallenge)\<lparr>m_nonce := [5]\<rparr>)), msg_of MsgForwardGet],
       o_datagrams = [(demo_srv, probe)]\<rparr>, c)"
    "c = c0\<lparr>cl_session_ended := False, cl_self := m_vip demo_welcome, cl_lease := max 0 (m_lease_until demo_welcome),
            cl_udp := True, cl_srv := Some demo_srv, cl_nat := Some (NewNat (m_vip demo_welcome) [])\<rparr>"
    by (rule run_round_serves [OF demo_says [OF demo_challenge_ok(2)] w(1) c0(3) k opens])
  have "client_run demo_config {} c"
    by (rule client_run.attempt [OF client_run.begin_run [OF c0(1)] c(1)])
  then show ?thesis by (rule that) (use c0 w in \<open>simp_all add: c(2)\<close>)
qed

text \<open>A direct probe of 10.0.0.3, and a packet for it.\<close>

definition demo_frame :: "byte list" where
  "demo_frame = [0x45, 0, 0, 20, 0, 0, 0, 0, 64, 1, 0, 0, 10, 0, 0, 2, 10, 0, 0, 3]"

definition demo_peer :: udp_addr where
  "demo_peer = \<lparr>u_ip = v4_mapped [203, 0, 113, 9], u_port = 4000, u_zone = []\<rparr>"

lemma demo_frame_dst: "be32 (take 4 (drop 16 demo_frame)) = 0x0A000003" "vnet_contains 0x0A000003"
  "take 2048 demo_frame = demo_frame" "length demo_frame = 20" "drop_bit 4 (demo_frame ! 0) = 4"
  "go_slice demo_frame 16 20 = Some [10, 0, 0, 3]" "be32 [10, 0, 0, 3] = 0x0A000003"
  "ip_proto (the (the (parseIPv4 demo_frame))) = 1" "parseIPv4 demo_frame \<noteq> Some None"
  by code_simp+

section \<open>Properties\<close>



text \<open>C14: a client sends its traffic directly to an address other than the server's only if a
  packet sealed with the network key came from that address earlier, not through the server,
  and named the destination as its source.\<close>

theorem direct_addresses_are_proven:
  assumes "client_run cfg H c" and "tun_round fr nonce now c = Some (out, c')" and "(a, enc) \<in> set out"
  shows "cl_srv c = Some a \<or> (be32 (take 4 (drop 16 fr)), a) \<in> H"
proof -
  let ?dst = "be32 (take 4 (drop 16 fr))"
  have ok: "proven_peers H c" using client_run_ok [OF assms(1)] by (simp add: client_ok_def)
  show ?thesis
  proof (cases "cl_crypto c")
    case None
    then show ?thesis using assms(2,3) by (auto simp: tun_round_def Let_def bind_eq_Some_conv split: if_splits)
  next
    case (Some k)
    then obtain e c1 where "keeps c c1" "cl_srv c1 = cl_srv c" "out = sendEnc e ?dst c1"
      using tun_round_total [OF Some, of fr nonce now] assms(2,3) by fastforce
    with ok show ?thesis
      using assms(3) by (auto simp: sendEnc_def proven_peers_def keeps_def get_peer_def bind_eq_Some_conv split: if_splits option.splits)
  qed
qed

theorem direct_addresses_are_proven_witness:
  "\<exists>c H out c2 enc. client_run demo_config H c \<and> tun_round demo_frame (replicate 12 7) 0 c = Some (out, c2)
    \<and> (demo_peer, enc) \<in> set out \<and> cl_srv c \<noteq> Some demo_peer \<and> (0x0A000003, demo_peer) \<in> H"
proof -
  obtain c key where c: "client_run demo_config {} c" "cl_crypto c = Some key"
    "NewCryptoWithKeys (replicate 32 9) (DeviceAuthKey (replicate 32 1)) = Some key"
    "cl_self c = 0x0A000002" "cl_srv c = Some demo_srv" "cl_udp c" "cl_nat c = Some (NewNat 0x0A000002 [])"
    by (rule demo_serving)
  obtain dg where dg: "Encrypt key (replicate 12 1) FlagProbe 0x0A000003 0x0A000002 [] = Inr dg"
    by (simp add: Encrypt_def Let_def)
  have n: "length (replicate 12 1 :: byte list) = NonceLen" by (simp add: NonceLen_def)
  have "length dg \<le> MaxPacket"
    using gcm_packets(2) [OF c(3) n dg] by (simp add: gcm_overhead_def MaxPacket_def)
  then have dec: "Decrypt key (take MaxPacket dg) = Inr \<lparr>pk_flags = FlagProbe, pk_source = 0x0A000003, pk_dest = 0x0A000002, pk_data = []\<rparr>"
    using gcm_packets(1) [OF c(3) n] dg by simp
  have apart: "\<not> sameUDPAddr (Some demo_peer) (Some demo_srv)"
    by (simp add: sameUDPAddr_def demo_peer_def demo_srv_def)
  have probe: "FlagProbe AND 0xF0 = FlagProbe" by (simp add: FlagProbe_def)
  let ?c = "setP2P 0x0A000003 demo_peer c" and ?H = "{} \<union> proves c demo_peer dg"
  obtain rep where "Encrypt key (replicate 12 2) FlagReply 0x0A000002 0x0A000003 [] = Inr rep"
    by (simp add: Encrypt_def Let_def)
  then have "udp_round demo_peer dg (replicate 12 2) 0 c = Some ([(demo_peer, rep)], [], ?c)"
    using c dec apart probe by (simp add: udp_round_def Let_def)
  with c(1) have run: "client_run demo_config ?H ?c" by (rule client_run.datagram)
  obtain enc where enc: "Encrypt key (replicate 12 7) FlagData 0x0A000002 0x0A000003 demo_frame = Inr enc"
    by (simp add: Encrypt_def Let_def demo_frame_dst MaxPayload_def)
  obtain p where p: "parseIPv4 demo_frame = Some (Some p)" "ip_proto p = 1"
    using demo_frame_dst(8,9) by (cases demo_frame rule: parseIPv4_cases) auto
  have snat: "SNAT (NewNat 0x0A000002 []) demo_frame 0 = Some (False, NewNat 0x0A000002 [], demo_frame)"
    by (simp add: SNAT_def p has_ports_def)
  have get: "get_peer 0x0A000003 (d\<lparr>cl_nat := n\<rparr>) = get_peer 0x0A000003 d" for d n by (simp add: get_peer_def)
  have gp: "get_peer 0x0A000003 ?c = Some ((peer_or_new 0x0A000003 [] c)\<lparr>ps_addr := Some demo_peer, ps_p2p := True\<rparr>)"
    by (simp add: setP2P_def)
  have us: "cl_udp ?c" "cl_srv ?c = Some demo_srv" using c(5,6) by (simp_all add: setP2P_def put_peer_def)
  have send: "sendEnc enc 0x0A000003 (?c\<lparr>cl_nat := Some (NewNat 0x0A000002 [])\<rparr>) = [(demo_peer, enc)]"
    by (simp add: sendEnc_def get gp us)
  have tun: "tun_round demo_frame (replicate 12 7) 0 ?c = Some ([(demo_peer, enc)], ?c\<lparr>cl_nat := Some (NewNat 0x0A000002 [])\<rparr>)"
  proof -
    have f: "cl_nat ?c = Some (NewNat 0x0A000002 [])" "cl_crypto ?c = Some key" "cl_self ?c = 0x0A000002"
      using c by (simp_all add: setP2P_def)
    show ?thesis
      by (simp add: tun_round_def Let_def demo_frame_dst f snat enc send)
  qed
  have "cl_srv ?c \<noteq> Some demo_peer" using c(5) by (simp add: setP2P_def demo_srv_def demo_peer_def)
  moreover have "cl_srv ?c = Some demo_peer \<or> (be32 (take 4 (drop 16 demo_frame)), demo_peer) \<in> ?H"
    by (rule direct_addresses_are_proven [OF run tun]) simp
  ultimately show ?thesis using run tun demo_frame_dst(1) by (intro exI conjI) (assumption | simp)+
qed

text \<open>A client with a credential that is let in starts to serve. When the server challenges it
  and welcomes its hello, and the system opens its sockets and its interface, it sends exactly
  its hello and the request for its rules, announces itself to the server's data port with a
  probe only the holders of the network key can read, takes the address of the welcome for its
  own, and starts with empty tracking tables; the peers it knew before are kept.\<close>

theorem client_serves:
  assumes "server_says env ch w" and "m_type w = MsgWelcome"
    and "cl_crypto c = Some key" and "NewCryptoWithKeys netKey authKey = Some key" and "cc_device_key (cl_cfg c) \<noteq> []"
    and "data_path_opens env (cc_server (cl_cfg c)) (m_vip w) srv"
  shows "\<exists>probe c'. run_round env c = Some (Serve, \<lparr>o_messages = [hello_request c key (m_nonce ch), msg_of MsgForwardGet],
       o_datagrams = [(srv, probe)]\<rparr>, c')
    \<and> Decrypt key probe = Inr \<lparr>pk_flags = FlagProbe, pk_source = m_vip w, pk_dest = 0, pk_data = []\<rparr>
    \<and> SelfVIP c' = m_vip w \<and> LeaseUntil c' = max 0 (m_lease_until w)
    \<and> cl_nat c' = Some (NewNat (m_vip w) []) \<and> PeerStats c' = PeerStats c"
proof -
  obtain probe c' where r: "Encrypt key (e_probe_nonce env) FlagProbe (m_vip w) 0 [] = Inr probe"
    "run_round env c = Some (Serve, \<lparr>o_messages = [hello_request c key (m_nonce ch), msg_of MsgForwardGet],
       o_datagrams = [(srv, probe)]\<rparr>, c')"
    "c' = c\<lparr>cl_session_ended := False, cl_self := m_vip w, cl_lease := max 0 (m_lease_until w),
            cl_udp := True, cl_srv := Some srv, cl_nat := Some (NewNat (m_vip w) [])\<rparr>"
    by (rule run_round_serves [OF assms(1-3,5,6)])
  have "length (e_probe_nonce env) = NonceLen" using assms(6) by (simp add: data_path_opens_def)
  then have "Decrypt key probe = Inr \<lparr>pk_flags = FlagProbe, pk_source = m_vip w, pk_dest = 0, pk_data = []\<rparr>"
    using gcm_packets(1) [OF assms(4)] r(1) by blast
  then show ?thesis using r by (simp add: SelfVIP_def LeaseUntil_def PeerStats_def)
qed

theorem client_serves_witness:
  "\<exists>c key probe c'. run_start None (NewClient demo_config) = Inr c \<and> cl_crypto c = Some key
    \<and> run_round (demo_env demo_welcome) c = Some (Serve, \<lparr>o_messages = [hello_request c key [5], msg_of MsgForwardGet],
       o_datagrams = [(demo_srv, probe)]\<rparr>, c') \<and> SelfVIP c' = 0x0A000002"
proof -
  obtain c key where c: "run_start None (NewClient demo_config) = Inr c" "cl_cfg c = demo_config" "cl_crypto c = Some key"
    "NewCryptoWithKeys (replicate 32 9) (DeviceAuthKey (replicate 32 1)) = Some key"
    by (rule demo_client) blast
  have k: "cc_device_key (cl_cfg c) \<noteq> []" by (simp add: c(2) demo_config_def GenerateKey_def)
  have w: "m_type demo_welcome = MsgWelcome" "m_vip demo_welcome = 0x0A000002" by (simp_all add: demo_welcome_def msg_of_def)
  show ?thesis
    using client_serves [OF demo_says [OF demo_challenge_ok(2)] w(1) c(3,4) k] demo_opens c w(2) by fastforce
qed

text \<open>What a refusal does. If the server answers a hello with the message that the name is
  taken, the client stops for good; if it answers that authentication failed, the client drops
  its credential, waits two seconds, and its next attempt asks for a new one instead of repeating
  the old; after any other answer it keeps the credential and tries again.\<close>

theorem client_refused:
  assumes "server_says env ch w" and "m_type w \<noteq> MsgWelcome"
    and "cl_crypto c = Some key" and "cc_device_key (cl_cfg c) \<noteq> []"
  shows "\<exists>dc out c'. run_round env c = Some (dc, out, c')
    \<and> o_messages out = [hello_request c key (m_nonce ch)] \<and> o_datagrams out = []
    \<and> (if m_error w = ErrNameTakenMsg then dc = Stop NameTaken \<and> cl_cfg c' = cl_cfg c
       else if m_error w = ErrAuthFailedMsg then
         dc = RetryAfter (2 * Second) \<and> cl_crypto c' = None
         \<and> (\<forall>env2 ch2 w2. server_says env2 ch2 w2 \<longrightarrow>
              (\<exists>dc2 out2 c2. run_round env2 c' = Some (dc2, out2, c2)
                 \<and> o_messages out2 = [register_request c (m_nonce ch2)]))
       else dc = RetryAfter (2 * Second) \<and> cl_cfg c' = cl_cfg c \<and> cl_crypto c' = Some key)"
proof -
  let ?c = "c\<lparr>cl_session_ended := False\<rparr>"
  have h: "hello_request ?c key x = hello_request c key x" for x by (simp add: hello_request_def)
  obtain r c1 where rc: "got_hello_reply w ?c = (r, c1)" by force
  with assms(2) obtain e where "r = Inl e" by (auto simp: got_hello_reply_def split: if_splits)
  with rc have e: "got_hello_reply w ?c = (Inl e, c1)" by simp
  have once: "connectOnce env ?c = Some (Inl e, \<lparr>o_messages = [hello_request c key (m_nonce ch)], o_datagrams = []\<rparr>, c1)"
    using connectOnce_hello [OF assms(1), of ?c key] assms(3,4) e h by simp
  have again: "\<exists>dc2 out2 c2. run_round env2 d = Some (dc2, out2, c2) \<and> o_messages out2 = [register_request d (m_nonce ch2)]"
    if "server_says env2 ch2 w2" "cc_device_key (cl_cfg d) = []" for d env2 ch2 w2
  proof -
    obtain e2 d2 where "got_register_reply w2 (d\<lparr>cl_session_ended := False\<rparr>) = (e2, d2)" by force
    then have "connectOnce env2 (d\<lparr>cl_session_ended := False\<rparr>) =
        Some (Inl e2, \<lparr>o_messages = [register_request d (m_nonce ch2)], o_datagrams = []\<rparr>, d2)"
      using that by (auto simp: connectOnce_def server_says_def ReadMsg_two register_request_def)
    then show ?thesis by (simp add: run_round_def)
  qed
  have kinds: "e = (if m_error w = ErrNameTakenMsg then NameTaken else if m_error w = ErrAuthFailedMsg then CredentialRevoked
      else HelloRefused (m_error w))"
    using e assms(2) by (auto simp: got_hello_reply_def split: if_splits)
  have dec: "run_round env c = Some (if m_error w = ErrNameTakenMsg then (Stop NameTaken, \<lparr>o_messages = [hello_request c key (m_nonce ch)], o_datagrams = []\<rparr>, c1)
      else (RetryAfter (2 * Second), \<lparr>o_messages = [hello_request c key (m_nonce ch)], o_datagrams = []\<rparr>, teardown c1))"
    using once kinds by (simp add: run_round_def fatal_error_def)
  have c1: "c1 = (if m_error w \<noteq> ErrNameTakenMsg \<and> m_error w = ErrAuthFailedMsg
      then ?c\<lparr>cl_cfg := (cl_cfg c)\<lparr>cc_device_id := [], cc_device_key := [], cc_network_key := []\<rparr>, cl_crypto := None\<rparr> else ?c)"
    using e assms(2) by (auto simp: got_hello_reply_def split: if_splits)
  have reg: "register_request (teardown c1) x = register_request c x" for x
    by (simp add: c1 teardown_def register_request_def)
  show ?thesis
  proof (cases "m_error w = ErrNameTakenMsg")
    case True
    then show ?thesis using dec c1 by simp
  next
    case False
    moreover have "cc_device_key (cl_cfg (teardown c1)) = []" if "m_error w = ErrAuthFailedMsg"
      using that False by (simp add: c1 teardown_def)
    ultimately show ?thesis using dec again [of _ _ _ "teardown c1"] reg c1 assms(3) by (auto simp: teardown_def)
  qed
qed

definition demo_refusal :: message where
  "demo_refusal = (msg_of MsgError)\<lparr>m_error := ErrAuthFailedMsg\<rparr>"

lemma demo_refusal_ok: "frame_ok demo_refusal"
proof -
  have "valid_utf8 ErrAuthFailedMsg" unfolding ErrAuthFailedMsg_def by (rule tag_ok) (simp add: byte_in_def)
  moreover have "length (marshal demo_refusal) = 37" by code_simp
  ultimately show ?thesis by (simp add: frame_ok_def message_ok_def demo_refusal_def msg_of_def int64_ok_def)
qed

theorem client_refused_witness:
  "\<exists>c out c'. run_start None (NewClient demo_config) = Inr c
    \<and> run_round (demo_env demo_refusal) c = Some (RetryAfter (2 * Second), out, c') \<and> cl_crypto c' = None"
proof -
  obtain c key where c: "run_start None (NewClient demo_config) = Inr c" "cl_cfg c = demo_config" "cl_crypto c = Some key"
    by (rule demo_client) blast
  have k: "cc_device_key (cl_cfg c) \<noteq> []" by (simp add: c(2) demo_config_def GenerateKey_def)
  have w: "m_type demo_refusal \<noteq> MsgWelcome" "m_error demo_refusal = ErrAuthFailedMsg" "ErrAuthFailedMsg \<noteq> ErrNameTakenMsg"
    by (simp_all add: demo_refusal_def msg_of_def msg_types ErrAuthFailedMsg_def ErrNameTakenMsg_def)
  show ?thesis
    using client_refused [OF demo_says [OF demo_refusal_ok] w(1) c(3) k] c(1) w(2,3) by auto
qed

section \<open>Direct connections are never given up\<close>

text \<open>Reconnecting keeps the peers and their direct addresses, and for a peer that counts as direct
  the hole punching ends at once.\<close>

lemma connectOnce_peers:
  assumes "connectOnce env c = Some (r, out, c')" shows "cl_peers c' = cl_peers c"
proof -
  have path: "cl_peers d2 = cl_peers d" if "open_data_path env d = (r2, o2, d2)" for d r2 o2 d2
    using open_data_path_keeps [of d env] that by (simp add: keeps_def)
  have hello: "cl_peers d = cl_peers c" if "got_hello_reply m c = (r, d)" for m r d
    using that by (auto simp: got_hello_reply_def split: if_splits)
  have reg: "cl_peers d = cl_peers c" if "got_register_reply m c = (r, d)" for m r d
    using that by (auto simp: got_register_reply_def Let_def split: if_splits sum.splits option.splits)
  show ?thesis
    using assms
    by (auto simp: connectOnce_def Let_def split: if_splits sum.splits prod.splits option.splits)
      (metis hello reg path)+
qed

lemma reconnect_keeps_peers:
  assumes "run_round env c = Some (dc, out, c')" shows "cl_peers c' = cl_peers c"
proof -
  obtain r o1 d where once: "connectOnce env (c\<lparr>cl_session_ended := False\<rparr>) = Some (r, o1, d)"
    using assms by (auto simp: run_round_def)
  then have "cl_peers d = cl_peers c" using connectOnce_peers by fastforce
  then show ?thesis using assms once by (cases r) (auto simp: run_round_def teardown_def split: if_splits)
qed

lemma no_new_punching_when_direct: "isP2P v c \<Longrightarrow> punch_round n v nonce c = None"
  by (simp add: punch_round_def)

end
