(* ===== verification/Server.thy ===== *)
theory Server
  imports Leases Credential Settings Udp_Addr
begin

text \<open>
  The signalling server of \<^verbatim>\<open>internal/server/server.go\<close>: connected devices with their
  write queues, registration and authentication of a connection, the signalling messages of an
  authenticated device, and its removal. Devices are referred to by number, as the code refers
  to them by pointer: \<open>s_heap\<close> holds every device ever created, \<open>s_devices\<close> and
  \<open>s_by_id\<close> refer into it. A list stands for a Go map in iteration order. Random bytes,
  the clock and the outcome of a write are arguments; \<^term>\<open>None\<close> for random bytes is a
  failing random source.
\<close>

section \<open>State\<close>

record connection =
  k_open :: bool
  k_out :: "byte list"

text \<open>\<^verbatim>\<open>Device\<close>; its channel is the buffer and whether \<^verbatim>\<open>msgCh\<close> still refers to it.\<close>

record device =
  dv_name :: string
  dv_vip :: u32
  dv_hwid :: string
  dv_conn :: "connection option"
  dv_udp :: "udp_addr option"
  dv_online_at :: gotime
  dv_ch_open :: bool
  dv_queue :: "message list"

record server_stats =
  st_pkts :: u64
  st_bytes :: u64
  st_flooded :: u64
  st_icmp :: u64
  st_rejected :: u64

record server =
  s_crypto :: crypto
  s_network_key :: "byte list"
  s_pool :: ip_pool
  s_devices :: "(u32 \<times> nat) list"
  s_by_id :: "(string \<times> nat) list"
  s_heap :: "nat \<Rightarrow> device option"
  s_tcp_addr :: string
  s_udp_addr :: string
  s_started :: gotime
  s_table :: device_table
  s_stats :: server_stats
  s_pushed :: settings
  s_settings_path :: string
  s_settings_disk :: "settings_file option"
  s_settings_writable :: bool
  s_has_callback :: bool
  s_called :: "(string \<times> string \<times> string) list"

definition new_device :: "gotime \<Rightarrow> device" where
  "new_device now =
     \<lparr>dv_name = [], dv_vip = 0, dv_hwid = [], dv_conn = Some \<lparr>k_open = True, k_out = []\<rparr>,
      dv_udp = None, dv_online_at = now, dv_ch_open = True, dv_queue = []\<rparr>"

definition upd_device :: "nat \<Rightarrow> (device \<Rightarrow> device) \<Rightarrow> server \<Rightarrow> server" where
  "upd_device i f s = s\<lparr>s_heap := (s_heap s)(i := map_option f (s_heap s i))\<rparr>"

section \<open>Write queues\<close>

definition queue_cap :: nat where "queue_cap = 64"

definition enqueue :: "message \<Rightarrow> device \<Rightarrow> device" where
  "enqueue m d =
     (if dv_conn d = None \<or> \<not> dv_ch_open d then d
      else if length (dv_queue d) < queue_cap then d\<lparr>dv_queue := dv_queue d @ [m]\<rparr>
      else d)"

definition sendMsg :: "nat \<Rightarrow> message \<Rightarrow> server \<Rightarrow> server" where
  "sendMsg i m s = upd_device i (enqueue m) s"

definition close_ch :: "device \<Rightarrow> device" where
  "close_ch d = d\<lparr>dv_ch_open := False\<rparr>"

definition closeMsg :: "nat \<Rightarrow> server \<Rightarrow> server" where
  "closeMsg i s = upd_device i close_ch s"

definition close_device_conn :: "device \<Rightarrow> device" where
  "close_device_conn d = d\<lparr>dv_conn := map_option (\<lambda>k. k\<lparr>k_open := False\<rparr>) (dv_conn d)\<rparr>"

definition close_conn :: "nat \<Rightarrow> server \<Rightarrow> server" where
  "close_conn i s = upd_device i close_device_conn s"

text \<open>Bytes on the connection; \<open>ok\<close> is the outcome of the write.\<close>

definition conn_write :: "bool \<Rightarrow> byte list \<Rightarrow> device \<Rightarrow> bool \<times> device" where
  "conn_write ok bs d =
     (case dv_conn d of
        None \<Rightarrow> (False, d)
      | Some k \<Rightarrow> if ok \<and> k_open k then (True, d\<lparr>dv_conn := Some (k\<lparr>k_out := k_out k @ bs\<rparr>)\<rparr>)
                  else (False, d))"

text \<open>One round of \<^verbatim>\<open>writeLoop\<close>: \<^term>\<open>None\<close> when it waits or has ended, else whether it
  goes on. A closed channel is still drained.\<close>

definition write_round :: "bool \<Rightarrow> device \<Rightarrow> (bool \<times> device) option" where
  "write_round ok d =
     (case dv_queue d of
        [] \<Rightarrow> None
      | m # q \<Rightarrow> Some (conn_write ok (WriteMsg m) (d\<lparr>dv_queue := q\<rparr>)))"

text \<open>\<^verbatim>\<open>rejectAuth\<close> stops the queue and writes the reason itself.\<close>

definition error_msg :: "string \<Rightarrow> message" where
  "error_msg e = (msg_of MsgError)\<lparr>m_error := e\<rparr>"

definition write_direct :: "message \<Rightarrow> device \<Rightarrow> device" where
  "write_direct m d = snd (conn_write True (WriteMsg m) d)"

definition rejectAuth :: "nat \<Rightarrow> string \<Rightarrow> server \<Rightarrow> server" where
  "rejectAuth i reason s = upd_device i (write_direct (error_msg reason)) (closeMsg i s)"

section \<open>Automatic registration\<close>

text \<open>The credential of a device: the stored one, or a fresh one from the random bytes.\<close>

definition issue_credential :: "string \<Rightarrow> string \<Rightarrow> byte list option \<Rightarrow> byte list option \<Rightarrow> device_table
    \<Rightarrow> string + (string \<times> string) \<times> device_table" where
  "issue_credential hwid name id_rnd key_rnd t =
     (case Credential_of t hwid of
        Some cred \<Rightarrow> Inr (cred, t)
      | None \<Rightarrow>
          (case id_rnd of
             None \<Rightarrow> Inl ''internal error''
           | Some idb \<Rightarrow>
               (case key_rnd of
                  None \<Rightarrow> Inl ''internal error''
                | Some keyb \<Rightarrow>
                    (case SetCredential t hwid name (GenerateDeviceID idb) (GenerateKey keyb) of
                       Inr t' \<Rightarrow> Inr ((GenerateDeviceID idb, GenerateKey keyb), t')
                     | Inl _ \<Rightarrow>
                         (case Credential_of t hwid of
                            Some cred \<Rightarrow> Inr (cred, t)
                          | None \<Rightarrow> Inl ''device already registered'')))))"

definition handleRegister :: "nat \<Rightarrow> message \<Rightarrow> byte list \<Rightarrow> byte list option \<Rightarrow> byte list option
    \<Rightarrow> byte list option \<Rightarrow> server \<Rightarrow> server" where
  "handleRegister i m challenge id_rnd key_rnd nonce s =
     (let hwid = TrimSpace (m_hwid m)
      in if hwid = [] then rejectAuth i ''device id required'' s
         else if \<not> VerifyRegisterAuth hwid challenge (m_auth m) then rejectAuth i ErrAuthFailedMsg s
         else if IsBlocked (s_table s) hwid then rejectAuth i ''device blocked by administrator'' s
         else case issue_credential hwid (m_device_name m) id_rnd key_rnd (s_table s) of
                Inl reason \<Rightarrow> rejectAuth i reason s
              | Inr ((deviceID, deviceKey), t) \<Rightarrow>
                  let s1 = s\<lparr>s_table := t\<rparr>
                  in (case nonce of
                        None \<Rightarrow> rejectAuth i ''internal error'' s1
                      | Some n \<Rightarrow>
                          let blob = EncryptCredential n hwid
                                \<lparr>cr_device_id = deviceID, cr_device_key = deviceKey,
                                 cr_network_key = hex_encode (s_network_key s)\<rparr>
                          in upd_device i (write_direct ((msg_of MsgRegisterOK)\<lparr>m_blob := blob\<rparr>))
                               (closeMsg i s1)))"

section \<open>Admission\<close>

definition allocVIP :: "string \<Rightarrow> string \<Rightarrow> gotime \<Rightarrow> server \<Rightarrow> (string + u32 \<times> gotime) \<times> server" where
  "allocVIP hwid name now s =
     (if hwid = [] then
        (case Alloc (s_pool s) of
           None \<Rightarrow> (Inl ''virtual ip pool exhausted'', s)
         | Some (vip, pool) \<Rightarrow> (Inr (vip, 0), s\<lparr>s_pool := pool\<rparr>))
      else
        (case Assign (s_table s) hwid name (s_pool s) now of
           (res, t, pool) \<Rightarrow>
             (case res of Inl _ \<Rightarrow> Inl ''virtual ip pool exhausted'' | Inr lease \<Rightarrow> Inr lease,
              s\<lparr>s_table := t, s_pool := pool\<rparr>)))"

text \<open>The loop that looks for \<open>name (2)\<close>, \<open>name (3)\<close>, ...\<close>

definition numbered_name :: "string \<Rightarrow> nat \<Rightarrow> string" where
  "numbered_name base i = base @ '' ('' @ dec i @ '')''"

fun free_name :: "(string \<times> nat) list \<Rightarrow> string \<Rightarrow> nat \<Rightarrow> nat \<Rightarrow> string option" where
  "free_name by_id base i 0 = None"
| "free_name by_id base i (Suc fuel) =
     (if map_of by_id (numbered_name base i) = None then Some (numbered_name base i)
      else free_name by_id base (Suc i) fuel)"

definition unique_name :: "(string \<times> nat) list \<Rightarrow> nat \<Rightarrow> string \<Rightarrow> string option" where
  "unique_name by_id i name =
     (case map_of by_id name of
        Some j \<Rightarrow> if j \<noteq> i then free_name by_id name 2 (Suc (length by_id)) else Some name
      | None \<Rightarrow> Some name)"

text \<open>The part of \<^verbatim>\<open>register\<close> under the server's mutex; \<^term>\<open>None\<close> would be a search
  for a name that does not end.\<close>

definition register_locked :: "nat \<Rightarrow> string \<Rightarrow> string \<Rightarrow> u32 \<Rightarrow> server \<Rightarrow> server option" where
  "register_locked i name0 hwid vip s =
     (case unique_name (s_by_id s) i name0 of
        None \<Rightarrow> None
      | Some name \<Rightarrow>
          let s1 = (case map_of (s_devices s) vip of
                      Some j \<Rightarrow> if j \<noteq> i then close_conn j s else s
                    | None \<Rightarrow> s);
              s2 = upd_device i (\<lambda>d. d\<lparr>dv_name := name, dv_vip := vip, dv_hwid := hwid\<rparr>) s1
          in Some (s2\<lparr>s_devices := AList.update vip i (s_devices s),
                      s_by_id := AList.update name i (s_by_id s)\<rparr>))"

definition register :: "nat \<Rightarrow> string \<Rightarrow> string \<Rightarrow> gotime \<Rightarrow> server
    \<Rightarrow> ((string + u32 \<times> gotime) \<times> server) option" where
  "register i name hwid now s =
     (case allocVIP hwid name now s of
        (Inl e, s1) \<Rightarrow> Some (Inl e, s1)
      | (Inr (vip, lease), s1) \<Rightarrow>
          map_option (\<lambda>s2. (Inr (vip, lease), s2)) (register_locked i name hwid vip s1))"

section \<open>Telling devices about each other\<close>

text \<open>The devices that \<open>s_devices\<close> refers to, in iteration order.\<close>

definition online_devices :: "server \<Rightarrow> (u32 \<times> nat \<times> device) list" where
  "online_devices s =
     concat (map (\<lambda>(vip, i). case s_heap s i of None \<Rightarrow> [] | Some d \<Rightarrow> [(vip, i, d)]) (s_devices s))"

definition peerList :: "u32 \<Rightarrow> server \<Rightarrow> peer list" where
  "peerList self s =
     map (\<lambda>(vip, _, d). \<lparr>p_name = dv_name d, p_vip = vip\<rparr>)
       (filter (\<lambda>(vip, _, _). vip \<noteq> self) (online_devices s))"

definition send_all :: "nat list \<Rightarrow> message \<Rightarrow> server \<Rightarrow> server" where
  "send_all is m s = foldl (\<lambda>s i. sendMsg i m s) s is"

definition broadcast :: "message \<Rightarrow> server \<Rightarrow> nat \<times> server" where
  "broadcast m s =
     (let devices = map snd (s_devices s) in (length devices, send_all devices m s))"

definition notifyOnline :: "nat \<Rightarrow> server \<Rightarrow> server" where
  "notifyOnline i s =
     (case s_heap s i of
        None \<Rightarrow> s
      | Some d \<Rightarrow>
          send_all (filter (\<lambda>j. j \<noteq> i) (map snd (s_devices s)))
            ((msg_of MsgPeerOnline)\<lparr>m_peers := [\<lparr>p_name = dv_name d, p_vip = dv_vip d\<rparr>]\<rparr>) s)"

definition notifyOffline :: "u32 \<Rightarrow> server \<Rightarrow> server" where
  "notifyOffline vip s =
     send_all (map snd (s_devices s)) ((msg_of MsgPeerOffline)\<lparr>m_peer_vip := vip\<rparr>) s"

section \<open>Leaving\<close>

definition remove_entry :: "'k \<Rightarrow> nat \<Rightarrow> ('k \<times> nat) list \<Rightarrow> ('k \<times> nat) list" where
  "remove_entry k i m = (if map_of m k = Some i then AList.delete k m else m)"

definition removeDevice :: "nat \<Rightarrow> server \<Rightarrow> server" where
  "removeDevice i s =
     (case s_heap s i of
        None \<Rightarrow> s
      | Some d \<Rightarrow>
          let s1 = s\<lparr>s_devices := remove_entry (dv_vip d) i (s_devices s),
                     s_by_id := remove_entry (dv_name d) i (s_by_id s)\<rparr>;
              takenOver = (map_of (s_devices s1) (dv_vip d) \<noteq> None);
              s2 = (if dv_vip d \<noteq> 0 \<and> dv_hwid d = [] \<and> \<not> takenOver
                    then s1\<lparr>s_pool := Release (s_pool s1) (dv_vip d)\<rparr> else s1)
          in if dv_vip d = 0 then s2 else notifyOffline (dv_vip d) s2)"

section \<open>One connection\<close>

text \<open>What \<^verbatim>\<open>handleConn\<close> does on accepting a connection.\<close>

definition conn_accepted :: "nat \<Rightarrow> gotime \<Rightarrow> byte list \<Rightarrow> server \<Rightarrow> server" where
  "conn_accepted i now challenge s =
     sendMsg i ((msg_of MsgChallenge)\<lparr>m_nonce := challenge\<rparr>)
       (s\<lparr>s_heap := (s_heap s)(i \<mapsto> new_device now)\<rparr>)"

text \<open>The deferred calls when it returns.\<close>

definition conn_ended :: "nat \<Rightarrow> server \<Rightarrow> server" where
  "conn_ended i s = removeDevice i (closeMsg i (close_conn i s))"

text \<open>What follows a successful registration, up to the signalling loop.\<close>

definition call_online :: "message \<Rightarrow> u32 \<Rightarrow> server \<Rightarrow> server" where
  "call_online m vip s =
     (if m_hwid m \<noteq> [] \<and> s_has_callback s \<and> m_device_id m \<noteq> [] then
        let dk = DeviceKeyByID (s_table s) (m_device_id m)
        in if dk \<noteq> [] then s\<lparr>s_called := s_called s @ [(dk, m_device_name m, IP4String vip)]\<rparr> else s
      else s)"

definition PushedConfig :: "server \<Rightarrow> settings" where
  "PushedConfig s = copyMap (s_pushed s)"

definition welcome_device :: "nat \<Rightarrow> message \<Rightarrow> u32 \<Rightarrow> gotime \<Rightarrow> server \<Rightarrow> server" where
  "welcome_device i m vip lease s =
     (let s0 = call_online m vip s;
          leaseUnix = (if lease \<noteq> 0 then Unix lease else 0);
          s1 = sendMsg i ((msg_of MsgWelcome)\<lparr>m_vip := vip, m_lease_until := leaseUnix\<rparr>) s0;
          s2 = sendMsg i ((msg_of MsgPeerList)\<lparr>m_peers := peerList vip s1\<rparr>) s1;
          cfg = PushedConfig s2;
          s3 = (if length cfg > 0 then sendMsg i ((msg_of MsgConfigPush)\<lparr>m_config := cfg\<rparr>) s2 else s2)
      in notifyOnline i s3)"

datatype verdict = Refused string | Admitted u32 gotime | Registered

text \<open>The first message of a connection: registration, authentication or refusal.\<close>

definition check_hello :: "message \<Rightarrow> byte list \<Rightarrow> device_table \<Rightarrow> string option" where
  "check_hello m challenge t =
     (if m_device_name m = [] then Some ''device name required''
      else if m_device_id m = [] then Some ErrAuthFailedMsg
      else let key = DeviceKeyByID t (m_device_id m)
           in if key = [] then Some ErrAuthFailedMsg
              else if \<not> VerifyDeviceAuth key challenge (m_auth m) then Some ErrAuthFailedMsg
              else None)"

definition first_message :: "nat \<Rightarrow> message \<Rightarrow> byte list \<Rightarrow> gotime \<Rightarrow> byte list option
    \<Rightarrow> byte list option \<Rightarrow> byte list option \<Rightarrow> server \<Rightarrow> (verdict \<times> server) option" where
  "first_message i m challenge now id_rnd key_rnd nonce s =
     (if m_type m = MsgRegister
        then Some (Registered, handleRegister i m challenge id_rnd key_rnd nonce s)
      else if m_type m \<noteq> MsgHello
        then Some (Refused ''protocol error: expected hello or register'',
                   rejectAuth i ''protocol error: expected hello or register'' s)
      else case check_hello m challenge (s_table s) of
             Some reason \<Rightarrow> Some (Refused reason, rejectAuth i reason s)
           | None \<Rightarrow>
               (case register i (m_device_name m) (m_hwid m) now s of
                  None \<Rightarrow> None
                | Some (Inl e, s1) \<Rightarrow> Some (Refused e, rejectAuth i e s1)
                | Some (Inr (vip, lease), s1) \<Rightarrow>
                    Some (Admitted vip lease, welcome_device i m vip lease s1)))"

section \<open>Signalling\<close>

definition hole_notify :: "u32 \<Rightarrow> udp_addr \<Rightarrow> message" where
  "hole_notify vip a =
     (msg_of MsgHoleNotify)\<lparr>m_peer_vip := vip, m_addrs := [\<lparr>a_ip = IP_String (u_ip a), a_port = u_port a\<rparr>]\<rparr>"

definition find_device :: "u32 \<Rightarrow> server \<Rightarrow> (nat \<times> device) option" where
  "find_device vip s =
     (case map_of (s_devices s) vip of
        None \<Rightarrow> None | Some j \<Rightarrow> map_option (Pair j) (s_heap s j))"

definition handleHoleRequest :: "nat \<Rightarrow> device \<Rightarrow> u32 \<Rightarrow> server \<Rightarrow> server" where
  "handleHoleRequest i from_d peerVIP s =
     (case find_device peerVIP s of
        Some (j, peer_d) \<Rightarrow>
          (case dv_udp peer_d of
             Some peerAddr \<Rightarrow>
               let s1 = sendMsg i (hole_notify peerVIP peerAddr) s
               in (case dv_udp from_d of
                     Some fromAddr \<Rightarrow> sendMsg j (hole_notify (dv_vip from_d) fromAddr) s1
                   | None \<Rightarrow> s1)
           | None \<Rightarrow> sendMsg i ((error_msg ''peer not ready'')\<lparr>m_peer_vip := peerVIP\<rparr>) s)
      | None \<Rightarrow> sendMsg i ((error_msg ''peer not ready'')\<lparr>m_peer_vip := peerVIP\<rparr>) s)"

definition signal_message :: "nat \<Rightarrow> message \<Rightarrow> server \<Rightarrow> server" where
  "signal_message i m s =
     (case s_heap s i of
        None \<Rightarrow> s
      | Some d \<Rightarrow>
          if m_type m = MsgHeartbeat then sendMsg i (msg_of MsgHeartbeat) s
          else if m_type m = MsgHoleRequest then handleHoleRequest i d (m_peer_vip m) s
          else if m_type m = MsgForwardGet
            then sendMsg i ((msg_of MsgForwardPush)\<lparr>m_rules := Forward_of (s_table s) (dv_hwid d)\<rparr>) s
          else s)"

section \<open>The lease sweeper\<close>

definition sweep :: "gotime \<Rightarrow> server \<Rightarrow> server" where
  "sweep now s =
     (case Prune now (s_table s) (s_pool s) of (t, pool, _) \<Rightarrow> s\<lparr>s_table := t, s_pool := pool\<rparr>)"

section \<open>Start\<close>

text \<open>\<^verbatim>\<open>loadOrCreateNetworkKey\<close>: the file's content (none if unreadable), fresh random bytes,
  whether the write succeeds; the key and the file afterwards.\<close>

definition loadOrCreateNetworkKey :: "string \<Rightarrow> string option \<Rightarrow> byte list option \<Rightarrow> bool
    \<Rightarrow> (byte list \<times> string option) option" where
  "loadOrCreateNetworkKey path file rnd writable =
     (let stored = (if path = [] then None
                    else Option.bind file (\<lambda>c. Option.bind (hex_decode (TrimSpace c))
                           (\<lambda>key. if length key = 32 then Some key else None)))
      in case stored of
           Some key \<Rightarrow> Some (key, file)
         | None \<Rightarrow>
             (case rnd of
                None \<Rightarrow> None
              | Some key \<Rightarrow> if path = [] then Some (key, file)
                            else if writable then Some (key, Some (hex_encode key)) else None))"

definition zero_stats :: server_stats where
  "zero_stats = \<lparr>st_pkts = 0, st_bytes = 0, st_flooded = 0, st_icmp = 0, st_rejected = 0\<rparr>"

definition NewServer :: "string \<Rightarrow> device_file option \<Rightarrow> bool \<Rightarrow> string \<Rightarrow> settings_file option \<Rightarrow> bool
    \<Rightarrow> byte list \<Rightarrow> bool \<Rightarrow> gotime \<Rightarrow> server option" where
  "NewServer leaseFile leaseDisk leaseWritable configFile configDisk configWritable netKey callback now =
     (case (NewIPPool, NewCryptoWithKeys netKey netKey) of
        (Some pool, Some c) \<Rightarrow>
          Some \<lparr>s_crypto = c, s_network_key = netKey, s_pool = pool, s_devices = [], s_by_id = [],
                s_heap = (\<lambda>_. None), s_tcp_addr = [], s_udp_addr = [], s_started = now,
                s_table = NewDeviceTable leaseFile leaseDisk leaseWritable, s_stats = zero_stats,
                s_pushed = loadSettings configFile configDisk, s_settings_path = configFile,
                s_settings_disk = configDisk, s_settings_writable = configWritable,
                s_has_callback = callback, s_called = []\<rparr>
      | _ \<Rightarrow> None)"

end
