(* ===== verification/Relay.thy ===== *)
theory Relay
  imports Server Icmp
begin

text \<open>
  The UDP relay, \<^verbatim>\<open>relayLoop\<close> and \<^verbatim>\<open>flood\<close> of \<^verbatim>\<open>internal/server/server.go\<close>: one
  round of the loop maps a datagram, the address it came from and the server's state to the
  datagrams sent and the new state. The nonce of a synthesised answer and the outcome of a
  forwarding write are arguments.
\<close>

section \<open>The code\<close>

definition flood :: "byte list \<Rightarrow> u32 \<Rightarrow> server \<Rightarrow> datagram list" where
  "flood pkt exceptVIP s =
     concat (map (\<lambda>(vip, _, d). if vip = exceptVIP then []
                               else case dv_udp d of None \<Rightarrow> [] | Some a \<Rightarrow> [(a, pkt)])
       (online_devices s))"

definition count_rejected :: "server \<Rightarrow> server" where
  "count_rejected s = s\<lparr>s_stats := (s_stats s)\<lparr>st_rejected := st_rejected (s_stats s) + 1\<rparr>\<rparr>"

definition count_icmp :: "server \<Rightarrow> server" where
  "count_icmp s = s\<lparr>s_stats := (s_stats s)\<lparr>st_icmp := st_icmp (s_stats s) + 1\<rparr>\<rparr>"

definition count_flooded :: "server \<Rightarrow> server" where
  "count_flooded s = s\<lparr>s_stats := (s_stats s)\<lparr>st_flooded := st_flooded (s_stats s) + 1\<rparr>\<rparr>"

definition count_relayed :: "nat \<Rightarrow> server \<Rightarrow> server" where
  "count_relayed n s =
     s\<lparr>s_stats := (s_stats s)\<lparr>st_pkts := st_pkts (s_stats s) + 1,
                               st_bytes := st_bytes (s_stats s) + of_nat n\<rparr>\<rparr>"

text \<open>The upper nibble of the flags is the kind of the packet.\<close>

definition pk_kind :: "byte \<Rightarrow> byte" where
  "pk_kind flags = flags AND 0xF0"

definition refresh_addr :: "u32 \<Rightarrow> udp_addr \<Rightarrow> server \<Rightarrow> server" where
  "refresh_addr vip a s =
     (case map_of (s_devices s) vip of
        None \<Rightarrow> s | Some i \<Rightarrow> upd_device i (\<lambda>d. d\<lparr>dv_udp := Some a\<rparr>) s)"

definition device_addr :: "u32 \<Rightarrow> server \<Rightarrow> udp_addr option" where
  "device_addr vip s = Option.bind (find_device vip s) (\<lambda>(_, d). dv_udp d)"

text \<open>What the relay does with an authenticated packet; \<^term>\<open>None\<close> is a panic.\<close>

definition relay_packet :: "udp_addr \<Rightarrow> byte list \<Rightarrow> packet \<Rightarrow> byte list \<Rightarrow> bool \<Rightarrow> server
    \<Rightarrow> (datagram list \<times> server) option" where
  "relay_packet from buf pkt nonce ok s0 =
     (let srcVIP = pk_source pkt; dstVIP = pk_dest pkt; kind = pk_kind (pk_flags pkt);
          serverVIP = ServerVIP (s_pool s0);
          s = refresh_addr srcVIP from s0;
          known = (find_device srcVIP s0 \<noteq> None)
      in if kind = FlagProbe \<or> kind = FlagReply then
           Some (if \<not> known then ([], s)
                 else case device_addr dstVIP s of
                        Some a \<Rightarrow> ([(a, buf)], s)
                      | None \<Rightarrow> ([(from, buf)], s))
         else if kind = FlagData \<and> dstVIP = serverVIP then
           (if \<not> known then Some ([], s)
            else case echoReply (pk_data pkt) serverVIP of
                   None \<Rightarrow> None
                 | Some None \<Rightarrow> Some ([], s)
                 | Some (Some reply) \<Rightarrow>
                     (case Encrypt (s_crypto s) nonce FlagData serverVIP srcVIP reply of
                        Inl _ \<Rightarrow> Some ([], s)
                      | Inr enc \<Rightarrow> Some ([(from, enc)], count_icmp s)))
         else if kind = FlagData \<and> dstVIP = VNetBroadcast then
           Some (if \<not> known then ([], s) else (flood buf srcVIP s, count_flooded s))
         else
           Some (if \<not> known then ([], s)
                 else case device_addr dstVIP s of
                        None \<Rightarrow> ([], s)
                      | Some a \<Rightarrow> if ok then ([(a, buf)], count_relayed (length buf) s) else ([], s)))"

text \<open>One round: the read fills a buffer of \<^const>\<open>MaxPacket\<close> bytes and drops the excess.\<close>

definition relay_round :: "udp_addr \<Rightarrow> byte list \<Rightarrow> byte list \<Rightarrow> bool \<Rightarrow> server
    \<Rightarrow> (datagram list \<times> server) option" where
  "relay_round from datagram nonce ok s =
     (let buf = take MaxPacket datagram
      in if length buf < HeaderLen then Some ([], s)
         else case Decrypt (s_crypto s) buf of
                Inl _ \<Rightarrow> Some ([], count_rejected s)
              | Inr pkt \<Rightarrow> relay_packet from buf pkt nonce ok s)"

end
