(* ===== verification/Server_Control.thy ===== *)
theory Server_Control
  imports Server
begin

text \<open>
  The management operations of \<^verbatim>\<open>internal/server/control.go\<close>: the status snapshot, pushed
  settings, forwarding rules, address changes, revocation and unblocking of a device.
\<close>

section \<open>Lookup\<close>

text \<open>The first match in iteration order.\<close>

definition findByHWID :: "string \<Rightarrow> server \<Rightarrow> (nat \<times> device) option" where
  "findByHWID hwid s =
     (if hwid = [] then None
      else map_option snd (List.find (\<lambda>(_, _, d). dv_hwid d = hwid) (online_devices s)))"

section \<open>Snapshot\<close>

record device_info =
  di_name :: string
  di_hwid :: string
  di_vip :: string
  di_udp_addr :: string
  di_online_secs :: int

record snapshot =
  sn_server_vip :: string
  sn_vnet :: string
  sn_tcp_addr :: string
  sn_udp_addr :: string
  sn_uptime :: int
  sn_devices :: "device_info list"
  sn_leases :: "lease_info list"
  sn_lease_days :: int
  sn_pushed :: settings
  sn_stats :: server_stats

definition device_info_of :: "gotime \<Rightarrow> device \<Rightarrow> device_info" where
  "device_info_of now d =
     \<lparr>di_name = dv_name d, di_hwid = dv_hwid d, di_vip = IP4String (dv_vip d),
      di_udp_addr = (case dv_udp d of None \<Rightarrow> [] | Some a \<Rightarrow> UDPAddr_String a),
      di_online_secs = whole_seconds (now - dv_online_at d)\<rparr>"

definition onlineVIP :: "server \<Rightarrow> u32 \<Rightarrow> bool" where
  "onlineVIP s vip \<longleftrightarrow> vip \<in> set (map (\<lambda>(_, _, d). dv_vip d) (online_devices s))"

definition server_Snapshot :: "gotime \<Rightarrow> server \<Rightarrow> snapshot" where
  "server_Snapshot now s =
     \<lparr>sn_server_vip = IP4String (ServerVIP (s_pool s)), sn_vnet = VNetCIDR,
      sn_tcp_addr = s_tcp_addr s, sn_udp_addr = s_udp_addr s,
      sn_uptime = whole_seconds (now - s_started s),
      sn_devices = map (\<lambda>(_, _, d). device_info_of now d) (online_devices s),
      sn_leases = table_Snapshot (s_table s) now (onlineVIP s),
      sn_lease_days = LeaseDuration div (3600 * Second) div 24,
      sn_pushed = PushedConfig s, sn_stats = s_stats s\<rparr>"

section \<open>Changes\<close>

definition Push :: "settings \<Rightarrow> server \<Rightarrow> nat \<times> server" where
  "Push cfg s =
     (let pushed = merge_settings (s_pushed s) cfg;
          merged = copyMap pushed;
          s1 = s\<lparr>s_pushed := pushed,
                 s_settings_disk := saveSettings (s_settings_path s) (s_settings_writable s) merged
                                      (s_settings_disk s)\<rparr>
      in broadcast ((msg_of MsgConfigPush)\<lparr>m_config := merged\<rparr>) s1)"

definition SetDeviceForward :: "string \<Rightarrow> string list \<Rightarrow> server \<Rightarrow> (device_error + bool) \<times> server" where
  "SetDeviceForward hwid rules s =
     (case SetForward (s_table s) hwid rules of
        Inl e \<Rightarrow> (Inl e, s)
      | Inr t \<Rightarrow>
          let s1 = s\<lparr>s_table := t\<rparr>
          in (case findByHWID hwid s1 of
                None \<Rightarrow> (Inr False, s1)
              | Some (i, _) \<Rightarrow>
                  (Inr True, sendMsg i ((msg_of MsgForwardPush)\<lparr>m_rules := Forward_of t hwid\<rparr>) s1)))"

datatype set_ip_error = BadAddress | SetIPFailed device_error

definition SetDeviceIP :: "string \<Rightarrow> string \<Rightarrow> server \<Rightarrow> (set_ip_error + bool) \<times> server" where
  "SetDeviceIP hwid vipStr s =
     (case IP4 vipStr of
        None \<Rightarrow> (Inl BadAddress, s)
      | Some vip \<Rightarrow>
          (case SetIP (s_table s) hwid vip (s_pool s) of
             Inl e \<Rightarrow> (Inl (SetIPFailed e), s)
           | Inr (t, pool) \<Rightarrow>
               let s1 = s\<lparr>s_table := t, s_pool := pool\<rparr>
               in (case findByHWID hwid s1 of
                     None \<Rightarrow> (Inr False, s1)
                   | Some (i, d) \<Rightarrow>
                       if dv_conn d = None then (Inr False, s1) else (Inr True, close_conn i s1))))"

definition RevokeDeviceCredential :: "string \<Rightarrow> server \<Rightarrow> bool \<times> server" where
  "RevokeDeviceCredential hwid s =
     (case Block (s_table s) hwid of
        (b, t) \<Rightarrow>
          let s1 = s\<lparr>s_table := t\<rparr>
          in if b then
               (True, case findByHWID hwid s1 of
                        None \<Rightarrow> s1
                      | Some (i, d) \<Rightarrow> if dv_conn d = None then s1 else close_conn i s1)
             else (False, s1))"

definition UnblockDevice :: "string \<Rightarrow> server \<Rightarrow> bool \<times> server" where
  "UnblockDevice hwid s =
     (case Unblock (s_table s) hwid of (b, t) \<Rightarrow> (b, s\<lparr>s_table := t\<rparr>))"

end
