(* ===== verification/Sessions.thy ===== *)
theory Sessions
  imports Relay Server_Control
begin

text \<open>
  The running server: sessions of connections, writer goroutines, the relay, the sweeper and
  the management interface interleave as steps of one relation; its invariant says who is
  online under which address and name.
\<close>

section \<open>Choosing a free name\<close>

lemma numbered_name_inject [simp]: "numbered_name base i = numbered_name base j \<longleftrightarrow> i = j"
  by (simp add: numbered_name_def)

lemma free_name_None:
  "free_name by_id base i fuel = None \<Longrightarrow> j < fuel \<Longrightarrow> map_of by_id (numbered_name base (i + j)) \<noteq> None"
proof (induction fuel arbitrary: i j)
  case (Suc fuel)
  then have "map_of by_id (numbered_name base i) \<noteq> None" "free_name by_id base (Suc i) fuel = None"
    by (auto split: if_splits)
  then show ?case using Suc.IH [of "Suc i" "j - 1"] Suc.prems(2) by (cases j) auto
qed simp

lemma free_name_total: "\<exists>n. free_name by_id base i (Suc (length by_id)) = Some n"
proof (rule ccontr)
  assume "\<nexists>n. free_name by_id base i (Suc (length by_id)) = Some n"
  then have none: "free_name by_id base i (Suc (length by_id)) = None" using not_None_eq by blast
  let ?names = "(\<lambda>j. numbered_name base (i + j)) ` {..< Suc (length by_id)}"
  have "?names \<subseteq> fst ` set by_id"
    using free_name_None [OF none] by (fastforce simp: map_of_eq_None_iff)
  then have "card ?names \<le> card (fst ` set by_id)" by (intro card_mono) simp_all
  also have "\<dots> \<le> length by_id" by (metis card_length length_map list.set_map)
  finally have "card ?names \<le> length by_id" .
  moreover have "card ?names = Suc (length by_id)"
    by (subst card_image) (auto simp: inj_on_def)
  ultimately show False by simp
qed

lemma free_name_Some: "free_name by_id base i fuel = Some n \<Longrightarrow> map_of by_id n = None"
  by (induction by_id base i fuel rule: free_name.induct) (auto split: if_splits)

lemma unique_name_total: "\<exists>n. unique_name by_id i name = Some n"
  using free_name_total by (auto simp: unique_name_def split: option.splits)

lemma unique_name_free:
  "unique_name by_id i name = Some n \<Longrightarrow> map_of by_id n = None \<or> map_of by_id n = Some i"
  using free_name_Some by (fastforce simp: unique_name_def split: option.splits if_splits)

lemma unique_name_same: "map_of by_id name = None \<Longrightarrow> unique_name by_id i name = Some name"
  by (simp add: unique_name_def)

lemma register_locked_total: "register_locked i name hwid vip s \<noteq> None"
proof -
  obtain n where "unique_name (s_by_id s) i name = Some n" using unique_name_total by blast
  then show ?thesis by (simp add: register_locked_def Let_def)
qed

lemma register_total: "\<exists>r. register i name hwid now s = Some r"
  using register_locked_total by (auto simp: register_def split: prod.splits sum.splits)

lemma first_message_total: "\<exists>r. first_message i m c now a b n s = Some r"
proof (cases "check_hello m c (s_table s)")
  case None
  obtain res s1 where "register i (m_device_name m) (m_hwid m) now s = Some (res, s1)"
    using register_total by fastforce
  then show ?thesis using None by (cases res) (auto simp: first_message_def)
qed (simp add: first_message_def)

section \<open>What an operation leaves alone\<close>

definition conn_live :: "device \<Rightarrow> bool" where
  "conn_live d \<longleftrightarrow> (case dv_conn d of Some k \<Rightarrow> k_open k | None \<Rightarrow> False)"

text \<open>The directory: who is registered how. Quiet steps keep it and open no connection.\<close>

definition identity :: "device \<Rightarrow> string \<times> u32 \<times> string" where
  "identity d = (dv_name d, dv_vip d, dv_hwid d)"

definition calm :: "device \<Rightarrow> device \<Rightarrow> bool" where
  "calm d d' \<longleftrightarrow> identity d' = identity d \<and> (conn_live d' \<longrightarrow> conn_live d)"

definition quiet :: "server \<Rightarrow> server \<Rightarrow> bool" where
  "quiet s s' \<longleftrightarrow>
     s_devices s' = s_devices s \<and> s_by_id s' = s_by_id s
     \<and> (\<forall>i. rel_option calm (s_heap s i) (s_heap s' i))"

named_theorems quiet_intros \<open>operations that keep the directory\<close>

lemma calm_refl [simp]: "calm d d"
  by (simp add: calm_def)

lemma calm_trans: "calm d e \<Longrightarrow> calm e f \<Longrightarrow> calm d f"
  by (auto simp: calm_def)

lemma quiet_refl [quiet_intros]: "quiet s s"
  by (simp add: quiet_def option.rel_refl)

lemma quiet_trans:
  assumes "quiet s t" and "quiet t u" shows "quiet s u"
  unfolding quiet_def
proof (intro conjI allI)
  fix i
  have "rel_option calm (s_heap s i) (s_heap t i)" "rel_option calm (s_heap t i) (s_heap u i)"
    using assms by (simp_all add: quiet_def)
  then show "rel_option calm (s_heap s i) (s_heap u i)"
    by (cases "s_heap s i"; cases "s_heap t i"; cases "s_heap u i") (auto intro: calm_trans)
qed (use assms in \<open>simp_all add: quiet_def\<close>)

lemma calm_enqueue [simp]: "calm d (enqueue m d)"
  by (simp add: calm_def enqueue_def identity_def conn_live_def)

lemma calm_close [simp]: "calm d (close_device_conn d)" "calm d (close_ch d)"
  by (auto simp: calm_def close_device_conn_def close_ch_def identity_def conn_live_def split: option.splits)

lemma calm_write [simp]: "calm d (snd (conn_write ok bs d))" "calm d (write_direct m d)"
  by (auto simp: calm_def conn_write_def write_direct_def identity_def conn_live_def split: option.splits)

lemma quiet_upd: "(\<And>d. calm d (f d)) \<Longrightarrow> quiet s t \<Longrightarrow> quiet s (upd_device i f t)"
  by (rule quiet_trans [of s t]) (auto simp: quiet_def upd_device_def option.rel_map option.rel_refl)

text \<open>Each rule says that a quiet run followed by the operation is quiet.\<close>

lemma quiet_ops [quiet_intros]:
  assumes "quiet s t"
  shows "quiet s (sendMsg i m t)" "quiet s (closeMsg i t)" "quiet s (close_conn i t)"
    "quiet s (upd_device i (write_direct m) t)"
  using assms by (simp_all add: sendMsg_def closeMsg_def close_conn_def quiet_upd)

lemma quiet_fields [quiet_intros]:
  assumes "quiet s t"
  shows "quiet s (t\<lparr>s_table := tb\<rparr>)" "quiet s (t\<lparr>s_pool := p\<rparr>)" "quiet s (t\<lparr>s_table := tb, s_pool := p\<rparr>)"
    "quiet s (t\<lparr>s_called := c\<rparr>)" "quiet s (t\<lparr>s_stats := x\<rparr>)" "quiet s (t\<lparr>s_pushed := q, s_settings_disk := w\<rparr>)"
  using assms by (simp_all add: quiet_def)

lemma quiet_send_all [quiet_intros]: "quiet s t \<Longrightarrow> quiet s (send_all is m t)"
  unfolding send_all_def by (induction "is" arbitrary: t) (simp_all add: quiet_ops)

lemma quiet_broadcast [quiet_intros]: "quiet s t \<Longrightarrow> quiet s (snd (broadcast m t))"
  by (simp add: broadcast_def Let_def quiet_send_all)

lemma quiet_rejectAuth [quiet_intros]: "quiet s t \<Longrightarrow> quiet s (rejectAuth i reason t)"
  unfolding rejectAuth_def by (intro quiet_intros)

lemma quiet_handleRegister [quiet_intros]: "quiet s t \<Longrightarrow> quiet s (handleRegister i m c a b n t)"
  by (auto simp: handleRegister_def Let_def intro!: quiet_intros split: sum.splits option.splits)

lemma quiet_allocVIP: "allocVIP hwid name now t = (r, t') \<Longrightarrow> quiet s t \<Longrightarrow> quiet s t'"
  by (auto simp: allocVIP_def intro: quiet_intros split: if_splits option.splits prod.splits)

lemma quiet_call_online [quiet_intros]: "quiet s t \<Longrightarrow> quiet s (call_online m vip t)"
  by (auto simp: call_online_def Let_def intro: quiet_intros)

lemma quiet_notify [quiet_intros]:
  "quiet s t \<Longrightarrow> quiet s (notifyOnline i t)" "quiet s t \<Longrightarrow> quiet s (notifyOffline vip t)"
  by (auto simp: notifyOnline_def notifyOffline_def intro: quiet_intros split: option.splits)

lemma quiet_welcome [quiet_intros]: "quiet s t \<Longrightarrow> quiet s (welcome_device i m vip lease t)"
  unfolding welcome_device_def Let_def by (auto intro!: quiet_intros)

lemma quiet_signal [quiet_intros]: "quiet s t \<Longrightarrow> quiet s (signal_message i m t)"
  by (auto simp: signal_message_def handleHoleRequest_def Let_def intro!: quiet_intros split: option.splits)

lemma quiet_sweep [quiet_intros]: "quiet s t \<Longrightarrow> quiet s (sweep now t)"
  by (auto simp: sweep_def intro!: quiet_intros split: prod.splits)

lemma quiet_counts [quiet_intros]:
  assumes "quiet s t"
  shows "quiet s (count_rejected t)" "quiet s (count_icmp t)" "quiet s (count_flooded t)" "quiet s (count_relayed n t)"
  using assms by (simp_all add: count_rejected_def count_icmp_def count_flooded_def count_relayed_def quiet_fields)

lemma quiet_refresh [quiet_intros]: "quiet s t \<Longrightarrow> quiet s (refresh_addr vip a t)"
  by (auto simp: refresh_addr_def calm_def identity_def conn_live_def intro!: quiet_upd split: option.splits)

lemma quiet_relay: "relay_round from dg nonce ok s = Some (out, s') \<Longrightarrow> quiet s s'"
  by (auto simp: relay_round_def relay_packet_def Let_def intro!: quiet_intros
      split: if_splits sum.splits option.splits)

lemma quiet_control [quiet_intros]:
  assumes "quiet s t"
  shows "quiet s (snd (Push cfg t))" "quiet s (snd (SetDeviceForward hwid rules t))"
    "quiet s (snd (SetDeviceIP hwid vipStr t))" "quiet s (snd (RevokeDeviceCredential hwid t))"
    "quiet s (snd (UnblockDevice hwid t))"
  using assms
  by (auto simp: Push_def SetDeviceForward_def SetDeviceIP_def RevokeDeviceCredential_def UnblockDevice_def Let_def
      intro!: quiet_intros split: option.splits sum.splits prod.splits)


section \<open>The steps of the server\<close>

text \<open>Where the goroutine of a connection stands.\<close>

datatype session = Awaiting "byte list" | Serving u32 | Closing | Ended

type_synonym system = "server \<times> (nat \<Rightarrow> session option)"

inductive system_step :: "system \<Rightarrow> system \<Rightarrow> bool" where
  accept: "ses i = None \<Longrightarrow> system_step (s, ses) (conn_accepted i now chal s, ses(i \<mapsto> Awaiting chal))"
| writer: "s_heap s i = Some d \<Longrightarrow> write_round ok d = Some (b, d') \<Longrightarrow>
    system_step (s, ses) (s\<lparr>s_heap := (s_heap s)(i \<mapsto> d')\<rparr>, ses)"
| admitted: "ses i = Some (Awaiting chal) \<Longrightarrow>
    first_message i m chal now a b n s = Some (Admitted vip lease, s') \<Longrightarrow>
    system_step (s, ses) (s', ses(i \<mapsto> Serving vip))"
| not_admitted: "ses i = Some (Awaiting chal) \<Longrightarrow>
    first_message i m chal now a b n s = Some (v, s') \<Longrightarrow> (\<nexists>vip lease. v = Admitted vip lease) \<Longrightarrow>
    system_step (s, ses) (s', ses(i \<mapsto> Closing))"
| signal: "ses i = Some (Serving vip) \<Longrightarrow> system_step (s, ses) (signal_message i m s, ses)"
| finish: "ses i = Some st \<Longrightarrow> st \<noteq> Ended \<Longrightarrow> system_step (s, ses) (conn_ended i s, ses(i \<mapsto> Ended))"
| relay: "relay_round from dg nonce ok s = Some (out, s') \<Longrightarrow> system_step (s, ses) (s', ses)"
| sweep: "system_step (s, ses) (sweep now s, ses)"
| push: "system_step (s, ses) (snd (Push cfg s), ses)"
| set_forward: "system_step (s, ses) (snd (SetDeviceForward hwid rules s), ses)"
| set_ip: "system_step (s, ses) (snd (SetDeviceIP hwid vipStr s), ses)"
| revoke: "system_step (s, ses) (snd (RevokeDeviceCredential hwid s), ses)"
| unblock: "system_step (s, ses) (snd (UnblockDevice hwid s), ses)"

inductive_cases system_stepE: "system_step (s, ses) (s', ses')"

definition system_reachable :: "server \<Rightarrow> system \<Rightarrow> bool" where
  "system_reachable s0 st \<longleftrightarrow> system_step\<^sup>*\<^sup>* (s0, \<lambda>_. None) st"

section \<open>The invariant\<close>

definition serves :: "server \<Rightarrow> (nat \<Rightarrow> session option) \<Rightarrow> nat \<Rightarrow> device \<Rightarrow> bool" where
  "serves s ses i d \<longleftrightarrow> s_heap s i = Some d \<and> ses i = Some (Serving (dv_vip d))"

definition system_ok :: "system \<Rightarrow> bool" where
  "system_ok st \<longleftrightarrow> (case st of (s, ses) \<Rightarrow>
     keys_distinct (s_devices s) \<and> keys_distinct (s_by_id s)
     \<and> (\<forall>vip i. map_of (s_devices s) vip = Some i \<longrightarrow> (\<exists>d. serves s ses i d \<and> dv_vip d = vip))
     \<and> (\<forall>name i. map_of (s_by_id s) name = Some i \<longrightarrow> (\<exists>d. serves s ses i d \<and> dv_name d = name))
     \<and> (\<forall>i vip. ses i = Some (Serving vip) \<longrightarrow>
          (\<exists>d. serves s ses i d \<and> dv_vip d = vip \<and> map_of (s_by_id s) (dv_name d) = Some i
               \<and> (map_of (s_devices s) vip = Some i \<or> \<not> conn_live d)))
     \<and> (\<forall>i. ses i = None \<longleftrightarrow> s_heap s i = None))"

lemma system_ok_start:
  "s_devices s = [] \<Longrightarrow> s_by_id s = [] \<Longrightarrow> s_heap s = (\<lambda>_. None) \<Longrightarrow> system_ok (s, \<lambda>_. None)"
  by (simp add: system_ok_def)

lemma quiet_heap:
  assumes "quiet s s'"
  shows "s_heap s i = Some d \<Longrightarrow> \<exists>d'. s_heap s' i = Some d' \<and> calm d d'"
    and "s_heap s' i = None \<longleftrightarrow> s_heap s i = None"
proof -
  have "rel_option calm (s_heap s i) (s_heap s' i)" using assms by (simp add: quiet_def)
  then show "s_heap s i = Some d \<Longrightarrow> \<exists>d'. s_heap s' i = Some d' \<and> calm d d'"
    and "s_heap s' i = None \<longleftrightarrow> s_heap s i = None"
    by (cases "s_heap s i"; cases "s_heap s' i"; simp)+
qed

lemma calmD:
  assumes "calm d d'"
  shows "dv_name d' = dv_name d" "dv_vip d' = dv_vip d" "dv_hwid d' = dv_hwid d" "\<not> conn_live d \<Longrightarrow> \<not> conn_live d'"
  using assms by (auto simp: calm_def identity_def)

text \<open>The three tables of the invariant, one clause each.\<close>

lemma system_okI:
  assumes "keys_distinct (s_devices s)" "keys_distinct (s_by_id s)"
    and "\<And>vip i. map_of (s_devices s) vip = Some i \<Longrightarrow> \<exists>d. serves s ses i d \<and> dv_vip d = vip"
    and "\<And>name i. map_of (s_by_id s) name = Some i \<Longrightarrow> \<exists>d. serves s ses i d \<and> dv_name d = name"
    and "\<And>i vip. ses i = Some (Serving vip) \<Longrightarrow>
      \<exists>d. serves s ses i d \<and> dv_vip d = vip \<and> map_of (s_by_id s) (dv_name d) = Some i
          \<and> (map_of (s_devices s) vip = Some i \<or> \<not> conn_live d)"
    and "\<And>i. ses i = None \<longleftrightarrow> s_heap s i = None"
  shows "system_ok (s, ses)"
  using assms by (simp add: system_ok_def)

lemma system_okD:
  assumes "system_ok (s, ses)"
  shows "keys_distinct (s_devices s)" "keys_distinct (s_by_id s)"
    and "map_of (s_devices s) vip = Some i \<Longrightarrow> \<exists>d. serves s ses i d \<and> dv_vip d = vip"
    and "map_of (s_by_id s) name = Some i \<Longrightarrow> \<exists>d. serves s ses i d \<and> dv_name d = name"
    and "ses i = Some (Serving vip) \<Longrightarrow>
      \<exists>d. serves s ses i d \<and> dv_vip d = vip \<and> map_of (s_by_id s) (dv_name d) = Some i
          \<and> (map_of (s_devices s) vip = Some i \<or> \<not> conn_live d)"
    and "ses i = None \<longleftrightarrow> s_heap s i = None"
  using assms unfolding system_ok_def prod.case by blast+

lemma quiet_serves:
  assumes "quiet s s'" and "serves s ses i d"
  shows "\<exists>d'. serves s' ses i d' \<and> dv_vip d' = dv_vip d \<and> dv_name d' = dv_name d
    \<and> (\<not> conn_live d \<longrightarrow> \<not> conn_live d')"
proof -
  obtain d' where "s_heap s' i = Some d'" "calm d d'"
    using quiet_heap(1) [OF assms(1)] assms(2) by (auto simp: serves_def)
  then show ?thesis using assms(2) calmD [of d d'] by (auto simp: serves_def)
qed

lemma system_ok_quiet:
  assumes ok: "system_ok (s, ses)" and q: "quiet s s'"
  shows "system_ok (s', ses)"
proof (rule system_okI)
  note D = system_okD [OF ok]
  have same: "s_devices s' = s_devices s" "s_by_id s' = s_by_id s" using q by (simp_all add: quiet_def)
  show "keys_distinct (s_devices s')" "keys_distinct (s_by_id s')" using D(1,2) same by simp_all
  note ex = quiet_serves [OF q]
  show "\<exists>d. serves s' ses i d \<and> dv_vip d = vip" if "map_of (s_devices s') vip = Some i" for vip i
    using D(3) [of vip i] that ex unfolding same by blast
  show "\<exists>d. serves s' ses i d \<and> dv_name d = name" if "map_of (s_by_id s') name = Some i" for name i
    using D(4) [of name i] that ex unfolding same by blast
  show "\<exists>d. serves s' ses i d \<and> dv_vip d = vip \<and> map_of (s_by_id s') (dv_name d) = Some i
      \<and> (map_of (s_devices s') vip = Some i \<or> \<not> conn_live d)" if ser: "ses i = Some (Serving vip)" for i vip
  proof -
    obtain d where d: "serves s ses i d" "dv_vip d = vip" "map_of (s_by_id s) (dv_name d) = Some i"
      "map_of (s_devices s) vip = Some i \<or> \<not> conn_live d"
      using D(5) [OF ser] by blast
    then show ?thesis using ex [OF d(1)] unfolding same by (metis (no_types))
  qed
  show "ses i = None \<longleftrightarrow> s_heap s' i = None" for i
    using D(6) quiet_heap(2) [OF q] by simp
qed

lemma system_ok_ses:
  assumes "system_ok (s, ses)" and "ses i = Some st" and "\<nexists>v. st = Serving v" and "\<nexists>v. st' = Serving v"
  shows "system_ok (s, ses(i \<mapsto> st'))"
proof -
  have serves: "serves s (ses(i \<mapsto> st')) j d \<longleftrightarrow> serves s ses j d" for j d
    using assms(2-4) by (auto simp: serves_def)
  have serving: "(ses(i \<mapsto> st')) j = Some (Serving v) \<longleftrightarrow> ses j = Some (Serving v)" for j v
    using assms(2-4) by auto
  have none: "(ses(i \<mapsto> st')) j = None \<longleftrightarrow> ses j = None" for j
    using assms(2) by auto
  show ?thesis using assms(1) unfolding system_ok_def prod.case serves serving none .
qed


text \<open>The four steps that change the directory or the sessions.\<close>

lemma serves_other:
  assumes "serves s ses j d" and "s_heap s' j = s_heap s j" and "ses' j = ses j"
  shows "serves s' ses' j d"
  using assms by (simp add: serves_def)

lemma system_ok_accept:
  assumes ok: "system_ok (s, ses)" and new: "ses i = None"
  shows "system_ok (conn_accepted i now chal s, ses(i \<mapsto> Awaiting chal))"
proof -
  let ?s = "s\<lparr>s_heap := (s_heap s)(i \<mapsto> new_device now)\<rparr>"
  note D = system_okD [OF ok]
  have keep: "serves ?s (ses(i \<mapsto> Awaiting chal)) j d" if "serves s ses j d" for j d
    using that new by (auto simp: serves_def)
  have f: "s_devices ?s = s_devices s" "s_by_id ?s = s_by_id s" by simp_all
  have "system_ok (?s, ses(i \<mapsto> Awaiting chal))"
  proof (rule system_okI)
    show "\<exists>d. serves ?s (ses(i \<mapsto> Awaiting chal)) j d \<and> dv_vip d = vip \<and> map_of (s_by_id ?s) (dv_name d) = Some j
      \<and> (map_of (s_devices ?s) vip = Some j \<or> \<not> conn_live d)"
      if "(ses(i \<mapsto> Awaiting chal)) j = Some (Serving vip)" for j vip
    proof -
      have "ses j = Some (Serving vip)" using that by (auto split: if_splits)
      from D(5) [OF this] show ?thesis using keep unfolding f by blast
    qed
    show "\<exists>d. serves ?s (ses(i \<mapsto> Awaiting chal)) j d \<and> dv_vip d = vip"
      if "map_of (s_devices ?s) vip = Some j" for vip j
      using that D(3) keep unfolding f by blast
    show "\<exists>d. serves ?s (ses(i \<mapsto> Awaiting chal)) j d \<and> dv_name d = name"
      if "map_of (s_by_id ?s) name = Some j" for name j
      using that D(4) keep unfolding f by blast
  qed (use D(1,2,6) in simp_all)
  moreover have "quiet ?s (conn_accepted i now chal s)"
    unfolding conn_accepted_def by (intro quiet_intros)
  ultimately show ?thesis by (rule system_ok_quiet)
qed


lemma system_ok_register:
  assumes ok: "system_ok (s, ses)" and new: "ses i = Some (Awaiting chal)"
    and reg: "register_locked i name0 hwid vip s = Some s'"
  shows "system_ok (s', ses(i \<mapsto> Serving vip))"
    and "map_of (s_devices s') vip = Some i"
    and "\<exists>d. serves s' (ses(i \<mapsto> Serving vip)) i d \<and> dv_hwid d = hwid \<and> dv_vip d = vip"
    and "j \<noteq> i \<Longrightarrow> map_of (s_devices s) vip = Some j \<Longrightarrow> \<exists>d. s_heap s' j = Some d \<and> \<not> conn_live d"
proof -
  note D = system_okD [OF ok]
  obtain name where name: "unique_name (s_by_id s) i name0 = Some name"
    using reg by (auto simp: register_locked_def split: option.splits)
  define s1 where "s1 = (case map_of (s_devices s) vip of
      Some j \<Rightarrow> if j \<noteq> i then close_conn j s else s | None \<Rightarrow> s)"
  have s': "s_devices s' = AList.update vip i (s_devices s)" "s_by_id s' = AList.update name i (s_by_id s)"
    "s_heap s' = (s_heap s1)(i := map_option (\<lambda>d. d\<lparr>dv_name := name, dv_vip := vip, dv_hwid := hwid\<rparr>) (s_heap s1 i))"
    using reg name by (auto simp: register_locked_def Let_def upd_device_def s1_def)
  have q: "quiet s s1" by (auto simp: s1_def intro!: quiet_intros split: option.splits)
  have notin: "map_of (s_devices s) v \<noteq> Some i" "map_of (s_by_id s) n \<noteq> Some i" for v n
    using D(3) [of v i] D(4) [of n i] new by (auto simp: serves_def)
  then have free: "map_of (s_by_id s) name = None" using unique_name_free [OF name] by blast
  obtain di where "s_heap s1 i = Some di"
    using D(6) [of i] new quiet_heap(2) [OF q, of i] by (cases "s_heap s1 i") auto
  then have self: "serves s' (ses(i \<mapsto> Serving vip)) i (di\<lparr>dv_name := name, dv_vip := vip, dv_hwid := hwid\<rparr>)"
    by (simp add: serves_def s')
  have other: "\<exists>d'. serves s' (ses(i \<mapsto> Serving vip)) j d' \<and> dv_vip d' = dv_vip d \<and> dv_name d' = dv_name d
      \<and> (\<not> conn_live d \<longrightarrow> \<not> conn_live d')" if srv: "serves s ses j d" for j d
  proof -
    have ji: "j \<noteq> i" using srv new by (auto simp: serves_def)
    obtain d' where d': "serves s1 ses j d'" "dv_vip d' = dv_vip d \<and> dv_name d' = dv_name d
      \<and> (\<not> conn_live d \<longrightarrow> \<not> conn_live d')"
      using quiet_serves [OF q srv] by blast
    have "serves s' (ses(i \<mapsto> Serving vip)) j d'"
      by (rule serves_other [OF d'(1)]) (use ji in \<open>simp_all add: s'\<close>)
    then show ?thesis using d'(2) by blast
  qed
  show dead: "\<exists>d. s_heap s' j = Some d \<and> \<not> conn_live d"
    if j: "j \<noteq> i" "map_of (s_devices s) vip = Some j" for j
  proof -
    obtain d where "s_heap s j = Some d" using D(3) [OF j(2)] by (auto simp: serves_def)
    then have "s_heap s1 j = Some (close_device_conn d)"
      using j by (simp add: s1_def close_conn_def upd_device_def)
    moreover have "\<not> conn_live (close_device_conn d)"
      by (simp add: conn_live_def close_device_conn_def split: option.splits)
    ultimately show ?thesis using j by (simp add: s')
  qed
  show "map_of (s_devices s') vip = Some i" by (simp add: s')
  show "\<exists>d. serves s' (ses(i \<mapsto> Serving vip)) i d \<and> dv_hwid d = hwid \<and> dv_vip d = vip"
    by (rule exI, rule conjI, rule self) simp
  show "system_ok (s', ses(i \<mapsto> Serving vip))"
  proof (rule system_okI)
    show "\<exists>d. serves s' (ses(i \<mapsto> Serving vip)) j d \<and> dv_vip d = v"
      if "map_of (s_devices s') v = Some j" for v j
      using that self other D(3) by (cases "v = vip") (force simp: s')+
    show "\<exists>d. serves s' (ses(i \<mapsto> Serving vip)) j d \<and> dv_name d = n"
      if "map_of (s_by_id s') n = Some j" for n j
      using that self other D(4) by (cases "n = name") (force simp: s')+
    show "\<exists>d. serves s' (ses(i \<mapsto> Serving vip)) j d \<and> dv_vip d = v \<and> map_of (s_by_id s') (dv_name d) = Some j
        \<and> (map_of (s_devices s') v = Some j \<or> \<not> conn_live d)"
      if ser: "(ses(i \<mapsto> Serving vip)) j = Some (Serving v)" for j v
    proof (cases "j = i")
      case True
      then have "v = vip" using ser by simp
      then show ?thesis using True self
        by (intro exI [of _ "di\<lparr>dv_name := name, dv_vip := vip, dv_hwid := hwid\<rparr>"]) (simp add: s')
    next
      case False
      then obtain d where d: "serves s ses j d" "dv_vip d = v" "map_of (s_by_id s) (dv_name d) = Some j"
        "map_of (s_devices s) v = Some j \<or> \<not> conn_live d"
        using D(5) [of j v] ser by (auto split: if_splits)
      obtain d' where d': "serves s' (ses(i \<mapsto> Serving vip)) j d'" "dv_vip d' = dv_vip d" "dv_name d' = dv_name d"
        "\<not> conn_live d \<longrightarrow> \<not> conn_live d'"
        using other [OF d(1)] by blast
      have "map_of (s_by_id s') (dv_name d') = Some j" using d(3) d'(3) free by (auto simp: s')
      moreover have "map_of (s_devices s') v = Some j \<or> \<not> conn_live d'"
      proof (cases "v = vip")
        case True
        then show ?thesis
          using d(4) d'(1,4) dead [OF False] by (auto simp: serves_def)
      next
        case neq: False
        then show ?thesis using d(4) d'(4) by (auto simp: s')
      qed
      ultimately show ?thesis using d d' by blast
    qed
    show "(ses(i \<mapsto> Serving vip)) j = None \<longleftrightarrow> s_heap s' j = None" for j
      using D(6) [of j] quiet_heap(2) [OF q, of j] new by (auto simp: s')
  qed (use D(1,2) in \<open>simp_all add: s'\<close>)
qed


lemma remove_entry_lookup:
  "map_of (remove_entry k i m) k' = (if k' = k \<and> map_of m k = Some i then None else map_of m k')"
  by (simp add: remove_entry_def)

lemma remove_entry_distinct: "keys_distinct m \<Longrightarrow> keys_distinct (remove_entry k i m)"
  by (simp add: remove_entry_def)

definition drop_entries :: "nat \<Rightarrow> device \<Rightarrow> server \<Rightarrow> server" where
  "drop_entries i d s =
     s\<lparr>s_devices := remove_entry (dv_vip d) i (s_devices s), s_by_id := remove_entry (dv_name d) i (s_by_id s)\<rparr>"

lemma system_ok_drop:
  assumes ok: "system_ok (s, ses)" and d: "s_heap s i = Some d"
  shows "system_ok (drop_entries i d s, ses(i \<mapsto> Ended))"
proof -
  note D = system_okD [OF ok]
  let ?s = "drop_entries i d s"
  have f: "s_heap ?s = s_heap s" "s_devices ?s = remove_entry (dv_vip d) i (s_devices s)"
    "s_by_id ?s = remove_entry (dv_name d) i (s_by_id s)"
    by (simp_all add: drop_entries_def)
  have dev: "map_of (s_devices ?s) v \<noteq> Some i" and nam: "map_of (s_by_id ?s) n \<noteq> Some i" for v n
    using D(3) [of v i] D(4) [of n i] d by (auto simp: f remove_entry_lookup serves_def)
  have keep: "serves ?s (ses(i \<mapsto> Ended)) j e" if "serves s ses j e" "j \<noteq> i" for j e
    using that by (simp add: serves_def f)
  show ?thesis
  proof (rule system_okI)
    show "\<exists>e. serves ?s (ses(i \<mapsto> Ended)) j e \<and> dv_vip e = v" if l: "map_of (s_devices ?s) v = Some j" for v j
    proof -
      have "map_of (s_devices s) v = Some j" using l by (auto simp: f remove_entry_lookup split: if_splits)
      moreover have "j \<noteq> i" using l dev by blast
      ultimately show ?thesis using D(3) keep by blast
    qed
    show "\<exists>e. serves ?s (ses(i \<mapsto> Ended)) j e \<and> dv_name e = n" if l: "map_of (s_by_id ?s) n = Some j" for n j
    proof -
      have "map_of (s_by_id s) n = Some j" using l by (auto simp: f remove_entry_lookup split: if_splits)
      moreover have "j \<noteq> i" using l nam by blast
      ultimately show ?thesis using D(4) keep by blast
    qed
    show "\<exists>e. serves ?s (ses(i \<mapsto> Ended)) j e \<and> dv_vip e = v \<and> map_of (s_by_id ?s) (dv_name e) = Some j
        \<and> (map_of (s_devices ?s) v = Some j \<or> \<not> conn_live e)"
      if ser: "(ses(i \<mapsto> Ended)) j = Some (Serving v)" for j v
    proof -
      have j: "j \<noteq> i" "ses j = Some (Serving v)" using ser by (auto split: if_splits)
      obtain e where e: "serves s ses j e" "dv_vip e = v" "map_of (s_by_id s) (dv_name e) = Some j"
        "map_of (s_devices s) v = Some j \<or> \<not> conn_live e"
        using D(5) [OF j(2)] by blast
      have "map_of (s_by_id ?s) (dv_name e) = Some j" "map_of (s_devices ?s) v = Some j \<or> \<not> conn_live e"
        using e(3,4) j(1) by (auto simp: f remove_entry_lookup)
      then show ?thesis using keep [OF e(1) j(1)] e(2) by blast
    qed
    show "(ses(i \<mapsto> Ended)) j = None \<longleftrightarrow> s_heap ?s j = None" for j
      using D(6) [of j] d by (auto simp: f)
  qed (use D(1,2) in \<open>simp_all add: f remove_entry_distinct\<close>)
qed

lemma quiet_removeDevice: "s_heap s i = Some d \<Longrightarrow> quiet (drop_entries i d s) (removeDevice i s)"
  by (auto simp: removeDevice_def drop_entries_def Let_def intro!: quiet_intros)

lemma system_ok_finish:
  assumes "system_ok (s, ses)" and "ses i = Some st"
  shows "system_ok (conn_ended i s, ses(i \<mapsto> Ended))"
proof -
  let ?s = "closeMsg i (close_conn i s)"
  have ok: "system_ok (?s, ses)" by (rule system_ok_quiet [OF assms(1)]) (intro quiet_intros)
  obtain d where d: "s_heap ?s i = Some d" using system_okD(6) [OF ok, of i] assms(2) by auto
  show ?thesis unfolding conn_ended_def
    by (rule system_ok_quiet [OF system_ok_drop [OF ok d] quiet_removeDevice [OF d]])
qed

lemma system_ok_admitted:
  assumes ok: "system_ok (s, ses)" and new: "ses i = Some (Awaiting chal)"
    and run: "first_message i m chal now a b n s = Some (Admitted vip lease, s')"
  shows "system_ok (s', ses(i \<mapsto> Serving vip))"
proof -
  obtain s1 where "register i (m_device_name m) (m_hwid m) now s = Some (Inr (vip, lease), s1)"
    and s': "s' = welcome_device i m vip lease s1"
    using run by (auto simp: first_message_def split: if_splits option.splits sum.splits)
  then obtain s0 where alloc: "allocVIP (m_hwid m) (m_device_name m) now s = (Inr (vip, lease), s0)"
    and reg: "register_locked i (m_device_name m) (m_hwid m) vip s0 = Some s1"
    by (auto simp: register_def split: prod.splits sum.splits)
  have "system_ok (s0, ses)" using system_ok_quiet [OF ok quiet_allocVIP [OF alloc quiet_refl]] .
  then have "system_ok (s1, ses(i \<mapsto> Serving vip))" using system_ok_register(1) new reg by blast
  then show ?thesis unfolding s' by (rule system_ok_quiet) (intro quiet_intros)
qed

lemma first_message_quiet:
  assumes "first_message i m chal now a b n s = Some (v, s')" and "\<nexists>vip lease. v = Admitted vip lease"
  shows "quiet s s'"
  using assms
  by (auto simp: first_message_def register_def intro!: quiet_intros dest: quiet_allocVIP [OF _ quiet_refl]
      split: if_splits option.splits prod.splits sum.splits)

lemma system_ok_step: "system_step st st' \<Longrightarrow> system_ok st \<Longrightarrow> system_ok st'"
proof (induction rule: system_step.induct)
  case (writer s i d ok b d' ses)
  obtain m q where "conn_write ok (WriteMsg m) (d\<lparr>dv_queue := q\<rparr>) = (b, d')"
    using writer(2) by (auto simp: write_round_def split: list.splits)
  then have "calm (d\<lparr>dv_queue := q\<rparr>) d'" by (metis calm_write(1) snd_conv)
  then have "calm d d'" by (simp add: calm_def identity_def conn_live_def)
  then have "quiet s (s\<lparr>s_heap := (s_heap s)(i \<mapsto> d')\<rparr>)"
    using writer(1) by (simp add: quiet_def option.rel_refl)
  then show ?case using writer system_ok_quiet by blast
next
  case (not_admitted ses i chal m now a b n s v s')
  have "system_ok (s', ses)"
    using not_admitted first_message_quiet system_ok_quiet by blast
  then show ?case using not_admitted(1) by (intro system_ok_ses) auto
next
  case (relay "from" dg nonce ok s out s' ses)
  then show ?case using quiet_relay system_ok_quiet by blast
qed (auto intro: system_ok_accept system_ok_admitted system_ok_finish intro!: quiet_intros
      elim!: system_ok_quiet)

lemma system_reachable_ok:
  assumes "system_reachable s0 st" and "s_devices s0 = []" "s_by_id s0 = []" "s_heap s0 = (\<lambda>_. None)"
  shows "system_ok st"
  using assms(1) unfolding system_reachable_def
  by (induction rule: rtranclp_induct) (auto intro: system_ok_step system_ok_start [OF assms(2-4)])

end
