(* ===== verification/Server_Properties.thy ===== *)
theory Server_Properties
  imports Sessions Device_Properties
begin

text \<open>
  What the signalling server guarantees: who is online under which name and address, who gets
  in, what a revoked device can still do, what a registration hands out, and that a device's
  messages arrive in the order they were sent.
\<close>

section \<open>The server's tables\<close>

text \<open>Messages, writes and closed connections change the heap of devices only.\<close>

named_theorems frame_simps \<open>the fields an operation does not touch\<close>

lemma upd_device_frame [frame_simps]:
  "s_table (upd_device i f s) = s_table s" "s_pool (upd_device i f s) = s_pool s"
  "s_devices (upd_device i f s) = s_devices s" "s_by_id (upd_device i f s) = s_by_id s"
  "s_pushed (upd_device i f s) = s_pushed s" "s_network_key (upd_device i f s) = s_network_key s"
  "s_crypto (upd_device i f s) = s_crypto s" "s_stats (upd_device i f s) = s_stats s"
  "s_has_callback (upd_device i f s) = s_has_callback s" "s_called (upd_device i f s) = s_called s"
  by (simp_all add: upd_device_def)

lemma send_frame [frame_simps]:
  "s_table (sendMsg i m s) = s_table s" "s_pool (sendMsg i m s) = s_pool s"
  "s_devices (sendMsg i m s) = s_devices s" "s_by_id (sendMsg i m s) = s_by_id s"
  "s_pushed (sendMsg i m s) = s_pushed s" "s_network_key (sendMsg i m s) = s_network_key s"
  "s_table (rejectAuth i r s) = s_table s" "s_pool (rejectAuth i r s) = s_pool s"
  "s_table (closeMsg i s) = s_table s" "s_pool (closeMsg i s) = s_pool s"
  "s_table (close_conn i s) = s_table s" "s_pool (close_conn i s) = s_pool s"
  "s_devices (close_conn i s) = s_devices s" "s_devices (closeMsg i s) = s_devices s"
  "s_network_key (close_conn i s) = s_network_key s" "s_network_key (closeMsg i s) = s_network_key s"
  by (simp_all add: sendMsg_def rejectAuth_def closeMsg_def close_conn_def frame_simps)

lemma send_all_frame [frame_simps]:
  "s_table (send_all is m s) = s_table s" "s_pool (send_all is m s) = s_pool s"
  "s_devices (send_all is m s) = s_devices s" "s_pushed (send_all is m s) = s_pushed s"
  unfolding send_all_def by (induction "is" arbitrary: s) (simp_all add: frame_simps)

lemma notify_frame [frame_simps]:
  "s_table (notifyOnline i s) = s_table s" "s_pool (notifyOnline i s) = s_pool s"
  "s_table (notifyOffline v s) = s_table s" "s_pool (notifyOffline v s) = s_pool s"
  "s_devices (notifyOffline v s) = s_devices s"
  "s_table (call_online m v s) = s_table s" "s_pool (call_online m v s) = s_pool s"
  "s_devices (call_online m v s) = s_devices s" "s_pushed (call_online m v s) = s_pushed s"
  by (simp_all add: notifyOnline_def notifyOffline_def call_online_def Let_def frame_simps split: option.splits)

lemma welcome_frame [frame_simps]:
  "s_table (welcome_device i m v l s) = s_table s" "s_pool (welcome_device i m v l s) = s_pool s"
  by (simp_all add: welcome_device_def Let_def frame_simps)

lemma register_locked_frame:
  "register_locked i n h v s = Some s' \<Longrightarrow> s_table s' = s_table s \<and> s_pool s' = s_pool s"
  by (auto simp: register_locked_def Let_def frame_simps split: option.splits)


lemma NewServer_start:
  assumes "NewServer lf ld lw cf cd cw key cb now = Some s"
  shows "s_devices s = []" "s_by_id s = []" "s_heap s = (\<lambda>_. None)"
    "s_table s = NewDeviceTable lf ld lw" "NewIPPool = Some (s_pool s)"
    "NewCryptoWithKeys key key = Some (s_crypto s)" "s_network_key s = key" "length key = 32"
    "settings_ok (s_pushed s)" "s_pushed s = loadSettings cf cd"
  using assms
  by (auto simp: NewServer_def loadSettings_ok NewCryptoWithKeys_def split: option.splits if_splits)

section \<open>Names and addresses\<close>

text \<open>C5: Among the connections being served no two have the same name, and no two whose
  connection is still open have the same virtual address; the address of an open one leads the
  relay and the other devices to it. This holds in every state the server can reach by
  connections, registrations, departures, relaying, sweeps and management operations in any
  order.\<close>

theorem online_devices_unique:
  assumes "NewServer lf ld lw cf cd cw key cb now = Some s0" and "system_reachable s0 (s, ses)"
    and "ses i = Some (Serving v)" and "ses j = Some (Serving w)" and "i \<noteq> j"
  shows "\<exists>d e. s_heap s i = Some d \<and> s_heap s j = Some e \<and> dv_vip d = v \<and> dv_vip e = w
    \<and> dv_name d \<noteq> dv_name e
    \<and> (conn_live d \<longrightarrow> map_of (s_devices s) v = Some i \<and> (conn_live e \<longrightarrow> v \<noteq> w))"
proof -
  have ok: "system_ok (s, ses)"
    using system_reachable_ok [OF assms(2)] NewServer_start(1-3) [OF assms(1)] by simp
  obtain d where d: "serves s ses i d" "dv_vip d = v" "map_of (s_by_id s) (dv_name d) = Some i"
    "map_of (s_devices s) v = Some i \<or> \<not> conn_live d"
    using system_okD(5) [OF ok assms(3)] by blast
  obtain e where e: "serves s ses j e" "dv_vip e = w" "map_of (s_by_id s) (dv_name e) = Some j"
    "map_of (s_devices s) w = Some j \<or> \<not> conn_live e"
    using system_okD(5) [OF ok assms(4)] by blast
  have "dv_name d \<noteq> dv_name e" using d(3) e(3) assms(5) by auto
  moreover have "v \<noteq> w" if "conn_live d" "conn_live e" using that d(4) e(4) assms(5) by auto
  ultimately show ?thesis using d e by (auto simp: serves_def)
qed

text \<open>A concrete run: two connections that present the same credential, without a hardware
  identifier and under the same name.\<close>

definition demo_key :: "byte list" where "demo_key = replicate 32 7"

definition demo_file :: device_file where
  "demo_file = \<lparr>f_version = 1, f_devices =
     [\<lparr>j_hwid = ''h'', j_name = ''pc'', j_vip = [], j_expire = 0, j_forward = [],
       j_device_id = ''ID'', j_device_key = GenerateKey demo_key, j_blocked = False\<rparr>]\<rparr>"

definition demo_server :: server where
  "demo_server = the (NewServer ''f'' (Some demo_file) True [] None True (replicate 32 9) False 0)"

definition demo_hello :: "byte list \<Rightarrow> message" where
  "demo_hello chal = (msg_of MsgHello)\<lparr>m_device_name := ''pc'', m_device_id := ''ID'',
     m_auth := AuthTagFor (DeviceAuthKey demo_key) chal\<rparr>"

lemma demo_start: "NewServer ''f'' (Some demo_file) True [] None True (replicate 32 9) False 0 = Some demo_server"
  by (simp add: demo_server_def NewServer_def NewIPPool_value NewCryptoWithKeys_def)

lemma demo_credential:
  assumes "s_table s = s_table demo_server" shows "check_hello (demo_hello chal) chal (s_table s) = None"
proof -
  have "DeviceKeyByID (s_table s) ''ID'' = GenerateKey demo_key"
    unfolding assms NewServer_start(4) [OF demo_start]
    by (simp add: NewDeviceTable_def demo_file_def load_device_def empty_table_def DeviceKeyByID_def
        find_record_def put_record_def)
  moreover have "GenerateKey demo_key \<noteq> []" by (simp add: GenerateKey_def demo_key_def flip: length_greater_0_conv)
  moreover have "VerifyDeviceAuth (GenerateKey demo_key) chal (AuthTagFor (DeviceAuthKey demo_key) chal)"
    by (auto simp: VerifyDeviceAuth_iff ParseKey_GenerateKey demo_key_def)
  ultimately show ?thesis by (simp add: check_hello_def demo_hello_def msg_of_def)
qed

lemma first_message_anonymous:
  assumes "check_hello m chal (s_table s) = None" and "m_type m = MsgHello" and "m_hwid m = []"
    and "Alloc (s_pool s) = Some (vip, pool)"
  shows "\<exists>s'. first_message i m chal now a b n s = Some (Admitted vip 0, s')
    \<and> s_table s' = s_table s \<and> s_pool s' = pool"
proof -
  obtain s1 where s1: "register_locked i (m_device_name m) [] vip (s\<lparr>s_pool := pool\<rparr>) = Some s1"
    using register_locked_total by fastforce
  then have "register i (m_device_name m) [] now s = Some (Inr (vip, 0), s1)"
    using assms(4) by (simp add: register_def allocVIP_def)
  moreover have "s_table s1 = s_table s" "s_pool s1 = pool" using register_locked_frame [OF s1] by simp_all
  ultimately show ?thesis
    using assms(1-3) by (simp add: first_message_def msg_types frame_simps)
qed

theorem online_devices_unique_witness:
  "\<exists>s ses d e. system_reachable demo_server (s, ses)
    \<and> ses 0 = Some (Serving 0x0A000002) \<and> ses 1 = Some (Serving 0x0A000003)
    \<and> s_heap s 0 = Some d \<and> s_heap s 1 = Some e \<and> dv_name d \<noteq> dv_name e"
proof -
  let ?ses0 = "\<lambda>_. None :: session option"
  let ?c = "[1, 2, 3] :: byte list"
  define s1 where "s1 = conn_accepted 0 0 ?c demo_server"
  define s2 where "s2 = conn_accepted 1 0 ?c s1"
  have frame: "s_table s2 = s_table demo_server" "s_pool s2 = s_pool demo_server"
    by (simp_all add: s2_def s1_def conn_accepted_def frame_simps)
  have pool: "s_pool demo_server = \<lparr>pool_net = 0x0A000000, pool_start = 0x0A000002, pool_end = 0x0AFFFFFE,
      pool_used = (\<lambda>_. False)\<rparr>"
    using NewServer_start(5) [OF demo_start] by (simp add: NewIPPool_value)
  have hello: "m_type (demo_hello ?c) = MsgHello" "m_hwid (demo_hello ?c) = []"
    by (simp_all add: demo_hello_def msg_of_def)
  obtain p3 where a3: "Alloc (s_pool s2) = Some (0x0A000002, p3)"
    and a4: "\<exists>p4. Alloc p3 = Some (0x0A000003, p4)"
  proof -
    let ?p3 = "(s_pool s2)\<lparr>pool_used := (pool_used (s_pool s2))(pool_start (s_pool s2) := True)\<rparr>"
    have "Alloc (s_pool s2) = Some (pool_start (s_pool s2), ?p3)"
      by (rule Alloc_first) (simp_all add: frame(2) pool word_le_nat_alt)
    moreover have "Alloc ?p3 = Some (pool_start ?p3 + 1, ?p3\<lparr>pool_used := (pool_used ?p3)(pool_start ?p3 + 1 := True)\<rparr>)"
      by (rule Alloc_second) (simp_all add: frame(2) pool word_less_nat_alt)
    ultimately show ?thesis using that frame(2) pool by simp
  qed
  obtain s3 where s3: "first_message 0 (demo_hello ?c) ?c 0 None None None s2 = Some (Admitted 0x0A000002 0, s3)"
      "s_table s3 = s_table s2" "s_pool s3 = p3"
    using first_message_anonymous [OF demo_credential [OF frame(1)] hello a3] by blast
  obtain p4 where "Alloc p3 = Some (0x0A000003, p4)" using a4 by blast
  then obtain s4 where s4: "first_message 1 (demo_hello ?c) ?c 0 None None None s3 = Some (Admitted 0x0A000003 0, s4)"
    using first_message_anonymous [OF demo_credential hello, of s3] frame(1) s3 by metis
  let ?ses2 = "?ses0(0 \<mapsto> Awaiting ?c, 1 \<mapsto> Awaiting ?c)"
  let ?ses4 = "?ses2(0 \<mapsto> Serving 0x0A000002, 1 \<mapsto> Serving 0x0A000003)"
  have "system_step (demo_server, ?ses0) (s1, ?ses0(0 \<mapsto> Awaiting ?c))"
    unfolding s1_def by (rule system_step.accept) simp
  moreover have "system_step (s1, ?ses0(0 \<mapsto> Awaiting ?c)) (s2, ?ses2)"
    unfolding s2_def by (rule system_step.accept) simp
  moreover have "system_step (s2, ?ses2) (s3, ?ses2(0 \<mapsto> Serving 0x0A000002))"
    by (rule system_step.admitted [OF _ s3(1)]) simp
  moreover have "system_step (s3, ?ses2(0 \<mapsto> Serving 0x0A000002)) (s4, ?ses4)"
    by (rule system_step.admitted [OF _ s4]) simp
  ultimately have reach: "system_reachable demo_server (s4, ?ses4)"
    unfolding system_reachable_def by (meson rtranclp.rtrancl_into_rtrancl rtranclp.rtrancl_refl)
  have "\<exists>d e. s_heap s4 0 = Some d \<and> s_heap s4 1 = Some e \<and> dv_name d \<noteq> dv_name e"
    using online_devices_unique [OF demo_start reach, of 0 "0x0A000002" 1 "0x0A000003"] by auto
  with reach show ?thesis by fastforce
qed


section \<open>Messages arrive in order\<close>

text \<open>A device's queue under sends of the server and rounds of its writer.\<close>

datatype chan_op = Send message | WriteRound

fun chan_step :: "device \<Rightarrow> chan_op \<Rightarrow> device" where
  "chan_step d (Send m) = enqueue m d"
| "chan_step d WriteRound = (case write_round True d of None \<Rightarrow> d | Some (_, d') \<Rightarrow> d')"

fun sends :: "chan_op list \<Rightarrow> message list" where
  "sends [] = []"
| "sends (Send m # ops) = m # sends ops"
| "sends (WriteRound # ops) = sends ops"

text \<open>The abstract queue: messages written so far and messages waiting, in sending order.\<close>

definition channel_holds :: "message list \<Rightarrow> message list \<Rightarrow> device \<Rightarrow> bool" where
  "channel_holds written waiting d \<longleftrightarrow>
     dv_conn d = Some \<lparr>k_open = True, k_out = concat (map WriteMsg written)\<rparr> \<and> dv_ch_open d
     \<and> dv_queue d = waiting"

lemma channel_send:
  "channel_holds w q d \<Longrightarrow> length q < queue_cap \<Longrightarrow> channel_holds w (q @ [m]) (chan_step d (Send m))"
  by (simp add: channel_holds_def enqueue_def)

lemma channel_full:
  "channel_holds w q d \<Longrightarrow> queue_cap \<le> length q \<Longrightarrow> chan_step d (Send m) = d"
  by (simp add: channel_holds_def enqueue_def)

lemma channel_write:
  "channel_holds w q d \<Longrightarrow>
   (case q of [] \<Rightarrow> channel_holds w [] (chan_step d WriteRound)
    | m # q' \<Rightarrow> channel_holds (w @ [m]) q' (chan_step d WriteRound))"
  by (auto simp: channel_holds_def write_round_def conn_write_def split: list.splits)

lemma channel_run:
  assumes "channel_holds w q d" and "length q + length (sends ops) \<le> queue_cap"
  shows "\<exists>w' q'. channel_holds w' q' (foldl chan_step d ops) \<and> w' @ q' = w @ q @ sends ops"
  using assms
proof (induction ops arbitrary: w q d)
  case (Cons op ops)
  show ?case
  proof (cases op)
    case (Send m)
    then show ?thesis using Cons.IH [OF channel_send [OF Cons.prems(1)]] Cons.prems(2) by simp
  next
    case WriteRound
    show ?thesis
    proof (cases q)
      case Nil
      then show ?thesis
        using Cons.IH channel_write [OF Cons.prems(1)] Cons.prems(2) WriteRound by fastforce
    next
      case q: (Cons m q')
      then have "channel_holds (w @ [m]) q' (chan_step d WriteRound)"
        using channel_write [OF Cons.prems(1)] by simp
      then show ?thesis using Cons.IH Cons.prems(2) WriteRound q by fastforce
    qed
  qed
qed auto



section \<open>Who gets in\<close>

lemma check_hello_None:
  "check_hello m chal t = None \<longleftrightarrow>
     m_device_name m \<noteq> [] \<and> m_device_id m \<noteq> [] \<and> DeviceKeyByID t (m_device_id m) \<noteq> []
     \<and> VerifyDeviceAuth (DeviceKeyByID t (m_device_id m)) chal (m_auth m)"
  by (auto simp: check_hello_def Let_def)

text \<open>C7: A connection is admitted exactly when its first message is a hello with a device name, a
  credential the device table knows, and the answer to this connection's challenge under that
  credential's key, and an address could be allocated. The hardware identifier the message
  claims plays no part in the check: the holder of any valid credential is admitted under
  whatever identifier it names.\<close>

theorem admission_exact:
  "(\<exists>vip lease s'. first_message i m chal now a b n s = Some (Admitted vip lease, s')) \<longleftrightarrow>
     m_type m = MsgHello \<and> m_device_name m \<noteq> [] \<and> m_device_id m \<noteq> []
     \<and> DeviceKeyByID (s_table s) (m_device_id m) \<noteq> []
     \<and> (\<exists>key. ParseKey (DeviceKeyByID (s_table s) (m_device_id m)) = Some key
          \<and> m_auth m = AuthTagFor (DeviceAuthKey key) chal)
     \<and> (\<exists>vip lease. fst (allocVIP (m_hwid m) (m_device_name m) now s) = Inr (vip, lease))"
  (is "?lhs \<longleftrightarrow> ?rhs")
proof -
  obtain res s1 where alloc: "allocVIP (m_hwid m) (m_device_name m) now s = (res, s1)" by force
  have "?lhs \<longleftrightarrow> m_type m = MsgHello \<and> check_hello m chal (s_table s) = None \<and> (\<exists>vip lease. res = Inr (vip, lease))"
  proof (cases res)
    case (Inr vl)
    obtain vip lease where "vl = (vip, lease)" by force
    moreover obtain s2 where "register_locked i (m_device_name m) (m_hwid m) vip s1 = Some s2"
      using register_locked_total by blast
    ultimately show ?thesis using alloc Inr
      by (auto simp: first_message_def register_def msg_types split: option.splits)
  qed (use alloc in \<open>auto simp: first_message_def register_def split: option.splits\<close>)
  then show ?thesis by (auto simp: alloc check_hello_None VerifyDeviceAuth_iff)
qed


section \<open>Registration\<close>

definition register_reply :: "byte list \<Rightarrow> string \<Rightarrow> string \<Rightarrow> string \<Rightarrow> server \<Rightarrow> byte list" where
  "register_reply n hwid did key s =
     EncryptCredential n hwid
       \<lparr>cr_device_id = did, cr_device_key = key, cr_network_key = hex_encode (s_network_key s)\<rparr>"

lemma handleRegister_accepts:
  assumes "TrimSpace (m_hwid m) = h" and "h \<noteq> []" and "m_auth m = AuthTagFor (RegisterAuthKey h) chal"
    and "\<not> IsBlocked (s_table s) h"
    and "issue_credential h (m_device_name m) id_rnd key_rnd (s_table s) = Inr ((did, key), t)"
  shows "handleRegister i m chal id_rnd key_rnd (Some n) s =
    upd_device i (write_direct ((msg_of MsgRegisterOK)\<lparr>m_blob := register_reply n h did key s\<rparr>))
      (closeMsg i (s\<lparr>s_table := t\<rparr>))"
  using assms by (simp add: handleRegister_def Let_def VerifyRegisterAuth_iff register_reply_def)

lemma hex_char_ascii: "d < 16 \<Longrightarrow> byte_in (hex_char d) 0 0x7F"
  by (simp add: hex_char_def byte_in_def)

lemma valid_utf8_hex: "valid_utf8 (hex_encode bs)"
proof (rule tag_ok)
  have "unat b div 16 < 16" "unat b mod 16 < 16" for b :: byte
    using unat_byte_less [of b] by (simp_all add: less_mult_imp_div_less)
  then show "list_all (\<lambda>c. byte_in c 0 0x7F) (hex_encode bs)"
    by (induction bs) (simp_all add: hex_char_ascii)
qed

lemma bits_num_less: "bits_num bs < 2 ^ length bs"
proof (induction bs rule: rev_induct)
  case (snoc b bs)
  then show ?case by (simp add: bits_num_def of_bool_def)
qed (simp add: bits_num_def)

lemma valid_utf8_base32: "valid_utf8 (base32 bs)"
proof (rule tag_ok)
  have "byte_in (b32_char (bits_num (take 5 bits @ replicate (5 - length bits) False))) 0 0x7F" for bits
  proof -
    let ?group = "take 5 bits @ replicate (5 - length bits) False"
    have "bits_num ?group < 2 ^ length ?group" by (rule bits_num_less)
    moreover have "length ?group = 5" by simp
    ultimately have "bits_num ?group < 32" by (simp only:) simp
    then show ?thesis by (simp add: b32_char_def byte_in_def)
  qed
  then have "list_all (\<lambda>c. byte_in c 0 0x7F) (b32_groups n bits)" for n bits
    by (induction n bits rule: b32_groups.induct) simp_all
  then show "list_all (\<lambda>c. byte_in c 0 0x7F) (base32 bs)" by (simp add: base32_def)
qed

lemma base32_nonempty: "bs \<noteq> [] \<Longrightarrow> base32 bs \<noteq> []"
proof -
  assume "bs \<noteq> []"
  then obtain n where "2 * length bs = Suc n" by (cases "2 * length bs") auto
  moreover have "bits_of bs \<noteq> []" using \<open>bs \<noteq> []\<close> by (cases bs) (simp_all add: bits_of_def)
  ultimately show ?thesis by (simp add: base32_def)
qed

lemma reply_decrypts:
  assumes "length n = NonceLen" and "did \<noteq> []" "valid_utf8 did" "key \<noteq> []" "valid_utf8 key"
    and "s_network_key s \<noteq> []"
  shows "DecryptCredential h (register_reply n h did key s) =
    Inr \<lparr>cr_device_id = did, cr_device_key = key, cr_network_key = hex_encode (s_network_key s)\<rparr>"
proof -
  have "hex_encode (s_network_key s) \<noteq> []" using assms(6) by (cases "s_network_key s") simp_all
  then show ?thesis
    using assms by (simp add: register_reply_def DecryptCredential_Encrypt credential_ok_def valid_utf8_hex)
qed

lemma issue_fresh:
  assumes "table_ok t" and "h \<noteq> []" and "Credential_of t h = None" and "idb \<noteq> []" and "keyb \<noteq> []"
    and "t_by_device_id t (GenerateDeviceID idb) = None"
  obtains t' where
    "issue_credential h name (Some idb) (Some keyb) t = Inr ((GenerateDeviceID idb, GenerateKey keyb), t')"
    "SetCredential t h name (GenerateDeviceID idb) (GenerateKey keyb) = Inr t'"
proof -
  have "GenerateDeviceID idb \<noteq> []" using assms(4) by (simp add: GenerateDeviceID_def base32_nonempty)
  moreover have "GenerateKey keyb \<noteq> []" using assms(5) by (cases keyb) (simp_all add: GenerateKey_def)
  moreover have "d_device_id (record_or_new t h) = []"
    using assms(2,3) by (auto simp: Credential_of_def record_or_new_def split: option.splits if_splits)
  ultimately obtain t' where t': "SetCredential t h name (GenerateDeviceID idb) (GenerateKey keyb) = Inr t'"
    using assms(2,6) by (auto simp: SetCredential_def Let_def)
  then show ?thesis using that assms(3) by (simp add: issue_credential_def)
qed


text \<open>C6: A device that registers for the first time gets a credential that works: the reply on its
  connection decrypts, with the device's identifier, to the issued identifier and key and the
  network key; afterwards any hello with that identifier and the answer computed with that key
  passes the check whatever the challenge; and a later registration of the same device hands
  out the same credential again and leaves the device table as it is.\<close>

theorem registration_gives_working_credential:
  assumes "table_ok (s_table s)" and "s_network_key s \<noteq> []"
    and "TrimSpace (m_hwid m) = h" and "h \<noteq> []" and "m_auth m = AuthTagFor (RegisterAuthKey h) chal"
    and "\<not> IsBlocked (s_table s) h" and "Credential_of (s_table s) h = None"
    and "idb \<noteq> []" and "length keyb = 32" and "t_by_device_id (s_table s) (GenerateDeviceID idb) = None"
    and "length n = NonceLen" and "s_heap s i = Some d" and "dv_conn d = Some k" and "k_open k"
  shows "\<exists>s' d' blob. handleRegister i m chal (Some idb) (Some keyb) (Some n) s = s'
    \<and> s_heap s' i = Some d'
    \<and> dv_conn d' = Some (k\<lparr>k_out := k_out k @ WriteMsg ((msg_of MsgRegisterOK)\<lparr>m_blob := blob\<rparr>)\<rparr>)
    \<and> DecryptCredential h blob = Inr \<lparr>cr_device_id = GenerateDeviceID idb,
         cr_device_key = GenerateKey keyb, cr_network_key = hex_encode (s_network_key s)\<rparr>
    \<and> (\<forall>hello c. m_device_name hello \<noteq> [] \<longrightarrow> m_device_id hello = GenerateDeviceID idb \<longrightarrow>
         m_auth hello = AuthTagFor (DeviceAuthKey keyb) c \<longrightarrow> check_hello hello c (s_table s') = None)
    \<and> (\<forall>name a b. issue_credential h name a b (s_table s')
         = Inr ((GenerateDeviceID idb, GenerateKey keyb), s_table s'))"
proof -
  let ?did = "GenerateDeviceID idb" and ?key = "GenerateKey keyb"
  have keyb: "keyb \<noteq> []" using assms(9) by auto
  obtain t' where iss: "issue_credential h (m_device_name m) (Some idb) (Some keyb) (s_table s) = Inr ((?did, ?key), t')"
    and set: "SetCredential (s_table s) h (m_device_name m) ?did ?key = Inr t'"
    using issue_fresh [OF assms(1,4,7,8) keyb assms(10)] by blast
  from set have cred: "Credential_of t' h = Some (?did, ?key) \<and> DeviceKeyByID t' ?did = ?key \<and> ?did \<noteq> [] \<and> ?key \<noteq> []"
    by (cases rule: SetCredential_Inr) (simp add: Credential_of_def DeviceKeyByID_def table_simps)
  let ?blob = "register_reply n h ?did ?key s"
  let ?s = "handleRegister i m chal (Some idb) (Some keyb) (Some n) s"
  note run = handleRegister_accepts [OF assms(3-6) iss, of i n]
  have "valid_utf8 ?did" "valid_utf8 ?key"
    by (simp_all add: GenerateDeviceID_def GenerateKey_def valid_utf8_base32 valid_utf8_hex)
  then have "DecryptCredential h ?blob = Inr \<lparr>cr_device_id = ?did, cr_device_key = ?key,
      cr_network_key = hex_encode (s_network_key s)\<rparr>"
    using reply_decrypts assms(2,11) cred by blast
  moreover have "s_table ?s = t'" by (simp add: run frame_simps)
  moreover have "s_heap ?s i = Some (write_direct ((msg_of MsgRegisterOK)\<lparr>m_blob := ?blob\<rparr>) (close_ch d))"
    using assms(12) by (simp add: run upd_device_def closeMsg_def)
  moreover have "dv_conn (write_direct m' (close_ch d)) = Some (k\<lparr>k_out := k_out k @ WriteMsg m'\<rparr>)" for m'
    using assms(13,14) by (simp add: write_direct_def conn_write_def close_ch_def)
  moreover have "ParseKey ?key = Some keyb" using assms(9) by (rule ParseKey_GenerateKey)
  ultimately show ?thesis
    using cred by (auto simp: check_hello_None VerifyDeviceAuth_iff issue_credential_def)
qed

definition demo_register :: "byte list \<Rightarrow> message" where
  "demo_register chal = (msg_of MsgRegister)\<lparr>m_device_name := ''new'', m_hwid := ''n'',
     m_auth := AuthTagFor (RegisterAuthKey ''n'') chal\<rparr>"

lemma demo_table: "s_table demo_server = load_device (empty_table ''f'' (Some demo_file) True) (f_devices demo_file ! 0)"
  by (simp add: NewServer_start(4) [OF demo_start] NewDeviceTable_def demo_file_def)

lemma demo_table_find:
  "find_record (s_table demo_server) h = (if h = ''h'' then
     Some \<lparr>d_hwid = ''h'', d_name = ''pc'', d_vip = 0, d_expire = 0, d_forward = [],
           d_device_id = ''ID'', d_device_key = GenerateKey demo_key, d_blocked = False\<rparr> else None)"
  "t_by_device_id (s_table demo_server) = (\<lambda>_. None)(''ID'' \<mapsto> ''h'')" "t_by_vip (s_table demo_server) = (\<lambda>_. None)"
  by (auto simp: demo_table demo_file_def load_device_def empty_table_def find_record_def put_record_def)

lemma demo_table_ok: "table_ok (s_table demo_server)"
proof -
  have "t_by_hwid (s_table demo_server) = [(''h'', \<lparr>d_hwid = ''h'', d_name = ''pc'', d_vip = 0, d_expire = 0,
     d_forward = [], d_device_id = ''ID'', d_device_key = GenerateKey demo_key, d_blocked = False\<rparr>)]"
    by (simp add: demo_table demo_file_def load_device_def empty_table_def put_record_def)
  then show ?thesis
    by (auto simp: table_ok_def records_ok_def indexes_def demo_table_find)
qed

theorem registration_gives_working_credential_witness:
  "\<exists>blob d'. s_heap (handleRegister 0 (demo_register [5]) [5] (Some [0]) (Some (replicate 32 1)) (Some (replicate 12 2))
       (conn_accepted 0 0 [5] demo_server)) 0 = Some d'
    \<and> map_option k_out (dv_conn d') = Some (WriteMsg ((msg_of MsgRegisterOK)\<lparr>m_blob := blob\<rparr>))
    \<and> DecryptCredential ''n'' blob = Inr \<lparr>cr_device_id = ''AA'', cr_device_key = GenerateKey (replicate 32 1),
         cr_network_key = hex_encode (replicate 32 9)\<rparr>"
proof -
  let ?s = "conn_accepted 0 0 [5] demo_server"
  have s: "s_table ?s = s_table demo_server" "s_network_key ?s = replicate 32 9"
    by (simp_all add: conn_accepted_def frame_simps NewServer_start(7) [OF demo_start])
  have heap: "s_heap ?s 0 = Some (enqueue ((msg_of MsgChallenge)\<lparr>m_nonce := [5]\<rparr>) (new_device 0))"
    by (simp add: conn_accepted_def sendMsg_def upd_device_def)
  have conn: "dv_conn (enqueue ((msg_of MsgChallenge)\<lparr>m_nonce := [5]\<rparr>) (new_device 0)) = Some \<lparr>k_open = True, k_out = []\<rparr>"
    by (simp add: enqueue_def new_device_def)
  have id: "GenerateDeviceID [0] = ''AA''" by code_simp
  have "TrimSpace ''n'' = ''n''" by code_simp
  note reg = registration_gives_working_credential [of ?s "demo_register [5]" "''n''" "[5]" "[0]" "replicate 32 1"
      "replicate 12 2" 0, OF _ _ _ _ _ _ _ _ _ _ _ heap conn]
  show ?thesis
    using reg \<open>TrimSpace ''n'' = ''n''\<close> demo_table_ok id
    by (auto simp: s demo_register_def msg_of_def NonceLen_def IsBlocked_def Credential_of_def demo_table_find)
qed


section \<open>Revocation\<close>

lemma Block_effect:
  assumes "Credential_of t h = Some (did, key)"
  shows "fst (Block t h)" "IsBlocked (snd (Block t h)) h" "DeviceKeyByID (snd (Block t h)) did = []"
    "find_record (snd (Block t h)) h \<noteq> None"
proof -
  obtain rec where rec: "find_record t h = Some rec" "d_device_id rec = did" "did \<noteq> []" "h \<noteq> []"
    using assms by (auto simp: Credential_of_def split: if_splits option.splits)
  then have "Block t h = (True, saveLocked (put_record h (rec\<lparr>d_device_id := [], d_device_key := [], d_blocked := True\<rparr>)
      (drop_credential h rec (put_record h rec t))))"
    by (simp add: Block_def Let_def drop_credential_def table_simps record_or_new_def)
  then show "fst (Block t h)" "IsBlocked (snd (Block t h)) h" "DeviceKeyByID (snd (Block t h)) did = []"
    "find_record (snd (Block t h)) h \<noteq> None"
    by (simp_all add: drop_credential_def table_simps rec IsBlocked_def DeviceKeyByID_def)
qed

lemma findByHWID_table [simp]: "findByHWID h (s\<lparr>s_table := t\<rparr>) = findByHWID h s"
  by (simp add: findByHWID_def online_devices_def)


lemma demo_credential_of: "Credential_of (s_table demo_server) ''h'' = Some (''ID'', GenerateKey demo_key)"
  by (simp add: Credential_of_def demo_table_find)


section \<open>Takeover\<close>

lemma send_all_queue:
  assumes "distinct is" and "s_heap s j = Some d" and "j \<in> set is"
  shows "s_heap (send_all is m s) j = Some (enqueue m d)"
  using assms
proof (induction "is" arbitrary: s)
  case (Cons i "is")
  have other: "s_heap (send_all ks m t) j = s_heap t j" if "j \<notin> set ks" for ks t
    using that unfolding send_all_def by (induction ks arbitrary: t) (simp_all add: sendMsg_def upd_device_def)
  have step: "send_all (k # is) m s = send_all is m (sendMsg k m s)" for k by (simp add: send_all_def)
  show ?case
  proof (cases "i = j")
    case True
    then show ?thesis using Cons.prems other [of "is"] by (simp add: step sendMsg_def upd_device_def)
  next
    case False
    then show ?thesis using Cons by (simp add: step sendMsg_def upd_device_def)
  qed
qed simp

lemma system_ok_distinct:
  assumes "system_ok (s, ses)" shows "distinct (map snd (s_devices s))"
proof -
  note D = system_okD [OF assms]
  have "inj_on snd (set (s_devices s))"
  proof (rule inj_onI)
    fix x y assume xy: "x \<in> set (s_devices s)" "y \<in> set (s_devices s)" "snd x = snd y"
    then have "map_of (s_devices s) (fst x) = Some (snd x)" "map_of (s_devices s) (fst y) = Some (snd x)"
      using D(1) by (metis map_of_is_SomeI prod.collapse)+
    then have "fst x = fst y"
      using D(3) [of "fst x" "snd x"] D(3) [of "fst y" "snd x"] by (auto simp: serves_def)
    then show "x = y" using xy(3) by (rule prod_eqI)
  qed
  then show ?thesis using D(1) by (simp add: distinct_map)
qed

text \<open>When a newer connection has taken over a device's address, the end of the older one
  neither removes the newer one's entry nor returns the address to the pool, whichever kind of
  client it was. All the same every device online, the new owner included, is sent a
  notice that the address went offline, although it is still being served.\<close>

theorem takeover_survives_old_connection:
  assumes "system_ok (s, ses)" and "map_of (s_devices s) vip = Some i" and "j \<noteq> i"
    and "s_heap s j = Some d" and "dv_vip d = vip" and "vip \<noteq> 0"
  shows "map_of (s_devices (conn_ended j s)) vip = Some i \<and> s_pool (conn_ended j s) = s_pool s
    \<and> (\<forall>k e. (k \<in> set (map snd (s_devices s)) \<and> k \<noteq> j \<and> s_heap s k = Some e) \<longrightarrow>
         s_heap (conn_ended j s) k = Some (enqueue ((msg_of MsgPeerOffline)\<lparr>m_peer_vip := vip\<rparr>) e))"
proof -
  let ?s = "closeMsg j (close_conn j s)"
  let ?d = "close_ch (close_device_conn d)"
  have heap: "s_heap ?s j = Some ?d" "\<And>k. k \<noteq> j \<Longrightarrow> s_heap ?s k = s_heap s k"
    using assms(4) by (simp_all add: closeMsg_def close_conn_def upd_device_def)
  have d: "dv_vip ?d = vip" "dv_hwid ?d = dv_hwid d" "dv_name ?d = dv_name d"
    using assms(5) by (simp_all add: close_ch_def close_device_conn_def)
  have devs: "s_devices ?s = s_devices s" by (simp add: frame_simps)
  have entry: "remove_entry vip j (s_devices s) = s_devices s"
    using assms(2,3) by (simp add: remove_entry_def)
  have run: "conn_ended j s = notifyOffline vip
      (?s\<lparr>s_devices := s_devices s, s_by_id := remove_entry (dv_name d) j (s_by_id ?s)\<rparr>)"
    unfolding conn_ended_def removeDevice_def heap using assms(2,6)
    by (simp add: d devs entry Let_def)
  have "s_heap (conn_ended j s) k = Some (enqueue ((msg_of MsgPeerOffline)\<lparr>m_peer_vip := vip\<rparr>) e)"
    if "k \<in> set (map snd (s_devices s))" "k \<noteq> j" "s_heap s k = Some e" for k e
    unfolding run notifyOffline_def using that system_ok_distinct [OF assms(1)] heap(2)
    by (intro send_all_queue) simp_all
  then show ?thesis using assms(2) by (simp add: run frame_simps)
qed


lemma welcome_devices [frame_simps]: "s_devices (welcome_device i m v l s) = s_devices s"
  by (simp add: welcome_device_def Let_def notifyOnline_def frame_simps split: option.splits)

lemma first_message_leased:
  assumes "check_hello m chal (s_table s) = None" and "m_type m = MsgHello" and "m_hwid m \<noteq> []"
    and "Assign (s_table s) (m_hwid m) (m_device_name m) (s_pool s) now = (Inr (vip, lease), t, pool)"
  shows "\<exists>s'. first_message i m chal now a b n s = Some (Admitted vip lease, s')
    \<and> s_table s' = t \<and> s_pool s' = pool \<and> s_devices s' = AList.update vip i (s_devices s)"
proof -
  obtain s1 where s1: "register_locked i (m_device_name m) (m_hwid m) vip (s\<lparr>s_table := t, s_pool := pool\<rparr>) = Some s1"
    using register_locked_total by fastforce
  then have "register i (m_device_name m) (m_hwid m) now s = Some (Inr (vip, lease), s1)"
    using assms(3,4) by (simp add: register_def allocVIP_def)
  moreover have "s_table s1 = t" "s_pool s1 = pool" using register_locked_frame [OF s1] by simp_all
  moreover have "s_devices s1 = AList.update vip i (s_devices s)"
    using s1 by (auto simp: register_locked_def Let_def split: option.splits)
  ultimately show ?thesis
    using assms(1-3) by (simp add: first_message_def msg_types frame_simps)
qed

definition demo_hello_h :: "byte list \<Rightarrow> message" where
  "demo_hello_h chal = (demo_hello chal)\<lparr>m_hwid := ''h''\<rparr>"

lemma demo_pool: "s_pool demo_server = \<lparr>pool_net = 0x0A000000, pool_start = 0x0A000002,
    pool_end = 0x0AFFFFFE, pool_used = (\<lambda>_. False)\<rparr>"
  using NewServer_start(5) [OF demo_start] by (simp add: NewIPPool_value)

lemma demo_lease_ok: "lease_ok (s_table demo_server) (s_pool demo_server)"
  using demo_table_ok NewIPPool_ok [OF NewServer_start(5) [OF demo_start]]
    NewIPPool_excludes_0 [OF NewServer_start(5) [OF demo_start]]
  by (simp add: lease_ok_def reserves_def demo_table_find)

lemma demo_assign:
  "\<exists>t pool. Assign (s_table demo_server) ''h'' ''pc'' (s_pool demo_server) 0
      = (Inr (0x0A000002, LeaseDuration), t, pool)
    \<and> find_record t ''h'' \<noteq> None \<and> d_vip (the (find_record t ''h'')) = 0x0A000002
    \<and> d_expire (the (find_record t ''h'')) = LeaseDuration
    \<and> t_by_device_id t = t_by_device_id (s_table demo_server)
    \<and> d_device_key (the (find_record t ''h'')) = GenerateKey demo_key"
proof -
  have "pruneLocked 0 (s_table demo_server) (s_pool demo_server) = (s_table demo_server, s_pool demo_server, 0)"
    by (rule prune_all_unexpired)
      (simp add: all_unexpired_def demo_table demo_file_def load_device_def empty_table_def put_record_def
        lease_expired_def)
  moreover have "Alloc (s_pool demo_server) = Some (0x0A000002, (s_pool demo_server)\<lparr>pool_used :=
      (pool_used (s_pool demo_server))(0x0A000002 := True)\<rparr>)"
    using Alloc_first [of "s_pool demo_server"] by (simp add: demo_pool word_le_nat_alt)
  ultimately show ?thesis
    by (simp add: Assign_def demo_table_find choose_vip_def Let_def table_simps record_or_new_def)
qed

text \<open>One leased device online, and a second connection waiting to say hello.\<close>

definition demo_challenge :: "byte list" where "demo_challenge = [1, 2, 3]"

definition demo_sessions :: "nat \<Rightarrow> session option" where
  "demo_sessions = (\<lambda>_. None)(0 \<mapsto> Serving 0x0A000002, 1 \<mapsto> Awaiting demo_challenge)"

lemma demo_hello_fields:
  "m_type (demo_hello_h c) = MsgHello" "m_hwid (demo_hello_h c) = ''h''"
  "m_device_name (demo_hello_h c) = ''pc''" "m_device_id (demo_hello_h c) = ''ID''"
  by (simp_all add: demo_hello_h_def demo_hello_def msg_of_def)

lemma demo_hello_ok: "DeviceKeyByID t ''ID'' = GenerateKey demo_key \<Longrightarrow> check_hello (demo_hello_h c) c t = None"
  using demo_credential [OF refl, of c]
  by (auto simp: check_hello_None demo_hello_h_def demo_hello_def msg_of_def DeviceKeyByID_def demo_table_find)

lemma demo_online:
  obtains s where "system_reachable demo_server (s, demo_sessions)" "lease_ok (s_table s) (s_pool s)"
    "DeviceKeyByID (s_table s) ''ID'' = GenerateKey demo_key" "map_of (s_devices s) 0x0A000002 = Some 0"
    "find_record (s_table s) ''h'' \<noteq> None" "d_vip (the (find_record (s_table s) ''h'')) = 0x0A000002"
    "d_expire (the (find_record (s_table s) ''h'')) = LeaseDuration"
proof -
  let ?ses0 = "\<lambda>_. None :: session option"
  let ?c = demo_challenge and ?m = "demo_hello_h demo_challenge"
  define s1 where "s1 = conn_accepted 0 0 ?c demo_server"
  define s2 where "s2 = conn_accepted 1 0 ?c s1"
  have frame: "s_table s2 = s_table demo_server" "s_pool s2 = s_pool demo_server"
    by (simp_all add: s2_def s1_def conn_accepted_def frame_simps)
  obtain t pool where a: "Assign (s_table s2) ''h'' ''pc'' (s_pool s2) 0 = (Inr (0x0A000002, LeaseDuration), t, pool)"
    and t: "find_record t ''h'' \<noteq> None" "d_vip (the (find_record t ''h'')) = 0x0A000002"
      "d_expire (the (find_record t ''h'')) = LeaseDuration"
      "t_by_device_id t = t_by_device_id (s_table demo_server)"
      "d_device_key (the (find_record t ''h'')) = GenerateKey demo_key"
    using demo_assign frame by auto
  have key: "DeviceKeyByID t ''ID'' = GenerateKey demo_key"
    using t by (auto simp: DeviceKeyByID_def demo_table_find)
  obtain s3 where s3: "first_message 0 ?m ?c 0 None None None s2 = Some (Admitted 0x0A000002 LeaseDuration, s3)"
      "s_table s3 = t" "s_pool s3 = pool" "s_devices s3 = AList.update 0x0A000002 0 (s_devices s2)"
    using first_message_leased [of ?m ?c s2 0 _ _ t pool 0 None None None] demo_hello_ok [of "s_table s2"] a
    by (fastforce simp: frame DeviceKeyByID_def demo_table_find demo_hello_fields)
  have ok: "lease_ok t pool" using Assign_ok [OF _ _ a] demo_lease_ok by (simp add: frame)
  let ?ses2 = "?ses0(0 \<mapsto> Awaiting ?c, 1 \<mapsto> Awaiting ?c)"
  have "system_step (demo_server, ?ses0) (s1, ?ses0(0 \<mapsto> Awaiting ?c))"
    unfolding s1_def by (rule system_step.accept) simp
  moreover have "system_step (s1, ?ses0(0 \<mapsto> Awaiting ?c)) (s2, ?ses2)"
    unfolding s2_def by (rule system_step.accept) simp
  moreover have "system_step (s2, ?ses2) (s3, ?ses2(0 \<mapsto> Serving 0x0A000002))"
    by (rule system_step.admitted [OF _ s3(1)]) simp
  moreover have "?ses2(0 \<mapsto> Serving 0x0A000002) = demo_sessions"
    by (auto simp: demo_sessions_def)
  ultimately have "system_reachable demo_server (s3, demo_sessions)"
    unfolding system_reachable_def by (metis rtranclp.rtrancl_into_rtrancl rtranclp.rtrancl_refl)
  then show ?thesis using that ok key t s3 by simp
qed

lemma demo_takeover:
  "\<exists>s ses d. system_reachable demo_server (s, ses) \<and> map_of (s_devices s) 0x0A000002 = Some 1
    \<and> s_heap s 0 = Some d \<and> dv_vip d = 0x0A000002"
proof -
  obtain s where s: "system_reachable demo_server (s, demo_sessions)" "lease_ok (s_table s) (s_pool s)"
    "DeviceKeyByID (s_table s) ''ID'' = GenerateKey demo_key" "map_of (s_devices s) 0x0A000002 = Some 0"
    "find_record (s_table s) ''h'' \<noteq> None" "d_vip (the (find_record (s_table s) ''h'')) = 0x0A000002"
    "d_expire (the (find_record (s_table s) ''h'')) = LeaseDuration"
    by (rule demo_online)
  let ?c = demo_challenge and ?m = "demo_hello_h demo_challenge"
  obtain t pool where "Assign (s_table s) ''h'' ''pc'' (s_pool s) 0 = (Inr (0x0A000002, LeaseDuration), t, pool)"
    using Assign_keeps_address [OF s(2), of "''h''" _ 0 "''pc''"] s(5-7) by (auto simp: LeaseDuration_def Second_def)
  then obtain s4 where s4: "first_message 1 ?m ?c 0 None None None s = Some (Admitted 0x0A000002 LeaseDuration, s4)"
      "s_devices s4 = AList.update 0x0A000002 1 (s_devices s)"
    using first_message_leased [of ?m ?c s] demo_hello_ok [OF s(3)] by (fastforce simp: demo_hello_fields)
  let ?ses4 = "demo_sessions(1 \<mapsto> Serving 0x0A000002)"
  have "system_step (s, demo_sessions) (s4, ?ses4)"
    by (rule system_step.admitted [OF _ s4(1)]) (simp add: demo_sessions_def)
  then have reach: "system_reachable demo_server (s4, ?ses4)"
    using s(1) unfolding system_reachable_def by (rule rtranclp.rtrancl_into_rtrancl [rotated])
  then have "system_ok (s4, ?ses4)"
    using system_reachable_ok NewServer_start(1-3) [OF demo_start] by blast
  moreover have "?ses4 0 = Some (Serving 0x0A000002)" by (simp add: demo_sessions_def)
  ultimately obtain d where "s_heap s4 0 = Some d" "dv_vip d = 0x0A000002"
    using system_okD(5) by (fastforce simp: serves_def)
  then show ?thesis using reach s4(2) by fastforce
qed

theorem takeover_survives_old_connection_witness:
  "\<exists>s ses. system_reachable demo_server (s, ses) \<and> map_of (s_devices s) 0x0A000002 = Some 1
    \<and> map_of (s_devices (conn_ended 0 s)) 0x0A000002 = Some 1 \<and> s_pool (conn_ended 0 s) = s_pool s"
proof -
  obtain s ses d where s: "system_reachable demo_server (s, ses)" "map_of (s_devices s) 0x0A000002 = Some 1"
    "s_heap s 0 = Some d" "dv_vip d = 0x0A000002"
    using demo_takeover by blast
  have "system_ok (s, ses)"
    using system_reachable_ok [OF s(1)] NewServer_start(1-3) [OF demo_start] by blast
  from takeover_survives_old_connection [OF this s(2) _ s(3,4)] s show ?thesis by auto
qed


section \<open>Leases of devices that stay online\<close>

text \<open>A device that stays connected past the end of its lease loses its address to the pool
  although it is online: nothing renews a lease but a new registration, so the sweeper clears
  the record and releases the address while the device is still served under it, and the next
  device that is given the address has the connection of the first one closed.\<close>

theorem sweep_frees_address_in_use:
  assumes "lease_ok (s_table s) (s_pool s)" and "find_record (s_table s) h = Some rec"
    and "lease_expired now rec" and "map_of (s_devices s) (d_vip rec) = Some i"
  shows "map_of (s_devices (sweep now s)) (d_vip rec) = Some i \<and> s_heap (sweep now s) = s_heap s
    \<and> \<not> Held (s_pool (sweep now s)) (d_vip rec)
    \<and> map_option d_vip (find_record (s_table (sweep now s)) h) = Some 0
    \<and> (\<forall>ses j chal name hwid s'. system_ok (s, ses) \<longrightarrow> ses j = Some (Awaiting chal) \<longrightarrow>
         register_locked j name hwid (d_vip rec) (sweep now s) = Some s' \<longrightarrow>
         map_option conn_live (s_heap s' i) = Some False)"
proof -
  obtain t pool n where run: "pruneLocked now (s_table s) (s_pool s) = (t, pool, n)" by (metis prod_cases3)
  note P = pruneLocked_ok [OF assms(1) run]
  have s': "s_devices (sweep now s) = s_devices s" "s_heap (sweep now s) = s_heap s"
    "s_pool (sweep now s) = pool" "find_record (s_table (sweep now s)) = find_record t"
    by (auto simp: sweep_def Prune_def run table_simps split: prod.splits)
  have "keys_distinct (t_by_hwid (s_table s))" using assms(1) by (simp add: lease_ok_def table_ok_def records_ok_def)
  then have "(h, rec) \<in> set (t_by_hwid (s_table s))" using assms(2) set_t_by_hwid by blast
  then have "\<not> Held pool (d_vip rec)" using P(4) [of "d_vip rec"] assms(2,3) by auto
  moreover have "map_option d_vip (find_record t h) = Some 0"
    using assms(2,3) by (simp add: P(2) pruned_def)
  moreover have "map_option conn_live (s_heap s' i) = Some False"
    if "system_ok (s, ses)" "ses j = Some (Awaiting chal)"
      "register_locked j name hwid (d_vip rec) (sweep now s) = Some s'" for ses j chal name hwid s'
  proof -
    have ok: "system_ok (sweep now s, ses)" by (rule system_ok_quiet [OF that(1)]) (intro quiet_intros)
    have "i \<noteq> j" using system_okD(3) [OF that(1) assms(4)] that(2) by (auto simp: serves_def)
    then show ?thesis
      using system_ok_register(4) [OF ok that(2,3), of i] assms(4) by (auto simp: s')
  qed
  ultimately show ?thesis using assms(4) by (simp add: s')
qed

theorem sweep_frees_address_in_use_witness:
  "\<exists>s ses. system_reachable demo_server (s, ses) \<and> ses 0 = Some (Serving 0x0A000002)
    \<and> map_of (s_devices (sweep LeaseDuration s)) 0x0A000002 = Some 0
    \<and> \<not> Held (s_pool (sweep LeaseDuration s)) 0x0A000002"
proof -
  obtain s where s: "system_reachable demo_server (s, demo_sessions)" "lease_ok (s_table s) (s_pool s)"
    "DeviceKeyByID (s_table s) ''ID'' = GenerateKey demo_key" "map_of (s_devices s) 0x0A000002 = Some 0"
    "find_record (s_table s) ''h'' \<noteq> None" "d_vip (the (find_record (s_table s) ''h'')) = 0x0A000002"
    "d_expire (the (find_record (s_table s) ''h'')) = LeaseDuration"
    by (rule demo_online)
  then obtain rec where rec: "find_record (s_table s) ''h'' = Some rec" "d_vip rec = 0x0A000002"
    "d_expire rec = LeaseDuration" by auto
  then have "lease_expired LeaseDuration rec"
    by (simp add: lease_expired_def LeaseDuration_def Second_def)
  from sweep_frees_address_in_use [OF s(2) rec(1) this, of 0] show ?thesis
    using s(1,4) rec(2) by (intro exI [of _ s] exI [of _ demo_sessions]) (simp add: demo_sessions_def)
qed


section \<open>What a device is told on admission\<close>

lemma heap_send: "s_heap (sendMsg i m s) j = (if j = i then map_option (enqueue m) (s_heap s i) else s_heap s j)"
  by (simp add: sendMsg_def upd_device_def)

lemma send_all_other: "j \<notin> set is \<Longrightarrow> s_heap (send_all is m s) j = s_heap s j"
  unfolding send_all_def by (induction "is" arbitrary: s) (simp_all add: heap_send)

lemma enqueue_room:
  "dv_conn d \<noteq> None \<Longrightarrow> dv_ch_open d \<Longrightarrow> length (dv_queue d) < queue_cap \<Longrightarrow>
   enqueue m d = d\<lparr>dv_queue := dv_queue d @ [m]\<rparr>"
  by (simp add: enqueue_def)

lemma set_peerList:
  "set (peerList self s) =
     {p. \<exists>v j e. (v, j) \<in> set (s_devices s) \<and> s_heap s j = Some e \<and> v \<noteq> self
        \<and> p = \<lparr>p_name = dv_name e, p_vip = v\<rparr>}"
  by (force simp: peerList_def online_devices_def split: option.splits)

lemma notifyOnline_self: "s_heap (notifyOnline i s) i = s_heap s i"
  by (auto simp: notifyOnline_def send_all_other split: option.splits)

lemma call_online_heap [frame_simps]: "s_heap (call_online m v s) = s_heap s"
  by (simp add: call_online_def Let_def)

lemma map_of_perm_in: "keys_distinct m \<Longrightarrow> (k, v) \<in> set m \<longleftrightarrow> map_of m k = Some v"
  by (rule in_set_conv_map_of)

text \<open>A device that has just been admitted is sent, in this order and before anything else, the
  welcome with its address and the end of its lease (0 for none), the list of exactly the other
  devices online with their names and addresses, and the settings in force when there are
  any.\<close>

theorem welcome_sequence:
  assumes ok: "system_ok (s, ses)" and new: "ses i = Some (Awaiting chal)"
    and run: "first_message i m chal now a b n s = Some (Admitted vip lease, s')"
    and d: "s_heap s i = Some d" "dv_conn d \<noteq> None" "dv_ch_open d" "length (dv_queue d) \<le> 61"
    and pushed: "settings_ok (s_pushed s)"
  shows "\<exists>d' peers. s_heap s' i = Some d'
    \<and> dv_queue d' = dv_queue d
        @ [(msg_of MsgWelcome)\<lparr>m_vip := vip, m_lease_until := if lease \<noteq> 0 then Unix lease else 0\<rparr>,
           (msg_of MsgPeerList)\<lparr>m_peers := peers\<rparr>]
        @ (if s_pushed s = [] then [] else [(msg_of MsgConfigPush)\<lparr>m_config := s_pushed s\<rparr>])
    \<and> set peers = {p. \<exists>v j e. map_of (s_devices s) v = Some j \<and> v \<noteq> vip \<and> s_heap s j = Some e
                     \<and> p = \<lparr>p_name = dv_name e, p_vip = v\<rparr>}"
proof -
  note D = system_okD [OF ok]
  obtain s1 where "register i (m_device_name m) (m_hwid m) now s = Some (Inr (vip, lease), s1)"
    and s': "s' = welcome_device i m vip lease s1"
    using run by (auto simp: first_message_def split: if_splits option.splits sum.splits)
  then obtain s0 where alloc: "allocVIP (m_hwid m) (m_device_name m) now s = (Inr (vip, lease), s0)"
    and reg: "register_locked i (m_device_name m) (m_hwid m) vip s0 = Some s1"
    by (auto simp: register_def split: prod.splits sum.splits)
  have s0: "s_heap s0 = s_heap s" "s_devices s0 = s_devices s" "s_by_id s0 = s_by_id s" "s_pushed s0 = s_pushed s"
    using alloc by (auto simp: allocVIP_def split: if_splits option.splits prod.splits)
  have notin: "map_of (s_devices s) v \<noteq> Some i" for v
    using D(3) [of v i] new by (auto simp: serves_def)
  obtain name where "s_heap s1 i = Some (d\<lparr>dv_name := name, dv_vip := vip, dv_hwid := m_hwid m\<rparr>)"
    and devs: "s_devices s1 = AList.update vip i (s_devices s)" and push1: "s_pushed s1 = s_pushed s"
    and others: "\<And>j e. j \<noteq> i \<Longrightarrow> map_option dv_name (s_heap s1 j) = map_option dv_name (s_heap s j)"
    using reg d(1) notin [of vip] s0
    by (auto simp: register_locked_def Let_def upd_device_def close_conn_def close_device_conn_def
        frame_simps option.map_comp comp_def split: option.splits)
  then obtain d1 where d1: "s_heap s1 i = Some d1" "dv_conn d1 \<noteq> None" "dv_ch_open d1" "dv_queue d1 = dv_queue d"
    using d by simp
  define w where "w = (msg_of MsgWelcome)\<lparr>m_vip := vip, m_lease_until := if lease \<noteq> 0 then Unix lease else 0\<rparr>"
  define s2 where "s2 = sendMsg i w (call_online m vip s1)"
  define peers where "peers = peerList vip s2"
  define p where "p = (msg_of MsgPeerList)\<lparr>m_peers := peers\<rparr>"
  define c where "c = (msg_of MsgConfigPush)\<lparr>m_config := s_pushed s\<rparr>"
  have cfg: "PushedConfig (sendMsg i x s2) = s_pushed s" for x
    using pushed by (simp add: PushedConfig_def s2_def frame_simps push1 copyMap_ascending settings_ok_def)
  have s'2: "s' = notifyOnline i (if s_pushed s \<noteq> [] then sendMsg i c (sendMsg i p s2) else sendMsg i p s2)"
    unfolding s' welcome_device_def Let_def w_def [symmetric] s2_def [symmetric] peers_def [symmetric]
      p_def [symmetric] cfg c_def [symmetric] by simp
  have room: "length (dv_queue d1) < queue_cap" "length (dv_queue d1 @ [x]) < queue_cap"
    "length (dv_queue d1 @ [x, y]) < queue_cap" for x y
    using d(4) d1(4) by (simp_all add: queue_cap_def)
  have h2: "s_heap (sendMsg i p s2) i = Some (d1\<lparr>dv_queue := dv_queue d1 @ [w, p]\<rparr>)"
    using d1(1-3) room by (simp add: s2_def heap_send frame_simps enqueue_room)
  have "s_heap s' i = Some (d1\<lparr>dv_queue := dv_queue d @ [w, p] @ (if s_pushed s = [] then [] else [c])\<rparr>)"
    unfolding s'2 notifyOnline_self using h2 d1(2-4) room
    by (simp add: heap_send [of i c] enqueue_room)
  moreover have "set peers = {p. \<exists>v j e. map_of (s_devices s) v = Some j \<and> v \<noteq> vip \<and> s_heap s j = Some e
      \<and> p = \<lparr>p_name = dv_name e, p_vip = v\<rparr>}"
  proof -
    have in_dev: "(v, j) \<in> set (s_devices s2) \<and> v \<noteq> vip \<longleftrightarrow> map_of (s_devices s) v = Some j \<and> v \<noteq> vip" for v j
      using map_of_perm_in [of "s_devices s2" v j] D(1) by (auto simp: s2_def frame_simps devs)
    have nm: "(\<exists>e. s_heap s2 j = Some e \<and> q = \<lparr>p_name = dv_name e, p_vip = v\<rparr>)
        \<longleftrightarrow> (\<exists>e. s_heap s j = Some e \<and> q = \<lparr>p_name = dv_name e, p_vip = v\<rparr>)"
      if "map_of (s_devices s) v = Some j" for q v j
    proof -
      have ji: "j \<noteq> i" using notin that by blast
      have "s_heap s2 j = s_heap s1 j" using ji by (simp add: s2_def heap_send frame_simps)
      then show ?thesis using others [OF ji]
        by (cases "s_heap s1 j"; cases "s_heap s j") simp_all
    qed
    have "q \<in> set peers \<longleftrightarrow> (\<exists>v j. map_of (s_devices s) v = Some j \<and> v \<noteq> vip
        \<and> (\<exists>e. s_heap s j = Some e \<and> q = \<lparr>p_name = dv_name e, p_vip = v\<rparr>))" for q
    proof -
      have "q \<in> set peers \<longleftrightarrow> (\<exists>v j. ((v, j) \<in> set (s_devices s2) \<and> v \<noteq> vip)
          \<and> (\<exists>e. s_heap s2 j = Some e \<and> q = \<lparr>p_name = dv_name e, p_vip = v\<rparr>))"
        unfolding peers_def set_peerList by blast
      also have "\<dots> \<longleftrightarrow> (\<exists>v j. (map_of (s_devices s) v = Some j \<and> v \<noteq> vip)
          \<and> (\<exists>e. s_heap s j = Some e \<and> q = \<lparr>p_name = dv_name e, p_vip = v\<rparr>))"
        unfolding in_dev using nm by (intro ex_cong1) (metis (no_types))
      finally show ?thesis by simp
    qed
    then show ?thesis by blast
  qed
  ultimately show ?thesis
    by (intro exI [of _ "d1\<lparr>dv_queue := dv_queue d @ [w, p] @ (if s_pushed s = [] then [] else [c])\<rparr>"]
        exI [of _ peers]) (simp add: w_def p_def c_def)
qed


theorem welcome_sequence_witness:
  "\<exists>s' d'. first_message 0 (demo_hello [1]) [1] 0 None None None (conn_accepted 0 0 [1] demo_server)
      = Some (Admitted 0x0A000002 0, s')
    \<and> s_heap s' 0 = Some d'
    \<and> dv_queue d' = [(msg_of MsgChallenge)\<lparr>m_nonce := [1]\<rparr>, (msg_of MsgWelcome)\<lparr>m_vip := 0x0A000002\<rparr>,
        msg_of MsgPeerList]"
proof -
  let ?s = "conn_accepted 0 0 [1] demo_server" and ?ses = "(\<lambda>_. None)(0 \<mapsto> Awaiting [1])"
  have fr: "s_table ?s = s_table demo_server" "s_pool ?s = s_pool demo_server" "s_pushed ?s = s_pushed demo_server"
    "s_devices ?s = []"
    by (simp_all add: conn_accepted_def frame_simps NewServer_start [OF demo_start])
  have push: "s_pushed demo_server = []"
    using NewServer_start(10) [OF demo_start] by (simp add: loadSettings_def)
  have ok: "system_ok (?s, ?ses)"
    by (rule system_ok_accept [OF system_ok_start]) (simp_all add: NewServer_start(1-3) [OF demo_start])
  obtain pool where alloc: "Alloc (s_pool ?s) = Some (0x0A000002, pool)"
    using Alloc_first [of "s_pool demo_server"] by (simp add: fr demo_pool word_le_nat_alt)
  have hello: "m_type (demo_hello [1]) = MsgHello" "m_hwid (demo_hello [1]) = []"
    by (simp_all add: demo_hello_def msg_of_def)
  obtain s' where s': "first_message 0 (demo_hello [1]) [1] 0 None None None ?s = Some (Admitted 0x0A000002 0, s')"
    using first_message_anonymous [OF demo_credential [OF fr(1)] hello alloc] by blast
  have heap: "s_heap ?s 0 = Some (enqueue ((msg_of MsgChallenge)\<lparr>m_nonce := [1]\<rparr>) (new_device 0))"
    by (simp add: conn_accepted_def sendMsg_def upd_device_def)
  have q: "enqueue x (new_device 0) = (new_device 0)\<lparr>dv_queue := [x]\<rparr>" for x
    by (simp add: enqueue_def new_device_def queue_cap_def)
  have sok: "settings_ok (s_pushed ?s)" by (simp add: fr push settings_ok_def)
  from welcome_sequence [OF ok _ s' heap _ _ _ sok]
  obtain d' peers where d': "s_heap s' 0 = Some d'"
    "dv_queue d' = [(msg_of MsgChallenge)\<lparr>m_nonce := [1]\<rparr>, (msg_of MsgWelcome)\<lparr>m_vip := 0x0A000002, m_lease_until := 0\<rparr>,
      (msg_of MsgPeerList)\<lparr>m_peers := peers\<rparr>]" "set peers = {}"
    unfolding q by (auto simp: new_device_def fr push)
  moreover have "(msg_of MsgWelcome)\<lparr>m_vip := 0x0A000002, m_lease_until := 0\<rparr> = (msg_of MsgWelcome)\<lparr>m_vip := 0x0A000002\<rparr>"
    "(msg_of MsgPeerList)\<lparr>m_peers := []\<rparr> = msg_of MsgPeerList"
    by (simp_all add: msg_of_def)
  ultimately show ?thesis using s' by auto
qed

end
