(* ===== verification/Relay_Properties.thy ===== *)
theory Relay_Properties
  imports Server_Properties
begin

text \<open>
  What the UDP relay guarantees: it never panics, it does nothing for strangers, it forwards
  authenticated packets byte for byte to the recorded address of their destination, broadcasts
  reach every other device once, and a ping to the server's own address is answered.
\<close>

section \<open>No panic, nothing for strangers\<close>

lemma echoReply_total: "\<exists>r. echoReply p v = Some r"
  using echo_accepted_reply echoReply_rejected by (cases "echo_accepted p v") fastforce+

lemma relay_packet_total: "\<exists>r. relay_packet from_a buf pkt nonce ok s = Some r"
proof -
  obtain r where r: "echoReply (pk_data pkt) (ServerVIP (s_pool s)) = Some r" using echoReply_total by blast
  show ?thesis unfolding relay_packet_def Let_def r by (simp split: option.split sum.split)
qed

lemma relay_packet_stranger:
  assumes "find_device (pk_source pkt) s = None"
  shows "\<exists>s'. relay_packet from_a buf pkt nonce ok s = Some ([], s')"
  using assms by (simp add: relay_packet_def Let_def)

text \<open>What a relayed packet may turn into.\<close>

lemma relay_packet_out:
  assumes "relay_packet from_a buf pkt nonce ok s = Some (out, s')" and "(a, bytes) \<in> set out"
  shows "find_device (pk_source pkt) s \<noteq> None
    \<and> (bytes = buf
       \<or> (a = from_a \<and> (\<exists>reply. echoReply (pk_data pkt) (ServerVIP (s_pool s)) = Some (Some reply)
            \<and> Encrypt (s_crypto s) nonce FlagData (ServerVIP (s_pool s)) (pk_source pkt) reply = Inr bytes)))"
proof -
  have crypto: "s_crypto (refresh_addr v x s) = s_crypto s" for v x
    by (simp add: refresh_addr_def upd_device_def split: option.splits)
  show ?thesis
    using assms
    by (auto simp: relay_packet_def Let_def flood_def crypto
        split: if_splits option.splits sum.splits prod.splits)
qed

text \<open>Two devices online, one of them with a known address.\<close>

definition relay_addr :: "byte \<Rightarrow> udp_addr" where
  "relay_addr x = \<lparr>u_ip = [203, 0, 113, x], u_port = 4000, u_zone = []\<rparr>"

definition relay_device :: "string \<Rightarrow> u32 \<Rightarrow> udp_addr option \<Rightarrow> device" where
  "relay_device name vip a = (new_device 0)\<lparr>dv_name := name, dv_vip := vip, dv_udp := a\<rparr>"

definition relay_demo :: server where
  "relay_demo = demo_server\<lparr>s_devices := [(0x0A000002, 0), (0x0A000003, 1)], s_by_id := [(''a'', 0), (''b'', 1)],
     s_heap := (\<lambda>_. None)(0 \<mapsto> relay_device ''a'' 0x0A000002 None,
                            1 \<mapsto> relay_device ''b'' 0x0A000003 (Some (relay_addr 9)))\<rparr>"

definition relay_sessions :: "nat \<Rightarrow> session option" where
  "relay_sessions = (\<lambda>_. None)(0 \<mapsto> Serving 0x0A000002, 1 \<mapsto> Serving 0x0A000003)"

lemma relay_demo_fields:
  "NewCryptoWithKeys (replicate 32 9) (replicate 32 9) = Some (s_crypto relay_demo)"
  "ServerVIP (s_pool relay_demo) = 0x0A000001"
  "find_device 0x0A000002 relay_demo = Some (0, relay_device ''a'' 0x0A000002 None)"
  "find_device 0x0A000003 relay_demo = Some (1, relay_device ''b'' 0x0A000003 (Some (relay_addr 9)))"
  using NewServer_start(6) [OF demo_start]
  by (simp_all add: relay_demo_def ServerVIP_def demo_pool find_device_def)

lemma relay_demo_ok: "system_ok (relay_demo, relay_sessions)"
  by (auto simp: system_ok_def serves_def relay_demo_def relay_sessions_def relay_device_def
      NewServer_start [OF demo_start] split: if_splits)

definition relay_client :: crypto where
  "relay_client = the (NewCryptoWithKeys (replicate 32 9) [1])"

lemma relay_client: "NewCryptoWithKeys (replicate 32 9) [1] = Some relay_client"
  by (simp add: relay_client_def NewCryptoWithKeys_def)

lemma relay_client_encrypts:
  "length p \<le> MaxPayload \<Longrightarrow> \<exists>buf. Encrypt relay_client nonce flag src dst p = Inr buf"
  by (simp add: Encrypt_def Let_def)

text \<open>C9: Whatever datagram arrives, from whatever address, the relay goes on: no index or slice is
  out of range. It sends nothing unless the datagram carries a valid tag under the network key
  and names a registered device as its source; and everything it sends is the received packet
  byte for byte, or the encrypted answer to a ping, sent back to where the packet came from.\<close>

theorem relay_safe:
  "\<exists>out s'. relay_round from_a dg nonce ok s = Some (out, s')
    \<and> (\<forall>(a, bytes) \<in> set out. \<exists>pkt.
         Decrypt (s_crypto s) (take MaxPacket dg) = Inr pkt
         \<and> find_device (pk_source pkt) s \<noteq> None
         \<and> (bytes = take MaxPacket dg
            \<or> a = from_a \<and> (\<exists>reply. echoReply (pk_data pkt) (ServerVIP (s_pool s)) = Some (Some reply)
                 \<and> Encrypt (s_crypto s) nonce FlagData (ServerVIP (s_pool s)) (pk_source pkt) reply = Inr bytes)))"
proof (cases "length (take MaxPacket dg) < HeaderLen")
  case True
  then show ?thesis by (simp add: relay_round_def)
next
  case False
  show ?thesis
  proof (cases "Decrypt (s_crypto s) (take MaxPacket dg)")
    case (Inl e)
    then show ?thesis using False by (simp add: relay_round_def)
  next
    case (Inr pkt)
    obtain out s' where run: "relay_packet from_a (take MaxPacket dg) pkt nonce ok s = Some (out, s')"
      using relay_packet_total [of from_a "take MaxPacket dg" pkt nonce ok s] by auto
    then have "relay_round from_a dg nonce ok s = Some (out, s')"
      using False Inr by (simp add: relay_round_def Let_def)
    then show ?thesis using relay_packet_out [OF run] Inr by (intro exI conjI) (assumption, fastforce)
  qed
qed


lemma MaxPayload_small: "length [65 :: byte] \<le> MaxPayload" "length ping_10_0_0_1 \<le> MaxPayload"
  by (simp_all add: MaxPayload_def ping_10_0_0_1_def)

theorem relay_safe_witness:
  "\<exists>out s'. relay_round (relay_addr 8) [1, 2, 3] (replicate 12 6) True relay_demo = Some (out, s')
    \<and> out = []"
proof -
  have "Decrypt c [1, 2, 3] = Inl PacketTooShort" for c by (simp add: Decrypt_def HeaderLen_def)
  moreover have "take MaxPacket [1, 2, 3] = ([1, 2, 3] :: byte list)"
    by (simp add: MaxPacket_def HeaderLen_def MaxPayload_def)
  ultimately obtain out s' where run: "relay_round (relay_addr 8) [1, 2, 3] (replicate 12 6) True relay_demo = Some (out, s')"
    "\<forall>(a, bytes) \<in> set out. False"
    using relay_safe [of "relay_addr 8" "[1, 2, 3]" "replicate 12 6" True relay_demo] by auto
  then have "out = []" by (cases out) auto
  then show ?thesis using run(1) by blast
qed

section \<open>Delivery\<close>

lemma refresh_fields [simp]:
  "s_devices (refresh_addr v x s) = s_devices s" "s_pool (refresh_addr v x s) = s_pool s"
  "s_crypto (refresh_addr v x s) = s_crypto s" "s_stats (refresh_addr v x s) = s_stats s"
  by (simp_all add: refresh_addr_def upd_device_def split: option.splits)

lemma device_addr_refresh_other:
  assumes "find_device w s = Some (j, e)" and "map_of (s_devices s) v \<noteq> Some j"
  shows "device_addr w (refresh_addr v x s) = dv_udp e"
  using assms
  by (auto simp: device_addr_def find_device_def refresh_addr_def upd_device_def split: option.splits)

lemma same_encrypt:
  assumes "NewCryptoWithKeys k a = Some c" and "NewCryptoWithKeys k a' = Some c'"
  shows "Encrypt c = Encrypt c'"
proof -
  have "c_seal c = c_seal c'"
    using assms [THEN NewCryptoWithKeys_gcm] by (simp add: uses_aead_def)
  then show ?thesis by (simp add: Encrypt_def fun_eq_iff Let_def)
qed

lemma relay_round_genuine:
  assumes "NewCryptoWithKeys netKey netKey = Some (s_crypto s)" and "NewCryptoWithKeys netKey authKey = Some c"
    and "length nonce = NonceLen" and "Encrypt c nonce flag src dst payload = Inr buf"
  shows "relay_round from_a buf nonce' ok s =
    relay_packet from_a buf \<lparr>pk_flags = flag, pk_source = src, pk_dest = dst, pk_data = payload\<rparr> nonce' ok s"
    and "length buf \<le> MaxPacket" and "length payload \<le> MaxPayload"
proof -
  have same: "Encrypt c = Encrypt (s_crypto s)"
    using same_encrypt assms(1,2) by blast
  have small: "length payload \<le> MaxPayload"
    using assms(4) by (auto simp: Encrypt_def Let_def split: if_splits)
  have rt': "Decrypt (s_crypto s) buf = Inr \<lparr>pk_flags = flag, pk_source = src, pk_dest = dst, pk_data = payload\<rparr>"
    using gcm_packets(1) [OF assms(1,3)] assms(4) same by simp
  have len: "length buf = HeaderLen + length payload + 16"
    using gcm_packets(2) [OF assms(2-4)] by (simp add: gcm_overhead_def)
  then have max: "length buf \<le> MaxPacket" using small by (simp add: MaxPacket_def)
  from rt' len max show "relay_round from_a buf nonce' ok s =
    relay_packet from_a buf \<lparr>pk_flags = flag, pk_source = src, pk_dest = dst, pk_data = payload\<rparr> nonce' ok s"
    by (simp add: relay_round_def Let_def)
  show "length buf \<le> MaxPacket" by (rule max)
  show "length payload \<le> MaxPayload" by (rule small)
qed


text \<open>A data packet one client encrypts for another that is online with a known address reaches
  exactly that address unchanged: the relay sends the received bytes there and nowhere else,
  they decrypt at the receiver to the sender's payload and addresses, the counters grow by one
  packet and its bytes, and the address the packet came from is recorded for its source.\<close>

lemma relay_forwards:
  assumes "NewCryptoWithKeys netKey netKey = Some (s_crypto s)"
    and "NewCryptoWithKeys netKey k1 = Some c1" and "NewCryptoWithKeys netKey k2 = Some c2"
    and "length nonce = NonceLen" and "Encrypt c1 nonce FlagData src dst payload = Inr buf"
    and "find_device src s = Some (i, d)" and "find_device dst s = Some (j, e)" and "i \<noteq> j"
    and "dv_udp e = Some a" and "dst \<noteq> ServerVIP (s_pool s)" and "dst \<noteq> VNetBroadcast"
  shows "\<exists>s'. relay_round from_a buf nonce' True s = Some ([(a, buf)], s')
    \<and> Decrypt c2 buf = Inr \<lparr>pk_flags = FlagData, pk_source = src, pk_dest = dst, pk_data = payload\<rparr>
    \<and> st_pkts (s_stats s') = st_pkts (s_stats s) + 1
    \<and> st_bytes (s_stats s') = st_bytes (s_stats s) + of_nat (length buf)
    \<and> device_addr src s' = Some from_a"
proof -
  note genuine = relay_round_genuine [OF assms(1,2,4,5)]
  have devs: "map_of (s_devices s) src = Some i" "map_of (s_devices s) dst = Some j" "s_heap s i = Some d"
    using assms(6,7) by (auto simp: find_device_def split: option.splits)
  let ?s = "refresh_addr src from_a s"
  have addr: "device_addr dst ?s = Some a"
    using device_addr_refresh_other [OF assms(7), of src from_a] devs assms(8,9) by simp
  have kind: "pk_kind FlagData = FlagData" "FlagData \<noteq> FlagProbe" "FlagData \<noteq> FlagReply"
    by (simp_all add: pk_kind_def packet_flags)
  have run: "relay_round from_a buf nonce' True s = Some ([(a, buf)], count_relayed (length buf) ?s)"
    unfolding genuine(1) relay_packet_def using assms(6,10,11) kind addr by (simp add: Let_def)
  have "Encrypt c2 nonce FlagData src dst payload = Inr buf"
    using same_encrypt [OF assms(2,3)] assms(5) by simp
  then have "Decrypt c2 buf = Inr \<lparr>pk_flags = FlagData, pk_source = src, pk_dest = dst, pk_data = payload\<rparr>"
    using gcm_packets(1) [OF assms(3,4)] by blast
  moreover have "device_addr src (count_relayed n ?s) = Some from_a" for n
    using devs by (simp add: device_addr_def find_device_def count_relayed_def refresh_addr_def upd_device_def)
  ultimately show ?thesis using run by (simp add: count_relayed_def)
qed

lemma relay_forwards_sample:
  "\<exists>buf s'. Encrypt relay_client (replicate 12 5) FlagData 0x0A000002 0x0A000003 [65] = Inr buf
    \<and> relay_round (relay_addr 8) buf (replicate 12 6) True relay_demo = Some ([(relay_addr 9, buf)], s')
    \<and> device_addr 0x0A000002 s' = Some (relay_addr 8)"
proof -
  obtain buf where buf: "Encrypt relay_client (replicate 12 5) FlagData 0x0A000002 0x0A000003 [65] = Inr buf"
    using relay_client_encrypts [of "[65]"] by (metis MaxPayload_small(1))
  have "length (replicate 12 5 :: byte list) = NonceLen" by (simp add: NonceLen_def)
  note deliver = relay_forwards [OF relay_demo_fields(1) relay_client relay_client this buf relay_demo_fields(3,4)]
  show ?thesis
    using deliver [where a = "relay_addr 9" and from_a = "relay_addr 8" and nonce' = "replicate 12 6"] buf
    by (auto simp: relay_demo_fields VNetBroadcast_value relay_device_def)
qed

text \<open>A packet for the network's broadcast address goes, byte for byte, to the recorded address of
  every device online except the sender's, and to no other address.\<close>

theorem broadcast_reaches_all_others:
  assumes "NewCryptoWithKeys netKey netKey = Some (s_crypto s)" and "NewCryptoWithKeys netKey k1 = Some c1"
    and "length nonce = NonceLen" and "Encrypt c1 nonce FlagData src VNetBroadcast payload = Inr buf"
    and "find_device src s = Some (i, d)" and "ServerVIP (s_pool s) \<noteq> VNetBroadcast"
    and ok: "system_ok (s, ses)"
  shows "\<exists>out s'. relay_round from_a buf nonce' ok s = Some (out, s')
    \<and> set out = {(a, buf) | a. \<exists>v j e. map_of (s_devices s) v = Some j \<and> v \<noteq> src \<and> s_heap s j = Some e
                               \<and> dv_udp e = Some a}"
proof -
  note genuine = relay_round_genuine [OF assms(1-4)]
  have src: "map_of (s_devices s) src = Some i" "s_heap s i = Some d"
    using assms(5) by (auto simp: find_device_def split: option.splits)
  let ?s = "refresh_addr src from_a s"
  have kind: "pk_kind FlagData = FlagData" "FlagData \<noteq> FlagProbe" "FlagData \<noteq> FlagReply"
    by (simp_all add: pk_kind_def packet_flags)
  have run: "relay_round from_a buf nonce' ok s = Some (flood buf src ?s, count_flooded ?s)"
    unfolding genuine(1) relay_packet_def using assms(5,6) kind by (simp add: Let_def)
  have heap: "s_heap ?s j = s_heap s j" if "(v, j) \<in> set (s_devices s)" "v \<noteq> src" for v j
  proof -
    have "j \<noteq> i"
    proof
      assume "j = i"
      then have "(src, i) \<in> set (s_devices s)" "(v, i) \<in> set (s_devices s)" using that src map_of_SomeD by auto
      then show False using system_ok_distinct [OF ok] that(2) by (metis Pair_inject distinct_map inj_onD snd_conv)
    qed
    then show ?thesis using src by (simp add: refresh_addr_def upd_device_def)
  qed
  have mem: "(x, b) \<in> set (flood buf src ?s) \<longleftrightarrow> b = buf \<and> (\<exists>v j e. ((v, j) \<in> set (s_devices s) \<and> v \<noteq> src
      \<and> s_heap ?s j = Some e) \<and> dv_udp e = Some x)" for x b
    by (force simp: flood_def online_devices_def split: option.splits)
  have same: "(v, j) \<in> set (s_devices s) \<and> v \<noteq> src \<and> s_heap ?s j = Some e \<longleftrightarrow>
      (v, j) \<in> set (s_devices s) \<and> v \<noteq> src \<and> s_heap s j = Some e" for v j e
    using heap by auto
  have "set (flood buf src ?s) = {(a, buf) | a. \<exists>v j e. (v, j) \<in> set (s_devices s) \<and> v \<noteq> src
      \<and> s_heap s j = Some e \<and> dv_udp e = Some a}"
  proof (rule set_eqI)
    fix y :: datagram
    obtain x b where "y = (x, b)" by force
    then show "y \<in> set (flood buf src ?s) \<longleftrightarrow> y \<in> {(a, buf) | a. \<exists>v j e. (v, j) \<in> set (s_devices s) \<and> v \<noteq> src
      \<and> s_heap s j = Some e \<and> dv_udp e = Some a}"
      using mem [of x b] unfolding same by auto
  qed
  then show ?thesis using run unfolding in_set_conv_map_of [OF system_okD(1) [OF ok]] by blast
qed


theorem broadcast_reaches_all_others_witness:
  "\<exists>buf out s'. Encrypt relay_client (replicate 12 5) FlagData 0x0A000002 VNetBroadcast [65] = Inr buf
    \<and> relay_round (relay_addr 8) buf (replicate 12 6) True relay_demo = Some (out, s')
    \<and> set out = {(relay_addr 9, buf)}"
proof -
  obtain buf where buf: "Encrypt relay_client (replicate 12 5) FlagData 0x0A000002 VNetBroadcast [65] = Inr buf"
    using relay_client_encrypts [of "[65]"] by (metis MaxPayload_small(1))
  have n: "length (replicate 12 5 :: byte list) = NonceLen" by (simp add: NonceLen_def)
  have "ServerVIP (s_pool relay_demo) \<noteq> VNetBroadcast" by (simp add: relay_demo_fields VNetBroadcast_value)
  from broadcast_reaches_all_others [OF relay_demo_fields(1) relay_client n buf relay_demo_fields(3) this relay_demo_ok,
      of "relay_addr 8" "replicate 12 6" True]
  obtain out s' where run: "relay_round (relay_addr 8) buf (replicate 12 6) True relay_demo = Some (out, s')"
    and out: "set out = {(a, buf) | a. \<exists>v j e. map_of (s_devices relay_demo) v = Some j \<and> v \<noteq> 0x0A000002
       \<and> s_heap relay_demo j = Some e \<and> dv_udp e = Some a}" by (elim exE conjE)
  have "{(a, buf) | a. \<exists>v j e. map_of (s_devices relay_demo) v = Some j \<and> v \<noteq> 0x0A000002
       \<and> s_heap relay_demo j = Some e \<and> dv_udp e = Some a} = {(relay_addr 9, buf)}"
  proof -
    have "(\<exists>v j e. map_of (s_devices relay_demo) v = Some j \<and> v \<noteq> 0x0A000002
        \<and> s_heap relay_demo j = Some e \<and> dv_udp e = Some a) \<longleftrightarrow> a = relay_addr 9" for a
    proof
      assume "\<exists>v j e. map_of (s_devices relay_demo) v = Some j \<and> v \<noteq> 0x0A000002
        \<and> s_heap relay_demo j = Some e \<and> dv_udp e = Some a"
      then show "a = relay_addr 9"
        by (auto simp: relay_demo_def relay_device_def simp del: map_of_eq_Some_iff split: if_splits)
    next
      assume "a = relay_addr 9"
      then show "\<exists>v j e. map_of (s_devices relay_demo) v = Some j \<and> v \<noteq> 0x0A000002
        \<and> s_heap relay_demo j = Some e \<and> dv_udp e = Some a"
        by (intro exI [of _ "0x0A000003"] exI [of _ 1] exI [of _ "relay_device ''b'' 0x0A000003 (Some (relay_addr 9))"])
          (simp add: relay_demo_def relay_device_def)
    qed
    then show ?thesis by auto
  qed
  then have "set out = {(relay_addr 9, buf)}" by (rule trans [OF out])
  with buf run show ?thesis by (intro exI conjI)
qed

text \<open>A device that pings the server's own address is answered: the relay sends one packet back
  to where the request came from, which the device decrypts to the echo reply for its request,
  from the server's address, with valid checksums.\<close>

theorem ping_answered:
  assumes "NewCryptoWithKeys netKey netKey = Some (s_crypto s)" and "NewCryptoWithKeys netKey k1 = Some c1"
    and "length nonce = NonceLen" and "length nonce' = NonceLen"
    and "Encrypt c1 nonce FlagData src (ServerVIP (s_pool s)) request = Inr buf"
    and "find_device src s = Some (i, d)" and "echo_accepted request (ServerVIP (s_pool s))"
  shows "\<exists>answer s' reply. relay_round from_a buf nonce' ok s = Some ([(from_a, answer)], s')
    \<and> Decrypt c1 answer = Inr \<lparr>pk_flags = FlagData, pk_source = ServerVIP (s_pool s), pk_dest = src, pk_data = reply\<rparr>
    \<and> is_echo_reply_to request reply"
proof -
  note genuine = relay_round_genuine [OF assms(1-3,5)]
  obtain reply where reply: "echoReply request (ServerVIP (s_pool s)) = Some (Some reply)" "is_echo_reply_to request reply"
    using echo_accepted_reply [OF assms(7)] by blast
  have "length reply \<le> length request"
    using reply(2) assms(7) by (auto simp: is_echo_reply_to_def echo_accepted_def ip_total_def Let_def)
  then have "\<not> length reply > MaxPayload" using genuine(3) by simp
  then obtain answer where enc: "Encrypt (s_crypto s) nonce' FlagData (ServerVIP (s_pool s)) src reply = Inr answer"
    by (simp add: Encrypt_def Let_def)
  have kind: "pk_kind FlagData = FlagData" "FlagData \<noteq> FlagProbe" "FlagData \<noteq> FlagReply"
    by (simp_all add: pk_kind_def packet_flags)
  have "relay_round from_a buf nonce' ok s = Some ([(from_a, answer)], count_icmp (refresh_addr src from_a s))"
    unfolding genuine(1) relay_packet_def using assms(6) reply(1) enc kind by (simp add: Let_def)
  moreover have "Encrypt c1 nonce' FlagData (ServerVIP (s_pool s)) src reply = Inr answer"
    using same_encrypt [OF assms(2,1)] enc by simp
  ultimately show ?thesis using gcm_packets(1) [OF assms(2,4)] reply(2) by blast
qed


theorem ping_answered_witness:
  "\<exists>buf answer s' reply. Encrypt relay_client (replicate 12 5) FlagData 0x0A000002 0x0A000001 ping_10_0_0_1 = Inr buf
    \<and> relay_round (relay_addr 8) buf (replicate 12 6) True relay_demo = Some ([(relay_addr 8, answer)], s')
    \<and> Decrypt relay_client answer = Inr \<lparr>pk_flags = FlagData, pk_source = 0x0A000001, pk_dest = 0x0A000002, pk_data = reply\<rparr>
    \<and> is_echo_reply_to ping_10_0_0_1 reply"
proof -
  obtain buf where buf: "Encrypt relay_client (replicate 12 5) FlagData 0x0A000002 0x0A000001 ping_10_0_0_1 = Inr buf"
    using relay_client_encrypts [of ping_10_0_0_1] by (metis MaxPayload_small(2))
  have n: "length (replicate 12 5 :: byte list) = NonceLen" "length (replicate 12 6 :: byte list) = NonceLen"
    by (simp_all add: NonceLen_def)
  have "echo_accepted ping_10_0_0_1 0x0A000001" by code_simp
  then show ?thesis
    using ping_answered [of _ relay_demo, OF relay_demo_fields(1) relay_client n _ relay_demo_fields(3),
        of ping_10_0_0_1 buf "relay_addr 8" True] buf
    by (simp add: relay_demo_fields)
qed

end
