(* ===== verification/Client_Properties.thy ===== *)
theory Client_Properties
  imports Client_Run Relay_Properties Server_Control
begin

text \<open>
  The client together with the server: registration and admission over the bytes the two
  exchange, what leaves the client for which address, delivery of a packet from one virtual
  interface to another, and pushed settings.
\<close>

section \<open>Registration\<close>

text \<open>The bytes the server has written to a connection.\<close>

definition conn_output :: "server \<Rightarrow> nat \<Rightarrow> byte list option" where
  "conn_output s i = Option.bind (s_heap s i) (\<lambda>d. map_option k_out (dv_conn d))"

lemma challenge_frame:
  assumes "length chal = 32" shows "frame_ok ((msg_of MsgChallenge)\<lparr>m_nonce := chal\<rparr>)"
proof (rule frame_ok_bytes_message)
  show "bytes_message MsgChallenge ''nonce'' chal ((msg_of MsgChallenge)\<lparr>m_nonce := chal\<rparr>)"
    by (rule bytes_messages) (use assms in auto)
qed (use assms in simp_all)

text \<open>What the client does with a credential the server issued.\<close>

lemma got_register_reply_issued:
  assumes "DecryptCredential (cl_hwid c) blob
      = Inr \<lparr>cr_device_id = did, cr_device_key = GenerateKey keyb, cr_network_key = hex_encode netKey\<rparr>"
    and "length keyb = 32" "length netKey = 32"
    and "NewCryptoWithKeys netKey (DeviceAuthKey keyb) = Some key"
  shows "got_register_reply ((msg_of MsgRegisterOK)\<lparr>m_blob := blob\<rparr>) c =
     (Reconnect, c\<lparr>cl_cfg := (cl_cfg c)\<lparr>cc_device_id := did, cc_device_key := GenerateKey keyb,
                      cc_network_key := hex_encode netKey\<rparr>,
                   cl_crypto := Some key,
                   cl_saved := cl_saved c @ [\<lparr>cr_device_id = did, cr_device_key = GenerateKey keyb,
                                              cr_network_key = hex_encode netKey\<rparr>]\<rparr>)"
  using assms ParseKey_GenerateKey [of keyb] ParseKey_GenerateKey [of netKey]
  by (simp add: got_register_reply_def msg_of_def GenerateKey_def Let_def)

lemma connectOnce_register:
  assumes "e_dial env" "e_written env" and "cc_device_key (cl_cfg c) = []"
    and "e_input env = WriteMsg ch @ WriteMsg reply @ rest" "frame_ok ch" "frame_ok reply"
    and "m_type ch = MsgChallenge" "m_nonce ch \<noteq> []"
  shows "connectOnce env c = Some (case got_register_reply reply c of
      (e, c1) \<Rightarrow> (Inl e, \<lparr>o_messages = [register_request c (m_nonce ch)], o_datagrams = []\<rparr>, c1))"
  using assms by (simp add: connectOnce_def ReadMsg_two)

lemma run_round_reconnect:
  "connectOnce env (c\<lparr>cl_session_ended := False\<rparr>) = Some (Inl Reconnect, out, c1) \<Longrightarrow>
   run_round env c = Some (RetryAfter (200 * Millisecond), out, teardown c1)"
  by (simp add: run_round_def)

lemma NewCrypto_auth: "NewCryptoWithKeys netKey authKey = Some k \<Longrightarrow> AuthTag k chal = AuthTagFor authKey chal"
  by (auto simp: NewCryptoWithKeys_def AuthTag_def split: if_splits)

text \<open>C13: A client that has no credential gets one from the server and can use it. Let it answer the
  challenge on its connection, and let the server handle that message: from the bytes the server
  has then written the client reads its credential, hands it to be saved, holds the network key
  the server encrypts with, and reconnects after a fifth of a second; and the hello it will send
  on any later connection passes the server's check, whatever that connection's challenge.\<close>

theorem client_registers:
  assumes "table_ok (s_table s)" and "length (s_network_key s) = 32"
    and "cc_device_key (cl_cfg c) = []" and "cc_name (cl_cfg c) \<noteq> []"
    and "TrimSpace (cl_hwid c) = cl_hwid c" and "cl_hwid c \<noteq> []"
    and "\<not> IsBlocked (s_table s) (cl_hwid c)" and "Credential_of (s_table s) (cl_hwid c) = None"
    and "length idb = 16" and "length keyb = 32" and "t_by_device_id (s_table s) (GenerateDeviceID idb) = None"
    and "length n = NonceLen" and "length chal = 32"
    and "s_heap s i = Some d" and "dv_conn d = Some k" and "k_open k"
    and "k_out k = WriteMsg ((msg_of MsgChallenge)\<lparr>m_nonce := chal\<rparr>)"
    and "s' = handleRegister i (register_request c chal) chal (Some idb) (Some keyb) (Some n) s"
  shows "\<exists>bytes. conn_output s' i = Some bytes \<and> (\<forall>env. e_dial env \<and> e_written env \<and> e_input env = bytes \<longrightarrow>
    (\<exists>out c' key. run_round env c = Some (RetryAfter (200 * Millisecond), out, c')
    \<and> o_messages out = [register_request c chal]
    \<and> cl_saved c' = cl_saved c @ [\<lparr>cr_device_id = GenerateDeviceID idb, cr_device_key = GenerateKey keyb,
                                   cr_network_key = hex_encode (s_network_key s)\<rparr>]
    \<and> cl_crypto c' = Some key \<and> NewCryptoWithKeys (s_network_key s) (DeviceAuthKey keyb) = Some key
    \<and> (\<forall>chal2. check_hello (hello_request c' key chal2) chal2 (s_table s') = None)))"
proof -
  let ?h = "cl_hwid c" and ?did = "GenerateDeviceID idb" and ?key = "GenerateKey keyb"
  let ?m = "register_request c chal"
  have idb: "idb \<noteq> []" "keyb \<noteq> []" "s_network_key s \<noteq> []" "chal \<noteq> []" using assms(2,9,10,13) by auto
  obtain t where iss: "issue_credential ?h (m_device_name ?m) (Some idb) (Some keyb) (s_table s) = Inr ((?did, ?key), t)"
    and set: "SetCredential (s_table s) ?h (m_device_name ?m) ?did ?key = Inr t"
    using issue_fresh [OF assms(1,6,8) idb(1,2) assms(11)] by blast
  from set have cred: "DeviceKeyByID t ?did = ?key" "?did \<noteq> []" "?key \<noteq> []"
    by (cases rule: SetCredential_Inr; simp add: Credential_of_def DeviceKeyByID_def table_simps)+
  let ?blob = "register_reply n ?h ?did ?key s"
  let ?reply = "(msg_of MsgRegisterOK)\<lparr>m_blob := ?blob\<rparr>"
  have m: "TrimSpace (m_hwid ?m) = ?h" "m_auth ?m = AuthTagFor (RegisterAuthKey ?h) chal"
    using assms(5) by (simp_all add: register_request_def)
  note run = handleRegister_accepts [OF m(1) assms(6) m(2) assms(7) iss, of i n]
  have s': "s' = upd_device i (write_direct ?reply) (closeMsg i (s\<lparr>s_table := t\<rparr>))"
    using run assms(18) by simp
  have table: "s_table s' = t" by (simp add: s' frame_simps)
  have "s_heap s' i = Some (write_direct ?reply (close_ch d))"
    using assms(14) by (simp add: s' upd_device_def closeMsg_def)
  then have sent: "conn_output s' i = Some (k_out k @ WriteMsg ?reply)"
    using assms(15,16) by (simp add: conn_output_def write_direct_def conn_write_def close_ch_def)
  have dec: "DecryptCredential ?h ?blob = Inr \<lparr>cr_device_id = ?did, cr_device_key = ?key,
      cr_network_key = hex_encode (s_network_key s)\<rparr>"
    using reply_decrypts [OF assms(12) cred(2) _ cred(3) _ idb(3)]
    by (simp add: GenerateDeviceID_def GenerateKey_def valid_utf8_base32 valid_utf8_hex)
  have len: "length ?blob \<le> 40000"
    using length_EncryptCredential [OF assms(12), of ?h ?did ?key "hex_encode (s_network_key s)"] length_base32 [of idb] assms(2,9,10)
    by (simp add: register_reply_def GenerateDeviceID_def GenerateKey_def)
  have "?blob \<noteq> []" using dec by (auto simp: DecryptCredential_def NonceLen_def split: if_splits)
  then have frames: "frame_ok ((msg_of MsgChallenge)\<lparr>m_nonce := chal\<rparr>)" "frame_ok ?reply"
    using challenge_frame [OF assms(13)] frame_ok_bytes_message [OF bytes_messages(1) _ len] by simp_all
  obtain key where key: "NewCryptoWithKeys (s_network_key s) (DeviceAuthKey keyb) = Some key"
    using assms(2) by (simp add: NewCryptoWithKeys_def)
  let ?c = "c\<lparr>cl_session_ended := False\<rparr>"
  have hw: "cl_hwid ?c = ?h" by simp
  note issued = got_register_reply_issued [of ?c, unfolded hw, OF dec assms(10,2) key]
  let ?c' = "teardown (snd (got_register_reply ?reply ?c))"
  have pass: "check_hello (hello_request ?c' key chal2) chal2 t = None" for chal2
    using issued assms(4) cred ParseKey_GenerateKey [OF assms(10)]
    by (auto simp: check_hello_None hello_request_def teardown_def VerifyDeviceAuth_iff NewCrypto_auth [OF key])
  have "run_round env c = Some (RetryAfter (200 * Millisecond),
      \<lparr>o_messages = [register_request c chal], o_datagrams = []\<rparr>, ?c')"
    if env: "e_dial env" "e_written env" "e_input env = k_out k @ WriteMsg ?reply" for env
  proof -
    let ?ch = "(msg_of MsgChallenge)\<lparr>m_nonce := chal\<rparr>"
    have ch: "m_type ?ch = MsgChallenge" "m_nonce ?ch = chal" by (simp_all add: msg_of_def)
    have "e_input env = WriteMsg ?ch @ WriteMsg ?reply @ []" using env(3) assms(17) by simp
    from connectOnce_register [OF env(1,2) _ this frames ch(1), of ?c] assms(3) idb(4)
    have "connectOnce env ?c = Some (case got_register_reply ?reply ?c of
        (e, c1) \<Rightarrow> (Inl e, \<lparr>o_messages = [register_request ?c chal], o_datagrams = []\<rparr>, c1))"
      unfolding ch(2) by auto
    moreover have "register_request ?c chal = register_request c chal" by (simp add: register_request_def)
    ultimately show ?thesis using issued by (intro run_round_reconnect) simp
  qed
  moreover have "cl_crypto ?c' = Some key" "cl_saved ?c' = cl_saved c @ [\<lparr>cr_device_id = ?did, cr_device_key = ?key,
      cr_network_key = hex_encode (s_network_key s)\<rparr>]"
    using issued by (simp_all add: teardown_def)
  ultimately show ?thesis using sent key pass table by fastforce
qed

text \<open>A newcomer in front of a server that has challenged it.\<close>

definition newcomer :: client where
  "newcomer = (NewClient (demo_config\<lparr>cc_device_id := [], cc_device_key := [], cc_network_key := []\<rparr>))\<lparr>cl_hwid := ''n''\<rparr>"

definition newcomer_device :: device where
  "newcomer_device = (new_device 0)\<lparr>dv_conn := Some \<lparr>k_open = True,
     k_out = WriteMsg ((msg_of MsgChallenge)\<lparr>m_nonce := replicate 32 5\<rparr>)\<rparr>\<rparr>"

abbreviation newcomer_server :: server where
  "newcomer_server \<equiv> demo_server\<lparr>s_heap := (\<lambda>_. None)(0 \<mapsto> newcomer_device)\<rparr>"

theorem client_registers_witness:
  "\<exists>s' bytes out c'. handleRegister 0 (register_request newcomer (replicate 32 5)) (replicate 32 5)
       (Some (replicate 16 0)) (Some (replicate 32 1)) (Some (replicate 12 2)) newcomer_server = s'
    \<and> conn_output s' 0 = Some bytes
    \<and> run_round ((demo_env demo_welcome)\<lparr>e_input := bytes\<rparr>) newcomer = Some (RetryAfter (200 * Millisecond), out, c')
    \<and> cl_crypto c' \<noteq> None"
proof -
  have s: "s_table newcomer_server = s_table demo_server" "s_network_key newcomer_server = replicate 32 9"
    "s_heap newcomer_server 0 = Some newcomer_device"
    "dv_conn newcomer_device = Some \<lparr>k_open = True, k_out = WriteMsg ((msg_of MsgChallenge)\<lparr>m_nonce := replicate 32 5\<rparr>)\<rparr>"
    by (simp_all add: NewServer_start(7) [OF demo_start] newcomer_device_def)
  have id: "GenerateDeviceID (replicate 16 0) = replicate 26 CHR ''A''" and n: "TrimSpace ''n'' = ''n''" by code_simp+
  have "replicate 26 CHR ''A'' \<noteq> ''ID''" by (simp add: numeral_eq_Suc)
  with id have free: "t_by_device_id (s_table newcomer_server) (GenerateDeviceID (replicate 16 0)) = None"
    by (simp add: demo_table_find)
  note reg = client_registers [of newcomer_server newcomer "replicate 16 0" "replicate 32 1" "replicate 12 2" "replicate 32 5",
      OF _ _ _ _ _ _ _ _ _ _ free _ _ s(3,4) _ _ refl]
  have dial: "e_dial ((demo_env demo_welcome)\<lparr>e_input := b\<rparr>)" "e_written ((demo_env demo_welcome)\<lparr>e_input := b\<rparr>)" for b
    by (simp_all add: demo_env_def)
  have hw: "cl_hwid newcomer = ''n''" "cc_device_key (cl_cfg newcomer) = []" "cc_name (cl_cfg newcomer) = ''pc''"
    by (simp_all add: newcomer_def NewClient_def demo_config_def)
  have nb: "\<not> IsBlocked (s_table demo_server) ''n''" "Credential_of (s_table demo_server) ''n'' = None"
    by (simp_all add: IsBlocked_def Credential_of_def demo_table_find)
  obtain bytes where b: "conn_output (handleRegister 0 (register_request newcomer (replicate 32 5)) (replicate 32 5)
       (Some (replicate 16 0)) (Some (replicate 32 1)) (Some (replicate 12 2)) newcomer_server) 0 = Some bytes"
    "\<forall>env. e_dial env \<and> e_written env \<and> e_input env = bytes \<longrightarrow>
       (\<exists>out c' key. run_round env newcomer = Some (RetryAfter (200 * Millisecond), out, c') \<and> cl_crypto c' = Some key)"
    using reg demo_table_ok s(2) n by (fastforce simp: s(1) hw nb NonceLen_def)
  then show ?thesis using dial by fastforce
qed


section \<open>From one virtual interface to another\<close>

lemma FlagData_kind: "FlagData AND 0xF0 = FlagData" "FlagData \<noteq> FlagProbe" "FlagData \<noteq> FlagReply"
  by (simp_all add: packet_flags)

text \<open>A client without NAT entries passes a packet of its own interface on as it is.\<close>

lemma SNAT_no_entries:
  assumes "n_rev n = (\<lambda>_. None)" shows "SNAT n buf now = Some (False, n, buf)"
proof (cases buf rule: parseIPv4_cases)
  case bad
  then show ?thesis by (rule SNAT_not_ip)
next
  case (pkt p)
  then show ?thesis using assms by (intro SNAT_miss) (simp_all add: snat_port_def)
qed

lemma DNAT_no_rules:
  assumes "n_rules n = (\<lambda>_. None)" shows "DNAT n buf now = Some (False, n, buf)"
proof (cases buf rule: parseIPv4_cases)
  case bad
  then show ?thesis by (rule DNAT_not_ip)
next
  case (pkt p)
  then show ?thesis using assms by (intro DNAT_miss) (simp_all add: dnat_rule_def)
qed

lemma tun_round_relayed:
  assumes "cl_crypto c = Some key" and "cl_udp c" and "cl_srv c = Some srv"
    and "cl_nat c = Some n" and "n_rev n = (\<lambda>_. None)" and "\<not> isP2P dst c"
    and "20 \<le> length fr" "length fr \<le> 1500" "drop_bit 4 (fr ! 0) = 4"
    and "be32 (take 4 (drop 16 fr)) = dst" and "vnet_contains dst"
  obtains buf where "Encrypt key nonce FlagData (cl_self c) dst fr = Inr buf"
    "tun_round fr nonce now c = Some ([(srv, buf)], c)"
proof -
  obtain buf where buf: "Encrypt key nonce FlagData (cl_self c) dst fr = Inr buf"
    using assms(8) by (simp add: Encrypt_def Let_def MaxPayload_def)
  have nat: "c\<lparr>cl_nat := Some n\<rparr> = c" using assms(4) by simp
  have send: "sendEnc buf dst c = [(srv, buf)]"
    using assms(2,3,6) by (auto simp: sendEnc_def isP2P_def bind_eq_Some_conv split: option.splits)
  have pre: "take 2048 fr = fr" "\<not> (length fr < 20 \<or> drop_bit 4 (fr ! 0) \<noteq> 4)"
    "go_slice fr 16 20 = Some (take 4 (drop 16 fr))"
    using assms(7-9) by (simp_all add: go_slice_def)
  have "tun_round fr nonce now c = Some ([(srv, buf)], c)"
    unfolding tun_round_def Let_def pre(1,3)
    using pre(2) assms(1,4,10,11) SNAT_no_entries [OF assms(5)] buf send by (simp add: nat)
  with buf show ?thesis by (rule that)
qed

lemma udp_round_delivers:
  assumes "cl_crypto c = Some key" and "length buf \<le> MaxPacket"
    and "Decrypt key buf = Inr \<lparr>pk_flags = FlagData, pk_source = src, pk_dest = cl_self c, pk_data = fr\<rparr>"
    and "src \<noteq> cl_self c" and "sameUDPAddr (Some a) (cl_srv c)"
    and "cl_nat c = Some n" and "n_rules n = (\<lambda>_. None)"
  shows "udp_round a buf nonce now c = Some ([], [fr], c)"
proof -
  have "c\<lparr>cl_nat := Some n\<rparr> = c" using assms(6) by simp
  then have "deliver fr (cl_self c) now c = Some ([fr], c)"
    using assms(6) DNAT_no_rules [OF assms(7)] by (simp add: deliver_def)
  then show ?thesis using assms(1-5) FlagData_kind by (simp add: udp_round_def Let_def)
qed


text \<open>10.0.0.2 writes to 10.0.0.3.\<close>

definition relayed_client :: "u32 \<Rightarrow> client" where
  "relayed_client vip = (NewClient demo_config)\<lparr>cl_crypto := Some relay_client, cl_udp := True, cl_srv := Some demo_srv,
     cl_self := vip, cl_nat := Some (NewNat vip [])\<rparr>"


section \<open>Pushed settings\<close>

lemma send_all_settings [simp]: "s_settings_disk (send_all is m s) = s_settings_disk s"
  unfolding send_all_def by (induction "is" arbitrary: s) (simp_all add: sendMsg_def upd_device_def split: option.splits)



end
