(* ===== verification/Hwid.thy ===== *)
theory Hwid
  imports Credential
begin

text \<open>
  The device identifier, \<^verbatim>\<open>internal/hwid/hwid.go\<close> with the sources of Linux and
  macOS: the machine's own identifier where there is one, else a random one kept in a file;
  either is hashed with a salt. The file and what the machine says about itself are arguments.
\<close>

section \<open>The code\<close>

definition hwid_salt :: string where "hwid_salt = ''sulink-lan/hwid/v1|''"

definition IDLen :: nat where "IDLen = 32"

definition fingerprint :: "string \<Rightarrow> string" where
  "fingerprint raw = hex_encode (take 16 (sha256 (str_bytes (hwid_salt @ raw))))"

text \<open>The fallback file: whether it has a path, its content if it can be read, whether it can be written.\<close>

record id_file =
  if_path :: bool
  if_content :: "string option"
  if_writable :: bool

datatype hwid_error = NoIDPath | NoRandom | IDNotWritten

definition persistedRandom :: "byte list option \<Rightarrow> id_file \<Rightarrow> (hwid_error + string) \<times> id_file" where
  "persistedRandom rnd f =
     (if \<not> if_path f then (Inl NoIDPath, f)
      else let stored = (case if_content f of None \<Rightarrow> [] | Some b \<Rightarrow> TrimSpace b)
      in if stored \<noteq> [] then (Inr (fingerprint stored), f)
         else case rnd of
                None \<Rightarrow> (Inl NoRandom, f)
              | Some buf \<Rightarrow>
                  let raw = hex_encode buf
                  in if \<not> if_writable f then (Inl IDNotWritten, f)
                     else (Inr (fingerprint raw), f\<lparr>if_content := Some (raw @ [CHR 0x0A])\<rparr>))"

definition hwid_compute :: "string option \<Rightarrow> byte list option \<Rightarrow> id_file \<Rightarrow> (hwid_error + string) \<times> id_file" where
  "hwid_compute machineID rnd f =
     (case machineID of
        Some raw \<Rightarrow> (let s = TrimSpace raw
                     in if s \<noteq> [] then (Inr (fingerprint s), f) else persistedRandom rnd f)
      | None \<Rightarrow> persistedRandom rnd f)"

text \<open>\<^verbatim>\<open>ID\<close>: computed once per process.\<close>

definition hwid_ID :: "(hwid_error + string) option \<Rightarrow> string option \<Rightarrow> byte list option \<Rightarrow> id_file
    \<Rightarrow> (hwid_error + string) \<times> (hwid_error + string) option \<times> id_file" where
  "hwid_ID cached machineID rnd f =
     (case cached of
        Some r \<Rightarrow> (r, cached, f)
      | None \<Rightarrow> (let (r, f') = hwid_compute machineID rnd f in (r, Some r, f')))"

text \<open>Linux: the first of the two files that has something in it.\<close>

definition machineIDPaths :: "string list" where
  "machineIDPaths = [''/etc/machine-id'', ''/var/lib/dbus/machine-id'']"

fun read_first_id :: "(string \<Rightarrow> string option) \<Rightarrow> string list \<Rightarrow> string option" where
  "read_first_id fs [] = None"
| "read_first_id fs (p # ps) =
     (case fs p of
        None \<Rightarrow> read_first_id fs ps
      | Some b \<Rightarrow> (let s = TrimSpace b in if s \<noteq> [] then Some s else read_first_id fs ps))"

definition rawMachineID :: "(string \<Rightarrow> string option) \<Rightarrow> string option" where
  "rawMachineID fs = read_first_id fs machineIDPaths"

text \<open>macOS: \<^verbatim>\<open>strings.Index\<close>, \<^verbatim>\<open>strings.Split\<close> at line ends and \<^verbatim>\<open>strings.Trim\<close> of quotes.\<close>

fun sub_index :: "string \<Rightarrow> string \<Rightarrow> nat option" where
  "sub_index [] sub = (if sub = [] then Some 0 else None)"
| "sub_index (c # s) sub = (if starts_with (c # s) sub then Some 0 else map_option Suc (sub_index s sub))"

fun split_lines :: "string \<Rightarrow> string \<Rightarrow> string list" where
  "split_lines cur [] = [cur]"
| "split_lines cur (c # s) = (if c = CHR 0x0A then cur # split_lines [] s else split_lines (cur @ [c]) s)"

definition trim_quotes :: "string \<Rightarrow> string" where
  "trim_quotes s = rev (dropWhile (\<lambda>c. c = CHR 0x22) (rev (dropWhile (\<lambda>c. c = CHR 0x22) s)))"

definition platform_uuid_line :: "string \<Rightarrow> string option" where
  "platform_uuid_line line =
     (case sub_index line ''IOPlatformUUID'' of
        None \<Rightarrow> None
      | Some i \<Rightarrow>
          let rest = drop (i + length ''IOPlatformUUID'') line
          in (case sub_index rest ''='' of
                None \<Rightarrow> None
              | Some j \<Rightarrow> (let v = trim_quotes (TrimSpace (drop (j + 1) rest)) in if v \<noteq> [] then Some v else None)))"

definition parseIOPlatformUUID :: "string \<Rightarrow> string option" where
  "parseIOPlatformUUID out =
     (case List.map_filter platform_uuid_line (split_lines [] out) of [] \<Rightarrow> None | v # _ \<Rightarrow> Some v)"

section \<open>Correctness\<close>

lemma hex_char_graphic: "d < 16 \<Longrightarrow> graphic (hex_char d)"
  by (simp add: hex_char_def graphic_def)

lemma hex_encode_graphic: "c \<in> set (hex_encode bs) \<Longrightarrow> graphic c"
proof (induction bs)
  case (Cons b bs)
  have "unat b div 16 < 16" using unat_byte_less [of b] by linarith
  moreover have "unat b mod 16 < 16" by simp
  ultimately show ?case using hex_char_graphic Cons by auto
qed simp

lemma hex_encode_Nil_iff: "hex_encode bs = [] \<longleftrightarrow> bs = []"
  by (cases bs) simp_all

lemma hex_encode_ends:
  assumes "hex_encode bs \<noteq> []" shows "graphic (hd (hex_encode bs))" "graphic (last (hex_encode bs))"
  using hex_encode_graphic [OF hd_in_set [OF assms]] hex_encode_graphic [OF last_in_set [OF assms]] by simp_all

lemma TrimSpace_hex: "TrimSpace (hex_encode bs) = hex_encode bs"
proof (cases "bs = []")
  case False
  then have "hex_encode bs \<noteq> []" by (simp add: hex_encode_Nil_iff)
  then show ?thesis by (intro TrimSpace_graphic hex_encode_ends)
qed simp

lemma TrimSpace_line:
  assumes "s \<noteq> []" and "graphic (hd s)" and "graphic (last s)"
  shows "TrimSpace (s @ [CHR 0x0A]) = s"
proof -
  have "no_space_at space_runes (s @ [CHR 0x0A])"
    using assms graphic_no_space_front [of "hd s" "tl s @ [CHR 0x0A]"] by (cases s) simp_all
  then have front: "trim_front space_runes (s @ [CHR 0x0A]) = s @ [CHR 0x0A]" by (rule trim_front_id)
  have "rev s \<noteq> []" "hd (rev s) = last s" using assms(1) by (simp_all add: hd_rev)
  then have "no_space_at (map rev space_runes) (rev s)"
    using assms(3) graphic_no_space_back [of "hd (rev s)" "tl (rev s)"] by (metis list.collapse)
  then have rear: "trim_front (map rev space_runes) (rev s) = rev s" by (rule trim_front_id)
  have "trim_front (map rev space_runes) (CHR 0x0A # rev s) = trim_front (map rev space_runes) (rev s)"
    by (subst trim_front.simps) (simp add: space_runes_def starts_with_def)
  then show ?thesis by (simp add: TrimSpace_def front rear)
qed

lemma length_fingerprint: "length (fingerprint raw) = IDLen"
  by (simp add: fingerprint_def IDLen_def length_sha256)

lemma hwid_compute_again:
  assumes "hwid_compute mid (Some buf) f = (Inr ident, f')" and "length buf = 32"
  shows "hwid_compute mid rnd f' = (Inr ident, f')"
proof -
  have raw: "hex_encode buf \<noteq> []" using assms(2) by (auto simp: hex_encode_Nil_iff)
  then have "TrimSpace (hex_encode buf @ [CHR 0x0A]) = hex_encode buf"
    by (intro TrimSpace_line hex_encode_ends)
  then have stored: "persistedRandom rnd f' = (Inr ident, f')" if "persistedRandom (Some buf) f = (Inr ident, f')"
    using that raw by (auto simp: persistedRandom_def Let_def split: if_splits option.splits)
  show ?thesis
    using assms(1) stored by (auto simp: hwid_compute_def Let_def split: option.splits if_splits)
qed

lemma hwid_compute_shape:
  assumes "hwid_compute mid rnd f = (Inr ident, f')" shows "\<exists>raw. ident = fingerprint raw"
  using assms by (auto simp: hwid_compute_def persistedRandom_def Let_def split: option.splits if_splits)

lemma fingerprint_text:
  "fingerprint raw \<noteq> []" "TrimSpace (fingerprint raw) = fingerprint raw" "length (fingerprint raw) = IDLen"
  by (simp_all add: fingerprint_def TrimSpace_hex hex_encode_Nil_iff IDLen_def)
    (metis length_sha256 length_0_conv zero_neq_numeral)

section \<open>Properties\<close>

text \<open>A device keeps its identifier. Once an identifier was determined, from the machine's own
  identifier or, where there is none, from a random one that was written to the file, every later
  start of the client determines the same one, whatever random bytes it would draw and even if the
  file can no longer be written; it is 32 characters long and needs no trimming, so the server
  takes it for the same device.\<close>

theorem hwid_stable:
  assumes "hwid_compute mid (Some buf) f = (Inr ident, f')" and "length buf = 32"
  shows "hwid_compute mid rnd f' = (Inr ident, f')
    \<and> hwid_compute mid rnd (f'\<lparr>if_writable := False\<rparr>) = (Inr ident, f'\<lparr>if_writable := False\<rparr>)
    \<and> length ident = IDLen \<and> ident \<noteq> [] \<and> TrimSpace ident = ident"
proof -
  have again: "hwid_compute mid None f' = (Inr ident, f')" "hwid_compute mid rnd f' = (Inr ident, f')"
    using hwid_compute_again [OF assms] by blast+
  have "hwid_compute mid rnd (f'\<lparr>if_writable := False\<rparr>) = (Inr ident, f'\<lparr>if_writable := False\<rparr>)"
    using again(1) by (auto simp: hwid_compute_def persistedRandom_def Let_def split: option.splits if_splits)
  then show ?thesis using again(2) hwid_compute_shape [OF assms(1)] fingerprint_text by auto
qed

text \<open>A machine without an identifier of its own, at its first and its second start.\<close>

theorem hwid_stable_witness:
  "\<exists>ident f'. hwid_compute None (Some (replicate 32 7)) \<lparr>if_path = True, if_content = None, if_writable = True\<rparr> = (Inr ident, f')
    \<and> hwid_compute None (Some (replicate 32 8)) f' = (Inr ident, f') \<and> length ident = 32"
proof -
  let ?f = "\<lparr>if_path = True, if_content = None, if_writable = True\<rparr>"
  obtain ident f' where first: "hwid_compute None (Some (replicate 32 7)) ?f = (Inr ident, f')"
    by (simp add: hwid_compute_def persistedRandom_def Let_def)
  have "length (replicate 32 7 :: byte list) = 32" by simp
  from hwid_stable [OF first this, of "Some (replicate 32 8)"] first show ?thesis
    by (auto simp: IDLen_def)
qed

lemma uuid_line_sample:
  "parseIOPlatformUUID (''x'' @ [CHR 0x0A, CHR 0x22] @ ''IOPlatformUUID'' @ [CHR 0x22] @ '' = '' @ [CHR 0x22] @ ''0A1B''
     @ [CHR 0x22, CHR 0x0A]) = Some ''0A1B''"
  by code_simp

end
