(* ===== verification/Tun_Config.thy ===== *)
theory Tun_Config
  imports Udp_Addr Protocol Go_Json
begin

text \<open>
  Configuration of the virtual interface, \<^verbatim>\<open>internal/client/tun_config.go\<close>: the
  commands run on each platform, and which of their failures may be ignored. The interface gets
  its address with a host mask and a route for the whole virtual network.
\<close>

section \<open>The code\<close>

record PlatformCommand =
  pc_name :: string
  pc_args :: "string list"

definition platform_command :: "string \<Rightarrow> string list \<Rightarrow> PlatformCommand" where
  "platform_command name args = \<lparr>pc_name = name, pc_args = args\<rparr>"

definition hostMask :: nat where "hostMask = 32"
definition hostMaskString :: string where "hostMaskString = ''255.255.255.255''"

datatype tun_error = NoInterfaceName | NoVirtualIP | BadVirtualIP string

definition validateTunConfig :: "string \<Rightarrow> string \<Rightarrow> tun_error option" where
  "validateTunConfig ifName ip =
     (if ifName = [] then Some NoInterfaceName
      else if ip = [] then Some NoVirtualIP
      else if ParseIP ip = None then Some (BadVirtualIP ip)
      else None)"

definition linuxTunCommands :: "string \<Rightarrow> string \<Rightarrow> tun_error + PlatformCommand list" where
  "linuxTunCommands ifName ip =
     (case validateTunConfig ifName ip of
        Some e \<Rightarrow> Inl e
      | None \<Rightarrow> Inr
          [platform_command ''ip'' [''link'', ''set'', ifName, ''up''],
           platform_command ''ip'' [''link'', ''set'', ''dev'', ifName, ''mtu'', ''1420''],
           platform_command ''ip'' [''addr'', ''replace'', ip @ ''/'' @ dec hostMask, ''dev'', ifName],
           platform_command ''ip'' [''route'', ''replace'', VNetCIDR, ''dev'', ifName]])"

definition windowsTunCommands :: "string \<Rightarrow> string \<Rightarrow> tun_error + PlatformCommand list" where
  "windowsTunCommands ifName ip =
     (case validateTunConfig ifName ip of
        Some e \<Rightarrow> Inl e
      | None \<Rightarrow> Inr
          [platform_command ''netsh'' [''interface'', ''ip'', ''delete'', ''address'', ''name='' @ ifName, ip],
           platform_command ''netsh'' [''interface'', ''ip'', ''set'', ''address'', ''name='' @ ifName, ''static'', ip, hostMaskString],
           platform_command ''netsh'' [''interface'', ''ip'', ''add'', ''route'', VNetCIDR, ifName, ip],
           platform_command ''netsh'' [''interface'', ''ip'', ''set'', ''dns'', ''name='' @ ifName, ''static'', ''1.1.1.1'', ''primary'']])"

definition darwinTunCommands :: "string \<Rightarrow> string \<Rightarrow> tun_error + PlatformCommand list" where
  "darwinTunCommands ifName ip =
     (case validateTunConfig ifName ip of
        Some e \<Rightarrow> Inl e
      | None \<Rightarrow> Inr
          [platform_command ''ifconfig'' [ifName, ''inet'', ip, ip, ''netmask'', hostMaskString, ''up''],
           platform_command ''route'' [''-n'', ''delete'', ''-net'', VNetCIDR],
           platform_command ''route'' [''-n'', ''add'', ''-net'', VNetCIDR, ip]])"

text \<open>The two Chinese messages for a missing element, and the one for an existing object.\<close>

definition text_missing_element :: string where
  "text_missing_element =
     [CHR 0xE6, CHR 0x89, CHR 0xBE, CHR 0xE4, CHR 0xB8, CHR 0x8D, CHR 0xE5, CHR 0x88, CHR 0xB0,
      CHR 0xE5, CHR 0x85, CHR 0x83, CHR 0xE7, CHR 0xB4, CHR 0xA0]"

definition text_missing_given_element :: string where
  "text_missing_given_element =
     [CHR 0xE7, CHR 0xB3, CHR 0xBB, CHR 0xE7, CHR 0xBB, CHR 0x9F,
      CHR 0xE6, CHR 0x89, CHR 0xBE, CHR 0xE4, CHR 0xB8, CHR 0x8D, CHR 0xE5, CHR 0x88, CHR 0xB0,
      CHR 0xE6, CHR 0x8C, CHR 0x87, CHR 0xE5, CHR 0xAE, CHR 0x9A, CHR 0xE7, CHR 0x9A, CHR 0x84,
      CHR 0xE5, CHR 0x85, CHR 0x83, CHR 0xE7, CHR 0xB4, CHR 0xA0]"

definition text_object_exists :: string where
  "text_object_exists =
     [CHR 0xE5, CHR 0xAF, CHR 0xB9, CHR 0xE8, CHR 0xB1, CHR 0xA1, CHR 0xE5, CHR 0xB7, CHR 0xB2,
      CHR 0xE5, CHR 0xAD, CHR 0x98, CHR 0xE5, CHR 0x9C, CHR 0xA8]"

definition missingAddrTexts :: "string list" where
  "missingAddrTexts =
     [text_missing_element, text_missing_given_element, ''cannot find the element'', ''element not found'']"

definition routeExistsTexts :: "string list" where
  "routeExistsTexts =
     [text_object_exists, ''already exists'', ''file exists'', ''file already exists'',
      ''rtnetlink answers: file exists'']"

definition containsAny :: "string \<Rightarrow> string list \<Rightarrow> bool" where
  "containsAny s any = (let low = ToLower s in list_ex (\<lambda>w. Contains low (ToLower w)) any)"

definition isDeleteAddressCommand :: "PlatformCommand \<Rightarrow> bool" where
  "isDeleteAddressCommand cmd \<longleftrightarrow>
     (if pc_name cmd = ''netsh''
      then length (pc_args cmd) \<ge> 4 \<and> pc_args cmd ! 2 = ''delete'' \<and> pc_args cmd ! 3 = ''address''
      else False)"

definition isRouteAddCommand :: "PlatformCommand \<Rightarrow> bool" where
  "isRouteAddCommand cmd \<longleftrightarrow>
     (if pc_name cmd = ''netsh'' then
        length (pc_args cmd) \<ge> 4 \<and> pc_args cmd ! 2 = ''add'' \<and> pc_args cmd ! 3 = ''route''
      else if pc_name cmd = ''ip'' then
        length (pc_args cmd) \<ge> 2 \<and> pc_args cmd ! 0 = ''route''
        \<and> (pc_args cmd ! 1 = ''add'' \<or> pc_args cmd ! 1 = ''replace'')
      else if pc_name cmd = ''route'' then length (pc_args cmd) \<ge> 2 \<and> pc_args cmd ! 1 = ''add''
      else False)"

definition isBenignCommandError :: "PlatformCommand \<Rightarrow> string \<Rightarrow> bool" where
  "isBenignCommandError cmd out \<longleftrightarrow>
     (if isDeleteAddressCommand cmd then (if out = [] then True else containsAny out missingAddrTexts)
      else if isRouteAddCommand cmd then containsAny out routeExistsTexts
      else False)"

text \<open>
  \<^verbatim>\<open>Configure\<close> of the three platforms: the commands are run in order, each with
  its number, and give whether they failed and what they printed; the first failure that may not
  be ignored ends it. On Windows the output is decoded first, the GBK decoder being an argument.
\<close>

definition decodeNetshOutput :: "(string \<Rightarrow> string option) \<Rightarrow> string \<Rightarrow> string" where
  "decodeNetshOutput gbk b =
     (if list_all (\<lambda>c. byte_in c 0 127) b then b
      else if valid_utf8 b then b
      else case gbk b of Some d \<Rightarrow> d | None \<Rightarrow> b)"

fun run_commands :: "(nat \<Rightarrow> PlatformCommand \<Rightarrow> bool \<times> string) \<Rightarrow> (string \<Rightarrow> string) \<Rightarrow> nat \<Rightarrow> PlatformCommand list
    \<Rightarrow> (PlatformCommand \<times> string) option" where
  "run_commands run decode i [] = None"
| "run_commands run decode i (c # cs) =
     (let (failed, out0) = run i c; out = decode out0
      in if failed \<and> \<not> isBenignCommandError c out then Some (c, out)
         else run_commands run decode (Suc i) cs)"

datatype configure_error = BadTunConfig tun_error | CommandFailed PlatformCommand string

definition tun_Configure :: "(nat \<Rightarrow> PlatformCommand \<Rightarrow> bool \<times> string) \<Rightarrow> (string \<Rightarrow> string)
    \<Rightarrow> tun_error + PlatformCommand list \<Rightarrow> configure_error option" where
  "tun_Configure run decode cmds =
     (case cmds of
        Inl e \<Rightarrow> Some (BadTunConfig e)
      | Inr cs \<Rightarrow>
          (case run_commands run decode 0 cs of
             None \<Rightarrow> None
           | Some (c, out) \<Rightarrow> Some (CommandFailed c out)))"

definition linux_Configure :: "(nat \<Rightarrow> PlatformCommand \<Rightarrow> bool \<times> string) \<Rightarrow> string \<Rightarrow> string \<Rightarrow> configure_error option" where
  "linux_Configure run name ip = tun_Configure run (\<lambda>s. s) (linuxTunCommands name ip)"

definition darwin_Configure :: "(nat \<Rightarrow> PlatformCommand \<Rightarrow> bool \<times> string) \<Rightarrow> string \<Rightarrow> string \<Rightarrow> configure_error option" where
  "darwin_Configure run name ip = tun_Configure run (\<lambda>s. s) (darwinTunCommands name ip)"

definition windows_Configure :: "(string \<Rightarrow> string option) \<Rightarrow> (nat \<Rightarrow> PlatformCommand \<Rightarrow> bool \<times> string) \<Rightarrow> string \<Rightarrow> string
    \<Rightarrow> configure_error option" where
  "windows_Configure gbk run name ip = tun_Configure run (decodeNetshOutput gbk) (windowsTunCommands name ip)"

section \<open>Correctness\<close>

lemma containsAny_iff: "containsAny s any \<longleftrightarrow> (\<exists>w \<in> set any. Contains (ToLower s) (ToLower w))"
  by (simp add: containsAny_def list_ex_iff)

lemma benign_iff:
  "isBenignCommandError cmd out \<longleftrightarrow>
     isDeleteAddressCommand cmd \<and> (out = [] \<or> containsAny out missingAddrTexts)
     \<or> isRouteAddCommand cmd \<and> containsAny out routeExistsTexts"
  by (auto simp: isBenignCommandError_def isDeleteAddressCommand_def isRouteAddCommand_def split: if_splits)

text \<open>A failure is ignored only if the command deletes an address or adds a route; so no platform
  goes on when the command that sets the address failed, nor when access was denied.\<close>

definition address_command :: "PlatformCommand list \<Rightarrow> PlatformCommand" where
  "address_command cmds =
     (if pc_name (cmds ! 0) = ''ip'' then cmds ! 2 else if pc_name (cmds ! 0) = ''netsh'' then cmds ! 1 else cmds ! 0)"

definition access_denied :: string where "access_denied = ''Access is denied.''"

lemma access_denied_never_ignored:
  "\<not> isBenignCommandError cmd access_denied"
proof -
  have "\<not> containsAny access_denied missingAddrTexts" "\<not> containsAny access_denied routeExistsTexts" "access_denied \<noteq> []"
    by code_simp+
  then show ?thesis by (simp add: benign_iff)
qed

lemmas tun_commands = linuxTunCommands_def windowsTunCommands_def darwinTunCommands_def

lemma address_failure_never_ignored:
  assumes "Inr cmds \<in> {linuxTunCommands ifName ip, windowsTunCommands ifName ip, darwinTunCommands ifName ip}"
  shows "\<not> isBenignCommandError (address_command cmds) out"
    and "ip @ ''/'' @ dec hostMask \<in> set (pc_args (address_command cmds))
         \<or> {ip, hostMaskString} \<subseteq> set (pc_args (address_command cmds))"
  using assms
  by (auto simp: tun_commands address_command_def platform_command_def benign_iff
      isDeleteAddressCommand_def isRouteAddCommand_def split: option.splits)

lemma bad_address_no_commands:
  "(ifName = [] \<or> ip = [] \<or> ParseIP ip = None) \<longleftrightarrow> (\<exists>e. linuxTunCommands ifName ip = Inl e)"
  by (auto simp: tun_commands validateTunConfig_def split: option.splits)

text \<open>The text that \<^verbatim>\<open>tun_windows.go\<close> reports for deleting an address that is not
  there (``the file name, directory name or volume label syntax is incorrect'') is not among those
  that are ignored.\<close>

definition text_syntax_incorrect :: string where
  "text_syntax_incorrect =
     [CHR 0xE6, CHR 0x96, CHR 0x87, CHR 0xE4, CHR 0xBB, CHR 0xB6, CHR 0xE5, CHR 0x90, CHR 0x8D,
      CHR 0xE3, CHR 0x80, CHR 0x81, CHR 0xE7, CHR 0x9B, CHR 0xAE, CHR 0xE5, CHR 0xBD, CHR 0x95, CHR 0xE5, CHR 0x90, CHR 0x8D,
      CHR 0xE6, CHR 0x88, CHR 0x96, CHR 0xE5, CHR 0x8D, CHR 0xB7, CHR 0xE6, CHR 0xA0, CHR 0x87,
      CHR 0xE8, CHR 0xAF, CHR 0xAD, CHR 0xE6, CHR 0xB3, CHR 0x95, CHR 0xE4, CHR 0xB8, CHR 0x8D, CHR 0xE6, CHR 0xAD, CHR 0xA3,
      CHR 0xE7, CHR 0xA1, CHR 0xAE, CHR 0xE3, CHR 0x80, CHR 0x82]"

lemma reported_text_not_ignored:
  "\<not> isBenignCommandError (platform_command ''netsh'' [''interface'', ''ip'', ''delete'', ''address'', n, ip])
       text_syntax_incorrect"
proof -
  have "\<not> containsAny text_syntax_incorrect missingAddrTexts" "text_syntax_incorrect \<noteq> []"
    by code_simp+
  then show ?thesis by (simp add: isBenignCommandError_def isDeleteAddressCommand_def platform_command_def)
qed

lemma run_commands_None:
  "run_commands run decode i cs = None \<longleftrightarrow>
     (\<forall>k < length cs. fst (run (i + k) (cs ! k)) \<longrightarrow> isBenignCommandError (cs ! k) (decode (snd (run (i + k) (cs ! k)))))"
  by (induction cs arbitrary: i) (auto simp: Let_def case_prod_beta nth_Cons All_less_Suc2 split: nat.split)

lemma run_commands_Some:
  assumes "run_commands run decode i cs = Some (c, out)"
  shows "\<exists>k < length cs. c = cs ! k \<and> fst (run (i + k) c) \<and> out = decode (snd (run (i + k) c))
    \<and> \<not> isBenignCommandError c out"
  using assms
proof (induction cs arbitrary: i)
  case (Cons d cs)
  show ?case
  proof (cases "fst (run i d) \<and> \<not> isBenignCommandError d (decode (snd (run i d)))")
    case True
    then have "d = c \<and> decode (snd (run i d)) = out" using Cons.prems True by (auto simp: Let_def case_prod_beta)
    then show ?thesis using True by (intro exI [of _ 0]) auto
  next
    case False
    then obtain k where "k < length cs" "c = cs ! k" "fst (run (Suc i + k) c)" "out = decode (snd (run (Suc i + k) c))"
      "\<not> isBenignCommandError c out"
      using Cons.prems Cons.IH [of "Suc i"] by (auto simp: Let_def case_prod_beta split: if_splits)
    then show ?thesis by (intro exI [of _ "Suc k"]) simp
  qed
qed simp

lemma tun_Configure_None:
  "None = tun_Configure run decode cs \<longleftrightarrow> (\<exists>cmds. cs = Inr cmds \<and> run_commands run decode 0 cmds = None)"
  by (auto simp: tun_Configure_def split: sum.splits option.splits)

section \<open>Properties\<close>

text \<open>The command that gives the interface its address, and the last one that adds the route to the
  virtual network.\<close>

definition sets_address :: "string \<Rightarrow> string \<Rightarrow> PlatformCommand \<Rightarrow> bool" where
  "sets_address name ip c \<longleftrightarrow> c \<in>
     {platform_command ''ip'' [''addr'', ''replace'', ip @ ''/'' @ dec hostMask, ''dev'', name],
      platform_command ''netsh'' [''interface'', ''ip'', ''set'', ''address'', ''name='' @ name, ''static'', ip, hostMaskString],
      platform_command ''ifconfig'' [name, ''inet'', ip, ip, ''netmask'', hostMaskString, ''up'']}"

text \<open>An interface that counts as configured has its address and its route. On each of the three
  platforms, when \<^verbatim>\<open>Configure\<close> reports success then the interface has a name, the
  address is one, the command that gives the interface that address with a host mask was run and
  succeeded, and the command that adds the route to the whole virtual network was run and either
  succeeded or failed because that route exists already.\<close>

theorem configured_interface:
  assumes "\<exists>gbk. None \<in> {linux_Configure run name ip, darwin_Configure run name ip, windows_Configure gbk run name ip}"
  shows "name \<noteq> [] \<and> ParseIP ip \<noteq> None
    \<and> (\<exists>k c. sets_address name ip c \<and> \<not> fst (run k c))
    \<and> (\<exists>k c. isRouteAddCommand c \<and> VNetCIDR \<in> set (pc_args c)
          \<and> (fst (run k c) \<longrightarrow> (\<exists>decode. containsAny (decode (snd (run k c))) routeExistsTexts)))"
proof -
  obtain decode cmds where cmds: "Inr cmds \<in> {linuxTunCommands name ip, windowsTunCommands name ip, darwinTunCommands name ip}"
    and run: "run_commands run decode 0 cmds = None"
    using assms unfolding linux_Configure_def darwin_Configure_def windows_Configure_def
    by (metis insert_iff singletonD tun_Configure_None)

  have valid: "name \<noteq> []" "ParseIP ip \<noteq> None"
    using cmds by (auto simp: tun_commands validateTunConfig_def split: option.splits if_splits)
  have ok: "isBenignCommandError (cmds ! k) (decode (snd (run k (cmds ! k))))"
    if "k < length cmds" "fst (run k (cmds ! k))" for k
    using run that by (simp add: run_commands_None)
  have "\<exists>c \<in> set cmds. sets_address name ip c"
    using cmds by (auto simp: tun_commands sets_address_def split: option.splits)
  then obtain k where k: "k < length cmds" "sets_address name ip (cmds ! k)" by (auto simp: in_set_conv_nth)
  have "\<not> isBenignCommandError (cmds ! k) out" for out
    using k(2) by (auto simp: sets_address_def benign_iff platform_command_def isDeleteAddressCommand_def isRouteAddCommand_def)
  then have address: "\<not> fst (run k (cmds ! k))" using ok k(1) by blast
  have "\<exists>c \<in> set cmds. isRouteAddCommand c \<and> VNetCIDR \<in> set (pc_args c) \<and> \<not> isDeleteAddressCommand c"
    using cmds by (auto simp: tun_commands platform_command_def isRouteAddCommand_def isDeleteAddressCommand_def
        split: option.splits)
  then obtain j where j: "j < length cmds" "isRouteAddCommand (cmds ! j)" "VNetCIDR \<in> set (pc_args (cmds ! j))"
    "\<not> isDeleteAddressCommand (cmds ! j)" by (metis in_set_conv_nth)
  then have "fst (run j (cmds ! j)) \<longrightarrow> containsAny (decode (snd (run j (cmds ! j)))) routeExistsTexts"
    using ok [of j] by (auto simp: benign_iff)
  then show ?thesis using valid k address j by blast
qed

definition first_start :: "nat \<Rightarrow> PlatformCommand \<Rightarrow> bool \<times> string" where
  "first_start i c = (if isDeleteAddressCommand c then (True, ''The system cannot find the element specified.'') else (False, []))"

theorem configured_interface_witness:
  "windows_Configure (\<lambda>_. None) first_start ''Sulink'' ''10.0.0.2'' = None
   \<and> (\<exists>k c. sets_address ''Sulink'' ''10.0.0.2'' c \<and> \<not> fst (first_start k c))"
proof -
  have w: "windows_Configure (\<lambda>_. None) first_start ''Sulink'' ''10.0.0.2'' = None" by code_simp
  then have "\<exists>gbk. None \<in> {linux_Configure first_start ''Sulink'' ''10.0.0.2'',
      darwin_Configure first_start ''Sulink'' ''10.0.0.2'', windows_Configure gbk first_start ''Sulink'' ''10.0.0.2''}"
    by (metis insertCI)
  from configured_interface [OF this] w show ?thesis by blast
qed

end
