(* ===== verification/Go_Json_Indent.thy ===== *)
theory Go_Json_Indent
  imports Go_Json_Value
begin

text \<open>
  \<^verbatim>\<open>json.MarshalIndent\<close> with no prefix and an indentation of two blanks, the form of
  every file the program writes; what it prints reads back as the same value.
\<close>

definition new_line :: "nat \<Rightarrow> string" where
  "new_line d = CHR 0x0A # replicate (2 * d) (CHR '' '')"

fun print_indent :: "nat \<Rightarrow> json \<Rightarrow> string" and print_indent_items :: "nat \<Rightarrow> json list \<Rightarrow> string"
    and print_indent_members :: "nat \<Rightarrow> (string \<times> json) list \<Rightarrow> string" where
  "print_indent d JNull = ''null''"
| "print_indent d (JBool b) = (if b then ''true'' else ''false'')"
| "print_indent d (JNum t) = t"
| "print_indent d (JStr s) = quote s"
| "print_indent d (JArr js) =
     (if js = [] then ''[]''
      else ''['' @ new_line (d + 1) @ print_indent_items (d + 1) js @ new_line d @ '']'')"
| "print_indent d (JObj kvs) =
     (if kvs = [] then ''{}''
      else ''{'' @ new_line (d + 1) @ print_indent_members (d + 1) kvs @ new_line d @ ''}'')"
| "print_indent_items d [] = []"
| "print_indent_items d [j] = print_indent d j"
| "print_indent_items d (j # i # js) =
     print_indent d j @ '','' @ new_line d @ print_indent_items d (i # js)"
| "print_indent_members d [] = []"
| "print_indent_members d [(k, j)] = quote k @ '': '' @ print_indent d j"
| "print_indent_members d ((k, j) # e # kvs) =
     quote k @ '': '' @ print_indent d j @ '','' @ new_line d @ print_indent_members d (e # kvs)"

definition MarshalIndent :: "json \<Rightarrow> string" where
  "MarshalIndent j = print_indent 0 j"

section \<open>Reading it back\<close>

lemma skip_ws_append: "list_all is_ws w \<Longrightarrow> skip_ws (w @ s) = skip_ws s"
  by (induction w) (simp_all add: skip_ws_def)

lemma new_line_ws: "list_all is_ws (new_line d)"
  by (simp add: new_line_def list_all_iff is_ws_def)

lemma new_line_not_Nil [simp]: "new_line d \<noteq> []" by (simp add: new_line_def)

lemma skip_new_line [simp]: "skip_ws (new_line d @ s) = skip_ws s"
  by (rule skip_ws_append [OF new_line_ws])

lemma delimited_new_line [simp]: "delimited (new_line d @ s)"
  by (simp add: delimited_def new_line_def is_ws_def)

lemma parse_value_ws: "list_all is_ws w \<Longrightarrow> parse_value n (w @ s) = parse_value n s"
  by (cases n) (simp_all add: skip_ws_append)

lemma parse_items_ws: "list_all is_ws w \<Longrightarrow> parse_items n (w @ s) = parse_items n s"
  by (cases n) (simp_all add: parse_value_ws)

lemma parse_members_ws: "list_all is_ws w \<Longrightarrow> parse_members n (w @ s) = parse_members n s"
  by (cases n) (simp_all add: skip_ws_append)

lemmas parse_new_line [simp] =
  parse_value_ws [OF new_line_ws] parse_items_ws [OF new_line_ws] parse_members_ws [OF new_line_ws]

lemma parse_value_blank [simp]: "parse_value n (CHR '' '' # s) = parse_value n s"
  using parse_value_ws [of "'' ''" n s] by (simp add: is_ws_def)

lemma print_indent_first:
  assumes "json_ok j"
  obtains c cs where "print_indent d j = c # cs" and "\<not> is_ws c" and "c \<noteq> CHR '']''" and "c \<noteq> CHR ''}''"
proof (cases j)
  case (JNum t)
  then obtain c cs where "print_json j = c # cs" "\<not> is_ws c" "c \<noteq> CHR '']''" "c \<noteq> CHR ''}''"
    using assms print_json_first by blast
  then show ?thesis using JNum by (intro that) simp_all
next
  case (JBool b)
  then show ?thesis using that by (cases b) simp_all
next
  case (JArr js)
  then show ?thesis using that by (cases "js = []") simp_all
next
  case (JObj kvs)
  then show ?thesis using that by (cases "kvs = []") simp_all
qed (use that in \<open>simp_all add: quote_def\<close>)

lemma print_indent_items_first:
  assumes "json_ok j"
  shows "\<not> starts_with (skip_ws (print_indent_items d (j # js) @ s)) '']''"
proof -
  obtain c cs where "print_indent d j = c # cs" "\<not> is_ws c" "c \<noteq> CHR '']''"
    using assms print_indent_first by blast
  then show ?thesis by (cases js) (simp_all add: skip_ws_Cons)
qed

lemma print_indent_members_first:
  "\<not> starts_with (skip_ws (print_indent_members d (e # kvs) @ s)) ''}''"
  by (cases e; cases kvs) (simp_all add: skip_ws_Cons quote_def)

lemma parse_print_indent:
  "json_ok j \<Longrightarrow> 2 * length (print_indent d j) \<le> n \<Longrightarrow> delimited s \<Longrightarrow>
     parse_value n (print_indent d j @ s) = Some (j, s)"
  "\<forall>j \<in> set js. json_ok j \<Longrightarrow> js \<noteq> [] \<Longrightarrow> 2 * length (print_indent_items d js) + 1 \<le> n \<Longrightarrow>
     parse_items n (print_indent_items d js @ new_line e @ CHR '']'' # s) = Some (js, s)"
  "\<forall>(k, j) \<in> set kvs. valid_utf8 k \<and> json_ok j \<Longrightarrow> kvs \<noteq> [] \<Longrightarrow>
     2 * length (print_indent_members d kvs) + 1 \<le> n \<Longrightarrow>
     parse_members n (print_indent_members d kvs @ new_line e @ CHR ''}'' # s) = Some (kvs, s)"
proof (induction d j and d js and d kvs arbitrary: n s and n s e and n s e
    rule: print_indent_print_indent_items_print_indent_members.induct)
  case 1
  then show ?case by (cases n) (simp_all add: skip_ws_Cons)
next
  case (2 d b)
  then show ?case by (cases n; cases b) (simp_all add: skip_ws_Cons)
next
  case (3 d t)
  then obtain i where i: "t = fmt_int i" by auto
  with 3 have "n \<noteq> 0" using length_print_json [of "JNum t"] by auto
  then show ?case using 3 i parse_value_number by (cases n) auto
next
  case (4 d v)
  then show ?case by (cases n) (auto simp: skip_ws_Cons quote_def unquote_escape_string)
next
  case (5 d js)
  then obtain m where n: "n = Suc m" by (cases n) (auto split: if_splits)
  show ?case
  proof (cases js)
    case Nil
    then show ?thesis by (simp add: n skip_ws_Cons)
  next
    case (Cons j js')
    then have "\<not> starts_with (skip_ws (print_indent_items (d + 1) js @ new_line d @ CHR '']'' # s)) '']''"
      using "5.prems"(1) print_indent_items_first by simp
    then show ?thesis
      using "5.IH" [of m d s] "5.prems" Cons n by (simp add: skip_ws_Cons)
  qed
next
  case (6 d kvs)
  then obtain m where n: "n = Suc m" by (cases n) (auto split: if_splits)
  show ?case
  proof (cases kvs)
    case Nil
    then show ?thesis by (simp add: n skip_ws_Cons)
  next
    case (Cons e kvs')
    then have "\<not> starts_with (skip_ws (print_indent_members (d + 1) kvs @ new_line d @ CHR ''}'' # s)) ''}''"
      using print_indent_members_first by simp
    then show ?thesis
      using "6.IH" [of m d s] "6.prems" Cons n by (simp add: skip_ws_Cons)
  qed
next
  case 7
  then show ?case by simp
next
  case (8 d j)
  then obtain m where n: "n = Suc m" by (cases n) auto
  have "parse_value m (print_indent d j @ new_line e @ CHR '']'' # s) = Some (j, new_line e @ CHR '']'' # s)"
    using 8 n by simp
  then show ?case by (simp add: n skip_ws_Cons)
next
  case (9 d j i js)
  then obtain m where n: "n = Suc m" by (cases n) auto
  let ?r = "print_indent_items d (i # js) @ new_line e @ CHR '']'' # s"
  have "parse_value m (print_indent d j @ CHR '','' # new_line d @ ?r)
        = Some (j, CHR '','' # new_line d @ ?r)"
    using 9(1,3-) n by simp
  moreover have "parse_items m ?r = Some (i # js, s)"
    using 9(2-) n by simp
  ultimately show ?case by (simp add: n skip_ws_Cons)
next
  case 10
  then show ?case by simp
next
  case (11 d k j)
  then obtain m where n: "n = Suc m" by (cases n) auto
  have "parse_value m (print_indent d j @ new_line e @ CHR ''}'' # s) = Some (j, new_line e @ CHR ''}'' # s)"
    using 11 n by simp
  then show ?case using 11 by (simp add: n skip_ws_Cons quote_def unquote_escape_string)
next
  case (12 d k j x kvs)
  then obtain m where n: "n = Suc m" by (cases n) auto
  let ?r = "print_indent_members d (x # kvs) @ new_line e @ CHR ''}'' # s"
  have "parse_value m (print_indent d j @ CHR '','' # new_line d @ ?r)
        = Some (j, CHR '','' # new_line d @ ?r)"
    using 12(1,3-) n by simp
  moreover have "parse_members m ?r = Some (x # kvs, s)"
    using 12(2-) n by simp
  ultimately show ?case
    using 12 by (simp add: n skip_ws_Cons quote_def unquote_escape_string)
qed

lemma parse_MarshalIndent: "json_ok j \<Longrightarrow> parse_json (MarshalIndent j) = Some j"
  using parse_print_indent(1) [of j 0 "2 * length (MarshalIndent j)" "[]"]
  by (simp add: parse_json_def MarshalIndent_def skip_ws_def delimited_def)

interpretation json_file: codec MarshalIndent parse_json json_ok
  by unfold_locales (rule parse_MarshalIndent)

end
