(* ===== verification/Store.thy ===== *)
theory Store
  imports Settings Protocol_Json Go_Json_Indent
begin

text \<open>
  The files of the server, \<^verbatim>\<open>internal/server/store.go\<close>: reading and writing a value as
  JSON, with a temporary file and a renaming, and setting a damaged file aside. The file system
  is the content of each path; which call fails and what the clock says are arguments. The
  bytes of the settings file refine the decoded content that \<open>Settings\<close> uses.
\<close>

section \<open>The code\<close>

type_synonym disk = "string \<Rightarrow> string option"

text \<open>Results of \<^verbatim>\<open>readJSON\<close>: \<^verbatim>\<open>loaded\<close> is true for the last one, and there is no
  error for the first and the last one. A damaged file comes with the name it was kept under.\<close>

datatype 'a read_result = NotThere | Unreadable | Damaged string | Loaded 'a

definition quarantine :: "string \<Rightarrow> bool \<Rightarrow> string \<Rightarrow> disk \<Rightarrow> string \<times> disk" where
  "quarantine stamp renames path d =
     (let bad = path @ ''.bad-'' @ stamp
      in if renames then (bad, d(bad := d path, path := None)) else ([], d))"

definition readJSON :: "(json \<Rightarrow> 'a option) \<Rightarrow> bool \<Rightarrow> string \<Rightarrow> bool \<Rightarrow> string \<Rightarrow> disk \<Rightarrow> 'a read_result \<times> disk" where
  "readJSON of_js readable stamp renames path d =
     (if \<not> readable then (Unreadable, d)
      else case d path of
             None \<Rightarrow> (NotThere, d)
           | Some data \<Rightarrow>
               (case Option.bind (parse_json data) of_js of
                  Some v \<Rightarrow> (Loaded v, d)
                | None \<Rightarrow> (let (bad, d') = quarantine stamp renames path d in (Damaged bad, d'))))"

text \<open>What can go wrong in a write: the temporary file cannot be opened, only some of the bytes are
  written, or the renaming fails (and the temporary file can be removed or not).\<close>

datatype write_fault = NoFault | OpenFails | WriteFails nat | RenameFails bool

datatype write_error = NotWritten | NotRenamed

definition tmp_path :: "string \<Rightarrow> string" where "tmp_path path = path @ ''.tmp''"

definition writeJSON :: "('a \<Rightarrow> json) \<Rightarrow> write_fault \<Rightarrow> string \<Rightarrow> 'a \<Rightarrow> disk \<Rightarrow> write_error option \<times> disk" where
  "writeJSON to_js fault path v d =
     (let data = MarshalIndent (to_js v); tmp = tmp_path path
      in case fault of
           OpenFails \<Rightarrow> (Some NotWritten, d)
         | WriteFails k \<Rightarrow> (Some NotWritten, d(tmp \<mapsto> take k data))
         | RenameFails removes \<Rightarrow>
             (Some NotRenamed, if removes then d(tmp := None) else d(tmp \<mapsto> data))
         | NoFault \<Rightarrow> (None, d(path \<mapsto> data, tmp := None)))"

text \<open>What the disk holds after each step of a write that nothing disturbs: the states a crash can
  leave behind.\<close>

definition write_trace :: "('a \<Rightarrow> json) \<Rightarrow> string \<Rightarrow> 'a \<Rightarrow> disk \<Rightarrow> disk list" where
  "write_trace to_js path v d =
     (let data = MarshalIndent (to_js v); tmp = tmp_path path
      in d # map (\<lambda>k. d(tmp \<mapsto> take k data)) [0..<Suc (length data)] @ [d(path \<mapsto> data, tmp := None)])"

definition absPath :: "(string \<Rightarrow> string option) \<Rightarrow> string \<Rightarrow> string" where
  "absPath resolve p = (case resolve p of None \<Rightarrow> p | Some q \<Rightarrow> q)"

text \<open>The settings file.\<close>

datatype settings_field = SfVersion | SfConfig

fun set_settings :: "settings_field \<Rightarrow> json \<Rightarrow> settings_file \<Rightarrow> settings_file option" where
  "set_settings SfVersion j f = map_option (\<lambda>v. f\<lparr>sf_version := v\<rparr>) (js_int j (sf_version f))"
| "set_settings SfConfig j f = map_option (\<lambda>v. f\<lparr>sf_config := v\<rparr>) (js_map j (sf_config f))"

definition settings_of_json :: "json \<Rightarrow> settings_file option" where
  "settings_of_json =
     js_struct [(''version'', SfVersion), (''config'', SfConfig)] set_settings \<lparr>sf_version = 0, sf_config = []\<rparr>"

definition settings_to_json :: "settings_file \<Rightarrow> json" where
  "settings_to_json f = JObj [(''version'', to_js_int (sf_version f)), (''config'', to_js_map (sf_config f))]"

text \<open>\<^verbatim>\<open>loadSettings\<close> and \<^verbatim>\<open>saveSettings\<close> over the disk.\<close>

definition loaded_file :: "'a read_result \<Rightarrow> 'a option" where
  "loaded_file r = (case r of Loaded v \<Rightarrow> Some v | _ \<Rightarrow> None)"

definition load_settings_file :: "bool \<Rightarrow> string \<Rightarrow> bool \<Rightarrow> string \<Rightarrow> disk \<Rightarrow> settings \<times> disk" where
  "load_settings_file readable stamp renames path d =
     (if path = [] then ([], d)
      else let (r, d') = readJSON settings_of_json readable stamp renames path d
           in (loadSettings path (loaded_file r), d'))"

definition save_settings_file :: "write_fault \<Rightarrow> string \<Rightarrow> settings \<Rightarrow> disk \<Rightarrow> write_error option \<times> disk" where
  "save_settings_file fault path cfg d =
     (if path = [] then (None, d)
      else writeJSON settings_to_json fault path \<lparr>sf_version = 1, sf_config = cfg\<rparr> d)"

section \<open>Lemmas\<close>

lemma tmp_path_neq [simp]: "tmp_path path \<noteq> path" "path \<noteq> tmp_path path"
  by (simp_all add: tmp_path_def)

lemma writeJSON_path:
  "snd (writeJSON to_js fault path v d) path =
     (if fault = NoFault then Some (MarshalIndent (to_js v)) else d path)"
  by (cases fault) (simp_all add: writeJSON_def Let_def)

lemma writeJSON_error: "fst (writeJSON to_js fault path v d) = None \<longleftrightarrow> fault = NoFault"
  by (cases fault) (simp_all add: writeJSON_def Let_def)

lemma writeJSON_elsewhere:
  "p \<noteq> path \<Longrightarrow> p \<noteq> tmp_path path \<Longrightarrow> snd (writeJSON to_js fault path v d) p = d p"
  by (cases fault) (simp_all add: writeJSON_def Let_def)

lemma write_trace_path:
  "d' \<in> set (write_trace to_js path v d) \<Longrightarrow> d' path = d path \<or> d' path = Some (MarshalIndent (to_js v))"
  by (auto simp: write_trace_def Let_def)

lemma write_trace_last: "last (write_trace to_js path v d) = snd (writeJSON to_js NoFault path v d)"
  by (simp add: write_trace_def writeJSON_def Let_def)

lemma write_trace_elsewhere:
  "d' \<in> set (write_trace to_js path v d) \<Longrightarrow> p \<noteq> path \<Longrightarrow> p \<noteq> tmp_path path \<Longrightarrow> d' p = d p"
  by (auto simp: write_trace_def Let_def)

lemma quarantine_keeps:
  "d path = Some data \<Longrightarrow> quarantine stamp renames path d = (bad, d') \<Longrightarrow>
   (if renames then d' bad = Some data \<and> d' path = None else d' = d)"
  by (auto simp: quarantine_def Let_def split: if_splits)

text \<open>A type of values with its JSON form: what was written is read.\<close>

locale file_codec = codec to_js of_js valid
  for to_js :: "'a \<Rightarrow> json" and of_js :: "json \<Rightarrow> 'a option" and valid :: "'a \<Rightarrow> bool" +
  assumes printable: "valid x \<Longrightarrow> json_ok (to_js x)"
begin

lemma read_text: "valid x \<Longrightarrow> Option.bind (parse_json (MarshalIndent (to_js x))) of_js = Some x"
  by (simp add: parse_MarshalIndent printable dec_enc)

lemma read_back:
  "valid x \<Longrightarrow> d path = Some (MarshalIndent (to_js x)) \<Longrightarrow> readJSON of_js True stamp renames path d = (Loaded x, d)"
  by (simp add: readJSON_def read_text)

lemma read_written:
  "valid x \<Longrightarrow> fst (readJSON of_js True stamp renames path (snd (writeJSON to_js NoFault path x d))) = Loaded x"
  by (simp add: read_back writeJSON_path)

text \<open>A reader after a failed write or a crash sees the old value or the new one.\<close>

lemma read_after_crash:
  assumes "valid x" and "d' \<in> set (write_trace to_js path x d)"
  shows "fst (readJSON of_js True stamp renames path d') \<in>
    {fst (readJSON of_js True stamp renames path d), Loaded x}"
proof (cases "d' path = Some (MarshalIndent (to_js x))")
  case True
  then show ?thesis using read_back [OF assms(1)] by simp
next
  case False
  then have "d' path = d path" using write_trace_path [OF assms(2)] by blast
  then have "fst (readJSON of_js True stamp renames path d') = fst (readJSON of_js True stamp renames path d)"
    by (auto simp: readJSON_def quarantine_def Let_def split: option.splits)
  then show ?thesis by simp
qed

lemma read_after_fault:
  assumes "fst (writeJSON to_js fault path x d) \<noteq> None"
  shows "fst (readJSON of_js True stamp renames path (snd (writeJSON to_js fault path x d)))
    = fst (readJSON of_js True stamp renames path d)"
proof -
  have "snd (writeJSON to_js fault path x d) path = d path"
    using assms by (simp add: writeJSON_error writeJSON_path)
  then show ?thesis by (auto simp: readJSON_def quarantine_def Let_def split: option.splits)
qed

end

definition settings_text_ok :: "settings_file \<Rightarrow> bool" where
  "settings_text_ok f \<longleftrightarrow>
     int64_ok (sf_version f) \<and> ascending (sf_config f) \<and> list_all (\<lambda>(k, v). valid_utf8 k \<and> valid_utf8 v) (sf_config f)"

interpretation settings_codec: file_codec settings_to_json settings_of_json settings_text_ok
proof unfold_locales
  fix f assume "settings_text_ok f"
  then show "settings_of_json (settings_to_json f) = Some f"
    by (cases f) (simp add: settings_of_json_def settings_to_json_def js_struct_def settings_text_ok_def)
next
  fix f assume "settings_text_ok f"
  then show "json_ok (settings_to_json f)"
    by (simp add: settings_to_json_def settings_text_ok_def tag_ok byte_in_def)
qed

section \<open>Properties\<close>

definition settings_text :: "settings \<Rightarrow> bool" where
  "settings_text cfg \<longleftrightarrow> settings_ok cfg \<and> list_all (\<lambda>(k, v). valid_utf8 k \<and> valid_utf8 v) cfg"

text \<open>C19: The server's settings survive a restart and a crash at any moment of a save. The bytes
  written are read back as the same settings; if the process dies at any point of the save, the
  next start loads either the settings of before or the new ones, never a mixture and never
  nothing; a save that reports an error has not changed what the next start loads; and no other
  file than the settings file and its temporary copy is touched.\<close>

theorem settings_survive_crash:
  assumes "settings_text cfg" and "path \<noteq> []"
    and "d' \<in> set (write_trace settings_to_json path \<lparr>sf_version = 1, sf_config = cfg\<rparr> d)"
  shows "fst (load_settings_file True stamp renames path d')
           \<in> {fst (load_settings_file True stamp renames path d), cfg}
    \<and> fst (load_settings_file True stamp renames path (snd (save_settings_file fault path cfg d)))
        = (if fst (save_settings_file fault path cfg d) = None then cfg
           else fst (load_settings_file True stamp renames path d))
    \<and> (p \<notin> {path, tmp_path path} \<longrightarrow> d' p = d p \<and> snd (save_settings_file fault path cfg d) p = d p)"
proof -
  let ?f = "\<lparr>sf_version = 1, sf_config = cfg\<rparr>"
  have f: "settings_text_ok ?f"
    using assms(1) by (simp add: settings_text_def settings_text_ok_def settings_ok_def int64_ok_def)
  have new: "loadSettings path (loaded_file (Loaded ?f)) = cfg"
    using reload_settings [of cfg path None] assms(1,2)
    by (simp add: loaded_file_def saveSettings_def settings_text_def)
  have load: "fst (load_settings_file True stamp renames path e)
      = loadSettings path (loaded_file (fst (readJSON settings_of_json True stamp renames path e)))" for e
    using assms(2) by (simp add: load_settings_file_def case_prod_beta)
  have save: "save_settings_file fault path cfg d = writeJSON settings_to_json fault path ?f d"
    using assms(2) by (simp add: save_settings_file_def)
  have "fst (load_settings_file True stamp renames path d')
           \<in> {fst (load_settings_file True stamp renames path d), cfg}"
    using settings_codec.read_after_crash [OF f assms(3), of stamp renames] new by (auto simp: load)
  moreover have "fst (load_settings_file True stamp renames path (snd (save_settings_file fault path cfg d)))
        = (if fst (save_settings_file fault path cfg d) = None then cfg
           else fst (load_settings_file True stamp renames path d))"
  proof (cases "fst (save_settings_file fault path cfg d) = None")
    case True
    then have fault: "fault = NoFault" by (simp add: save writeJSON_error)
    show ?thesis
      using settings_codec.read_written [OF f, of stamp renames path d] new True
      by (simp add: load save [unfolded fault] fault)
  next
    case False
    then have "fst (writeJSON settings_to_json fault path ?f d) \<noteq> None" by (simp only: save not_False_eq_True)
    from settings_codec.read_after_fault [OF this, of stamp renames] False
    show ?thesis by (simp only: load save if_False)
  qed
  ultimately show ?thesis
    using write_trace_elsewhere [OF assms(3)] writeJSON_elsewhere by (auto simp: save)
qed

definition blank_disk :: disk where "blank_disk = (\<lambda>_. None)"

theorem settings_survive_crash_witness:
  "fst (load_settings_file True ''x'' True ''s.json''
      (snd (save_settings_file NoFault ''s.json'' notice_settings blank_disk))) = notice_settings
   \<and> blank_disk \<in> set (write_trace settings_to_json ''s.json'' \<lparr>sf_version = 1, sf_config = notice_settings\<rparr> blank_disk)"
proof -
  have "settings_text notice_settings" by code_simp
  moreover have "blank_disk \<in> set (write_trace settings_to_json ''s.json'' \<lparr>sf_version = 1, sf_config = notice_settings\<rparr> blank_disk)"
    by (simp add: write_trace_def Let_def)
  ultimately show ?thesis
    using settings_survive_crash [of notice_settings "''s.json''" blank_disk blank_disk "''x''" True NoFault]
    by (simp add: save_settings_file_def writeJSON_def Let_def)
qed

text \<open>A damaged file is kept under another name and the server starts with no settings.\<close>

lemma damaged_settings_kept:
  assumes "path \<noteq> []" and "d path = Some data" and "Option.bind (parse_json data) settings_of_json = None"
    and "load_settings_file True stamp True path d = (cfg, d')"
  shows "cfg = [] \<and> d' (path @ ''.bad-'' @ stamp) = Some data \<and> d' path = None"
  using assms by (auto simp: load_settings_file_def readJSON_def quarantine_def loadSettings_def loaded_file_def Let_def)

end
