(* ===== verification/Client_Settings.thy ===== *)
theory Client_Settings
  imports Store Client_Session
begin

text \<open>
  The client's saved state: \<^verbatim>\<open>internal/config/config.go\<close>, the form check of
  \<^verbatim>\<open>internal/gui/helpers.go\<close> and the credential file of \<^verbatim>\<open>cmd/client/main.go\<close>.
  The directories the operating system names, how it joins paths and which file operation fails
  are arguments; the bytes of the files are those of \<open>Store\<close>.
\<close>

section \<open>The code\<close>

record config =
  cfg_server :: string
  cfg_name :: string
  cfg_no_punch :: bool
  cfg_auto_connect :: bool
  cfg_auto_start :: bool
  cfg_device_id :: string
  cfg_device_key :: string
  cfg_network_key :: string

definition zero_config :: config where
  "zero_config =
     \<lparr>cfg_server = [], cfg_name = [], cfg_no_punch = False, cfg_auto_connect = False,
      cfg_auto_start = False, cfg_device_id = [], cfg_device_key = [], cfg_network_key = []\<rparr>"

definition js_bool :: "json \<Rightarrow> bool \<Rightarrow> bool option" where
  "js_bool j old = (case j of JBool b \<Rightarrow> Some b | JNull \<Rightarrow> Some old | _ \<Rightarrow> None)"

datatype config_field =
  CfServer | CfName | CfNoPunch | CfAutoConnect | CfAutoStart | CfDeviceID | CfDeviceKey | CfNetworkKey

definition config_tags :: "(string \<times> config_field) list" where
  "config_tags =
     [(''server'', CfServer), (''name'', CfName), (''no_punch'', CfNoPunch),
      (''auto_connect'', CfAutoConnect), (''auto_start'', CfAutoStart), (''device_id'', CfDeviceID),
      (''device_key'', CfDeviceKey), (''network_key'', CfNetworkKey)]"

fun set_config :: "config_field \<Rightarrow> json \<Rightarrow> config \<Rightarrow> config option" where
  "set_config CfServer j c = map_option (\<lambda>v. c\<lparr>cfg_server := v\<rparr>) (js_str j (cfg_server c))"
| "set_config CfName j c = map_option (\<lambda>v. c\<lparr>cfg_name := v\<rparr>) (js_str j (cfg_name c))"
| "set_config CfNoPunch j c = map_option (\<lambda>v. c\<lparr>cfg_no_punch := v\<rparr>) (js_bool j (cfg_no_punch c))"
| "set_config CfAutoConnect j c = map_option (\<lambda>v. c\<lparr>cfg_auto_connect := v\<rparr>) (js_bool j (cfg_auto_connect c))"
| "set_config CfAutoStart j c = map_option (\<lambda>v. c\<lparr>cfg_auto_start := v\<rparr>) (js_bool j (cfg_auto_start c))"
| "set_config CfDeviceID j c = map_option (\<lambda>v. c\<lparr>cfg_device_id := v\<rparr>) (js_str j (cfg_device_id c))"
| "set_config CfDeviceKey j c = map_option (\<lambda>v. c\<lparr>cfg_device_key := v\<rparr>) (js_str j (cfg_device_key c))"
| "set_config CfNetworkKey j c = map_option (\<lambda>v. c\<lparr>cfg_network_key := v\<rparr>) (js_str j (cfg_network_key c))"

text \<open>\<^verbatim>\<open>json.Unmarshal\<close> into a configuration that has values already.\<close>

definition config_of_json :: "config \<Rightarrow> json \<Rightarrow> config option" where
  "config_of_json c = js_struct config_tags set_config c"

definition config_to_json :: "config \<Rightarrow> json" where
  "config_to_json c = JObj
     ((''server'', JStr (cfg_server c)) # (''name'', JStr (cfg_name c))
      # (''no_punch'', JBool (cfg_no_punch c)) # (''auto_connect'', JBool (cfg_auto_connect c))
      # (''auto_start'', JBool (cfg_auto_start c))
      # omitempty [] ''device_id'' JStr (cfg_device_id c)
      @ omitempty [] ''device_key'' JStr (cfg_device_key c)
      @ omitempty [] ''network_key'' JStr (cfg_network_key c))"

definition DefaultServerAddr :: string where "DefaultServerAddr = ''lan.sulink.ltd''"
definition DefaultServerPort :: string where "DefaultServerPort = ''9000''"

text \<open>The name of a computer that has none: four Chinese characters.\<close>

definition text_my_computer :: string where
  "text_my_computer =
     [CHR 0xE6, CHR 0x88, CHR 0x91, CHR 0xE7, CHR 0x9A, CHR 0x84,
      CHR 0xE7, CHR 0x94, CHR 0xB5, CHR 0xE8, CHR 0x84, CHR 0x91]"

definition Default :: "string \<Rightarrow> config" where
  "Default host =
     (let host' = (if host = [] then text_my_computer else host)
      in zero_config\<lparr>cfg_server := DefaultServerAddr, cfg_name := host',
           cfg_auto_connect := False, cfg_auto_start := False\<rparr>)"

text \<open>Where files go: \<^verbatim>\<open>APPDATA\<close>, else \<^verbatim>\<open>.config\<close> in the home directory,
  else the directory for temporary files. \<open>join\<close> is \<^verbatim>\<open>filepath.Join\<close>.\<close>

definition base_dir :: "(string list \<Rightarrow> string) \<Rightarrow> string \<Rightarrow> string option \<Rightarrow> string \<Rightarrow> string" where
  "base_dir join appdata home tmp =
     (if appdata = [] then (case home of Some h \<Rightarrow> join [h, ''.config''] | None \<Rightarrow> tmp) else appdata)"

definition config_Dir :: "(string list \<Rightarrow> string) \<Rightarrow> string \<Rightarrow> string option \<Rightarrow> string \<Rightarrow> bool \<Rightarrow> string option" where
  "config_Dir join appdata home tmp made =
     (let dir = join [base_dir join appdata home tmp, ''SulinkLan''] in if made then Some dir else None)"

definition config_Path :: "(string list \<Rightarrow> string) \<Rightarrow> string option \<Rightarrow> string option" where
  "config_Path join dir = (case dir of None \<Rightarrow> None | Some d \<Rightarrow> Some (join [d, ''config.json'']))"

datatype config_error =
  NoConfigDir | ConfigUnreadable | BadConfigFile | ConfigNotSaved write_error | NoDeviceName

definition config_Load :: "string \<Rightarrow> string option \<Rightarrow> bool \<Rightarrow> disk \<Rightarrow> config_error option \<times> config" where
  "config_Load host path readable d =
     (let cfg = Default host
      in case path of
           None \<Rightarrow> (Some NoConfigDir, cfg)
         | Some p \<Rightarrow>
             if \<not> readable then (Some ConfigUnreadable, cfg)
             else (case d p of
                     None \<Rightarrow> (None, cfg)
                   | Some data \<Rightarrow>
                       (case Option.bind (parse_json data) (config_of_json cfg) of
                          None \<Rightarrow> (Some BadConfigFile, Default host)
                        | Some c \<Rightarrow>
                            (None, if TrimSpace (cfg_server c) = [] then c\<lparr>cfg_server := DefaultServerAddr\<rparr> else c))))"

text \<open>A failed renaming leaves the temporary file, here and for the credential file.\<close>

definition no_cleanup :: "write_fault \<Rightarrow> write_fault" where
  "no_cleanup fault = (case fault of RenameFails _ \<Rightarrow> RenameFails False | _ \<Rightarrow> fault)"

definition config_Save :: "string option \<Rightarrow> write_fault \<Rightarrow> config \<Rightarrow> disk \<Rightarrow> config_error option \<times> disk" where
  "config_Save path fault c d =
     (case path of
        None \<Rightarrow> (Some NoConfigDir, d)
      | Some p \<Rightarrow>
          (let (e, d') = writeJSON config_to_json (no_cleanup fault) p c d
           in (map_option ConfigNotSaved e, d')))"

text \<open>\<^verbatim>\<open>Validate\<close> changes its own copy of the configuration only.\<close>

definition config_Validate :: "config \<Rightarrow> config_error option" where
  "config_Validate c0 =
     (let c = (if TrimSpace (cfg_server c0) = [] then c0\<lparr>cfg_server := DefaultServerAddr\<rparr> else c0)
      in if TrimSpace (cfg_name c) = [] then Some NoDeviceName else None)"

definition NormalizeServerAddr :: "string \<Rightarrow> string" where
  "NormalizeServerAddr addr0 =
     (let a = TrimSpace addr0
      in if a = [] then a
         else if Contains a '':'' then a
         else JoinHostPort a DefaultServerPort)"

datatype form_error = BadServerFormat string | NoServerHost | BadServerPort

definition validatePartial :: "config \<Rightarrow> form_error option" where
  "validatePartial c =
     (if cfg_server c \<noteq> [] then
        (case SplitHostPort (NormalizeServerAddr (cfg_server c)) of
           Inl _ \<Rightarrow> Some (BadServerFormat (cfg_server c))
         | Inr (host, port) \<Rightarrow>
             if host = [] then Some NoServerHost
             else (case Atoi port of
                     None \<Rightarrow> Some BadServerPort
                   | Some p \<Rightarrow> if p < 1 \<or> p > 65535 then Some BadServerPort else None))
      else None)"

text \<open>The credential file of the command line client.\<close>

record cli_cred =
  cli_device_id :: string
  cli_device_key :: string
  cli_network_key :: string

fun set_cli :: "cred_field \<Rightarrow> json \<Rightarrow> cli_cred \<Rightarrow> cli_cred option" where
  "set_cli CDeviceId j c = map_option (\<lambda>v. c\<lparr>cli_device_id := v\<rparr>) (js_str j (cli_device_id c))"
| "set_cli CDeviceKey j c = map_option (\<lambda>v. c\<lparr>cli_device_key := v\<rparr>) (js_str j (cli_device_key c))"
| "set_cli CNetworkKey j c = map_option (\<lambda>v. c\<lparr>cli_network_key := v\<rparr>) (js_str j (cli_network_key c))"

definition cli_of_json :: "json \<Rightarrow> cli_cred option" where
  "cli_of_json = js_struct [(''device_id'', CDeviceId), (''device_key'', CDeviceKey), (''network_key'', CNetworkKey)]
     set_cli \<lparr>cli_device_id = [], cli_device_key = [], cli_network_key = []\<rparr>"

definition cli_to_json :: "cli_cred \<Rightarrow> json" where
  "cli_to_json c = JObj [(''device_id'', JStr (cli_device_id c)), (''device_key'', JStr (cli_device_key c)),
     (''network_key'', JStr (cli_network_key c))]"

definition defaultCredFile :: "(string list \<Rightarrow> string) \<Rightarrow> string \<Rightarrow> string option \<Rightarrow> string \<Rightarrow> string" where
  "defaultCredFile join appdata home tmp =
     join [base_dir join appdata home tmp, ''SulinkLan'', ''cli-credentials.json'']"

datatype cli_error = CredUnreadable | CredDamaged

definition loadCred :: "bool \<Rightarrow> string \<Rightarrow> disk \<Rightarrow> cli_error + cli_cred option" where
  "loadCred readable path d =
     (if \<not> readable then Inl CredUnreadable
      else case d path of
             None \<Rightarrow> Inr None
           | Some data \<Rightarrow>
               (case Option.bind (parse_json data) cli_of_json of
                  None \<Rightarrow> Inl CredDamaged
                | Some c \<Rightarrow> Inr (Some c)))"

definition saveCred :: "bool \<Rightarrow> write_fault \<Rightarrow> string \<Rightarrow> cli_cred \<Rightarrow> disk \<Rightarrow> write_error option \<times> disk" where
  "saveCred made fault path c d =
     (if \<not> made then (Some NotWritten, d) else writeJSON cli_to_json (no_cleanup fault) path c d)"

text \<open>The credential the command line client starts with: the one of the command line if it has a
  device key, else the one of the file if that has one; a damaged file ends the program.\<close>

definition start_credential :: "cli_cred \<Rightarrow> (cli_error + cli_cred option) \<Rightarrow> cli_error + cli_cred" where
  "start_credential flags file =
     (if cli_device_key flags = [] then
        (case file of
           Inl e \<Rightarrow> Inl e
         | Inr (Some cred) \<Rightarrow> if cli_device_key cred \<noteq> [] then Inr cred else Inr flags
         | Inr None \<Rightarrow> Inr flags)
      else Inr flags)"

definition shortID :: "string \<Rightarrow> string" where
  "shortID i = (if length i \<le> 8 then i else take 8 i @ [CHR 0xE2, CHR 0x80, CHR 0xA6])"

section \<open>Files read back\<close>

definition config_text_ok :: "config \<Rightarrow> bool" where
  "config_text_ok c \<longleftrightarrow>
     list_all valid_utf8 [cfg_server c, cfg_name c, cfg_device_id c, cfg_device_key c, cfg_network_key c]"

lemma config_read:
  assumes "cfg_device_id base = []" and "cfg_device_key base = []" and "cfg_network_key base = []"
  shows "config_of_json base (config_to_json c) = Some c"
  using assms
  by (cases c; cases base)
    (simp add: config_of_json_def config_to_json_def js_struct_def config_tags_def find_field_def js_bool_def
      omitempty_def)

interpretation config_codec: file_codec config_to_json "config_of_json (Default host)" config_text_ok
  for host
proof unfold_locales
  fix c assume "config_text_ok c"
  show "config_of_json (Default host) (config_to_json c) = Some c"
    by (rule config_read) (simp_all add: Default_def zero_config_def Let_def)
next
  fix c assume "config_text_ok c"
  then show "json_ok (config_to_json c)"
    by (auto simp: config_to_json_def config_text_ok_def omitempty_def tag_ok byte_in_def)
qed

definition cli_text_ok :: "cli_cred \<Rightarrow> bool" where
  "cli_text_ok c \<longleftrightarrow> list_all valid_utf8 [cli_device_id c, cli_device_key c, cli_network_key c]"

interpretation cli_codec: file_codec cli_to_json cli_of_json cli_text_ok
proof unfold_locales
  fix c assume "cli_text_ok c"
  show "cli_of_json (cli_to_json c) = Some c"
    by (cases c) (simp add: cli_of_json_def cli_to_json_def js_struct_def find_field_def)
next
  fix c assume "cli_text_ok c"
  then show "json_ok (cli_to_json c)"
    by (simp add: cli_to_json_def cli_text_ok_def tag_ok byte_in_def)
qed

text \<open>The value a load gives for a saved one: a blank server is the default one.\<close>

definition served :: "config \<Rightarrow> config" where
  "served c = (if TrimSpace (cfg_server c) = [] then c\<lparr>cfg_server := DefaultServerAddr\<rparr> else c)"

lemma config_Load_readJSON:
  "config_Load host (Some p) True d =
     (case fst (readJSON (config_of_json (Default host)) True stamp renames p d) of
        NotThere \<Rightarrow> (None, Default host)
      | Loaded c \<Rightarrow> (None, served c)
      | _ \<Rightarrow> (Some BadConfigFile, Default host))"
  by (simp add: config_Load_def readJSON_def served_def Let_def case_prod_beta split: option.split)

lemma config_Load_saved:
  assumes "config_text_ok c" and "d p = Some (MarshalIndent (config_to_json c))"
  shows "config_Load host (Some p) True d = (None, served c)"
  using config_codec.read_back [where x = c and d = d and path = p and host = host and stamp = "[]" and renames = True]
    assms config_Load_readJSON [of host p d "[]" True] by simp

lemma config_Load_path: "d' p = d p \<Longrightarrow> config_Load host (Some p) r d' = config_Load host (Some p) r d"
  by (simp add: config_Load_def Let_def)

lemma no_cleanup_NoFault [simp]: "no_cleanup fault = NoFault \<longleftrightarrow> fault = NoFault"
  by (cases fault) (simp_all add: no_cleanup_def)

lemma config_Save_path:
  assumes "config_Save (Some p) fault c d = (e, d')"
  shows "d' p = (if e = None then Some (MarshalIndent (config_to_json c)) else d p)"
  using assms writeJSON_error [of config_to_json "no_cleanup fault" p c d]
    writeJSON_path [of config_to_json "no_cleanup fault" p c d]
  by (auto simp: config_Save_def case_prod_beta split: if_splits)

section \<open>Server addresses\<close>

lemma Contains_char: "Contains s [c] \<longleftrightarrow> c \<in> set s"
  by (induction s) (auto simp: starts_with_def)

lemma Contains_colon: "Contains s '':'' \<longleftrightarrow> CHR '':'' \<in> set s"
  by (rule Contains_char)

lemma space_runes_plain: "r \<in> set space_runes \<Longrightarrow> r \<noteq> [] \<and> CHR '':'' \<notin> set r"
  by (auto simp: space_runes_def)

lemma no_space_colon:
  assumes "no_space_at space_runes a" and "a \<noteq> []"
  shows "no_space_at space_runes (a @ CHR '':'' # t)"
  unfolding no_space_at_def
proof (intro ballI impI notI)
  fix r assume r: "r \<in> set space_runes" and "starts_with (a @ CHR '':'' # t) r"
  then obtain u where u: "a @ CHR '':'' # t = r @ u" by (auto simp: starts_with_prefix prefix_def)
  have "length r \<le> length a"
  proof (rule ccontr)
    assume "\<not> length r \<le> length a"
    then have "CHR '':'' \<in> set r" using u by (auto simp: append_eq_append_conv2 Cons_eq_append_conv)
    then show False using space_runes_plain [OF r] by simp
  qed
  then have "starts_with a r" using u by (auto simp: starts_with_prefix prefix_def append_eq_append_conv2)
  then show False using assms(1) r space_runes_plain [OF r] by (auto simp: no_space_at_def)
qed

lemma NormalizeServerAddr_cases:
  "NormalizeServerAddr s =
     (let a = TrimSpace s in if a = [] \<or> CHR '':'' \<in> set a then a else a @ '':9000'')"
  by (simp add: NormalizeServerAddr_def Contains_colon JoinHostPort_def DefaultServerPort_def Let_def)

lemma NormalizeServerAddr_trimmed: "TrimSpace (NormalizeServerAddr s) = NormalizeServerAddr s"
proof (cases "TrimSpace s = [] \<or> CHR '':'' \<in> set (TrimSpace s)")
  case False
  have "no_space_at space_runes (TrimSpace s @ '':9000'')"
    using no_space_colon [OF TrimSpace_front, of s "''9000''"] False by simp
  moreover have "no_space_at (map rev space_runes) (rev (TrimSpace s @ '':9000''))"
    using graphic_no_space_back [of "CHR ''0''"] by (simp add: graphic_def)
  ultimately show ?thesis using False by (simp add: NormalizeServerAddr_cases Let_def TrimSpace_unchanged)
qed (auto simp: NormalizeServerAddr_cases Let_def)

lemma NormalizeServerAddr_idem: "NormalizeServerAddr (NormalizeServerAddr s) = NormalizeServerAddr s"
proof (cases "TrimSpace s = [] \<or> CHR '':'' \<in> set (TrimSpace s)")
  case False
  then have "NormalizeServerAddr s = TrimSpace s @ '':9000''" by (simp add: NormalizeServerAddr_cases Let_def)
  then show ?thesis
    using NormalizeServerAddr_trimmed [of s]
    by (simp add: NormalizeServerAddr_cases [of "TrimSpace s @ '':9000''"] Let_def)
qed (auto simp: NormalizeServerAddr_cases Let_def)

lemma NormalizeServerAddr_client:
  "TrimSpace s = s \<Longrightarrow> s \<noteq> [] \<Longrightarrow> NormalizeServerAddr s = server_address s"
  by (simp add: NormalizeServerAddr_def server_address_def DefaultServerPort_def Let_def)

section \<open>Properties\<close>

text \<open>The client's configuration survives a restart and a crash. Loading after a save gives the
  saved configuration, all eight fields, with the default server in place of a blank one; a save
  that failed, and a crash at any moment of a save, leave a file that loads as the old
  configuration or as the new one.\<close>

theorem config_survives_restart:
  assumes "config_text_ok c" and "config_Save (Some p) fault c d = (e, d1)"
    and "d2 \<in> set (write_trace config_to_json p c d)"
  shows "config_Load host (Some p) True d1
           = (if e = None then (None, served c) else config_Load host (Some p) True d)
    \<and> config_Load host (Some p) True d2 \<in> {config_Load host (Some p) True d, (None, served c)}"
proof -
  note loaded = config_Load_saved [OF assms(1)]
  have "config_Load host (Some p) True d1
           = (if e = None then (None, served c) else config_Load host (Some p) True d)"
    using config_Save_path [OF assms(2)] loaded [of d1 p host] config_Load_path [of d1 p d host True]
    by (cases e) simp_all
  moreover have "config_Load host (Some p) True d2 \<in> {config_Load host (Some p) True d, (None, served c)}"
    using write_trace_path [OF assms(3)] loaded [of d2 p host] config_Load_path [of d2 p d] by auto
  ultimately show ?thesis by blast
qed

definition sample_config :: config where
  "sample_config = zero_config\<lparr>cfg_server := ''203.0.113.10:9000'', cfg_name := ''pc'', cfg_no_punch := True,
     cfg_device_id := ''dev-1''\<rparr>"

theorem config_survives_restart_witness:
  "\<exists>d1. config_Save (Some ''c.json'') NoFault sample_config blank_disk = (None, d1)
     \<and> config_Load ''host'' (Some ''c.json'') True d1 = (None, sample_config)"
proof -
  have ok: "config_text_ok sample_config" by code_simp
  have served: "served sample_config = sample_config" by code_simp
  obtain d1 where d1: "config_Save (Some ''c.json'') NoFault sample_config blank_disk = (None, d1)"
    by (simp add: config_Save_def writeJSON_def no_cleanup_def Let_def)
  have "blank_disk \<in> set (write_trace config_to_json ''c.json'' sample_config blank_disk)"
    by (simp add: write_trace_def Let_def)
  from config_survives_restart [OF ok d1 this] d1 show ?thesis by (simp add: served)
qed

text \<open>A server address the settings form accepts can be dialled. Once the form check passes, the
  completed address splits into a non-empty host and a port from 1 to 65535, completing it again
  changes nothing, and where the entered text has no blanks around it the client dials exactly
  the completed address.\<close>

theorem accepted_server_address:
  assumes "validatePartial c = None" and "cfg_server c \<noteq> []"
  shows "(\<exists>host port p. SplitHostPort (NormalizeServerAddr (cfg_server c)) = Inr (host, port)
            \<and> host \<noteq> [] \<and> Atoi port = Some p \<and> 1 \<le> p \<and> p \<le> 65535)
    \<and> NormalizeServerAddr (NormalizeServerAddr (cfg_server c)) = NormalizeServerAddr (cfg_server c)
    \<and> (TrimSpace (cfg_server c) = cfg_server c \<longrightarrow>
         server_address (cfg_server c) = NormalizeServerAddr (cfg_server c))"
proof -
  have "\<exists>host port p. SplitHostPort (NormalizeServerAddr (cfg_server c)) = Inr (host, port)
            \<and> host \<noteq> [] \<and> Atoi port = Some p \<and> 1 \<le> p \<and> p \<le> 65535"
    using assms by (auto simp: validatePartial_def split: sum.splits option.splits if_splits)
  then show ?thesis
    using NormalizeServerAddr_idem NormalizeServerAddr_client [of "cfg_server c"] assms(2) by simp
qed

theorem accepted_server_address_witness:
  "NormalizeServerAddr ''1.2.3.4'' = ''1.2.3.4:9000''
   \<and> server_address ''1.2.3.4'' = NormalizeServerAddr ''1.2.3.4''"
proof -
  have "validatePartial (zero_config\<lparr>cfg_server := ''1.2.3.4''\<rparr>) = None" by code_simp
  moreover have "TrimSpace ''1.2.3.4'' = ''1.2.3.4''" by code_simp
  ultimately show ?thesis
    using accepted_server_address [of "zero_config\<lparr>cfg_server := ''1.2.3.4''\<rparr>"]
    by (simp add: NormalizeServerAddr_cases Let_def)
qed

text \<open>An address with blanks around it passes the form check, but the client does not trim it.\<close>

lemma blanks_pass_the_form:
  "validatePartial (zero_config\<lparr>cfg_server := '' 1.2.3.4''\<rparr>) = None"
  "server_address '' 1.2.3.4'' = '' 1.2.3.4:9000''"
  by code_simp+

text \<open>A bare IPv6 address is not completed, so the form rejects it.\<close>

lemma bare_v6_not_completed:
  "NormalizeServerAddr ''::1'' = ''::1''"
  "validatePartial (zero_config\<lparr>cfg_server := ''::1''\<rparr>) = Some (BadServerFormat ''::1'')"
  by code_simp+

text \<open>A configuration without a server passes \<^verbatim>\<open>Validate\<close>: only the name is checked.\<close>

lemma Validate_checks_name: "config_Validate c = None \<longleftrightarrow> TrimSpace (cfg_name c) \<noteq> []"
  by (simp add: config_Validate_def Let_def)

text \<open>The credential the registration reported is the one the next start of the command line
  client uses.\<close>

lemma saved_credential_used:
  assumes "cli_text_ok c" and "cli_device_key c \<noteq> []" and "saveCred made fault path c d = (None, d')"
    and "cli_device_key flags = []"
  shows "start_credential flags (loadCred True path d') = Inr c"
proof -
  have "d' path = Some (MarshalIndent (cli_to_json c))"
    using assms(3) writeJSON_error [of cli_to_json "no_cleanup fault" path c d]
      writeJSON_path [of cli_to_json "no_cleanup fault" path c d]
    by (auto simp: saveCred_def split: if_splits)
  then show ?thesis
    using assms(2,4) cli_codec.read_text [OF assms(1)] by (simp add: loadCred_def start_credential_def)
qed

end
