(* ===== verification/Gui_App.thy ===== *)
theory Gui_App
  imports Client_Settings
begin

text \<open>
  The graphical client of \<^verbatim>\<open>internal/gui\<close>: the application state
  (\<^verbatim>\<open>app.go\<close>, \<^verbatim>\<open>state.go\<close>), the calls of its page
  (\<^verbatim>\<open>bridge.go\<close>), the rounds of \<^verbatim>\<open>runClient\<close> and the manager of
  the embedded tunnel client (\<^verbatim>\<open>npc.go\<close>). Every call and every round is one step;
  the clock, the texts of system errors, the outcome of system calls and what the server's
  tunnel query returns are arguments. The client itself is the one of \<open>Client\<close>.
\<close>

section \<open>Texts\<close>

definition text_bad_argument :: string where
  "text_bad_argument =
     [CHR 0xE5, CHR 0x8F, CHR 0x82, CHR 0xE6, CHR 0x95, CHR 0xB0, CHR 0xE6, CHR 0xA0, CHR 0xBC,
      CHR 0xE5, CHR 0xBC, CHR 0x8F, CHR 0xE9, CHR 0x94, CHR 0x99, CHR 0xE8, CHR 0xAF, CHR 0xAF]"

definition text_save_failed :: string where
  "text_save_failed =
     [CHR 0xE4, CHR 0xBF, CHR 0x9D, CHR 0xE5, CHR 0xAD, CHR 0x98, CHR 0xE5, CHR 0xA4, CHR 0xB1,
      CHR 0xE8, CHR 0xB4, CHR 0xA5, CHR 0x3A, CHR 0x20]"

definition text_save_failed_auto :: string where
  "text_save_failed_auto =
     [CHR 0xE4, CHR 0xBF, CHR 0x9D, CHR 0xE5, CHR 0xAD, CHR 0x98, CHR 0xE5, CHR 0xA4, CHR 0xB1,
      CHR 0xE8, CHR 0xB4, CHR 0xA5, CHR 0xEF, CHR 0xBC, CHR 0x9A]"

definition text_saved :: string where
  "text_saved =
     [CHR 0xE8, CHR 0xAE, CHR 0xBE, CHR 0xE7, CHR 0xBD, CHR 0xAE, CHR 0xE5, CHR 0xB7, CHR 0xB2,
      CHR 0xE4, CHR 0xBF, CHR 0x9D, CHR 0xE5, CHR 0xAD, CHR 0x98]"

definition text_connect_failed :: string where
  "text_connect_failed =
     [CHR 0xE8, CHR 0xBF, CHR 0x9E, CHR 0xE6, CHR 0x8E, CHR 0xA5, CHR 0xE5, CHR 0xA4, CHR 0xB1,
      CHR 0xE8, CHR 0xB4, CHR 0xA5, CHR 0xEF, CHR 0xBC, CHR 0x9A]"

definition text_connecting :: string where
  "text_connecting =
     [CHR 0xE6, CHR 0xAD, CHR 0xA3, CHR 0xE5, CHR 0x9C, CHR 0xA8, CHR 0xE8, CHR 0xBF, CHR 0x9E,
      CHR 0xE6, CHR 0x8E, CHR 0xA5]"

definition text_connecting_now :: string where
  "text_connecting_now =
     [CHR 0xE6, CHR 0xAD, CHR 0xA3, CHR 0xE5, CHR 0x9C, CHR 0xA8, CHR 0xE8, CHR 0xBF, CHR 0x9E,
      CHR 0xE6, CHR 0x8E, CHR 0xA5, CHR 0xE2, CHR 0x80, CHR 0xA6]"

definition text_not_connected :: string where
  "text_not_connected =
     [CHR 0xE6, CHR 0x9C, CHR 0xAA, CHR 0xE8, CHR 0xBF, CHR 0x9E, CHR 0xE6, CHR 0x8E, CHR 0xA5]"

definition text_disconnected :: string where
  "text_disconnected =
     [CHR 0xE5, CHR 0xB7, CHR 0xB2, CHR 0xE6, CHR 0x96, CHR 0xAD, CHR 0xE5, CHR 0xBC, CHR 0x80]"

definition text_notice_cleared :: string where
  "text_notice_cleared =
     [CHR 0xE6, CHR 0x9C, CHR 0x8D, CHR 0xE5, CHR 0x8A, CHR 0xA1, CHR 0xE7, CHR 0xAB, CHR 0xAF,
      CHR 0xE5, CHR 0x85, CHR 0xAC, CHR 0xE5, CHR 0x91, CHR 0x8A, CHR 0xE5, CHR 0xB7, CHR 0xB2,
      CHR 0xE6, CHR 0xB8, CHR 0x85, CHR 0xE9, CHR 0x99, CHR 0xA4]"

definition text_notice_received :: string where
  "text_notice_received =
     [CHR 0xE6, CHR 0x8E, CHR 0xA5, CHR 0xE6, CHR 0x94, CHR 0xB6, CHR 0xE5, CHR 0x88, CHR 0xB0,
      CHR 0xE6, CHR 0x9C, CHR 0x8D, CHR 0xE5, CHR 0x8A, CHR 0xA1, CHR 0xE5, CHR 0x99, CHR 0xA8,
      CHR 0xE4, CHR 0xBF, CHR 0xA1, CHR 0xE6, CHR 0x81, CHR 0xAF]"

definition text_connected_at :: string where
  "text_connected_at =
     [CHR 0xE5, CHR 0xB7, CHR 0xB2, CHR 0xE8, CHR 0xBF, CHR 0x9E, CHR 0xE6, CHR 0x8E, CHR 0xA5,
      CHR 0xEF, CHR 0xBC, CHR 0x8C, CHR 0xE8, CHR 0x99, CHR 0x9A, CHR 0xE6, CHR 0x8B, CHR 0x9F,
      CHR 0xE5, CHR 0x9C, CHR 0xB0, CHR 0xE5, CHR 0x9D, CHR 0x80, CHR 0x20]"

definition text_disconnecting :: string where
  "text_disconnecting =
     [CHR 0xE6, CHR 0xAD, CHR 0xA3, CHR 0xE5, CHR 0x9C, CHR 0xA8, CHR 0xE6, CHR 0x96, CHR 0xAD,
      CHR 0xE5, CHR 0xBC, CHR 0x80, CHR 0xE2, CHR 0x80, CHR 0xA6]"

definition text_autostart_failed :: string where
  "text_autostart_failed =
     [CHR 0xE8, CHR 0xAE, CHR 0xBE, CHR 0xE7, CHR 0xBD, CHR 0xAE, CHR 0xE5, CHR 0xBC, CHR 0x80,
      CHR 0xE6, CHR 0x9C, CHR 0xBA, CHR 0xE8, CHR 0x87, CHR 0xAA, CHR 0xE5, CHR 0x90, CHR 0xAF,
      CHR 0xE5, CHR 0xA4, CHR 0xB1, CHR 0xE8, CHR 0xB4, CHR 0xA5, CHR 0xEF, CHR 0xBC, CHR 0x9A]"

definition text_autostart_on :: string where
  "text_autostart_on =
     [CHR 0xE5, CHR 0xB7, CHR 0xB2, CHR 0xE5, CHR 0xBC, CHR 0x80, CHR 0xE5, CHR 0x90, CHR 0xAF,
      CHR 0xE5, CHR 0xBC, CHR 0x80, CHR 0xE6, CHR 0x9C, CHR 0xBA, CHR 0xE8, CHR 0x87, CHR 0xAA,
      CHR 0xE5, CHR 0x90, CHR 0xAF]"

definition text_autostart_off :: string where
  "text_autostart_off =
     [CHR 0xE5, CHR 0xB7, CHR 0xB2, CHR 0xE5, CHR 0x85, CHR 0xB3, CHR 0xE9, CHR 0x97, CHR 0xAD,
      CHR 0xE5, CHR 0xBC, CHR 0x80, CHR 0xE6, CHR 0x9C, CHR 0xBA, CHR 0xE8, CHR 0x87, CHR 0xAA,
      CHR 0xE5, CHR 0x90, CHR 0xAF]"

definition text_no_device_name :: string where
  "text_no_device_name =
     [CHR 0xE8, CHR 0xAF, CHR 0xB7, CHR 0xE5, CHR 0xA1, CHR 0xAB, CHR 0xE5, CHR 0x86, CHR 0x99,
      CHR 0xE8, CHR 0xAE, CHR 0xBE, CHR 0xE5, CHR 0xA4, CHR 0x87, CHR 0xE5, CHR 0x90, CHR 0x8D]"

definition text_bad_server_format :: string where
  "text_bad_server_format =
     [CHR 0xE6, CHR 0x9C, CHR 0x8D, CHR 0xE5, CHR 0x8A, CHR 0xA1, CHR 0xE5, CHR 0x99, CHR 0xA8,
      CHR 0xE5, CHR 0x9C, CHR 0xB0, CHR 0xE5, CHR 0x9D, CHR 0x80, CHR 0xE6, CHR 0xA0, CHR 0xBC,
      CHR 0xE5, CHR 0xBC, CHR 0x8F, CHR 0xE4, CHR 0xB8, CHR 0x8D, CHR 0xE6, CHR 0xAD, CHR 0xA3,
      CHR 0xE7, CHR 0xA1, CHR 0xAE, CHR 0x3A, CHR 0x20]"

definition text_no_server_host :: string where
  "text_no_server_host =
     [CHR 0xE6, CHR 0x9C, CHR 0x8D, CHR 0xE5, CHR 0x8A, CHR 0xA1, CHR 0xE5, CHR 0x99, CHR 0xA8,
      CHR 0xE5, CHR 0x9C, CHR 0xB0, CHR 0xE5, CHR 0x9D, CHR 0x80, CHR 0xE7, CHR 0xBC, CHR 0xBA,
      CHR 0xE5, CHR 0xB0, CHR 0x91, CHR 0xE4, CHR 0xB8, CHR 0xBB, CHR 0xE6, CHR 0x9C, CHR 0xBA,
      CHR 0xE5, CHR 0x90, CHR 0x8D, CHR 0xE6, CHR 0x88, CHR 0x96, CHR 0x20, CHR 0x49, CHR 0x50]"

definition text_bad_server_port :: string where
  "text_bad_server_port =
     [CHR 0xE6, CHR 0x9C, CHR 0x8D, CHR 0xE5, CHR 0x8A, CHR 0xA1, CHR 0xE5, CHR 0x99, CHR 0xA8,
      CHR 0xE7, CHR 0xAB, CHR 0xAF, CHR 0xE5, CHR 0x8F, CHR 0xA3, CHR 0xE9, CHR 0x9C, CHR 0x80,
      CHR 0xE4, CHR 0xB8, CHR 0xBA, CHR 0x20, CHR 0x31, CHR 0x2D, CHR 0x36, CHR 0x35, CHR 0x35,
      CHR 0x33, CHR 0x35, CHR 0x20, CHR 0xE4, CHR 0xB9, CHR 0x8B, CHR 0xE9, CHR 0x97, CHR 0xB4,
      CHR 0xE7, CHR 0x9A, CHR 0x84, CHR 0xE6, CHR 0x95, CHR 0xB0, CHR 0xE5, CHR 0xAD, CHR 0x97]"

section \<open>State\<close>

record tunnel_view =
  tv_id :: int
  tv_port :: int
  tv_mode :: string
  tv_target :: string
  tv_remark :: string
  tv_running :: bool

text \<open>A slice or map that may be nil is an option.\<close>

record gui_state =
  st_status :: string
  st_message :: string
  st_ip :: string
  st_transport :: string
  st_latency :: int
  st_logs :: "string list"
  st_tunnels :: "tunnel_view list option"
  st_notice :: string
  st_pushed :: "settings option"
  st_lease :: int

text \<open>
  The application: \<open>g_cli\<close> is the number of the connection whose client is current, \<open>g_stop\<close>
  the one whose stop channel is kept, \<open>g_closed\<close> the closed channels, \<open>g_running\<close> the
  connections whose \<^verbatim>\<open>runClient\<close> goroutine runs and \<open>g_returned\<close> those whose
  \<^verbatim>\<open>Run\<close> has returned. \<open>g_npc\<close> is the tunnel client's bridge and key.
\<close>

record gui_app =
  g_cfg :: config
  g_cli :: "nat option"
  g_stop :: "nat option"
  g_next :: nat
  g_closed :: "nat list"
  g_running :: "nat list"
  g_returned :: "nat list"
  g_npc :: "(string \<times> string) option"
  g_state :: gui_state

definition on_state :: "(gui_state \<Rightarrow> gui_state) \<Rightarrow> gui_app \<Rightarrow> gui_app" where
  "on_state f a = a\<lparr>g_state := f (g_state a)\<rparr>"

definition gui_New :: "string \<Rightarrow> config_error option \<times> config \<Rightarrow> gui_app" where
  "gui_New host loaded =
     \<lparr>g_cfg = (case loaded of (None, cfg) \<Rightarrow> cfg | (Some _, _) \<Rightarrow> Default host),
      g_cli = None, g_stop = None, g_next = 0, g_closed = [], g_running = [], g_returned = [], g_npc = None,
      g_state = \<lparr>st_status = ''disconnected'', st_message = text_not_connected, st_ip = [],
        st_transport = [], st_latency = 0, st_logs = [], st_tunnels = None, st_notice = [],
        st_pushed = None, st_lease = 0\<rparr>\<rparr>"

definition logEvent :: "string \<Rightarrow> string \<Rightarrow> gui_app \<Rightarrow> gui_app" where
  "logEvent ts msg = on_state (\<lambda>s.
     let logs = (ts @ ''  '' @ msg) # st_logs s
     in s\<lparr>st_logs := (if length logs > 100 then take 100 logs else logs)\<rparr>)"

definition setStatus :: "string \<Rightarrow> string \<Rightarrow> gui_app \<Rightarrow> gui_app" where
  "setStatus status message = on_state (\<lambda>s.
     let s1 = s\<lparr>st_status := status, st_message := message\<rparr>;
         s2 = (if status = ''connecting'' then s1\<lparr>st_ip := []\<rparr> else s1)
     in if status = ''disconnected'' \<or> status = ''error''
        then s2\<lparr>st_ip := [], st_transport := [], st_latency := 0, st_notice := [], st_pushed := None, st_lease := 0\<rparr>
        else s2)"

section \<open>Calls of the page\<close>

record reply =
  r_ok :: bool
  r_error :: string

definition reply_ok :: reply where "reply_ok = \<lparr>r_ok = True, r_error = []\<rparr>"
definition reply_fail :: "string \<Rightarrow> reply" where "reply_fail e = \<lparr>r_ok = False, r_error = e\<rparr>"

definition reply_json :: "reply \<Rightarrow> json" where
  "reply_json r = JObj ((''ok'', JBool (r_ok r)) # omitempty [] ''error'' JStr (r_error r))"

definition form_error_text :: "form_error \<Rightarrow> string" where
  "form_error_text e =
     (case e of
        BadServerFormat s \<Rightarrow> text_bad_server_format @ s
      | NoServerHost \<Rightarrow> text_no_server_host
      | BadServerPort \<Rightarrow> text_bad_server_port)"

text \<open>\<open>err_text\<close> gives the texts of the file errors; \<open>save\<close> writes a configuration to the disk.\<close>

definition SaveConfig :: "(config \<Rightarrow> 'd \<Rightarrow> string option \<times> 'd) \<Rightarrow> string \<Rightarrow> string \<Rightarrow> 'd \<Rightarrow> gui_app
    \<Rightarrow> reply \<times> 'd \<times> gui_app" where
  "SaveConfig save ts payload d a =
     (case Option.bind (parse_json payload) (config_of_json zero_config) of
        None \<Rightarrow> (reply_fail text_bad_argument, d, a)
      | Some in0 \<Rightarrow>
          let cur = g_cfg a;
              in1 = (if cfg_name in0 = [] then in0\<lparr>cfg_name := cfg_name cur\<rparr> else in0)
          in case validatePartial in1 of
               Some e \<Rightarrow> (reply_fail (form_error_text e), d, a)
             | None \<Rightarrow>
                 let a1 = a\<lparr>g_cfg := in1\<rparr>; (err, d1) = save in1 d
                 in case err of
                      Some e \<Rightarrow> (reply_fail (text_save_failed @ e), d1, a1)
                    | None \<Rightarrow> (reply_ok, d1, logEvent ts text_saved a1))"

definition client_config_of :: "config \<Rightarrow> client_config" where
  "client_config_of cfg =
     \<lparr>cc_server = cfg_server cfg, cc_name = cfg_name cfg, cc_no_punch = cfg_no_punch cfg,
      cc_device_id = cfg_device_id cfg, cc_device_key = cfg_device_key cfg, cc_network_key = cfg_network_key cfg,
      cc_hwid = []\<rparr>"

text \<open>\<^verbatim>\<open>Connect\<close>: the answer, the new client if one was made, and the state.\<close>

definition Connect :: "string \<Rightarrow> gui_app \<Rightarrow> reply \<times> client option \<times> gui_app" where
  "Connect ts a =
     (if g_cli a \<noteq> None then (reply_ok, None, a)
      else case config_Validate (g_cfg a) of
             Some _ \<Rightarrow>
               (reply_fail text_no_device_name, None,
                logEvent ts (text_connect_failed @ text_no_device_name)
                  (setStatus ''error'' text_no_device_name a))
           | None \<Rightarrow>
               let n = g_next a;
                   a1 = a\<lparr>g_cli := Some n, g_stop := Some n, g_next := Suc n, g_running := n # g_running a,
                          g_state := (g_state a)\<lparr>st_status := ''connecting'', st_message := text_connecting_now,
                            st_ip := [], st_transport := [], st_latency := 0\<rparr>\<rparr>
               in (reply_ok, Some (NewClient (client_config_of (g_cfg a))), logEvent ts text_connecting a1))"

text \<open>The callback of a registration.\<close>

definition OnCredential :: "(config \<Rightarrow> 'd \<Rightarrow> string option \<times> 'd) \<Rightarrow> string \<Rightarrow> string \<Rightarrow> string \<Rightarrow> 'd \<Rightarrow> gui_app
    \<Rightarrow> string option \<times> 'd \<times> gui_app" where
  "OnCredential save deviceID deviceKey networkKey d a =
     (let a1 = a\<lparr>g_cfg := (g_cfg a)\<lparr>cfg_device_id := deviceID, cfg_device_key := deviceKey,
                   cfg_network_key := networkKey\<rparr>\<rparr>;
          (err, d1) = save (g_cfg a1) d
      in (err, d1, a1))"

definition Disconnect :: "gui_app \<Rightarrow> reply \<times> gui_app" where
  "Disconnect a =
     (case g_stop a of
        None \<Rightarrow> (reply_ok, a)
      | Some n \<Rightarrow>
          let a1 = setStatus ''connecting'' text_disconnecting a
          in (reply_ok, if n \<in> set (g_closed a1) then a1 else a1\<lparr>g_closed := n # g_closed a1\<rparr>))"

definition SetAutoStart :: "(config \<Rightarrow> 'd \<Rightarrow> string option \<times> 'd) \<Rightarrow> string \<Rightarrow> string option \<Rightarrow> bool \<Rightarrow> 'd \<Rightarrow> gui_app
    \<Rightarrow> reply \<times> 'd \<times> gui_app" where
  "SetAutoStart save ts sys_err on d a =
     (case sys_err of
        Some e \<Rightarrow> (reply_fail (text_autostart_failed @ e), d, a)
      | None \<Rightarrow>
          let a1 = a\<lparr>g_cfg := (g_cfg a)\<lparr>cfg_auto_start := on\<rparr>\<rparr>; (err, d1) = save (g_cfg a1) d
          in case err of
               Some e \<Rightarrow> (reply_fail (text_save_failed_auto @ e), d1, a1)
             | None \<Rightarrow> (reply_ok, d1, logEvent ts (if on then text_autostart_on else text_autostart_off) a1))"

definition ClearLogs :: "gui_app \<Rightarrow> reply \<times> gui_app" where
  "ClearLogs a = (reply_ok, on_state (\<lambda>s. s\<lparr>st_logs := []\<rparr>) a)"

definition IsConnected :: "gui_app \<Rightarrow> bool" where
  "IsConnected a \<longleftrightarrow> st_status (g_state a) = ''connected''"

definition statusOrDefault :: "gui_app \<Rightarrow> string" where
  "statusOrDefault a = (if st_status (g_state a) = [] then ''disconnected'' else st_status (g_state a))"

definition appVersion :: string where "appVersion = ''1.0.0''"
definition protocolVersion :: string where "protocolVersion = ''v1''"

definition tunnel_json :: "tunnel_view \<Rightarrow> json" where
  "tunnel_json t = JObj [(''id'', to_js_int (tv_id t)), (''port'', to_js_int (tv_port t)), (''mode'', JStr (tv_mode t)),
     (''target'', JStr (tv_target t)), (''remark'', JStr (tv_remark t)), (''running'', JBool (tv_running t))]"

text \<open>The snapshot the page polls; copying an empty log onto nil gives nil.\<close>

definition GetStateJSON :: "bool \<Rightarrow> gui_app \<Rightarrow> string" where
  "GetStateJSON elevated a =
     (let s = g_state a
      in print_json (JObj
        [(''status'', JStr (st_status s)), (''message'', JStr (st_message s)), (''ip'', JStr (st_ip s)),
         (''transport'', JStr (st_transport s)), (''latency'', to_js_int (st_latency s)),
         (''logs'', if st_logs s = [] then JNull else JArr (map JStr (st_logs s))),
         (''tunnels'', case st_tunnels s of None \<Rightarrow> JNull | Some ts \<Rightarrow> JArr (map tunnel_json ts)),
         (''config'', config_to_json (g_cfg a)), (''version'', JStr appVersion),
         (''protocol'', JStr protocolVersion), (''elevated'', JBool elevated),
         (''busy'', JBool (g_cli a \<noteq> None)), (''notice'', JStr (st_notice s)),
         (''pushed'', case st_pushed s of None \<Rightarrow> JNull | Some m \<Rightarrow> to_js_map m),
         (''leaseUntil'', to_js_int (st_lease s))]))"

section \<open>The tunnel client\<close>

definition npc_stop :: "gui_app \<Rightarrow> gui_app" where
  "npc_stop a = a\<lparr>g_npc := None\<rparr>"

definition npc_start :: "string \<Rightarrow> string \<Rightarrow> gui_app \<Rightarrow> gui_app" where
  "npc_start serverAddr vkey a0 =
     (let a = npc_stop a0
      in if vkey = [] then a
         else case SplitHostPort (NormalizeServerAddr serverAddr) of
                Inl _ \<Rightarrow> a
              | Inr (host, _) \<Rightarrow> a\<lparr>g_npc := Some (JoinHostPort host ''8024'', vkey)\<rparr>)"

section \<open>The rounds of runClient\<close>

text \<open>\<^verbatim>\<open>fetchTunnels\<close>: the query's address, and what becomes of its decoded answer
  (\<open>None\<close> when the request failed or the answer is not one).\<close>

definition tunnels_url :: "config \<Rightarrow> string option" where
  "tunnels_url cfg =
     (if cfg_device_key cfg = [] then None
      else case SplitHostPort (NormalizeServerAddr (cfg_server cfg)) of
             Inl _ \<Rightarrow> None
           | Inr (host, _) \<Rightarrow>
               Some (''http://'' @ JoinHostPort host ''8080'' @ ''/api/sulink/my-tunnels?device_key=''
                 @ cfg_device_key cfg))"

definition fetchTunnels :: "(string \<Rightarrow> (bool \<times> tunnel_view list option) option) \<Rightarrow> gui_app \<Rightarrow> gui_app" where
  "fetchTunnels get a =
     (case tunnels_url (g_cfg a) of
        None \<Rightarrow> a
      | Some url \<Rightarrow>
          (case get url of
             Some (True, items) \<Rightarrow> on_state (\<lambda>s. s\<lparr>st_tunnels := items\<rparr>) a
           | _ \<Rightarrow> a))"

definition transport_of :: "nat \<times> nat \<Rightarrow> string" where
  "transport_of stats =
     (case stats of (direct, known) \<Rightarrow>
        if known = 0 then [] else if direct > 0 then ''direct'' else ''relay'')"

definition syncFromClient :: "string \<Rightarrow> (string \<Rightarrow> (bool \<times> tunnel_view list option) option) \<Rightarrow> client \<Rightarrow> gui_app \<Rightarrow> gui_app" where
  "syncFromClient ts get c a0 =
     (let changed0 = (st_notice (g_state a0) \<noteq> Notice c);
          a1 = on_state (\<lambda>s. s\<lparr>st_notice := Notice c, st_pushed := Some (client_PushedConfig c),
                 st_lease := LeaseUntil c\<rparr>) a0;
          a2 = (if changed0
                then logEvent ts (if Notice c = [] then text_notice_cleared else text_notice_received) a1 else a1);
          a3 = fetchTunnels get a2;
          vip = SelfVIP c
      in if vip = 0 then a3
         else
           let ip = IP4String vip;
               changed = (st_ip (g_state a3) \<noteq> ip \<or> st_status (g_state a3) \<noteq> ''connected'');
               a4 = on_state (\<lambda>s. s\<lparr>st_ip := ip\<rparr>) a3;
               a5 = (if changed
                     then npc_start (cfg_server (g_cfg a4)) (cfg_device_key (g_cfg a4))
                            (logEvent ts (text_connected_at @ ip) (setStatus ''connected'' [] a4))
                     else a4)
           in on_state (\<lambda>s. s\<lparr>st_transport := transport_of (PeerStats c)\<rparr>) a5)"

text \<open>\<^verbatim>\<open>Run\<close> returns, with the text of its error if it has one.\<close>

definition run_returned :: "string \<Rightarrow> nat \<Rightarrow> string option \<Rightarrow> gui_app \<Rightarrow> gui_app" where
  "run_returned ts n err a =
     (let a1 = (case err of
                  None \<Rightarrow> a
                | Some e \<Rightarrow> logEvent ts (text_connect_failed @ e) (setStatus ''error'' e a))
      in a1\<lparr>g_returned := n # g_returned a1\<rparr>)"

text \<open>The three branches of the loop: the stop channel is closed (the branch waits for
  \<^verbatim>\<open>Run\<close>, which has been told to end), \<^verbatim>\<open>Run\<close> has returned, the
  ticker fires. The first two end the goroutine.\<close>

definition runner_stopped :: "string \<Rightarrow> nat \<Rightarrow> gui_app \<Rightarrow> gui_app" where
  "runner_stopped ts n a =
     (let a1 = (npc_stop a)\<lparr>g_cli := None, g_running := remove1 n (g_running a)\<rparr>
      in logEvent ts text_disconnected (setStatus ''disconnected'' text_not_connected a1))"

definition runner_done :: "nat \<Rightarrow> gui_app \<Rightarrow> gui_app" where
  "runner_done n a0 =
     (let a = npc_stop a0;
          wasConnecting = (g_cli a = Some n);
          a1 = (if wasConnecting then a\<lparr>g_cli := None\<rparr> else a);
          a2 = (if wasConnecting
                then (let st = st_status (g_state a1)
                      in if st = ''connected'' \<or> st = ''connecting''
                         then setStatus ''disconnected'' text_not_connected a1 else a1)
                else a1)
      in a2\<lparr>g_running := remove1 n (g_running a2)\<rparr>)"

section \<open>The application at work\<close>

inductive gui_step :: "(config \<Rightarrow> 'd \<Rightarrow> string option \<times> 'd) \<Rightarrow> gui_app \<times> 'd \<Rightarrow> gui_app \<times> 'd \<Rightarrow> bool"
  for save :: "config \<Rightarrow> 'd \<Rightarrow> string option \<times> 'd" where
  save: "SaveConfig save ts payload d a = (r, d', a') \<Longrightarrow> gui_step save (a, d) (a', d')"
| connect: "Connect ts a = (r, c, a') \<Longrightarrow> gui_step save (a, d) (a', d)"
| credential: "OnCredential save i k nk d a = (e, d', a') \<Longrightarrow> gui_step save (a, d) (a', d')"
| disconnect: "Disconnect a = (r, a') \<Longrightarrow> gui_step save (a, d) (a', d)"
| autostart: "SetAutoStart save ts se on d a = (r, d', a') \<Longrightarrow> gui_step save (a, d) (a', d')"
| clear: "ClearLogs a = (r, a') \<Longrightarrow> gui_step save (a, d) (a', d)"
| run_ends: "n \<in> set (g_running a) \<Longrightarrow> n \<notin> set (g_returned a) \<Longrightarrow>
    gui_step save (a, d) (run_returned ts n err a, d)"
| stopped: "n \<in> set (g_running a) \<Longrightarrow> n \<in> set (g_closed a) \<Longrightarrow> n \<in> set (g_returned a) \<Longrightarrow>
    gui_step save (a, d) (runner_stopped ts n a, d)"
| finished: "n \<in> set (g_running a) \<Longrightarrow> n \<in> set (g_returned a) \<Longrightarrow>
    gui_step save (a, d) (runner_done n a, d)"
| tick: "n \<in> set (g_running a) \<Longrightarrow> gui_step save (a, d) (syncFromClient ts get c a, d)"

inductive gui_reachable :: "(config \<Rightarrow> 'd \<Rightarrow> string option \<times> 'd) \<Rightarrow> gui_app \<Rightarrow> 'd \<Rightarrow> bool"
  for save :: "config \<Rightarrow> 'd \<Rightarrow> string option \<times> 'd" where
  start: "gui_reachable save (gui_New host loaded) d"
| step: "gui_reachable save a d \<Longrightarrow> gui_step save (a, d) (a', d') \<Longrightarrow> gui_reachable save a' d'"

inductive_cases gui_stepE: "gui_step save (a, d) (a', d')"

end
