(* ===== verification/Gui_Properties.thy ===== *)
theory Gui_Properties
  imports Gui_App
begin

text \<open>
  The graphical client at work: its invariant, which every call of the page and every round of
  its goroutines keeps, and what follows for the user.
\<close>

section \<open>Lemmas\<close>

lemma on_state_fields [simp]:
  "g_cfg (on_state f a) = g_cfg a" "g_cli (on_state f a) = g_cli a" "g_stop (on_state f a) = g_stop a"
  "g_next (on_state f a) = g_next a" "g_closed (on_state f a) = g_closed a" "g_running (on_state f a) = g_running a"
  "g_returned (on_state f a) = g_returned a" "g_npc (on_state f a) = g_npc a" "g_state (on_state f a) = f (g_state a)"
  by (simp_all add: on_state_def)

lemma logEvent_fields [simp]:
  "g_cfg (logEvent ts m a) = g_cfg a" "g_cli (logEvent ts m a) = g_cli a" "g_stop (logEvent ts m a) = g_stop a"
  "g_next (logEvent ts m a) = g_next a" "g_closed (logEvent ts m a) = g_closed a" "g_running (logEvent ts m a) = g_running a"
  "g_returned (logEvent ts m a) = g_returned a" "g_npc (logEvent ts m a) = g_npc a"
  "st_status (g_state (logEvent ts m a)) = st_status (g_state a)" "st_ip (g_state (logEvent ts m a)) = st_ip (g_state a)"
  "st_transport (g_state (logEvent ts m a)) = st_transport (g_state a)"
  "st_notice (g_state (logEvent ts m a)) = st_notice (g_state a)"
  "st_pushed (g_state (logEvent ts m a)) = st_pushed (g_state a)"
  "st_lease (g_state (logEvent ts m a)) = st_lease (g_state a)"
  "length (st_logs (g_state (logEvent ts m a))) \<le> 100"
  by (simp_all add: logEvent_def Let_def)

lemma setStatus_fields [simp]:
  "g_cfg (setStatus st m a) = g_cfg a" "g_cli (setStatus st m a) = g_cli a" "g_stop (setStatus st m a) = g_stop a"
  "g_next (setStatus st m a) = g_next a" "g_closed (setStatus st m a) = g_closed a" "g_running (setStatus st m a) = g_running a"
  "g_returned (setStatus st m a) = g_returned a" "g_npc (setStatus st m a) = g_npc a"
  "st_status (g_state (setStatus st m a)) = st" "st_logs (g_state (setStatus st m a)) = st_logs (g_state a)"
  by (simp_all add: setStatus_def Let_def)

lemma npc_fields [simp]:
  "g_cfg (npc_start s k a) = g_cfg a" "g_cli (npc_start s k a) = g_cli a" "g_stop (npc_start s k a) = g_stop a"
  "g_next (npc_start s k a) = g_next a" "g_closed (npc_start s k a) = g_closed a" "g_running (npc_start s k a) = g_running a"
  "g_returned (npc_start s k a) = g_returned a" "g_state (npc_start s k a) = g_state a"
  "g_cfg (npc_stop a) = g_cfg a" "g_cli (npc_stop a) = g_cli a" "g_stop (npc_stop a) = g_stop a"
  "g_next (npc_stop a) = g_next a" "g_closed (npc_stop a) = g_closed a" "g_running (npc_stop a) = g_running a"
  "g_returned (npc_stop a) = g_returned a" "g_state (npc_stop a) = g_state a" "g_npc (npc_stop a) = None"
  by (simp_all add: npc_start_def npc_stop_def Let_def split: sum.split)

lemma fetchTunnels_fields [simp]:
  "g_cfg (fetchTunnels get a) = g_cfg a" "g_cli (fetchTunnels get a) = g_cli a" "g_stop (fetchTunnels get a) = g_stop a"
  "g_next (fetchTunnels get a) = g_next a" "g_closed (fetchTunnels get a) = g_closed a" "g_running (fetchTunnels get a) = g_running a"
  "g_returned (fetchTunnels get a) = g_returned a"
  "st_status (g_state (fetchTunnels get a)) = st_status (g_state a)" "st_logs (g_state (fetchTunnels get a)) = st_logs (g_state a)"
  by (simp_all add: fetchTunnels_def split: option.split bool.split prod.split)

lemma sync_fields [simp]:
  "g_cfg (syncFromClient ts get c a) = g_cfg a" "g_cli (syncFromClient ts get c a) = g_cli a"
  "g_stop (syncFromClient ts get c a) = g_stop a" "g_next (syncFromClient ts get c a) = g_next a"
  "g_closed (syncFromClient ts get c a) = g_closed a" "g_running (syncFromClient ts get c a) = g_running a"
  "g_returned (syncFromClient ts get c a) = g_returned a"
  by (simp_all add: syncFromClient_def Let_def)

lemma sync_status:
  "st_status (g_state (syncFromClient ts get c a)) = (if SelfVIP c = 0 then st_status (g_state a) else ''connected'')"
  by (simp add: syncFromClient_def Let_def)

lemma sync_logs: "length (st_logs (g_state a)) \<le> 100 \<Longrightarrow> length (st_logs (g_state (syncFromClient ts get c a))) \<le> 100"
  by (simp add: syncFromClient_def Let_def)

text \<open>At rest: no client, no goroutine, nothing left of the last connection.\<close>

definition at_rest :: "gui_app \<Rightarrow> bool" where
  "at_rest a \<longleftrightarrow> g_cli a = None \<and> g_running a = [] \<and> g_npc a = None \<and> st_ip (g_state a) = []
     \<and> st_transport (g_state a) = [] \<and> st_notice (g_state a) = [] \<and> st_pushed (g_state a) = None
     \<and> st_lease (g_state a) = 0"

definition numbers_ok :: "gui_app \<Rightarrow> bool" where
  "numbers_ok a \<longleftrightarrow> (\<forall>n \<in> set (g_closed a) \<union> set (g_returned a) \<union> set_option (g_stop a). n < g_next a)
     \<and> (case g_cli a of None \<Rightarrow> g_running a = [] \<and> g_npc a = None | Some n \<Rightarrow> g_running a = [n] \<and> g_stop a = Some n)"

definition status_ok :: "gui_app \<Rightarrow> bool" where
  "status_ok a \<longleftrightarrow> length (st_logs (g_state a)) \<le> 100
     \<and> st_status (g_state a) \<in> {''disconnected'', ''connecting'', ''connected'', ''error''}
     \<and> (st_status (g_state a) = ''disconnected'' \<longrightarrow> at_rest a)"

lemma setStatus_disconnected:
  "g_cli a = None \<Longrightarrow> g_running a = [] \<Longrightarrow> g_npc a = None \<Longrightarrow> at_rest (setStatus ''disconnected'' m a)"
  by (simp add: at_rest_def) (simp add: setStatus_def Let_def)

lemma at_rest_logEvent [simp]: "at_rest (logEvent ts m a) = at_rest a"
  by (simp add: at_rest_def)

lemma at_rest_cfg [simp]: "at_rest (a\<lparr>g_cfg := c\<rparr>) = at_rest a"
  by (simp add: at_rest_def)

lemma numbers_ok_frame:
  "g_closed b = g_closed a \<Longrightarrow> g_returned b = g_returned a \<Longrightarrow> g_stop b = g_stop a \<Longrightarrow> g_next b = g_next a \<Longrightarrow>
   g_cli b = g_cli a \<Longrightarrow> g_running b = g_running a \<Longrightarrow> g_npc b = g_npc a \<Longrightarrow> numbers_ok b = numbers_ok a"
  by (simp add: numbers_ok_def split: option.split)

lemma status_ok_logEvent: "status_ok a \<Longrightarrow> status_ok (logEvent ts m a)"
  by (simp add: status_ok_def)

lemma status_ok_cfg [simp]: "status_ok (a\<lparr>g_cfg := c\<rparr>) = status_ok a"
  by (simp add: status_ok_def)

lemma numbers_ok_cfg [simp]: "numbers_ok (a\<lparr>g_cfg := c\<rparr>) = numbers_ok a"
  by (rule numbers_ok_frame) simp_all

lemma numbers_ok_logEvent [simp]: "numbers_ok (logEvent ts m a) = numbers_ok a"
  by (rule numbers_ok_frame) simp_all

lemma numbers_ok_setStatus [simp]: "numbers_ok (setStatus st m a) = numbers_ok a"
  by (rule numbers_ok_frame) simp_all

lemma status_ok_setStatus:
  "st \<in> {''connecting'', ''connected'', ''error''} \<Longrightarrow> status_ok a \<Longrightarrow> status_ok (setStatus st m a)"
  by (auto simp: status_ok_def)

definition gui_ok :: "gui_app \<Rightarrow> bool" where "gui_ok a \<longleftrightarrow> numbers_ok a \<and> status_ok a"

lemma gui_ok_cfg [simp]: "gui_ok (a\<lparr>g_cfg := c\<rparr>) = gui_ok a"
  by (simp add: gui_ok_def)

lemma gui_ok_logEvent: "gui_ok a \<Longrightarrow> gui_ok (logEvent ts m a)"
  by (simp add: gui_ok_def status_ok_logEvent)

lemma gui_ok_setStatus: "gui_ok a \<Longrightarrow> st \<in> {''connecting'', ''connected'', ''error''} \<Longrightarrow> gui_ok (setStatus st m a)"
  by (simp add: gui_ok_def status_ok_setStatus)

lemma gui_ok_New: "gui_ok (gui_New host loaded)"
  by (simp add: gui_ok_def gui_New_def numbers_ok_def status_ok_def at_rest_def)

lemma gui_ok_SaveConfig: "gui_ok a \<Longrightarrow> SaveConfig save ts payload d a = (r, d', a') \<Longrightarrow> gui_ok a'"
  by (auto simp: SaveConfig_def Let_def case_prod_beta gui_ok_logEvent split: option.splits if_splits)

lemma gui_ok_SetAutoStart: "gui_ok a \<Longrightarrow> SetAutoStart save ts se on d a = (r, d', a') \<Longrightarrow> gui_ok a'"
  by (auto simp: SetAutoStart_def Let_def case_prod_beta gui_ok_logEvent split: option.splits if_splits)

lemma gui_ok_OnCredential: "gui_ok a \<Longrightarrow> OnCredential save i k nk d a = (e, d', a') \<Longrightarrow> gui_ok a'"
  by (auto simp: OnCredential_def Let_def case_prod_beta)

lemma gui_ok_ClearLogs: "gui_ok a \<Longrightarrow> ClearLogs a = (r, a') \<Longrightarrow> gui_ok a'"
  by (auto simp: ClearLogs_def gui_ok_def status_ok_def at_rest_def numbers_ok_def split: option.split)

lemma gui_ok_Connect:
  assumes "gui_ok a" and "Connect ts a = (r, c, a')" shows "gui_ok a'"
proof (cases "g_cli a")
  case (Some n)
  then show ?thesis using assms by (simp add: Connect_def)
next
  case None
  show ?thesis
  proof (cases "config_Validate (g_cfg a)")
    case None
    have "gui_ok (a\<lparr>g_cli := Some (g_next a), g_stop := Some (g_next a), g_next := Suc (g_next a),
        g_running := g_next a # g_running a, g_state := (g_state a)\<lparr>st_status := ''connecting'',
        st_message := text_connecting_now, st_ip := [], st_transport := [], st_latency := 0\<rparr>\<rparr>)"
      using assms(1) \<open>g_cli a = None\<close>
      by (auto simp: gui_ok_def numbers_ok_def status_ok_def less_Suc_eq)
    then show ?thesis
      using assms(2) None \<open>g_cli a = None\<close> by (auto simp: Connect_def Let_def intro: gui_ok_logEvent)
  next
    case (Some e)
    then show ?thesis
      using assms \<open>g_cli a = None\<close> by (auto simp: Connect_def intro!: gui_ok_logEvent gui_ok_setStatus)
  qed
qed

lemma gui_ok_Disconnect:
  assumes "gui_ok a" and "Disconnect a = (r, a')" shows "gui_ok a'"
proof (cases "g_stop a")
  case None
  then show ?thesis using assms by (simp add: Disconnect_def)
next
  case (Some n)
  have ok: "gui_ok (setStatus ''connecting'' text_disconnecting a)" (is "gui_ok ?b")
    using assms(1) by (simp add: gui_ok_setStatus)
  have "n < g_next ?b" using assms(1) Some by (simp add: gui_ok_def numbers_ok_def)
  then have "gui_ok (?b\<lparr>g_closed := n # g_closed ?b\<rparr>)"
    using ok by (auto simp: gui_ok_def numbers_ok_def status_ok_def at_rest_def split: option.splits)
  then show ?thesis using assms(2) Some ok by (auto simp: Disconnect_def Let_def split: if_splits)
qed

lemma gui_ok_run_returned: "gui_ok a \<Longrightarrow> n \<in> set (g_running a) \<Longrightarrow> gui_ok (run_returned ts n err a)"
proof -
  assume ok: "gui_ok a" and n: "n \<in> set (g_running a)"
  let ?b = "case err of None \<Rightarrow> a | Some e \<Rightarrow> logEvent ts (text_connect_failed @ e) (setStatus ''error'' e a)"
  have b: "gui_ok ?b" "n \<in> set (g_running ?b)"
    using ok n by (auto intro!: gui_ok_logEvent gui_ok_setStatus split: option.split)
  then have "n < g_next ?b" by (auto simp: gui_ok_def numbers_ok_def split: option.splits)
  then have "gui_ok (?b\<lparr>g_returned := n # g_returned ?b\<rparr>)"
    using b(1) by (auto simp: gui_ok_def numbers_ok_def status_ok_def at_rest_def split: option.splits)
  then show ?thesis by (simp add: run_returned_def Let_def)
qed

lemma running_current: "gui_ok a \<Longrightarrow> n \<in> set (g_running a) \<Longrightarrow> g_cli a = Some n \<and> g_running a = [n] \<and> g_stop a = Some n"
  by (auto simp: gui_ok_def numbers_ok_def split: option.splits)

lemma runner_ended:
  assumes "gui_ok a" and "n \<in> set (g_running a)"
  shows "gui_ok (runner_stopped ts n a)" and "gui_ok (runner_done n a)"
    and "st_status (g_state (runner_stopped ts n a)) = ''disconnected''"
proof -
  note cur = running_current [OF assms]
  let ?b = "(npc_stop a)\<lparr>g_cli := None, g_running := []\<rparr>"
  have b: "numbers_ok ?b" using assms(1) by (auto simp: gui_ok_def numbers_ok_def split: option.splits)
  have rest: "at_rest (setStatus ''disconnected'' m ?b)" for m by (rule setStatus_disconnected) simp_all
  have logs: "length (st_logs (g_state a)) \<le> 100" using assms(1) by (simp add: gui_ok_def status_ok_def)
  have dis: "gui_ok (setStatus ''disconnected'' m ?b)" for m
    using b rest logs by (simp add: gui_ok_def status_ok_def)
  show "gui_ok (runner_stopped ts n a)"
    using dis cur by (simp add: runner_stopped_def Let_def gui_ok_logEvent)
  show "st_status (g_state (runner_stopped ts n a)) = ''disconnected''"
    by (simp add: runner_stopped_def Let_def)
  show "gui_ok (runner_done n a)"
  proof (cases "st_status (g_state a) = ''connected'' \<or> st_status (g_state a) = ''connecting''")
    case True
    have "runner_done n a = setStatus ''disconnected'' text_not_connected ?b"
      using True cur by (auto simp: runner_done_def Let_def setStatus_def on_state_def)
    then show ?thesis using dis by simp
  next
    case False
    have "runner_done n a = ?b"
      using False cur by (auto simp: runner_done_def Let_def)
    moreover have "status_ok ?b"
      using False assms(1) by (auto simp: gui_ok_def status_ok_def at_rest_def)
    ultimately show ?thesis using b by (simp add: gui_ok_def)
  qed
qed

lemma gui_ok_sync:
  assumes "gui_ok a" and "n \<in> set (g_running a)" shows "gui_ok (syncFromClient ts get c a)"
proof -
  note cur = running_current [OF assms]
  have "st_status (g_state a) \<noteq> ''disconnected''"
    using assms(1) cur by (auto simp: gui_ok_def status_ok_def at_rest_def)
  then have "status_ok (syncFromClient ts get c a)"
    using assms(1) by (simp add: gui_ok_def status_ok_def sync_status sync_logs)
  moreover have "numbers_ok (syncFromClient ts get c a)"
    using assms(1) cur by (simp add: gui_ok_def numbers_ok_def)
  ultimately show ?thesis by (simp add: gui_ok_def)
qed

lemma gui_ok_step: "gui_ok a \<Longrightarrow> gui_step save (a, d) (a', d') \<Longrightarrow> gui_ok a'"
  by (erule gui_stepE)
    (auto intro: gui_ok_SaveConfig gui_ok_Connect gui_ok_OnCredential gui_ok_Disconnect gui_ok_SetAutoStart
      gui_ok_ClearLogs gui_ok_run_returned runner_ended gui_ok_sync)

lemma gui_reachable_ok: "gui_reachable save a d \<Longrightarrow> gui_ok a"
  by (induction rule: gui_reachable.induct) (auto intro: gui_ok_New gui_ok_step)


section \<open>Properties\<close>

text \<open>The application runs one client at a time and tells the truth when it is idle. In every
  state it can reach, whatever the page calls and however the goroutines are interleaved, at most
  one \<^verbatim>\<open>runClient\<close> goroutine runs, exactly when there is a current client; the
  status is one of the four the page knows; the log has at most 100 lines; and a status of
  ``disconnected'' means that no client and no tunnel client is left and no address, notice,
  pushed setting or lease of the last connection is shown.\<close>

theorem one_client_at_a_time:
  assumes "gui_reachable save a d"
  shows "length (g_running a) \<le> 1 \<and> (g_cli a = None \<longleftrightarrow> g_running a = [])
    \<and> st_status (g_state a) \<in> {''disconnected'', ''connecting'', ''connected'', ''error''}
    \<and> length (st_logs (g_state a)) \<le> 100
    \<and> (st_status (g_state a) = ''disconnected'' \<longrightarrow> at_rest a)"
  using gui_reachable_ok [OF assms] by (auto simp: gui_ok_def numbers_ok_def status_ok_def split: option.splits)

definition idle_app :: gui_app where
  "idle_app = gui_New ''pc'' (None, Default ''pc'')"

definition no_save :: "config \<Rightarrow> unit \<Rightarrow> string option \<times> unit" where "no_save c d = (None, ())"

theorem one_client_at_a_time_witness:
  "\<exists>a. gui_reachable no_save a () \<and> g_running a = [0] \<and> st_status (g_state a) = ''connecting''"
proof -
  have start: "gui_reachable no_save idle_app ()" unfolding idle_app_def by (rule gui_reachable.start)
  obtain r c a where c: "Connect ''10:00:00'' idle_app = (r, c, a)" using prod_cases3 by blast
  have "gui_reachable no_save a ()" by (rule gui_reachable.step [OF start gui_step.connect [OF c]])
  moreover have "g_running (snd (snd (Connect ''10:00:00'' idle_app))) = [0]"
    "st_status (g_state (snd (snd (Connect ''10:00:00'' idle_app)))) = ''connecting''"
    by code_simp+
  ultimately show ?thesis using one_client_at_a_time [of no_save a "()"] c by auto
qed

text \<open>Disconnecting ends the connection and leaves the application ready for the next one. From
  any reachable state with a client, once the page asks to disconnect and \<^verbatim>\<open>Run\<close>
  has returned, the goroutine's stop branch is enabled; it leaves the application disconnected
  and at rest, and then \<^verbatim>\<open>Connect\<close> is answered with success and makes a client
  from the current configuration under a number not used before.\<close>

theorem disconnect_then_connect:
  fixes ts :: string
  assumes "gui_reachable save a d" and "g_cli a = Some n" and "Disconnect a = (r, a1)"
    and "n \<notin> set (g_returned a)" and "TrimSpace (cfg_name (g_cfg a)) \<noteq> []"
  defines "a2 \<equiv> run_returned ts n None a1"
  shows "r = reply_ok \<and> gui_step save (a1, d) (a2, d)
    \<and> gui_step save (a2, d) (runner_stopped ts n a2, d)
    \<and> st_status (g_state (runner_stopped ts n a2)) = ''disconnected'' \<and> at_rest (runner_stopped ts n a2)
    \<and> (\<exists>a3. Connect ts (runner_stopped ts n a2) = (reply_ok, Some (NewClient (client_config_of (g_cfg a))), a3)
          \<and> g_cli a3 = Some (g_next a) \<and> n < g_next a \<and> g_running a3 = [g_next a])"
proof -
  note ok = gui_reachable_ok [OF assms(1)]
  have valid: "config_Validate (g_cfg a) = None" using assms(5) Validate_checks_name by blast
  have cur: "g_running a = [n]" "g_stop a = Some n" "n < g_next a"
    using ok assms(2) by (auto simp: gui_ok_def numbers_ok_def)
  have a1: "r = reply_ok" "g_running a1 = [n]" "g_cfg a1 = g_cfg a" "g_next a1 = g_next a" "g_cli a1 = Some n"
    "n \<in> set (g_closed a1)" "g_returned a1 = g_returned a"
    using assms(2,3) cur by (auto simp: Disconnect_def Let_def split: if_splits)
  have ok1: "gui_ok a1" using ok assms(3) by (rule gui_ok_Disconnect)
  have a2: "g_running a2 = [n]" "g_cfg a2 = g_cfg a" "g_next a2 = g_next a" "n \<in> set (g_closed a2)" "n \<in> set (g_returned a2)"
    using a1 by (simp_all add: a2_def run_returned_def)
  have ok2: "gui_ok a2" using ok1 a1(2) unfolding a2_def by (intro gui_ok_run_returned) simp_all
  let ?a3 = "runner_stopped ts n a2"
  have run2: "n \<in> set (g_running a2)" using a2(1) by simp
  have "at_rest ?a3"
    using runner_ended(1,3) [OF ok2 run2, of ts] by (simp add: gui_ok_def status_ok_def)
  moreover have "gui_step save (a1, d) (a2, d)"
    unfolding a2_def using a1(2,7) assms(4) by (intro gui_step.run_ends) simp_all
  moreover have "gui_step save (a2, d) (?a3, d)"
    using a2 run2 by (intro gui_step.stopped) simp_all
  moreover have "g_cfg ?a3 = g_cfg a" "g_next ?a3 = g_next a" "g_running ?a3 = []" "g_cli ?a3 = None"
    using a2 by (simp_all add: runner_stopped_def Let_def)
  moreover from this have "\<exists>a4. Connect ts ?a3 = (reply_ok, Some (NewClient (client_config_of (g_cfg a))), a4)
          \<and> g_cli a4 = Some (g_next a) \<and> g_running a4 = [g_next a]"
    using valid by (simp add: Connect_def Let_def)
  ultimately show ?thesis using a1(1) cur(3) runner_ended(3) [OF ok2 run2, of ts] by simp
qed

theorem disconnect_then_connect_witness:
  "\<exists>a r a1. gui_reachable no_save a () \<and> Disconnect a = (r, a1)
     \<and> at_rest (runner_stopped ''10:00:01'' 0 (run_returned ''10:00:01'' 0 None a1))"
proof -
  have start: "gui_reachable no_save idle_app ()" unfolding idle_app_def by (rule gui_reachable.start)
  obtain r c a where c: "Connect ''10:00:00'' idle_app = (r, c, a)" using prod_cases3 by blast
  have reach: "gui_reachable no_save a ()" by (rule gui_reachable.step [OF start gui_step.connect [OF c]])
  have "g_cli (snd (snd (Connect ''10:00:00'' idle_app))) = Some 0"
    "g_returned (snd (snd (Connect ''10:00:00'' idle_app))) = []"
    "TrimSpace (cfg_name (g_cfg (snd (snd (Connect ''10:00:00'' idle_app))))) \<noteq> []"
    by code_simp+
  then have a: "g_cli a = Some 0" "0 \<notin> set (g_returned a)" "TrimSpace (cfg_name (g_cfg a)) \<noteq> []" using c by simp_all
  obtain r1 a1 where d: "Disconnect a = (r1, a1)" by fastforce
  show ?thesis using disconnect_then_connect [OF reach a(1) d a(2,3), of "''10:00:01''"] reach d by blast
qed

text \<open>What the page's settings form submits: no credential fields.\<close>

definition form_members :: "string \<Rightarrow> string \<Rightarrow> bool \<Rightarrow> bool \<Rightarrow> bool \<Rightarrow> (string \<times> json) list" where
  "form_members server name no_punch auto_connect auto_start =
     [(''server'', JStr server), (''name'', JStr name), (''no_punch'', JBool no_punch),
      (''auto_connect'', JBool auto_connect), (''auto_start'', JBool auto_start)]"

text \<open>Saving the settings form forgets the device's credential. The page submits server, name
  and the three switches; the handler fills in a missing name from the current configuration but
  nothing else, so the configuration it stores has no credential: the next client registers
  again and the tunnel list is no longer fetched.\<close>

theorem settings_form_drops_credential:
  assumes "parse_json payload = Some (JObj (form_members server name np ac au))"
    and "SaveConfig save ts payload d a = (r, d', a')" and "r_ok r"
  shows "cfg_device_id (g_cfg a') = [] \<and> cfg_device_key (g_cfg a') = [] \<and> cfg_network_key (g_cfg a') = []
    \<and> cfg_server (g_cfg a') = server \<and> cfg_name (g_cfg a') = (if name = [] then cfg_name (g_cfg a) else name)
    \<and> cc_device_key (client_config_of (g_cfg a')) = [] \<and> tunnels_url (g_cfg a') = None"
proof -
  have form: "config_of_json zero_config (JObj (form_members server name np ac au))
      = Some (zero_config\<lparr>cfg_server := server, cfg_name := name, cfg_no_punch := np, cfg_auto_connect := ac,
          cfg_auto_start := au\<rparr>)"
    by (simp add: config_of_json_def form_members_def js_struct_def config_tags_def find_field_def js_bool_def)
  show ?thesis
    using assms form
    by (auto simp: SaveConfig_def Let_def case_prod_beta reply_fail_def zero_config_def client_config_of_def
        tunnels_url_def split: option.splits if_splits)
qed

definition form_payload :: string where
  "form_payload = print_json (JObj (form_members ''lan.sulink.ltd'' ''pc'' False True False))"

definition registered_app :: gui_app where
  "registered_app = idle_app\<lparr>g_cfg := (g_cfg idle_app)\<lparr>cfg_device_id := ''ID'', cfg_device_key := ''aa'',
     cfg_network_key := ''bb''\<rparr>\<rparr>"

theorem settings_form_drops_credential_witness:
  "\<exists>r d' a'. SaveConfig no_save ''10:00:00'' form_payload () registered_app = (r, d', a') \<and> r = reply_ok
     \<and> tunnels_url (g_cfg registered_app) \<noteq> None \<and> tunnels_url (g_cfg a') = None"
proof -
  obtain r d' a' where s: "SaveConfig no_save ''10:00:00'' form_payload () registered_app = (r, d', a')"
    using prod_cases3 by blast
  have parse: "parse_json form_payload = Some (JObj (form_members ''lan.sulink.ltd'' ''pc'' False True False))"
    unfolding form_payload_def by (rule parse_json_print) (simp add: form_members_def tag_ok byte_in_def)
  have "fst (SaveConfig no_save ''10:00:00'' form_payload () registered_app) = reply_ok" by code_simp
  then have r: "r = reply_ok" using s by simp
  moreover have "tunnels_url (g_cfg registered_app) \<noteq> None" by code_simp
  moreover have "tunnels_url (g_cfg a') = None"
    using settings_form_drops_credential [OF parse s] r by (simp add: reply_ok_def)
  ultimately show ?thesis using s by blast
qed

text \<open>The application shows ``connected'' while the connection is gone. The client keeps its
  virtual address when a session ends, and through every attempt that does not reach the server;
  so as long as the server stays away each round of the ticker still sets the status to
  ``connected'' with the old address, whatever the status was.\<close>

theorem stale_connection_shown:
  assumes "SelfVIP c \<noteq> 0" and "\<not> e_dial env" and "run_round env (teardown (endSession c)) = Some (decision, out, c')"
  shows "decision = RetryAfter (2 * Second) \<and> SelfVIP c' = SelfVIP c
    \<and> st_status (g_state (syncFromClient ts get c' a)) = ''connected''
    \<and> st_ip (g_state (syncFromClient ts get c' a)) = IP4String (SelfVIP c)"
proof -
  have c': "decision = RetryAfter (2 * Second)" "SelfVIP c' = SelfVIP c"
    using assms(2,3) by (auto simp: run_round_def connectOnce_def fatal_error_def teardown_def endSession_def SelfVIP_def)
  moreover have "st_ip (g_state (syncFromClient ts get c' a)) = IP4String (SelfVIP c')"
    using assms(1) c'(2) by (simp add: syncFromClient_def Let_def setStatus_def)
  ultimately show ?thesis using assms(1) by (simp add: sync_status)
qed

definition unreachable_env :: connect_env where
  "unreachable_env = \<lparr>e_dial = False, e_input = [], e_written = False, e_listen = False, e_lookup_host = (\<lambda>_. []),
     e_lookup_ip = (\<lambda>_. None), e_tun = False, e_configure = (\<lambda>_. False), e_rules_asked = False, e_probe_nonce = [],
     e_probe_sent = False\<rparr>"

definition once_connected :: client where
  "once_connected = (NewClient (client_config_of (Default ''pc'')))\<lparr>cl_self := 1\<rparr>"

theorem stale_connection_shown_witness:
  "\<exists>decision out c'. run_round unreachable_env (teardown (endSession once_connected)) = Some (decision, out, c')
     \<and> st_status (g_state (syncFromClient ''10:00:00'' (\<lambda>_. None) c' idle_app)) = ''connected''"
proof -
  have "run_round unreachable_env (teardown (endSession once_connected)) \<noteq> None"
    by (simp add: run_round_def connectOnce_def unreachable_env_def)
  then obtain decision out c' where r: "run_round unreachable_env (teardown (endSession once_connected)) = Some (decision, out, c')"
    using prod_cases3 by (metis option.exhaust)
  have "SelfVIP once_connected \<noteq> 0" "\<not> e_dial unreachable_env"
    by (simp_all add: SelfVIP_def once_connected_def unreachable_env_def)
  from stale_connection_shown [OF this r] r show ?thesis by blast
qed

text \<open>After a connection that ended by itself nobody listens on the stop channel that is kept:
  disconnecting again sets the status to ``connecting'' and no goroutine is left to set it back.\<close>

lemma late_disconnect_sticks:
  assumes "g_stop a = Some n" and "g_running a = []" and "Disconnect a = (r, a')"
  shows "st_status (g_state a') = ''connecting'' \<and> g_running a' = []"
  using assms by (auto simp: Disconnect_def Let_def split: if_splits)

end
