(* ===== verification/Admin.thy ===== *)
theory Admin
  imports Server_Control Store
begin

text \<open>
  The management page's interface, \<^verbatim>\<open>internal/admin/admin.go\<close>: requests and
  responses, the token check, and the handlers over the operations of \<^verbatim>\<open>Control\<close>.
  That Go interface is a record of functions on a state; its laws are the locale
  \<open>management\<close>, which \<open>Admin_Properties\<close> interprets on the server. The page itself, the texts of
  errors of the libraries and the iteration order of a submitted map are arguments; request paths
  are in the clean form that \<^verbatim>\<open>http.ServeMux\<close> passes on.
\<close>

section \<open>Texts\<close>

definition text_wrong_token :: string where
  "text_wrong_token =
     [CHR 0xE4, CHR 0xBB, CHR 0xA4, CHR 0xE7, CHR 0x89, CHR 0x8C, CHR 0xE4, CHR 0xB8, CHR 0x8D,
      CHR 0xE6, CHR 0xAD, CHR 0xA3, CHR 0xE7, CHR 0xA1, CHR 0xAE]"

definition text_nothing_to_push :: string where
  "text_nothing_to_push =
     [CHR 0xE6, CHR 0xB2, CHR 0xA1, CHR 0xE6, CHR 0x9C, CHR 0x89, CHR 0xE8, CHR 0xA6, CHR 0x81,
      CHR 0xE4, CHR 0xB8, CHR 0x8B, CHR 0xE5, CHR 0x8F, CHR 0x91, CHR 0xE7, CHR 0x9A, CHR 0x84,
      CHR 0xE9, CHR 0x85, CHR 0x8D, CHR 0xE7, CHR 0xBD, CHR 0xAE, CHR 0xE9, CHR 0xA1, CHR 0xB9]"

definition text_no_hwid :: string where
  "text_no_hwid =
     [CHR 0xE7, CHR 0xBC, CHR 0xBA, CHR 0xE5, CHR 0xB0, CHR 0x91, CHR 0xE8, CHR 0xAE, CHR 0xBE,
      CHR 0xE5, CHR 0xA4, CHR 0x87, CHR 0xE6, CHR 0xA0, CHR 0x87, CHR 0xE8, CHR 0xAF, CHR 0x86]"

definition text_not_registered :: string where
  "text_not_registered =
     [CHR 0xE8, CHR 0xAF, CHR 0xA5, CHR 0xE8, CHR 0xAE, CHR 0xBE, CHR 0xE5, CHR 0xA4, CHR 0x87,
      CHR 0xE6, CHR 0x9C, CHR 0xAA, CHR 0xE6, CHR 0xB3, CHR 0xA8, CHR 0xE5, CHR 0x86, CHR 0x8C,
      CHR 0xE6, CHR 0x88, CHR 0x96, CHR 0xE5, CHR 0x87, CHR 0xAD, CHR 0xE8, CHR 0xAF, CHR 0x81,
      CHR 0xE4, CHR 0xB8, CHR 0x8D, CHR 0xE5, CHR 0xAD, CHR 0x98, CHR 0xE5, CHR 0x9C, CHR 0xA8]"

definition text_not_blocked :: string where
  "text_not_blocked =
     [CHR 0xE8, CHR 0xAF, CHR 0xA5, CHR 0xE8, CHR 0xAE, CHR 0xBE, CHR 0xE5, CHR 0xA4, CHR 0x87,
      CHR 0xE6, CHR 0x9C, CHR 0xAA, CHR 0xE8, CHR 0xA2, CHR 0xAB, CHR 0xE5, CHR 0xB0, CHR 0x81,
      CHR 0xE7, CHR 0xA6, CHR 0x81]"

definition text_bad_json :: string where
  "text_bad_json =
     [CHR 0xE8, CHR 0xAF, CHR 0xB7, CHR 0xE6, CHR 0xB1, CHR 0x82, CHR 0xE5, CHR 0x86, CHR 0x85,
      CHR 0xE5, CHR 0xAE, CHR 0xB9, CHR 0xE4, CHR 0xB8, CHR 0x8D, CHR 0xE6, CHR 0x98, CHR 0xAF,
      CHR 0xE5, CHR 0x90, CHR 0x88, CHR 0xE6, CHR 0xB3, CHR 0x95, CHR 0xE7, CHR 0x9A, CHR 0x84,
      CHR 0x20, CHR 0x4A, CHR 0x53, CHR 0x4F, CHR 0x4E, CHR 0x3A, CHR 0x20]"

definition text_empty_token :: string where
  "text_empty_token =
     [CHR 0xE7, CHR 0xAE, CHR 0xA1, CHR 0xE7, CHR 0x90, CHR 0x86, CHR 0xE9, CHR 0xA1, CHR 0xB5,
      CHR 0xE4, CHR 0xBB, CHR 0xA4, CHR 0xE7, CHR 0x89, CHR 0x8C, CHR 0xE4, CHR 0xB8, CHR 0x8D,
      CHR 0xE8, CHR 0x83, CHR 0xBD, CHR 0xE4, CHR 0xB8, CHR 0xBA, CHR 0xE7, CHR 0xA9, CHR 0xBA]"

section \<open>Requests and responses\<close>

record request =
  rq_method :: string
  rq_path :: string
  rq_query :: "(string \<times> string) list"
  rq_token :: string
  rq_body :: string

record response =
  rs_status :: nat
  rs_headers :: "(string \<times> string) list"
  rs_body :: string

definition maxBody :: nat where "maxBody = 65536"

definition securityHeaders :: "response \<Rightarrow> response" where
  "securityHeaders r = r\<lparr>rs_headers :=
     [(''X-Content-Type-Options'', ''nosniff''), (''X-Frame-Options'', ''DENY''),
      (''Referrer-Policy'', ''no-referrer''), (''Cache-Control'', ''no-store''),
      (''Content-Security-Policy'',
       ''default-src '' @ [CHR 0x27] @ ''none'' @ [CHR 0x27] @ ''; style-src '' @ [CHR 0x27] @ ''unsafe-inline'' @ [CHR 0x27]
       @ ''; script-src '' @ [CHR 0x27] @ ''unsafe-inline'' @ [CHR 0x27] @ ''; connect-src '' @ [CHR 0x27] @ ''self'' @ [CHR 0x27])]
     @ rs_headers r\<rparr>"

text \<open>\<^verbatim>\<open>json.Encoder\<close> ends a value with a line feed; the keys of a map are sorted.\<close>

definition respond_json :: "nat \<Rightarrow> (string \<times> json) list \<Rightarrow> response" where
  "respond_json code kvs =
     \<lparr>rs_status = code, rs_headers = [(''Content-Type'', ''application/json; charset=utf-8'')],
      rs_body = print_json (JObj (sort_key fst kvs)) @ [CHR 0x0A]\<rparr>"

definition respond_error :: "nat \<Rightarrow> string \<Rightarrow> response" where
  "respond_error code e = respond_json code [(''ok'', JBool False), (''error'', JStr e)]"

definition method_not_allowed :: "string \<Rightarrow> response" where
  "method_not_allowed allow =
     \<lparr>rs_status = 405, rs_headers = (if allow = [] then [] else [(''Allow'', allow)])
        @ [(''Content-Type'', ''text/plain; charset=utf-8'')],
      rs_body = ''method not allowed'' @ [CHR 0x0A]\<rparr>"

text \<open>\<^verbatim>\<open>decodeBody\<close>: the first value of the first 64 KB, decoded into an empty target;
  what follows it is ignored.\<close>

definition decodeBody :: "(json \<Rightarrow> 'a option) \<Rightarrow> string \<Rightarrow> 'a option" where
  "decodeBody of_js body =
     (let s = take maxBody body
      in case parse_value (2 * length s) s of
           None \<Rightarrow> None
         | Some (j, _) \<Rightarrow> of_js j)"

datatype string_field = TheString
datatype bool_field = TheBool
datatype map_field = TheMap

fun set_string :: "string_field \<Rightarrow> json \<Rightarrow> string \<Rightarrow> string option" where
  "set_string TheString j old = js_str j old"

definition decode_string :: "string \<Rightarrow> json \<Rightarrow> string option" where
  "decode_string tag = js_struct [(tag, TheString)] set_string []"

fun set_flag :: "bool_field \<Rightarrow> json \<Rightarrow> bool \<Rightarrow> bool option" where
  "set_flag TheBool (JBool b) old = Some b"
| "set_flag TheBool JNull old = Some old"
| "set_flag TheBool _ old = None"

definition pushReq :: "json \<Rightarrow> settings option" where
  "pushReq = js_struct [(''config'', TheMap)] (\<lambda>_ j old. js_map j old) []"

definition noticeReq :: "json \<Rightarrow> string option" where "noticeReq = decode_string ''text''"

definition nopunchReq :: "json \<Rightarrow> bool option" where
  "nopunchReq = js_struct [(''on'', TheBool)] set_flag False"

datatype set_ip_field = IpHwid | IpVip

fun set_ip_req :: "set_ip_field \<Rightarrow> json \<Rightarrow> string \<times> string \<Rightarrow> (string \<times> string) option" where
  "set_ip_req IpHwid j (h, v) = map_option (\<lambda>x. (x, v)) (js_str j h)"
| "set_ip_req IpVip j (h, v) = map_option (\<lambda>x. (h, x)) (js_str j v)"

definition setIPReq :: "json \<Rightarrow> (string \<times> string) option" where
  "setIPReq = js_struct [(''hwid'', IpHwid), (''vip'', IpVip)] set_ip_req ([], [])"

definition revokeCredReq :: "json \<Rightarrow> string option" where "revokeCredReq = decode_string ''hwid''"
definition unblockReq :: "json \<Rightarrow> string option" where "unblockReq = decode_string ''hwid''"

section \<open>The server's operations\<close>

text \<open>\<^verbatim>\<open>Control\<close>; \<open>c_SetDeviceIP\<close> fails with the text of the error.\<close>

record 's control =
  c_Snapshot :: "'s \<Rightarrow> snapshot"
  c_Push :: "settings \<Rightarrow> 's \<Rightarrow> nat \<times> 's"
  c_SetDeviceForward :: "string \<Rightarrow> string list \<Rightarrow> 's \<Rightarrow> (string + bool) \<times> 's"
  c_SetDeviceIP :: "string \<Rightarrow> string \<Rightarrow> 's \<Rightarrow> (string + bool) \<times> 's"
  c_RevokeDeviceCredential :: "string \<Rightarrow> 's \<Rightarrow> bool \<times> 's"
  c_UnblockDevice :: "string \<Rightarrow> 's \<Rightarrow> bool \<times> 's"

definition string_list_json :: "string list \<Rightarrow> json" where
  "string_list_json xs = (if xs = [] then JNull else JArr (map JStr xs))"

definition device_info_json :: "device_info \<Rightarrow> json" where
  "device_info_json d = JObj
     [(''name'', JStr (di_name d)), (''hwid'', JStr (di_hwid d)), (''vip'', JStr (di_vip d)),
      (''udpAddr'', JStr (di_udp_addr d)), (''onlineSecs'', to_js_int (di_online_secs d))]"

definition lease_info_json :: "lease_info \<Rightarrow> json" where
  "lease_info_json l = JObj
     [(''hwid'', JStr (l_hwid l)), (''name'', JStr (l_name l)), (''vip'', JStr (l_vip l)),
      (''online'', JBool (l_online l)), (''expireAt'', to_js_int (l_expire_at l)),
      (''remainSecs'', to_js_int (l_remain_secs l)), (''forward'', string_list_json (l_forward l)),
      (''registered'', JBool (l_registered l)), (''blocked'', JBool (l_blocked l))]"

definition stats_json :: "server_stats \<Rightarrow> json" where
  "stats_json t = JObj
     [(''pktsRelayed'', to_js_uint (st_pkts t)), (''bytesRelayed'', to_js_uint (st_bytes t)),
      (''pktsFlooded'', to_js_uint (st_flooded t)), (''icmpReplies'', to_js_uint (st_icmp t)),
      (''pktsRejected'', to_js_uint (st_rejected t))]"

definition snapshot_json :: "snapshot \<Rightarrow> json" where
  "snapshot_json s = JObj
     [(''serverVip'', JStr (sn_server_vip s)), (''vnet'', JStr (sn_vnet s)), (''tcpAddr'', JStr (sn_tcp_addr s)),
      (''udpAddr'', JStr (sn_udp_addr s)), (''uptimeSecs'', to_js_int (sn_uptime s)),
      (''devices'', JArr (map device_info_json (sn_devices s))),
      (''leases'', JArr (map lease_info_json (sn_leases s))), (''leaseDays'', to_js_int (sn_lease_days s)),
      (''pushed'', to_js_map (sn_pushed s)), (''stats'', stats_json (sn_stats s))]"

section \<open>Handlers\<close>

definition admin_New :: "string \<Rightarrow> string \<Rightarrow> string + string \<times> string" where
  "admin_New addr token =
     (if TrimSpace token = [] then Inl text_empty_token
      else Inr (if addr = [] then ''127.0.0.1:8080'' else addr, token))"

definition handleIndex :: "string \<Rightarrow> request \<Rightarrow> response" where
  "handleIndex page rq =
     (if rq_path rq \<noteq> ''/'' then
        \<lparr>rs_status = 404, rs_headers = [(''Content-Type'', ''text/plain; charset=utf-8'')],
         rs_body = ''404 page not found'' @ [CHR 0x0A]\<rparr>
      else if rq_method rq \<noteq> ''GET'' then method_not_allowed ''GET''
      else \<lparr>rs_status = 200, rs_headers = [(''Content-Type'', ''text/html; charset=utf-8'')], rs_body = page\<rparr>)"

definition handleState :: "'s control \<Rightarrow> request \<Rightarrow> 's \<Rightarrow> response \<times> 's" where
  "handleState ctl rq s =
     (if rq_method rq \<noteq> ''GET'' then (method_not_allowed ''GET'', s)
      else (respond_json 200 [(''ok'', JBool True), (''state'', snapshot_json (c_Snapshot ctl s))], s))"

text \<open>A handler of a submitted form: the method, then the body, then what it does.\<close>

definition posted :: "(string \<Rightarrow> string) \<Rightarrow> (json \<Rightarrow> 'a option) \<Rightarrow> ('a \<Rightarrow> 's \<Rightarrow> response \<times> 's) \<Rightarrow> request \<Rightarrow> 's
    \<Rightarrow> response \<times> 's" where
  "posted json_error of_js act rq s =
     (if rq_method rq \<noteq> ''POST'' then (method_not_allowed ''POST'', s)
      else case decodeBody of_js (rq_body rq) of
             None \<Rightarrow> (respond_error 400 (text_bad_json @ json_error (rq_body rq)), s)
           | Some req \<Rightarrow> act req s)"

definition handlePush :: "(string \<Rightarrow> string) \<Rightarrow> (settings \<Rightarrow> settings) \<Rightarrow> 's control \<Rightarrow> request \<Rightarrow> 's \<Rightarrow> response \<times> 's" where
  "handlePush json_error order ctl = posted json_error pushReq (\<lambda>cfg s.
     if length cfg = 0 then (respond_error 400 text_nothing_to_push, s)
     else let (n, s1) = c_Push ctl (order cfg) s
          in (respond_json 200 [(''ok'', JBool True), (''delivered'', to_js_int (int n))], s1))"

definition handleNotice :: "(string \<Rightarrow> string) \<Rightarrow> 's control \<Rightarrow> request \<Rightarrow> 's \<Rightarrow> response \<times> 's" where
  "handleNotice json_error ctl = posted json_error noticeReq (\<lambda>req s.
     let text = TrimSpace req; (n, s1) = c_Push ctl [(''notice'', text)] s
     in (respond_json 200 [(''ok'', JBool True), (''delivered'', to_js_int (int n)), (''deleted'', JBool (text = []))], s1))"

definition handleNoPunch :: "(string \<Rightarrow> string) \<Rightarrow> 's control \<Rightarrow> request \<Rightarrow> 's \<Rightarrow> response \<times> 's" where
  "handleNoPunch json_error ctl = posted json_error nopunchReq (\<lambda>on s.
     let val = (if on then ''1'' else []); (n, s1) = c_Push ctl [(''no_punch'', val)] s
     in (respond_json 200 [(''ok'', JBool True), (''delivered'', to_js_int (int n))], s1))"

definition handleSetIP :: "(string \<Rightarrow> string) \<Rightarrow> 's control \<Rightarrow> request \<Rightarrow> 's \<Rightarrow> response \<times> 's" where
  "handleSetIP json_error ctl = posted json_error setIPReq (\<lambda>(hwid, vip) s.
     case c_SetDeviceIP ctl (TrimSpace hwid) (TrimSpace vip) s of
       (Inl e, s1) \<Rightarrow> (respond_error 400 e, s1)
     | (Inr reconnect, s1) \<Rightarrow> (respond_json 200 [(''ok'', JBool True), (''reconnect'', JBool reconnect)], s1))"

text \<open>The two handlers of a device named by its identifier.\<close>

definition on_device :: "string \<Rightarrow> (string \<Rightarrow> 's \<Rightarrow> bool \<times> 's) \<Rightarrow> string \<Rightarrow> 's \<Rightarrow> response \<times> 's" where
  "on_device missing act hwid s =
     (if TrimSpace hwid = [] then (respond_error 400 text_no_hwid, s)
      else case act (TrimSpace hwid) s of
             (False, s1) \<Rightarrow> (respond_error 404 missing, s1)
           | (True, s1) \<Rightarrow> (respond_json 200 [(''ok'', JBool True)], s1))"

definition handleRevokeCred :: "(string \<Rightarrow> string) \<Rightarrow> 's control \<Rightarrow> request \<Rightarrow> 's \<Rightarrow> response \<times> 's" where
  "handleRevokeCred json_error ctl =
     posted json_error revokeCredReq (on_device text_not_registered (c_RevokeDeviceCredential ctl))"

definition handleUnblock :: "(string \<Rightarrow> string) \<Rightarrow> 's control \<Rightarrow> request \<Rightarrow> 's \<Rightarrow> response \<times> 's" where
  "handleUnblock json_error ctl =
     posted json_error unblockReq (on_device text_not_blocked (c_UnblockDevice ctl))"

section \<open>Routes\<close>

datatype endpoint =
  Index | State | Push_All | Set_Notice | Set_NoPunch | Set_IP | Revoke_Cred | Unblock_Device
| Nps_Clients | Nps_Client_Delete | Nps_Tunnels | Nps_Tunnel_Delete | My_Tunnels

definition routes :: "(string \<times> endpoint) list" where
  "routes =
     [(''/api/state'', State), (''/api/push'', Push_All), (''/api/notice'', Set_Notice),
      (''/api/nopunch'', Set_NoPunch), (''/api/ip'', Set_IP), (''/api/revoke-cred'', Revoke_Cred),
      (''/api/unblock'', Unblock_Device), (''/api/nps/clients'', Nps_Clients),
      (''/api/nps/clients/delete'', Nps_Client_Delete), (''/api/nps/tunnels'', Nps_Tunnels),
      (''/api/nps/tunnels/delete'', Nps_Tunnel_Delete), (''/api/sulink/my-tunnels'', My_Tunnels)]"

definition route :: "string \<Rightarrow> endpoint" where
  "route path = (case map_of routes path of Some e \<Rightarrow> e | None \<Rightarrow> Index)"

definition needs_token :: "endpoint \<Rightarrow> bool" where
  "needs_token e \<longleftrightarrow> e \<noteq> Index \<and> e \<noteq> My_Tunnels"

definition auth :: "string \<Rightarrow> (request \<Rightarrow> 's \<Rightarrow> response \<times> 's) \<Rightarrow> request \<Rightarrow> 's \<Rightarrow> response \<times> 's" where
  "auth token next_handler rq s =
     (if rq_token rq \<noteq> token then (respond_error 401 text_wrong_token, s) else next_handler rq s)"

text \<open>What the handlers need besides the request: the token, the page, the library's error texts, the
  iteration order of a map, the operations, and the handlers of the tunnel endpoints.\<close>

record 's site =
  w_token :: string
  w_page :: string
  w_json_error :: "string \<Rightarrow> string"
  w_order :: "settings \<Rightarrow> settings"
  w_control :: "'s control"
  w_nps :: "endpoint \<Rightarrow> request \<Rightarrow> 's \<Rightarrow> response \<times> 's"

definition handler :: "'s site \<Rightarrow> endpoint \<Rightarrow> request \<Rightarrow> 's \<Rightarrow> response \<times> 's" where
  "handler w e =
     (case e of
        Index \<Rightarrow> (\<lambda>rq s. (handleIndex (w_page w) rq, s))
      | State \<Rightarrow> handleState (w_control w)
      | Push_All \<Rightarrow> handlePush (w_json_error w) (w_order w) (w_control w)
      | Set_Notice \<Rightarrow> handleNotice (w_json_error w) (w_control w)
      | Set_NoPunch \<Rightarrow> handleNoPunch (w_json_error w) (w_control w)
      | Set_IP \<Rightarrow> handleSetIP (w_json_error w) (w_control w)
      | Revoke_Cred \<Rightarrow> handleRevokeCred (w_json_error w) (w_control w)
      | Unblock_Device \<Rightarrow> handleUnblock (w_json_error w) (w_control w)
      | _ \<Rightarrow> w_nps w e)"

definition serve :: "'s site \<Rightarrow> request \<Rightarrow> 's \<Rightarrow> response \<times> 's" where
  "serve w rq s =
     (let e = route (rq_path rq);
          (r, s1) = (if needs_token e then auth (w_token w) (handler w e) rq s else handler w e rq s)
      in (securityHeaders r, s1))"

end
