(* ===== verification/Admin_Properties.thy ===== *)
theory Admin_Properties
  imports Admin Server_Properties
begin

text \<open>
  What the management page's interface guarantees: the laws its operations obey as a locale, what
  follows for every request inside it, and the interpretation on the server.
\<close>

section \<open>Laws of the operations\<close>

locale management =
  fixes ctl :: "'s control"
    and inv :: "'s \<Rightarrow> bool"
    and setting :: "'s \<Rightarrow> string \<Rightarrow> string option"
  assumes push_inv: "inv s \<Longrightarrow> inv (snd (c_Push ctl cfg s))"
    and ip_inv: "inv s \<Longrightarrow> inv (snd (c_SetDeviceIP ctl hwid vip s))"
    and revoke_inv: "inv s \<Longrightarrow> inv (snd (c_RevokeDeviceCredential ctl hwid s))"
    and unblock_inv: "inv s \<Longrightarrow> inv (snd (c_UnblockDevice ctl hwid s))"
    and push_setting: "inv s \<Longrightarrow> k \<noteq> [] \<Longrightarrow> setting (snd (c_Push ctl cfg s)) k =
      (case setting_entry k cfg of None \<Rightarrow> setting s k | Some v \<Rightarrow> if TrimSpace v = [] then None else Some v)"
    and ip_failed: "fst (c_SetDeviceIP ctl hwid vip s) = Inl e \<Longrightarrow> snd (c_SetDeviceIP ctl hwid vip s) = s"
    and revoke_failed: "\<not> fst (c_RevokeDeviceCredential ctl hwid s) \<Longrightarrow> snd (c_RevokeDeviceCredential ctl hwid s) = s"
    and unblock_failed: "\<not> fst (c_UnblockDevice ctl hwid s) \<Longrightarrow> snd (c_UnblockDevice ctl hwid s) = s"
begin

lemma posted_keeps:
  assumes "inv s" and "\<And>req. inv (snd (act req s))"
  shows "inv (snd (posted json_error of_js act rq s))"
  using assms by (simp add: posted_def split: option.split)

lemma on_device_keeps: "inv s \<Longrightarrow> (\<And>h. inv (snd (act h s))) \<Longrightarrow> inv (snd (on_device missing act hwid s))"
  by (auto simp: on_device_def case_prod_beta split: bool.split)

lemma handlers_keep:
  assumes "inv s"
  shows "inv (snd (handleState ctl rq s))" and "inv (snd (handlePush je order ctl rq s))"
    and "inv (snd (handleNotice je ctl rq s))" and "inv (snd (handleNoPunch je ctl rq s))"
    and "inv (snd (handleSetIP je ctl rq s))" and "inv (snd (handleRevokeCred je ctl rq s))"
    and "inv (snd (handleUnblock je ctl rq s))"
proof -
  show "inv (snd (handleState ctl rq s))" using assms by (simp add: handleState_def)
  show "inv (snd (handlePush je order ctl rq s))"
    unfolding handlePush_def using assms by (intro posted_keeps) (simp_all add: push_inv case_prod_beta Let_def)
  show "inv (snd (handleNotice je ctl rq s))"
    unfolding handleNotice_def using assms by (intro posted_keeps) (simp_all add: push_inv case_prod_beta Let_def)
  show "inv (snd (handleNoPunch je ctl rq s))"
    unfolding handleNoPunch_def using assms by (intro posted_keeps) (simp_all add: push_inv case_prod_beta Let_def)
  show "inv (snd (handleSetIP je ctl rq s))"
    unfolding handleSetIP_def using assms by (intro posted_keeps) (simp_all add: ip_inv case_prod_beta split: sum.split)
  show "inv (snd (handleRevokeCred je ctl rq s))"
    unfolding handleRevokeCred_def using assms by (intro posted_keeps on_device_keeps revoke_inv)
  show "inv (snd (handleUnblock je ctl rq s))"
    unfolding handleUnblock_def using assms by (intro posted_keeps on_device_keeps unblock_inv)
qed

lemma handler_keeps:
  assumes "w_control w = ctl" and "\<And>e rq s. inv s \<Longrightarrow> inv (snd (w_nps w e rq s))" and "inv s"
  shows "inv (snd (handler w e rq s))"
  using assms(2,3) handlers_keep [OF assms(3)] by (cases e) (simp_all add: handler_def assms(1))

lemma serve_keeps:
  assumes "w_control w = ctl" and "\<And>e rq s. inv s \<Longrightarrow> inv (snd (w_nps w e rq s))" and "inv s"
  shows "inv (snd (serve w rq s))"
  using handler_keeps [OF assms] assms(3) by (auto simp: serve_def auth_def Let_def case_prod_beta)

text \<open>A request that is not answered with 200 changes nothing.\<close>

lemma posted_failed:
  assumes "posted json_error of_js act rq s = (r, s')" and "rs_status r \<noteq> 200"
    and "\<And>req. act req s = (r, s') \<Longrightarrow> rs_status r \<noteq> 200 \<Longrightarrow> s' = s"
  shows "s' = s"
  using assms by (auto simp: posted_def split: if_splits option.splits)

lemma handler_failed:
  assumes "w_control w = ctl" and "\<not> e \<in> {Nps_Clients, Nps_Client_Delete, Nps_Tunnels, Nps_Tunnel_Delete, My_Tunnels}"
    and "handler w e rq s = (r, s')" and "rs_status r \<noteq> 200"
  shows "s' = s"
  using assms(2-) unfolding handler_def assms(1)
  by (cases e) (auto simp: handleState_def handlePush_def handleNotice_def handleNoPunch_def handleSetIP_def
      handleRevokeCred_def handleUnblock_def on_device_def Let_def case_prod_beta respond_json_def
      elim!: posted_failed dest: ip_failed revoke_failed unblock_failed
      split: if_splits sum.splits bool.splits prod.splits)

end

section \<open>The server\<close>

text \<open>\<open>ip_text\<close> gives the texts of the errors of an address change.\<close>

definition server_control :: "gotime \<Rightarrow> (set_ip_error \<Rightarrow> string) \<Rightarrow> (device_error \<Rightarrow> string) \<Rightarrow> server control" where
  "server_control now ip_text rule_text =
     \<lparr>c_Snapshot = server_Snapshot now, c_Push = Push,
      c_SetDeviceForward = (\<lambda>h rules s. case SetDeviceForward h rules s of
         (Inl e, s') \<Rightarrow> (Inl (rule_text e), s') | (Inr b, s') \<Rightarrow> (Inr b, s')),
      c_SetDeviceIP = (\<lambda>h v s. case SetDeviceIP h v s of
         (Inl e, s') \<Rightarrow> (Inl (ip_text e), s') | (Inr b, s') \<Rightarrow> (Inr b, s')),
      c_RevokeDeviceCredential = RevokeDeviceCredential, c_UnblockDevice = UnblockDevice\<rparr>"

lemmas server_control_fields = server_control_def control.simps

definition server_inv :: "server \<Rightarrow> bool" where
  "server_inv s \<longleftrightarrow> settings_ok (s_pushed s) \<and> lease_ok (s_table s) (s_pool s)"

definition server_setting :: "server \<Rightarrow> string \<Rightarrow> string option" where
  "server_setting s k = map_of (s_pushed s) k"

lemma Push_frame:
  "s_pushed (snd (Push cfg s)) = merge_settings (s_pushed s) cfg"
  "s_table (snd (Push cfg s)) = s_table s" "s_pool (snd (Push cfg s)) = s_pool s"
  "s_settings_disk (snd (Push cfg s)) = saveSettings (s_settings_path s) (s_settings_writable s)
     (copyMap (merge_settings (s_pushed s) cfg)) (s_settings_disk s)"
  "fst (Push cfg s) = length (s_devices s)"
proof -
  have disk: "s_settings_disk (send_all is m t) = s_settings_disk t" for "is" m t
    unfolding send_all_def by (induction "is" arbitrary: t) (simp_all add: sendMsg_def upd_device_def split: option.splits)
  show "s_pushed (snd (Push cfg s)) = merge_settings (s_pushed s) cfg"
    "s_table (snd (Push cfg s)) = s_table s" "s_pool (snd (Push cfg s)) = s_pool s"
    "s_settings_disk (snd (Push cfg s)) = saveSettings (s_settings_path s) (s_settings_writable s)
     (copyMap (merge_settings (s_pushed s) cfg)) (s_settings_disk s)"
    "fst (Push cfg s) = length (s_devices s)"
    by (simp_all add: Push_def broadcast_def Let_def frame_simps disk)
qed

lemma update_same: "map_of xs k = Some v \<Longrightarrow> AList.update k v xs = xs"
  by (induction xs) auto

lemma Block_False: "\<not> fst (Block t h) \<Longrightarrow> snd (Block t h) = t"
proof -
  assume b: "\<not> fst (Block t h)"
  show ?thesis
  proof (cases "h = []")
    case False
    then have blocked: "d_blocked (record_or_new t h)" using b by (auto simp: Block_def Let_def split: if_splits)
    then obtain rec where rec: "find_record t h = Some rec" by (auto simp: record_or_new_def new_record_def split: option.splits)
    then have "put_record h rec t = t" by (simp add: put_record_def find_record_def update_same)
    then show ?thesis using b False rec by (auto simp: Block_def Let_def record_or_new_def)
  qed (simp add: Block_def)
qed

lemma Unblock_False: "\<not> fst (Unblock t h) \<Longrightarrow> snd (Unblock t h) = t"
  by (auto simp: Unblock_def split: option.splits if_splits)

lemma close_conn_pushed [simp]: "s_pushed (close_conn i s) = s_pushed s"
  by (simp add: close_conn_def frame_simps)

interpretation server_page: management "server_control now ip_text rule_text" server_inv server_setting
  for now ip_text rule_text
proof unfold_locales
  fix s :: server and cfg and k :: string assume "server_inv s" and k: "k \<noteq> []"
  then have "settings_ok (s_pushed s)" by (simp add: server_inv_def)
  then show "server_setting (snd (c_Push (server_control now ip_text rule_text) cfg s)) k =
      (case setting_entry k cfg of None \<Rightarrow> server_setting s k | Some v \<Rightarrow> if TrimSpace v = [] then None else Some v)"
    using k by (simp add: server_control_fields server_setting_def Push_frame merge_settings_lookup split: option.split)
next
  fix s hwid vip assume inv: "server_inv s"
  then show "server_inv (snd (c_SetDeviceIP (server_control now ip_text rule_text) hwid vip s))"
    using SetIP_ok [of "s_table s" "s_pool s" hwid]
    by (auto simp: server_control_fields server_inv_def SetDeviceIP_def Let_def frame_simps
        split: option.splits sum.splits prod.splits)
  show "server_inv (snd (c_RevokeDeviceCredential (server_control now ip_text rule_text) hwid s))"
    using inv Block_ok [of "s_table s" "s_pool s" hwid]
    by (auto simp: server_control_fields server_inv_def RevokeDeviceCredential_def Let_def frame_simps
        split: option.splits prod.splits)
  show "server_inv (snd (c_UnblockDevice (server_control now ip_text rule_text) hwid s))"
    using inv Unblock_ok [of "s_table s" "s_pool s" hwid]
    by (auto simp: server_control_fields server_inv_def UnblockDevice_def split: prod.splits)
next
  fix s cfg assume "server_inv s"
  then show "server_inv (snd (c_Push (server_control now ip_text rule_text) cfg s))"
    by (simp add: server_control_fields server_inv_def Push_frame merge_settings_ok)
next
  fix hwid vip and s :: server and e
  assume "fst (c_SetDeviceIP (server_control now ip_text rule_text) hwid vip s) = Inl e"
  then show "snd (c_SetDeviceIP (server_control now ip_text rule_text) hwid vip s) = s"
    by (auto simp: server_control_fields SetDeviceIP_def Let_def split: option.splits sum.splits prod.splits)
next
  fix hwid and s :: server
  assume "\<not> fst (c_RevokeDeviceCredential (server_control now ip_text rule_text) hwid s)"
  then show "snd (c_RevokeDeviceCredential (server_control now ip_text rule_text) hwid s) = s"
    using Block_False [of "s_table s" hwid]
    by (auto simp: server_control_fields RevokeDeviceCredential_def Let_def split: prod.splits)
next
  fix hwid and s :: server
  assume "\<not> fst (c_UnblockDevice (server_control now ip_text rule_text) hwid s)"
  then show "snd (c_UnblockDevice (server_control now ip_text rule_text) hwid s) = s"
    using Unblock_False [of "s_table s" hwid]
    by (auto simp: server_control_fields UnblockDevice_def split: prod.splits)
qed

text \<open>The site of a server whose tunnel endpoints do not touch the signalling server.\<close>

definition server_site :: "string \<Rightarrow> string \<Rightarrow> (string \<Rightarrow> string) \<Rightarrow> (settings \<Rightarrow> settings) \<Rightarrow> gotime
    \<Rightarrow> (set_ip_error \<Rightarrow> string) \<Rightarrow> (device_error \<Rightarrow> string) \<Rightarrow> (endpoint \<Rightarrow> request \<Rightarrow> response) \<Rightarrow> server site" where
  "server_site token page json_error order now ip_text rule_text nps =
     \<lparr>w_token = token, w_page = page, w_json_error = json_error, w_order = order,
      w_control = server_control now ip_text rule_text, w_nps = (\<lambda>e rq s. (nps e rq, s))\<rparr>"

lemma securityHeaders_status [simp]: "rs_status (securityHeaders r) = rs_status r"
  by (simp add: securityHeaders_def)

lemma serve_status_unchanged:
  assumes "serve (server_site token page je order now it rt nps) rq s = (r, s')" and "rs_status r \<noteq> 200"
  shows "s' = s"
proof -
  let ?w = "server_site token page je order now it rt nps" and ?e = "route (rq_path rq)"
  consider "s' = s" | r0 where "handler ?w ?e rq s = (r0, s')" "rs_status r0 \<noteq> 200"
    using assms by (auto simp: serve_def auth_def Let_def split: prod.splits if_splits)
  then show ?thesis
  proof cases
    case 2
    show ?thesis
    proof (cases "?e \<in> {Nps_Clients, Nps_Client_Delete, Nps_Tunnels, Nps_Tunnel_Delete, My_Tunnels}")
      case True
      then show ?thesis using 2(1) by (auto simp: handler_def server_site_def)
    next
      case False
      then show ?thesis
        using server_page.handler_failed [where w = ?w and now = now and ip_text = it and rule_text = rt] 2
        by (simp add: server_site_def)
    qed
  qed
qed

section \<open>Properties\<close>

text \<open>C20: Without the token the interface neither changes nor reveals anything. Take any sequence of
  requests that do not carry the token and do not ask for a device's own tunnels: the server is
  afterwards exactly as before, and the responses are the same for any two servers, so they tell
  nothing about its state.\<close>

theorem outsiders_change_and_learn_nothing:
  fixes s s2 :: 's
  assumes "\<forall>rq \<in> set rqs. rq_token rq \<noteq> w_token w \<and> route (rq_path rq) \<noteq> My_Tunnels"
  shows "foldl (\<lambda>t rq. snd (serve w rq t)) s rqs = s
    \<and> map (\<lambda>rq. fst (serve w rq s)) rqs = map (\<lambda>rq. fst (serve w rq s2)) rqs"
proof -
  have one: "snd (serve w rq t) = t \<and> fst (serve w rq t) = fst (serve w rq t')"
    if "rq \<in> set rqs" for rq and t t' :: 's
  proof -
    have rq: "rq_token rq \<noteq> w_token w" "route (rq_path rq) \<noteq> My_Tunnels" using assms that by auto
    then show ?thesis
      by (cases "needs_token (route (rq_path rq))") (auto simp: serve_def auth_def needs_token_def handler_def Let_def)
  qed
  have "foldl (\<lambda>t rq. snd (serve w rq t)) s qs = s" if "set qs \<subseteq> set rqs" for qs
    using that one by (induction qs) auto
  then show ?thesis using one by (simp add: map_eq_conv)
qed

definition get_request :: "string \<Rightarrow> string \<Rightarrow> request" where
  "get_request path token = \<lparr>rq_method = ''GET'', rq_path = path, rq_query = [], rq_token = token, rq_body = []\<rparr>"

definition demo_site :: "server site" where
  "demo_site = server_site ''secret'' ''<html>'' (\<lambda>_. ''?'') (\<lambda>m. m) 0 (\<lambda>_. ''?'') (\<lambda>_. ''?'')
     (\<lambda>_ _. respond_error 500 ''?'')"

theorem outsiders_change_and_learn_nothing_witness:
  "foldl (\<lambda>t rq. snd (serve demo_site rq t)) demo_server
     [get_request ''/api/state'' ''guess'', get_request ''/'' []] = demo_server
   \<and> rs_status (fst (serve demo_site (get_request ''/api/state'' ''guess'') demo_server)) = 401
   \<and> rs_status (fst (serve demo_site (get_request ''/api/state'' ''secret'') demo_server)) = 200"
proof -
  let ?rqs = "[get_request ''/api/state'' ''guess'', get_request ''/'' []]"
  have "route ''/'' = Index" "route ''/api/state'' = State" by code_simp+
  then have "\<forall>rq \<in> set ?rqs. rq_token rq \<noteq> w_token demo_site \<and> route (rq_path rq) \<noteq> My_Tunnels"
    by (simp add: get_request_def demo_site_def server_site_def)
  from outsiders_change_and_learn_nothing [OF this, of demo_server]
  show ?thesis using \<open>route ''/api/state'' = State\<close>
    by (simp add: serve_def auth_def needs_token_def get_request_def demo_site_def server_site_def respond_error_def
        respond_json_def handler_def handleState_def)
qed


definition post_request :: "string \<Rightarrow> string \<Rightarrow> string \<Rightarrow> request" where
  "post_request path token body = \<lparr>rq_method = ''POST'', rq_path = path, rq_query = [], rq_token = token, rq_body = body\<rparr>"

lemma respond_status: "rs_status (respond_error c e) = c" "rs_status (respond_json c kvs) = c"
  by (simp_all only: respond_error_def respond_json_def response.simps)

lemma serve_admitted:
  assumes "route (rq_path rq) = e" and "rq_token rq = w_token w"
  shows "serve w rq s = (securityHeaders (fst (handler w e rq s)), snd (handler w e rq s))"
  using assms by (simp add: serve_def auth_def case_prod_beta Let_def)

lemma handler_set_ip: "handler w Set_IP = handleSetIP (w_json_error w) (w_control w)"
  by (simp add: handler_def)


lemma decodeBody_printed:
  assumes "json_ok j" and "length (print_json j) \<le> maxBody"
  shows "decodeBody of_js (print_json j) = of_js j"
  using parse_print(1) [OF assms(1), of "2 * length (print_json j)" "[]"] assms(2)
  by (simp add: decodeBody_def Let_def)

text \<open>Publishing a notice works from the request to the disk. A request with the token that posts
  a text is answered with the number of devices online; afterwards the notice in force is the
  text without surrounding blanks, or there is none if nothing is left, no other setting has
  changed, and after a restart the server loads exactly these settings.\<close>

theorem notice_published:
  assumes "server_inv s" and "valid_utf8 text" and "length (print_json (JObj [(''text'', JStr text)])) \<le> maxBody"
    and "serve (server_site token page je order now it rt nps)
           (post_request ''/api/notice'' token (print_json (JObj [(''text'', JStr text)]))) s = (r, s')"
    and "s_settings_path s \<noteq> []" and "s_settings_writable s"
  shows "rs_status r = 200
    \<and> rs_body r = print_json (JObj [(''deleted'', JBool (TrimSpace text = [])),
        (''delivered'', to_js_int (int (length (s_devices s)))), (''ok'', JBool True)]) @ [CHR 0x0A]
    \<and> map_of (s_pushed s') = (map_of (s_pushed s))(CfgNotice := if TrimSpace text = [] then None else Some (TrimSpace text))
    \<and> loadSettings (s_settings_path s) (s_settings_disk s') = s_pushed s'"
proof -
  let ?cfg = "[(''notice'', TrimSpace text)]" and ?body = "print_json (JObj [(''text'', JStr text)])"
  have "noticeReq (JObj [(''text'', JStr text)]) = Some text"
    by (simp add: noticeReq_def decode_string_def js_struct_def find_field_def)
  moreover have "json_ok (JObj [(''text'', JStr text)])" using assms(2) by (simp add: tag_ok byte_in_def)
  ultimately have body: "decodeBody noticeReq ?body = Some text"
    using decodeBody_printed [OF _ assms(3), of noticeReq] by (simp del: print_json.simps)
  have route: "route ''/api/notice'' = Set_Notice" by code_simp
  obtain n s1 where push: "Push ?cfg s = (n, s1)" by fastforce
  have n: "n = length (s_devices s)" using Push_frame(5) [of ?cfg s] push by simp
  have r: "r = securityHeaders (respond_json 200 [(''ok'', JBool True), (''delivered'', to_js_int (int n)),
      (''deleted'', JBool (TrimSpace text = []))])" and s': "s' = s1"
    using assms(4) body push
    by (simp_all add: serve_def auth_def needs_token_def route handler_def handleNotice_def posted_def post_request_def
        server_site_def server_control_fields Let_def)
  have ok: "settings_ok (s_pushed s)" using assms(1) by (simp add: server_inv_def)
  have k: "TrimSpace ''notice'' = ''notice''" "CfgNotice = ''notice''" by code_simp+
  have pushed: "s_pushed s' = merge_setting (s_pushed s) (''notice'', TrimSpace text)"
    using Push_frame(1) [of ?cfg s] push s' by (simp add: merge_settings_def)
  then have ok': "settings_ok (s_pushed s')" using ok by (simp add: merge_setting_ok)
  have "map_of (s_pushed s') = (map_of (s_pushed s))(CfgNotice := if TrimSpace text = [] then None else Some (TrimSpace text))"
    using ok unfolding pushed by (auto simp: merge_setting_def k Let_def settings_ok_def fun_eq_iff)
  moreover have "loadSettings (s_settings_path s) (s_settings_disk s') = s_pushed s'"
    using Push_frame(1,4) [of ?cfg s] push s' assms(5,6) reload_settings [OF ok' assms(5)] ok'
    by (simp add: copyMap_ascending settings_ok_def)
  ultimately show ?thesis
    using r n by (simp add: respond_json_def securityHeaders_def)
qed

theorem notice_published_witness:
  "\<exists>r s'. serve (server_site ''secret'' [] (\<lambda>_. []) (\<lambda>m. m) 0 (\<lambda>_. []) (\<lambda>_. []) (\<lambda>_ _. respond_error 500 []))
        (post_request ''/api/notice'' ''secret'' (print_json (JObj [(''text'', JStr '' hi'')])))
        (demo_server\<lparr>s_settings_path := ''p'', s_settings_writable := True\<rparr>) = (r, s')
    \<and> rs_status r = 200 \<and> map_of (s_pushed s') CfgNotice = Some ''hi''"
proof -
  let ?s = "demo_server\<lparr>s_settings_path := ''p'', s_settings_writable := True\<rparr>"
  let ?w = "server_site ''secret'' [] (\<lambda>_. []) (\<lambda>m. m) 0 (\<lambda>_. []) (\<lambda>_. []) (\<lambda>_ _. respond_error 500 [])"
  let ?rq = "post_request ''/api/notice'' ''secret'' (print_json (JObj [(''text'', JStr '' hi'')]))"
  have inv: "server_inv ?s"
    using demo_lease_ok NewServer_start(9) [OF demo_start] by (simp add: server_inv_def)
  have utf: "valid_utf8 '' hi''" by code_simp
  have "length (print_json (JObj [(''text'', JStr '' hi'')])) = 14" by code_simp
  then have len: "length (print_json (JObj [(''text'', JStr '' hi'')])) \<le> maxBody" by (simp add: maxBody_def)
  obtain r s' where run: "serve ?w ?rq ?s = (r, s')" by fastforce
  have trim: "TrimSpace '' hi'' = ''hi''" by code_simp
  show ?thesis
    using notice_published [OF inv utf len run] run by (intro exI [of _ r] exI [of _ s']) (simp only: trim, simp)
qed

end
