(* ===== verification/Nps_Util.thy ===== *)
theory Nps_Util
  imports Go_Net Go_Json
begin

text \<open>
  The helpers of the tunnel server, \<^verbatim>\<open>nps-master/lib/common/util.go\<close>: text and
  address functions, port lists, membership by sorting and binary search, the field encoding of
  control messages, and the choice of the addresses shown for a host. What the system reports
  (interfaces, local addresses) is an argument.
\<close>

section \<open>Splitting\<close>

text \<open>\<^verbatim>\<open>strings.Split\<close> for a separator \<open>c # cs\<close>.\<close>

fun Split :: "'a \<Rightarrow> 'a list \<Rightarrow> 'a list \<Rightarrow> 'a list list" where
  "Split c cs [] = [[]]"
| "Split c cs (x # s) =
     (if starts_with (x # s) (c # cs) then [] # Split c cs (drop (length cs) s)
      else case Split c cs s of [] \<Rightarrow> [[x]] | p # ps \<Rightarrow> (x # p) # ps)"

abbreviation split_on :: "'a \<Rightarrow> 'a list \<Rightarrow> 'a list list" where "split_on c \<equiv> Split c []"

lemma Split_nonempty [simp]: "Split c cs s \<noteq> []"
  by (cases s) (auto split: list.split)

lemma Split_once:
  "\<not> Contains (u @ butlast (c # cs)) (c # cs) \<Longrightarrow> Split c cs (u @ (c # cs) @ v) = u # Split c cs v"
proof (induction u)
  case Nil
  then show ?case by (simp add: starts_with_prefix)
next
  case (Cons x u)
  have no: "\<not> starts_with (x # u @ (c # cs) @ v) (c # cs)"
  proof
    assume "starts_with (x # u @ (c # cs) @ v) (c # cs)"
    then have "c # cs = take (length (c # cs)) ((x # u) @ butlast (c # cs) @ [last (c # cs)] @ v)"
      unfolding starts_with_prefix prefix_def append_butlast_last_id
      by (metis append.assoc append_Cons append_butlast_last_id append_eq_conv_conj list.distinct(1))
    also have "\<dots> = take (length (c # cs)) ((x # u) @ butlast (c # cs))"
      by simp
    finally have "starts_with ((x # u) @ butlast (c # cs)) (c # cs)"
      by (metis starts_with_prefix take_is_prefix)
    then show False using Cons.prems by simp
  qed
  have "Split c cs (u @ (c # cs) @ v) = u # Split c cs v"
    using Cons.prems by (intro Cons.IH) auto
  then show ?case using no by simp
qed

lemma split_on_once:
  assumes "c \<notin> set u" shows "split_on c (u @ c # v) = u # split_on c v"
proof -
  have "\<not> Contains (u @ butlast [c]) [c]" using assms by (auto simp: Contains_iff)
  from Split_once [OF this, of v] show ?thesis by simp
qed

lemma split_on_none: "c \<notin> set u \<Longrightarrow> split_on c u = [u]"
  by (induction u) (auto simp: starts_with_prefix)

section \<open>Numbers and flags\<close>

definition GetBoolByStr :: "string \<Rightarrow> bool" where
  "GetBoolByStr s \<longleftrightarrow> s = ''1'' \<or> s = ''true''"

definition GetStrByBool :: "bool \<Rightarrow> string" where
  "GetStrByBool b = (if b then ''1'' else ''0'')"

text \<open>The value \<^verbatim>\<open>strconv.Atoi\<close> returns beside its error: 0, or the nearest 64-bit value.\<close>

definition Atoi_value :: "string \<Rightarrow> int" where
  "Atoi_value s =
     (case Atoi s of
        Some v \<Rightarrow> v
      | None \<Rightarrow>
          (case s of
             [] \<Rightarrow> 0
           | c # cs \<Rightarrow>
               if c = CHR ''-'' then (if parse_dec cs = None then 0 else - 9223372036854775808)
               else if parse_dec (if c = CHR ''+'' then cs else s) = None then 0 else 9223372036854775807))"

definition GetIntNoErrByStr :: "string \<Rightarrow> int" where
  "GetIntNoErrByStr s = Atoi_value (TrimSpace s)"

definition IsPort :: "string \<Rightarrow> bool" where
  "IsPort p = (case Atoi p of None \<Rightarrow> False | Some v \<Rightarrow> \<not> (v > 65536 \<or> v < 1))"

definition GetPorts :: "string \<Rightarrow> int list" where
  "GetPorts p = concat (map (\<lambda>v.
     case split_on CHR ''-'' v of
       [a, b] \<Rightarrow> if IsPort a \<and> IsPort b then [Atoi_value a .. Atoi_value b] else []
     | _ \<Rightarrow> if IsPort v then [Atoi_value v] else []) (split_on CHR '','' p))"

fun digits_of_bytes :: "byte list \<Rightarrow> string" where
  "digits_of_bytes [] = []"
| "digits_of_bytes (b # bs) = dec (unat b) @ digits_of_bytes bs"

definition BytesToNum :: "byte list \<Rightarrow> int" where
  "BytesToNum b = Atoi_value (digits_of_bytes b)"

section \<open>Lists of texts\<close>

fun InArr :: "'a list \<Rightarrow> 'a \<Rightarrow> bool" where
  "InArr [] val \<longleftrightarrow> False"
| "InArr (v # arr) val \<longleftrightarrow> (if v = val then True else InArr arr val)"

abbreviation InStrArr :: "string list \<Rightarrow> string \<Rightarrow> bool" where "InStrArr \<equiv> InArr"
abbreviation InIntArr :: "int list \<Rightarrow> int \<Rightarrow> bool" where "InIntArr \<equiv> InArr"

lemma InArr_iff: "InArr arr val \<longleftrightarrow> val \<in> set arr"
  by (induction arr) auto

definition TrimArr :: "string list \<Rightarrow> string list" where
  "TrimArr arr = filter (\<lambda>v. v \<noteq> []) arr"

fun RemoveArrVal :: "string list \<Rightarrow> string \<Rightarrow> string list" where
  "RemoveArrVal [] val = []"
| "RemoveArrVal (v # arr) val = (if v = val then arr else v # RemoveArrVal arr val)"

lemma RemoveArrVal_remove1: "RemoveArrVal arr val = remove1 val arr"
  by (induction arr) auto

text \<open>
  \<^verbatim>\<open>in\<close> sorts the list it is given and looks the text up by \<^verbatim>\<open>sort.SearchStrings\<close>,
  whose loop keeps the smallest index not below the text between \<open>i\<close> and \<open>j\<close>.
\<close>

function search_from :: "(nat \<Rightarrow> bool) \<Rightarrow> nat \<Rightarrow> nat \<Rightarrow> nat" where
  "search_from p i j =
     (if i < j then let h = (i + j) div 2 in if \<not> p h then search_from p (Suc h) j else search_from p i h
      else i)"
  by pat_completeness auto
termination by (relation "measure (\<lambda>(p, i, j). j - i)") auto

declare search_from.simps [simp del]

definition SearchStrings :: "string list \<Rightarrow> string \<Rightarrow> nat" where
  "SearchStrings arr x = search_from (\<lambda>i. \<not> arr ! i < x) 0 (length arr)"

definition in_sorted :: "string \<Rightarrow> string list \<Rightarrow> bool \<times> string list" where
  "in_sorted target arr =
     (let s = sort arr; index = SearchStrings s target
      in (index < length s \<and> s ! index = target, s))"

lemma search_from_least:
  assumes "\<And>a b. a \<le> b \<Longrightarrow> b < n \<Longrightarrow> p a \<Longrightarrow> p b" and "i \<le> j" "j \<le> n"
    and "\<forall>k < i. \<not> p k" and "j < n \<longrightarrow> p j"
  shows "search_from p i j \<le> n \<and> (\<forall>k < search_from p i j. \<not> p k) \<and> (search_from p i j < n \<longrightarrow> p (search_from p i j))"
  using assms
proof (induction p i j rule: search_from.induct)
  case (1 p i j)
  let ?h = "(i + j) div 2"
  show ?case
  proof (cases "i < j")
    case True
    then have h: "i \<le> ?h" "?h < j" "?h < n" using "1.prems"(3) by linarith+
    show ?thesis
    proof (cases "p ?h")
      case p: True
      then have "search_from p i j = search_from p i ?h" using True by (simp add: search_from.simps [of p i j])
      moreover have "search_from p i ?h \<le> n \<and> (\<forall>k < search_from p i ?h. \<not> p k)
          \<and> (search_from p i ?h < n \<longrightarrow> p (search_from p i ?h))"
        using "1.IH"(2) [OF True refl _ "1.prems"(1) h(1) _ "1.prems"(4)] p h by simp
      ultimately show ?thesis by simp
    next
      case np: False
      then have "search_from p i j = search_from p (Suc ?h) j" using True by (simp add: search_from.simps [of p i j])
      moreover have "\<forall>k < Suc ?h. \<not> p k" using np "1.prems"(1) h by (metis less_Suc_eq_le)
      ultimately show ?thesis
        using "1.IH"(1) [OF True refl np "1.prems"(1) _ "1.prems"(3) _ "1.prems"(5)] h by simp
    qed
  next
    case False
    then have "i = j" using "1.prems"(2) by simp
    moreover have "search_from p i j = i" using False by (subst search_from.simps) simp
    ultimately have "search_from p i j = j" by simp
    then show ?thesis using "1.prems"(3-5) \<open>i = j\<close> by simp
  qed
qed

lemma in_sorted_iff: "fst (in_sorted target arr) \<longleftrightarrow> target \<in> set arr"
proof -
  let ?s = "sort arr"
  let ?i = "SearchStrings ?s target"
  have mono: "\<not> ?s ! b < target" if "a \<le> b" "b < length ?s" "\<not> ?s ! a < target" for a b
  proof -
    have "?s ! a \<le> ?s ! b" by (rule sorted_nth_mono [OF sorted_sort that(1,2)])
    then show ?thesis using that(3) by (simp add: not_less)
  qed
  have i: "?i \<le> length ?s" "\<forall>k < ?i. ?s ! k < target" "?i < length ?s \<Longrightarrow> \<not> ?s ! ?i < target"
    using search_from_least [of "length ?s" "\<lambda>i. \<not> ?s ! i < target" 0 "length ?s", OF mono]
    unfolding SearchStrings_def by simp_all
  have "?i < length ?s \<and> ?s ! ?i = target" if mem: "target \<in> set ?s"
  proof -
    obtain k where k: "k < length ?s" "?s ! k = target" using mem unfolding in_set_conv_nth by blast
    then have "\<not> k < ?i" using i(2) by (metis less_irrefl)
    then have "?i \<le> k" by simp
    then have "?i < length ?s" using k(1) by simp
    moreover have "?s ! ?i \<le> ?s ! k" by (rule sorted_nth_mono [OF sorted_sort \<open>?i \<le> k\<close> k(1)])
    ultimately show ?thesis using i(3) k(2) by (metis not_less order.antisym)
  qed
  then show ?thesis unfolding in_sorted_def Let_def fst_conv using nth_mem [of ?i ?s] by (metis set_sort)
qed

section \<open>Addresses\<close>

definition FormatAddress :: "string \<Rightarrow> string" where
  "FormatAddress s = (if Contains s '':'' then s else ''127.0.0.1:'' @ s)"

definition GetIpByAddr :: "string \<Rightarrow> string" where
  "GetIpByAddr addr =
     (if Contains addr ''['' then split_on CHR '']'' (split_on CHR ''['' addr ! 1) ! 0
      else split_on CHR '':'' addr ! 0)"

definition GetPortByAddr :: "string \<Rightarrow> int" where
  "GetPortByAddr addr =
     (let arr = split_on CHR '':'' addr
      in if length arr < 2 then 0 else case Atoi (arr ! 1) of None \<Rightarrow> 0 | Some p \<Rightarrow> p)"

definition IsBlackIp :: "string \<Rightarrow> string list \<Rightarrow> bool \<times> string list" where
  "IsBlackIp ipPort blackIpList = in_sorted (GetIpByAddr ipPort) blackIpList"

definition IsAuthIp :: "string \<Rightarrow> string list \<Rightarrow> bool \<times> string list" where
  "IsAuthIp ipPort authIpList =
     (let (found, l) = in_sorted (GetIpByAddr ipPort) authIpList in (\<not> found, l))"

text \<open>The predicates of \<^verbatim>\<open>net.IP\<close>.\<close>

definition IsLoopback :: "byte list \<Rightarrow> bool" where
  "IsLoopback ip = (case To4 ip of Some v \<Rightarrow> v ! 0 = 127 | None \<Rightarrow> ip = replicate 15 0 @ [1])"

definition IsLinkLocalMulticast :: "byte list \<Rightarrow> bool" where
  "IsLinkLocalMulticast ip = (case To4 ip of Some v \<Rightarrow> v ! 0 = 224 \<and> v ! 1 = 0 \<and> v ! 2 = 0
     | None \<Rightarrow> length ip = 16 \<and> ip ! 0 = 0xFF \<and> ip ! 1 AND 0x0F = 0x02)"

definition IsLinkLocalUnicast :: "byte list \<Rightarrow> bool" where
  "IsLinkLocalUnicast ip = (case To4 ip of Some v \<Rightarrow> v ! 0 = 169 \<and> v ! 1 = 254
     | None \<Rightarrow> length ip = 16 \<and> ip ! 0 = 0xFE \<and> ip ! 1 AND 0xC0 = 0x80)"

definition IsUnspecified :: "byte list \<Rightarrow> bool" where
  "IsUnspecified ip = (case To4 ip of Some v \<Rightarrow> v = [0, 0, 0, 0] | None \<Rightarrow> ip = replicate 16 0)"

definition IsMulticast :: "byte list \<Rightarrow> bool" where
  "IsMulticast ip = (case To4 ip of Some v \<Rightarrow> v ! 0 AND 0xF0 = 0xE0 | None \<Rightarrow> length ip = 16 \<and> ip ! 0 = 0xFF)"

definition IsPrivate :: "byte list \<Rightarrow> bool" where
  "IsPrivate ip = (case To4 ip of
       Some v \<Rightarrow> v ! 0 = 10 \<or> v ! 0 = 172 \<and> v ! 1 AND 0xF0 = 16 \<or> v ! 0 = 192 \<and> v ! 1 = 168
     | None \<Rightarrow> length ip = 16 \<and> ip ! 0 AND 0xFE = 0xFC)"

definition isUsefulLocalIPv4 :: "byte list \<Rightarrow> bool" where
  "isUsefulLocalIPv4 ip = (case To4 ip of None \<Rightarrow> False
     | Some v4 \<Rightarrow> \<not> IsLoopback v4 \<and> \<not> IsLinkLocalUnicast v4 \<and> \<not> IsLinkLocalMulticast v4
         \<and> \<not> IsUnspecified v4 \<and> \<not> IsMulticast v4)"

definition isUsefulPrivateIPv4 :: "byte list \<Rightarrow> bool" where
  "isUsefulPrivateIPv4 ip =
     (if \<not> isUsefulLocalIPv4 ip then False else case To4 ip of None \<Rightarrow> False | Some v4 \<Rightarrow> IsPrivate v4)"

definition IsPublicIP :: "byte list \<Rightarrow> bool" where
  "IsPublicIP ip =
     (if IsLoopback ip \<or> IsLinkLocalMulticast ip \<or> IsLinkLocalUnicast ip then False
      else case To4 ip of
        Some ip4 \<Rightarrow> if ip4 ! 0 = 10 then False
                    else if ip4 ! 0 = 172 \<and> ip4 ! 1 \<ge> 16 \<and> ip4 ! 1 \<le> 31 then False
                    else if ip4 ! 0 = 192 \<and> ip4 ! 1 = 168 then False
                    else True
      | None \<Rightarrow> False)"

definition GetServerIpByClientIp :: "string \<Rightarrow> string \<Rightarrow> byte list \<Rightarrow> string" where
  "GetServerIpByClientIp external intranet clientIp = (if IsPublicIP clientIp then external else intranet)"

text \<open>The closure of \<^verbatim>\<open>GetLocalIPs\<close>; \<open>seen\<close> has exactly the members of \<open>ips\<close>.\<close>

definition add_ip :: "byte list \<Rightarrow> bool \<Rightarrow> string list \<Rightarrow> string list" where
  "add_ip ip privateOnly ips =
     (if (if privateOnly then \<not> isUsefulPrivateIPv4 ip else \<not> isUsefulLocalIPv4 ip) then ips
      else case To4 ip of
        None \<Rightarrow> ips
      | Some v4 \<Rightarrow> if v4_string v4 \<in> set ips then ips else ips @ [v4_string v4])"

fun joined :: "string \<Rightarrow> string list \<Rightarrow> string" where
  "joined sep [] = []"
| "joined sep [x] = x"
| "joined sep (x # y # xs) = x @ sep @ joined sep (y # xs)"

record iface =
  if_up :: bool
  if_loopback :: bool
  if_addrs :: "byte list list option"

definition GetLocalIPs :: "byte list option \<Rightarrow> byte list option \<Rightarrow> iface list option \<Rightarrow> string" where
  "GetLocalIPs conn_local outbound ifaces =
     (let ips1 = (case conn_local of None \<Rightarrow> [] | Some ip \<Rightarrow> add_ip ip False [])
      in if ips1 \<noteq> [] then ips1 ! 0
      else let ips2 = (case outbound of None \<Rightarrow> ips1 | Some ip \<Rightarrow> add_ip ip False ips1)
      in if ips2 \<noteq> [] then ips2 ! 0
      else let ips3 = (case ifaces of None \<Rightarrow> ips2
             | Some ifs \<Rightarrow> fold (\<lambda>f ips. if \<not> if_up f \<or> if_loopback f then ips
                 else case if_addrs f of None \<Rightarrow> ips | Some as \<Rightarrow> fold (\<lambda>a. add_ip a True) as ips) ifs ips2)
      in joined '','' (if length ips3 > 1 then sort ips3 else ips3))"

section \<open>Fields of a control message\<close>

definition CONN_DATA_SEQ :: string where "CONN_DATA_SEQ = ''*#*''"

abbreviation split_fields :: "string \<Rightarrow> string list" where
  "split_fields \<equiv> Split (CHR ''*'') ''#*''"

definition GetWriteStr :: "string list \<Rightarrow> string" where
  "GetWriteStr vs = concat (map (\<lambda>v. v @ CONN_DATA_SEQ) vs)"

definition le32 :: "nat \<Rightarrow> byte list" where
  "le32 n = rev (put_be32 (of_nat n))"

text \<open>The length is an \<^verbatim>\<open>int32\<close>, little-endian.\<close>

definition BinaryWrite :: "string list \<Rightarrow> byte list" where
  "BinaryWrite vs = (let b = str_bytes (GetWriteStr vs) in le32 (length b) @ b)"

definition no_separator :: "string \<Rightarrow> bool" where
  "no_separator v \<longleftrightarrow> \<not> Contains (v @ ''*#'') CONN_DATA_SEQ"

lemma split_fields_write:
  assumes "list_all no_separator vs"
  shows "split_fields (GetWriteStr vs) = vs @ [[]]"
  using assms
proof (induction vs)
  case (Cons v vs)
  then show ?case
    using Split_once [of v "CHR ''*''" "''#*''" "GetWriteStr vs"]
    by (simp add: GetWriteStr_def CONN_DATA_SEQ_def no_separator_def)
qed (simp add: GetWriteStr_def)

section \<open>Facts about ports and addresses\<close>

lemma IsPort_value: "IsPort p \<Longrightarrow> 1 \<le> Atoi_value p \<and> Atoi_value p \<le> 65536"
  by (auto simp: IsPort_def Atoi_value_def split: option.splits)

lemma GetPorts_range: "x \<in> set (GetPorts p) \<Longrightarrow> 1 \<le> x \<and> x \<le> 65536"
proof -
  assume "x \<in> set (GetPorts p)"
  then obtain v where v: "x \<in> set (case split_on CHR ''-'' v of
       [a, b] \<Rightarrow> if IsPort a \<and> IsPort b then [Atoi_value a .. Atoi_value b] else []
     | _ \<Rightarrow> if IsPort v then [Atoi_value v] else [])"
    unfolding GetPorts_def set_concat set_map by blast
  then consider a b where "IsPort a" "IsPort b" "Atoi_value a \<le> x" "x \<le> Atoi_value b" | "IsPort v" "x = Atoi_value v"
    by (auto split: list.splits if_splits)
  then show ?thesis
  proof cases
    case 1
    then show ?thesis using IsPort_value [of a] IsPort_value [of b] by linarith
  next
    case 2
    then show ?thesis using IsPort_value [of v] by simp
  qed
qed

text \<open>The bound admits 65536, which is not a port.\<close>

lemma port_65536_accepted: "GetPorts ''65536'' = [65536]"
proof -
  have "parse_dec ''65536'' = Some 65536"
    by (simp add: parse_dec_def is_digit_def digits_val_def digit_val_def)
  then have "Atoi ''65536'' = Some 65536" using Atoi_digits by fastforce
  then show ?thesis by (simp add: GetPorts_def IsPort_def Atoi_value_def starts_with_prefix)
qed

lemma joined_ne: "ips \<noteq> [] \<Longrightarrow> [] \<notin> set ips \<Longrightarrow> joined sep ips \<noteq> []"
  by (induction sep ips rule: joined.induct) auto

end
