(* ===== verification/Nps_Objects.thy ===== *)
theory Nps_Objects
  imports Nps_Util
begin

text \<open>
  The objects of the tunnel server, \<^verbatim>\<open>nps-master/lib/file/obj.go\<close>: clients, tunnels,
  hosts and their targets, with the methods that work on one object. Clients are shared through
  pointers and get addresses in \<open>Nps_Db\<close>; here an object is its contents. An \<^verbatim>\<open>int\<close> is an
  integer, \<^verbatim>\<open>int32\<close> and \<^verbatim>\<open>int64\<close> counters are words.
\<close>

section \<open>Data\<close>

record flow =
  fl_export :: "64 word"
  fl_inlet :: "64 word"
  fl_limit :: "64 word"

definition new_flow :: flow where "new_flow = \<lparr>fl_export = 0, fl_inlet = 0, fl_limit = 0\<rparr>"

definition Flow_Add :: "64 word \<Rightarrow> 64 word \<Rightarrow> flow \<Rightarrow> flow" where
  "Flow_Add inn out s =
     (let s1 = s\<lparr>fl_inlet := fl_inlet s + inn\<rparr> in s1\<lparr>fl_export := fl_export s1 + out\<rparr>)"

text \<open>\<^verbatim>\<open>rate.Rate\<close>: the limit in bytes and the rate of the last second.\<close>

record rate =
  rt_size :: int
  rt_now :: "64 word"

definition NewRate :: "int \<Rightarrow> rate" where "NewRate addSize = \<lparr>rt_size = addSize, rt_now = 0\<rparr>"

definition unlimited :: int where "unlimited = 17179869184"

text \<open>The value of an \<^verbatim>\<open>int64\<close> expression.\<close>

definition as_int64 :: "int \<Rightarrow> int" where "as_int64 v = sint (word_of_int v :: 64 word)"

record conn_config =
  cn_user :: string
  cn_pass :: string
  cn_compress :: bool
  cn_crypt :: bool

definition new_conn_config :: conn_config where
  "new_conn_config = \<lparr>cn_user = [], cn_pass = [], cn_compress = False, cn_crypt = False\<rparr>"

record npc =
  c_Cnf :: "conn_config option"
  c_Id :: int
  c_VerifyKey :: string
  c_Addr :: string
  c_LocalAddr :: string
  c_Remark :: string
  c_Status :: bool
  c_IsConnect :: bool
  c_RateLimit :: int
  c_Flow :: "flow option"
  c_Rate :: "rate option"
  c_NoStore :: bool
  c_NoDisplay :: bool
  c_MaxConn :: int
  c_NowConn :: "32 word"
  c_WebUserName :: string
  c_WebPassword :: string
  c_ConfigConnAllow :: bool
  c_MaxTunnelNum :: int
  c_Version :: string
  c_BlackIpList :: "string list"
  c_CreateTime :: string
  c_LastOnlineTime :: string
  c_IpWhite :: bool
  c_IpWhitePass :: string
  c_IpWhiteList :: "string list"
  c_ExpireTime :: string

definition zero_npc :: npc where
  "zero_npc =
     \<lparr>c_Cnf = None, c_Id = 0, c_VerifyKey = [], c_Addr = [], c_LocalAddr = [], c_Remark = [],
      c_Status = False, c_IsConnect = False, c_RateLimit = 0, c_Flow = None, c_Rate = None,
      c_NoStore = False, c_NoDisplay = False, c_MaxConn = 0, c_NowConn = 0, c_WebUserName = [],
      c_WebPassword = [], c_ConfigConnAllow = False, c_MaxTunnelNum = 0, c_Version = [],
      c_BlackIpList = [], c_CreateTime = [], c_LastOnlineTime = [], c_IpWhite = False,
      c_IpWhitePass = [], c_IpWhiteList = [], c_ExpireTime = []\<rparr>"

definition npc_NewClient :: "string \<Rightarrow> bool \<Rightarrow> bool \<Rightarrow> npc" where
  "npc_NewClient vKey noStore noDisplay = zero_npc
     \<lparr>c_Cnf := Some new_conn_config, c_VerifyKey := vKey, c_Status := True, c_Flow := Some new_flow,
      c_NoStore := noStore, c_NoDisplay := noDisplay\<rparr>"

record target =
  tg_nowIndex :: int
  tg_TargetStr :: string
  tg_TargetArr :: "string list option"
  tg_LocalProxy :: bool

record health =
  h_timeout :: int
  h_max_fail :: int
  h_interval :: int
  h_next :: string
  h_map :: "(string \<times> int) list"
  h_url :: string
  h_removed :: "string list"
  h_type :: string
  h_target :: string

definition no_health :: health where
  "no_health = \<lparr>h_timeout = 0, h_max_fail = 0, h_interval = 0, h_next = [], h_map = [], h_url = [],
     h_removed = [], h_type = [], h_target = []\<rparr>"

type_synonym cref = nat

record tunnel =
  t_Id :: int
  t_Port :: int
  t_ServerIp :: string
  t_Mode :: string
  t_Status :: bool
  t_RunStatus :: bool
  t_Client :: "cref option"
  t_Ports :: string
  t_Flow :: "flow option"
  t_Password :: string
  t_Remark :: string
  t_TargetAddr :: string
  t_NoStore :: bool
  t_LocalPath :: string
  t_StripPre :: string
  t_ProtoVersion :: string
  t_Target :: "target option"
  t_MultiAccount :: "(string \<times> string) list option"
  t_Health :: health

record host =
  h_Id :: int
  h_Host :: string
  h_HeaderChange :: string
  h_HostChange :: string
  h_Location :: string
  h_Remark :: string
  h_Scheme :: string
  h_CertFilePath :: string
  h_KeyFilePath :: string
  h_NoStore :: bool
  h_IsClose :: bool
  h_AutoHttps :: bool
  h_Flow :: "flow option"
  h_Client :: "cref option"
  h_Target :: "target option"
  h_Health :: health

record glob =
  g_BlackIpList :: "string list"
  g_ServerUrl :: string

section \<open>The connections of a client\<close>

definition CutConn :: "npc \<Rightarrow> npc" where "CutConn c = c\<lparr>c_NowConn := c_NowConn c + 1\<rparr>"
definition AddConn :: "npc \<Rightarrow> npc" where "AddConn c = c\<lparr>c_NowConn := c_NowConn c - 1\<rparr>"

definition GetConn :: "npc \<Rightarrow> bool \<times> npc" where
  "GetConn c = (if c_MaxConn c = 0 \<or> sint (c_NowConn c) < c_MaxConn c then (True, CutConn c) else (False, c))"

text \<open>A connection is counted by a successful \<^verbatim>\<open>GetConn\<close> and given back by \<^verbatim>\<open>AddConn\<close>.
  The model runs a sequence of openings and closings and counts the connections held.\<close>

datatype conn_event = Open_conn | Close_conn

fun conn_step :: "conn_event \<Rightarrow> npc \<times> nat \<Rightarrow> npc \<times> nat" where
  "conn_step Open_conn (c, held) =
     (let (ok, c1) = GetConn c in (c1, if ok then Suc held else held))"
| "conn_step Close_conn (c, held) = (if held = 0 then (c, held) else (AddConn c, held - 1))"

lemma conn_step_keeps:
  assumes "conn_step e (c, n) = (c1, n1)" and "0 < c_MaxConn c" "c_MaxConn c < 2 ^ 31"
    and "sint (c_NowConn c) = int n" and "int n \<le> c_MaxConn c"
  shows "sint (c_NowConn c1) = int n1 \<and> int n1 \<le> c_MaxConn c1 \<and> c_MaxConn c1 = c_MaxConn c"
proof -
  have s: "sint (w + 1) = sint w + 1" if "sint w < 2 ^ 31 - 1" "0 \<le> sint w" for w :: "32 word"
    using that by (simp add: sint_word_ariths signed_take_bit_int_eq_self)
  have p: "sint (w - 1) = sint w - 1" if "0 < sint w" for w :: "32 word"
    using that sint_lt [of w] by (simp add: sint_word_ariths signed_take_bit_int_eq_self)
  show ?thesis
  proof (cases e)
    case Open_conn
    then show ?thesis
      using assms s [of "c_NowConn c"] by (auto simp: GetConn_def CutConn_def split: if_splits)
  next
    case Close_conn
    then show ?thesis
      using assms p [of "c_NowConn c"] by (auto simp: AddConn_def of_nat_diff split: if_splits)
  qed
qed

section \<open>The targets of a tunnel\<close>

definition trim_right :: "'a \<Rightarrow> 'a list \<Rightarrow> 'a list" where
  "trim_right c s = rev (dropWhile (\<lambda>x. x = c) (rev s))"

definition target_lines :: "string \<Rightarrow> string list" where
  "target_lines s = filter (\<lambda>v. v \<noteq> []) (map (trim_right CHR 0x0D) (split_on CHR 0x0A s))"

definition GetRandomTarget :: "target \<Rightarrow> string option \<times> target" where
  "GetRandomTarget s =
     (let arr = (case tg_TargetArr s of None \<Rightarrow> target_lines (tg_TargetStr s) | Some a \<Rightarrow> a);
          s1 = s\<lparr>tg_TargetArr := Some arr\<rparr>
      in if length arr = 0 then (None, s1)
         else let i = (if tg_nowIndex s1 \<ge> int (length arr) - 1 then - 1 else tg_nowIndex s1) + 1
              in (Some (arr ! nat i), s1\<lparr>tg_nowIndex := i\<rparr>))"

fun draw_targets :: "nat \<Rightarrow> target \<Rightarrow> string option list \<times> target" where
  "draw_targets 0 s = ([], s)"
| "draw_targets (Suc n) s =
     (let (a, s1) = GetRandomTarget s; (as, s2) = draw_targets n s1 in (a # as, s2))"

definition targets_of :: "target \<Rightarrow> string list" where
  "targets_of s = (case tg_TargetArr s of None \<Rightarrow> target_lines (tg_TargetStr s) | Some a \<Rightarrow> a)"

lemma GetRandomTarget_step:
  assumes "targets_of s = arr" and "arr \<noteq> []" and "0 \<le> tg_nowIndex s" and "tg_nowIndex s < int (length arr)"
  shows "GetRandomTarget s = (Some (arr ! (Suc (nat (tg_nowIndex s)) mod length arr)),
    s\<lparr>tg_TargetArr := Some arr, tg_nowIndex := int (Suc (nat (tg_nowIndex s)) mod length arr)\<rparr>)"
proof (cases "tg_nowIndex s \<ge> int (length arr) - 1")
  case True
  then have "Suc (nat (tg_nowIndex s)) = length arr" using assms by linarith
  then show ?thesis
    using assms True by (auto simp: GetRandomTarget_def targets_of_def Let_def split: option.splits)
next
  case False
  then have "Suc (nat (tg_nowIndex s)) < length arr" "nat (tg_nowIndex s + 1) = Suc (nat (tg_nowIndex s))"
    using assms(3) by linarith+
  then show ?thesis
    using assms False by (auto simp: GetRandomTarget_def targets_of_def Let_def split: option.splits)
qed

lemma draw_targets_round_robin:
  assumes "targets_of s = arr" and "arr \<noteq> []" and "0 \<le> tg_nowIndex s" and "tg_nowIndex s < int (length arr)"
  shows "fst (draw_targets n s) = map (\<lambda>k. Some (arr ! ((nat (tg_nowIndex s) + Suc k) mod length arr))) [0..<n]"
  using assms
proof (induction n arbitrary: s)
  case (Suc n)
  let ?i = "Suc (nat (tg_nowIndex s)) mod length arr"
  let ?s = "s\<lparr>tg_TargetArr := Some arr, tg_nowIndex := int ?i\<rparr>"
  have "targets_of ?s = arr" by (simp add: targets_of_def)
  moreover have "tg_nowIndex ?s < int (length arr)" using Suc.prems(2) by simp
  ultimately have "fst (draw_targets n ?s) = map (\<lambda>k. Some (arr ! ((?i + Suc k) mod length arr))) [0..<n]"
    using Suc.IH [of ?s] Suc.prems(2) by simp
  moreover have "(?i + Suc k) mod length arr = (nat (tg_nowIndex s) + Suc (Suc k)) mod length arr" for k
    using mod_add_left_eq [of "Suc (nat (tg_nowIndex s))" "length arr" "Suc k"] by simp
  moreover have "fst (draw_targets (Suc n) s) = Some (arr ! ?i) # fst (draw_targets n ?s)"
    using GetRandomTarget_step [OF Suc.prems] by (simp add: case_prod_beta)
  ultimately show ?case by (simp add: upt_conv_Cons map_Suc_upt flip: map_Suc_upt del: upt_Suc)
qed simp

end
