(* ===== verification/Nps_Json.thy ===== *)
theory Nps_Json
  imports Nps_Objects Protocol_Json
begin

text \<open>
  The JSON form of the tunnel server's objects, as \<^verbatim>\<open>encoding/json\<close> derives it from the
  struct declarations of \<^verbatim>\<open>nps-master/lib/file/obj.go\<close>, and that it can be read back. A
  field is described by its name, how it is written and how it is read into the object; a null or
  empty slice is the empty list.
\<close>

section \<open>Fields\<close>

type_synonym 'a json_field = "string \<times> ('a \<Rightarrow> json) \<times> (json \<Rightarrow> 'a \<Rightarrow> 'a option)"

definition fields_to_json :: "'a json_field list \<Rightarrow> 'a \<Rightarrow> json" where
  "fields_to_json fs x = JObj (map (\<lambda>(t, g, _). (t, g x)) fs)"

definition fields_of_json :: "'a json_field list \<Rightarrow> 'a \<Rightarrow> json \<Rightarrow> 'a option" where
  "fields_of_json fs x j = js_struct (map (\<lambda>(t, _, s). (t, s)) fs) (\<lambda>f. f) x j"

definition field :: "string \<Rightarrow> ('v \<Rightarrow> json) \<Rightarrow> (json \<Rightarrow> 'v \<Rightarrow> 'v option) \<Rightarrow> ('a \<Rightarrow> 'v) \<Rightarrow> (('v \<Rightarrow> 'v) \<Rightarrow> 'a \<Rightarrow> 'a)
    \<Rightarrow> 'a json_field" where
  "field tag to_js of_js get upd =
     (tag, \<lambda>x. to_js (get x), \<lambda>j x. map_option (\<lambda>v. upd (\<lambda>_. v) x) (of_js j (get x)))"

definition js_flag :: "json \<Rightarrow> bool \<Rightarrow> bool option" where
  "js_flag j old = (case j of JBool b \<Rightarrow> Some b | JNull \<Rightarrow> Some old | _ \<Rightarrow> None)"

definition js_i64 :: "json \<Rightarrow> 64 word \<Rightarrow> 64 word option" where
  "js_i64 j old = map_option word_of_int (js_int j (sint old))"

definition js_i32 :: "json \<Rightarrow> 32 word \<Rightarrow> 32 word option" where
  "js_i32 j old = Option.bind (js_int j (sint old))
     (\<lambda>v. if - 2147483648 \<le> v \<and> v \<le> 2147483647 then Some (word_of_int v) else None)"

definition to_js_strings :: "string list \<Rightarrow> json" where
  "to_js_strings xs = (if xs = [] then JNull else JArr (map JStr xs))"

definition js_strings :: "json \<Rightarrow> string list \<Rightarrow> string list option" where
  "js_strings j old = js_slice (\<lambda>e. js_str e []) j"

text \<open>A pointer to a struct: null, or the struct, read into a new one when there is none.\<close>

definition to_js_ptr :: "('a \<Rightarrow> json) \<Rightarrow> 'a option \<Rightarrow> json" where
  "to_js_ptr to_js p = (case p of None \<Rightarrow> JNull | Some x \<Rightarrow> to_js x)"

definition js_ptr :: "('a \<Rightarrow> json \<Rightarrow> 'a option) \<Rightarrow> 'a \<Rightarrow> json \<Rightarrow> 'a option \<Rightarrow> 'a option option" where
  "js_ptr of_js zero j old =
     (if j = JNull then Some None
      else map_option Some (of_js (case old of None \<Rightarrow> zero | Some x \<Rightarrow> x) j))"

text \<open>Integer-valued maps are written in the order of their keys.\<close>

fun js_counts :: "(string \<times> json) list \<Rightarrow> (string \<times> int) list \<Rightarrow> (string \<times> int) list option" where
  "js_counts [] m = Some m"
| "js_counts ((k, j) # kvs) m =
     (case js_int j 0 of None \<Rightarrow> None | Some v \<Rightarrow> js_counts kvs (map_put k v m))"

definition js_count_map :: "json \<Rightarrow> (string \<times> int) list \<Rightarrow> (string \<times> int) list option" where
  "js_count_map j old = (case j of JObj kvs \<Rightarrow> js_counts kvs old | JNull \<Rightarrow> Some [] | _ \<Rightarrow> None)"

definition to_js_counts :: "(string \<times> int) list \<Rightarrow> json" where
  "to_js_counts m = (if m = [] then JNull else JObj (map (\<lambda>(k, v). (k, to_js_int v)) m))"

abbreviation "str_field tag \<equiv> field tag JStr js_str"
abbreviation "int_field tag \<equiv> field tag to_js_int js_int"
abbreviation "bool_field tag \<equiv> field tag JBool js_flag"
abbreviation "i64_field tag \<equiv> field tag (\<lambda>w. to_js_int (sint w)) js_i64"
abbreviation "strings_field tag \<equiv> field tag to_js_strings js_strings"

section \<open>Objects\<close>

definition flow_fields :: "flow json_field list" where
  "flow_fields =
     [i64_field ''ExportFlow'' fl_export fl_export_update, i64_field ''InletFlow'' fl_inlet fl_inlet_update,
      i64_field ''FlowLimit'' fl_limit fl_limit_update]"

definition rate_fields :: "rate json_field list" where
  "rate_fields = [i64_field ''NowRate'' rt_now rt_now_update]"

definition conn_config_fields :: "conn_config json_field list" where
  "conn_config_fields =
     [str_field ''U'' cn_user cn_user_update, str_field ''P'' cn_pass cn_pass_update,
      bool_field ''Compress'' cn_compress cn_compress_update, bool_field ''Crypt'' cn_crypt cn_crypt_update]"

abbreviation "flow_field \<equiv> field ''Flow'' (to_js_ptr (fields_to_json flow_fields)) (js_ptr (fields_of_json flow_fields) new_flow)"

definition npc_fields :: "npc json_field list" where
  "npc_fields =
     [field ''Cnf'' (to_js_ptr (fields_to_json conn_config_fields))
        (js_ptr (fields_of_json conn_config_fields) new_conn_config) c_Cnf c_Cnf_update,
      int_field ''Id'' c_Id c_Id_update, str_field ''VerifyKey'' c_VerifyKey c_VerifyKey_update,
      str_field ''Addr'' c_Addr c_Addr_update, str_field ''LocalAddr'' c_LocalAddr c_LocalAddr_update,
      str_field ''Remark'' c_Remark c_Remark_update, bool_field ''Status'' c_Status c_Status_update,
      bool_field ''IsConnect'' c_IsConnect c_IsConnect_update, int_field ''RateLimit'' c_RateLimit c_RateLimit_update,
      flow_field c_Flow c_Flow_update,
      field ''Rate'' (to_js_ptr (fields_to_json rate_fields)) (js_ptr (fields_of_json rate_fields) (NewRate 0))
        c_Rate c_Rate_update,
      bool_field ''NoStore'' c_NoStore c_NoStore_update, bool_field ''NoDisplay'' c_NoDisplay c_NoDisplay_update,
      int_field ''MaxConn'' c_MaxConn c_MaxConn_update,
      field ''NowConn'' (\<lambda>w. to_js_int (sint w)) js_i32 c_NowConn c_NowConn_update,
      str_field ''WebUserName'' c_WebUserName c_WebUserName_update,
      str_field ''WebPassword'' c_WebPassword c_WebPassword_update,
      bool_field ''ConfigConnAllow'' c_ConfigConnAllow c_ConfigConnAllow_update,
      int_field ''MaxTunnelNum'' c_MaxTunnelNum c_MaxTunnelNum_update,
      str_field ''Version'' c_Version c_Version_update,
      strings_field ''BlackIpList'' c_BlackIpList c_BlackIpList_update,
      str_field ''CreateTime'' c_CreateTime c_CreateTime_update,
      str_field ''LastOnlineTime'' c_LastOnlineTime c_LastOnlineTime_update,
      bool_field ''IpWhite'' c_IpWhite c_IpWhite_update, str_field ''IpWhitePass'' c_IpWhitePass c_IpWhitePass_update,
      strings_field ''IpWhiteList'' c_IpWhiteList c_IpWhiteList_update,
      str_field ''ExpireTime'' c_ExpireTime c_ExpireTime_update]"

definition npc_to_json :: "npc \<Rightarrow> json" where "npc_to_json = fields_to_json npc_fields"
definition npc_of_json :: "npc \<Rightarrow> json \<Rightarrow> npc option" where "npc_of_json = fields_of_json npc_fields"

section \<open>Reading back\<close>



lemma js_flag_JBool [simp]: "js_flag (JBool b) old = Some b" by (simp add: js_flag_def)

lemma js_i64_to [simp]: "js_i64 (to_js_int (sint (w :: 64 word))) old = Some w"
proof -
  have "int64_ok (sint w)" using sint_ge [of w] sint_lt [of w] by (simp add: int64_ok_def)
  then show ?thesis by (simp add: js_i64_def)
qed

lemma js_i32_to [simp]: "js_i32 (to_js_int (sint (w :: 32 word))) old = Some w"
proof -
  have b: "- 2147483648 \<le> sint w" "sint w \<le> 2147483647" using sint_ge [of w] sint_lt [of w] by simp_all
  then have "int64_ok (sint w)" by (simp add: int64_ok_def)
  then show ?thesis using b by (simp add: js_i32_def)
qed

lemma js_strings_to [simp]: "js_strings (to_js_strings xs) old = Some xs"
  by (simp add: js_strings_def to_js_strings_def js_slice_def [of _ JNull])

lemma js_ptr_to:
  "(\<And>y. of_js y (to_js x) = Some x) \<Longrightarrow> to_js x \<noteq> JNull \<Longrightarrow> js_ptr of_js zero (to_js_ptr to_js (Some x)) old = Some (Some x)"
  "js_ptr of_js zero (to_js_ptr to_js None) old = Some None"
  by (simp_all add: js_ptr_def to_js_ptr_def)

lemma fields_to_json_object [simp]: "fields_to_json fs x \<noteq> JNull" by (simp add: fields_to_json_def)

lemmas codec_simps = fields_of_json_def fields_to_json_def field_def js_struct_def

lemma flow_back: "fields_of_json flow_fields y (fields_to_json flow_fields x) = Some x"
  by (simp add: codec_simps flow_fields_def)

lemma conn_config_back: "fields_of_json conn_config_fields y (fields_to_json conn_config_fields x) = Some x"
  by (simp add: codec_simps conn_config_fields_def)

lemma flow_ptr_back [simp]:
  "js_ptr (fields_of_json flow_fields) z (to_js_ptr (fields_to_json flow_fields) p) old = Some p"
  by (cases p) (simp_all add: js_ptr_to flow_back)

lemma conn_config_ptr_back [simp]:
  "js_ptr (fields_of_json conn_config_fields) z (to_js_ptr (fields_to_json conn_config_fields) p) old = Some p"
  by (cases p) (simp_all add: js_ptr_to conn_config_back)

text \<open>Only the last second's rate of a \<^verbatim>\<open>Rate\<close> is written; the limit is set anew.\<close>

definition stored_rate :: "rate option \<Rightarrow> rate option" where
  "stored_rate r = map_option (\<lambda>x. x\<lparr>rt_size := 0\<rparr>) r"

lemma rate_ptr_back [simp]:
  "js_ptr (fields_of_json rate_fields) (NewRate 0) (to_js_ptr (fields_to_json rate_fields) p) None = Some (stored_rate p)"
  by (cases p) (simp_all add: js_ptr_def to_js_ptr_def codec_simps rate_fields_def NewRate_def stored_rate_def)

definition npc_numbers_ok :: "npc \<Rightarrow> bool" where
  "npc_numbers_ok c \<longleftrightarrow> int64_ok (c_Id c) \<and> int64_ok (c_RateLimit c) \<and> int64_ok (c_MaxConn c) \<and> int64_ok (c_MaxTunnelNum c)"

lemma npc_read_back:
  assumes "npc_numbers_ok c"
  shows "npc_of_json zero_npc (npc_to_json c) = Some (c\<lparr>c_Rate := stored_rate (c_Rate c)\<rparr>)"
  using assms
  by (simp add: npc_of_json_def npc_to_json_def codec_simps npc_fields_def npc_numbers_ok_def zero_npc_def)

section \<open>Tunnels and hosts\<close>

text \<open>\<^verbatim>\<open>time.Time\<close> accepts an RFC 3339 text: the fields in their ranges, optional fractions
  of a second, and \<open>Z\<close> or an offset.\<close>

definition two_digits :: "string \<Rightarrow> nat \<Rightarrow> nat \<Rightarrow> nat \<Rightarrow> bool" where
  "two_digits s i lo hi \<longleftrightarrow> (let d = take 2 (drop i s)
     in length d = 2 \<and> list_all is_digit d \<and> lo \<le> digits_val d \<and> digits_val d \<le> hi)"

definition days_in :: "nat \<Rightarrow> nat \<Rightarrow> nat" where
  "days_in month year =
     (if month = 2 then (if year mod 4 = 0 \<and> (year mod 100 \<noteq> 0 \<or> year mod 400 = 0) then 29 else 28)
      else if month \<in> {4, 6, 9, 11} then 30 else 31)"

definition zone_ok :: "string \<Rightarrow> bool" where
  "zone_ok z \<longleftrightarrow> z = ''Z'' \<or>
     (case z of [] \<Rightarrow> False
      | c # _ \<Rightarrow> c \<in> {CHR ''+'', CHR ''-''} \<and> length z = 6 \<and> two_digits z 1 0 23 \<and> z ! 3 = CHR '':'' \<and> two_digits z 4 0 59)"

definition rfc3339 :: "string \<Rightarrow> bool" where
  "rfc3339 s \<longleftrightarrow> 20 \<le> length s \<and> list_all is_digit (take 4 s) \<and> s ! 4 = CHR ''-'' \<and> two_digits s 5 1 12
     \<and> s ! 7 = CHR ''-''
     \<and> two_digits s 8 1 (days_in (digits_val (take 2 (drop 5 s))) (digits_val (take 4 s)))
     \<and> s ! 10 = CHR ''T'' \<and> two_digits s 11 0 23 \<and> s ! 13 = CHR '':'' \<and> two_digits s 14 0 59
     \<and> s ! 16 = CHR '':'' \<and> two_digits s 17 0 59
     \<and> (let r = drop 19 s
        in if hd r = CHR ''.'' then (let ds = takeWhile is_digit (tl r) in ds \<noteq> [] \<and> zone_ok (drop (length ds) (tl r)))
           else zone_ok r)"

definition zero_time :: string where "zero_time = ''0001-01-01T00:00:00Z''"

lemma rfc3339_zero_time: "rfc3339 zero_time" by code_simp

definition js_time :: "json \<Rightarrow> string \<Rightarrow> string option" where
  "js_time j old = (case j of JStr s \<Rightarrow> if rfc3339 s then Some s else None | JNull \<Rightarrow> Some old | _ \<Rightarrow> None)"

definition target_fields :: "target json_field list" where
  "target_fields =
     [str_field ''TargetStr'' tg_TargetStr tg_TargetStr_update,
      field ''TargetArr'' (\<lambda>a. case a of None \<Rightarrow> JNull | Some xs \<Rightarrow> JArr (map JStr xs))
        (\<lambda>j old. if j = JNull then Some None else map_option Some (js_slice (\<lambda>e. js_str e []) j))
        tg_TargetArr tg_TargetArr_update,
      bool_field ''LocalProxy'' tg_LocalProxy tg_LocalProxy_update]"

definition zero_target :: target where
  "zero_target = \<lparr>tg_nowIndex = 0, tg_TargetStr = [], tg_TargetArr = None, tg_LocalProxy = False\<rparr>"

definition account_fields :: "(string \<times> string) list json_field list" where
  "account_fields = [field ''AccountMap'' (\<lambda>m. if m = [] then JNull else to_js_map m) js_map (\<lambda>m. m) (\<lambda>f. f)]"

abbreviation "target_field get upd \<equiv>
  field ''Target'' (to_js_ptr (fields_to_json target_fields)) (js_ptr (fields_of_json target_fields) zero_target) get upd"

abbreviation "client_field get upd \<equiv> field ''Client'' (to_js_ptr npc_to_json) (js_ptr npc_of_json zero_npc) get upd"

text \<open>A tunnel or a host together with the client its pointer leads to.\<close>

definition of_fst :: "('v \<Rightarrow> 'a \<Rightarrow> 'a) \<Rightarrow> 'v \<Rightarrow> 'a \<times> 'b \<Rightarrow> 'a \<times> 'b" where
  "of_fst u f x = (u f (fst x), snd x)"

definition of_health :: "('v \<Rightarrow> health \<Rightarrow> health) \<Rightarrow> 'v \<Rightarrow> tunnel \<times> 'b \<Rightarrow> tunnel \<times> 'b" where
  "of_health u f x = ((fst x)\<lparr>t_Health := u f (t_Health (fst x))\<rparr>, snd x)"

definition tunnel_fields :: "(tunnel \<times> npc option) json_field list" where
  "tunnel_fields =
     [int_field ''Id'' (t_Id \<circ> fst) (of_fst t_Id_update), int_field ''Port'' (t_Port \<circ> fst) (of_fst t_Port_update),
      str_field ''ServerIp'' (t_ServerIp \<circ> fst) (of_fst t_ServerIp_update),
      str_field ''Mode'' (t_Mode \<circ> fst) (of_fst t_Mode_update),
      bool_field ''Status'' (t_Status \<circ> fst) (of_fst t_Status_update),
      bool_field ''RunStatus'' (t_RunStatus \<circ> fst) (of_fst t_RunStatus_update),
      client_field snd (\<lambda>f x. (fst x, f (snd x))),
      str_field ''Ports'' (t_Ports \<circ> fst) (of_fst t_Ports_update),
      flow_field (t_Flow \<circ> fst) (of_fst t_Flow_update),
      str_field ''Password'' (t_Password \<circ> fst) (of_fst t_Password_update),
      str_field ''Remark'' (t_Remark \<circ> fst) (of_fst t_Remark_update),
      str_field ''TargetAddr'' (t_TargetAddr \<circ> fst) (of_fst t_TargetAddr_update),
      bool_field ''NoStore'' (t_NoStore \<circ> fst) (of_fst t_NoStore_update),
      str_field ''LocalPath'' (t_LocalPath \<circ> fst) (of_fst t_LocalPath_update),
      str_field ''StripPre'' (t_StripPre \<circ> fst) (of_fst t_StripPre_update),
      str_field ''ProtoVersion'' (t_ProtoVersion \<circ> fst) (of_fst t_ProtoVersion_update),
      target_field (t_Target \<circ> fst) (of_fst t_Target_update),
      field ''MultiAccount'' (to_js_ptr (fields_to_json account_fields)) (js_ptr (fields_of_json account_fields) [])
        (t_MultiAccount \<circ> fst) (of_fst t_MultiAccount_update),
      int_field ''HealthCheckTimeout'' (h_timeout \<circ> t_Health \<circ> fst) (of_health h_timeout_update),
      int_field ''HealthMaxFail'' (h_max_fail \<circ> t_Health \<circ> fst) (of_health h_max_fail_update),
      int_field ''HealthCheckInterval'' (h_interval \<circ> t_Health \<circ> fst) (of_health h_interval_update),
      field ''HealthNextTime'' JStr js_time (h_next \<circ> t_Health \<circ> fst) (of_health h_next_update),
      field ''HealthMap'' to_js_counts js_count_map (h_map \<circ> t_Health \<circ> fst) (of_health h_map_update),
      str_field ''HttpHealthUrl'' (h_url \<circ> t_Health \<circ> fst) (of_health h_url_update),
      strings_field ''HealthRemoveArr'' (h_removed \<circ> t_Health \<circ> fst) (of_health h_removed_update),
      str_field ''HealthCheckType'' (h_type \<circ> t_Health \<circ> fst) (of_health h_type_update),
      str_field ''HealthCheckTarget'' (h_target \<circ> t_Health \<circ> fst) (of_health h_target_update)]"

definition zero_tunnel :: tunnel where
  "zero_tunnel =
     \<lparr>t_Id = 0, t_Port = 0, t_ServerIp = [], t_Mode = [], t_Status = False, t_RunStatus = False,
      t_Client = None, t_Ports = [], t_Flow = None, t_Password = [], t_Remark = [], t_TargetAddr = [],
      t_NoStore = False, t_LocalPath = [], t_StripPre = [], t_ProtoVersion = [], t_Target = None,
      t_MultiAccount = None, t_Health = no_health\<lparr>h_next := zero_time\<rparr>\<rparr>"

definition host_fields :: "(host \<times> npc option) json_field list" where
  "host_fields =
     [int_field ''Id'' (h_Id \<circ> fst) (of_fst h_Id_update), str_field ''Host'' (h_Host \<circ> fst) (of_fst h_Host_update),
      str_field ''HeaderChange'' (h_HeaderChange \<circ> fst) (of_fst h_HeaderChange_update),
      str_field ''HostChange'' (h_HostChange \<circ> fst) (of_fst h_HostChange_update),
      str_field ''Location'' (h_Location \<circ> fst) (of_fst h_Location_update),
      str_field ''Remark'' (h_Remark \<circ> fst) (of_fst h_Remark_update),
      str_field ''Scheme'' (h_Scheme \<circ> fst) (of_fst h_Scheme_update),
      str_field ''CertFilePath'' (h_CertFilePath \<circ> fst) (of_fst h_CertFilePath_update),
      str_field ''KeyFilePath'' (h_KeyFilePath \<circ> fst) (of_fst h_KeyFilePath_update),
      bool_field ''NoStore'' (h_NoStore \<circ> fst) (of_fst h_NoStore_update),
      bool_field ''IsClose'' (h_IsClose \<circ> fst) (of_fst h_IsClose_update),
      bool_field ''AutoHttps'' (h_AutoHttps \<circ> fst) (of_fst h_AutoHttps_update),
      flow_field (h_Flow \<circ> fst) (of_fst h_Flow_update),
      client_field snd (\<lambda>f x. (fst x, f (snd x))),
      target_field (h_Target \<circ> fst) (of_fst h_Target_update)]"

definition zero_host :: host where
  "zero_host =
     \<lparr>h_Id = 0, h_Host = [], h_HeaderChange = [], h_HostChange = [], h_Location = [], h_Remark = [],
      h_Scheme = [], h_CertFilePath = [], h_KeyFilePath = [], h_NoStore = False, h_IsClose = False,
      h_AutoHttps = False, h_Flow = None, h_Client = None, h_Target = None, h_Health = no_health\<lparr>h_next := zero_time\<rparr>\<rparr>"

definition glob_fields :: "glob json_field list" where
  "glob_fields =
     [strings_field ''BlackIpList'' g_BlackIpList g_BlackIpList_update,
      str_field ''ServerUrl'' g_ServerUrl g_ServerUrl_update]"

definition tunnel_to_json :: "tunnel \<times> npc option \<Rightarrow> json" where "tunnel_to_json = fields_to_json tunnel_fields"
definition tunnel_of_json :: "json \<Rightarrow> (tunnel \<times> npc option) option" where
  "tunnel_of_json = fields_of_json tunnel_fields (zero_tunnel, None)"
definition host_to_json :: "host \<times> npc option \<Rightarrow> json" where "host_to_json = fields_to_json host_fields"
definition host_of_json :: "json \<Rightarrow> (host \<times> npc option) option" where
  "host_of_json = fields_of_json host_fields (zero_host, None)"

lemma target_ptr_back [simp]:
  "js_ptr (fields_of_json target_fields) zero_target (to_js_ptr (fields_to_json target_fields) p) None
    = Some (map_option (\<lambda>t. t\<lparr>tg_nowIndex := 0\<rparr>) p)"
proof (cases p)
  case (Some t)
  then show ?thesis
    by (cases "tg_TargetArr t")
      (simp_all add: js_ptr_def to_js_ptr_def codec_simps target_fields_def zero_target_def)
qed (simp add: js_ptr_def to_js_ptr_def)

lemma npc_ptr_back:
  assumes "\<forall>c. p = Some c \<longrightarrow> npc_numbers_ok c"
  shows "js_ptr npc_of_json zero_npc (to_js_ptr npc_to_json p) None
    = Some (map_option (\<lambda>c. c\<lparr>c_Rate := stored_rate (c_Rate c)\<rparr>) p)"
  using assms npc_read_back
  by (cases p) (simp_all add: js_ptr_def to_js_ptr_def npc_to_json_def)

text \<open>A host as it comes back: without its pointer, its health state and the position among its targets.\<close>

definition stored_host :: "host \<Rightarrow> host" where
  "stored_host h = h\<lparr>h_Client := None, h_Health := no_health\<lparr>h_next := zero_time\<rparr>,
     h_Target := map_option (\<lambda>t. t\<lparr>tg_nowIndex := 0\<rparr>) (h_Target h)\<rparr>"

lemma host_read_back:
  assumes "int64_ok (h_Id h)" and "\<forall>c. p = Some c \<longrightarrow> npc_numbers_ok c"
  shows "host_of_json (host_to_json (h, p)) = Some (stored_host h, map_option (\<lambda>c. c\<lparr>c_Rate := stored_rate (c_Rate c)\<rparr>) p)"
  using assms npc_ptr_back [OF assms(2)]
  by (simp add: host_of_json_def host_to_json_def codec_simps host_fields_def zero_host_def of_fst_def stored_host_def)

lemma js_counts_to:
  "ascending (m0 @ m) \<Longrightarrow> list_all (int64_ok \<circ> snd) m \<Longrightarrow> js_counts (map (\<lambda>(k, v). (k, to_js_int v)) m) m0 = Some (m0 @ m)"
proof (induction m arbitrary: m0)
  case (Cons e m)
  obtain k v where e: "e = (k, v)" by fastforce
  have "\<forall>k' \<in> fst ` set m0. k' < k"
    using Cons.prems e by (auto simp: ascending_def sorted_wrt_append)
  then have "map_put k v m0 = m0 @ [(k, v)]" by (rule map_put_last)
  then show ?case using Cons.IH [of "m0 @ [e]"] Cons.prems e by simp
qed simp

lemma js_count_map_to [simp]:
  "ascending m \<Longrightarrow> list_all (int64_ok \<circ> snd) m \<Longrightarrow> js_count_map (to_js_counts m) [] = Some m"
  using js_counts_to [of "[]" m] by (simp add: js_count_map_def to_js_counts_def)

lemma account_ptr_back [simp]:
  "\<forall>m. p = Some m \<longrightarrow> ascending m \<Longrightarrow>
   js_ptr (fields_of_json account_fields) [] (to_js_ptr (fields_to_json account_fields) p) None = Some p"
  by (cases p) (auto simp: js_ptr_def to_js_ptr_def codec_simps account_fields_def js_map_def [of JNull])

definition tunnel_values_ok :: "tunnel \<Rightarrow> bool" where
  "tunnel_values_ok t \<longleftrightarrow> int64_ok (t_Id t) \<and> int64_ok (t_Port t) \<and> int64_ok (h_timeout (t_Health t))
     \<and> int64_ok (h_max_fail (t_Health t)) \<and> int64_ok (h_interval (t_Health t)) \<and> rfc3339 (h_next (t_Health t))
     \<and> ascending (h_map (t_Health t)) \<and> list_all (int64_ok \<circ> snd) (h_map (t_Health t))
     \<and> (\<forall>m. t_MultiAccount t = Some m \<longrightarrow> ascending m)"

definition stored_tunnel :: "tunnel \<Rightarrow> tunnel" where
  "stored_tunnel t = t\<lparr>t_Client := None, t_Target := map_option (\<lambda>x. x\<lparr>tg_nowIndex := 0\<rparr>) (t_Target t)\<rparr>"

lemma tunnel_read_back:
  assumes "tunnel_values_ok t" and "\<forall>c. p = Some c \<longrightarrow> npc_numbers_ok c"
  shows "tunnel_of_json (tunnel_to_json (t, p)) =
    Some (stored_tunnel t, map_option (\<lambda>c. c\<lparr>c_Rate := stored_rate (c_Rate c)\<rparr>) p)"
  using assms(1) npc_ptr_back [OF assms(2)]
  by (simp add: tunnel_of_json_def tunnel_to_json_def codec_simps tunnel_fields_def zero_tunnel_def of_fst_def
      of_health_def stored_tunnel_def tunnel_values_ok_def js_time_def no_health_def comp_def)

section \<open>The text of an object\<close>

lemma json_ok_fields_iff:
  "list_all (\<lambda>(t, g, _). valid_utf8 t \<and> json_ok (g x)) fs \<Longrightarrow> json_ok (fields_to_json fs x)"
  by (auto simp: fields_to_json_def list_all_iff)

lemma json_ok_strings [simp]: "list_all valid_utf8 xs \<Longrightarrow> json_ok (to_js_strings xs)"
  by (auto simp: to_js_strings_def list_all_iff)

lemma json_ok_ptr [simp]:
  "(\<And>x. p = Some x \<Longrightarrow> json_ok (to_js x)) \<Longrightarrow> json_ok (to_js_ptr to_js p)"
  by (cases p) (simp_all add: to_js_ptr_def)

lemma json_ok_flow [simp]: "json_ok (fields_to_json flow_fields f)"
  by (rule json_ok_fields_iff) (simp add: flow_fields_def field_def tag_ok byte_in_def)

lemma json_ok_rate [simp]: "json_ok (fields_to_json rate_fields f)"
  by (rule json_ok_fields_iff) (simp add: rate_fields_def field_def tag_ok byte_in_def)

definition npc_text_ok :: "npc \<Rightarrow> bool" where
  "npc_text_ok c \<longleftrightarrow>
     list_all valid_utf8 [c_VerifyKey c, c_Addr c, c_LocalAddr c, c_Remark c, c_WebUserName c, c_WebPassword c,
       c_Version c, c_CreateTime c, c_LastOnlineTime c, c_IpWhitePass c, c_ExpireTime c]
     \<and> list_all valid_utf8 (c_BlackIpList c) \<and> list_all valid_utf8 (c_IpWhiteList c)
     \<and> (\<forall>f. c_Cnf c = Some f \<longrightarrow> valid_utf8 (cn_user f) \<and> valid_utf8 (cn_pass f))"

lemma json_ok_conn_config:
  "valid_utf8 (cn_user f) \<Longrightarrow> valid_utf8 (cn_pass f) \<Longrightarrow> json_ok (fields_to_json conn_config_fields f)"
  by (rule json_ok_fields_iff) (simp add: conn_config_fields_def field_def tag_ok byte_in_def)

lemma json_ok_npc:
  assumes "npc_text_ok c" shows "json_ok (npc_to_json c)"
  unfolding npc_to_json_def
proof (rule json_ok_fields_iff)
  have "\<And>f. c_Cnf c = Some f \<Longrightarrow> json_ok (fields_to_json conn_config_fields f)"
    using assms json_ok_conn_config by (simp add: npc_text_ok_def)
  then show "list_all (\<lambda>(t, g, _). valid_utf8 t \<and> json_ok (g c)) npc_fields"
    using assms by (simp add: npc_fields_def field_def tag_ok byte_in_def npc_text_ok_def)
qed

text \<open>A printed value has no line feed.\<close>

lemma hex_char_not_LF: "d < 16 \<Longrightarrow> hex_char d \<noteq> CHR 0x0A"
proof
  assume d: "d < 16" and "hex_char d = CHR 0x0A"
  then have "hex_val CHR 0x0A = Some d" using hex_val_hex_char by metis
  then show False by (simp add: hex_val_def is_digit_def)
qed

lemma hex4_no_LF: "CHR 0x0A \<notin> set (hex4 n)"
  using hex_char_not_LF by (auto simp: hex4_def) (metis mod_less_divisor zero_less_numeral)+

lemma escape_rune_single: "CHR 0x0A \<notin> set (escape_rune [c])"
  using hex4_no_LF by (simp add: escape_rune_def)

lemma escape_rune_long: "2 \<le> length r \<Longrightarrow> CHR 0x0A \<notin> set r \<Longrightarrow> CHR 0x0A \<notin> set (escape_rune r)"
proof -
  assume "2 \<le> length r" and r: "CHR 0x0A \<notin> set r"
  then obtain a b t where "r = a # b # t" by (cases r rule: remdups_adj.cases) auto
  then have "escape_rune r \<in> {[CHR 0x5C] @ ''u2028'', [CHR 0x5C] @ ''u2029'', r}"
    by (simp add: escape_rune_def)
  then show ?thesis using r by (elim insertE) simp_all
qed

lemma high_not_LF: "byte_in c lo hi \<Longrightarrow> 0x80 \<le> lo \<Longrightarrow> c \<noteq> CHR 0x0A"
  by (auto simp: byte_in_def)

lemma escape_rune_no_LF:
  assumes "rune_len s \<noteq> 0"
  shows "CHR 0x0A \<notin> set (escape_rune (take (rune_len s) s))"
proof -
  have nth: "take n s = map (\<lambda>i. s ! i) [0..<n]" if "n \<le> length s" for n
    using that by (simp add: list_eq_iff_nth_eq)
  consider "rune_len s = 1" "1 \<le> length s"
    | "rune_len s = 2" "2 \<le> length s" "lead2 (s ! 0) (s ! 1)"
    | "rune_len s = 3" "3 \<le> length s" "lead3 (s ! 0) (s ! 1) (s ! 2)"
    | "rune_len s = 4" "4 \<le> length s" "lead4 (s ! 0) (s ! 1) (s ! 2) (s ! 3)"
    using assms unfolding rune_len_def by (cases s) (auto split: if_splits)
  then show ?thesis
  proof cases
    case 1
    then show ?thesis using escape_rune_single by (simp add: nth)
  next
    case 2
    then have "take 2 s = [s ! 0, s ! 1]" by (simp add: nth numeral_2_eq_2)
    moreover have "s ! 0 \<noteq> CHR 0x0A" "s ! 1 \<noteq> CHR 0x0A"
      using 2(3) unfolding lead2_def by (auto dest: high_not_LF)
    ultimately show ?thesis using 2(1) by (simp add: escape_rune_long)
  next
    case 3
    then have "take 3 s = [s ! 0, s ! 1, s ! 2]" by (simp add: nth numeral_3_eq_3 numeral_2_eq_2)
    moreover have "s ! 0 \<noteq> CHR 0x0A" "s ! 1 \<noteq> CHR 0x0A" "s ! 2 \<noteq> CHR 0x0A"
      using 3(3) unfolding lead3_def by (auto dest: high_not_LF)
    ultimately show ?thesis using 3(1) by (simp add: escape_rune_long)
  next
    case 4
    then have "take 4 s = [s ! 0, s ! 1, s ! 2, s ! 3]" by (simp add: nth eval_nat_numeral)
    moreover have "s ! 0 \<noteq> CHR 0x0A" "s ! 1 \<noteq> CHR 0x0A" "s ! 2 \<noteq> CHR 0x0A" "s ! 3 \<noteq> CHR 0x0A"
      using 4(3) unfolding lead4_def by (auto dest: high_not_LF)
    ultimately show ?thesis using 4(1) by (simp add: escape_rune_long)
  qed
qed

lemma quote_no_LF: "CHR 0x0A \<notin> set (quote s)"
proof -
  have "CHR 0x0A \<notin> set (escape_string s)"
  proof (induction s rule: escape_string.induct)
    case (1 s)
    then show ?case using escape_rune_no_LF by (subst escape_string.simps) simp
  qed
  then show ?thesis by (simp add: quote_def)
qed

lemma fmt_int_no_LF: "CHR 0x0A \<notin> set (fmt_int i)"
  unfolding fmt_int_def using dec_digits [of "CHR 0x0A"] by (auto simp: is_digit_def)

lemma print_no_LF:
  "json_ok j \<Longrightarrow> CHR 0x0A \<notin> set (print_json j)"
  "list_all json_ok js \<Longrightarrow> CHR 0x0A \<notin> set (print_items js)"
  "list_all (json_ok \<circ> snd) kvs \<Longrightarrow> CHR 0x0A \<notin> set (print_members kvs)"
  using quote_no_LF fmt_int_no_LF
  by (induction j and js and kvs rule: print_json_print_items_print_members.induct)
    (auto simp: list_all_iff case_prod_beta)

end
