(* ===== verification/Nps_Sort.thy ===== *)
theory Nps_Sort
  imports Nps_Objects "HOL-Library.Multiset"
begin

text \<open>
  Ordering and paging of listings: \<^verbatim>\<open>nps-master/lib/file/sort.go\<close> and the paging
  functions of \<^verbatim>\<open>db.go\<close>. \<^verbatim>\<open>sort.SliceStable\<close> is stable insertion; that the
  comparison of every column is a strict weak order makes its result the only sorted and stable
  rearrangement. \<^verbatim>\<open>strings.ToLower\<close>, which compares texts, is an argument.
\<close>

section \<open>Comparisons\<close>

definition lessBool :: "bool \<Rightarrow> bool \<Rightarrow> bool \<Rightarrow> bool" where
  "lessBool a b asc = (if a = b then False else if asc then \<not> a \<and> b else a \<and> \<not> b)"

definition lessInt :: "int \<Rightarrow> int \<Rightarrow> bool \<Rightarrow> bool" where
  "lessInt a b asc = (if asc then a < b else a > b)"

definition lessInt64 :: "64 word \<Rightarrow> 64 word \<Rightarrow> bool \<Rightarrow> bool" where
  "lessInt64 a b asc = (if asc then sint a < sint b else sint a > sint b)"

definition lessString :: "(string \<Rightarrow> string) \<Rightarrow> string \<Rightarrow> string \<Rightarrow> bool \<Rightarrow> bool" where
  "lessString lower a b asc = (if asc then lower a < lower b else lower a > lower b)"

definition flowInlet :: "npc \<Rightarrow> 64 word" where
  "flowInlet c = (case c_Flow c of None \<Rightarrow> 0 | Some f \<Rightarrow> fl_inlet f)"

definition flowExport :: "npc \<Rightarrow> 64 word" where
  "flowExport c = (case c_Flow c of None \<Rightarrow> 0 | Some f \<Rightarrow> fl_export f)"

definition nowRate :: "npc \<Rightarrow> 64 word" where
  "nowRate c = (case c_Rate c of None \<Rightarrow> 0 | Some r \<Rightarrow> rt_now r)"

definition client_less :: "(string \<Rightarrow> string) \<Rightarrow> string \<Rightarrow> bool \<Rightarrow> npc \<Rightarrow> npc \<Rightarrow> bool" where
  "client_less lower sortField asc a b =
     (if sortField = ''Id'' then lessInt (c_Id a) (c_Id b) asc
      else if sortField = ''Remark'' then lessString lower (c_Remark a) (c_Remark b) asc
      else if sortField = ''Version'' then lessString lower (c_Version a) (c_Version b) asc
      else if sortField = ''VerifyKey'' then lessString lower (c_VerifyKey a) (c_VerifyKey b) asc
      else if sortField = ''Addr'' then lessString lower (c_Addr a) (c_Addr b) asc
      else if sortField = ''LocalAddr'' then lessString lower (c_LocalAddr a) (c_LocalAddr b) asc
      else if sortField = ''InletFlow'' then lessInt64 (flowInlet a) (flowInlet b) asc
      else if sortField = ''ExportFlow'' then lessInt64 (flowExport a) (flowExport b) asc
      else if sortField = ''NowRate'' then lessInt64 (nowRate a) (nowRate b) asc
      else if sortField = ''Status'' then lessBool (c_Status a) (c_Status b) asc
      else if sortField = ''IsConnect'' then lessBool (c_IsConnect a) (c_IsConnect b) asc
      else lessInt (c_Id a) (c_Id b) True)"

text \<open>A tunnel or host comes with the client it points to.\<close>

type_synonym 'a owned = "'a \<times> npc option"

definition owner_id :: "'a owned \<Rightarrow> int" where
  "owner_id x = (case snd x of None \<Rightarrow> 0 | Some c \<Rightarrow> c_Id c)"

definition owner_vkey :: "'a owned \<Rightarrow> string" where
  "owner_vkey x = (case snd x of None \<Rightarrow> [] | Some c \<Rightarrow> c_VerifyKey c)"

definition owner_connected :: "'a owned \<Rightarrow> bool" where
  "owner_connected x = (case snd x of None \<Rightarrow> False | Some c \<Rightarrow> c_IsConnect c)"

definition target_str :: "target option \<Rightarrow> string" where
  "target_str t = (case t of None \<Rightarrow> [] | Some x \<Rightarrow> tg_TargetStr x)"

definition tunnel_less :: "(string \<Rightarrow> string) \<Rightarrow> string \<Rightarrow> bool \<Rightarrow> tunnel owned \<Rightarrow> tunnel owned \<Rightarrow> bool" where
  "tunnel_less lower sortField asc a b =
     (if sortField = ''Id'' then lessInt (t_Id (fst a)) (t_Id (fst b)) asc
      else if sortField = ''ClientId'' then lessInt (owner_id a) (owner_id b) asc
      else if sortField = ''Remark'' then lessString lower (t_Remark (fst a)) (t_Remark (fst b)) asc
      else if sortField \<in> {''Client.VerifyKey'', ''VerifyKey''} then lessString lower (owner_vkey a) (owner_vkey b) asc
      else if sortField = ''Mode'' then lessString lower (t_Mode (fst a)) (t_Mode (fst b)) asc
      else if sortField = ''Port'' then lessInt (t_Port (fst a)) (t_Port (fst b)) asc
      else if sortField = ''Target'' then lessString lower (target_str (t_Target (fst a))) (target_str (t_Target (fst b))) asc
      else if sortField = ''Password'' then lessString lower (t_Password (fst a)) (t_Password (fst b)) asc
      else if sortField = ''Status'' then lessBool (t_Status (fst a)) (t_Status (fst b)) asc
      else if sortField = ''RunStatus'' then lessBool (t_RunStatus (fst a)) (t_RunStatus (fst b)) asc
      else if sortField \<in> {''IsConnect'', ''Client.IsConnect''} then lessBool (owner_connected a) (owner_connected b) asc
      else lessInt (t_Id (fst a)) (t_Id (fst b)) True)"

definition host_less :: "(string \<Rightarrow> string) \<Rightarrow> string \<Rightarrow> bool \<Rightarrow> host owned \<Rightarrow> host owned \<Rightarrow> bool" where
  "host_less lower sortField asc a b =
     (if sortField = ''Id'' then lessInt (h_Id (fst a)) (h_Id (fst b)) asc
      else if sortField = ''ClientId'' then lessInt (owner_id a) (owner_id b) asc
      else if sortField = ''Remark'' then lessString lower (h_Remark (fst a)) (h_Remark (fst b)) asc
      else if sortField \<in> {''Client.VerifyKey'', ''VerifyKey''} then lessString lower (owner_vkey a) (owner_vkey b) asc
      else if sortField = ''Host'' then lessString lower (h_Host (fst a)) (h_Host (fst b)) asc
      else if sortField = ''Scheme'' then lessString lower (h_Scheme (fst a)) (h_Scheme (fst b)) asc
      else if sortField = ''Target'' then lessString lower (target_str (h_Target (fst a))) (target_str (h_Target (fst b))) asc
      else if sortField = ''Location'' then lessString lower (h_Location (fst a)) (h_Location (fst b)) asc
      else if sortField \<in> {''IsClose'', ''Status''} then lessBool (h_IsClose (fst a)) (h_IsClose (fst b)) asc
      else if sortField \<in> {''IsConnect'', ''Client.IsConnect''} then lessBool (owner_connected a) (owner_connected b) asc
      else lessInt (h_Id (fst a)) (h_Id (fst b)) True)"

section \<open>Sorting\<close>

fun insert_by :: "('a \<Rightarrow> 'a \<Rightarrow> bool) \<Rightarrow> 'a \<Rightarrow> 'a list \<Rightarrow> 'a list" where
  "insert_by lt x [] = [x]"
| "insert_by lt x (y # ys) = (if lt y x then y # insert_by lt x ys else x # y # ys)"

definition SliceStable :: "('a \<Rightarrow> 'a \<Rightarrow> bool) \<Rightarrow> 'a list \<Rightarrow> 'a list" where
  "SliceStable lt xs = foldr (insert_by lt) xs []"

definition sort_listing :: "('a \<Rightarrow> int) \<Rightarrow> (string \<Rightarrow> bool \<Rightarrow> 'a \<Rightarrow> 'a \<Rightarrow> bool) \<Rightarrow> string \<Rightarrow> string \<Rightarrow> 'a list \<Rightarrow> 'a list" where
  "sort_listing ident lt sortField order list =
     (if sortField = [] \<or> length list < 2 then
        (if sortField = [] \<and> length list > 1 then SliceStable (\<lambda>a b. ident a < ident b) list else list)
      else let asc = order \<noteq> ''desc'' in SliceStable (lt sortField asc) list)"

definition SortClients :: "(string \<Rightarrow> string) \<Rightarrow> string \<Rightarrow> string \<Rightarrow> npc list \<Rightarrow> npc list" where
  "SortClients lower = sort_listing c_Id (client_less lower)"

definition SortTunnels :: "(string \<Rightarrow> string) \<Rightarrow> string \<Rightarrow> string \<Rightarrow> tunnel owned list \<Rightarrow> tunnel owned list" where
  "SortTunnels lower = sort_listing (t_Id \<circ> fst) (tunnel_less lower)"

definition SortHosts :: "(string \<Rightarrow> string) \<Rightarrow> string \<Rightarrow> string \<Rightarrow> host owned list \<Rightarrow> host owned list" where
  "SortHosts lower = sort_listing (h_Id \<circ> fst) (host_less lower)"

section \<open>Strict weak orders\<close>

text \<open>What a sorted and stable rearrangement is: nothing out of order, and elements that compare
  equal in the order they had.\<close>

definition same_place :: "('a \<Rightarrow> 'a \<Rightarrow> bool) \<Rightarrow> 'a \<Rightarrow> 'a \<Rightarrow> bool" where
  "same_place lt a b \<longleftrightarrow> \<not> lt a b \<and> \<not> lt b a"

definition stable_sorted :: "('a \<Rightarrow> 'a \<Rightarrow> bool) \<Rightarrow> 'a list \<Rightarrow> 'a list \<Rightarrow> bool" where
  "stable_sorted lt xs ys \<longleftrightarrow> mset ys = mset xs \<and> sorted_wrt (\<lambda>a b. \<not> lt b a) ys
     \<and> (\<forall>a. filter (same_place lt a) ys = filter (same_place lt a) xs)"

locale weak_order =
  fixes lt :: "'a \<Rightarrow> 'a \<Rightarrow> bool"
  assumes asym: "lt a b \<Longrightarrow> \<not> lt b a"
    and not_less_trans: "\<not> lt a b \<Longrightarrow> \<not> lt b c \<Longrightarrow> \<not> lt a c"
begin

lemma same_place_sym: "same_place lt a b \<Longrightarrow> same_place lt b a"
  by (simp add: same_place_def)

lemma same_place_trans: "same_place lt a b \<Longrightarrow> same_place lt b c \<Longrightarrow> same_place lt a c"
  using not_less_trans by (auto simp: same_place_def)

lemma same_place_refl: "same_place lt a a"
  using asym by (auto simp: same_place_def)

lemma mset_insert_by [simp]: "mset (insert_by lt x ys) = add_mset x (mset ys)"
  by (induction ys) auto

lemma set_insert_by [simp]: "set (insert_by lt x ys) = insert x (set ys)"
  by (induction ys) auto

lemma sorted_insert_by:
  "sorted_wrt (\<lambda>a b. \<not> lt b a) ys \<Longrightarrow> sorted_wrt (\<lambda>a b. \<not> lt b a) (insert_by lt x ys)"
proof (induction ys)
  case (Cons y ys)
  show ?case
  proof (cases "lt y x")
    case True
    then show ?thesis using Cons asym by simp
  next
    case False
    then have "\<not> lt z x" if "z \<in> set ys" for z using Cons.prems that not_less_trans [of z y x] by simp
    then show ?thesis using False Cons.prems by simp
  qed
qed simp

lemma filter_insert_by:
  assumes "sorted_wrt (\<lambda>a b. \<not> lt b a) ys"
  shows "filter (same_place lt a) (insert_by lt x ys) =
     (if same_place lt a x then x # filter (same_place lt a) ys else filter (same_place lt a) ys)"
  using assms
proof (induction ys)
  case (Cons y ys)
  have "\<not> (same_place lt a x \<and> same_place lt a y)" if "lt y x"
    using that same_place_trans [OF same_place_sym, of a y x] by (auto simp: same_place_def)
  then show ?case using Cons by auto
qed simp

lemma SliceStable_sorted: "sorted_wrt (\<lambda>a b. \<not> lt b a) (SliceStable lt xs)"
  by (induction xs) (simp_all add: SliceStable_def sorted_insert_by)

lemma SliceStable_stable: "stable_sorted lt xs (SliceStable lt xs)"
proof -
  have "mset (SliceStable lt xs) = mset xs" by (induction xs) (simp_all add: SliceStable_def)
  moreover have "filter (same_place lt a) (SliceStable lt xs) = filter (same_place lt a) xs" for a
    using SliceStable_sorted
    by (induction xs) (simp_all add: SliceStable_def filter_insert_by)
  ultimately show ?thesis using SliceStable_sorted by (simp add: stable_sorted_def)
qed

text \<open>There is only one such rearrangement: its first element is the first of its class.\<close>

lemma stable_sorted_unique:
  assumes "sorted_wrt (\<lambda>a b. \<not> lt b a) ys" and "sorted_wrt (\<lambda>a b. \<not> lt b a) zs" and "mset ys = mset zs"
    and "\<And>a. filter (same_place lt a) ys = filter (same_place lt a) zs"
  shows "ys = zs"
  using assms
proof (induction ys arbitrary: zs)
  case (Cons y ys)
  then obtain z zs' where zs: "zs = z # zs'" by (cases zs) auto
  have "y \<in> set zs" "z \<in> set (y # ys)" using Cons.prems(3) zs by (metis list.set_intros(1) set_mset_mset)+
  then have "same_place lt y z" using Cons.prems(1,2) zs same_place_refl by (auto simp: same_place_def)
  then have "y = z" using Cons.prems(4) [of y] same_place_refl zs by simp
  moreover have "ys = zs'"
  proof (rule Cons.IH)
    show "filter (same_place lt a) ys = filter (same_place lt a) zs'" for a
      using Cons.prems(4) [of a] zs \<open>y = z\<close> by (auto split: if_splits)
  qed (use Cons.prems zs \<open>y = z\<close> in simp_all)
  ultimately show ?case using zs by simp
qed simp

lemma SliceStable_iff: "SliceStable lt xs = ys \<longleftrightarrow> stable_sorted lt xs ys"
proof
  assume "stable_sorted lt xs ys"
  then show "SliceStable lt xs = ys"
    using stable_sorted_unique [of "SliceStable lt xs" ys] SliceStable_stable [of xs]
    unfolding stable_sorted_def by metis
qed (use SliceStable_stable in blast)

end

lemma less_weak_order:
  "weak_order (\<lambda>a b. lessInt (f a) (f b) asc)" "weak_order (\<lambda>a b. lessInt64 (g a) (g b) asc)"
  "weak_order (\<lambda>a b. lessString lower (h a) (h b) asc)" "weak_order (\<lambda>a b. lessBool (k a) (k b) asc)"
  by (unfold_locales; auto simp: lessInt_def lessInt64_def lessString_def lessBool_def split: if_splits)+

lemma weak_order_if:
  "weak_order f \<Longrightarrow> weak_order g \<Longrightarrow> weak_order (\<lambda>a b. if c then f a b else g a b)"
  by (cases c) simp_all

interpretation client_columns: weak_order "client_less lower sortField asc" for lower sortField asc
  unfolding client_less_def [abs_def] by (intro weak_order_if less_weak_order)

interpretation tunnel_columns: weak_order "tunnel_less lower sortField asc" for lower sortField asc
  unfolding tunnel_less_def [abs_def] by (intro weak_order_if less_weak_order)

interpretation host_columns: weak_order "host_less lower sortField asc" for lower sortField asc
  unfolding host_less_def [abs_def] by (intro weak_order_if less_weak_order)

interpretation by_ident: weak_order "\<lambda>a b. (ident a :: int) < ident b" for ident
  by unfold_locales auto

section \<open>Pages\<close>

text \<open>\<^verbatim>\<open>start + length\<close> is computed in 64 bits; a slice whose end lies before its start
  panics, which is \<open>None\<close>.\<close>

definition paginate :: "'a list \<Rightarrow> int \<Rightarrow> int \<Rightarrow> ('a list \<times> int) option" where
  "paginate all_list start len =
     (let cnt = int (length all_list); start = (if start < 0 then 0 else start)
      in if len \<le> 0 then Some ([], cnt)
         else if start \<ge> cnt then Some ([], cnt)
         else let e0 = as_int64 (start + len); e = (if e0 > cnt then cnt else e0)
              in if e < start then None
                 else Some (take (nat (e - start)) (drop (nat start) all_list), cnt))"


lemma as_int64_id: "- (2 ^ 63) \<le> v \<Longrightarrow> v < 2 ^ 63 \<Longrightarrow> as_int64 v = v"
  by (simp add: as_int64_def sint_sbintrunc' signed_take_bit_int_eq_self)

lemma paginate_page:
  assumes "0 < k" and "int s + int k < 2 ^ 63"
  shows "paginate xs (int s) (int k) = Some (take k (drop s xs), int (length xs))"
proof -
  have e: "as_int64 (int s + int k) = int s + int k" using assms(2) by (simp add: as_int64_id)
  consider "length xs \<le> s" | "s < length xs" "length xs < s + k" | "s + k \<le> length xs" by linarith
  then show ?thesis
  proof cases
    case 2
    then have "nat (int (length xs) - int s) = length xs - s" by linarith
    then show ?thesis using 2 assms(1) by (auto simp: paginate_def Let_def e)
  qed (use assms(1) in \<open>auto simp: paginate_def Let_def e\<close>)
qed

fun pages :: "nat \<Rightarrow> nat \<Rightarrow> 'a list \<Rightarrow> 'a list" where
  "pages k 0 xs = []"
| "pages k (Suc n) xs = pages k n xs @ take k (drop (n * k) xs)"

lemma pages_take: "pages k n xs = take (n * k) xs"
proof (induction n)
  case (Suc n)
  have "take (n * k + k) xs = take (n * k) xs @ take k (drop (n * k) xs)" by (rule take_add)
  then show ?case using Suc by (simp add: add.commute)
qed simp

end
