(* ===== verification/Nps_Db.thy ===== *)
theory Nps_Db
  imports Nps_Json Nps_Sort Store
begin

text \<open>
  The database of the tunnel server: \<^verbatim>\<open>nps-master/lib/file/file.go\<close> (its maps, counters
  and files) and \<^verbatim>\<open>db.go\<close> (its operations). Client objects have addresses, because tunnels
  and hosts keep pointers to them; a map is an association list in the order in which
  \<^verbatim>\<open>Range\<close> visits it. A nil pointer or a slice out of range that the code would run into is
  \<open>None\<close>. Which file operation fails, the joining of paths, the digest, random keys and the
  lower case of texts are arguments or parts of the state.
\<close>

section \<open>State\<close>

datatype store_fault = StoreOk | NoTmpFile | WriteBreaks | RenameBreaks

record db =
  db_heap :: "cref \<Rightarrow> npc option"
  db_next :: cref
  db_clients :: "(int \<times> cref) list"
  db_tasks :: "(int \<times> tunnel) list"
  db_hosts :: "(int \<times> host) list"
  db_global :: "glob option"
  db_ClientIncreaseId :: "32 word"
  db_TaskIncreaseId :: "32 word"
  db_HostIncreaseId :: "32 word"
  db_TaskFilePath :: string
  db_HostFilePath :: string
  db_ClientFilePath :: string
  db_GlobalFilePath :: string
  db_files :: disk
  db_fault :: store_fault

definition NewJsonDb :: "(string list \<Rightarrow> string) \<Rightarrow> string \<Rightarrow> disk \<Rightarrow> db" where
  "NewJsonDb join runPath d =
     \<lparr>db_heap = (\<lambda>_. None), db_next = 0, db_clients = [], db_tasks = [], db_hosts = [], db_global = None,
      db_ClientIncreaseId = 0, db_TaskIncreaseId = 0, db_HostIncreaseId = 0,
      db_TaskFilePath = join [runPath, ''conf'', ''tasks.json''],
      db_HostFilePath = join [runPath, ''conf'', ''hosts.json''],
      db_ClientFilePath = join [runPath, ''conf'', ''clients.json''],
      db_GlobalFilePath = join [runPath, ''conf'', ''global.json''],
      db_files = d, db_fault = StoreOk\<rparr>"

definition GetClientId :: "db \<Rightarrow> int \<times> db" where
  "GetClientId s = (let n = db_ClientIncreaseId s + 1 in (sint n, s\<lparr>db_ClientIncreaseId := n\<rparr>))"

definition GetTaskId :: "db \<Rightarrow> int \<times> db" where
  "GetTaskId s = (let n = db_TaskIncreaseId s + 1 in (sint n, s\<lparr>db_TaskIncreaseId := n\<rparr>))"

definition GetHostId :: "db \<Rightarrow> int \<times> db" where
  "GetHostId s = (let n = db_HostIncreaseId s + 1 in (sint n, s\<lparr>db_HostIncreaseId := n\<rparr>))"

text \<open>The object a pointer of the maps leads to.\<close>

definition client_at :: "db \<Rightarrow> cref \<Rightarrow> npc" where
  "client_at s r = (case db_heap s r of None \<Rightarrow> zero_npc | Some c \<Rightarrow> c)"

definition set_client_at :: "cref \<Rightarrow> npc \<Rightarrow> db \<Rightarrow> db" where
  "set_client_at r c s = s\<lparr>db_heap := (db_heap s)(r \<mapsto> c)\<rparr>"

definition clients_of :: "db \<Rightarrow> npc list" where
  "clients_of s = map (\<lambda>(_, r). client_at s r) (db_clients s)"

definition store_new_client :: "npc \<Rightarrow> db \<Rightarrow> db" where
  "store_new_client c s = s\<lparr>db_heap := (db_heap s)(db_next s \<mapsto> c), db_next := Suc (db_next s),
     db_clients := AList.update (c_Id c) (db_next s) (db_clients s)\<rparr>"

definition owner_of :: "db \<Rightarrow> cref option \<Rightarrow> npc option" where
  "owner_of s p = map_option (client_at s) p"

definition db_GetClient :: "int \<Rightarrow> db \<Rightarrow> cref option" where
  "db_GetClient i s = map_of (db_clients s) i"

definition GetTask :: "int \<Rightarrow> db \<Rightarrow> tunnel option" where "GetTask i s = map_of (db_tasks s) i"
definition GetHostById :: "int \<Rightarrow> db \<Rightarrow> host option" where "GetHostById i s = map_of (db_hosts s) i"

section \<open>Files\<close>

definition segment_end :: string where "segment_end = CHR 0x0A # CONN_DATA_SEQ"

definition storeSyncMapToFile :: "store_fault \<Rightarrow> string list \<Rightarrow> string \<Rightarrow> disk \<Rightarrow> disk" where
  "storeSyncMapToFile fault objs path d =
     (let tmp = path @ ''.tmp''
      in case fault of
           NoTmpFile \<Rightarrow> d
         | WriteBreaks \<Rightarrow> d(tmp := None)
         | RenameBreaks \<Rightarrow> d(tmp := None)
         | StoreOk \<Rightarrow> d(path \<mapsto> concat (map (\<lambda>b. b @ segment_end) objs), tmp := None))"

definition storeGlobalToFile :: "store_fault \<Rightarrow> glob option \<Rightarrow> string \<Rightarrow> disk \<Rightarrow> disk" where
  "storeGlobalToFile fault m path d =
     (let tmp = path @ ''.tmp''
      in case fault of
           NoTmpFile \<Rightarrow> d
         | WriteBreaks \<Rightarrow> d(tmp := None)
         | RenameBreaks \<Rightarrow> d(tmp := None)
         | StoreOk \<Rightarrow> d(path \<mapsto> print_json (to_js_ptr (fields_to_json glob_fields) m), tmp := None))"

definition StoreClientsToJsonFile :: "db \<Rightarrow> db" where
  "StoreClientsToJsonFile s = s\<lparr>db_files := storeSyncMapToFile (db_fault s)
     (map (\<lambda>c. print_json (npc_to_json c)) (filter (\<lambda>c. \<not> c_NoStore c) (clients_of s)))
     (db_ClientFilePath s) (db_files s)\<rparr>"

definition StoreTasksToJsonFile :: "db \<Rightarrow> db" where
  "StoreTasksToJsonFile s = s\<lparr>db_files := storeSyncMapToFile (db_fault s)
     (map (\<lambda>t. print_json (tunnel_to_json (t, owner_of s (t_Client t))))
       (filter (\<lambda>t. \<not> t_NoStore t) (map snd (db_tasks s))))
     (db_TaskFilePath s) (db_files s)\<rparr>"

definition StoreHostToJsonFile :: "db \<Rightarrow> db" where
  "StoreHostToJsonFile s = s\<lparr>db_files := storeSyncMapToFile (db_fault s)
     (map (\<lambda>h. print_json (host_to_json (h, owner_of s (h_Client h))))
       (filter (\<lambda>h. \<not> h_NoStore h) (map snd (db_hosts s))))
     (db_HostFilePath s) (db_files s)\<rparr>"

definition StoreGlobalToJsonFile :: "db \<Rightarrow> db" where
  "StoreGlobalToJsonFile s = s\<lparr>db_files := storeGlobalToFile (db_fault s) (db_global s) (db_GlobalFilePath s) (db_files s)\<rparr>"

text \<open>Loading: every segment is decoded on its own and skipped when it cannot be; the JSON value
  null leaves a nil pointer behind, which is then used.\<close>

fun each_segment :: "(string \<Rightarrow> db \<Rightarrow> db option) \<Rightarrow> string list \<Rightarrow> db \<Rightarrow> db option" where
  "each_segment f [] s = Some s"
| "each_segment f (v # vs) s = Option.bind (f v s) (each_segment f vs)"

definition loadSyncMapFromFile :: "(string \<Rightarrow> db \<Rightarrow> db option) \<Rightarrow> string \<Rightarrow> db \<Rightarrow> db option" where
  "loadSyncMapFromFile f path s =
     (case db_files s path of
        None \<Rightarrow> Some s
      | Some b \<Rightarrow> each_segment f (Split CHR 0x0A CONN_DATA_SEQ b) s)"

definition unmarshal :: "(json \<Rightarrow> 'a option) \<Rightarrow> string \<Rightarrow> ('a \<Rightarrow> db \<Rightarrow> db option) \<Rightarrow> db \<Rightarrow> db option" where
  "unmarshal of_js v act s =
     (case parse_json v of
        None \<Rightarrow> Some s
      | Some j \<Rightarrow>
          if j = JNull then None
          else (case of_js j of None \<Rightarrow> Some s | Some post \<Rightarrow> act post s))"

definition loaded_npc :: "npc \<Rightarrow> npc" where
  "loaded_npc post = post
     \<lparr>c_Rate := Some (if c_RateLimit post > 0 then NewRate (as_int64 (c_RateLimit post * 1024)) else NewRate unlimited),
      c_NowConn := 0\<rparr>"

definition load_client :: "string \<Rightarrow> db \<Rightarrow> db option" where
  "load_client v = unmarshal (npc_of_json zero_npc) v (\<lambda>post s.
     let s1 = store_new_client (loaded_npc post) s
     in Some (if c_Id post > sint (db_ClientIncreaseId s1)
              then s1\<lparr>db_ClientIncreaseId := word_of_int (c_Id post)\<rparr> else s1))"

definition load_task :: "string \<Rightarrow> db \<Rightarrow> db option" where
  "load_task v = unmarshal tunnel_of_json v (\<lambda>(post, owner) s.
     case owner of
       None \<Rightarrow> None
     | Some c \<Rightarrow>
         (case db_GetClient (c_Id c) s of
            None \<Rightarrow> Some s
          | Some r \<Rightarrow>
              let s1 = s\<lparr>db_tasks := AList.update (t_Id post) (post\<lparr>t_Client := Some r\<rparr>) (db_tasks s)\<rparr>
              in Some (if t_Id post > sint (db_TaskIncreaseId s1)
                       then s1\<lparr>db_TaskIncreaseId := word_of_int (t_Id post)\<rparr> else s1)))"

definition load_host :: "string \<Rightarrow> db \<Rightarrow> db option" where
  "load_host v = unmarshal host_of_json v (\<lambda>(post, owner) s.
     case owner of
       None \<Rightarrow> None
     | Some c \<Rightarrow>
         (case db_GetClient (c_Id c) s of
            None \<Rightarrow> Some s
          | Some r \<Rightarrow>
              let s1 = s\<lparr>db_hosts := AList.update (h_Id post) (post\<lparr>h_Client := Some r\<rparr>) (db_hosts s)\<rparr>
              in Some (if h_Id post > sint (db_HostIncreaseId s1)
                       then s1\<lparr>db_HostIncreaseId := word_of_int (h_Id post)\<rparr> else s1)))"

definition LoadClientFromJsonFile :: "db \<Rightarrow> db option" where
  "LoadClientFromJsonFile s = loadSyncMapFromFile load_client (db_ClientFilePath s) s"

definition LoadTaskFromJsonFile :: "db \<Rightarrow> db option" where
  "LoadTaskFromJsonFile s = loadSyncMapFromFile load_task (db_TaskFilePath s) s"

definition LoadHostFromJsonFile :: "db \<Rightarrow> db option" where
  "LoadHostFromJsonFile s = loadSyncMapFromFile load_host (db_HostFilePath s) s"

definition LoadGlobalFromJsonFile :: "db \<Rightarrow> db" where
  "LoadGlobalFromJsonFile s =
     (case db_files s (db_GlobalFilePath s) of
        None \<Rightarrow> s
      | Some b \<Rightarrow>
          (case parse_json b of
             None \<Rightarrow> s
           | Some j \<Rightarrow>
               (case js_ptr (fields_of_json glob_fields) \<lparr>g_BlackIpList = [], g_ServerUrl = []\<rparr> j None of
                  None \<Rightarrow> s
                | Some g \<Rightarrow> s\<lparr>db_global := g\<rparr>)))"

definition GetDb :: "(string list \<Rightarrow> string) \<Rightarrow> string \<Rightarrow> disk \<Rightarrow> db option" where
  "GetDb join runPath d =
     Option.bind (LoadClientFromJsonFile (NewJsonDb join runPath d)) (\<lambda>s1.
     Option.bind (LoadTaskFromJsonFile s1) (\<lambda>s2.
     map_option LoadGlobalFromJsonFile (LoadHostFromJsonFile s2)))"

section \<open>Clients\<close>

datatype db_error =
  NotFound | SecretTaken string | HostTaken | NameTaken | VkeyTaken | NoSuchClient | NoSuchHost

definition VerifyVkey :: "string \<Rightarrow> int \<Rightarrow> db \<Rightarrow> bool" where
  "VerifyVkey vkey i s = (List.find (\<lambda>v. c_VerifyKey v = vkey \<and> c_Id v \<noteq> i) (clients_of s) = None)"

definition VerifyUserName :: "string \<Rightarrow> int \<Rightarrow> db \<Rightarrow> bool" where
  "VerifyUserName username i s = (List.find (\<lambda>v. c_WebUserName v = username \<and> c_Id v \<noteq> i) (clients_of s) = None)"

definition new_rate :: "npc \<Rightarrow> npc" where
  "new_rate c =
     (if c_RateLimit c = 0 then c\<lparr>c_Rate := Some (NewRate unlimited)\<rparr>
      else if c_Rate c = None then c\<lparr>c_Rate := Some (NewRate (as_int64 (c_RateLimit c * 1024)))\<rparr>
      else c)"

text \<open>The loop at the label \<^verbatim>\<open>reset\<close>: a client without a key draws keys until one is not in
  use; \<open>keys\<close> is what the generator returns, and \<open>None\<close> means that it is still drawing.\<close>

fun draw_key :: "string list \<Rightarrow> npc \<Rightarrow> db \<Rightarrow> npc option" where
  "draw_key [] c s = None"
| "draw_key (k # keys) c s =
     (let c1 = new_rate (c\<lparr>c_VerifyKey := k\<rparr>)
      in if VerifyVkey (c_VerifyKey c1) (c_Id c1) s then Some c1 else draw_key keys c1 s)"

definition insert_client :: "npc \<Rightarrow> db \<Rightarrow> npc \<times> db" where
  "insert_client c s =
     (let (c1, s1) = (if c_Id c = 0 then (let (n, s1) = GetClientId s in (c\<lparr>c_Id := n\<rparr>, s1)) else (c, s));
          c2 = (if c_Flow c1 = None then c1\<lparr>c_Flow := Some new_flow\<rparr> else c1)
      in (c2, StoreClientsToJsonFile (store_new_client c2 s1)))"

definition db_NewClient :: "string list \<Rightarrow> npc \<Rightarrow> db \<Rightarrow> ((db_error + npc) \<times> db) option" where
  "db_NewClient keys c s =
     (if c_WebUserName c \<noteq> [] \<and> \<not> VerifyUserName (c_WebUserName c) (c_Id c) s then Some (Inl NameTaken, s)
      else if c_VerifyKey c = [] then
        (case draw_key keys c s of
           None \<Rightarrow> None
         | Some c1 \<Rightarrow> let (c2, s1) = insert_client c1 s in Some (Inr c2, s1))
      else
        let c1 = new_rate c
        in if \<not> VerifyVkey (c_VerifyKey c1) (c_Id c1) s then Some (Inl VkeyTaken, s)
           else let (c2, s1) = insert_client c1 s in Some (Inr c2, s1))"

definition DelClient :: "int \<Rightarrow> db \<Rightarrow> db" where
  "DelClient i s = StoreClientsToJsonFile (s\<lparr>db_clients := AList.delete i (db_clients s)\<rparr>)"

definition UpdateClient :: "cref \<Rightarrow> db \<Rightarrow> db" where
  "UpdateClient r s =
     (let t = client_at s r; s1 = s\<lparr>db_clients := AList.update (c_Id t) r (db_clients s)\<rparr>
      in if c_RateLimit t = 0 then set_client_at r (t\<lparr>c_Rate := Some (NewRate unlimited)\<rparr>) s1 else s1)"

definition IsPubClient :: "int \<Rightarrow> db \<Rightarrow> bool" where
  "IsPubClient i s = (case db_GetClient i s of None \<Rightarrow> False | Some r \<Rightarrow> c_NoDisplay (client_at s r))"

definition GetIdByVerifyKey :: "(string \<Rightarrow> string) \<Rightarrow> string \<Rightarrow> string \<Rightarrow> db \<Rightarrow> (db_error + int) \<times> db" where
  "GetIdByVerifyKey md5 vKey addr s =
     (case List.find (\<lambda>(_, r). md5 (c_VerifyKey (client_at s r)) = vKey \<and> c_Status (client_at s r)) (db_clients s) of
        None \<Rightarrow> (Inl NotFound, s)
      | Some (_, r) \<Rightarrow>
          let v = (client_at s r)\<lparr>c_Addr := GetIpByAddr addr\<rparr> in (Inr (c_Id v), set_client_at r v s))"

definition GetClientIdByVkey :: "(string \<Rightarrow> string) \<Rightarrow> string \<Rightarrow> db \<Rightarrow> db_error + int" where
  "GetClientIdByVkey md5 vkey s =
     (case List.find (\<lambda>v. md5 (c_VerifyKey v) = vkey) (clients_of s) of
        None \<Rightarrow> Inl NoSuchClient | Some v \<Rightarrow> Inr (c_Id v))"

definition GetClientByVkey :: "(string \<Rightarrow> string) \<Rightarrow> string \<Rightarrow> db \<Rightarrow> db_error + cref" where
  "GetClientByVkey md5 vkey s =
     (case List.find (\<lambda>(_, r). md5 (c_VerifyKey (client_at s r)) = vkey) (db_clients s) of
        None \<Rightarrow> Inl NoSuchClient | Some (_, r) \<Rightarrow> Inr r)"

definition client_matches :: "string \<Rightarrow> int \<Rightarrow> npc \<Rightarrow> bool" where
  "client_matches search clientId v \<longleftrightarrow>
     \<not> c_NoDisplay v \<and> \<not> (clientId \<noteq> 0 \<and> clientId \<noteq> c_Id v)
     \<and> \<not> (search \<noteq> [] \<and> \<not> (c_Id v = GetIntNoErrByStr search \<or> Contains (c_VerifyKey v) search
           \<or> Contains (c_Remark v) search \<or> Contains (c_Addr v) search \<or> Contains (c_LocalAddr v) search))"

definition db_GetClientList :: "(string \<Rightarrow> string) \<Rightarrow> int \<Rightarrow> int \<Rightarrow> string \<Rightarrow> string \<Rightarrow> string \<Rightarrow> int \<Rightarrow> db
    \<Rightarrow> (npc list \<times> int) option" where
  "db_GetClientList lower start len search sortField order clientId s =
     paginate (SortClients lower sortField order (filter (client_matches search clientId) (clients_of s))) start len"

section \<open>Tunnels\<close>

definition NewTask :: "tunnel \<Rightarrow> db \<Rightarrow> db_error option \<times> db" where
  "NewTask t s =
     (case List.find (\<lambda>v. (t_Mode v = ''secret'' \<or> t_Mode v = ''p2p'') \<and> t_Password v = t_Password t \<and> t_Password t \<noteq> [])
             (map snd (db_tasks s)) of
        Some v \<Rightarrow> (Some (SecretTaken (t_Password t)), s)
      | None \<Rightarrow> (None, StoreTasksToJsonFile
                (s\<lparr>db_tasks := AList.update (t_Id t) (t\<lparr>t_Flow := Some new_flow\<rparr>) (db_tasks s)\<rparr>)))"

definition UpdateTask :: "tunnel \<Rightarrow> db \<Rightarrow> db" where
  "UpdateTask t s = StoreTasksToJsonFile (s\<lparr>db_tasks := AList.update (t_Id t) t (db_tasks s)\<rparr>)"

definition db_DelTask :: "int \<Rightarrow> db \<Rightarrow> db" where
  "db_DelTask i s = StoreTasksToJsonFile (s\<lparr>db_tasks := AList.delete i (db_tasks s)\<rparr>)"

definition SaveGlobal :: "glob \<Rightarrow> db \<Rightarrow> db" where
  "SaveGlobal g s = StoreGlobalToJsonFile (s\<lparr>db_global := Some g\<rparr>)"

definition GetTaskByMd5Password :: "(string \<Rightarrow> string) \<Rightarrow> string \<Rightarrow> db \<Rightarrow> tunnel option" where
  "GetTaskByMd5Password md5 p s = List.find (\<lambda>t. md5 (t_Password t) = p) (map snd (db_tasks s))"

text \<open>The methods of a client that look through the maps; a nil client is dereferenced.\<close>

fun range_until :: "('a \<Rightarrow> bool option) \<Rightarrow> 'a list \<Rightarrow> bool option" where
  "range_until p [] = Some False"
| "range_until p (v # vs) = (case p v of None \<Rightarrow> None | Some True \<Rightarrow> Some True | Some False \<Rightarrow> range_until p vs)"

definition owner_is :: "db \<Rightarrow> cref option \<Rightarrow> int \<Rightarrow> bool option" where
  "owner_is s p i = map_option (\<lambda>r. c_Id (client_at s r) = i) p"

definition HasTunnel :: "npc \<Rightarrow> tunnel \<Rightarrow> db \<Rightarrow> bool option" where
  "HasTunnel c t s = range_until (\<lambda>v. map_option (\<lambda>b. b \<and> t_Port v = t_Port t \<and> t_Port t \<noteq> 0) (owner_is s (t_Client v) (c_Id c)))
     (map snd (db_tasks s))"

definition HasHost :: "npc \<Rightarrow> host \<Rightarrow> db \<Rightarrow> bool option" where
  "HasHost c h s = range_until (\<lambda>v. map_option (\<lambda>b. b \<and> h_Host v = h_Host h \<and> h_Location h = h_Location v) (owner_is s (h_Client v) (c_Id c)))
     (map snd (db_hosts s))"

definition GetTunnelNum :: "npc \<Rightarrow> db \<Rightarrow> nat option" where
  "GetTunnelNum c s =
     (case (traverse (\<lambda>v. owner_is s (t_Client v) (c_Id c)) (map snd (db_tasks s)),
            traverse (\<lambda>v. owner_is s (h_Client v) (c_Id c)) (map snd (db_hosts s))) of
        (Some xs, Some ys) \<Rightarrow> Some (length (filter (\<lambda>b. b) xs) + length (filter (\<lambda>b. b) ys))
      | _ \<Rightarrow> None)"

section \<open>Hosts\<close>

definition DelHost :: "int \<Rightarrow> db \<Rightarrow> db" where
  "DelHost i s = StoreHostToJsonFile (s\<lparr>db_hosts := AList.delete i (db_hosts s)\<rparr>)"

definition IsHostExist :: "host \<Rightarrow> db \<Rightarrow> bool" where
  "IsHostExist h s =
     (List.find (\<lambda>v. h_Id v \<noteq> h_Id h \<and> h_Host v = h_Host h \<and> h_Location h = h_Location v
        \<and> (h_Scheme v = ''all'' \<or> h_Scheme v = h_Scheme h)) (map snd (db_hosts s)) \<noteq> None)"

definition NewHost :: "host \<Rightarrow> db \<Rightarrow> db_error option \<times> db" where
  "NewHost t s =
     (let t1 = (if h_Location t = [] then t\<lparr>h_Location := ''/''\<rparr> else t)
      in if IsHostExist t1 s then (Some HostTaken, s)
         else (None, StoreHostToJsonFile
                (s\<lparr>db_hosts := AList.update (h_Id t1) (t1\<lparr>h_Flow := Some new_flow\<rparr>) (db_hosts s)\<rparr>)))"

definition host_matches :: "string \<Rightarrow> int \<Rightarrow> host owned \<Rightarrow> bool" where
  "host_matches search i x \<longleftrightarrow>
     \<not> (search \<noteq> [] \<and> \<not> (h_Id (fst x) = GetIntNoErrByStr search \<or> Contains (h_Host (fst x)) search
         \<or> Contains (h_Remark (fst x)) search \<or> Contains (owner_vkey x) search))
     \<and> \<not> (i \<noteq> 0 \<and> (case snd x of None \<Rightarrow> True | Some c \<Rightarrow> c_Id c \<noteq> i))"

definition GetHost :: "(string \<Rightarrow> string) \<Rightarrow> int \<Rightarrow> int \<Rightarrow> int \<Rightarrow> string \<Rightarrow> string \<Rightarrow> string \<Rightarrow> db
    \<Rightarrow> (host owned list \<times> int) option" where
  "GetHost lower start len i search sortField order s =
     paginate (SortHosts lower sortField order
       (filter (host_matches search i) (map (\<lambda>h. (h, owner_of s (h_Client h))) (map snd (db_hosts s))))) start len"

definition host_candidate :: "string \<Rightarrow> string \<Rightarrow> host \<Rightarrow> bool" where
  "host_candidate name scheme v \<longleftrightarrow>
     \<not> h_IsClose v \<and> \<not> (h_Scheme v \<noteq> ''all'' \<and> h_Scheme v \<noteq> scheme)
     \<and> (if Contains (h_Host v) ''*'' then Contains name (filter (\<lambda>c. c \<noteq> CHR ''*'') (h_Host v))
        else h_Host v = name)"

definition with_location :: "host \<Rightarrow> host" where
  "with_location v = (if h_Location v = [] then v\<lparr>h_Location := ''/''\<rparr> else v)"

definition location_fits :: "string \<Rightarrow> host \<Rightarrow> bool" where
  "location_fits uri v \<longleftrightarrow> uri = ''*'' \<or> starts_with uri (h_Location v)"

definition choose_host :: "string \<Rightarrow> host list \<Rightarrow> host option" where
  "choose_host uri hosts = fold (\<lambda>v h.
     if location_fits uri v \<and> (case h of None \<Rightarrow> True | Some b \<Rightarrow> length (h_Location v) > length (h_Location b))
     then Some v else h) hosts None"

text \<open>The candidates without a location get one in the map, since the loop writes through the pointer.\<close>

definition GetInfoByHost :: "string \<Rightarrow> string \<Rightarrow> string \<Rightarrow> db \<Rightarrow> host option \<times> db" where
  "GetInfoByHost name scheme uri s =
     (let name1 = GetIpByAddr name;
          s1 = s\<lparr>db_hosts := map (\<lambda>(k, v). (k, if host_candidate name1 scheme v then with_location v else v)) (db_hosts s)\<rparr>
      in (choose_host uri (filter (host_candidate name1 scheme) (map snd (db_hosts s1))), s1))"

end
