(* ===== verification/Nps_Server.thy ===== *)
theory Nps_Server
  imports Nps_Db
begin

text \<open>
  The running tunnel server: \<^verbatim>\<open>nps-master/server/server.go\<close> (starting, stopping and
  listing tunnels, expiry of clients) with the table of connected clients that
  \<^verbatim>\<open>bridge.go\<close> keeps. A service is what
  \<^verbatim>\<open>NewMode\<close> makes for a mode; which ports the system lets it open, the configured ports
  and public key, and the clock are arguments. Channels to \<^verbatim>\<open>DealBridgeTask\<close> are queues of
  the state.
\<close>

section \<open>State\<close>

datatype service = Tunnel_svc | Socks5_svc | Http_proxy_svc | Trans_svc | Udp_svc | Web_svc | Http_host_svc

record bridge_client =
  bc_tunnel :: "nat option"
  bc_signal :: "nat option"
  bc_file :: "nat option"
  bc_version :: string
  bc_retry :: "32 word"

record nps =
  n_db :: db
  n_run :: "(int \<times> service option) list"
  n_bridge :: "(int \<times> bridge_client) list"
  n_register :: "(string \<times> int) list"
  n_open_task :: "int list"
  n_close_client :: "int list"
  n_closed :: "nat list"
  n_written :: "(nat \<times> string) list"

record nps_env =
  e_ports :: "int list"
  e_free :: "int \<Rightarrow> string \<Rightarrow> bool"
  e_public_vkey :: string
  e_keys :: "string list"

datatype srv_error = PortNotOpen | BadMode | NotRunning | NoSuchTask

definition TestServerPort :: "nps_env \<Rightarrow> int \<Rightarrow> string \<Rightarrow> bool" where
  "TestServerPort env p m =
     (if m = ''p2p'' \<or> m = ''secret'' then True
      else if p > 65535 \<or> p < 0 then False
      else if length (e_ports env) \<noteq> 0 \<and> \<not> InIntArr (e_ports env) p then False
      else e_free env p m)"

section \<open>Starting tunnels\<close>

text \<open>
  \<^verbatim>\<open>NewMode\<close> and \<^verbatim>\<open>AddTask\<close> call each other in the mode \<^verbatim>\<open>webServer\<close>, which starts
  every stored tunnel. That start is the argument \<open>web\<close>; \<open>web_start\<close> ties the knot with a bound on
  the depth, and \<open>None\<close> means that the bound was reached.
\<close>

definition service_of_mode :: "string \<Rightarrow> service option" where
  "service_of_mode m =
     (if m = ''tcp'' \<or> m = ''file'' then Some Tunnel_svc
      else if m = ''socks5'' then Some Socks5_svc
      else if m = ''httpProxy'' then Some Http_proxy_svc
      else if m = ''tcpTrans'' then Some Trans_svc
      else if m = ''udp'' then Some Udp_svc
      else if m = ''webServer'' then Some Web_svc
      else if m = ''httpHostServer'' then Some Http_host_svc
      else None)"

definition NewMode :: "(nps \<Rightarrow> nps option) \<Rightarrow> tunnel \<Rightarrow> nps \<Rightarrow> (service option \<times> nps) option" where
  "NewMode web c s =
     (if t_Mode c = ''webServer'' then map_option (\<lambda>s1. (Some Web_svc, s1)) (web s)
      else Some (service_of_mode (t_Mode c), s))"

definition add_task :: "(nps \<Rightarrow> nps option) \<Rightarrow> nps_env \<Rightarrow> tunnel \<Rightarrow> nps \<Rightarrow> (srv_error option \<times> nps) option" where
  "add_task web env t s =
     (if t_Mode t = ''secret'' \<or> t_Mode t = ''p2p'' then
        Some (None, s\<lparr>n_run := AList.update (t_Id t) None (n_run s)\<rparr>)
      else if \<not> TestServerPort env (t_Port t) (t_Mode t) \<and> t_Mode t \<noteq> ''httpHostServer'' then Some (Some PortNotOpen, s)
      else case NewMode web t s of
             None \<Rightarrow> None
           | Some (None, s1) \<Rightarrow> Some (Some BadMode, s1)
           | Some (Some svr, s1) \<Rightarrow> Some (None, s1\<lparr>n_run := AList.update (t_Id t) (Some svr) (n_run s1)\<rparr>))"

fun start_tunnels :: "(nps \<Rightarrow> nps option) \<Rightarrow> nps_env \<Rightarrow> tunnel list \<Rightarrow> nps \<Rightarrow> nps option" where
  "start_tunnels web env [] s = Some s"
| "start_tunnels web env (t # ts) s =
     (if t_Status t then Option.bind (add_task web env t s) (\<lambda>(_, s1). start_tunnels web env ts s1)
      else start_tunnels web env ts s)"

definition InitFromCsv :: "(nps \<Rightarrow> nps option) \<Rightarrow> nps_env \<Rightarrow> nps \<Rightarrow> nps option" where
  "InitFromCsv web env s =
     Option.bind
       (if e_public_vkey env \<noteq> [] then
          (let c = npc_NewClient (e_public_vkey env) True True
           in map_option (\<lambda>(r, d). let i = (case r of Inl _ \<Rightarrow> c_Id c | Inr c1 \<Rightarrow> c_Id c1)
                in s\<lparr>n_db := d, n_run := AList.update i None (n_run s)\<rparr>) (db_NewClient (e_keys env) c (n_db s)))
        else Some s)
       (\<lambda>s1. start_tunnels web env (map snd (db_tasks (n_db s1))) s1)"

definition http_host_task :: tunnel where
  "http_host_task = zero_tunnel\<lparr>t_Port := 0, t_Mode := ''httpHostServer'', t_Status := True\<rparr>"

fun web_start :: "nat \<Rightarrow> nps_env \<Rightarrow> nps \<Rightarrow> nps option" where
  "web_start 0 env s = None"
| "web_start (Suc n) env s =
     Option.bind (InitFromCsv (web_start n env) env s) (\<lambda>s1.
       map_option snd (add_task (web_start n env) env http_host_task s1))"

definition AddTask :: "nat \<Rightarrow> nps_env \<Rightarrow> tunnel \<Rightarrow> nps \<Rightarrow> (srv_error option \<times> nps) option" where
  "AddTask n env = add_task (web_start n env) env"

text \<open>The service runs on its own; when it cannot start it leaves the table again.\<close>

definition service_failed :: "int \<Rightarrow> nps \<Rightarrow> nps" where
  "service_failed i s = s\<lparr>n_run := AList.delete i (n_run s)\<rparr>"

definition StopServer :: "int \<Rightarrow> nps \<Rightarrow> srv_error option \<times> nps" where
  "StopServer i s =
     (case map_of (n_run s) i of
        None \<Rightarrow> (Some NotRunning, s)
      | Some v \<Rightarrow>
          let s1 = s\<lparr>n_run := AList.delete i (n_run s)\<rparr>
          in (None, case GetTask i (n_db s1) of
                      None \<Rightarrow> s1
                    | Some t \<Rightarrow> s1\<lparr>n_db := UpdateTask (t\<lparr>t_Status := False\<rparr>) (n_db s1)\<rparr>))"

definition StartTask :: "nat \<Rightarrow> nps_env \<Rightarrow> int \<Rightarrow> nps \<Rightarrow> (srv_error option \<times> nps) option" where
  "StartTask n env i s =
     (case GetTask i (n_db s) of
        None \<Rightarrow> Some (Some NoSuchTask, s)
      | Some t \<Rightarrow>
          (case AddTask n env t s of
             None \<Rightarrow> None
           | Some (Some e, s1) \<Rightarrow> Some (Some e, s1)
           | Some (None, s1) \<Rightarrow> Some (None, s1\<lparr>n_db := UpdateTask (t\<lparr>t_Status := True\<rparr>) (n_db s1)\<rparr>)))"

definition DelTask :: "int \<Rightarrow> nps \<Rightarrow> srv_error option \<times> nps" where
  "DelTask i s =
     (if map_of (n_run s) i \<noteq> None then
        (case StopServer i s of
           (Some e, s1) \<Rightarrow> (Some e, s1)
         | (None, s1) \<Rightarrow> (None, s1\<lparr>n_db := db_DelTask i (n_db s1)\<rparr>))
      else (None, s\<lparr>n_db := db_DelTask i (n_db s)\<rparr>))"

section \<open>Clients\<close>

text \<open>\<^verbatim>\<open>dealClientData\<close>: who is connected, read off the bridge's table; \<open>now\<close> is the
  formatted time.\<close>

definition client_data :: "nps \<Rightarrow> string \<Rightarrow> npc \<Rightarrow> npc" where
  "client_data s now v =
     (case map_of (n_bridge s) (c_Id v) of
        Some vv \<Rightarrow> v\<lparr>c_IsConnect := True, c_LastOnlineTime := now, c_Version := bc_version vv\<rparr>
      | None \<Rightarrow> v\<lparr>c_IsConnect := False\<rparr>)"

definition in_table :: "db \<Rightarrow> cref \<Rightarrow> bool" where
  "in_table d r \<longleftrightarrow> r \<in> snd ` set (db_clients d)"

definition dealClientData :: "string \<Rightarrow> nps \<Rightarrow> nps" where
  "dealClientData now s = s\<lparr>n_db := (n_db s)\<lparr>db_heap :=
     (\<lambda>r. if in_table (n_db s) r then map_option (client_data s now) (db_heap (n_db s) r) else db_heap (n_db s) r)\<rparr>\<rparr>"

definition GetClientList :: "(string \<Rightarrow> string) \<Rightarrow> string \<Rightarrow> int \<Rightarrow> int \<Rightarrow> string \<Rightarrow> string \<Rightarrow> string \<Rightarrow> int \<Rightarrow> nps
    \<Rightarrow> (npc list \<times> int) option \<times> nps" where
  "GetClientList lower now start len search sortField order clientId s =
     (let s1 = dealClientData now s
      in (db_GetClientList lower start len search sortField order clientId (n_db s1), s1))"

definition GetHostList :: "(string \<Rightarrow> string) \<Rightarrow> string \<Rightarrow> int \<Rightarrow> int \<Rightarrow> int \<Rightarrow> string \<Rightarrow> string \<Rightarrow> string \<Rightarrow> nps
    \<Rightarrow> (host owned list \<times> int) option \<times> nps" where
  "GetHostList lower now start len clientId search sortField order s =
     (let s1 = dealClientData now s
      in (GetHost lower start len clientId search sortField order (n_db s1), s1))"

fun delete_tasks :: "int list \<Rightarrow> nps \<Rightarrow> nps" where
  "delete_tasks [] s = s"
| "delete_tasks (i # is) s = delete_tasks is (snd (DelTask i s))"

fun delete_hosts :: "int list \<Rightarrow> nps \<Rightarrow> nps" where
  "delete_hosts [] s = s"
| "delete_hosts (i # is) s = delete_hosts is (s\<lparr>n_db := DelHost i (n_db s)\<rparr>)"

definition owned_by :: "db \<Rightarrow> int \<Rightarrow> cref option \<Rightarrow> bool" where
  "owned_by d i p \<longleftrightarrow> (case p of None \<Rightarrow> False | Some r \<Rightarrow> c_Id (client_at d r) = i)"

definition DelTunnelAndHostByClientId :: "int \<Rightarrow> bool \<Rightarrow> nps \<Rightarrow> nps" where
  "DelTunnelAndHostByClientId clientId justDelNoStore s =
     (let ids = map t_Id (filter (\<lambda>v. \<not> (justDelNoStore \<and> \<not> t_NoStore v) \<and> owned_by (n_db s) clientId (t_Client v))
                  (map snd (db_tasks (n_db s))));
          s1 = delete_tasks ids s;
          hids = map h_Id (filter (\<lambda>v. \<not> (justDelNoStore \<and> \<not> h_NoStore v) \<and> owned_by (n_db s1) clientId (h_Client v))
                  (map snd (db_hosts (n_db s1))))
      in delete_hosts hids s1)"

text \<open>\<^verbatim>\<open>Bridge.DelClient\<close>: the signal connection is closed, the entry removed, and the
  client's temporary tunnels are handed to \<^verbatim>\<open>DealBridgeTask\<close>.\<close>

definition Bridge_DelClient :: "int \<Rightarrow> nps \<Rightarrow> nps" where
  "Bridge_DelClient i s =
     (case map_of (n_bridge s) i of
        None \<Rightarrow> s
      | Some cl \<Rightarrow>
          let s1 = s\<lparr>n_closed := n_closed s @ (case bc_signal cl of None \<Rightarrow> [] | Some k \<Rightarrow> [k]),
                     n_bridge := AList.delete i (n_bridge s)\<rparr>
          in if IsPubClient i (n_db s1) then s1
             else case db_GetClient i (n_db s1) of
                    None \<Rightarrow> s1
                  | Some r \<Rightarrow> s1\<lparr>n_close_client := n_close_client s1 @ [c_Id (client_at (n_db s1) r)]\<rparr>)"

definition DelClientConnect :: "int \<Rightarrow> nps \<Rightarrow> nps" where "DelClientConnect = Bridge_DelClient"

text \<open>One round of \<^verbatim>\<open>DealBridgeTask\<close>.\<close>

definition deal_open_task :: "nat \<Rightarrow> nps_env \<Rightarrow> nps \<Rightarrow> nps option" where
  "deal_open_task n env s =
     (case n_open_task s of
        [] \<Rightarrow> Some s
      | i # is \<Rightarrow> map_option snd (StartTask n env i (s\<lparr>n_open_task := is\<rparr>)))"

definition deal_close_client :: "nps \<Rightarrow> nps" where
  "deal_close_client s =
     (case n_close_client s of
        [] \<Rightarrow> s
      | i # is \<Rightarrow>
          let s1 = DelTunnelAndHostByClientId i True (s\<lparr>n_close_client := is\<rparr>)
          in case db_GetClient i (n_db s1) of
               None \<Rightarrow> s1
             | Some r \<Rightarrow> if c_NoStore (client_at (n_db s1) r) then s1\<lparr>n_db := DelClient i (n_db s1)\<rparr> else s1)"

text \<open>\<^verbatim>\<open>checkClientExpire\<close>; \<open>parse\<close> is \<^verbatim>\<open>time.ParseInLocation\<close> of the layout in
  the local zone.\<close>

definition expired :: "(string \<Rightarrow> int option) \<Rightarrow> int \<Rightarrow> npc \<Rightarrow> bool" where
  "expired parse now v \<longleftrightarrow> \<not> (c_ExpireTime v = [] \<or> \<not> c_Status v)
     \<and> (case parse (c_ExpireTime v) of None \<Rightarrow> False | Some t \<Rightarrow> \<not> now < t)"

fun expire_clients :: "(string \<Rightarrow> int option) \<Rightarrow> int \<Rightarrow> (int \<times> cref) list \<Rightarrow> bool \<times> nps \<Rightarrow> bool \<times> nps" where
  "expire_clients parse now [] x = x"
| "expire_clients parse now ((k, r) # rs) (changed, s) =
     (let v = client_at (n_db s) r
      in if expired parse now v
         then expire_clients parse now rs
           (True, DelClientConnect (c_Id v) (s\<lparr>n_db := set_client_at r (v\<lparr>c_Status := False\<rparr>) (n_db s)\<rparr>))
         else expire_clients parse now rs (changed, s))"

definition checkClientExpire :: "(string \<Rightarrow> int option) \<Rightarrow> int \<Rightarrow> nps \<Rightarrow> nps" where
  "checkClientExpire parse now s =
     (let (changed, s1) = expire_clients parse now (db_clients (n_db s)) (False, s)
      in if changed then s1\<lparr>n_db := StoreClientsToJsonFile (n_db s1)\<rparr> else s1)"

section \<open>Listing tunnels\<close>

definition tunnel_listed :: "string \<Rightarrow> int \<Rightarrow> string \<Rightarrow> db \<Rightarrow> tunnel \<Rightarrow> bool" where
  "tunnel_listed typeVal clientId search d v \<longleftrightarrow>
     \<not> ((typeVal \<noteq> [] \<and> t_Mode v \<noteq> typeVal \<or> (clientId \<noteq> 0 \<and> \<not> owned_by d clientId (t_Client v)))
        \<or> (typeVal = [] \<and> \<not> owned_by d clientId (t_Client v)))
     \<and> \<not> (search \<noteq> [] \<and> \<not> (t_Id v = GetIntNoErrByStr search \<or> t_Port v = GetIntNoErrByStr search
           \<or> Contains (t_Password v) search \<or> Contains (t_Remark v) search \<or> Contains (target_str (t_Target v)) search))"

definition shown_tunnel :: "nps \<Rightarrow> tunnel \<Rightarrow> tunnel owned" where
  "shown_tunnel s v = (v\<lparr>t_RunStatus := map_of (n_run s) (t_Id v) \<noteq> None\<rparr>,
     map_option (\<lambda>r. (client_at (n_db s) r)\<lparr>c_IsConnect := map_of (n_bridge s) (c_Id (client_at (n_db s) r)) \<noteq> None\<rparr>) (t_Client v))"

text \<open>The listings write the run state and the connection state they find into the objects they list.\<close>

definition refresh_status :: "(tunnel \<Rightarrow> bool) \<Rightarrow> nps \<Rightarrow> nps" where
  "refresh_status listed s =
     (let d = n_db s; owners = List.map_filter t_Client (filter listed (map snd (db_tasks d)))
      in s\<lparr>n_db := d\<lparr>db_tasks := map (\<lambda>(k, v). (k, if listed v then fst (shown_tunnel s v) else v)) (db_tasks d),
            db_heap := (\<lambda>r. if r \<in> set owners
              then map_option (\<lambda>c. c\<lparr>c_IsConnect := map_of (n_bridge s) (c_Id c) \<noteq> None\<rparr>) (db_heap d r)
              else db_heap d r)\<rparr>\<rparr>)"

text \<open>\<^verbatim>\<open>GetTunnel\<close> dereferences the client of every tunnel it looks at.\<close>

definition GetTunnel :: "(string \<Rightarrow> string) \<Rightarrow> int \<Rightarrow> int \<Rightarrow> string \<Rightarrow> int \<Rightarrow> string \<Rightarrow> string \<Rightarrow> string \<Rightarrow> nps
    \<Rightarrow> (tunnel owned list \<times> int) option \<times> nps" where
  "GetTunnel lower start len typeVal clientId search sortField order s =
     (if \<exists>v \<in> snd ` set (db_tasks (n_db s)). t_Client v = None \<and> (typeVal = [] \<or> (t_Mode v = typeVal \<and> clientId \<noteq> 0))
      then (None, s)
      else let listed = tunnel_listed typeVal clientId search (n_db s)
           in (paginate (SortTunnels lower sortField order
                 (map (shown_tunnel s) (filter listed (map snd (db_tasks (n_db s)))))) start len,
               refresh_status listed s))"

end
