(* ===== verification/Nps_Admin.thy ===== *)
theory Nps_Admin
  imports Nps_Server Admin
begin

text \<open>
  The tunnel pages of the management interface, \<^verbatim>\<open>internal/admin/nps.go\<close>, and
  \<^verbatim>\<open>EnsureClientByVkey\<close> of \<^verbatim>\<open>internal/npsembed/npsembed.go\<close>, over the tunnel
  server's database and run list. A handler that does not return within the depth given for starting a
  tunnel, or that dereferences a nil pointer, is \<open>None\<close>.
\<close>

section \<open>Texts\<close>

definition text_bad_parameters :: string where
  "text_bad_parameters =
     [CHR 0xE5, CHR 0x8F, CHR 0x82, CHR 0xE6, CHR 0x95, CHR 0xB0, CHR 0xE8, CHR 0xA7, CHR 0xA3,
      CHR 0xE6, CHR 0x9E, CHR 0x90, CHR 0xE5, CHR 0xA4, CHR 0xB1, CHR 0xE8, CHR 0xB4, CHR 0xA5]"

definition text_bad_id :: string where
  "text_bad_id =
     [CHR 0x69, CHR 0x64, CHR 0x20, CHR 0xE6, CHR 0x97, CHR 0xA0, CHR 0xE6, CHR 0x95, CHR 0x88]"

definition text_target_required :: string where
  "text_target_required =
     [CHR 0x74, CHR 0x61, CHR 0x72, CHR 0x67, CHR 0x65, CHR 0x74, CHR 0x20, CHR 0xE5, CHR 0xBF,
      CHR 0x85, CHR 0xE5, CHR 0xA1, CHR 0xAB, CHR 0xEF, CHR 0xBC, CHR 0x88, CHR 0x68, CHR 0x6F,
      CHR 0x73, CHR 0x74, CHR 0x3A, CHR 0x70, CHR 0x6F, CHR 0x72, CHR 0x74, CHR 0xEF, CHR 0xBC,
      CHR 0x8C, CHR 0x6E, CHR 0x70, CHR 0x63, CHR 0x20, CHR 0xE6, CHR 0x9C, CHR 0xAC, CHR 0xE6,
      CHR 0x9C, CHR 0xBA, CHR 0xE6, CHR 0x88, CHR 0x96, CHR 0xE5, CHR 0xB1, CHR 0x80, CHR 0xE5,
      CHR 0x9F, CHR 0x9F, CHR 0xE7, CHR 0xBD, CHR 0x91, CHR 0xE5, CHR 0x9C, CHR 0xB0, CHR 0xE5,
      CHR 0x9D, CHR 0x80, CHR 0xEF, CHR 0xBC, CHR 0x89]"

definition text_bad_client :: string where
  "text_bad_client =
     [CHR 0x63, CHR 0x6C, CHR 0x69, CHR 0x65, CHR 0x6E, CHR 0x74, CHR 0x5F, CHR 0x69, CHR 0x64,
      CHR 0x20, CHR 0xE6, CHR 0x97, CHR 0xA0, CHR 0xE6, CHR 0x95, CHR 0x88, CHR 0x3A, CHR 0x20]"

definition text_no_client :: string where
  "text_no_client =
     [CHR 0xE6, CHR 0x9C, CHR 0xAA, CHR 0xE6, CHR 0x89, CHR 0xBE, CHR 0xE5, CHR 0x88, CHR 0xB0,
      CHR 0xE5, CHR 0xAE, CHR 0xA2, CHR 0xE6, CHR 0x88, CHR 0xB7, CHR 0xE7, CHR 0xAB, CHR 0xAF]"

definition text_key_required :: string where
  "text_key_required =
     [CHR 0x64, CHR 0x65, CHR 0x76, CHR 0x69, CHR 0x63, CHR 0x65, CHR 0x5F, CHR 0x6B, CHR 0x65,
      CHR 0x79, CHR 0x20, CHR 0xE5, CHR 0xBF, CHR 0x85, CHR 0xE5, CHR 0xA1, CHR 0xAB]"

definition db_error_text :: "db_error \<Rightarrow> string" where
  "db_error_text e =
     (case e of
        NotFound \<Rightarrow> ''not found''
      | SecretTaken p \<Rightarrow> ''secret mode keys '' @ p @ '' must be unique''
      | HostTaken \<Rightarrow> ''host has exist''
      | NameTaken \<Rightarrow> ''web login username duplicate, please reset''
      | VkeyTaken \<Rightarrow> ''Vkey duplicate, please reset''
      | NoSuchClient \<Rightarrow> text_no_client
      | NoSuchHost \<Rightarrow> ''The host could not be parsed'')"

definition srv_error_text :: "srv_error \<Rightarrow> string" where
  "srv_error_text e =
     (case e of
        PortNotOpen \<Rightarrow> ''the port open error''
      | BadMode \<Rightarrow> ''the mode is not correct''
      | NotRunning \<Rightarrow> ''task is not running''
      | NoSuchTask \<Rightarrow> ''not found'')"

section \<open>Request bodies\<close>

definition decode_whole :: "(json \<Rightarrow> 'a option) \<Rightarrow> string \<Rightarrow> 'a option" where
  "decode_whole of_js body =
     (case parse_value (2 * length body) body of None \<Rightarrow> None | Some (j, _) \<Rightarrow> of_js j)"

record client_form =
  cf_vkey :: string
  cf_remark :: string

definition client_form_fields :: "client_form json_field list" where
  "client_form_fields = [str_field ''vkey'' cf_vkey cf_vkey_update, str_field ''remark'' cf_remark cf_remark_update]"

definition id_fields :: "int json_field list" where
  "id_fields = [int_field ''id'' (\<lambda>i. i) (\<lambda>f. f)]"

record tunnel_form =
  tf_client :: int
  tf_port :: int
  tf_mode :: string
  tf_target :: string
  tf_remark :: string

definition tunnel_form_fields :: "tunnel_form json_field list" where
  "tunnel_form_fields =
     [int_field ''client_id'' tf_client tf_client_update, int_field ''port'' tf_port tf_port_update,
      str_field ''mode'' tf_mode tf_mode_update, str_field ''target'' tf_target tf_target_update,
      str_field ''remark'' tf_remark tf_remark_update]"

definition query_get :: "request \<Rightarrow> string \<Rightarrow> string" where
  "query_get rq k = (case map_of (rq_query rq) k of None \<Rightarrow> [] | Some v \<Rightarrow> v)"

section \<open>Clients\<close>

definition client_item :: "npc \<Rightarrow> json" where
  "client_item c = JObj
     [(''addr'', JStr (c_Addr c)), (''createTime'', JStr (c_CreateTime c)), (''id'', to_js_int (c_Id c)),
      (''online'', JBool (c_IsConnect c)), (''remark'', JStr (c_Remark c)), (''status'', JBool (c_Status c)),
      (''vkey'', JStr (c_VerifyKey c))]"

text \<open>A submitted client without a key gets one from the counter, which \<^verbatim>\<open>NewClient\<close>
  then advances again for the identifier.\<close>

definition add_client :: "nps_env \<Rightarrow> client_form \<Rightarrow> nps \<Rightarrow> (response \<times> nps) option" where
  "add_client env body s =
     (let (vkey, d) = (if cf_vkey body = [] then
                         (let (n, d) = GetClientId (n_db s) in (''client-'' @ fmt_int n, d))
                       else (cf_vkey body, n_db s));
          c = (npc_NewClient vkey False False)\<lparr>c_Remark := cf_remark body\<rparr>
      in map_option (\<lambda>(r, d1).
           (case r of
              Inl e \<Rightarrow> respond_error 500 (db_error_text e)
            | Inr c1 \<Rightarrow> respond_json 200 [(''ok'', JBool True), (''id'', to_js_int (c_Id c1)), (''vkey'', JStr (c_VerifyKey c1))],
            s\<lparr>n_db := d1\<rparr>)) (db_NewClient (e_keys env) c d))"

definition handleNpsClients :: "nps_env \<Rightarrow> string \<Rightarrow> request \<Rightarrow> nps \<Rightarrow> (response \<times> nps) option" where
  "handleNpsClients env now rq s =
     (if rq_method rq = ''GET'' then
        (case GetClientList (\<lambda>x. x) now 0 9999 [] ''id'' ''asc'' 0 s of
           (None, s1) \<Rightarrow> None
         | (Some (list, n), s1) \<Rightarrow>
             Some (respond_json 200 [(''ok'', JBool True), (''total'', to_js_int n), (''items'', JArr (map client_item list))], s1))
      else if rq_method rq = ''POST'' then
        (case decode_whole (fields_of_json client_form_fields \<lparr>cf_vkey = [], cf_remark = []\<rparr>) (rq_body rq) of
           None \<Rightarrow> Some (respond_error 400 text_bad_parameters, s)
         | Some body \<Rightarrow> add_client env body s)
      else Some (method_not_allowed [], s))"

definition handleNpsClientDelete :: "request \<Rightarrow> nps \<Rightarrow> response \<times> nps" where
  "handleNpsClientDelete rq s =
     (if rq_method rq \<noteq> ''POST'' then (method_not_allowed [], s)
      else case decode_whole (fields_of_json id_fields 0) (rq_body rq) of
             None \<Rightarrow> (respond_error 400 text_bad_id, s)
           | Some i \<Rightarrow>
               if i \<le> 0 then (respond_error 400 text_bad_id, s)
               else (respond_json 200 [(''ok'', JBool True)], s\<lparr>n_db := DelClient i (n_db s)\<rparr>))"

section \<open>Tunnels\<close>

definition listed_for_page :: "int \<Rightarrow> string \<Rightarrow> db \<Rightarrow> tunnel \<Rightarrow> bool" where
  "listed_for_page clientID tp d t \<longleftrightarrow>
     \<not> (clientID \<noteq> 0 \<and> t_Client t \<noteq> None \<and> \<not> owned_by d clientID (t_Client t)) \<and> \<not> (tp \<noteq> [] \<and> t_Mode t \<noteq> tp)"

definition tunnel_item :: "tunnel owned \<Rightarrow> json" where
  "tunnel_item x = JObj
     [(''clientId'', to_js_int (owner_id x)), (''id'', to_js_int (t_Id (fst x))), (''mode'', JStr (t_Mode (fst x))),
      (''port'', to_js_int (t_Port (fst x))), (''remark'', JStr (t_Remark (fst x))),
      (''running'', JBool (t_RunStatus (fst x))), (''target'', JStr (target_str (t_Target (fst x)))),
      (''vkey'', JStr (owner_vkey x))]"

definition list_tunnels :: "request \<Rightarrow> nps \<Rightarrow> response \<times> nps" where
  "list_tunnels rq s =
     (let listed = listed_for_page (Atoi_value (query_get rq ''client_id'')) (query_get rq ''type'') (n_db s);
          list = map (shown_tunnel s) (filter listed (map snd (db_tasks (n_db s))))
      in (respond_json 200 [(''ok'', JBool True), (''total'', to_js_int (int (length list))),
            (''items'', JArr (map tunnel_item list))], refresh_status listed s))"

definition form_tunnel :: "tunnel_form \<Rightarrow> cref \<Rightarrow> string \<Rightarrow> int \<Rightarrow> tunnel" where
  "form_tunnel body cli mode i = zero_tunnel
     \<lparr>t_Id := i, t_Port := tf_port body, t_Mode := mode, t_Target := Some (zero_target\<lparr>tg_TargetStr := tf_target body\<rparr>),
      t_Client := Some cli, t_Status := True, t_Remark := tf_remark body, t_Flow := Some new_flow\<rparr>"

text \<open>The loop over the modes: the last tunnel made, or the error response that ends it.\<close>

fun make_tunnels :: "nat \<Rightarrow> nps_env \<Rightarrow> tunnel_form \<Rightarrow> cref \<Rightarrow> string list \<Rightarrow> tunnel \<Rightarrow> nps
    \<Rightarrow> ((response + tunnel) \<times> nps) option" where
  "make_tunnels n env body cli [] made s = Some (Inr made, s)"
| "make_tunnels n env body cli (mode # modes) made s =
     (let (i, d) = GetTaskId (n_db s); t = form_tunnel body cli mode i
      in case NewTask t d of
           (Some e, d1) \<Rightarrow> Some (Inl (respond_error 500 (db_error_text e)), s\<lparr>n_db := d1\<rparr>)
         | (None, d1) \<Rightarrow>
             (case AddTask n env t (s\<lparr>n_db := d1\<rparr>) of
                None \<Rightarrow> None
              | Some (Some e, s1) \<Rightarrow> Some (Inl (respond_error 500 (srv_error_text e)), s1\<lparr>n_db := db_DelTask i (n_db s1)\<rparr>)
              | Some (None, s1) \<Rightarrow> make_tunnels n env body cli modes t s1))"

definition add_tunnel :: "nat \<Rightarrow> nps_env \<Rightarrow> tunnel_form \<Rightarrow> nps \<Rightarrow> (response \<times> nps) option" where
  "add_tunnel n env body0 s =
     (let body = (if tf_mode body0 = [] then body0\<lparr>tf_mode := ''tcp''\<rparr> else body0)
      in if tf_target body = [] then Some (respond_error 400 text_target_required, s)
         else case db_GetClient (tf_client body) (n_db s) of
                None \<Rightarrow> Some (respond_error 400 (text_bad_client @ db_error_text NoSuchClient), s)
              | Some cli \<Rightarrow>
                  let modes = (if tf_mode body = ''all'' then [''tcp'', ''udp''] else [tf_mode body])
                  in map_option (\<lambda>(r, s1). (case r of
                         Inl e \<Rightarrow> e
                       | Inr t \<Rightarrow> respond_json 200 [(''ok'', JBool True), (''id'', to_js_int (t_Id t)), (''port'', to_js_int (t_Port t))], s1))
                       (make_tunnels n env body cli modes zero_tunnel s))"

definition handleNpsTunnels :: "nat \<Rightarrow> nps_env \<Rightarrow> request \<Rightarrow> nps \<Rightarrow> (response \<times> nps) option" where
  "handleNpsTunnels n env rq s =
     (if rq_method rq = ''GET'' then Some (list_tunnels rq s)
      else if rq_method rq = ''POST'' then
        (case decode_whole (fields_of_json tunnel_form_fields
                \<lparr>tf_client = 0, tf_port = 0, tf_mode = [], tf_target = [], tf_remark = []\<rparr>) (rq_body rq) of
           None \<Rightarrow> Some (respond_error 400 text_bad_parameters, s)
         | Some body \<Rightarrow> add_tunnel n env body s)
      else Some (method_not_allowed [], s))"

definition handleNpsTunnelDelete :: "request \<Rightarrow> nps \<Rightarrow> response \<times> nps" where
  "handleNpsTunnelDelete rq s =
     (if rq_method rq \<noteq> ''POST'' then (method_not_allowed [], s)
      else case decode_whole (fields_of_json id_fields 0) (rq_body rq) of
             None \<Rightarrow> (respond_error 400 text_bad_id, s)
           | Some i \<Rightarrow>
               if i \<le> 0 then (respond_error 400 text_bad_id, s)
               else case DelTask i s of
                      (Some e, s1) \<Rightarrow> (respond_error 500 (srv_error_text e), s1)
                    | (None, s1) \<Rightarrow> (respond_json 200 [(''ok'', JBool True)], s1))"

text \<open>\<^verbatim>\<open>handleMyTunnels\<close> asks for no token: the key in the query is what it goes by.\<close>

definition my_item :: "nps \<Rightarrow> tunnel \<Rightarrow> json" where
  "my_item s t = JObj
     [(''id'', to_js_int (t_Id t)), (''mode'', JStr (t_Mode t)), (''port'', to_js_int (t_Port t)),
      (''remark'', JStr (t_Remark t)), (''running'', JBool (map_of (n_run s) (t_Id t) \<noteq> None)),
      (''target'', JStr (target_str (t_Target t)))]"

definition client_with_key :: "string \<Rightarrow> db \<Rightarrow> int" where
  "client_with_key vkey d =
     (case List.find (\<lambda>c. c_VerifyKey c = vkey) (clients_of d) of None \<Rightarrow> 0 | Some c \<Rightarrow> c_Id c)"

definition my_tunnels :: "string \<Rightarrow> nps \<Rightarrow> tunnel list" where
  "my_tunnels vkey s =
     (let clientID = client_with_key vkey (n_db s)
      in if clientID = 0 then []
         else filter (\<lambda>t. owned_by (n_db s) clientID (t_Client t)) (map snd (db_tasks (n_db s))))"

definition handleMyTunnels :: "request \<Rightarrow> nps \<Rightarrow> response" where
  "handleMyTunnels rq s =
     (let vkey = query_get rq ''device_key''
      in if vkey = [] then respond_error 400 text_key_required
         else respond_json 200 [(''ok'', JBool True), (''items'', JArr (map (my_item s) (my_tunnels vkey s)))])"

section \<open>Devices become clients\<close>

definition EnsureClientByVkey :: "nps_env \<Rightarrow> string \<Rightarrow> string \<Rightarrow> nps \<Rightarrow> (db_error option \<times> nps) option" where
  "EnsureClientByVkey env vkey remark s =
     (case db_GetClientList (\<lambda>x. x) 0 9999 [] ''id'' ''asc'' 0 (n_db s) of
        None \<Rightarrow> None
      | Some (list, _) \<Rightarrow>
          if List.find (\<lambda>c. c_VerifyKey c = vkey) list \<noteq> None then Some (None, s)
          else let c = (npc_NewClient vkey False False)\<lparr>c_Remark := remark\<rparr>
               in map_option (\<lambda>(r, d). (case r of Inl e \<Rightarrow> Some e | Inr _ \<Rightarrow> None, s\<lparr>n_db := d\<rparr>))
                    (db_NewClient (e_keys env) c (n_db s)))"

end
