(* ===== verification/Nps_Db_Properties.thy ===== *)
theory Nps_Db_Properties
  imports Nps_Db
begin

text \<open>
  What the tunnel server's database guarantees: a client's key and number belong to it alone, a
  restart restores what was stored, and a request finds the host with the longest location.
\<close>

section \<open>Segments of a file\<close>

lemma Split_objects:
  assumes "list_all (\<lambda>b. CHR 0x0A \<notin> set b) bs"
  shows "Split CHR 0x0A CONN_DATA_SEQ (concat (map (\<lambda>b. b @ segment_end) bs)) = bs @ [[]]"
  using assms
proof (induction bs)
  case (Cons b bs)
  have "CHR 0x0A \<notin> set b" using Cons.prems by simp
  then have "\<not> Contains (b @ butlast (CHR 0x0A # CONN_DATA_SEQ)) (CHR 0x0A # CONN_DATA_SEQ)"
    by (induction b) (auto simp: CONN_DATA_SEQ_def)
  from Split_once [OF this] show ?case using Cons by (simp add: segment_end_def)
qed simp

lemma each_segment_append:
  "each_segment f (xs @ ys) s = Option.bind (each_segment f xs s) (each_segment f ys)"
  by (induction xs arbitrary: s) (auto split: Option.bind_split)

lemma unmarshal_empty [simp]: "unmarshal of_js [] act s = Some s"
  by (simp add: unmarshal_def parse_json_def skip_ws_def)

lemma unmarshal_printed:
  assumes "json_ok j" and "j \<noteq> JNull" and "of_js j = Some x"
  shows "unmarshal of_js (print_json j) act s = act x s"
  using parse_json_print [OF assms(1)] assms(2,3) by (simp add: unmarshal_def)

text \<open>A map stored and read back: the loader sees the stored objects one by one.\<close>

lemma load_stored:
  assumes "db_files s path = Some (concat (map (\<lambda>x. print_json (to_js x) @ segment_end) xs))"
    and "\<And>x. x \<in> set xs \<Longrightarrow> json_ok (to_js x)"
    and "\<And>v t. f v t = unmarshal of_js v act t"
  shows "loadSyncMapFromFile f path s = each_segment f (map (\<lambda>x. print_json (to_js x)) xs) s"
proof -
  have "list_all (\<lambda>b. CHR 0x0A \<notin> set b) (map (\<lambda>x. print_json (to_js x)) xs)"
    using print_no_LF(1) assms(2) by (simp add: list_all_iff)
  from Split_objects [OF this]
  have "Split CHR 0x0A CONN_DATA_SEQ (concat (map (\<lambda>x. print_json (to_js x) @ segment_end) xs))
      = map (\<lambda>x. print_json (to_js x)) xs @ [[]]" by (simp add: comp_def)
  then show ?thesis
    using assms(1) by (simp add: loadSyncMapFromFile_def each_segment_append assms(3) split: Option.bind_split)
qed

section \<open>The clients' file\<close>

definition stored_clients :: "db \<Rightarrow> npc list" where
  "stored_clients s = filter (\<lambda>c. \<not> c_NoStore c) (clients_of s)"

definition npc_storable :: "npc \<Rightarrow> bool" where
  "npc_storable c \<longleftrightarrow> npc_text_ok c \<and> npc_numbers_ok c"

lemma load_client_printed:
  assumes "npc_storable c"
  shows "load_client (print_json (npc_to_json c)) s =
    (let s1 = store_new_client (loaded_npc c) s
     in Some (if c_Id c > sint (db_ClientIncreaseId s1) then s1\<lparr>db_ClientIncreaseId := word_of_int (c_Id c)\<rparr> else s1))"
proof -
  have ok: "json_ok (npc_to_json c)" and nonnull: "npc_to_json c \<noteq> JNull"
    and reads: "npc_of_json zero_npc (npc_to_json c) = Some (c\<lparr>c_Rate := stored_rate (c_Rate c)\<rparr>)"
    using assms json_ok_npc npc_read_back by (simp_all add: npc_storable_def npc_to_json_def)
  have "loaded_npc (c\<lparr>c_Rate := r\<rparr>) = loaded_npc c" for r by (simp add: loaded_npc_def)
  then show ?thesis by (simp add: load_client_def unmarshal_printed [where of_js = "npc_of_json zero_npc", OF ok nonnull reads] Let_def)
qed

definition heap_ok :: "db \<Rightarrow> bool" where
  "heap_ok s \<longleftrightarrow> keys_distinct (db_clients s)
     \<and> (\<forall>(k, r) \<in> set (db_clients s). r < db_next s \<and> db_heap s r \<noteq> None \<and> c_Id (client_at s r) = k)"

lemma update_fresh: "k \<notin> fst ` set m \<Longrightarrow> AList.update k v m = m @ [(k, v)]"
  by (induction m) auto

lemma store_new_client_fresh:
  assumes "heap_ok s" and "c_Id c \<notin> fst ` set (db_clients s)"
  shows "heap_ok (store_new_client c s)" and "clients_of (store_new_client c s) = clients_of s @ [c]"
    and "fst ` set (db_clients (store_new_client c s)) = insert (c_Id c) (fst ` set (db_clients s))"
proof -
  have u: "AList.update (c_Id c) (db_next s) (db_clients s) = db_clients s @ [(c_Id c, db_next s)]"
    using assms(2) by (rule update_fresh)
  show "heap_ok (store_new_client c s)"
    using assms by (fastforce simp: heap_ok_def store_new_client_def u less_Suc_eq client_at_def)
  show "clients_of (store_new_client c s) = clients_of s @ [c]"
    using assms(1) by (auto simp: clients_of_def store_new_client_def u client_at_def heap_ok_def)
  show "fst ` set (db_clients (store_new_client c s)) = insert (c_Id c) (fst ` set (db_clients s))"
    by (simp add: store_new_client_def u)
qed

definition greatest_id :: "int \<Rightarrow> npc list \<Rightarrow> int" where
  "greatest_id m cs = fold (\<lambda>c m. max m (c_Id c)) cs m"

lemma load_clients_list:
  assumes "heap_ok s" and "list_all npc_storable cs" and "distinct (map c_Id cs)"
    and "fst ` set (db_clients s) \<inter> c_Id ` set cs = {}"
  shows "\<exists>s1. each_segment load_client (map (\<lambda>c. print_json (npc_to_json c)) cs) s = Some s1 \<and> heap_ok s1
    \<and> clients_of s1 = clients_of s @ map loaded_npc cs
    \<and> fst ` set (db_clients s1) = fst ` set (db_clients s) \<union> c_Id ` set cs
    \<and> ((\<forall>c \<in> set cs. c_Id c < 2 ^ 31) \<longrightarrow> sint (db_ClientIncreaseId s1) = greatest_id (sint (db_ClientIncreaseId s)) cs)
    \<and> s1\<lparr>db_heap := db_heap s, db_next := db_next s, db_clients := db_clients s, db_ClientIncreaseId := db_ClientIncreaseId s\<rparr> = s"
  using assms
proof (induction cs arbitrary: s)
  case (Cons c cs)
  let ?t = "store_new_client (loaded_npc c) s"
  let ?s = "if c_Id c > sint (db_ClientIncreaseId ?t) then ?t\<lparr>db_ClientIncreaseId := word_of_int (c_Id c)\<rparr> else ?t"
  have i: "c_Id (loaded_npc c) = c_Id c" by (simp add: loaded_npc_def)
  have new: "c_Id (loaded_npc c) \<notin> fst ` set (db_clients s)" using Cons.prems(4) i by auto
  note t = store_new_client_fresh [OF Cons.prems(1) new]
  have "heap_ok ?s" "clients_of ?s = clients_of s @ [loaded_npc c]"
    "fst ` set (db_clients ?s) = insert (c_Id c) (fst ` set (db_clients s))"
    using t i by (auto simp: heap_ok_def clients_of_def client_at_def)
  moreover have "sint (db_ClientIncreaseId ?s) = max (sint (db_ClientIncreaseId s)) (c_Id c)" if "c_Id c < 2 ^ 31"
  proof (cases "c_Id c > sint (db_ClientIncreaseId s)")
    case True
    then have "- (2 ^ 31) \<le> c_Id c" using sint_ge [of "db_ClientIncreaseId s"] by simp
    then have "sint (word_of_int (c_Id c) :: 32 word) = c_Id c"
      using that by (simp add: sint_sbintrunc' signed_take_bit_int_eq_self)
    then show ?thesis using True by (simp add: store_new_client_def)
  qed (simp add: store_new_client_def)
  ultimately obtain s1 where s1: "each_segment load_client (map (\<lambda>c. print_json (npc_to_json c)) cs) ?s = Some s1" "heap_ok s1"
      "clients_of s1 = clients_of ?s @ map loaded_npc cs"
      "fst ` set (db_clients s1) = fst ` set (db_clients ?s) \<union> c_Id ` set cs"
      "s1\<lparr>db_heap := db_heap ?s, db_next := db_next ?s, db_clients := db_clients ?s, db_ClientIncreaseId := db_ClientIncreaseId ?s\<rparr> = ?s"
      "(\<forall>x \<in> set (c # cs). c_Id x < 2 ^ 31) \<longrightarrow> sint (db_ClientIncreaseId s1) = greatest_id (sint (db_ClientIncreaseId s)) (c # cs)"
    using Cons.IH [of ?s] Cons.prems(2-4) by (auto simp: greatest_id_def)
  have "s1\<lparr>db_heap := db_heap s, db_next := db_next s, db_clients := db_clients s, db_ClientIncreaseId := db_ClientIncreaseId s\<rparr>
      = ?s\<lparr>db_heap := db_heap s, db_next := db_next s, db_clients := db_clients s, db_ClientIncreaseId := db_ClientIncreaseId s\<rparr>"
    by (subst s1(5) [symmetric]) simp
  also have "\<dots> = s" by (simp add: store_new_client_def)
  finally show ?case
    using s1 load_client_printed [of c s] Cons.prems(2) \<open>clients_of ?s = _\<close> \<open>fst ` set (db_clients ?s) = _\<close>
    by (auto simp: Let_def)
qed (simp add: greatest_id_def)


section \<open>The tunnels' file\<close>

definition tunnel_storable :: "tunnel \<times> npc \<Rightarrow> bool" where
  "tunnel_storable x \<longleftrightarrow> tunnel_values_ok (fst x) \<and> npc_numbers_ok (snd x) \<and> json_ok (tunnel_to_json (fst x, Some (snd x)))"

definition reattached :: "db \<Rightarrow> tunnel \<times> npc \<Rightarrow> (int \<times> tunnel) option" where
  "reattached s x = map_option (\<lambda>r. (t_Id (fst x), (stored_tunnel (fst x))\<lparr>t_Client := Some r\<rparr>))
     (db_GetClient (c_Id (snd x)) s)"

lemma load_task_printed:
  assumes "tunnel_storable x"
  shows "load_task (print_json (tunnel_to_json (fst x, Some (snd x)))) s =
    Some (case reattached s x of
            None \<Rightarrow> s
          | Some (i, t) \<Rightarrow>
              let s1 = s\<lparr>db_tasks := AList.update i t (db_tasks s)\<rparr>
              in if i > sint (db_TaskIncreaseId s1) then s1\<lparr>db_TaskIncreaseId := word_of_int i\<rparr> else s1)"
proof -
  have ok: "json_ok (tunnel_to_json (fst x, Some (snd x)))" and nonnull: "tunnel_to_json (fst x, Some (snd x)) \<noteq> JNull"
    and reads: "tunnel_of_json (tunnel_to_json (fst x, Some (snd x)))
      = Some (stored_tunnel (fst x), Some ((snd x)\<lparr>c_Rate := stored_rate (c_Rate (snd x))\<rparr>))"
    using assms tunnel_read_back [of "fst x" "Some (snd x)"]
    by (simp_all add: tunnel_storable_def tunnel_to_json_def)
  have i: "t_Id (stored_tunnel t) = t_Id t" for t by (simp add: stored_tunnel_def)
  show ?thesis
    by (cases "db_GetClient (c_Id (snd x)) s")
      (simp_all add: load_task_def unmarshal_printed [where of_js = tunnel_of_json, OF ok nonnull reads] Let_def reattached_def i)
qed

lemma load_tasks_list:
  assumes "list_all tunnel_storable ts" and "distinct (map (t_Id \<circ> fst) ts)"
    and "fst ` set (db_tasks s) \<inter> (t_Id \<circ> fst) ` set ts = {}"
  shows "\<exists>s1. each_segment load_task (map (\<lambda>x. print_json (tunnel_to_json (fst x, Some (snd x)))) ts) s = Some s1
    \<and> db_tasks s1 = db_tasks s @ List.map_filter (reattached s) ts
    \<and> s1\<lparr>db_tasks := db_tasks s, db_TaskIncreaseId := db_TaskIncreaseId s\<rparr> = s"
  using assms
proof (induction ts arbitrary: s)
  case Nil
  then show ?case by (simp add: List.map_filter_def)
next
  case (Cons x ts)
  let ?rest = "\<lambda>s. each_segment load_task (map (\<lambda>x. print_json (tunnel_to_json (fst x, Some (snd x)))) ts) s"
  have run: "load_task (print_json (tunnel_to_json (fst x, Some (snd x)))) s =
    Some (case reattached s x of
            None \<Rightarrow> s
          | Some (i, t) \<Rightarrow>
              let s1 = s\<lparr>db_tasks := AList.update i t (db_tasks s)\<rparr>
              in if i > sint (db_TaskIncreaseId s1) then s1\<lparr>db_TaskIncreaseId := word_of_int i\<rparr> else s1)"
    using load_task_printed Cons.prems(1) by simp
  show ?case
  proof (cases "reattached s x")
    case None
    then show ?thesis using Cons.IH [of s] Cons.prems run by (simp add: List.map_filter_def)
  next
    case (Some e)
    then obtain t where e: "e = (t_Id (fst x), t)" by (auto simp: reattached_def)
    let ?t = "s\<lparr>db_tasks := AList.update (t_Id (fst x)) t (db_tasks s)\<rparr>"
    let ?s = "if t_Id (fst x) > sint (db_TaskIncreaseId ?t) then ?t\<lparr>db_TaskIncreaseId := word_of_int (t_Id (fst x))\<rparr> else ?t"
    have u: "AList.update (t_Id (fst x)) t (db_tasks s) = db_tasks s @ [(t_Id (fst x), t)]"
      using Cons.prems(3) by (intro update_fresh) auto
    have same: "reattached ?s = reattached s" "db_tasks ?s = db_tasks s @ [e]"
      by (auto simp: reattached_def [abs_def] db_GetClient_def u e)
    then obtain s1 where s1: "?rest ?s = Some s1" "db_tasks s1 = db_tasks ?s @ List.map_filter (reattached s) ts"
        "s1\<lparr>db_tasks := db_tasks ?s, db_TaskIncreaseId := db_TaskIncreaseId ?s\<rparr> = ?s"
      using Cons.IH [of ?s] Cons.prems e by auto
    have "s1\<lparr>db_tasks := db_tasks s, db_TaskIncreaseId := db_TaskIncreaseId s\<rparr>
        = ?s\<lparr>db_tasks := db_tasks s, db_TaskIncreaseId := db_TaskIncreaseId s\<rparr>"
      by (subst s1(3) [symmetric]) simp
    also have "\<dots> = s" by simp
    finally show ?thesis
      using s1 run Some e same by (auto simp: List.map_filter_def Let_def)
  qed
qed


section \<open>Restart\<close>

definition objects_text :: "('a \<Rightarrow> json) \<Rightarrow> 'a list \<Rightarrow> string" where
  "objects_text to_js xs = concat (map (\<lambda>x. print_json (to_js x) @ segment_end) xs)"

abbreviation "tunnel_text \<equiv> objects_text (\<lambda>x. tunnel_to_json (fst x, Some (snd x)))"

definition on_disk :: "(string list \<Rightarrow> string) \<Rightarrow> string \<Rightarrow> disk \<Rightarrow> npc list \<Rightarrow> (tunnel \<times> npc) list \<Rightarrow> bool" where
  "on_disk join run d cs ts \<longleftrightarrow>
     d (join [run, ''conf'', ''clients.json'']) = Some (objects_text npc_to_json cs)
     \<and> d (join [run, ''conf'', ''tasks.json'']) = Some (tunnel_text ts)
     \<and> d (join [run, ''conf'', ''hosts.json'']) = None \<and> d (join [run, ''conf'', ''global.json'']) = None
     \<and> list_all npc_storable cs \<and> distinct (map c_Id cs)
     \<and> list_all tunnel_storable ts \<and> distinct (map (t_Id \<circ> fst) ts)"

text \<open>A tunnel with the client it belongs to.\<close>

definition owned_tunnels :: "db \<Rightarrow> (tunnel \<times> npc option) list" where
  "owned_tunnels s = map (\<lambda>(k, t). (t\<lparr>t_Client := None\<rparr>, owner_of s (t_Client t))) (db_tasks s)"

definition tunnels_with_owner :: "npc list \<Rightarrow> (tunnel \<times> npc) list \<Rightarrow> (tunnel \<times> npc option) list" where
  "tunnels_with_owner cs ts = List.map_filter (\<lambda>x. map_option (\<lambda>c. (stored_tunnel (fst x), Some c))
     (List.find (\<lambda>c. c_Id c = c_Id (snd x)) cs)) ts"

lemma GetClient_find:
  assumes "heap_ok s"
  shows "map_option (client_at s) (db_GetClient i s) = List.find (\<lambda>c. c_Id c = i) (clients_of s)"
proof -
  have "map_option (client_at s) (map_of m i) = List.find (\<lambda>c. c_Id c = i) (map (\<lambda>(_, r). client_at s r) m)"
    if "\<forall>(k, r) \<in> set m. c_Id (client_at s r) = k" for m
    using that by (induction m) auto
  then show ?thesis using assms by (auto simp: heap_ok_def db_GetClient_def clients_of_def)
qed

lemma GetDb_on_disk:
  assumes "on_disk join run d cs ts"
  shows "\<exists>s. GetDb join run d = Some s \<and> heap_ok s \<and> clients_of s = map loaded_npc cs
    \<and> owned_tunnels s = tunnels_with_owner (map loaded_npc cs) ts
    \<and> fst ` set (db_clients s) = c_Id ` set cs
    \<and> ((\<forall>c \<in> set cs. c_Id c < 2 ^ 31) \<longrightarrow> sint (db_ClientIncreaseId s) = greatest_id 0 cs)
    \<and> s\<lparr>db_heap := \<lambda>_. None, db_next := 0, db_clients := [], db_tasks := [], db_ClientIncreaseId := 0, db_TaskIncreaseId := 0\<rparr>
        = NewJsonDb join run d"
proof -
  let ?s0 = "NewJsonDb join run d"
  have ok: "heap_ok ?s0" by (simp add: heap_ok_def NewJsonDb_def)
  obtain s1 where s1: "each_segment load_client (map (\<lambda>c. print_json (npc_to_json c)) cs) ?s0 = Some s1" "heap_ok s1"
      "clients_of s1 = map loaded_npc cs" "fst ` set (db_clients s1) = c_Id ` set cs"
      "s1\<lparr>db_heap := db_heap ?s0, db_next := db_next ?s0, db_clients := db_clients ?s0,
         db_ClientIncreaseId := db_ClientIncreaseId ?s0\<rparr> = ?s0"
      "(\<forall>c \<in> set cs. c_Id c < 2 ^ 31) \<longrightarrow> sint (db_ClientIncreaseId s1) = greatest_id 0 cs"
    using load_clients_list [OF ok, of cs] assms by (auto simp: on_disk_def NewJsonDb_def clients_of_def)
  have load1: "LoadClientFromJsonFile ?s0 = Some s1"
    unfolding LoadClientFromJsonFile_def
    using s1(1) assms json_ok_npc
    by (subst load_stored [where to_js = npc_to_json and xs = cs])
      (auto simp: on_disk_def objects_text_def NewJsonDb_def npc_storable_def list_all_iff load_client_def)
  have frame1: "db_files s1 = d" "db_TaskFilePath s1 = db_TaskFilePath ?s0" "db_HostFilePath s1 = db_HostFilePath ?s0"
      "db_GlobalFilePath s1 = db_GlobalFilePath ?s0" "db_tasks s1 = []"
    using arg_cong [OF s1(5), of db_files] arg_cong [OF s1(5), of db_TaskFilePath]
      arg_cong [OF s1(5), of db_HostFilePath] arg_cong [OF s1(5), of db_GlobalFilePath] arg_cong [OF s1(5), of db_tasks]
    by (simp_all add: NewJsonDb_def)
  obtain s2 where s2: "each_segment load_task (map (\<lambda>x. print_json (tunnel_to_json (fst x, Some (snd x)))) ts) s1 = Some s2"
      "db_tasks s2 = List.map_filter (reattached s1) ts" "s2\<lparr>db_tasks := db_tasks s1, db_TaskIncreaseId := db_TaskIncreaseId s1\<rparr> = s1"
    using load_tasks_list [of ts s1] assms frame1(5) by (auto simp: on_disk_def)
  have load2: "LoadTaskFromJsonFile s1 = Some s2"
    unfolding LoadTaskFromJsonFile_def
    using s2(1) assms frame1
    by (subst load_stored [where to_js = "\<lambda>x. tunnel_to_json (fst x, Some (snd x))" and xs = ts])
      (auto simp: on_disk_def objects_text_def NewJsonDb_def tunnel_storable_def list_all_iff load_task_def)
  have count: "db_ClientIncreaseId s2 = db_ClientIncreaseId s1"
    using arg_cong [OF s2(3), of db_ClientIncreaseId] by simp
  have heap: "db_heap s2 = db_heap s1" "db_clients s2 = db_clients s1" "db_next s2 = db_next s1" "db_files s2 = d"
      "db_HostFilePath s2 = db_HostFilePath ?s0" "db_GlobalFilePath s2 = db_GlobalFilePath ?s0"
    using arg_cong [OF s2(3), of db_heap] arg_cong [OF s2(3), of db_clients] arg_cong [OF s2(3), of db_next]
      arg_cong [OF s2(3), of db_files] arg_cong [OF s2(3), of db_HostFilePath] arg_cong [OF s2(3), of db_GlobalFilePath] frame1
    by simp_all
  have at: "client_at s2 = client_at s1" by (simp add: client_at_def fun_eq_iff heap)
  have load: "GetDb join run d = Some s2"
    using load1 load2 assms heap
    by (simp add: GetDb_def LoadHostFromJsonFile_def loadSyncMapFromFile_def LoadGlobalFromJsonFile_def on_disk_def NewJsonDb_def)
  have "map (\<lambda>(k, t). (t\<lparr>t_Client := None\<rparr>, owner_of s2 (t_Client t))) (List.map_filter (reattached s1) ts)
      = List.map_filter (\<lambda>x. map_option (\<lambda>c. (stored_tunnel (fst x), Some c))
          (map_option (client_at s1) (db_GetClient (c_Id (snd x)) s1))) ts"
    by (induction ts)
      (auto simp: List.map_filter_def reattached_def owner_of_def at stored_tunnel_def split: option.splits)
  then have "owned_tunnels s2 = tunnels_with_owner (map loaded_npc cs) ts"
    using GetClient_find [OF s1(2)] s1(3) by (simp add: owned_tunnels_def tunnels_with_owner_def s2(2))
  moreover have "heap_ok s2" "clients_of s2 = map loaded_npc cs"
    using s1(2,3) heap at by (simp_all add: heap_ok_def clients_of_def)
  moreover have "s2\<lparr>db_heap := \<lambda>_. None, db_next := 0, db_clients := [], db_tasks := [], db_ClientIncreaseId := 0, db_TaskIncreaseId := 0\<rparr> = ?s0"
  proof -
    have "s2\<lparr>db_heap := \<lambda>_. None, db_next := 0, db_clients := [], db_tasks := [], db_ClientIncreaseId := 0, db_TaskIncreaseId := 0\<rparr>
        = s1\<lparr>db_heap := \<lambda>_. None, db_next := 0, db_clients := [], db_tasks := [], db_ClientIncreaseId := 0, db_TaskIncreaseId := 0\<rparr>"
      by (subst s2(3) [symmetric]) simp
    also have "\<dots> = s1\<lparr>db_heap := \<lambda>_. None, db_next := 0, db_clients := [], db_ClientIncreaseId := 0\<rparr>"
      using frame1(5) arg_cong [OF s1(5), of db_TaskIncreaseId] by (cases s1) (simp add: NewJsonDb_def)
    also have "\<dots> = ?s0" using s1(5) by (simp add: NewJsonDb_def)
    finally show ?thesis .
  qed
  ultimately show ?thesis using load s1(4,6) heap(2) count by auto
qed


definition paths_apart :: "(string list \<Rightarrow> string) \<Rightarrow> string \<Rightarrow> bool" where
  "paths_apart join run \<longleftrightarrow>
     (let cp = join [run, ''conf'', ''clients.json'']; tp = join [run, ''conf'', ''tasks.json''];
          hp = join [run, ''conf'', ''hosts.json'']; gp = join [run, ''conf'', ''global.json'']
      in distinct [cp, tp, hp, gp] \<and> cp @ ''.tmp'' \<notin> {tp, hp, gp} \<and> tp @ ''.tmp'' \<notin> {cp, hp, gp})"

definition live_db :: "(string list \<Rightarrow> string) \<Rightarrow> string \<Rightarrow> db \<Rightarrow> bool" where
  "live_db join run s \<longleftrightarrow> heap_ok s \<and> db_fault s = StoreOk
     \<and> db_ClientFilePath s = join [run, ''conf'', ''clients.json'']
     \<and> db_TaskFilePath s = join [run, ''conf'', ''tasks.json'']"

lemma GetDb_live: "on_disk join run d cs ts \<Longrightarrow> \<exists>s. GetDb join run d = Some s \<and> live_db join run s
    \<and> clients_of s = map loaded_npc cs \<and> owned_tunnels s = tunnels_with_owner (map loaded_npc cs) ts
    \<and> fst ` set (db_clients s) = c_Id ` set cs
    \<and> ((\<forall>c \<in> set cs. c_Id c < 2 ^ 31) \<longrightarrow> sint (db_ClientIncreaseId s) = greatest_id 0 cs) \<and> db_files s = d"
proof -
  assume "on_disk join run d cs ts"
  then obtain s where s: "GetDb join run d = Some s" "heap_ok s" "clients_of s = map loaded_npc cs"
      "owned_tunnels s = tunnels_with_owner (map loaded_npc cs) ts" "fst ` set (db_clients s) = c_Id ` set cs"
      "(\<forall>c \<in> set cs. c_Id c < 2 ^ 31) \<longrightarrow> sint (db_ClientIncreaseId s) = greatest_id 0 cs"
      "s\<lparr>db_heap := \<lambda>_. None, db_next := 0, db_clients := [], db_tasks := [], db_ClientIncreaseId := 0, db_TaskIncreaseId := 0\<rparr>
        = NewJsonDb join run d"
    using GetDb_on_disk by blast
  have "db_fault s = StoreOk" "db_files s = d" "db_ClientFilePath s = join [run, ''conf'', ''clients.json'']"
      "db_TaskFilePath s = join [run, ''conf'', ''tasks.json'']"
    using arg_cong [OF s(7), of db_fault] arg_cong [OF s(7), of db_files] arg_cong [OF s(7), of db_ClientFilePath]
      arg_cong [OF s(7), of db_TaskFilePath] by (simp_all add: NewJsonDb_def)
  then show ?thesis using s by (auto simp: live_db_def)
qed

lemma clients_ids_distinct: "heap_ok s \<Longrightarrow> map c_Id (clients_of s) = map fst (db_clients s)"
  by (auto simp: heap_ok_def clients_of_def)

lemma StoreClients_on_disk:
  assumes "live_db join run s" and "paths_apart join run" and "on_disk join run (db_files s) cs ts"
    and "list_all npc_storable (stored_clients s)"
  shows "on_disk join run (db_files (StoreClientsToJsonFile s)) (stored_clients s) ts"
proof -
  have "distinct (map c_Id (clients_of s))"
    using assms(1) by (simp add: live_db_def clients_ids_distinct heap_ok_def)
  then have "distinct (map c_Id (stored_clients s))" by (simp add: stored_clients_def distinct_map_filter)
  then show ?thesis
    using assms
    by (auto simp: on_disk_def StoreClientsToJsonFile_def storeSyncMapToFile_def live_db_def paths_apart_def Let_def
        objects_text_def stored_clients_def comp_def)
qed

definition saved_tunnels :: "db \<Rightarrow> (tunnel \<times> npc) list" where
  "saved_tunnels s = map (\<lambda>t. (t, client_at s (the (t_Client t)))) (filter (\<lambda>t. \<not> t_NoStore t) (map snd (db_tasks s)))"

lemma StoreTasks_on_disk:
  assumes "live_db join run s" and "paths_apart join run" and "on_disk join run (db_files s) cs ts"
    and "list_all tunnel_storable (saved_tunnels s)" and "distinct (map (t_Id \<circ> fst) (saved_tunnels s))"
    and "\<forall>t \<in> snd ` set (db_tasks s). t_Client t \<noteq> None"
  shows "on_disk join run (db_files (StoreTasksToJsonFile s)) cs (saved_tunnels s)"
proof -
  have "map (\<lambda>t. print_json (tunnel_to_json (t, owner_of s (t_Client t)))) (filter (\<lambda>t. \<not> t_NoStore t) (map snd (db_tasks s)))
      = map (\<lambda>x. print_json (tunnel_to_json (fst x, Some (snd x)))) (saved_tunnels s)"
    using assms(6) by (force simp: saved_tunnels_def owner_of_def)
  then have "concat (map (\<lambda>b. b @ segment_end) (map (\<lambda>t. print_json (tunnel_to_json (t, owner_of s (t_Client t))))
      (filter (\<lambda>t. \<not> t_NoStore t) (map snd (db_tasks s))))) = tunnel_text (saved_tunnels s)"
    by (simp add: objects_text_def comp_def)
  then show ?thesis
    using assms
    by (auto simp: on_disk_def StoreTasksToJsonFile_def storeSyncMapToFile_def live_db_def paths_apart_def Let_def)
qed


section \<open>Deleting and creating clients\<close>

lemma DelClient_live:
  assumes "live_db join run s"
  shows "live_db join run (DelClient i s)" and "clients_of (DelClient i s) = filter (\<lambda>c. c_Id c \<noteq> i) (clients_of s)"
    and "owned_tunnels (DelClient i s) = owned_tunnels s"
proof -
  have at: "client_at (DelClient i s) = client_at s"
    by (simp add: DelClient_def StoreClientsToJsonFile_def client_at_def fun_eq_iff)
  have ids: "\<forall>(k, r) \<in> set (db_clients s). c_Id (client_at s r) = k"
    using assms by (auto simp: live_db_def heap_ok_def)
  show "live_db join run (DelClient i s)"
    using assms at keys_distinct_delete
    by (auto simp: live_db_def heap_ok_def DelClient_def StoreClientsToJsonFile_def AList.delete_eq distinct_map_filter)
  have "map (\<lambda>(_, r). client_at s r) (AList.delete i m) = filter (\<lambda>c. c_Id c \<noteq> i) (map (\<lambda>(_, r). client_at s r) m)"
    if "\<forall>(k, r) \<in> set m. c_Id (client_at s r) = k" for m
    using that by (induction m) auto
  then show "clients_of (DelClient i s) = filter (\<lambda>c. c_Id c \<noteq> i) (clients_of s)"
    using ids at by (auto simp: clients_of_def DelClient_def StoreClientsToJsonFile_def)
  show "owned_tunnels (DelClient i s) = owned_tunnels s"
    using at by (simp add: owned_tunnels_def owner_of_def DelClient_def StoreClientsToJsonFile_def)
qed

lemma NewClient_live:
  assumes "live_db join run s" and "vkey \<noteq> []" and "\<forall>c \<in> set (clients_of s). c_VerifyKey c \<noteq> vkey"
    and "0 \<le> sint (db_ClientIncreaseId s)" and "sint (db_ClientIncreaseId s) < 2 ^ 31 - 1"
    and "\<forall>c \<in> set (clients_of s). c_Id c \<le> sint (db_ClientIncreaseId s)"
  shows "\<exists>c s1. db_NewClient keys (npc_NewClient vkey noStore noDisplay) s = Some (Inr c, s1) \<and> live_db join run s1
    \<and> clients_of s1 = clients_of s @ [c] \<and> c_VerifyKey c = vkey \<and> c_Id c = sint (db_ClientIncreaseId s) + 1
    \<and> c_NoStore c = noStore \<and> npc_text_ok c = valid_utf8 vkey \<and> npc_numbers_ok c
    \<and> (\<exists>s0. s1 = StoreClientsToJsonFile s0 \<and> live_db join run s0 \<and> db_files s0 = db_files s \<and> clients_of s0 = clients_of s1)"
proof -
  let ?n = "sint (db_ClientIncreaseId s) + 1"
  let ?c = "(new_rate (npc_NewClient vkey noStore noDisplay))\<lparr>c_Id := ?n\<rparr>"
  have n: "sint (db_ClientIncreaseId s + 1) = ?n"
    using assms(4,5) by (simp add: sint_word_ariths signed_take_bit_int_eq_self)
  have verify: "VerifyVkey vkey i s" for i
    using assms(3) by (auto simp: VerifyVkey_def find_None_iff)
  define s0 where "s0 = store_new_client ?c (s\<lparr>db_ClientIncreaseId := db_ClientIncreaseId s + 1\<rparr>)"
  have run: "db_NewClient keys (npc_NewClient vkey noStore noDisplay) s = Some (Inr ?c, StoreClientsToJsonFile s0)"
    using assms(2) verify n
    by (simp add: db_NewClient_def npc_NewClient_def zero_npc_def new_rate_def insert_client_def GetClientId_def s0_def Let_def)
  have "?n \<notin> fst ` set (db_clients s)"
  proof
    assume "?n \<in> fst ` set (db_clients s)"
    then have "?n \<in> c_Id ` set (clients_of s)"
      using clients_ids_distinct [of s] assms(1) by (metis live_db_def list.set_map)
    then show False using assms(6) by force
  qed
  then have fresh: "c_Id ?c \<notin> fst ` set (db_clients (s\<lparr>db_ClientIncreaseId := db_ClientIncreaseId s + 1\<rparr>))" by simp
  have heap: "heap_ok (s\<lparr>db_ClientIncreaseId := db_ClientIncreaseId s + 1\<rparr>)"
    using assms(1) by (auto simp: live_db_def heap_ok_def client_at_def)
  note new = store_new_client_fresh [OF heap fresh]
  have s0: "clients_of s0 = clients_of s @ [?c]" "heap_ok s0" "db_files s0 = db_files s"
    using new by (simp_all add: s0_def clients_of_def client_at_def store_new_client_def)
  have live0: "live_db join run s0"
    using assms(1) s0(2) by (simp add: live_db_def s0_def store_new_client_def)
  have st: "clients_of (StoreClientsToJsonFile s0) = clients_of s0" "live_db join run (StoreClientsToJsonFile s0)"
    using live0 by (simp_all add: live_db_def heap_ok_def clients_of_def client_at_def StoreClientsToJsonFile_def)
  have c: "c_VerifyKey ?c = vkey" "c_NoStore ?c = noStore" "npc_text_ok ?c = valid_utf8 vkey" "npc_numbers_ok ?c"
    using assms(4,5)
    by (simp_all add: new_rate_def npc_NewClient_def zero_npc_def npc_text_ok_def new_conn_config_def npc_numbers_ok_def int64_ok_def)
  show ?thesis
    by (rule exI [of _ ?c], rule exI [of _ "StoreClientsToJsonFile s0"]) (use run st live0 s0 c in auto)
qed


section \<open>Properties\<close>


definition slash_join :: "string list \<Rightarrow> string" where "slash_join = joined ''/''"

definition sample_npc :: npc where
  "sample_npc = (npc_NewClient ''k'' False False)\<lparr>c_Id := 1\<rparr>"

definition sample_tunnel :: tunnel where
  "sample_tunnel = zero_tunnel\<lparr>t_Id := 1, t_Port := 80, t_Mode := ''tcp'', t_Status := True\<rparr>"

definition sample_disk :: disk where
  "sample_disk = [slash_join [''d'', ''conf'', ''clients.json''] \<mapsto> objects_text npc_to_json [sample_npc],
     slash_join [''d'', ''conf'', ''tasks.json''] \<mapsto> tunnel_text [(sample_tunnel, sample_npc)]]"

lemma sample_paths: "paths_apart slash_join ''d''"
  by (simp add: paths_apart_def slash_join_def Let_def)

lemma sample_storable: "npc_storable sample_npc" "tunnel_storable (sample_tunnel, sample_npc)"
proof -
  have k: "valid_utf8 ''k''" "valid_utf8 ''tcp''" "valid_utf8 zero_time" by code_simp+
  have utf: "npc_text_ok sample_npc"
    using k by (simp add: npc_text_ok_def sample_npc_def npc_NewClient_def zero_npc_def new_conn_config_def)
  have num: "npc_numbers_ok sample_npc"
    by (simp add: npc_numbers_ok_def sample_npc_def npc_NewClient_def zero_npc_def int64_ok_def)
  show "npc_storable sample_npc" using utf num by (simp add: npc_storable_def)
  have "json_ok (tunnel_to_json (sample_tunnel, Some sample_npc))"
    unfolding tunnel_to_json_def
    by (rule json_ok_fields_iff)
      (use k json_ok_npc [OF utf] in \<open>simp add: tunnel_fields_def field_def tag_ok byte_in_def sample_tunnel_def
        zero_tunnel_def no_health_def to_js_counts_def to_js_ptr_def to_js_strings_def\<close>)
  then show "tunnel_storable (sample_tunnel, sample_npc)"
    using num rfc3339_zero_time
    by (simp add: tunnel_storable_def tunnel_values_ok_def sample_tunnel_def zero_tunnel_def no_health_def int64_ok_def
        ascending_def)
qed

lemma sample_on_disk: "on_disk slash_join ''d'' sample_disk [sample_npc] [(sample_tunnel, sample_npc)]"
  using sample_paths sample_storable
  by (simp add: on_disk_def sample_disk_def paths_apart_def Let_def) (auto simp: slash_join_def)


definition sample_db :: db where
  "sample_db = (NewJsonDb slash_join ''d'' sample_disk)
     \<lparr>db_heap := [0 \<mapsto> sample_npc], db_next := 1, db_clients := [(1, 0)],
      db_tasks := [(1, sample_tunnel\<lparr>t_Client := Some 0\<rparr>)]\<rparr>"

lemma sample_db_simps:
  "client_at sample_db 0 = sample_npc" "stored_clients sample_db = [sample_npc]" "live_db slash_join ''d'' sample_db"
  "saved_tunnels sample_db = [(sample_tunnel\<lparr>t_Client := Some 0\<rparr>, sample_npc)]" "db_files sample_db = sample_disk"
  by (simp_all add: sample_db_def client_at_def stored_clients_def clients_of_def live_db_def heap_ok_def NewJsonDb_def
      saved_tunnels_def sample_npc_def npc_NewClient_def zero_npc_def sample_tunnel_def zero_tunnel_def)

lemma storable_any_pointer: "tunnel_storable (t\<lparr>t_Client := p\<rparr>, c) = tunnel_storable (t, c)"
  by (simp add: tunnel_storable_def tunnel_values_ok_def tunnel_to_json_def fields_to_json_def tunnel_fields_def field_def)


lemma loaded_npc_simps [simp]:
  "npc_storable (loaded_npc x) = npc_storable x" "c_Id (loaded_npc x) = c_Id x"
  "c_NoStore (loaded_npc x) = c_NoStore x" "c_VerifyKey (loaded_npc x) = c_VerifyKey x"
  "loaded_npc (loaded_npc x) = loaded_npc x"
  by (simp_all add: npc_storable_def npc_text_ok_def npc_numbers_ok_def loaded_npc_def)

lemma with_owner_member:
  assumes "(t, c) \<in> set ts" and "List.find (\<lambda>x. c_Id x = c_Id c) cs = Some w"
  shows "(stored_tunnel t, Some w) \<in> set (tunnels_with_owner cs ts)"
  using assms unfolding tunnels_with_owner_def List.map_filter_def by force

lemma find_by_id:
  "distinct (map c_Id cs) \<Longrightarrow> c \<in> set cs \<Longrightarrow> List.find (\<lambda>x. c_Id x = c_Id c) (map loaded_npc cs) = Some (loaded_npc c)"
  by (induction cs) (auto simp: rev_image_eqI)

lemma find_new:
  "c_Id c' = i \<Longrightarrow> List.find (\<lambda>x. c_Id x = i) (map loaded_npc (map loaded_npc (filter (\<lambda>x. c_Id x \<noteq> i) cs) @ [c'])) = Some (loaded_npc c')"
  by (induction cs) auto

lemma greatest_id_upper: "m \<le> greatest_id m xs \<and> (\<forall>x \<in> set xs. c_Id x \<le> greatest_id m xs)"
proof (induction xs arbitrary: m)
  case (Cons a xs)
  have "greatest_id m (a # xs) = greatest_id (max m (c_Id a)) xs" by (simp add: greatest_id_def)
  then show ?case using Cons [of "max m (c_Id a)"] by simp
qed (simp add: greatest_id_def)

text \<open>Deleting a client and starting again; creating one and starting again.\<close>

lemma restart_after_delete:
  assumes "paths_apart join run" and "on_disk join run d cs ts" and "list_all (\<lambda>c. \<not> c_NoStore c) cs"
    and "live_db join run s" and "clients_of s = map loaded_npc cs" and "db_files s = d"
  shows "on_disk join run (db_files (DelClient i s)) (map loaded_npc (filter (\<lambda>x. c_Id x \<noteq> i) cs)) ts"
proof -
  define s0 where "s0 = s\<lparr>db_clients := AList.delete i (db_clients s)\<rparr>"
  have del: "DelClient i s = StoreClientsToJsonFile s0" by (simp add: DelClient_def s0_def)
  have s0: "live_db join run s0" "clients_of s0 = clients_of (DelClient i s)" "db_files s0 = d"
    using DelClient_live(1) [OF assms(4), of i] assms(6)
    unfolding del by (simp_all add: live_db_def heap_ok_def clients_of_def client_at_def StoreClientsToJsonFile_def s0_def)
  have "filter (\<lambda>x. c_Id x \<noteq> i \<and> \<not> c_NoStore x) cs = filter (\<lambda>x. c_Id x \<noteq> i) cs"
    using assms(3) by (intro filter_cong) (auto simp: list_all_iff)
  then have "stored_clients s0 = map loaded_npc (filter (\<lambda>x. c_Id x \<noteq> i) cs)"
    using assms(5) DelClient_live(2) [OF assms(4), of i]
    by (simp add: stored_clients_def s0(2) filter_map comp_def conj_commute)
  moreover have "list_all npc_storable (map loaded_npc (filter (\<lambda>x. c_Id x \<noteq> i) cs))"
    using assms(2) by (auto simp: on_disk_def list_all_iff)
  ultimately show ?thesis
    using StoreClients_on_disk [OF s0(1) assms(1), of cs ts] assms(2) s0(3) del by simp
qed

lemma restart_after_new:
  assumes "paths_apart join run" and "on_disk join run d cs ts" and "list_all (\<lambda>c. \<not> c_NoStore c) cs"
    and "live_db join run s" and "clients_of s = map loaded_npc cs" and "db_files s = d"
    and "sint (db_ClientIncreaseId s) = greatest_id 0 cs" and "greatest_id 0 cs < 2 ^ 31 - 1"
    and "vkey \<noteq> []" and "valid_utf8 vkey" and "\<forall>c \<in> set cs. c_VerifyKey c \<noteq> vkey"
  shows "\<exists>c s1. db_NewClient [] (npc_NewClient vkey False False) s = Some (Inr c, s1)
    \<and> c_VerifyKey c = vkey \<and> c_Id c = greatest_id 0 cs + 1
    \<and> on_disk join run (db_files s1) (map loaded_npc cs @ [c]) ts"
proof -
  obtain c s1 s0 where c: "db_NewClient [] (npc_NewClient vkey False False) s = Some (Inr c, s1)"
      "clients_of s1 = map loaded_npc cs @ [c]" "c_VerifyKey c = vkey" "c_Id c = greatest_id 0 cs + 1" "\<not> c_NoStore c"
      "npc_text_ok c" "npc_numbers_ok c" "s1 = StoreClientsToJsonFile s0" "live_db join run s0" "db_files s0 = d"
      "clients_of s0 = clients_of s1"
    using NewClient_live [OF assms(4) assms(9), of "[]" False False] assms(5-8,10,11) greatest_id_upper [of 0 cs] by auto
  have keep: "stored_clients s0 = map loaded_npc cs @ [c]"
    using assms(3) c(2,5,11) by (auto simp: stored_clients_def filter_map comp_def list_all_iff filter_id_conv)
  have "list_all npc_storable (stored_clients s0)"
    using assms(2) c(6,7) unfolding keep by (auto simp: on_disk_def list_all_iff npc_storable_def [of c])
  then show ?thesis
    using StoreClients_on_disk [OF c(9) assms(1), of cs ts] assms(2) c keep by auto
qed




section \<open>Hosts\<close>

lemma choose_host_fold:
  "\<lbrakk>fold (\<lambda>v h. if location_fits uri v \<and> (case h of None \<Rightarrow> True | Some b \<Rightarrow> length (h_Location v) > length (h_Location b))
      then Some v else h) hs h0 = r; \<forall>b. h0 = Some b \<longrightarrow> location_fits uri b\<rbrakk> \<Longrightarrow>
   (r = None \<longleftrightarrow> h0 = None \<and> (\<forall>v \<in> set hs. \<not> location_fits uri v))
   \<and> (\<forall>b. r = Some b \<longrightarrow> location_fits uri b \<and> (h0 = Some b \<or> b \<in> set hs)
        \<and> (\<forall>v. (h0 = Some v \<or> v \<in> set hs) \<and> location_fits uri v \<longrightarrow> length (h_Location v) \<le> length (h_Location b)))"
proof (induction hs arbitrary: h0)
  case (Cons v hs)
  let ?h1 = "if location_fits uri v \<and> (case h0 of None \<Rightarrow> True | Some b \<Rightarrow> length (h_Location v) > length (h_Location b))
      then Some v else h0"
  have IH: "(r = None \<longleftrightarrow> ?h1 = None \<and> (\<forall>v \<in> set hs. \<not> location_fits uri v))
   \<and> (\<forall>b. r = Some b \<longrightarrow> location_fits uri b \<and> (?h1 = Some b \<or> b \<in> set hs)
        \<and> (\<forall>v. (?h1 = Some v \<or> v \<in> set hs) \<and> location_fits uri v \<longrightarrow> length (h_Location v) \<le> length (h_Location b)))"
    using Cons.prems by (intro Cons.IH) (simp_all split: option.splits)
  show ?case
  proof (cases "location_fits uri v \<and> (case h0 of None \<Rightarrow> True | Some b \<Rightarrow> length (h_Location v) > length (h_Location b))")
    case True
    have h1: "?h1 = Some v" by (rule if_P [OF True])
    have "length (h_Location w) < length (h_Location v)" if "h0 = Some w" for w using True that by simp
    then show ?thesis using IH True unfolding h1 by fastforce
  next
    case False
    have h1: "?h1 = h0" by (rule if_not_P [OF False])
    have weak: "\<exists>w. h0 = Some w \<and> location_fits uri w \<and> length (h_Location v) \<le> length (h_Location w)"
      if "location_fits uri v"
      using False that Cons.prems(2) by (cases h0) auto
    note IH1 = IH [unfolded h1]
    show ?thesis
    proof (intro conjI allI impI)
      show "(r = None) = (h0 = None \<and> (\<forall>v\<in>set (v # hs). \<not> location_fits uri v))"
        using IH1 weak by auto
    next
      fix b assume b: "r = Some b"
      then show "location_fits uri b" "h0 = Some b \<or> b \<in> set (v # hs)" using IH1 by auto
      fix u assume u: "(h0 = Some u \<or> u \<in> set (v # hs)) \<and> location_fits uri u"
      have bound: "length (h_Location x) \<le> length (h_Location b)"
        if "h0 = Some x \<or> x \<in> set hs" "location_fits uri x" for x
        using IH1 b that by blast
      show "length (h_Location u) \<le> length (h_Location b)"
      proof (cases "h0 = Some u \<or> u \<in> set hs")
        case True
        then show ?thesis using bound u by blast
      next
        case False
        then have "u = v" using u by auto
        then obtain w where "h0 = Some w" "location_fits uri w" "length (h_Location u) \<le> length (h_Location w)"
          using weak u by auto
        then show ?thesis using bound [of w] by simp
      qed
    qed
  qed
qed auto

text \<open>A request is routed to the host with the longest matching location. Among the open hosts
  whose scheme and name fit (a name with a star fits when the rest of it occurs in the requested
  name) and whose location, the root if none is set, is a prefix of the requested address, the one
  found has a location of the greatest length; no host is found exactly when none fits.\<close>

theorem longest_location_wins:
  assumes "GetInfoByHost name scheme uri s = (r, s')"
  shows "(r = None \<longleftrightarrow> \<not> (\<exists>v \<in> snd ` set (db_hosts s). host_candidate (GetIpByAddr name) scheme v \<and> location_fits uri (with_location v)))
    \<and> (\<forall>h. r = Some h \<longrightarrow>
         (\<exists>v \<in> snd ` set (db_hosts s). h = with_location v \<and> host_candidate (GetIpByAddr name) scheme v)
         \<and> location_fits uri h
         \<and> (\<forall>v \<in> snd ` set (db_hosts s). host_candidate (GetIpByAddr name) scheme v \<and> location_fits uri (with_location v)
              \<longrightarrow> length (h_Location (with_location v)) \<le> length (h_Location h)))"
proof -
  let ?n = "GetIpByAddr name"
  have same: "host_candidate n sc (with_location v) = host_candidate n sc v" for n sc v
    by (simp add: host_candidate_def with_location_def)
  define hs where "hs = filter (host_candidate ?n scheme) (map (\<lambda>x. if host_candidate ?n scheme (snd x) then with_location (snd x) else snd x) (db_hosts s))"
  have r: "choose_host uri hs = r"
    using assms by (auto simp: GetInfoByHost_def hs_def Let_def comp_def case_prod_beta)
  have hs: "set hs = with_location ` {v \<in> snd ` set (db_hosts s). host_candidate ?n scheme v}"
    by (force simp: hs_def same)
  show ?thesis using choose_host_fold [OF r [unfolded choose_host_def]] unfolding hs by auto
qed

definition site_host :: "string \<Rightarrow> host" where
  "site_host loc = zero_host\<lparr>h_Host := ''a.b'', h_Location := loc, h_Scheme := ''all''\<rparr>"

theorem longest_location_wins_witness:
  "fst (GetInfoByHost ''a.b:80'' ''http'' ''/x/y'' (sample_db\<lparr>db_hosts := [(1, site_host []), (2, site_host ''/x'')]\<rparr>)) = Some (site_host ''/x'')"
proof -
  let ?s = "sample_db\<lparr>db_hosts := [(1, site_host []), (2, site_host ''/x'')]\<rparr>"
  obtain r s' where run: "GetInfoByHost ''a.b:80'' ''http'' ''/x/y'' ?s = (r, s')" by fastforce
  have n: "GetIpByAddr ''a.b:80'' = ''a.b''" by code_simp
  have c: "host_candidate ''a.b'' ''http'' (site_host loc)" for loc
    by (simp add: host_candidate_def site_host_def zero_host_def)
  have w: "with_location (site_host []) = site_host ''/''" "with_location (site_host ''/x'') = site_host ''/x''"
    by (simp_all add: with_location_def site_host_def)
  have l: "h_Location (site_host loc) = loc" for loc by (simp add: site_host_def)
  have f: "location_fits ''/x/y'' (site_host ''/'')" "location_fits ''/x/y'' (site_host ''/x'')"
    by (simp_all add: location_fits_def l)
  obtain h where h: "r = Some h"
    using longest_location_wins [OF run] n c f(2) w(2) by (cases r) auto
  then have "h \<in> {site_host ''/'', site_host ''/x''}" "length ''/x'' \<le> length (h_Location h)"
    using longest_location_wins [OF run] n c f w l by auto
  then show ?thesis using h run l by auto
qed

end
