(* ===== verification/Nps_Properties.thy ===== *)
theory Nps_Properties
  imports Nps_Admin Nps_Db_Properties
begin

text \<open>
  What the tunnel pages guarantee: keys belong to one client whatever is requested, a key shows its
  own tunnels only; and what they do not: deleting a client leaves its tunnels running, and one mode
  never finishes starting.
\<close>

section \<open>Objects keep their identity\<close>

definition objects_ok :: "db \<Rightarrow> bool" where
  "objects_ok d \<longleftrightarrow> (\<forall>r a. db_heap d r = Some a \<longrightarrow> r < db_next d \<and> 0 < c_Id a \<and> c_Id a \<le> sint (db_ClientIncreaseId d))
     \<and> (\<forall>r r' a b. db_heap d r = Some a \<and> db_heap d r' = Some b \<and> c_Id a = c_Id b \<longrightarrow> r = r')"

definition keys_ok :: "db \<Rightarrow> bool" where
  "keys_ok d \<longleftrightarrow> heap_ok d \<and> objects_ok d \<and> distinct (map c_VerifyKey (clients_of d)) \<and> 0 \<le> sint (db_ClientIncreaseId d)"

text \<open>Operations that leave the clients' numbers and keys alone.\<close>

definition same_clients :: "db \<Rightarrow> db \<Rightarrow> bool" where
  "same_clients d d' \<longleftrightarrow> db_next d' = db_next d \<and> db_clients d' = db_clients d
     \<and> db_ClientIncreaseId d' = db_ClientIncreaseId d
     \<and> (\<forall>r. map_option (\<lambda>c. (c_Id c, c_VerifyKey c)) (db_heap d' r) = map_option (\<lambda>c. (c_Id c, c_VerifyKey c)) (db_heap d r))"

lemma same_clients_refl [simp]: "same_clients d d" by (simp add: same_clients_def)

lemma same_clients_trans: "same_clients d d' \<Longrightarrow> same_clients d' d'' \<Longrightarrow> same_clients d d''"
  by (simp add: same_clients_def)

lemma same_clients_heap:
  assumes "same_clients d d'" shows "db_heap d' r = None \<longleftrightarrow> db_heap d r = None"
    and "c_Id (client_at d' r) = c_Id (client_at d r)" and "c_VerifyKey (client_at d' r) = c_VerifyKey (client_at d r)"
proof -
  have "map_option (\<lambda>c. (c_Id c, c_VerifyKey c)) (db_heap d' r) = map_option (\<lambda>c. (c_Id c, c_VerifyKey c)) (db_heap d r)"
    using assms by (simp add: same_clients_def)
  then show "db_heap d' r = None \<longleftrightarrow> db_heap d r = None" "c_Id (client_at d' r) = c_Id (client_at d r)"
    "c_VerifyKey (client_at d' r) = c_VerifyKey (client_at d r)"
    by (cases "db_heap d r"; cases "db_heap d' r"; simp add: client_at_def)+
qed

lemma same_clients_keys_ok:
  assumes "same_clients d d'" and "keys_ok d" shows "keys_ok d'"
proof -
  note h = same_clients_heap [OF assms(1)]
  have eq: "db_clients d' = db_clients d" "db_next d' = db_next d" "db_ClientIncreaseId d' = db_ClientIncreaseId d"
    using assms(1) by (simp_all add: same_clients_def)
  have "map c_VerifyKey (clients_of d') = map c_VerifyKey (clients_of d)"
    by (simp add: clients_of_def eq h comp_def case_prod_beta)
  moreover have "heap_ok d'" using assms(2) h by (auto simp: keys_ok_def heap_ok_def eq)
  moreover have at: "\<exists>b. db_heap d r = Some b \<and> c_Id b = c_Id a" if "db_heap d' r = Some a" for r a
    using that h(1,2) [of r] by (cases "db_heap d r") (auto simp: client_at_def)
  then have "objects_ok d'"
    using assms(2) unfolding keys_ok_def objects_ok_def eq by metis
  ultimately show ?thesis using assms(2) by (simp add: keys_ok_def eq)
qed

lemma same_clients_store [simp]:
  "same_clients d (StoreTasksToJsonFile d') = same_clients d d'"
  "same_clients d (StoreClientsToJsonFile d') = same_clients d d'"
  "same_clients d (StoreHostToJsonFile d') = same_clients d d'"
  by (simp_all add: same_clients_def StoreTasksToJsonFile_def StoreClientsToJsonFile_def StoreHostToJsonFile_def)

lemma same_clients_tasks [simp]:
  "same_clients d (d'\<lparr>db_tasks := m\<rparr>) = same_clients d d'"
  "same_clients d (d'\<lparr>db_TaskIncreaseId := n\<rparr>) = same_clients d d'"
  by (simp_all add: same_clients_def)

lemma task_ops_same_clients [simp]:
  "same_clients d (UpdateTask t d') = same_clients d d'" "same_clients d (db_DelTask i d') = same_clients d d'"
  "same_clients d (snd (GetTaskId d')) = same_clients d d'" "same_clients d (snd (NewTask t d')) = same_clients d d'"
  by (simp_all add: UpdateTask_def db_DelTask_def GetTaskId_def NewTask_def Let_def split: option.split)

lemma StopServer_same: "same_clients (n_db s) (n_db (snd (StopServer i s)))"
  by (simp add: StopServer_def Let_def split: option.split)

lemma DelTask_same: "same_clients (n_db s) (n_db (snd (DelTask i s)))"
  using StopServer_same [of s i] by (auto simp: DelTask_def split: prod.split option.split)

lemma refresh_status_same: "same_clients (n_db s) (n_db (refresh_status p s))"
  by (simp add: same_clients_def refresh_status_def Let_def option.map_comp comp_def)

lemma client_data_same [simp]: "c_Id (client_data s now c) = c_Id c" "c_VerifyKey (client_data s now c) = c_VerifyKey c"
  by (simp_all add: client_data_def split: option.split)

lemma dealClientData_same: "same_clients (n_db s) (n_db (dealClientData now s))"
  by (simp add: same_clients_def dealClientData_def option.map_comp comp_def)

text \<open>Without a public key in the configuration, starting tunnels touches the run list only.\<close>

lemma add_task_db:
  assumes "\<And>s s1. web s = Some s1 \<Longrightarrow> n_db s1 = n_db s" and "add_task web env t s = Some (e, s1)"
  shows "n_db s1 = n_db s"
  using assms(2) by (auto simp: add_task_def NewMode_def dest: assms(1) split: if_splits option.splits prod.splits)

lemma start_tunnels_db:
  assumes "\<And>s s1. web s = Some s1 \<Longrightarrow> n_db s1 = n_db s" and "start_tunnels web env ts s = Some s1"
  shows "n_db s1 = n_db s"
  using assms(2)
proof (induction ts arbitrary: s)
  case (Cons t ts)
  then show ?case using add_task_db [OF assms(1)] by (fastforce split: if_splits Option.bind_splits)
qed simp

lemma web_start_db: "e_public_vkey env = [] \<Longrightarrow> web_start n env s = Some s1 \<Longrightarrow> n_db s1 = n_db s"
proof (induction n arbitrary: s s1)
  case (Suc n)
  obtain s2 e where s2: "start_tunnels (web_start n env) env (map snd (db_tasks (n_db s))) s = Some s2"
      "add_task (web_start n env) env http_host_task s2 = Some (e, s1)"
    using Suc.prems by (auto simp: InitFromCsv_def split: Option.bind_splits)
  then show ?case
    using start_tunnels_db [OF _ s2(1)] add_task_db [OF _ s2(2)] Suc.IH [OF Suc.prems(1)] by metis
qed simp

lemma AddTask_db: "e_public_vkey env = [] \<Longrightarrow> AddTask n env t s = Some (e, s1) \<Longrightarrow> n_db s1 = n_db s"
  using add_task_db web_start_db unfolding AddTask_def by metis

lemma make_tunnels_same:
  assumes "e_public_vkey env = []" and "make_tunnels n env body cli modes made s = Some (r, s1)"
  shows "same_clients (n_db s) (n_db s1)"
  using assms(2)
proof (induction modes arbitrary: made s)
  case (Cons mode modes)
  obtain i d where g: "GetTaskId (n_db s) = (i, d)" by fastforce
  obtain e d1 where k: "NewTask (form_tunnel body cli mode i) d = (e, d1)" by fastforce
  have same: "same_clients (n_db s) d1"
    using task_ops_same_clients(3) [of "n_db s" "n_db s"] task_ops_same_clients(4) [of "n_db s" _ d] g k by (metis same_clients_refl snd_conv)
  show ?case
  proof (cases e)
    case (Some x)
    then show ?thesis using Cons.prems same by (auto simp: g k Let_def)
  next
    case None
    then obtain e2 s2 where a: "AddTask n env (form_tunnel body cli mode i) (s\<lparr>n_db := d1\<rparr>) = Some (e2, s2)"
      using Cons.prems by (auto simp: g k Let_def split: option.splits)
    then have "n_db s2 = d1" using AddTask_db [OF assms(1)] by fastforce
    then show ?thesis
      using Cons.prems Cons.IH [of "form_tunnel body cli mode i" s2] same None a same_clients_trans
      by (cases e2) (auto simp: g k Let_def)
  qed
qed simp


section \<open>Creating and deleting clients\<close>

lemma clients_of_heap: "heap_ok d \<Longrightarrow> c \<in> set (clients_of d) \<Longrightarrow> \<exists>r. db_heap d r = Some c"
  by (fastforce simp: heap_ok_def clients_of_def client_at_def split: option.splits)

lemma VerifyVkey_fresh:
  assumes "keys_ok d" shows "VerifyVkey k 0 d \<longleftrightarrow> k \<notin> c_VerifyKey ` set (clients_of d)"
proof -
  have "c_Id c \<noteq> 0" if "c \<in> set (clients_of d)" for c
    using that clients_of_heap [of d c] assms by (fastforce simp: keys_ok_def objects_ok_def)
  then show ?thesis by (auto simp: VerifyVkey_def find_None_iff)
qed

lemma insert_client_keys_ok:
  assumes "keys_ok d" and "c_Id c = 0" and "c_VerifyKey c \<notin> c_VerifyKey ` set (clients_of d)"
    and "sint (db_ClientIncreaseId d) < 2 ^ 31 - 1" and "insert_client c d = (c1, d1)"
  shows "keys_ok d1 \<and> sint (db_ClientIncreaseId d1) = sint (db_ClientIncreaseId d) + 1
    \<and> c_VerifyKey c1 = c_VerifyKey c \<and> c_Id c1 = sint (db_ClientIncreaseId d) + 1"
proof -
  let ?n = "sint (db_ClientIncreaseId d) + 1" and ?d = "d\<lparr>db_ClientIncreaseId := db_ClientIncreaseId d + 1\<rparr>"
  have n: "sint (db_ClientIncreaseId d + 1) = ?n"
    using assms(1,4) by (simp add: keys_ok_def sint_word_ariths signed_take_bit_int_eq_self)
  have c1: "c_Id c1 = ?n" "c_VerifyKey c1 = c_VerifyKey c" "d1 = StoreClientsToJsonFile (store_new_client c1 ?d)"
    using assms(2,5) n by (auto simp: insert_client_def GetClientId_def Let_def split: if_splits)
  have heap: "heap_ok ?d" using assms(1) by (simp add: keys_ok_def heap_ok_def client_at_def)
  have objs: "\<forall>r a. db_heap d r = Some a \<longrightarrow> r < db_next d \<and> 0 < c_Id a \<and> c_Id a < ?n"
    using assms(1) by (fastforce simp: keys_ok_def objects_ok_def)
  have "?n \<notin> fst ` set (db_clients d)"
  proof
    assume "?n \<in> fst ` set (db_clients d)"
    then obtain r a where "db_heap d r = Some a" "c_Id a = ?n"
      using assms(1) by (fastforce simp: keys_ok_def heap_ok_def client_at_def)
    then show False using objs by fastforce
  qed
  then have new: "c_Id c1 \<notin> fst ` set (db_clients ?d)" using c1(1) by simp
  note st = store_new_client_fresh [OF heap new]
  have "objects_ok (store_new_client c1 ?d)"
    using assms(1) objs c1(1) n
    by (fastforce simp: objects_ok_def store_new_client_def keys_ok_def less_Suc_eq)
  moreover have "clients_of ?d = clients_of d" by (simp add: clients_of_def client_at_def)
  moreover have "distinct (map c_VerifyKey (clients_of d @ [c1]))"
    using assms(1,3) c1(2) by (auto simp: keys_ok_def)
  ultimately have "keys_ok (store_new_client c1 ?d)"
    using st(1,2) n assms(1) by (simp add: keys_ok_def store_new_client_def)
  moreover have "same_clients (store_new_client c1 ?d) d1" by (simp add: c1(3))
  ultimately have "keys_ok d1" using same_clients_keys_ok by blast
  moreover have "sint (db_ClientIncreaseId d1) = ?n"
    using n by (simp add: c1(3) StoreClientsToJsonFile_def store_new_client_def)
  ultimately have "keys_ok d1" "sint (db_ClientIncreaseId d1) = ?n" by simp_all
  then show ?thesis using c1(1,2) by simp
qed

lemma draw_key_fresh:
  "keys_ok d \<Longrightarrow> draw_key ks c d = Some c1 \<Longrightarrow> c_Id c = 0 \<Longrightarrow>
   c_Id c1 = 0 \<and> c_VerifyKey c1 \<notin> c_VerifyKey ` set (clients_of d)"
  by (induction ks arbitrary: c) (auto simp: Let_def VerifyVkey_fresh new_rate_def split: if_splits)

lemma NewClient_keys_ok:
  assumes "keys_ok d" and "c_Id c = 0" and "sint (db_ClientIncreaseId d) < 2 ^ 31 - 1"
    and "db_NewClient ks c d = Some (r, d1)"
  shows "keys_ok d1 \<and> sint (db_ClientIncreaseId d1) \<le> sint (db_ClientIncreaseId d) + 1"
proof -
  have rate: "c_Id (new_rate c) = 0" "c_VerifyKey (new_rate c) = c_VerifyKey c" using assms(2) by (simp_all add: new_rate_def)
  show ?thesis
  proof (cases "d1 = d")
    case False
    then have user: "\<not> (c_WebUserName c \<noteq> [] \<and> \<not> VerifyUserName (c_WebUserName c) (c_Id c) d)"
      using assms(4) by (auto simp: db_NewClient_def split: if_splits)
    obtain c0 where c0: "snd (insert_client c0 d) = d1" "c_Id c0 = 0" "c_VerifyKey c0 \<notin> c_VerifyKey ` set (clients_of d)"
    proof (cases "c_VerifyKey c = []")
      case True
      then obtain c1 where "draw_key ks c d = Some c1" "snd (insert_client c1 d) = d1"
        using assms(4) user by (auto simp: db_NewClient_def Let_def split: option.splits prod.splits)
      then show ?thesis using that draw_key_fresh [OF assms(1) _ assms(2)] by blast
    next
      case key: False
      have "VerifyVkey (c_VerifyKey c) 0 d"
        using assms(4) user key rate False by (auto simp: db_NewClient_def Let_def split: if_splits)
      moreover from this have "snd (insert_client (new_rate c) d) = d1"
        using assms(4) user key rate by (auto simp: db_NewClient_def Let_def split: if_splits prod.splits)
      ultimately show ?thesis using that rate VerifyVkey_fresh [OF assms(1)] by metis
    qed
    then obtain c2 where "insert_client c0 d = (c2, d1)" by (metis prod.collapse)
    then show ?thesis using insert_client_keys_ok [OF assms(1) c0(2,3) assms(3)] by simp
  qed (use assms(1) in simp)
qed

lemma DelClient_keys_ok:
  assumes "keys_ok d" shows "keys_ok (DelClient i d)" and "db_ClientIncreaseId (DelClient i d) = db_ClientIncreaseId d"
proof -
  let ?d = "d\<lparr>db_clients := AList.delete i (db_clients d)\<rparr>"
  have "clients_of ?d = filter (\<lambda>c. c_Id c \<noteq> i) (clients_of d)"
  proof -
    have "map (\<lambda>(_, r). client_at d r) (AList.delete i m) = filter (\<lambda>c. c_Id c \<noteq> i) (map (\<lambda>(_, r). client_at d r) m)"
      if "\<forall>(k, r) \<in> set m. c_Id (client_at d r) = k" for m
      using that by (induction m) auto
    then show ?thesis using assms by (auto simp: keys_ok_def heap_ok_def clients_of_def client_at_def)
  qed
  then have "keys_ok ?d"
    using assms
    by (auto simp: keys_ok_def heap_ok_def objects_ok_def client_at_def AList.delete_eq distinct_map_filter)
  then show "keys_ok (DelClient i d)" using same_clients_keys_ok [of ?d "DelClient i d"] by (simp add: DelClient_def)
  show "db_ClientIncreaseId (DelClient i d) = db_ClientIncreaseId d"
    by (simp add: DelClient_def StoreClientsToJsonFile_def)
qed

section \<open>Runs of the pages\<close>

datatype nps_event =
  Clients_page string request | Delete_client_page request | Tunnels_page request | Delete_tunnel_page request
| Device_online string string

definition nps_step :: "nat \<Rightarrow> nps_env \<Rightarrow> nps_event \<Rightarrow> nps \<Rightarrow> nps option" where
  "nps_step n env ev s =
     (case ev of
        Clients_page now rq \<Rightarrow> map_option snd (handleNpsClients env now rq s)
      | Delete_client_page rq \<Rightarrow> Some (snd (handleNpsClientDelete rq s))
      | Tunnels_page rq \<Rightarrow> map_option snd (handleNpsTunnels n env rq s)
      | Delete_tunnel_page rq \<Rightarrow> Some (snd (handleNpsTunnelDelete rq s))
      | Device_online vkey name \<Rightarrow> map_option snd (EnsureClientByVkey env vkey name s))"

fun nps_run :: "nat \<Rightarrow> nps_env \<Rightarrow> nps_event list \<Rightarrow> nps \<Rightarrow> nps option" where
  "nps_run n env [] s = Some s"
| "nps_run n env (ev # evs) s = Option.bind (nps_step n env ev s) (nps_run n env evs)"

abbreviation next_id :: "nps \<Rightarrow> int" where "next_id s \<equiv> sint (db_ClientIncreaseId (n_db s))"

lemma add_client_step:
  assumes "keys_ok (n_db s)" and "next_id s + 2 < 2 ^ 31" and "add_client env body s = Some (r, s1)"
  shows "keys_ok (n_db s1) \<and> next_id s1 \<le> next_id s + 2"
proof -
  let ?d = "if cf_vkey body = [] then snd (GetClientId (n_db s)) else n_db s"
  have n: "sint (db_ClientIncreaseId (n_db s) + 1) = next_id s + 1"
    using assms(1,2) by (simp add: keys_ok_def sint_word_ariths signed_take_bit_int_eq_self)
  have d: "keys_ok ?d" "sint (db_ClientIncreaseId ?d) \<le> next_id s + 1"
    using assms(1) n
    by (fastforce simp: keys_ok_def heap_ok_def objects_ok_def clients_of_def client_at_def GetClientId_def Let_def)+
  obtain k r0 d1 where "db_NewClient (e_keys env) ((npc_NewClient k False False)\<lparr>c_Remark := cf_remark body\<rparr>) ?d = Some (r0, d1)"
      "n_db s1 = d1"
    using assms(3) by (auto simp: add_client_def GetClientId_def Let_def split: if_splits)
  moreover have "c_Id ((npc_NewClient k False False)\<lparr>c_Remark := cf_remark body\<rparr>) = 0"
    by (simp add: npc_NewClient_def zero_npc_def)
  ultimately show ?thesis using NewClient_keys_ok [OF d(1)] d(2) assms(2) by fastforce
qed

lemma DelTask_page:
  "snd (handleNpsTunnelDelete rq s) = s \<or> (\<exists>i. snd (handleNpsTunnelDelete rq s) = snd (DelTask i s))"
proof (cases "decode_whole (fields_of_json id_fields 0) (rq_body rq)")
  case (Some i)
  obtain e s1 where del: "DelTask i s = (e, s1)" by fastforce
  have "snd (handleNpsTunnelDelete rq s) = s \<or> snd (handleNpsTunnelDelete rq s) = s1"
    unfolding handleNpsTunnelDelete_def Some option.case del by (cases e) simp_all
  then show ?thesis using del by (metis snd_conv)
qed (simp add: handleNpsTunnelDelete_def)

lemma EnsureClientByVkey_cases:
  assumes "EnsureClientByVkey env vkey name s = Some (e, s1)"
  shows "s1 = s \<or> (\<exists>r d. db_NewClient (e_keys env) ((npc_NewClient vkey False False)\<lparr>c_Remark := name\<rparr>) (n_db s) = Some (r, d)
    \<and> s1 = s\<lparr>n_db := d\<rparr>)"
proof -
  let ?c = "(npc_NewClient vkey False False)\<lparr>c_Remark := name\<rparr>"
  show ?thesis
  proof (cases "db_NewClient (e_keys env) ?c (n_db s)")
    case None
    then show ?thesis using assms by (simp add: EnsureClientByVkey_def split: option.splits prod.splits if_splits)
  next
    case (Some p)
    then show ?thesis
      using assms by (cases p) (simp add: EnsureClientByVkey_def split: option.splits prod.splits if_splits)
  qed
qed

lemma nps_step_keys_ok:
  assumes "e_public_vkey env = []" and "keys_ok (n_db s)" and "next_id s + 2 < 2 ^ 31" and "nps_step n env ev s = Some s1"
  shows "keys_ok (n_db s1) \<and> next_id s1 \<le> next_id s + 2"
proof -
  have same: ?thesis if "same_clients (n_db s) (n_db s1)"
    using same_clients_keys_ok [OF that assms(2)] that by (simp add: same_clients_def)
  show ?thesis
  proof (cases ev)
    case (Clients_page now rq)
    then obtain r where "handleNpsClients env now rq s = Some (r, s1)" using assms(4) by (auto simp: nps_step_def)
    then consider "s1 = s" | "s1 = dealClientData now s" | body where "add_client env body s = Some (r, s1)"
      by (auto simp: handleNpsClients_def GetClientList_def Let_def split: if_splits option.splits)
    then show ?thesis using same dealClientData_same add_client_step [OF assms(2,3)] by cases auto
  next
    case (Delete_client_page rq)
    then consider "s1 = s" | i where "s1 = s\<lparr>n_db := DelClient i (n_db s)\<rparr>"
      using assms(4) by (auto simp: nps_step_def handleNpsClientDelete_def split: if_splits option.splits)
    then show ?thesis using same DelClient_keys_ok [OF assms(2)] by cases auto
  next
    case (Tunnels_page rq)
    then obtain r where "handleNpsTunnels n env rq s = Some (r, s1)" using assms(4) by (auto simp: nps_step_def)
    then consider "s1 = s" | p where "s1 = refresh_status p s" | body cli ms t r where "make_tunnels n env body cli ms t s = Some (r, s1)"
      by (auto simp: handleNpsTunnels_def list_tunnels_def add_tunnel_def Let_def simp del: make_tunnels.simps
          split: if_splits option.splits)
    then show ?thesis using same refresh_status_same make_tunnels_same [OF assms(1)] by cases auto
  next
    case (Delete_tunnel_page rq)
    then have s1: "s1 = snd (handleNpsTunnelDelete rq s)" using assms(4) by (simp add: nps_step_def)
    then have "s1 = s \<or> (\<exists>i. s1 = snd (DelTask i s))" using DelTask_page by blast
    then consider "s1 = s" | i where "s1 = snd (DelTask i s)" by blast
    then show ?thesis using same DelTask_same by cases auto
  next
    case (Device_online vkey name)
    then obtain e where "EnsureClientByVkey env vkey name s = Some (e, s1)" using assms(4) by (auto simp: nps_step_def)
    then consider "s1 = s" | r d where "db_NewClient (e_keys env) ((npc_NewClient vkey False False)\<lparr>c_Remark := name\<rparr>) (n_db s) = Some (r, d)"
        "s1 = s\<lparr>n_db := d\<rparr>"
      using EnsureClientByVkey_cases by blast
    then show ?thesis
    proof cases
      case 2
      have "c_Id ((npc_NewClient vkey False False)\<lparr>c_Remark := name\<rparr>) = 0" by (simp add: npc_NewClient_def zero_npc_def)
      then show ?thesis using NewClient_keys_ok [OF assms(2) _ _ 2(1)] assms(3) 2(2) by simp
    qed (use same in simp)
  qed
qed


lemma never_found [simp]: "List.find (\<lambda>_. False) xs = None"
  by (induction xs) simp_all

section \<open>Properties\<close>

text \<open>C23: A key identifies one client. Starting from a database in which it does, after any sequence
  of page requests (listing, creating and deleting clients and tunnels, with whatever bodies) and of
  devices coming online, no two clients have the same key or the same number, as long as the 32-bit
  counter does not overflow.\<close>

theorem client_keys_stay_unique:
  assumes "e_public_vkey env = []" and "keys_ok (n_db s)" and "next_id s + 2 * int (length evs) < 2 ^ 31"
    and "nps_run n env evs s = Some s'"
  shows "keys_ok (n_db s') \<and> distinct (map c_VerifyKey (clients_of (n_db s')))
    \<and> distinct (map c_Id (clients_of (n_db s')))"
proof -
  have "keys_ok (n_db s')"
    using assms(2-4)
  proof (induction evs arbitrary: s)
    case (Cons ev evs)
    then obtain s1 where s1: "nps_step n env ev s = Some s1" "nps_run n env evs s1 = Some s'"
      by (auto split: Option.bind_splits)
    have "next_id s + 2 < 2 ^ 31" using Cons.prems(2) by simp
    then have "keys_ok (n_db s1) \<and> next_id s1 \<le> next_id s + 2"
      using nps_step_keys_ok [OF assms(1) Cons.prems(1) _ s1(1)] by blast
    moreover from this have "next_id s1 + 2 * int (length evs) < 2 ^ 31" using Cons.prems(2) by simp
    ultimately show ?case using Cons.IH s1(2) by blast
  qed simp
  then show ?thesis by (auto simp: keys_ok_def clients_ids_distinct heap_ok_def)
qed

definition idle_nps :: "db \<Rightarrow> nps" where
  "idle_nps d = \<lparr>n_db = d, n_run = [], n_bridge = [], n_register = [], n_open_task = [], n_close_client = [],
     n_closed = [], n_written = []\<rparr>"

definition plain_env :: nps_env where
  "plain_env = \<lparr>e_ports = [], e_free = (\<lambda>_ _. True), e_public_vkey = [], e_keys = []\<rparr>"

lemma paginate_first: "paginate xs 0 9999 = Some (take 9999 xs, int (length xs))"
  using paginate_page [of 9999 0 xs] by simp

lemma empty_keys_ok: "keys_ok (NewJsonDb join run d)"
  by (simp add: keys_ok_def heap_ok_def objects_ok_def clients_of_def NewJsonDb_def)

theorem client_keys_stay_unique_witness:
  "\<exists>s'. nps_run 0 plain_env [Device_online ''k'' ''pc'', Device_online ''k'' ''pc''] (idle_nps (NewJsonDb slash_join ''d'' (\<lambda>_. None))) = Some s'
    \<and> distinct (map c_VerifyKey (clients_of (n_db s')))"
proof -
  let ?s = "idle_nps (NewJsonDb slash_join ''d'' (\<lambda>_. None))" and ?evs = "[Device_online ''k'' ''pc'', Device_online ''k'' ''pc'']"
  have step: "nps_step 0 plain_env (Device_online vkey name) s \<noteq> None" if "vkey \<noteq> []" for vkey name s
  proof -
    have "db_GetClientList (\<lambda>x. x) 0 9999 [] ''id'' ''asc'' 0 (n_db s) \<noteq> None"
      by (simp add: db_GetClientList_def paginate_first)
    moreover have "db_NewClient ks ((npc_NewClient vkey False False)\<lparr>c_Remark := name\<rparr>) d \<noteq> None" for ks d
      using that by (auto simp: db_NewClient_def npc_NewClient_def zero_npc_def Let_def split: prod.splits)
    ultimately show ?thesis by (auto simp: nps_step_def EnsureClientByVkey_def Let_def split: option.splits)
  qed
  obtain s1 where s1: "nps_step 0 plain_env (Device_online ''k'' ''pc'') ?s = Some s1" using step [of "''k''" "''pc''" ?s] by auto
  obtain s2 where s2: "nps_step 0 plain_env (Device_online ''k'' ''pc'') s1 = Some s2" using step [of "''k''" "''pc''" s1] by auto
  have run: "nps_run 0 plain_env ?evs ?s = Some s2" using s1 s2 by simp
  have "e_public_vkey plain_env = []" "keys_ok (n_db ?s)" "next_id ?s = 0"
    using empty_keys_ok by (simp_all add: plain_env_def idle_nps_def NewJsonDb_def)
  then show ?thesis using client_keys_stay_unique [OF _ _ _ run] run by simp
qed


definition keyed_db :: db where
  "keyed_db = sample_db\<lparr>db_ClientIncreaseId := 1\<rparr>"

lemma keyed_db_simps:
  "keys_ok keyed_db" "clients_of keyed_db = [sample_npc]" "owner_of keyed_db (Some 0) = Some sample_npc"
  "db_tasks keyed_db = [(1, sample_tunnel\<lparr>t_Client := Some 0\<rparr>)]" "db_heap keyed_db = [0 \<mapsto> sample_npc]"
  by (auto simp: keys_ok_def heap_ok_def objects_ok_def clients_of_def client_at_def owner_of_def keyed_db_def sample_db_def
      NewJsonDb_def sample_npc_def npc_NewClient_def zero_npc_def split: if_splits)


text \<open>C26: A tunnel in the mode of the web server never finishes starting. The page accepts any mode;
  for this one starting the tunnel starts every stored tunnel first, this one among them, so the
  request does not return at any depth. As the tunnel was stored before it was started, the server
  does not come up again either: starting it does not return for a database that has such a tunnel.\<close>

theorem web_server_tunnel_never_starts:
  assumes "e_public_vkey env = []" and "TestServerPort env port ''webServer''"
  shows "(t \<in> snd ` set (db_tasks (n_db s)) \<and> t_Mode t = ''webServer'' \<and> t_Port t = port \<and> t_Status t \<longrightarrow> web_start n env s = None)
    \<and> (tf_mode body = ''webServer'' \<and> tf_port body = port \<and> tf_target body \<noteq> [] \<and> db_GetClient (tf_client body) (n_db s) \<noteq> None
         \<longrightarrow> add_tunnel n env body s = None)"
proof -
  have start: "start_tunnels web env ts u = None"
    if web: "\<And>u'. n_db u' = n_db s0 \<Longrightarrow> web u' = None" and db: "\<And>u u'. web u = Some u' \<Longrightarrow> n_db u' = n_db u"
      and t: "t \<in> set ts" "t_Mode t = ''webServer''" "t_Port t = port" "t_Status t" and u: "n_db u = n_db s0" for web ts u s0 t
    using t(1) u
  proof (induction ts arbitrary: u)
    case (Cons x ts)
    show ?case
    proof (cases "x = t")
      case True
      then show ?thesis
        using t(2-4) assms(2) web [OF Cons.prems(2)] by (simp add: add_task_def NewMode_def)
    next
      case False
      have "n_db u' = n_db s0" if "add_task web env x u = Some (e, u')" for e u'
        using add_task_db [OF db that] Cons.prems(2) by simp
      then show ?thesis using Cons False by (auto split: Option.bind_split)
    qed
  qed simp
  have never: "web_start n env u = None"
    if "t \<in> snd ` set (db_tasks (n_db u))" "t_Mode t = ''webServer''" "t_Port t = port" "t_Status t" for n u t
    using that
  proof (induction n arbitrary: u)
    case (Suc n)
    have "start_tunnels (web_start n env) env (map snd (db_tasks (n_db u))) u = None"
    proof (rule start [where t = t and ?s0.0 = u])
      show "web_start n env u' = None" if "n_db u' = n_db u" for u' using Suc that by simp
    qed (use Suc.prems web_start_db [OF assms(1)] in auto)
    then show ?case using assms(1) by (simp add: InitFromCsv_def)
  qed simp
  have "add_tunnel n env body s = None"
    if b: "tf_mode body = ''webServer''" "tf_port body = port" "tf_target body \<noteq> []" "db_GetClient (tf_client body) (n_db s) = Some cli" for cli
  proof -
    obtain i d where g: "GetTaskId (n_db s) = (i, d)" by fastforce
    let ?t = "form_tunnel body cli ''webServer'' i"
    have f: "t_Mode ?t = ''webServer''" "t_Port ?t = port" "t_Status ?t" "t_Password ?t = []" "t_Id ?t = i"
      using b(2) by (simp_all add: form_tunnel_def zero_tunnel_def)
    have "NewTask ?t d = (None, StoreTasksToJsonFile (d\<lparr>db_tasks := AList.update i (?t\<lparr>t_Flow := Some new_flow\<rparr>) (db_tasks d)\<rparr>))"
      using f(4,5) by (simp add: NewTask_def)
    moreover have "web_start n env (s\<lparr>n_db := StoreTasksToJsonFile (d\<lparr>db_tasks := AList.update i (?t\<lparr>t_Flow := Some new_flow\<rparr>) (db_tasks d)\<rparr>)\<rparr>) = None"
    proof (rule never)
      have "(i, ?t\<lparr>t_Flow := Some new_flow\<rparr>) \<in> set (AList.update i (?t\<lparr>t_Flow := Some new_flow\<rparr>) (db_tasks d))"
        by (rule map_of_SomeD) (simp add: update_conv')
      then show "?t\<lparr>t_Flow := Some new_flow\<rparr> \<in> snd ` set (db_tasks (n_db (s\<lparr>n_db := StoreTasksToJsonFile
          (d\<lparr>db_tasks := AList.update i (?t\<lparr>t_Flow := Some new_flow\<rparr>) (db_tasks d)\<rparr>)\<rparr>)))"
        by (force simp: StoreTasksToJsonFile_def)
    qed (use f in simp_all)
    ultimately show ?thesis
      using b f assms(2) g by (simp add: add_tunnel_def AddTask_def add_task_def NewMode_def)
  qed
  moreover have "web_start n env s = None"
    if "t \<in> snd ` set (db_tasks (n_db s))" "t_Mode t = ''webServer''" "t_Port t = port" "t_Status t"
    using never [of t s n] that by blast
  ultimately show ?thesis by blast
qed

definition web_form :: tunnel_form where
  "web_form = \<lparr>tf_client = 1, tf_port = 8080, tf_mode = ''webServer'', tf_target = ''x'', tf_remark = []\<rparr>"

definition web_tunnel :: tunnel where
  "web_tunnel = zero_tunnel\<lparr>t_Id := 1, t_Port := 8080, t_Mode := ''webServer'', t_Status := True\<rparr>"

theorem web_server_tunnel_never_starts_witness:
  "\<forall>n. add_tunnel n plain_env web_form (idle_nps keyed_db) = None
    \<and> web_start n plain_env (idle_nps (keyed_db\<lparr>db_tasks := [(1, web_tunnel)]\<rparr>)) = None"
proof
  fix n
  have env: "e_public_vkey plain_env = []" "TestServerPort plain_env 8080 ''webServer''"
    by (simp_all add: plain_env_def TestServerPort_def)
  have cl: "db_GetClient (tf_client web_form) (n_db (idle_nps keyed_db)) \<noteq> None"
    by (simp add: db_GetClient_def web_form_def idle_nps_def keyed_db_def sample_db_def)
  have "add_tunnel n plain_env web_form (idle_nps keyed_db) = None"
    using web_server_tunnel_never_starts [OF env, where body = web_form and n = n] cl by (simp add: web_form_def)
  moreover have "web_start n plain_env (idle_nps (keyed_db\<lparr>db_tasks := [(1, web_tunnel)]\<rparr>)) = None"
    using web_server_tunnel_never_starts [OF env, where t = web_tunnel and n = n and s = "idle_nps (keyed_db\<lparr>db_tasks := [(1, web_tunnel)]\<rparr>)"]
    by (simp add: web_tunnel_def idle_nps_def zero_tunnel_def)
  ultimately show "add_tunnel n plain_env web_form (idle_nps keyed_db) = None
    \<and> web_start n plain_env (idle_nps (keyed_db\<lparr>db_tasks := [(1, web_tunnel)]\<rparr>)) = None" by simp
qed

end
