(* ===== verification/Mux_Packet.thy ===== *)
theory Mux_Packet
  imports Nps_Util
begin

text \<open>
  The packets of the multiplexer, \<^verbatim>\<open>nps-master/lib/nps_mux/netpackager.go\<close>: many
  connections share one stream, on which each packet has a flag, the number of its connection and,
  depending on the flag, a segment of data or the state of a window. The pool of buffers hands out
  buffers of the largest segment; a packet is modelled with the part of its buffer in use. Reading
  from the stream is reading from the bytes that are still to come; running out of them is the error
  of \<^verbatim>\<open>io.ReadFull\<close>.
\<close>

section \<open>Little-endian numbers\<close>

definition put_le16 :: "u16 \<Rightarrow> byte list" where "put_le16 v = rev (put_be16 v)"
definition put_le32 :: "u32 \<Rightarrow> byte list" where "put_le32 v = rev (put_be32 v)"
definition put_le64 :: "u64 \<Rightarrow> byte list" where
  "put_le64 v = put_le32 (ucast v) @ put_le32 (ucast (drop_bit 32 v))"

definition le16 :: "byte list \<Rightarrow> u16" where "le16 bs = be16 (rev bs)"
definition get_le32 :: "byte list \<Rightarrow> u32" where "get_le32 bs = be32 (rev bs)"
definition get_le64 :: "byte list \<Rightarrow> u64" where
  "get_le64 bs = push_bit 32 (ucast (get_le32 (drop 4 bs))) OR ucast (get_le32 (take 4 bs))"

lemma length_put_le [simp]:
  "length (put_le16 v) = 2" "length (put_le32 x) = 4" "length (put_le64 y) = 8"
  by (simp_all add: put_le16_def put_le32_def put_le64_def)

lemma le16_put [simp]: "le16 (put_le16 v) = v"
  by (simp add: le16_def put_le16_def)

lemma le32_put [simp]: "get_le32 (put_le32 v) = v"
  by (simp add: get_le32_def put_le32_def)

lemma halves: "push_bit 32 (ucast (ucast (drop_bit 32 v) :: u32)) OR ucast (ucast v :: u32) = (v :: u64)"
  by (rule bit_word_eqI) (auto simp: bit_simps)

lemma le64_put [simp]: "get_le64 (put_le64 v) = v"
  by (simp add: get_le64_def put_le64_def halves)

section \<open>Packets\<close>

definition muxPingFlag :: byte where "muxPingFlag = 0"
definition muxNewConnOk :: byte where "muxNewConnOk = 1"
definition muxNewConnFail :: byte where "muxNewConnFail = 2"
definition muxNewMsg :: byte where "muxNewMsg = 3"
definition muxNewMsgPart :: byte where "muxNewMsgPart = 4"
definition muxMsgSendOk :: byte where "muxMsgSendOk = 5"
definition muxNewConn :: byte where "muxNewConn = 6"
definition muxConnClose :: byte where "muxConnClose = 7"
definition muxPingReturn :: byte where "muxPingReturn = 8"
definition muxPing :: u32 where "muxPing = -1"

lemmas mux_flags = muxPingFlag_def muxNewConnOk_def muxNewConnFail_def muxNewMsg_def muxNewMsgPart_def
  muxMsgSendOk_def muxNewConn_def muxConnClose_def muxPingReturn_def

definition maximumSegmentSize :: nat where "maximumSegmentSize = 4096 - 2 - 4 - 4 - 1"

record packager =
  p_flag :: byte
  p_id :: u32
  p_window :: u64
  p_length :: u16
  p_content :: "byte list"

definition data_flag :: "byte \<Rightarrow> bool" where
  "data_flag f \<longleftrightarrow> f \<in> {muxNewMsg, muxNewMsgPart, muxPingFlag, muxPingReturn}"

text \<open>The \<^verbatim>\<open>interface{}\<close> argument of \<^verbatim>\<open>Set\<close>: nothing, a slice (possibly nil) or a number. A failing
  type assertion panics, which is \<open>None\<close>.\<close>

datatype payload = No_payload | Slice "byte list option" | Size u64

definition base_Set :: "byte list option \<Rightarrow> packager \<Rightarrow> packager" where
  "base_Set content p0 =
     (let p = p0\<lparr>p_length := 0, p_content := []\<rparr>
      in case content of
           None \<Rightarrow> p
         | Some c \<Rightarrow>
             if length c > maximumSegmentSize then p
             else let p1 = p\<lparr>p_content := c\<rparr> in p1\<lparr>p_length := of_nat (length (p_content p1))\<rparr>)"

definition packager_Set :: "byte \<Rightarrow> u32 \<Rightarrow> payload \<Rightarrow> packager \<Rightarrow> packager option" where
  "packager_Set flag i content p0 =
     (let p = p0\<lparr>p_flag := flag, p_id := i\<rparr>
      in if data_flag flag then
           (case content of
              No_payload \<Rightarrow> Some (p\<lparr>p_content := replicate maximumSegmentSize 0\<rparr>)
            | Slice c \<Rightarrow> Some (base_Set c p)
            | Size w \<Rightarrow> None)
         else if flag = muxMsgSendOk then
           (case content of Size w \<Rightarrow> Some (p\<lparr>p_window := w\<rparr>) | _ \<Rightarrow> None)
         else Some p)"

definition zero_packager :: packager where
  "zero_packager = \<lparr>p_flag = 0, p_id = 0, p_window = 0, p_length = 0, p_content = []\<rparr>"

definition base_Pack :: "packager \<Rightarrow> byte list" where
  "base_Pack p = put_le16 (p_length p) @ take (unat (p_length p)) (p_content p)"

definition Pack :: "packager \<Rightarrow> byte list" where
  "Pack p = p_flag p # put_le32 (p_id p) @
     (if data_flag (p_flag p) then base_Pack p
      else if p_flag p = muxMsgSendOk then put_le64 (p_window p)
      else [])"

definition ReadFull :: "nat \<Rightarrow> byte list \<Rightarrow> (byte list \<times> byte list) option" where
  "ReadFull n s = (if length s < n then None else Some (take n s, drop n s))"

definition base_UnPack :: "packager \<Rightarrow> byte list \<Rightarrow> (u16 \<times> packager \<times> byte list) option" where
  "base_UnPack p s = do {
     (b, s1) \<leftarrow> ReadFull 2 s;
     let l = le16 b;
     if unat l > maximumSegmentSize then None
     else do {
       (c, s2) \<leftarrow> ReadFull (unat l) s1;
       Some (2 + l, p\<lparr>p_length := l, p_content := c\<rparr>, s2)
     }
   }"

definition UnPack :: "packager \<Rightarrow> byte list \<Rightarrow> (u16 \<times> packager \<times> byte list) option" where
  "UnPack p0 s = do {
     (b, s1) \<leftarrow> ReadFull 5 s;
     let p = p0\<lparr>p_flag := b ! 0, p_id := get_le32 (drop 1 b)\<rparr>;
     if data_flag (p_flag p) then do {
       (m, p1, s2) \<leftarrow> base_UnPack p s1;
       Some (5 + m, p1, s2)
     }
     else if p_flag p = muxMsgSendOk then do {
       (w, s2) \<leftarrow> ReadFull 8 s1;
       Some (13, p\<lparr>p_window := get_le64 w\<rparr>, s2)
     }
     else Some (5, p, s1)
   }"

text \<open>A packet the pool hands out is reset, so one that is packed has the fields of its flag only.\<close>

definition packager_ok :: "packager \<Rightarrow> bool" where
  "packager_ok p \<longleftrightarrow>
     (if data_flag (p_flag p) then length (p_content p) \<le> maximumSegmentSize \<and> p_length p = of_nat (length (p_content p)) \<and> p_window p = 0
      else p_length p = 0 \<and> p_content p = [] \<and> (p_flag p \<noteq> muxMsgSendOk \<longrightarrow> p_window p = 0))"

definition next_packager :: "byte list \<Rightarrow> (packager \<times> byte list) option" where
  "next_packager s = map_option (\<lambda>(_, p, r). (p, r)) (UnPack zero_packager s)"

lemma ReadFull_append [simp]: "length a = n \<Longrightarrow> ReadFull n (a @ s) = Some (a, s)"
  by (simp add: ReadFull_def)

lemma segment_length: "length c \<le> maximumSegmentSize \<Longrightarrow> unat (of_nat (length c) :: u16) = length c"
  by (simp add: maximumSegmentSize_def unat_of_nat take_bit_nat_eq_self)

lemma UnPack_Pack:
  assumes "packager_ok p"
  shows "UnPack zero_packager (Pack p @ s) = Some (of_nat (length (Pack p)), p, s)"
proof -
  have split: "ReadFull 5 (f # put_le32 i @ t) = Some (f # put_le32 i, t)" and whole: "ReadFull 5 (f # put_le32 i) = Some (f # put_le32 i, [])" for f i t
    using ReadFull_append [of "f # put_le32 i" 5] by (simp_all add: ReadFull_def)
  consider (data) "data_flag (p_flag p)" | (size) "p_flag p = muxMsgSendOk" "\<not> data_flag (p_flag p)"
    | (other) "\<not> data_flag (p_flag p)" "p_flag p \<noteq> muxMsgSendOk" by blast
  then show ?thesis
  proof cases
    case data
    then have len: "unat (p_length p) = length (p_content p)" and w: "p_window p = 0"
      using assms segment_length by (auto simp: packager_ok_def)
    have "base_UnPack q (base_Pack p @ s) = Some (2 + p_length p, q\<lparr>p_length := p_length p, p_content := p_content p\<rparr>, s)" for q
      using assms data len ReadFull_append [of "p_content p" "length (p_content p)" s]
      by (simp add: base_UnPack_def base_Pack_def packager_ok_def Let_def)
    then show ?thesis
      using data len w assms
      by (cases p) (simp add: Let_def split UnPack_def Pack_def zero_packager_def base_Pack_def packager_ok_def)
  next
    case size
    then show ?thesis
      using assms by (cases p) (simp add: Let_def split UnPack_def Pack_def zero_packager_def packager_ok_def)
  next
    case other
    then show ?thesis
      using assms by (cases p) (simp add: Let_def split UnPack_def Pack_def zero_packager_def packager_ok_def)
  qed
qed

interpretation mux_packets: stream_codec Pack next_packager packager_ok
  by unfold_locales (simp add: next_packager_def UnPack_Pack)

lemma packager_Set_ok:
  assumes "packager_Set flag i content zero_packager = Some p" and "content \<noteq> No_payload \<or> \<not> data_flag flag"
  shows "packager_ok p \<and> p_flag p = flag \<and> p_id p = i"
proof -
  have [simp]: "\<not> data_flag muxMsgSendOk" by (simp add: data_flag_def mux_flags)
  show ?thesis
    using assms
    by (auto simp: packager_Set_def packager_ok_def base_Set_def zero_packager_def maximumSegmentSize_def Let_def
        split: if_splits payload.splits option.splits)
qed

end
