(* ===== verification/Mux_Queue.thy ===== *)
theory Mux_Queue
  imports Mux_Packet
begin

text \<open>
  The queues of the multiplexer, \<^verbatim>\<open>nps-master/lib/nps_mux/queue.go\<close>: the ring buffer, the
  chain of ring buffers that doubles when it is full, and the queue with three priorities from which
  packets are written. One operation at a time is modelled; the atomic instructions with which they
  admit several goroutines, and waiting for an element, are not.
\<close>

section \<open>Queues\<close>

text \<open>What the users of a queue rely on: it holds a list, pushing appends when there is room, and
  popping takes the first element.\<close>

locale bounded_fifo =
  fixes push :: "'a \<Rightarrow> 'q \<Rightarrow> bool \<times> 'q"
    and pop :: "'q \<Rightarrow> ('a option \<times> 'q) option"
    and contents :: "'q \<Rightarrow> 'a list"
    and room :: "'q \<Rightarrow> nat"
    and ok :: "'q \<Rightarrow> bool"
  assumes push_full: "ok q \<Longrightarrow> room q = 0 \<Longrightarrow> push x q = (False, q)"
    and push_room: "ok q \<Longrightarrow> room q \<noteq> 0 \<Longrightarrow>
      \<exists>q'. push x q = (True, q') \<and> ok q' \<and> contents q' = contents q @ [x] \<and> room q' + 1 = room q"
    and pop_empty: "ok q \<Longrightarrow> contents q = [] \<Longrightarrow> pop q = Some (None, q)"
    and pop_first: "ok q \<Longrightarrow> contents q = x # xs \<Longrightarrow> \<exists>q'. pop q = Some (Some x, q') \<and> ok q' \<and> contents q' = xs"

locale fifo =
  fixes push :: "'a \<Rightarrow> 'q \<Rightarrow> 'q"
    and pop :: "'q \<Rightarrow> ('a option \<times> 'q) option"
    and contents :: "'q \<Rightarrow> 'a list"
    and ok :: "'q \<Rightarrow> bool"
  assumes push_back: "ok q \<Longrightarrow> ok (push x q) \<and> contents (push x q) = contents q @ [x]"
    and pop_none: "ok q \<Longrightarrow> contents q = [] \<Longrightarrow> \<exists>q'. pop q = Some (None, q') \<and> ok q' \<and> contents q' = []"
    and pop_front: "ok q \<Longrightarrow> contents q = x # xs \<Longrightarrow> \<exists>q'. pop q = Some (Some x, q') \<and> ok q' \<and> contents q' = xs"
begin

lemma pop_cases:
  assumes "ok q"
  obtains q' where "pop q = Some (None, q')" "ok q'" "contents q = []" "contents q' = []"
  | x q' where "pop q = Some (Some x, q')" "ok q'" "contents q = x # contents q'"
  using assms pop_none pop_front by (cases "contents q") blast+

lemma push_all:
  "ok q \<Longrightarrow> ok (fold push xs q) \<and> contents (fold push xs q) = contents q @ xs"
  by (induction xs arbitrary: q) (auto simp: push_back)

end

section \<open>The ring buffer\<close>

definition dequeueBits :: nat where "dequeueBits = 32"
definition dequeueLimit :: nat where "dequeueLimit = 2 ^ dequeueBits div 4"

record 'a deque =
  dq_headTail :: u64
  dq_vals :: "'a option list"

definition dq_unpack :: "u64 \<Rightarrow> u32 \<times> u32" where
  "dq_unpack ptrs =
     (let m = mask dequeueBits in (ucast (drop_bit dequeueBits ptrs AND m), ucast (ptrs AND m)))"

definition dq_pack :: "u32 \<Rightarrow> u32 \<Rightarrow> u64" where
  "dq_pack head tail = push_bit dequeueBits (ucast head) OR ucast (tail AND mask dequeueBits)"

definition dq_pushHead :: "'a \<Rightarrow> 'a deque \<Rightarrow> bool \<times> 'a deque" where
  "dq_pushHead val d =
     (let (head, tail) = dq_unpack (dq_headTail d); n = of_nat (length (dq_vals d)) :: u32
      in if (tail + n) AND mask dequeueBits = head then (False, d)
         else (True, d\<lparr>dq_headTail := dq_pack (head + 1) tail,
                        dq_vals := (dq_vals d)[unat (head AND (n - 1)) := Some val]\<rparr>))"

text \<open>A slot that is still empty is one that is being written: the loop tries again, so for one
  operation at a time it does not return.\<close>

definition dq_popTail :: "'a deque \<Rightarrow> ('a option \<times> 'a deque) option" where
  "dq_popTail d =
     (let (head, tail) = dq_unpack (dq_headTail d); n = of_nat (length (dq_vals d)) :: u32
      in if tail = head then Some (None, d)
         else let i = unat (tail AND (n - 1))
              in case dq_vals d ! i of
                   None \<Rightarrow> None
                 | Some val \<Rightarrow> Some (Some val,
                     d\<lparr>dq_vals := (dq_vals d)[i := None],
                       dq_headTail := (if tail < mask 32 then dq_headTail d + 1
                                       else dq_headTail d + NOT (mask 32 - 1))\<rparr>))"

definition dq_head :: "'a deque \<Rightarrow> u32" where "dq_head d = fst (dq_unpack (dq_headTail d))"
definition dq_tail :: "'a deque \<Rightarrow> u32" where "dq_tail d = snd (dq_unpack (dq_headTail d))"
definition dq_size :: "'a deque \<Rightarrow> nat" where "dq_size d = unat (dq_head d - dq_tail d)"

definition dq_slot :: "'a deque \<Rightarrow> nat \<Rightarrow> nat" where
  "dq_slot d i = (unat (dq_tail d) + i) mod length (dq_vals d)"

definition dq_contents :: "'a deque \<Rightarrow> 'a list" where
  "dq_contents d = map (\<lambda>i. the (dq_vals d ! dq_slot d i)) [0..<dq_size d]"

definition dq_room :: "'a deque \<Rightarrow> nat" where
  "dq_room d = length (dq_vals d) - dq_size d"

definition dq_ok :: "'a deque \<Rightarrow> bool" where
  "dq_ok d \<longleftrightarrow> (\<exists>k \<le> 30. length (dq_vals d) = 2 ^ k) \<and> dq_size d \<le> length (dq_vals d)
     \<and> (\<forall>i < dq_size d. dq_vals d ! dq_slot d i \<noteq> None)"

lemma dq_unpack_pack [simp]: "dq_unpack (dq_pack h t) = (h, t)"
proof -
  have "ucast (drop_bit 32 (push_bit 32 (ucast h) OR ucast t :: u64) AND mask 32) = h"
    by (rule bit_word_eqI) (auto simp: bit_simps dest: bit_imp_le_length)
  moreover have "ucast ((push_bit 32 (ucast h) OR ucast t :: u64) AND mask 32) = t"
    by (rule bit_word_eqI) (auto simp: bit_simps)
  moreover have "t AND mask 32 = t" by (rule bit_word_eqI) (auto simp: bit_simps)
  ultimately show ?thesis by (simp add: dq_unpack_def dq_pack_def dequeueBits_def)
qed

lemma dq_pack_unpack: "dq_pack (dq_head d) (dq_tail d) = dq_headTail d"
proof -
  have "push_bit 32 (ucast (ucast (drop_bit 32 w AND mask 32) :: u32)) OR ucast (ucast (w AND mask 32) AND mask 32 :: u32) = w"
    for w :: u64
    by (rule bit_word_eqI) (auto simp: bit_simps)
  then show ?thesis by (simp add: dq_pack_def dq_head_def dq_tail_def dq_unpack_def dequeueBits_def Let_def)
qed

lemma dq_pack_add: "dq_pack h t = push_bit 32 (ucast h) + ucast t"
proof -
  have "t AND mask 32 = t" by (rule bit_word_eqI) (auto simp: bit_simps)
  moreover have "push_bit 32 (ucast h) AND ucast t = (0 :: u64)"
    by (rule bit_word_eqI) (auto simp: bit_simps dest: bit_imp_le_length)
  ultimately show ?thesis by (simp add: dq_pack_def dequeueBits_def disjunctive_add_eq_or)
qed

lemma dq_tail_step:
  "(if t < mask 32 then dq_pack h t + 1 else dq_pack h t + NOT (mask 32 - 1)) = dq_pack h (t + 1)"
proof (cases "t < mask 32")
  case True
  then have "uint (t + 1) = uint t + 1" by (simp add: word_less_def uint_word_ariths mask_eq_exp_minus_1)
  then have "ucast (t + 1) = (ucast t + 1 :: u64)" by (simp add: word_uint_eq_iff uint_word_ariths unsigned_ucast_eq take_bit_eq_mod mod_simps)
  then show ?thesis using True by (simp add: dq_pack_add)
next
  case False
  then have "unat t = unat (mask 32 :: u32)"
    using unsigned_less [of t, where ?'a = nat] by (simp add: word_less_nat_alt mask_eq_exp_minus_1)
  then have "t = mask 32" by (simp only: word_unat_eq_iff)
  then show ?thesis by (simp add: dq_pack_add mask_eq_exp_minus_1)
qed

lemma and_size_mask:
  assumes "n = 2 ^ k" and "k \<le> 30"
  shows "unat (w AND (of_nat n - 1) :: u32) = unat w mod n"
proof -
  have "of_nat n - 1 = (mask k :: u32)" using assms by (simp add: mask_eq_exp_minus_1)
  then have "w AND (of_nat n - 1) = take_bit k w" by (simp add: take_bit_eq_mask)
  moreover have "unat (take_bit k w) = unat w mod 2 ^ k"
    by (subst unsigned_take_bit_eq) (rule take_bit_eq_mod)
  ultimately show ?thesis using assms(1) by simp
qed

lemma dq_head_eq: "dq_head d = dq_tail d + of_nat (dq_size d)"
  by (simp add: dq_size_def)

lemma slot_of_index:
  assumes "length (dq_vals d) = 2 ^ k" and "k \<le> 30"
  shows "unat ((dq_tail d + of_nat i) AND (of_nat (length (dq_vals d)) - 1)) = dq_slot d i"
proof -
  have "(2 :: nat) ^ k dvd 2 ^ 32" using assms(2) le_imp_power_dvd [of k 32 "2 :: nat"] by simp
  then have "unat (dq_tail d + of_nat i) mod 2 ^ k = (unat (dq_tail d) + i) mod 2 ^ k"
    by (simp add: unat_word_ariths unat_of_nat take_bit_eq_mod mod_mod_cancel mod_add_right_eq)
  then show ?thesis using and_size_mask [OF assms] by (simp add: dq_slot_def assms(1))
qed

lemma slot_inj:
  assumes "dq_slot d i = dq_slot d j" and "i < length (dq_vals d)" and "j < length (dq_vals d)"
  shows "i = j"
proof -
  have "i = j" if "(t + i) mod n = (t + j) mod n" "i \<le> j" "j < n" for t i j n :: nat
  proof -
    have "n dvd (t + j) - (t + i)" using that by (metis mod_eq_dvd_iff_nat add_le_cancel_left)
    then show ?thesis using that dvd_imp_le [of n "j - i"] by fastforce
  qed
  from this [of "unat (dq_tail d)" i "length (dq_vals d)" j] this [of "unat (dq_tail d)" j "length (dq_vals d)" i]
  show ?thesis using assms by (cases "i \<le> j") (auto simp: dq_slot_def)
qed

lemma dq_pushHead_contents:
  assumes "dq_ok d"
  shows "dq_room d = 0 \<Longrightarrow> dq_pushHead x d = (False, d)"
    and "dq_room d \<noteq> 0 \<Longrightarrow> \<exists>d'. dq_pushHead x d = (True, d') \<and> dq_ok d' \<and> dq_contents d' = dq_contents d @ [x]
      \<and> dq_room d' + 1 = dq_room d"
proof -
  obtain k where k: "k \<le> 30" "length (dq_vals d) = 2 ^ k" using assms by (auto simp: dq_ok_def)
  have small: "length (dq_vals d) < 2 ^ 32" using k power_increasing [of k 30 "2 :: nat"] by simp
  have size: "dq_size d \<le> length (dq_vals d)" using assms by (simp add: dq_ok_def)
  have un: "dq_unpack (dq_headTail d) = (dq_head d, dq_tail d)" by (simp add: dq_head_def dq_tail_def)
  have m: "w AND mask dequeueBits = w" for w :: u32
    unfolding dequeueBits_def by (rule bit_word_eqI) (auto simp: bit_simps)
  have unat_small: "unat (of_nat n :: u32) = n" if "n < 2 ^ 32" for n
    using that by (simp add: unat_of_nat take_bit_nat_eq_self)
  have full: "dq_tail d + of_nat (length (dq_vals d)) = dq_head d \<longleftrightarrow> dq_room d = 0"
  proof -
    have "(of_nat (length (dq_vals d)) = (of_nat (dq_size d) :: u32)) \<longleftrightarrow> length (dq_vals d) = dq_size d"
      using small size unat_small by (metis le_less_trans)
    then show ?thesis using size by (auto simp: dq_head_eq dq_room_def)
  qed
  show "dq_room d = 0 \<Longrightarrow> dq_pushHead x d = (False, d)"
    using full by (simp add: dq_pushHead_def un m)
  assume room: "dq_room d \<noteq> 0"
  let ?d = "d\<lparr>dq_headTail := dq_pack (dq_head d + 1) (dq_tail d), dq_vals := (dq_vals d)[dq_slot d (dq_size d) := Some x]\<rparr>"
  have push: "dq_pushHead x d = (True, ?d)"
    using full room slot_of_index [OF k(2,1), of "dq_size d"] by (simp add: dq_pushHead_def un m flip: dq_head_eq)
  have tail: "dq_tail ?d = dq_tail d" "dq_head ?d = dq_head d + 1" by (simp_all add: dq_tail_def dq_head_def)
  have less: "dq_size d < length (dq_vals d)" using room size by (simp add: dq_room_def)
  have size': "dq_size ?d = dq_size d + 1"
  proof -
    have h: "dq_head d + 1 - dq_tail d = of_nat (dq_size d + 1)" by (simp add: dq_head_eq)
    have "dq_size ?d = unat (of_nat (dq_size d + 1) :: u32)" by (simp only: dq_size_def [of ?d] tail h)
    also have "\<dots> = dq_size d + 1" by (rule unat_small) (use less small in linarith)
    finally show ?thesis .
  qed
  have len: "length (dq_vals ?d) = length (dq_vals d)" by simp
  have slot: "dq_slot ?d i = dq_slot d i" for i unfolding dq_slot_def [of ?d] tail len by (simp only: dq_slot_def)
  have pos: "dq_slot d i < length (dq_vals d)" for i using k by (simp add: dq_slot_def)
  have other: "dq_vals ?d ! dq_slot d i = dq_vals d ! dq_slot d i" if "i < dq_size d" for i
  proof -
    have "dq_slot d (dq_size d) \<noteq> dq_slot d i" using slot_inj [of d i "dq_size d"] that less by fastforce
    then show ?thesis by simp
  qed
  have "dq_ok ?d"
    using assms k size' slot other less pos by (auto simp: dq_ok_def less_Suc_eq)
  moreover have "dq_contents ?d = dq_contents d @ [x]"
    using other pos by (auto simp: dq_contents_def size' slot)
  moreover have "dq_room ?d + 1 = dq_room d" using less by (simp add: dq_room_def size')
  ultimately show "\<exists>d'. dq_pushHead x d = (True, d') \<and> dq_ok d' \<and> dq_contents d' = dq_contents d @ [x] \<and> dq_room d' + 1 = dq_room d"
    using push by blast
qed

lemma dq_popTail_contents:
  assumes "dq_ok d"
  shows "dq_contents d = [] \<Longrightarrow> dq_popTail d = Some (None, d)"
    and "dq_contents d = x # xs \<Longrightarrow> \<exists>d'. dq_popTail d = Some (Some x, d') \<and> dq_ok d' \<and> dq_contents d' = xs"
proof -
  obtain k where k: "k \<le> 30" "length (dq_vals d) = 2 ^ k" using assms by (auto simp: dq_ok_def)
  have un: "dq_unpack (dq_headTail d) = (dq_head d, dq_tail d)" by (simp add: dq_head_def dq_tail_def)
  have empty: "dq_tail d = dq_head d \<longleftrightarrow> dq_size d = 0" by (auto simp: dq_size_def unat_eq_0)
  show "dq_contents d = [] \<Longrightarrow> dq_popTail d = Some (None, d)"
    using empty by (simp add: dq_popTail_def un dq_contents_def)
  assume cont: "dq_contents d = x # xs"
  then have pos: "0 < dq_size d" by (cases "dq_size d") (auto simp: dq_contents_def)
  let ?d = "d\<lparr>dq_vals := (dq_vals d)[dq_slot d 0 := None], dq_headTail := dq_pack (dq_head d) (dq_tail d + 1)\<rparr>"
  have "dq_vals d ! dq_slot d 0 \<noteq> None" using assms pos by (auto simp: dq_ok_def)
  moreover have "the (dq_vals d ! dq_slot d 0) = x"
    using cont pos by (simp add: dq_contents_def upt_conv_Cons)
  ultimately have val: "dq_vals d ! dq_slot d 0 = Some x" by auto
  have ht: "(if dq_tail d < mask 32 then dq_headTail d + 1 else dq_headTail d + NOT (mask 32 - 1))
      = dq_pack (dq_head d) (dq_tail d + 1)"
    using dq_tail_step [of "dq_tail d" "dq_head d"] by (simp only: dq_pack_unpack)
  have i: "unat (dq_tail d AND (of_nat (length (dq_vals d)) - 1)) = dq_slot d 0"
    using slot_of_index [OF k(2,1), of 0] by simp
  have pop: "dq_popTail d = Some (Some x, ?d)"
    unfolding dq_popTail_def un Let_def prod.case ht i val option.case using empty pos by simp
  have tail: "dq_tail ?d = dq_tail d + 1" "dq_head ?d = dq_head d" by (simp_all add: dq_tail_def dq_head_def)
  have size': "dq_size ?d + 1 = dq_size d"
  proof -
    have "dq_head d - dq_tail d \<noteq> 0" using pos by (auto simp: dq_size_def)
    then have u: "unat (dq_head d - dq_tail d - 1) = dq_size d - 1" by (simp add: unat_minus_one dq_size_def)
    have h: "dq_head d - (dq_tail d + 1) = dq_head d - dq_tail d - 1" by (simp add: diff_diff_eq)
    have "dq_size ?d = dq_size d - 1" by (simp only: dq_size_def [of ?d] tail h u)
    then show ?thesis using pos by linarith
  qed
  have slot: "dq_slot ?d i = dq_slot d (Suc i)" for i
  proof -
    have "2 ^ k dvd (2 ^ 32 :: nat)" using k(1) le_imp_power_dvd [of k 32 "2 :: nat"] by simp
    then have "(unat (dq_tail d + 1) + i) mod 2 ^ k = (unat (dq_tail d) + 1 + i) mod 2 ^ k"
      using mod_mod_cancel [of "2 ^ k" "2 ^ 32" "unat (dq_tail d) + 1"] mod_add_left_eq [of _ "2 ^ k" i]
      by (simp add: unat_word_ariths) (metis add_Suc mod_add_left_eq)
    moreover have "length (dq_vals ?d) = 2 ^ k" using k by simp
    ultimately show ?thesis unfolding dq_slot_def [of ?d] tail by (simp add: dq_slot_def [of d] k)
  qed
  have other: "dq_vals ?d ! dq_slot d (Suc i) = dq_vals d ! dq_slot d (Suc i)" if "i < dq_size ?d" for i
  proof -
    have "Suc i < length (dq_vals d)" using that size' assms unfolding dq_ok_def by linarith
    then have "dq_slot d 0 \<noteq> dq_slot d (Suc i)" using slot_inj [of d 0 "Suc i"] by fastforce
    then show ?thesis by simp
  qed
  have "dq_ok ?d"
    using assms k size' slot other by (auto simp: dq_ok_def)
  moreover have "dq_contents ?d = xs"
  proof -
    have "dq_contents d = x # map (\<lambda>i. the (dq_vals d ! dq_slot d (Suc i))) [0..<dq_size ?d]"
      using val map_upt_Suc [of "\<lambda>i. the (dq_vals d ! dq_slot d i)" "dq_size ?d"]
      by (simp add: dq_contents_def flip: size' del: upt_Suc)
    then have "xs = map (\<lambda>i. the (dq_vals d ! dq_slot d (Suc i))) [0..<dq_size ?d]" using cont by simp
    also have "\<dots> = dq_contents ?d"
      unfolding dq_contents_def [of ?d] slot by (rule map_cong [OF refl]) (use other in simp)
    finally show ?thesis by simp
  qed
  ultimately show "\<exists>d'. dq_popTail d = Some (Some x, d') \<and> dq_ok d' \<and> dq_contents d' = xs" using pop by blast
qed

interpretation ring: bounded_fifo dq_pushHead dq_popTail dq_contents dq_room dq_ok
  by unfold_locales (rule dq_pushHead_contents dq_popTail_contents; assumption)+

section \<open>The chain of ring buffers\<close>

text \<open>A chain is its ring buffers from the tail to the head.\<close>

definition chain_new :: "nat \<Rightarrow> 'a deque list" where
  "chain_new initSize = [\<lparr>dq_headTail = 0, dq_vals = replicate initSize None\<rparr>]"

definition chain_pushHead :: "'a \<Rightarrow> 'a deque list \<Rightarrow> 'a deque list" where
  "chain_pushHead val c =
     (let d = last c
      in case dq_pushHead val d of
           (True, d1) \<Rightarrow> butlast c @ [d1]
         | (False, d1) \<Rightarrow>
             let newSize0 = length (dq_vals d) * 2;
                 newSize = (if newSize0 \<ge> dequeueLimit then dequeueLimit else newSize0);
                 d2 = \<lparr>dq_headTail = 0, dq_vals = replicate newSize None\<rparr>
             in c @ [snd (dq_pushHead val d2)])"

fun chain_popTail :: "'a deque list \<Rightarrow> ('a option \<times> 'a deque list) option" where
  "chain_popTail [] = Some (None, [])"
| "chain_popTail (d # ds) =
     (case dq_popTail d of
        None \<Rightarrow> None
      | Some (Some val, d1) \<Rightarrow> Some (Some val, d1 # ds)
      | Some (None, d1) \<Rightarrow> if ds = [] then Some (None, [d1]) else chain_popTail ds)"

definition chain_contents :: "'a deque list \<Rightarrow> 'a list" where
  "chain_contents c = concat (map dq_contents c)"

definition chain_ok :: "'a deque list \<Rightarrow> bool" where
  "chain_ok c \<longleftrightarrow> c \<noteq> [] \<and> list_all dq_ok c"

lemma new_deque:
  assumes "k \<le> 30"
  shows "dq_ok \<lparr>dq_headTail = 0, dq_vals = replicate (2 ^ k) None\<rparr>"
    and "dq_contents \<lparr>dq_headTail = 0, dq_vals = replicate (2 ^ k) None\<rparr> = []"
    and "dq_room \<lparr>dq_headTail = 0, dq_vals = replicate (2 ^ k) None\<rparr> = 2 ^ k"
  using assms by (auto simp: dq_ok_def dq_contents_def dq_room_def dq_size_def dq_head_def dq_tail_def dq_unpack_def)

lemma chain_pushHead_contents:
  assumes "chain_ok c"
  shows "chain_ok (chain_pushHead x c) \<and> chain_contents (chain_pushHead x c) = chain_contents c @ [x]"
proof -
  obtain ds d where c: "c = ds @ [d]" using assms by (metis append_butlast_last_id chain_ok_def)
  have ok: "dq_ok d" "list_all dq_ok ds" using assms by (auto simp: c chain_ok_def)
  show ?thesis
  proof (cases "dq_room d = 0")
    case False
    then obtain d' where d': "dq_pushHead x d = (True, d')" "dq_ok d'" "dq_contents d' = dq_contents d @ [x]"
      using ring.push_room [OF ok(1) False, of x] by blast
    have "chain_pushHead x c = ds @ [d']"
      unfolding c chain_pushHead_def Let_def last_snoc butlast_snoc d'(1) by simp
    then show ?thesis using ok d'(2,3) by (simp add: c chain_ok_def chain_contents_def)
  next
    case True
    obtain k where k: "k \<le> 30" "length (dq_vals d) = 2 ^ k" using ok(1) by (auto simp: dq_ok_def)
    let ?n = "if length (dq_vals d) * 2 \<ge> dequeueLimit then dequeueLimit else length (dq_vals d) * 2"
    have "?n = 2 ^ min 30 (Suc k)"
    proof (cases "30 \<le> Suc k")
      case True
      then have "(2 :: nat) ^ 30 \<le> 2 ^ Suc k" by (rule power_increasing) simp
      then show ?thesis using True k by (simp add: dequeueLimit_def dequeueBits_def)
    next
      case False
      then have "(2 :: nat) ^ Suc k < 2 ^ 30" by (intro power_strict_increasing) auto
      then show ?thesis using False k by (simp add: dequeueLimit_def dequeueBits_def)
    qed
    then obtain j where j: "?n = 2 ^ j" "j \<le> 30" by (metis min.cobounded1)
    let ?e = "\<lparr>dq_headTail = 0, dq_vals = replicate (2 ^ j) None\<rparr> :: 'a deque"
    obtain e' where "dq_pushHead x ?e = (True, e')" "dq_ok e'" "dq_contents e' = [x]"
    proof -
      have "dq_room ?e \<noteq> 0" "dq_contents ?e = []" by (simp_all add: new_deque(2,3) [OF j(2)])
      then show ?thesis using ring.push_room [OF new_deque(1) [OF j(2)], of x] that by auto
    qed
    moreover have "chain_pushHead x c = ds @ [d] @ [snd (dq_pushHead x ?e)]"
      unfolding c chain_pushHead_def Let_def last_snoc ring.push_full [OF ok(1) True] j(1) by simp
    ultimately show ?thesis using ok by (simp add: c chain_ok_def chain_contents_def)
  qed
qed

lemma chain_popTail_contents:
  assumes "chain_ok c"
  shows "chain_contents c = [] \<Longrightarrow> \<exists>c'. chain_popTail c = Some (None, c') \<and> chain_ok c' \<and> chain_contents c' = []"
    and "chain_contents c = x # xs \<Longrightarrow> \<exists>c'. chain_popTail c = Some (Some x, c') \<and> chain_ok c' \<and> chain_contents c' = xs"
proof -
  show "chain_contents c = [] \<Longrightarrow> \<exists>c'. chain_popTail c = Some (None, c') \<and> chain_ok c' \<and> chain_contents c' = []"
    using assms by (induction c) (auto simp: chain_ok_def chain_contents_def ring.pop_empty)
  show "chain_contents c = x # xs \<Longrightarrow> \<exists>c'. chain_popTail c = Some (Some x, c') \<and> chain_ok c' \<and> chain_contents c' = xs"
    using assms
  proof (induction c)
    case (Cons d ds)
    have ok: "dq_ok d" "list_all dq_ok ds" using Cons.prems(2) by (auto simp: chain_ok_def)
    show ?case
    proof (cases "dq_contents d")
      case Nil
      then have "ds \<noteq> []" "chain_contents ds = x # xs" using Cons.prems(1) by (auto simp: chain_contents_def)
      then show ?thesis using Cons.IH ok ring.pop_empty [OF ok(1) Nil] by (simp add: chain_ok_def)
    next
      case first: (Cons y ys)
      obtain d' where d': "dq_popTail d = Some (Some y, d')" "dq_ok d'" "dq_contents d' = ys"
        using ring.pop_first [OF ok(1) first] by blast
      have xs: "y = x" "ys @ chain_contents ds = xs" using Cons.prems(1) first by (simp_all add: chain_contents_def)
      have "chain_popTail (d # ds) = Some (Some x, d' # ds)" using d'(1) xs(1) by simp
      moreover have "chain_ok (d' # ds)" using d'(2) ok(2) by (simp add: chain_ok_def)
      moreover have "chain_contents (d' # ds) = xs" using d'(3) xs(2) by (simp add: chain_contents_def)
      ultimately show ?thesis by blast
    qed
  qed (simp add: chain_ok_def)
qed

interpretation chain: fifo chain_pushHead chain_popTail chain_contents chain_ok
  by unfold_locales (simp_all add: chain_pushHead_contents chain_popTail_contents)

section \<open>Three priorities\<close>

datatype lane = Highest | Middle | Lowest

record pqueue =
  pq_highest :: "packager deque list"
  pq_middle :: "packager deque list"
  pq_lowest :: "packager deque list"
  pq_starving :: byte

definition pq_New :: pqueue where
  "pq_New = \<lparr>pq_highest = chain_new 4, pq_middle = chain_new 32, pq_lowest = chain_new 256, pq_starving = 0\<rparr>"

definition lane_of :: "packager \<Rightarrow> lane" where
  "lane_of p =
     (if p_flag p = muxPingFlag \<or> p_flag p = muxPingReturn then Highest
      else if p_flag p = muxNewConn \<or> p_flag p = muxNewConnOk \<or> p_flag p = muxNewConnFail then Middle
      else Lowest)"

definition pq_push :: "packager \<Rightarrow> pqueue \<Rightarrow> pqueue" where
  "pq_push p q =
     (case lane_of p of
        Highest \<Rightarrow> q\<lparr>pq_highest := chain_pushHead p (pq_highest q)\<rparr>
      | Middle \<Rightarrow> q\<lparr>pq_middle := chain_pushHead p (pq_middle q)\<rparr>
      | Lowest \<Rightarrow> q\<lparr>pq_lowest := chain_pushHead p (pq_lowest q)\<rparr>)"

definition maxStarving :: byte where "maxStarving = 8"

definition pop_highest :: "pqueue \<Rightarrow> (packager option \<times> pqueue) option" where
  "pop_highest q = map_option (map_prod (\<lambda>r. r) (\<lambda>c. q\<lparr>pq_highest := c\<rparr>)) (chain_popTail (pq_highest q))"

definition pop_middle :: "pqueue \<Rightarrow> (packager option \<times> pqueue) option" where
  "pop_middle q = map_option (map_prod (\<lambda>r. r) (\<lambda>c. q\<lparr>pq_middle := c\<rparr>)) (chain_popTail (pq_middle q))"

definition pop_lowest :: "pqueue \<Rightarrow> (packager option \<times> pqueue) option" where
  "pop_lowest q = map_option (map_prod (\<lambda>r. r) (\<lambda>c. q\<lparr>pq_lowest := c\<rparr>)) (chain_popTail (pq_lowest q))"

definition starve :: "packager option \<Rightarrow> pqueue \<Rightarrow> pqueue" where
  "starve r q = (if r = None then q else q\<lparr>pq_starving := pq_starving q + 1\<rparr>)"

definition pq_TryPop :: "pqueue \<Rightarrow> (packager option \<times> pqueue) option" where
  "pq_TryPop q = do {
     (r1, q1) \<leftarrow> pop_highest q;
     if r1 \<noteq> None then Some (r1, q1)
     else do {
       (r2, q2) \<leftarrow> (if pq_starving q1 < maxStarving then map_option (\<lambda>(r, q). (r, starve r q)) (pop_middle q1)
                     else Some (None, q1));
       if r2 \<noteq> None then Some (r2, q2)
       else do {
         (r3, q3) \<leftarrow> pop_lowest q2;
         if r3 \<noteq> None then Some (r3, if pq_starving q3 > 0 then q3\<lparr>pq_starving := pq_starving q3 div 2\<rparr> else q3)
         else if pq_starving q3 > 0 then map_option (\<lambda>(r, q). (r, starve r q)) (pop_middle q3)
         else Some (None, q3)
       }
     }
   }"

text \<open>What it promises: three lists, of which the first that is not empty is served, except that the
  middle one passes when it was served too often.\<close>

record lanes =
  l_highest :: "packager list"
  l_middle :: "packager list"
  l_lowest :: "packager list"
  l_starving :: byte

definition lanes_push :: "packager \<Rightarrow> lanes \<Rightarrow> lanes" where
  "lanes_push p a =
     (case lane_of p of
        Highest \<Rightarrow> a\<lparr>l_highest := l_highest a @ [p]\<rparr>
      | Middle \<Rightarrow> a\<lparr>l_middle := l_middle a @ [p]\<rparr>
      | Lowest \<Rightarrow> a\<lparr>l_lowest := l_lowest a @ [p]\<rparr>)"

definition serve_middle :: "lanes \<Rightarrow> packager option \<times> lanes" where
  "serve_middle a = (Some (hd (l_middle a)), a\<lparr>l_middle := tl (l_middle a), l_starving := l_starving a + 1\<rparr>)"

definition lanes_pop :: "lanes \<Rightarrow> packager option \<times> lanes" where
  "lanes_pop a =
     (if l_highest a \<noteq> [] then (Some (hd (l_highest a)), a\<lparr>l_highest := tl (l_highest a)\<rparr>)
      else if l_starving a < 8 \<and> l_middle a \<noteq> [] then serve_middle a
      else if l_lowest a \<noteq> [] then (Some (hd (l_lowest a)), a\<lparr>l_lowest := tl (l_lowest a), l_starving := l_starving a div 2\<rparr>)
      else if l_middle a \<noteq> [] then serve_middle a
      else (None, a))"

definition pq_lanes :: "pqueue \<Rightarrow> lanes" where
  "pq_lanes q = \<lparr>l_highest = chain_contents (pq_highest q), l_middle = chain_contents (pq_middle q),
     l_lowest = chain_contents (pq_lowest q), l_starving = pq_starving q\<rparr>"

definition pq_ok :: "pqueue \<Rightarrow> bool" where
  "pq_ok q \<longleftrightarrow> chain_ok (pq_highest q) \<and> chain_ok (pq_middle q) \<and> chain_ok (pq_lowest q)"

lemma pq_push_refines: "pq_ok q \<Longrightarrow> pq_ok (pq_push p q) \<and> pq_lanes (pq_push p q) = lanes_push p (pq_lanes q)"
  by (auto simp: pq_ok_def pq_push_def pq_lanes_def lanes_push_def chain.push_back split: lane.split)

lemma pq_TryPop_refines:
  assumes "pq_ok q"
  shows "\<exists>q'. pq_TryPop q = Some (fst (lanes_pop (pq_lanes q)), q') \<and> pq_ok q' \<and> pq_lanes q' = snd (lanes_pop (pq_lanes q))"
proof -
  have ok: "chain_ok (pq_highest q)" "chain_ok (pq_middle q)" "chain_ok (pq_lowest q)"
    using assms by (simp_all add: pq_ok_def)
  have half: "0 < w \<or> w = (0 :: byte)" for w by (simp add: word_gt_0)
  show ?thesis
  proof (rule chain.pop_cases [OF ok(1)])
    fix x c assume h: "chain_popTail (pq_highest q) = Some (Some x, c)" "chain_ok c" "chain_contents (pq_highest q) = x # chain_contents c"
    then show ?thesis using ok by (simp add: pq_TryPop_def pop_highest_def lanes_pop_def pq_lanes_def pq_ok_def)
  next
    fix c assume h: "chain_popTail (pq_highest q) = Some (None, c)" "chain_ok c" "chain_contents (pq_highest q) = []" "chain_contents c = []"
    have TryPop: "pq_TryPop q = do {
       (r2, q2) \<leftarrow> (if pq_starving q < maxStarving then map_option (\<lambda>(r, q). (r, starve r q)) (pop_middle (q\<lparr>pq_highest := c\<rparr>))
                     else Some (None, q\<lparr>pq_highest := c\<rparr>));
       if r2 \<noteq> None then Some (r2, q2)
       else do {
         (r3, q3) \<leftarrow> pop_lowest q2;
         if r3 \<noteq> None then Some (r3, if pq_starving q3 > 0 then q3\<lparr>pq_starving := pq_starving q3 div 2\<rparr> else q3)
         else if pq_starving q3 > 0 then map_option (\<lambda>(r, q). (r, starve r q)) (pop_middle q3)
         else Some (None, q3)
       }
     }"
      using h(1) by (simp add: pq_TryPop_def pop_highest_def)
    note simps = TryPop pop_middle_def pop_lowest_def starve_def lanes_pop_def pq_lanes_def pq_ok_def serve_middle_def
      maxStarving_def h ok
    show ?thesis
    proof (rule chain.pop_cases [OF ok(2)])
      fix x m assume m: "chain_popTail (pq_middle q) = Some (Some x, m)" "chain_ok m" "chain_contents (pq_middle q) = x # chain_contents m"
      show ?thesis
      proof (cases "pq_starving q < 8")
        case True
        then show ?thesis using m by (simp add: simps)
      next
        case full: False
        then have pos: "0 < pq_starving q" by (cases "pq_starving q = 0") (auto simp: word_gt_0)
        show ?thesis
        proof (rule chain.pop_cases [OF ok(3)])
          fix y l assume "chain_popTail (pq_lowest q) = Some (Some y, l)" "chain_ok l" "chain_contents (pq_lowest q) = y # chain_contents l"
          then show ?thesis using m full pos by (simp add: simps)
        next
          fix l assume "chain_popTail (pq_lowest q) = Some (None, l)" "chain_ok l" "chain_contents (pq_lowest q) = []" "chain_contents l = []"
          then show ?thesis using m full pos by (simp add: simps)
        qed
      qed
    next
      fix m assume m: "chain_popTail (pq_middle q) = Some (None, m)" "chain_ok m" "chain_contents (pq_middle q) = []" "chain_contents m = []"
      obtain m2 where m2: "chain_popTail m = Some (None, m2)" "chain_ok m2" "chain_contents m2 = []"
        using chain.pop_none m(2,4) by blast
      show ?thesis
      proof (rule chain.pop_cases [OF ok(3)])
        fix y l assume "chain_popTail (pq_lowest q) = Some (Some y, l)" "chain_ok l" "chain_contents (pq_lowest q) = y # chain_contents l"
        then show ?thesis using m half [of "pq_starving q"] by (auto simp: simps)
      next
        fix l assume "chain_popTail (pq_lowest q) = Some (None, l)" "chain_ok l" "chain_contents (pq_lowest q) = []" "chain_contents l = []"
        then show ?thesis using m m2 by (auto simp: simps)
      qed
    qed
  qed
qed

datatype pq_op = Push packager | Pop

fun pq_run :: "pq_op list \<Rightarrow> pqueue \<Rightarrow> (packager option list \<times> pqueue) option" where
  "pq_run [] q = Some ([], q)"
| "pq_run (Push p # ops) q = pq_run ops (pq_push p q)"
| "pq_run (Pop # ops) q = do { (r, q1) \<leftarrow> pq_TryPop q; (rs, q2) \<leftarrow> pq_run ops q1; Some (r # rs, q2) }"

fun lanes_run :: "pq_op list \<Rightarrow> lanes \<Rightarrow> packager option list \<times> lanes" where
  "lanes_run [] a = ([], a)"
| "lanes_run (Push p # ops) a = lanes_run ops (lanes_push p a)"
| "lanes_run (Pop # ops) a = (let (r, a1) = lanes_pop a; (rs, a2) = lanes_run ops a1 in (r # rs, a2))"

lemma pq_run_refines:
  "pq_ok q \<Longrightarrow> \<exists>q'. pq_run ops q = Some (fst (lanes_run ops (pq_lanes q)), q') \<and> pq_ok q'
    \<and> pq_lanes q' = snd (lanes_run ops (pq_lanes q))"
proof (induction ops arbitrary: q)
  case (Cons op ops)
  show ?case
  proof (cases op)
    case (Push p)
    then show ?thesis using Cons.IH [of "pq_push p q"] pq_push_refines [OF Cons.prems, of p] by simp
  next
    case Pop
    obtain q1 where q1: "pq_TryPop q = Some (fst (lanes_pop (pq_lanes q)), q1)" "pq_ok q1" "pq_lanes q1 = snd (lanes_pop (pq_lanes q))"
      using pq_TryPop_refines [OF Cons.prems] by blast
    then show ?thesis using Cons.IH [OF q1(2)] Pop by (auto simp: case_prod_beta)
  qed
qed simp

lemma pq_New_ok: "pq_ok pq_New"
  and pq_New_lanes: "pq_lanes pq_New = \<lparr>l_highest = [], l_middle = [], l_lowest = [], l_starving = 0\<rparr>"
proof -
  have "chain_ok (chain_new (2 ^ k))" "chain_contents (chain_new (2 ^ k)) = []" if "k \<le> 30" for k
    using new_deque [OF that] by (simp_all add: chain_ok_def chain_contents_def chain_new_def)
  from this [of 2] this [of 5] this [of 8]
  show "pq_ok pq_New" "pq_lanes pq_New = \<lparr>l_highest = [], l_middle = [], l_lowest = [], l_starving = 0\<rparr>"
    by (simp_all add: pq_ok_def pq_New_def pq_lanes_def)
qed

section \<open>Order and fairness\<close>

fun lane_list :: "lane \<Rightarrow> lanes \<Rightarrow> packager list" where
  "lane_list Highest a = l_highest a"
| "lane_list Middle a = l_middle a"
| "lane_list Lowest a = l_lowest a"

definition pushed :: "pq_op list \<Rightarrow> packager list" where
  "pushed ops = List.map_filter (\<lambda>op. case op of Push p \<Rightarrow> Some p | Pop \<Rightarrow> None) ops"

definition served :: "lane \<Rightarrow> packager option list \<Rightarrow> packager list" where
  "served l rs = filter (\<lambda>p. lane_of p = l) (List.map_filter (\<lambda>r. r) rs)"

definition lanes_sorted :: "lanes \<Rightarrow> bool" where
  "lanes_sorted a \<longleftrightarrow> (\<forall>l. \<forall>p \<in> set (lane_list l a). lane_of p = l)"

lemma served_Cons [simp]:
  "served l (None # rs) = served l rs"
  "served l (Some p # rs) = (if lane_of p = l then p # served l rs else served l rs)"
  by (simp_all add: served_def map_filter_simps)

lemma served_Nil [simp]: "served l [] = []"
  by (simp add: served_def map_filter_simps)

lemma pushed_simps [simp]:
  "pushed [] = []" "pushed (Push p # ops) = p # pushed ops" "pushed (Pop # ops) = pushed ops"
  by (simp_all add: pushed_def map_filter_simps)

lemma lane_list_update:
  "l \<noteq> Highest \<Longrightarrow> lane_list l (a\<lparr>l_highest := xs\<rparr>) = lane_list l a"
  "l \<noteq> Middle \<Longrightarrow> lane_list l (a\<lparr>l_middle := xs, l_starving := s\<rparr>) = lane_list l a"
  "l \<noteq> Lowest \<Longrightarrow> lane_list l (a\<lparr>l_lowest := xs, l_starving := s\<rparr>) = lane_list l a"
  by (cases l; simp)+

lemma lane_list_push:
  "lane_list l (lanes_push p a) = lane_list l a @ (if lane_of p = l then [p] else [])"
  by (cases l; cases "lane_of p") (simp_all add: lanes_push_def)

lemma lanes_sorted_push: "lanes_sorted a \<Longrightarrow> lanes_sorted (lanes_push p a)"
  by (auto simp: lanes_sorted_def lane_list_push)

text \<open>One pop serves the first packet of one lane.\<close>

lemma lanes_pop_cases:
  obtains "lanes_pop a = (None, a)" "\<And>l. lane_list l a = []"
  | l p ps a' where "lanes_pop a = (Some p, a')" "lane_list l a = p # ps" "lane_list l a' = ps"
      "\<And>l'. l' \<noteq> l \<Longrightarrow> lane_list l' a' = lane_list l' a"
      "l = Highest \<Longrightarrow> l_starving a' = l_starving a"
      "l = Middle \<Longrightarrow> l_starving a' = l_starving a + 1 \<and> (l_lowest a = [] \<or> l_starving a < 8)"
      "l = Lowest \<Longrightarrow> l_starving a' = l_starving a div 2 \<and> (l_middle a = [] \<or> \<not> l_starving a < 8)"
proof (cases "lanes_pop a = (None, a)")
  case True
  then have "lane_list l a = []" for l
    by (cases l) (auto simp: lanes_pop_def serve_middle_def split: if_splits)
  then show ?thesis using True that(1) by blast
next
  case False
  consider "l_highest a \<noteq> []" | "l_highest a = []" "l_middle a \<noteq> []" "l_starving a < 8 \<or> l_lowest a = []"
    | "l_highest a = []" "l_lowest a \<noteq> []" "l_middle a = [] \<or> \<not> l_starving a < 8"
    using False by (fastforce simp: lanes_pop_def)
  then show ?thesis
  proof cases
    case 1
    show ?thesis
      by (rule that(2) [of "hd (l_highest a)" "a\<lparr>l_highest := tl (l_highest a)\<rparr>" Highest "tl (l_highest a)"])
        (use 1 in \<open>auto simp: lanes_pop_def lane_list_update\<close>)
  next
    case 2
    show ?thesis
      by (rule that(2) [of "hd (l_middle a)" "a\<lparr>l_middle := tl (l_middle a), l_starving := l_starving a + 1\<rparr>" Middle "tl (l_middle a)"])
        (use 2 in \<open>auto simp: lanes_pop_def serve_middle_def lane_list_update\<close>)
  next
    case 3
    show ?thesis
      by (rule that(2) [of "hd (l_lowest a)" "a\<lparr>l_lowest := tl (l_lowest a), l_starving := l_starving a div 2\<rparr>" Lowest "tl (l_lowest a)"])
        (use 3 in \<open>auto simp: lanes_pop_def lane_list_update\<close>)
  qed
qed

lemma lanes_run_order:
  "lanes_sorted a \<Longrightarrow> lanes_run ops a = (rs, a') \<Longrightarrow>
     served l rs @ lane_list l a' = lane_list l a @ filter (\<lambda>p. lane_of p = l) (pushed ops)"
proof (induction ops arbitrary: a rs)
  case (Cons op ops)
  show ?case
  proof (cases op)
    case (Push p)
    then show ?thesis
      using Cons.IH [OF lanes_sorted_push [OF Cons.prems(1)]] Cons.prems(2) by (simp add: lane_list_push)
  next
    case Pop
    then obtain r a1 rs1 where r: "lanes_pop a = (r, a1)" "lanes_run ops a1 = (rs1, a')" "rs = r # rs1"
      using Cons.prems(2) by (auto split: prod.splits)
    show ?thesis
    proof (rule lanes_pop_cases [of a])
      assume "lanes_pop a = (None, a)"
      then show ?thesis using Cons.IH [OF Cons.prems(1)] r Pop by simp
    next
      fix l' p ps a2
      assume p: "lanes_pop a = (Some p, a2)" "lane_list l' a = p # ps" "lane_list l' a2 = ps"
        "\<And>l''. l'' \<noteq> l' \<Longrightarrow> lane_list l'' a2 = lane_list l'' a"
      have lane: "lane_of p = l'" using Cons.prems(1) p(2) by (simp add: lanes_sorted_def)
      have "lanes_sorted a2"
        unfolding lanes_sorted_def
      proof (intro allI ballI)
        fix l2 q assume "q \<in> set (lane_list l2 a2)"
        then show "lane_of q = l2" using Cons.prems(1) p(2-4) by (cases "l2 = l'") (auto simp: lanes_sorted_def)
      qed
      then show ?thesis using Cons.IH [of a2] r p lane Pop by (cases "l = l'") auto
    qed
  qed
qed simp

lemma lane_stays:
  assumes "lane_list l a = x # xs" and "served l (fst (lanes_run ops a)) = []" and "lanes_sorted a"
  shows "lane_list l (snd (lanes_run ops a)) \<noteq> []"
  using lanes_run_order [OF assms(3), of ops "fst (lanes_run ops a)" "snd (lanes_run ops a)" l] assms(1,2) by simp

lemma lanes_sorted_pop: "lanes_sorted a \<Longrightarrow> lanes_sorted (snd (lanes_pop a))"
proof (rule lanes_pop_cases [of a])
  fix l p ps a'
  assume s: "lanes_sorted a" and p: "lanes_pop a = (Some p, a')" "lane_list l a = p # ps" "lane_list l a' = ps"
    "\<And>l'. l' \<noteq> l \<Longrightarrow> lane_list l' a' = lane_list l' a"
  have "lane_of q = l2" if "q \<in> set (lane_list l2 a')" for l2 q
    using s p(2-4) that by (cases "l2 = l") (auto simp: lanes_sorted_def)
  then show "lanes_sorted (snd (lanes_pop a))" using p(1) by (simp add: lanes_sorted_def)
qed simp

lemma word_incr: "w < (8 :: byte) \<Longrightarrow> unat (w + 1) = unat w + 1"
  by (simp add: word_less_nat_alt unat_word_ariths)

text \<open>While a packet waits in the lowest lane at most eight are served from the middle one, and while
  one waits in the middle lane at most five from the lowest.\<close>

lemma middle_bounded:
  assumes "lanes_sorted a" and "lane_list Lowest a \<noteq> []" and "served Lowest (fst (lanes_run ops a)) = []"
  shows "length (served Middle (fst (lanes_run ops a))) \<le> 8 - unat (l_starving a)"
  using assms
proof (induction ops arbitrary: a)
  case (Cons op ops)
  show ?case
  proof (cases op)
    case (Push p)
    have "l_starving (lanes_push p a) = l_starving a" by (simp add: lanes_push_def split: lane.split)
    then show ?thesis
      using Cons.IH [OF lanes_sorted_push [OF Cons.prems(1)], of p] Cons.prems Push by (simp add: lane_list_push)
  next
    case Pop
    show ?thesis
    proof (rule lanes_pop_cases [of a])
      assume "lanes_pop a = (None, a)"
      then show ?thesis using Cons.IH [OF Cons.prems(1,2)] Cons.prems(3) Pop by (simp add: case_prod_beta)
    next
      fix l p ps a'
      assume p: "lanes_pop a = (Some p, a')" "lane_list l a = p # ps" "lane_list l a' = ps"
        "\<And>l'. l' \<noteq> l \<Longrightarrow> lane_list l' a' = lane_list l' a"
        "l = Highest \<Longrightarrow> l_starving a' = l_starving a"
        "l = Middle \<Longrightarrow> l_starving a' = l_starving a + 1 \<and> (l_lowest a = [] \<or> l_starving a < 8)"
      have lane: "lane_of p = l" using Cons.prems(1) p(2) by (simp add: lanes_sorted_def)
      have s': "lanes_sorted a'" using lanes_sorted_pop [OF Cons.prems(1)] p(1) by simp
      have rest: "served Lowest (fst (lanes_run ops a')) = []" "l \<noteq> Lowest"
        using Cons.prems(3) p(1) lane Pop by (auto simp: case_prod_beta split: if_splits)
      have IH: "length (served Middle (fst (lanes_run ops a'))) \<le> 8 - unat (l_starving a')"
        using Cons.IH [OF s' _ rest(1)] Cons.prems(2) p(4) [of Lowest] rest(2) by simp
      show ?thesis
      proof (cases "l = Middle")
        case True
        then have "unat (l_starving a') = unat (l_starving a) + 1" "unat (l_starving a) < 8"
          using p(6) Cons.prems(2) word_incr by (auto simp: word_less_nat_alt)
        then show ?thesis using IH p(1) lane True Pop by (simp add: case_prod_beta)
      next
        case False
        then have "l = Highest" using rest(2) by (cases l) auto
        then show ?thesis using IH p(1,5) lane Pop by (simp add: case_prod_beta)
      qed
    qed
  qed
qed simp

lemma lowest_bounded:
  assumes "lanes_sorted a" and "lane_list Middle a \<noteq> []" and "served Middle (fst (lanes_run ops a)) = []"
    and "unat (l_starving a) < 8 * 2 ^ n"
  shows "length (served Lowest (fst (lanes_run ops a))) \<le> n"
  using assms
proof (induction ops arbitrary: a n)
  case (Cons op ops)
  show ?case
  proof (cases op)
    case (Push p)
    have "l_starving (lanes_push p a) = l_starving a" by (simp add: lanes_push_def split: lane.split)
    then show ?thesis
      using Cons.IH [OF lanes_sorted_push [OF Cons.prems(1)], of p] Cons.prems Push by (simp add: lane_list_push)
  next
    case Pop
    show ?thesis
    proof (rule lanes_pop_cases [of a])
      assume "lanes_pop a = (None, a)"
      then show ?thesis using Cons.IH [OF Cons.prems(1,2)] Cons.prems(3,4) Pop by (simp add: case_prod_beta)
    next
      fix l p ps a'
      assume p: "lanes_pop a = (Some p, a')" "lane_list l a = p # ps" "lane_list l a' = ps"
        "\<And>l'. l' \<noteq> l \<Longrightarrow> lane_list l' a' = lane_list l' a"
        "l = Highest \<Longrightarrow> l_starving a' = l_starving a"
        "l = Lowest \<Longrightarrow> l_starving a' = l_starving a div 2 \<and> (l_middle a = [] \<or> \<not> l_starving a < 8)"
      have lane: "lane_of p = l" using Cons.prems(1) p(2) by (simp add: lanes_sorted_def)
      have s': "lanes_sorted a'" using lanes_sorted_pop [OF Cons.prems(1)] p(1) by simp
      have rest: "served Middle (fst (lanes_run ops a')) = []" "l \<noteq> Middle"
        using Cons.prems(3) p(1) lane Pop by (auto simp: case_prod_beta split: if_splits)
      have IH: "length (served Lowest (fst (lanes_run ops a'))) \<le> m" if "unat (l_starving a') < 8 * 2 ^ m" for m
        using Cons.IH [OF s' _ rest(1) that] Cons.prems(2) p(4) [of Middle] rest(2) by simp
      show ?thesis
      proof (cases "l = Lowest")
        case True
        then have half: "unat (l_starving a') = unat (l_starving a) div 2" and big: "8 \<le> unat (l_starving a)"
          using p(6) Cons.prems(2) by (auto simp: word_less_nat_alt unat_div)
        then obtain m where m: "n = Suc m" using Cons.prems(4) by (cases n) auto
        then have "unat (l_starving a') < 8 * 2 ^ m" using half Cons.prems(4) by simp
        then show ?thesis using IH p(1) lane True Pop m by (simp add: case_prod_beta)
      next
        case False
        then have "l = Highest" using rest(2) by (cases l) auto
        then show ?thesis using IH Cons.prems(4) p(1,5) lane Pop by (simp add: case_prod_beta)
      qed
    qed
  qed
qed simp

lemma pq_ok_run:
  assumes "pq_ok q" and "pq_run ops q = Some (rs, q')"
  shows "pq_ok q'" and "lanes_run ops (pq_lanes q) = (rs, pq_lanes q')"
  using pq_run_refines [OF assms(1), of ops] assms(2) by auto

lemma lanes_sorted_run: "lanes_sorted a \<Longrightarrow> lanes_sorted (snd (lanes_run ops a))"
proof (induction ops arbitrary: a)
  case (Cons op ops)
  then show ?case
    using lanes_sorted_push lanes_sorted_pop by (cases op) (auto simp: case_prod_beta)
qed simp

text \<open>C29: The write queue is three lists. Whatever packets are pushed and however often it is popped,
  the queue of ring buffers that grow by doubling gives what three lists with the counter of passes
  give: no packet is lost, doubled or invented at any size, also when the indices wrap around, and
  popping fails only when there is no packet.\<close>

theorem write_queue_is_three_lists:
  "\<exists>q. pq_run ops pq_New = Some (fst (lanes_run ops \<lparr>l_highest = [], l_middle = [], l_lowest = [], l_starving = 0\<rparr>), q)
    \<and> pq_lanes q = snd (lanes_run ops \<lparr>l_highest = [], l_middle = [], l_lowest = [], l_starving = 0\<rparr>)
    \<and> (fst (lanes_pop (pq_lanes q)) = None \<longleftrightarrow> (\<forall>l. lane_list l (pq_lanes q) = []))"
proof -
  have "fst (lanes_pop a) = None \<longleftrightarrow> (\<forall>l. lane_list l a = [])" for a
    by (rule lanes_pop_cases [of a]) (auto, metis list.discI)
  then show ?thesis using pq_run_refines [OF pq_New_ok, of ops] pq_New_lanes by auto
qed

text \<open>Packets are written in their order, and no lane starves. Take any state of the write queue
  and any pushes and pops from there. Each lane gives its packets in the order they were pushed; while
  a packet waits in the lowest lane (data, window sizes, closing) at most eight packets of the middle
  one (new connections) pass it, and while one waits in the middle lane at most five of the lowest
  lane pass it. Only pings always come first.\<close>

theorem no_lane_starves:
  assumes "pq_run before pq_New = Some (rs0, q)" and "pq_run ops q = Some (rs, q')"
  shows "served l rs @ lane_list l (pq_lanes q') = lane_list l (pq_lanes q) @ filter (\<lambda>p. lane_of p = l) (pushed ops)
    \<and> (lane_list Lowest (pq_lanes q) \<noteq> [] \<and> served Lowest rs = [] \<longrightarrow> length (served Middle rs) \<le> 8)
    \<and> (lane_list Middle (pq_lanes q) \<noteq> [] \<and> served Middle rs = [] \<longrightarrow> length (served Lowest rs) \<le> 5)"
proof -
  have "lanes_sorted (pq_lanes pq_New)"
    unfolding lanes_sorted_def pq_New_lanes by (intro allI, case_tac l) auto
  then have s: "lanes_sorted (pq_lanes q)"
    using lanes_sorted_run [of "pq_lanes pq_New" before] pq_ok_run [OF pq_New_ok assms(1)] by simp
  have run: "lanes_run ops (pq_lanes q) = (rs, pq_lanes q')"
    using pq_ok_run(2) [OF pq_ok_run(1) [OF pq_New_ok assms(1)] assms(2)] .
  have "unat (l_starving (pq_lanes q)) < 8 * 2 ^ 5" using unsigned_less [of "l_starving (pq_lanes q)"] by simp
  then show ?thesis
    using lanes_run_order [OF s run] middle_bounded [OF s, of ops] lowest_bounded [OF s, of ops 5] run by auto
qed

definition flagged :: "byte \<Rightarrow> packager" where "flagged f = zero_packager\<lparr>p_flag := f\<rparr>"

theorem no_lane_starves_witness:
  "\<exists>q rs q'. pq_run [Push (flagged muxConnClose), Push (flagged muxNewConn)] pq_New = Some ([], q)
    \<and> pq_run [Pop, Pop] q = Some (rs, q')
    \<and> served Lowest rs @ lane_list Lowest (pq_lanes q') = [flagged muxConnClose]"
proof -
  let ?pre = "[Push (flagged muxConnClose), Push (flagged muxNewConn)]"
  obtain q where q: "pq_run ?pre pq_New = Some ([], q)" "pq_lanes q = snd (lanes_run ?pre (pq_lanes pq_New))" "pq_ok q"
    using pq_run_refines [OF pq_New_ok, of ?pre] by auto
  obtain rs q' where q': "pq_run [Pop, Pop] q = Some (rs, q')"
    using pq_run_refines [OF q(3), of "[Pop, Pop]"] by auto
  have "lane_list Lowest (pq_lanes q) = [flagged muxConnClose]"
    by (simp add: q(2) pq_New_lanes lanes_push_def lane_of_def flagged_def mux_flags)
  then show ?thesis using q(1) q' no_lane_starves [OF q(1) q', of Lowest] by auto
qed

end
