(* ===== verification/Mux_Window.thy ===== *)
theory Mux_Window
  imports Mux_Queue
begin

text \<open>
  The flow control of a multiplexed connection, \<^verbatim>\<open>nps-master/lib/nps_mux/conn.go\<close>: the sender
  counts what it has sent and not yet heard of again, the receiver counts what was read and reports
  it together with the size of its window; a sender that has used up the window waits. Each window
  keeps its size, its count and a waiting bit in one 64-bit word, which the goroutines change by
  compare-and-swap; a loop around a compare-and-swap is one step here, its last round. The bandwidth
  and latency from which the receiver computes the next size are measured in floating point and are
  arguments.
\<close>

section \<open>The word of a window\<close>

definition windowBits :: nat where "windowBits = 31"
definition waitBits :: nat where "waitBits = dequeueBits + windowBits"
definition mask31 :: "'a :: len word" where "mask31 = mask windowBits"

definition win_unpack :: "u64 \<Rightarrow> u32 \<times> u32 \<times> bool" where
  "win_unpack ptrs =
     (ucast (drop_bit dequeueBits ptrs AND mask31), ucast (ptrs AND mask31), drop_bit waitBits ptrs AND 1 = 1)"

definition win_pack :: "u32 \<Rightarrow> u32 \<Rightarrow> bool \<Rightarrow> u64" where
  "win_pack maxSize don wait =
     (if wait then (push_bit waitBits 1 OR push_bit dequeueBits (ucast (maxSize AND mask31))) OR ucast (don AND mask31)
      else (push_bit waitBits 0 OR push_bit dequeueBits (ucast (maxSize AND mask31))) OR ucast (don AND mask31))"

lemma win_unpack_pack_masked: "win_unpack (win_pack m d w) = (m AND mask31, d AND mask31, w)"
proof -
  define t :: u64 where "t = push_bit 63 (of_bool w)"
  have t: "bit t n \<longleftrightarrow> w \<and> n = 63" for n
    by (auto simp: t_def bit_simps dest: bit_imp_le_length)
  let ?b = "(t OR push_bit 32 (ucast (m AND mask 31))) OR ucast (d AND mask 31)"
  have "ucast (drop_bit 32 ?b AND mask 31) = m AND mask 31"
    by (rule bit_word_eqI) (auto simp: bit_simps t dest: bit_imp_le_length)
  moreover have "ucast (?b AND mask 31) = d AND mask 31"
    by (rule bit_word_eqI) (auto simp: bit_simps t dest: bit_imp_le_length)
  moreover have "drop_bit 63 ?b AND 1 = 1 \<longleftrightarrow> w"
  proof -
    have "drop_bit 63 ?b AND 1 = of_bool w"
      by (rule bit_word_eqI) (auto simp: bit_simps t dest: bit_imp_le_length)
    then show ?thesis by simp
  qed
  moreover have "win_pack m d w = ?b"
    by (simp add: win_pack_def t_def mask31_def windowBits_def waitBits_def dequeueBits_def)
  ultimately show ?thesis
    by (simp add: win_unpack_def mask31_def windowBits_def waitBits_def dequeueBits_def)
qed

lemma mask31_small [simp]: "(w :: u32) < 2 ^ 31 \<Longrightarrow> w AND mask31 = w"
  by (simp add: mask31_def windowBits_def flip: take_bit_eq_mask) (simp add: take_bit_eq_mod word_less_nat_alt unat_mod word_unat_eq_iff)

lemma win_unpack_pack [simp]: "m < 2 ^ 31 \<Longrightarrow> d < 2 ^ 31 \<Longrightarrow> win_unpack (win_pack m d w) = (m, d, w)"
  by (simp add: win_unpack_pack_masked)

definition win_max :: "u64 \<Rightarrow> nat" where "win_max p = unat (fst (win_unpack p))"
definition win_done :: "u64 \<Rightarrow> nat" where "win_done p = unat (fst (snd (win_unpack p)))"
definition win_wait :: "u64 \<Rightarrow> bool" where "win_wait p = snd (snd (win_unpack p))"

lemma win_parts: "win_unpack p = (of_nat (win_max p), of_nat (win_done p), win_wait p)"
  by (simp add: win_max_def win_done_def win_wait_def)

lemma win_pack_parts [simp]:
  assumes "m < 2 ^ 31" and "d < 2 ^ 31"
  shows "win_max (win_pack m d w) = unat m" "win_done (win_pack m d w) = unat d" "win_wait (win_pack m d w) = w"
  using assms by (simp_all add: win_max_def win_done_def win_wait_def)

section \<open>The queue of the receiver\<close>

record elt =
  e_Buf :: "byte list"
  e_L :: u16
  e_Part :: bool

definition newListElement :: "byte list \<Rightarrow> u16 \<Rightarrow> bool \<Rightarrow> elt option" where
  "newListElement buf l part = (if of_nat (length buf) \<noteq> l then None else Some \<lparr>e_Buf = buf, e_L = l, e_Part = part\<rparr>)"

text \<open>The length of what is queued and a bit for a waiting reader share a word, packed like the
  indices of a ring buffer.\<close>

record rqueue =
  q_lengthWait :: u64
  q_chain :: "elt deque list"

definition newReceiveWindowQueue :: rqueue where
  "newReceiveWindowQueue = \<lparr>q_lengthWait = 0, q_chain = chain_new 64\<rparr>"

definition rq_Len :: "rqueue \<Rightarrow> u32" where "rq_Len q = fst (dq_unpack (q_lengthWait q))"

definition rq_Push :: "elt \<Rightarrow> rqueue \<Rightarrow> rqueue" where
  "rq_Push e q =
     (let (len, wait) = dq_unpack (q_lengthWait q); len1 = len + ucast (e_L e)
      in q\<lparr>q_lengthWait := dq_pack len1 0, q_chain := chain_pushHead e (q_chain q)\<rparr>)"

definition rq_TryPop :: "rqueue \<Rightarrow> (elt option \<times> rqueue) option" where
  "rq_TryPop q = do {
     (r, c) \<leftarrow> chain_popTail (q_chain q);
     Some (r, case r of
         None \<Rightarrow> q\<lparr>q_chain := c\<rparr>
       | Some e \<Rightarrow> q\<lparr>q_chain := c, q_lengthWait := q_lengthWait q + NOT (push_bit dequeueBits (ucast (e_L e)) - 1)\<rparr>)
   }"

text \<open>\<^verbatim>\<open>Pop\<close> up to the point where it has an element, or waits for one with the bit set
  (no element); while an element is being pushed it tries again.\<close>

definition rq_Pop :: "rqueue \<Rightarrow> (elt option \<times> rqueue) option" where
  "rq_Pop q =
     (if rq_Len q = 0 then Some (None, q\<lparr>q_lengthWait := dq_pack 0 1\<rparr>)
      else case rq_TryPop q of
             Some (Some e, q1) \<Rightarrow> Some (Some e, q1)
           | _ \<Rightarrow> None)"

definition elt_ok :: "elt \<Rightarrow> bool" where
  "elt_ok e \<longleftrightarrow> length (e_Buf e) = unat (e_L e) \<and> 0 < unat (e_L e)"

abbreviation queued :: "rqueue \<Rightarrow> elt list" where "queued q \<equiv> chain_contents (q_chain q)"

definition bytes_in :: "elt list \<Rightarrow> nat" where "bytes_in es = sum_list (map (\<lambda>e. unat (e_L e)) es)"

lemma bytes_in_simps [simp]:
  "bytes_in [] = 0" "bytes_in (e # es) = unat (e_L e) + bytes_in es" "bytes_in (es @ es') = bytes_in es + bytes_in es'"
  by (simp_all add: bytes_in_def)

definition rq_ok :: "rqueue \<Rightarrow> bool" where
  "rq_ok q \<longleftrightarrow> chain_ok (q_chain q) \<and> list_all elt_ok (queued q) \<and> unat (rq_Len q) = bytes_in (queued q)"

lemma pack_of_parts: "dq_pack (fst (dq_unpack p)) (snd (dq_unpack p)) = p"
  using dq_pack_unpack [of "\<lparr>dq_headTail = p, dq_vals = []\<rparr>"] by (simp add: dq_head_def dq_tail_def)

lemma unat_wider [simp]:
  "unat (ucast (w :: u16) :: u32) = unat w" "unat (ucast (v :: u32) :: u64) = unat v" "unat (ucast (w :: u16) :: u64) = unat w"
  using unsigned_less [of w, where ?'a = nat] unsigned_less [of v, where ?'a = nat]
  by (simp_all add: unsigned_ucast_eq take_bit_nat_eq_self)

lemma rq_Push_contents:
  assumes "rq_ok q" and "elt_ok e" and "bytes_in (queued q) + unat (e_L e) < 2 ^ 32"
  shows "rq_ok (rq_Push e q)" and "queued (rq_Push e q) = queued q @ [e]"
proof -
  have "rq_Len (rq_Push e q) = rq_Len q + ucast (e_L e)"
    by (simp add: rq_Len_def rq_Push_def case_prod_beta)
  moreover have "unat (rq_Len q + ucast (e_L e)) = unat (rq_Len q) + unat (e_L e)"
    using assms by (simp add: rq_ok_def unat_word_ariths)
  moreover have c: "chain_ok (chain_pushHead e (q_chain q))" "chain_contents (chain_pushHead e (q_chain q)) = queued q @ [e]"
    using chain.push_back [of "q_chain q" e] assms(1) by (simp_all add: rq_ok_def)
  moreover have ch: "q_chain (rq_Push e q) = chain_pushHead e (q_chain q)" by (simp add: rq_Push_def case_prod_beta)
  ultimately show "rq_ok (rq_Push e q)" "queued (rq_Push e q) = queued q @ [e]"
    using assms(1,2) by (simp_all add: rq_ok_def)
qed

lemma rq_Pop_empty:
  assumes "rq_ok q" and "queued q = []"
  shows "rq_Pop q = Some (None, q\<lparr>q_lengthWait := dq_pack 0 1\<rparr>)" and "rq_ok (q\<lparr>q_lengthWait := dq_pack 0 1\<rparr>)"
proof -
  have "rq_Len q = 0" using assms by (simp add: rq_ok_def unat_eq_0)
  then show "rq_Pop q = Some (None, q\<lparr>q_lengthWait := dq_pack 0 1\<rparr>)" by (simp add: rq_Pop_def)
  show "rq_ok (q\<lparr>q_lengthWait := dq_pack 0 1\<rparr>)" using assms by (simp add: rq_ok_def rq_Len_def)
qed

lemma rq_Pop_first:
  assumes "rq_ok q" and "queued q = e # es"
  shows "\<exists>q'. rq_Pop q = Some (Some e, q') \<and> rq_ok q' \<and> queued q' = es"
proof -
  obtain c where c: "chain_popTail (q_chain q) = Some (Some e, c)" "chain_ok c" "chain_contents c = es"
    using chain.pop_front [OF _ assms(2)] assms(1) unfolding rq_ok_def by blast
  let ?h = "fst (dq_unpack (q_lengthWait q))" and ?t = "snd (dq_unpack (q_lengthWait q))" and ?l = "ucast (e_L e) :: u32"
  let ?q = "q\<lparr>q_chain := c, q_lengthWait := q_lengthWait q + NOT (push_bit dequeueBits (ucast (e_L e)) - 1)\<rparr>"
  have total: "unat ?h = unat (e_L e) + bytes_in es" "elt_ok e" "list_all elt_ok es"
    using assms by (simp_all add: rq_ok_def rq_Len_def)
  have le: "?l \<le> ?h" using total(1) by (simp add: word_le_nat_alt)
  have diff: "ucast (?h - ?l) = (ucast ?h - ucast ?l :: u64)"
    using le by (simp add: word_unat_eq_iff unat_sub word_le_nat_alt)
  have wide: "ucast (e_L e) = (ucast ?l :: u64)" by (simp only: word_unat_eq_iff unat_wider)
  have minus: "a + NOT (b - 1) = a - b" for a b :: u64 by (simp add: not_eq_complement)
  have lw: "q_lengthWait q = push_bit 32 (ucast ?h) + ucast ?t"
    using pack_of_parts [of "q_lengthWait q"] by (simp only: dq_pack_add)
  have "q_lengthWait ?q = q_lengthWait q + NOT (push_bit dequeueBits (ucast (e_L e)) - 1)" by simp
  also have "\<dots> = q_lengthWait q - push_bit 32 (ucast ?l)" unfolding minus wide dequeueBits_def ..
  also have "\<dots> = push_bit 32 (ucast ?h) + ucast ?t - push_bit 32 (ucast ?l)" using lw by (rule arg_cong)
  also have "\<dots> = dq_pack (?h - ?l) ?t"
    unfolding dq_pack_add diff
    by (simp add: push_bit_eq_mult algebra_simps)
  finally have "q_lengthWait ?q = dq_pack (?h - ?l) ?t" .
  then have "unat (rq_Len ?q) = bytes_in es" using total(1) le by (simp add: rq_Len_def unat_sub)
  then have "rq_ok ?q" using c total by (simp add: rq_ok_def)
  moreover have "rq_Len q \<noteq> 0" using total by (auto simp: rq_Len_def elt_ok_def)
  ultimately show ?thesis using c by (auto simp: rq_Pop_def rq_TryPop_def)
qed

section \<open>The receiver's window\<close>

record recv_window =
  rw_maxSizeDone :: u64
  rw_off :: u32
  rw_closeOp :: bool
  rw_bufQueue :: rqueue
  rw_element :: elt
  rw_count :: "8 word"

definition recv_New :: recv_window where
  "recv_New = \<lparr>rw_maxSizeDone = win_pack (of_nat (maximumSegmentSize * 30)) 0 False, rw_off = 0, rw_closeOp = False,
     rw_bufQueue = newReceiveWindowQueue, rw_element = \<lparr>e_Buf = [], e_L = 0, e_Part = False\<rparr>, rw_count = 0\<rparr>"

definition recv_remainingSize :: "u32 \<Rightarrow> u16 \<Rightarrow> recv_window \<Rightarrow> u32" where
  "recv_remainingSize maxSize delta r =
     (let l = uint maxSize - uint (rq_Len (rw_bufQueue r)) - uint delta in if l > 0 then word_of_int l else 0)"

text \<open>What is measured: the size from bandwidth and latency, the gain for a window that stays nearly
  empty (of the size so far, the free part and the window), and the limit from the connection's share
  of the bandwidth, if it is known. \<open>ra > 0.8\<close> is the comparison of integers it amounts to.\<close>

record measured =
  ms_base :: u32
  ms_gain :: "u32 \<Rightarrow> u32 \<Rightarrow> u32 \<Rightarrow> u32"
  ms_limit :: "u32 option"

definition new_size :: "measured \<Rightarrow> u32 \<Rightarrow> u32 \<Rightarrow> u32" where
  "new_size ms sz rem =
     (let n1 = (if 5 * uint rem > 4 * uint sz then ms_gain ms (ms_base ms) rem sz else ms_base ms);
          n2 = (if n1 < sz div 2 then sz div 2 else n1);
          n3 = (if n2 > 2 * sz then
                  (if sz = of_nat (maximumSegmentSize * 30) then (if n2 > sz * 6 then sz * 6 else n2)
                   else 2 * sz)
                else n2)
      in case ms_limit ms of None \<Rightarrow> n3 | Some limit \<Rightarrow> if n3 > limit then limit else n3)"

definition calcSize :: "measured \<Rightarrow> recv_window \<Rightarrow> recv_window" where
  "calcSize ms r =
     (let r1 = (if rw_count r = 0 then
                  (let (sz, read, wait) = win_unpack (rw_maxSizeDone r);
                       n = new_size ms sz (recv_remainingSize sz 0 r)
                   in r\<lparr>rw_maxSizeDone := win_pack n read wait, rw_count := -10\<rparr>)
                else r)
      in r1\<lparr>rw_count := rw_count r1 + 1\<rparr>)"

text \<open>\<^verbatim>\<open>Write\<close> from the label \<^verbatim>\<open>start\<close>: the new state of the window, and the report
  that is sent once the segment is queued, if one is.\<close>

definition recv_check :: "u16 \<Rightarrow> recv_window \<Rightarrow> recv_window \<times> u64 option" where
  "recv_check l r =
     (let (maxSize, read, wait) = win_unpack (rw_maxSizeDone r); remain = recv_remainingSize maxSize l r
      in if remain = 0 \<and> \<not> wait then (r\<lparr>rw_maxSizeDone := win_pack maxSize read True\<rparr>, None)
         else if \<not> wait then (r\<lparr>rw_maxSizeDone := win_pack maxSize 0 wait\<rparr>, Some (win_pack maxSize read False))
         else (r, None))"

definition recv_push :: "elt \<Rightarrow> recv_window \<Rightarrow> recv_window" where
  "recv_push e r = r\<lparr>rw_bufQueue := rq_Push e (rw_bufQueue r)\<rparr>"

definition recv_Write :: "measured \<Rightarrow> byte list \<Rightarrow> u16 \<Rightarrow> bool \<Rightarrow> recv_window \<Rightarrow> (recv_window \<times> u64 option) option" where
  "recv_Write ms buf l part r =
     (if rw_closeOp r then None
      else map_option (\<lambda>e. let (r1, report) = recv_check l (calcSize ms r) in (recv_push e r1, report))
             (newListElement buf l part))"

definition sendStatus :: "u16 \<Rightarrow> recv_window \<Rightarrow> recv_window \<times> u64 option" where
  "sendStatus l r =
     (let (maxSize, read, wait) = win_unpack (rw_maxSizeDone r)
      in if read \<le> (read + ucast l) AND mask31 then
           (let read1 = read + ucast l; remain = recv_remainingSize maxSize 0 r
            in if wait \<and> remain > 0 \<or> read1 \<ge> maxSize div 2 \<or> remain = maxSize
               then (r\<lparr>rw_maxSizeDone := win_pack maxSize 0 False\<rparr>, Some (win_pack maxSize read1 False))
               else (r\<lparr>rw_maxSizeDone := win_pack maxSize read1 wait\<rparr>, None))
         else (r\<lparr>rw_maxSizeDone := win_pack maxSize (ucast l) wait\<rparr>, Some (win_pack maxSize read False)))"

text \<open>\<^verbatim>\<open>readFromQueue\<close>: the segment in hand is used up, so another one is popped (or waited
  for); then as much as fits is copied, and a segment that is finished is reported.\<close>

definition recv_drained :: "recv_window \<Rightarrow> bool" where
  "recv_drained r \<longleftrightarrow> rw_off r = ucast (e_L (rw_element r))"

definition recv_pop :: "recv_window \<Rightarrow> (bool \<times> recv_window) option" where
  "recv_pop r =
     (case rq_Pop (rw_bufQueue r) of
        None \<Rightarrow> None
      | Some (None, q) \<Rightarrow> Some (False, r\<lparr>rw_bufQueue := q\<rparr>)
      | Some (Some e, q) \<Rightarrow> Some (True, r\<lparr>rw_bufQueue := q, rw_element := e, rw_off := 0\<rparr>))"

definition recv_copy :: "nat \<Rightarrow> recv_window \<Rightarrow> byte list \<times> recv_window \<times> u64 option" where
  "recv_copy space r =
     (let e = rw_element r;
          data = take space (drop (unat (rw_off r)) (take (unat (e_L e)) (e_Buf e)));
          r1 = r\<lparr>rw_off := rw_off r + of_nat (length data)\<rparr>
      in if rw_off r1 = ucast (e_L e) then (let (r2, report) = sendStatus (e_L e) r1 in (data, r2, report))
         else (data, r1, None))"

definition reads_on :: "nat \<Rightarrow> nat \<Rightarrow> recv_window \<Rightarrow> nat" where
  "reads_on space copied r = (if copied < space \<and> e_Part (rw_element r) then space - copied else 0)"

section \<open>The sender's window\<close>

record send_window =
  sw_maxSizeDone :: u64
  sw_off :: u32
  sw_closeOp :: bool
  sw_buf :: "byte list"

definition send_New :: send_window where
  "send_New = \<lparr>sw_maxSizeDone = win_pack (of_nat (maximumSegmentSize * 30)) 0 False, sw_off = 0, sw_closeOp = False, sw_buf = []\<rparr>"

definition SetSendBuf :: "byte list \<Rightarrow> send_window \<Rightarrow> send_window" where
  "SetSendBuf buf s = s\<lparr>sw_buf := buf, sw_off := 0\<rparr>"

definition send_remainingSize :: "u32 \<Rightarrow> u32 \<Rightarrow> u32" where
  "send_remainingSize maxSize send =
     (let l = uint (maxSize AND mask31) - uint (send AND mask31) in if l > 0 then word_of_int l else 0)"

text \<open>The result says whether a waiting sender is let go.\<close>

definition SetSize :: "u64 \<Rightarrow> send_window \<Rightarrow> send_window \<times> bool" where
  "SetSize currentMaxSizeDone s =
     (if sw_closeOp s then (s, False)
      else let (currentMaxSize, read, _) = win_unpack currentMaxSizeDone;
               (maxsize, send, wait) = win_unpack (sw_maxSizeDone s)
           in if read > send then (s, False)
              else if read = 0 \<and> currentMaxSize = maxsize then (s, False)
              else let send1 = send - read;
                       remain = send_remainingSize currentMaxSize send1;
                       newWait = (remain = 0 \<and> wait)
                   in (s\<lparr>sw_maxSizeDone := win_pack currentMaxSize send1 newWait\<rparr>, wait \<and> \<not> newWait))"

text \<open>\<open>None\<close>: it goes round until another goroutine has changed the count.\<close>

definition sent :: "u32 \<Rightarrow> send_window \<Rightarrow> send_window option" where
  "sent sentSize s =
     (let (maxSize, send, wait) = win_unpack (sw_maxSizeDone s)
      in if (send + sentSize) AND mask31 < send then None
         else Some (s\<lparr>sw_maxSizeDone := win_pack maxSize (send + sentSize) wait\<rparr>))"

datatype write_result = Closed | Drained | Must_wait send_window | Segment "byte list" bool send_window

definition WriteTo :: "send_window \<Rightarrow> write_result option" where
  "WriteTo s =
     (let n = of_nat (length (sw_buf s)) :: u32
      in if sw_closeOp s then Some Closed
         else if sw_off s \<ge> n then Some Drained
         else let (maxSize, send, wait) = win_unpack (sw_maxSizeDone s);
                  remain = send_remainingSize maxSize send
              in if remain = 0 then Some (Must_wait (s\<lparr>sw_maxSizeDone := win_pack maxSize send True\<rparr>))
                 else let left = length (sw_buf s) - unat (sw_off s);
                          size0 = (if left > maximumSegmentSize then of_nat maximumSegmentSize else of_nat left);
                          sz = (if remain < size0 then remain else size0);
                          part = (sz < of_nat left);
                          p = take (unat sz) (drop (unat (sw_off s)) (sw_buf s))
                      in map_option (Segment p part) (sent sz (s\<lparr>sw_off := sw_off s + sz\<rparr>)))"

section \<open>A connection\<close>

text \<open>One direction of a connection: the sender, the segments on their way, what the goroutine that
  reads the stream is doing with one, the receiver, the space left in the buffer of a
  \<^verbatim>\<open>Read\<close> (none when nobody reads), the reports on their way back, and all bytes sent and read.
  The stream keeps the order of each direction (the packets are of the lowest lane).\<close>

datatype incoming = Idle | Sized elt | Checked elt "u64 option"

record link =
  lk_send :: send_window
  lk_blocked :: bool
  lk_wire :: "(byte list \<times> bool) list"
  lk_incoming :: incoming
  lk_recv :: recv_window
  lk_space :: nat
  lk_reports :: "u64 list"
  lk_sent :: "byte list"
  lk_read :: "byte list"

definition link_New :: link where
  "link_New = \<lparr>lk_send = send_New, lk_blocked = False, lk_wire = [], lk_incoming = Idle, lk_recv = recv_New,
     lk_space = 0, lk_reports = [], lk_sent = [], lk_read = []\<rparr>"

abbreviation opt_list :: "'a option \<Rightarrow> 'a list" where
  "opt_list x \<equiv> (case x of None \<Rightarrow> [] | Some y \<Rightarrow> [y])"

text \<open>The sizes the receiver chooses lie between 1 and a bound \<open>M\<close>.\<close>

definition size_in_range :: "nat \<Rightarrow> measured \<Rightarrow> recv_window \<Rightarrow> bool" where
  "size_in_range M ms r \<longleftrightarrow> rw_count r = 0 \<longrightarrow>
     (let sz = fst (win_unpack (rw_maxSizeDone r)); n = unat (new_size ms sz (recv_remainingSize sz 0 r))
      in 0 < n \<and> n \<le> M)"

inductive receiver_step :: "nat \<Rightarrow> link \<Rightarrow> link \<Rightarrow> bool" for M where
  arrive: "lk_incoming k = Idle \<Longrightarrow> lk_wire k = (p, part) # ws \<Longrightarrow> newListElement p (of_nat (length p)) part = Some e \<Longrightarrow>
    size_in_range M ms (lk_recv k) \<Longrightarrow>
    receiver_step M k (k\<lparr>lk_wire := ws, lk_incoming := Sized e, lk_recv := calcSize ms (lk_recv k)\<rparr>)"
| check: "lk_incoming k = Sized e \<Longrightarrow> recv_check (e_L e) (lk_recv k) = (r, report) \<Longrightarrow>
    receiver_step M k (k\<lparr>lk_incoming := Checked e report, lk_recv := r\<rparr>)"
| push: "lk_incoming k = Checked e report \<Longrightarrow>
    receiver_step M k (k\<lparr>lk_incoming := Idle, lk_recv := recv_push e (lk_recv k), lk_reports := lk_reports k @ opt_list report\<rparr>)"
| read_starts: "lk_space k = 0 \<Longrightarrow> 0 < n \<Longrightarrow> receiver_step M k (k\<lparr>lk_space := n\<rparr>)"
| read_pops: "0 < lk_space k \<Longrightarrow> recv_drained (lk_recv k) \<Longrightarrow> recv_pop (lk_recv k) = Some (True, r) \<Longrightarrow>
    receiver_step M k (k\<lparr>lk_recv := r\<rparr>)"
| read_copies: "0 < lk_space k \<Longrightarrow> \<not> recv_drained (lk_recv k) \<Longrightarrow> recv_copy (lk_space k) (lk_recv k) = (data, r, report) \<Longrightarrow>
    receiver_step M k (k\<lparr>lk_recv := r, lk_space := reads_on (lk_space k) (length data) r, lk_read := lk_read k @ data,
      lk_reports := lk_reports k @ opt_list report\<rparr>)"
| report_arrives: "lk_reports k = w # ws \<Longrightarrow> SetSize w (lk_send k) = (s, allowed) \<Longrightarrow>
    receiver_step M k (k\<lparr>lk_send := s, lk_reports := ws, lk_blocked := lk_blocked k \<and> \<not> allowed\<rparr>)"

inductive link_step :: "nat \<Rightarrow> link \<Rightarrow> link \<Rightarrow> bool" for M where
  write_starts: "\<not> lk_blocked k \<Longrightarrow> WriteTo (lk_send k) = Some Drained \<Longrightarrow> buf \<noteq> [] \<Longrightarrow> length buf < 2 ^ 32 \<Longrightarrow>
    link_step M k (k\<lparr>lk_send := SetSendBuf buf (lk_send k)\<rparr>)"
| segment: "\<not> lk_blocked k \<Longrightarrow> WriteTo (lk_send k) = Some (Segment p part s) \<Longrightarrow>
    link_step M k (k\<lparr>lk_send := s, lk_wire := lk_wire k @ [(p, part)], lk_sent := lk_sent k @ p\<rparr>)"
| waits: "\<not> lk_blocked k \<Longrightarrow> WriteTo (lk_send k) = Some (Must_wait s) \<Longrightarrow>
    link_step M k (k\<lparr>lk_send := s, lk_blocked := True\<rparr>)"
| read_waits: "0 < lk_space k \<Longrightarrow> recv_drained (lk_recv k) \<Longrightarrow> recv_pop (lk_recv k) = Some (False, r) \<Longrightarrow>
    link_step M k (k\<lparr>lk_recv := r\<rparr>)"
| receives: "receiver_step M k k' \<Longrightarrow> link_step M k k'"

end
