(* ===== verification/Mux_Window_Properties.thy ===== *)
theory Mux_Window_Properties
  imports Mux_Window
begin

text \<open>
  What the flow control of a connection guarantees: the bytes read are those sent, in their order;
  what is under way never exceeds the greatest window; and a sender that waits is let go once the
  receiver has read what is under way.
\<close>

section \<open>The operations in natural numbers\<close>

lemma mask31_less: "unat ((w :: u32) AND mask31) < 2 ^ 31"
  by (simp add: mask31_def windowBits_def flip: take_bit_eq_mask) (simp add: take_bit_eq_mod unat_mod)

lemma win_less: "win_max p < 2 ^ 31" "win_done p < 2 ^ 31"
proof -
  have u: "ucast (v AND mask31) = (ucast (v AND mask31) :: u32) AND mask31" for v :: u64
    unfolding mask31_def windowBits_def by (rule bit_word_eqI) (auto simp: bit_simps)
  show "win_max p < 2 ^ 31" "win_done p < 2 ^ 31"
    using mask31_less u by (metis fst_conv snd_conv win_done_def win_max_def win_unpack_def)+
qed

lemma win_cases:
  obtains m d w where "win_unpack p = (m, d, w)" "m < 2 ^ 31" "d < 2 ^ 31" "win_max p = unat m" "win_done p = unat d" "win_wait p = w"
proof -
  obtain m d w where u: "win_unpack p = (m, d, w)" by (cases "win_unpack p") auto
  then have "win_max p = unat m" "win_done p = unat d" "win_wait p = w" by (simp_all add: win_max_def win_done_def win_wait_def)
  moreover from this have "m < 2 ^ 31" "d < 2 ^ 31" using win_less [of p] by (simp_all add: word_less_nat_alt)
  ultimately show ?thesis using u that by blast
qed

lemma unat_of_int_small: "0 \<le> l \<Longrightarrow> l < 2 ^ 32 \<Longrightarrow> unat (word_of_int l :: u32) = nat l"
  by (simp add: unat_eq_nat_uint uint_word_of_int)

lemma uint_of_unat: "uint w = int (unat w)" by simp

lemma difference_value:
  assumes "l = int (unat (m :: u32)) - int n"
  shows "unat (if l > 0 then word_of_int l else (0 :: u32)) = unat m - n"
proof (cases "l > 0")
  case True
  have "l < 2 ^ 32" using assms unsigned_less [of m, where ?'a = int] by simp
  then have "unat (word_of_int l :: u32) = nat l" using True by (intro unat_of_int_small) auto
  moreover have "nat l = unat m - n" using assms by (simp only: nat_minus_as_int)
  ultimately show ?thesis using True by simp
next
  case False
  then have "unat m - n = 0" using assms by linarith
  then show ?thesis using False by simp
qed

lemma recv_remaining: "unat (recv_remainingSize m l r) = unat m - unat (rq_Len (rw_bufQueue r)) - unat l"
proof -
  have "uint m - uint (rq_Len (rw_bufQueue r)) - uint l = int (unat m) - int (unat (rq_Len (rw_bufQueue r)) + unat l)"
    by (simp add: uint_of_unat del: of_nat_unat)
  from difference_value [OF this] show ?thesis unfolding recv_remainingSize_def Let_def by (simp only: diff_diff_eq)
qed

lemma send_remaining: "m < 2 ^ 31 \<Longrightarrow> d < 2 ^ 31 \<Longrightarrow> unat (send_remainingSize m d) = unat m - unat d"
  using difference_value [of "uint m - uint d" m "unat d"] by (simp only: send_remainingSize_def Let_def mask31_small uint_of_unat)

lemma unat_add_small: "unat a + unat b < 2 ^ 32 \<Longrightarrow> unat ((a :: u32) + b) = unat a + unat b"
  by (simp add: unat_word_ariths)

definition reported :: "u64 option \<Rightarrow> nat" where
  "reported x = (case x of None \<Rightarrow> 0 | Some w \<Rightarrow> win_done w)"

text \<open>A report carries the size of the window, and what it reports is no longer counted.\<close>

lemma recv_check_credit:
  assumes "recv_check l r = (r1, report)"
  shows "win_max (rw_maxSizeDone r1) = win_max (rw_maxSizeDone r)"
    and "win_done (rw_maxSizeDone r1) + reported report = win_done (rw_maxSizeDone r)"
    and "\<And>w. report = Some w \<Longrightarrow> win_max w = win_max (rw_maxSizeDone r)"
    and "r1 = r\<lparr>rw_maxSizeDone := rw_maxSizeDone r1\<rparr>"
proof -
  obtain m d w where p: "win_unpack (rw_maxSizeDone r) = (m, d, w)" "m < 2 ^ 31" "d < 2 ^ 31"
      "win_max (rw_maxSizeDone r) = unat m" "win_done (rw_maxSizeDone r) = unat d" by (rule win_cases)
  show "win_max (rw_maxSizeDone r1) = win_max (rw_maxSizeDone r)"
    "win_done (rw_maxSizeDone r1) + reported report = win_done (rw_maxSizeDone r)"
    "\<And>w. report = Some w \<Longrightarrow> win_max w = win_max (rw_maxSizeDone r)"
    "r1 = r\<lparr>rw_maxSizeDone := rw_maxSizeDone r1\<rparr>"
    using assms p by (auto simp: recv_check_def reported_def Let_def split: if_splits)
qed

lemma sendStatus_credit:
  assumes "sendStatus l r = (r1, report)" and "win_done (rw_maxSizeDone r) + unat l < 2 ^ 31"
  shows "win_max (rw_maxSizeDone r1) = win_max (rw_maxSizeDone r)"
    and "win_done (rw_maxSizeDone r1) + reported report = win_done (rw_maxSizeDone r) + unat l"
    and "\<And>w. report = Some w \<Longrightarrow> win_max w = win_max (rw_maxSizeDone r)"
    and "r1 = r\<lparr>rw_maxSizeDone := rw_maxSizeDone r1\<rparr>"
    and "rq_Len (rw_bufQueue r) = 0 \<Longrightarrow> win_done (rw_maxSizeDone r1) = 0"
proof -
  obtain m d w where p: "win_unpack (rw_maxSizeDone r) = (m, d, w)" "m < 2 ^ 31" "d < 2 ^ 31"
      "win_max (rw_maxSizeDone r) = unat m" "win_done (rw_maxSizeDone r) = unat d" by (rule win_cases)
  have add: "unat (d + ucast l) = unat d + unat l"
    using assms(2) p(5) unat_add_small [of d "ucast l"] by simp
  then have small: "d + ucast l < 2 ^ 31" using assms(2) p(5) by (simp add: word_less_nat_alt)
  then have le: "d \<le> (d + ucast l) AND mask31" using add by (simp add: word_le_nat_alt)
  have empty: "recv_remainingSize m 0 r = m" if "rq_Len (rw_bufQueue r) = 0"
    using recv_remaining [of m 0 r] that by (simp add: word_unat_eq_iff)
  show "win_max (rw_maxSizeDone r1) = win_max (rw_maxSizeDone r)"
    "win_done (rw_maxSizeDone r1) + reported report = win_done (rw_maxSizeDone r) + unat l"
    "\<And>w. report = Some w \<Longrightarrow> win_max w = win_max (rw_maxSizeDone r)"
    "r1 = r\<lparr>rw_maxSizeDone := rw_maxSizeDone r1\<rparr>"
    using assms(1) p small le add by (auto simp: sendStatus_def reported_def Let_def split: if_splits)
  show "rq_Len (rw_bufQueue r) = 0 \<Longrightarrow> win_done (rw_maxSizeDone r1) = 0"
    using assms(1) p small le add empty by (auto simp: sendStatus_def Let_def split: if_splits)
qed

lemma SetSize_credit:
  assumes "SetSize w s = (s1, allowed)" and "\<not> sw_closeOp s" and "win_done w \<le> win_done (sw_maxSizeDone s)"
  shows "win_done (sw_maxSizeDone s1) + win_done w = win_done (sw_maxSizeDone s)"
    and "win_max (sw_maxSizeDone s1) = win_max w"
    and "win_wait (sw_maxSizeDone s1) \<longleftrightarrow> win_wait (sw_maxSizeDone s) \<and> \<not> allowed"
    and "s1 = s\<lparr>sw_maxSizeDone := sw_maxSizeDone s1\<rparr>"
    and "(win_wait (sw_maxSizeDone s) \<longrightarrow> win_max (sw_maxSizeDone s) \<le> win_done (sw_maxSizeDone s)) \<Longrightarrow>
      win_wait (sw_maxSizeDone s1) \<Longrightarrow> win_max (sw_maxSizeDone s1) \<le> win_done (sw_maxSizeDone s1)"
proof -
  obtain m d v where p: "win_unpack (sw_maxSizeDone s) = (m, d, v)" "m < 2 ^ 31" "d < 2 ^ 31"
      "win_max (sw_maxSizeDone s) = unat m" "win_done (sw_maxSizeDone s) = unat d" "win_wait (sw_maxSizeDone s) = v" by (rule win_cases)
  obtain cm rd x where q: "win_unpack w = (cm, rd, x)" "cm < 2 ^ 31" "rd < 2 ^ 31" "win_max w = unat cm" "win_done w = unat rd"
    by (rule win_cases)
  have le: "rd \<le> d" using assms(3) p q by (simp add: word_le_nat_alt)
  then have sub: "unat (d - rd) = unat d - unat rd" "unat rd \<le> unat d" by (simp_all add: unat_sub word_le_nat_alt)
  then have small: "d - rd < 2 ^ 31" using p(3) by (simp add: word_less_nat_alt)
  have rem: "send_remainingSize cm (d - rd) = 0 \<longleftrightarrow> unat cm \<le> unat d - unat rd"
    using send_remaining [OF q(2) small] sub(1) by (metis diff_is_0_eq unat_eq_0)
  note simps = SetSize_def Let_def
  consider (same) "rd = 0" "cm = m" "s1 = s" "\<not> allowed"
    | (new) "s1 = s\<lparr>sw_maxSizeDone := win_pack cm (d - rd) (unat cm \<le> unat d - unat rd \<and> v)\<rparr>"
        "allowed \<longleftrightarrow> v \<and> \<not> (unat cm \<le> unat d - unat rd)"
    using assms(1,2) p q le rem by (auto simp: simps split: if_splits)
  then have "win_done (sw_maxSizeDone s1) + win_done w = win_done (sw_maxSizeDone s)
    \<and> win_max (sw_maxSizeDone s1) = win_max w
    \<and> (win_wait (sw_maxSizeDone s1) \<longleftrightarrow> win_wait (sw_maxSizeDone s) \<and> \<not> allowed)
    \<and> s1 = s\<lparr>sw_maxSizeDone := sw_maxSizeDone s1\<rparr>
    \<and> ((win_wait (sw_maxSizeDone s) \<longrightarrow> win_max (sw_maxSizeDone s) \<le> win_done (sw_maxSizeDone s)) \<longrightarrow>
      win_wait (sw_maxSizeDone s1) \<longrightarrow> win_max (sw_maxSizeDone s1) \<le> win_done (sw_maxSizeDone s1))"
  proof cases
    case same
    then show ?thesis using p(4-6) q(4,5) by simp
  next
    case new
    have parts: "win_max (sw_maxSizeDone s1) = unat cm" "win_done (sw_maxSizeDone s1) = unat d - unat rd"
        "win_wait (sw_maxSizeDone s1) \<longleftrightarrow> unat cm \<le> unat d - unat rd \<and> v"
      using new(1) q(2) small sub(1) by simp_all
    have "s1 = s\<lparr>sw_maxSizeDone := sw_maxSizeDone s1\<rparr>" using new(1) by simp
    then show ?thesis using parts new(2) p(4-6) q(4,5) sub(2) by (simp only: parts) auto
  qed
  then show "win_done (sw_maxSizeDone s1) + win_done w = win_done (sw_maxSizeDone s)"
    "win_max (sw_maxSizeDone s1) = win_max w"
    "win_wait (sw_maxSizeDone s1) \<longleftrightarrow> win_wait (sw_maxSizeDone s) \<and> \<not> allowed"
    "s1 = s\<lparr>sw_maxSizeDone := sw_maxSizeDone s1\<rparr>"
    "(win_wait (sw_maxSizeDone s) \<longrightarrow> win_max (sw_maxSizeDone s) \<le> win_done (sw_maxSizeDone s)) \<Longrightarrow>
      win_wait (sw_maxSizeDone s1) \<Longrightarrow> win_max (sw_maxSizeDone s1) \<le> win_done (sw_maxSizeDone s1)"
    by blast+
qed

lemma WriteTo_waits:
  assumes "WriteTo s = Some (Must_wait s1)"
  shows "win_max (sw_maxSizeDone s) \<le> win_done (sw_maxSizeDone s)" and "unat (sw_off s) < unat (of_nat (length (sw_buf s)) :: u32)"
    and "win_max (sw_maxSizeDone s1) = win_max (sw_maxSizeDone s)" and "win_done (sw_maxSizeDone s1) = win_done (sw_maxSizeDone s)"
    and "win_wait (sw_maxSizeDone s1)" and "s1 = s\<lparr>sw_maxSizeDone := sw_maxSizeDone s1\<rparr>"
proof -
  obtain m d v where p: "win_unpack (sw_maxSizeDone s) = (m, d, v)" "m < 2 ^ 31" "d < 2 ^ 31"
      "win_max (sw_maxSizeDone s) = unat m" "win_done (sw_maxSizeDone s) = unat d" by (rule win_cases)
  have w: "send_remainingSize m d = 0" "s1 = s\<lparr>sw_maxSizeDone := win_pack m d True\<rparr>" "\<not> sw_off s \<ge> of_nat (length (sw_buf s))"
    using assms p(1) by (auto simp: WriteTo_def Let_def split: if_splits)
  show "win_max (sw_maxSizeDone s) \<le> win_done (sw_maxSizeDone s)"
    using send_remaining [OF p(2,3)] w(1) p(4,5) by simp
  show "unat (sw_off s) < unat (of_nat (length (sw_buf s)) :: u32)" using w(3) by (simp add: word_le_nat_alt)
  show "win_max (sw_maxSizeDone s1) = win_max (sw_maxSizeDone s)" "win_done (sw_maxSizeDone s1) = win_done (sw_maxSizeDone s)"
    "win_wait (sw_maxSizeDone s1)" "s1 = s\<lparr>sw_maxSizeDone := sw_maxSizeDone s1\<rparr>"
    using w(2) p by simp_all
qed

lemma WriteTo_segment:
  assumes "WriteTo s = Some (Segment q part s1)" and "length (sw_buf s) < 2 ^ 32"
  shows "q \<noteq> []" and "length q \<le> maximumSegmentSize"
    and "win_done (sw_maxSizeDone s) + length q \<le> win_max (sw_maxSizeDone s)"
    and "win_max (sw_maxSizeDone s1) = win_max (sw_maxSizeDone s)"
    and "win_done (sw_maxSizeDone s1) = win_done (sw_maxSizeDone s) + length q"
    and "win_wait (sw_maxSizeDone s1) = win_wait (sw_maxSizeDone s)"
    and "sw_buf s1 = sw_buf s \<and> sw_closeOp s1 = sw_closeOp s"
    and "unat (sw_off s1) = unat (sw_off s) + length q" and "unat (sw_off s) + length q \<le> length (sw_buf s)"
    and "q = take (length q) (drop (unat (sw_off s)) (sw_buf s))"
proof -
  obtain m d v where p: "win_unpack (sw_maxSizeDone s) = (m, d, v)" "m < 2 ^ 31" "d < 2 ^ 31"
      "win_max (sw_maxSizeDone s) = unat m" "win_done (sw_maxSizeDone s) = unat d" "win_wait (sw_maxSizeDone s) = v" by (rule win_cases)
  let ?left = "length (sw_buf s) - unat (sw_off s)"
  define sz0 :: u32 where "sz0 = (if ?left > maximumSegmentSize then of_nat maximumSegmentSize else of_nat ?left)"
  define sz where "sz = (if send_remainingSize m d < sz0 then send_remainingSize m d else sz0)"
  let ?s = "s\<lparr>sw_off := sw_off s + sz\<rparr>"
  have off: "\<not> sw_off s \<ge> of_nat (length (sw_buf s))" and rem: "send_remainingSize m d \<noteq> 0"
    and q: "q = take (unat sz) (drop (unat (sw_off s)) (sw_buf s))" and s1: "sent sz ?s = Some s1"
    using assms(1) p(1) by (auto simp: WriteTo_def Let_def sz_def sz0_def split: if_splits)
  have len: "unat (of_nat (length (sw_buf s)) :: u32) = length (sw_buf s)"
    using assms(2) by (simp add: unat_of_nat take_bit_nat_eq_self)
  then have left: "0 < ?left" using off by (simp add: word_le_nat_alt)
  have sz0: "unat sz0 = min maximumSegmentSize ?left"
    using assms(2) by (auto simp: sz0_def maximumSegmentSize_def unat_of_nat take_bit_nat_eq_self)
  have remn: "unat (send_remainingSize m d) = unat m - unat d" using send_remaining [OF p(2,3)] .
  have sz: "unat sz = min (unat m - unat d) (min maximumSegmentSize ?left)"
    using sz0 remn by (auto simp: sz_def word_less_nat_alt)
  have rempos: "0 < unat m - unat d" using rem remn by (metis gr0I unat_eq_0)
  then have pos: "0 < unat sz" using sz left by (simp add: maximumSegmentSize_def)
  have lq: "length q = unat sz" using sz by (simp add: q)
  have room: "unat d + unat sz \<le> unat m" using sz rempos by linarith
  have add: "unat (d + sz) = unat d + unat sz"
    using room p(2) unat_add_small [of d sz] by (simp add: word_less_nat_alt)
  then have small: "d + sz < 2 ^ 31" using room p(2) by (simp add: word_less_nat_alt)
  have "\<not> d + sz < d" using add by (simp add: word_less_nat_alt)
  then have s1': "s1 = ?s\<lparr>sw_maxSizeDone := win_pack m (d + sz) v\<rparr>"
    using s1 p(1) small by (simp add: sent_def Let_def)
  have "unat (sw_off s) + unat sz \<le> length (sw_buf s)" using sz left by simp
  moreover from this have "unat (sw_off s + sz) = unat (sw_off s) + unat sz"
    using assms(2) by (intro unat_add_small) simp
  ultimately show "unat (sw_off s1) = unat (sw_off s) + length q" "unat (sw_off s) + length q \<le> length (sw_buf s)"
    unfolding lq s1' by simp_all
  show "q \<noteq> []" using pos lq by (metis length_0_conv less_irrefl)
  show "length q \<le> maximumSegmentSize" unfolding lq sz by simp
  show "win_done (sw_maxSizeDone s) + length q \<le> win_max (sw_maxSizeDone s)" unfolding lq p(4,5) by (rule room)
  have word: "sw_maxSizeDone s1 = win_pack m (d + sz) v" unfolding s1' by simp
  show "win_max (sw_maxSizeDone s1) = win_max (sw_maxSizeDone s)" unfolding word p(4) by (rule win_pack_parts(1) [OF p(2) small])
  show "win_done (sw_maxSizeDone s1) = win_done (sw_maxSizeDone s) + length q"
    unfolding word p(5) lq win_pack_parts(2) [OF p(2) small] by (rule add)
  show "win_wait (sw_maxSizeDone s1) = win_wait (sw_maxSizeDone s)" unfolding word p(6) by (rule win_pack_parts(3) [OF p(2) small])
  show "sw_buf s1 = sw_buf s \<and> sw_closeOp s1 = sw_closeOp s" unfolding s1' by simp
  show "q = take (length q) (drop (unat (sw_off s)) (sw_buf s))" unfolding lq by (rule q)
qed

lemma WriteTo_cases:
  assumes "\<not> sw_closeOp s" and "length (sw_buf s) < 2 ^ 32"
  obtains "WriteTo s = Some Drained" "length (sw_buf s) \<le> unat (sw_off s)"
  | s1 where "WriteTo s = Some (Must_wait s1)" "win_max (sw_maxSizeDone s) \<le> win_done (sw_maxSizeDone s)"
  | q part s1 where "WriteTo s = Some (Segment q part s1)"
proof -
  obtain m d v where p: "win_unpack (sw_maxSizeDone s) = (m, d, v)" "m < 2 ^ 31" "d < 2 ^ 31"
      "win_max (sw_maxSizeDone s) = unat m" "win_done (sw_maxSizeDone s) = unat d" by (rule win_cases)
  have len: "unat (of_nat (length (sw_buf s)) :: u32) = length (sw_buf s)"
    using assms(2) by (simp add: unat_of_nat take_bit_nat_eq_self)
  have remn: "unat (send_remainingSize m d) = unat m - unat d" using send_remaining [OF p(2,3)] .
  show ?thesis
  proof (cases "sw_off s \<ge> of_nat (length (sw_buf s))")
    case True
    then show ?thesis using assms(1) len that(1) by (simp add: WriteTo_def Let_def word_le_nat_alt)
  next
    case off: False
    show ?thesis
    proof (cases "send_remainingSize m d = 0")
      case True
      then show ?thesis using assms(1) off p remn that(2) by (simp add: WriteTo_def Let_def)
    next
      case False
      have "sent sz (s\<lparr>sw_off := x\<rparr>) \<noteq> None" if "unat sz \<le> unat m - unat d" for sz x
      proof -
        have "unat (d + sz) = unat d + unat sz"
          using that p(2,3) unat_add_small [of d sz] by (simp add: word_less_nat_alt)
        moreover from this have "d + sz < 2 ^ 31" using that p(2,3) by (auto simp: word_less_nat_alt)
        ultimately show ?thesis using p(1) by (simp add: sent_def Let_def word_less_nat_alt)
      qed
      let ?left = "length (sw_buf s) - unat (sw_off s)"
      let ?sz0 = "if ?left > maximumSegmentSize then of_nat maximumSegmentSize else of_nat ?left :: u32"
      let ?sz = "if send_remainingSize m d < ?sz0 then send_remainingSize m d else ?sz0"
      have "unat ?sz \<le> unat m - unat d" using remn by (auto simp: word_less_nat_alt)
      then obtain s1 where "sent ?sz (s\<lparr>sw_off := sw_off s + ?sz\<rparr>) = Some s1"
        using \<open>\<And>sz x. unat sz \<le> unat m - unat d \<Longrightarrow> sent sz (s\<lparr>sw_off := x\<rparr>) \<noteq> None\<close> by blast
      then show ?thesis
        using False assms(1) off p(1) that(3) unfolding WriteTo_def Let_def by (simp only: if_False prod.case option.map)
    qed
  qed
qed

lemma calcSize_range:
  assumes "size_in_range M ms r" and "M < 2 ^ 31" and "0 < win_max (rw_maxSizeDone r)" "win_max (rw_maxSizeDone r) \<le> M"
  shows "0 < win_max (rw_maxSizeDone (calcSize ms r))" and "win_max (rw_maxSizeDone (calcSize ms r)) \<le> M"
    and "win_done (rw_maxSizeDone (calcSize ms r)) = win_done (rw_maxSizeDone r)"
    and "calcSize ms r = r\<lparr>rw_maxSizeDone := rw_maxSizeDone (calcSize ms r), rw_count := rw_count (calcSize ms r)\<rparr>"
proof -
  obtain m d v where p: "win_unpack (rw_maxSizeDone r) = (m, d, v)" "m < 2 ^ 31" "d < 2 ^ 31"
      "win_max (rw_maxSizeDone r) = unat m" "win_done (rw_maxSizeDone r) = unat d" by (rule win_cases)
  let ?n = "new_size ms m (recv_remainingSize m 0 r)"
  show "calcSize ms r = r\<lparr>rw_maxSizeDone := rw_maxSizeDone (calcSize ms r), rw_count := rw_count (calcSize ms r)\<rparr>"
    by (simp add: calcSize_def case_prod_beta Let_def)
  have "0 < win_max (rw_maxSizeDone (calcSize ms r)) \<and> win_max (rw_maxSizeDone (calcSize ms r)) \<le> M
    \<and> win_done (rw_maxSizeDone (calcSize ms r)) = win_done (rw_maxSizeDone r)"
  proof (cases "rw_count r = 0")
    case True
    then have "0 < unat ?n" "unat ?n \<le> M" using assms(1) p(1) by (simp_all add: size_in_range_def Let_def)
    moreover from this have "?n < 2 ^ 31" using assms(2) by (simp add: word_less_nat_alt)
    moreover have "rw_maxSizeDone (calcSize ms r) = win_pack ?n d v" using True p(1) by (simp add: calcSize_def Let_def)
    ultimately show ?thesis using p by simp
  next
    case False
    then have "rw_maxSizeDone (calcSize ms r) = rw_maxSizeDone r" by (simp add: calcSize_def Let_def)
    then show ?thesis using assms(3,4) by simp
  qed
  then show "0 < win_max (rw_maxSizeDone (calcSize ms r))" "win_max (rw_maxSizeDone (calcSize ms r)) \<le> M"
    "win_done (rw_maxSizeDone (calcSize ms r)) = win_done (rw_maxSizeDone r)" by blast+
qed

section \<open>The invariant\<close>

definition held :: "incoming \<Rightarrow> elt list" where
  "held i = (case i of Idle \<Rightarrow> [] | Sized e \<Rightarrow> [e] | Checked e _ \<Rightarrow> [e])"

definition held_report :: "incoming \<Rightarrow> u64 list" where
  "held_report i = (case i of Checked _ (Some w) \<Rightarrow> [w] | _ \<Rightarrow> [])"

definition in_hand :: "recv_window \<Rightarrow> nat" where
  "in_hand r = (if recv_drained r then 0 else unat (e_L (rw_element r)))"

definition unread :: "recv_window \<Rightarrow> byte list" where
  "unread r = drop (unat (rw_off r)) (e_Buf (rw_element r))"

definition wire_bytes :: "(byte list \<times> bool) list \<Rightarrow> nat" where
  "wire_bytes ws = sum_list (map (length \<circ> fst) ws)"

abbreviation reports_under_way :: "link \<Rightarrow> u64 list" where
  "reports_under_way k \<equiv> lk_reports k @ held_report (lk_incoming k)"

definition unacknowledged :: "link \<Rightarrow> nat" where
  "unacknowledged k = wire_bytes (lk_wire k) + bytes_in (held (lk_incoming k)) + bytes_in (queued (rw_bufQueue (lk_recv k)))
     + in_hand (lk_recv k) + win_done (rw_maxSizeDone (lk_recv k)) + sum_list (map win_done (reports_under_way k))"

definition sender_ok :: "nat \<Rightarrow> bool \<Rightarrow> send_window \<Rightarrow> bool" where
  "sender_ok M blocked s \<longleftrightarrow> \<not> sw_closeOp s \<and> length (sw_buf s) < 2 ^ 32 \<and> unat (sw_off s) \<le> length (sw_buf s)
     \<and> 0 < win_max (sw_maxSizeDone s) \<and> win_max (sw_maxSizeDone s) \<le> M \<and> win_done (sw_maxSizeDone s) \<le> M
     \<and> win_wait (sw_maxSizeDone s) = blocked \<and> (blocked \<longrightarrow> win_max (sw_maxSizeDone s) \<le> win_done (sw_maxSizeDone s))"

definition receiver_ok :: "nat \<Rightarrow> recv_window \<Rightarrow> bool" where
  "receiver_ok M r \<longleftrightarrow> 0 < win_max (rw_maxSizeDone r) \<and> win_max (rw_maxSizeDone r) \<le> M \<and> rq_ok (rw_bufQueue r)
     \<and> unat (rw_off r) \<le> unat (e_L (rw_element r)) \<and> length (e_Buf (rw_element r)) = unat (e_L (rw_element r))
     \<and> (queued (rw_bufQueue r) = [] \<and> recv_drained r \<longrightarrow> win_done (rw_maxSizeDone r) = 0)"

definition wire_ok :: "(byte list \<times> bool) list \<Rightarrow> bool" where
  "wire_ok ws \<longleftrightarrow> (\<forall>p \<in> set ws. fst p \<noteq> [] \<and> length (fst p) \<le> maximumSegmentSize)"

definition stream :: "link \<Rightarrow> byte list" where
  "stream k = lk_read k @ unread (lk_recv k) @ concat (map e_Buf (queued (rw_bufQueue (lk_recv k))))
     @ concat (map e_Buf (held (lk_incoming k))) @ concat (map fst (lk_wire k))"

definition link_ok :: "nat \<Rightarrow> link \<Rightarrow> bool" where
  "link_ok M k \<longleftrightarrow> sender_ok M (lk_blocked k) (lk_send k) \<and> receiver_ok M (lk_recv k) \<and> wire_ok (lk_wire k)
     \<and> list_all elt_ok (held (lk_incoming k)) \<and> (\<forall>w \<in> set (reports_under_way k). 0 < win_max w \<and> win_max w \<le> M)
     \<and> win_done (sw_maxSizeDone (lk_send k)) = unacknowledged k \<and> lk_sent k = stream k"

lemmas link_ok_defs = link_ok_def unacknowledged_def stream_def

lemma New_ok:
  assumes "maximumSegmentSize * 30 \<le> M" and "M < 2 ^ 31"
  shows "link_ok M link_New"
proof -
  have c: "chain_ok (chain_new (2 ^ 6) :: elt deque list)" "chain_contents (chain_new (2 ^ 6) :: elt deque list) = []"
    using new_deque [of 6] by (simp_all add: chain_ok_def chain_contents_def chain_new_def)
  have q: "rq_ok newReceiveWindowQueue" "queued newReceiveWindowQueue = []"
    using c by (simp_all add: rq_ok_def newReceiveWindowQueue_def rq_Len_def dq_unpack_def)
  let ?w = "of_nat (maximumSegmentSize * 30) :: u32"
  have "?w < 2 ^ 31" "unat ?w = maximumSegmentSize * 30" by (simp_all add: maximumSegmentSize_def)
  then show ?thesis
    using q assms
    by (simp add: link_ok_defs link_New_def sender_ok_def receiver_ok_def send_New_def recv_New_def wire_ok_def held_def
        held_report_def in_hand_def unread_def wire_bytes_def recv_drained_def maximumSegmentSize_def)
qed

section \<open>Every step keeps it\<close>

lemma write_starts_ok:
  assumes "link_ok M k" and "\<not> lk_blocked k" and "length buf < 2 ^ 32"
  shows "link_ok M (k\<lparr>lk_send := SetSendBuf buf (lk_send k)\<rparr>)"
  using assms by (simp add: link_ok_defs sender_ok_def SetSendBuf_def)

lemma segment_ok:
  assumes "link_ok M k" and "WriteTo (lk_send k) = Some (Segment p part s)"
  shows "link_ok M (k\<lparr>lk_send := s, lk_wire := lk_wire k @ [(p, part)], lk_sent := lk_sent k @ p\<rparr>)"
proof -
  have "length (sw_buf (lk_send k)) < 2 ^ 32" using assms(1) by (simp add: link_ok_def sender_ok_def)
  note w = WriteTo_segment [OF assms(2) this]
  have "sender_ok M (lk_blocked k) s"
    using assms(1) w by (auto simp: link_ok_def sender_ok_def)
  then show ?thesis using assms(1) w(1,2,5) by (simp add: link_ok_defs wire_ok_def wire_bytes_def)
qed

lemma waits_ok:
  assumes "link_ok M k" and "WriteTo (lk_send k) = Some (Must_wait s)"
  shows "link_ok M (k\<lparr>lk_send := s, lk_blocked := True\<rparr>)"
proof -
  note w = WriteTo_waits [OF assms(2)]
  have "sw_buf s = sw_buf (lk_send k)" "sw_off s = sw_off (lk_send k)" "sw_closeOp s = sw_closeOp (lk_send k)"
    by (subst w(6), simp)+
  then have "sender_ok M True s" using assms(1) w by (simp add: link_ok_def sender_ok_def)
  then show ?thesis using assms(1) w(4) by (simp add: link_ok_defs)
qed

lemma arrive_ok:
  assumes "link_ok M k" and "M < 2 ^ 31" and "lk_incoming k = Idle" and "lk_wire k = (p, part) # ws"
    and "newListElement p (of_nat (length p)) part = Some e" and "size_in_range M ms (lk_recv k)"
  shows "link_ok M (k\<lparr>lk_wire := ws, lk_incoming := Sized e, lk_recv := calcSize ms (lk_recv k)\<rparr>)"
proof -
  let ?r = "calcSize ms (lk_recv k)"
  have r: "receiver_ok M (lk_recv k)" using assms(1) by (simp add: link_ok_def)
  note c = calcSize_range [OF assms(6,2)]
  have w: "0 < win_max (rw_maxSizeDone ?r)" "win_max (rw_maxSizeDone ?r) \<le> M"
      "win_done (rw_maxSizeDone ?r) = win_done (rw_maxSizeDone (lk_recv k))"
    using c(1-3) r by (simp_all add: receiver_ok_def)
  have same: "rw_bufQueue ?r = rw_bufQueue (lk_recv k)" "rw_off ?r = rw_off (lk_recv k)" "rw_element ?r = rw_element (lk_recv k)"
    by (simp_all add: calcSize_def case_prod_beta Let_def)
  then have "receiver_ok M ?r" "in_hand ?r = in_hand (lk_recv k)" "unread ?r = unread (lk_recv k)"
    using r w by (simp_all add: receiver_ok_def recv_drained_def in_hand_def unread_def)
  moreover have p: "p \<noteq> []" "length p \<le> maximumSegmentSize" using assms(1,4) by (auto simp: link_ok_def wire_ok_def)
  have e: "e_Buf e = p" "e_L e = of_nat (length p)" using assms(5) by (auto simp: newListElement_def split: if_splits)
  then have "unat (e_L e) = length p" using segment_length p(2) by simp
  moreover from this have "elt_ok e" using e(1) p(1) by (simp add: elt_ok_def)
  ultimately show ?thesis
    using assms(1,3,4) e(1) w(3) same
    by (simp add: link_ok_defs wire_ok_def wire_bytes_def held_def held_report_def)
qed

lemma check_ok:
  assumes "link_ok M k" and "lk_incoming k = Sized e" and "recv_check (e_L e) (lk_recv k) = (r, report)"
  shows "link_ok M (k\<lparr>lk_incoming := Checked e report, lk_recv := r\<rparr>)"
proof -
  note c = recv_check_credit [OF assms(3)]
  have ok: "receiver_ok M (lk_recv k)" using assms(1) by (simp add: link_ok_def)
  have same: "rw_bufQueue r = rw_bufQueue (lk_recv k)" "rw_off r = rw_off (lk_recv k)" "rw_element r = rw_element (lk_recv k)"
    by (subst c(4), simp)+
  moreover have "win_done (rw_maxSizeDone r) \<le> win_done (rw_maxSizeDone (lk_recv k))" using c(2) by linarith
  ultimately have "receiver_ok M r" "in_hand r = in_hand (lk_recv k)" "unread r = unread (lk_recv k)"
    using ok c(1) by (auto simp: receiver_ok_def recv_drained_def in_hand_def unread_def)
  moreover have "sum_list (map win_done (held_report (Checked e report))) = reported report"
    by (simp add: held_report_def reported_def split: option.split)
  moreover have "0 < win_max w \<and> win_max w \<le> M" if "w \<in> set (held_report (Checked e report))" for w
    using that c(3) ok by (auto simp: held_report_def receiver_ok_def split: option.splits)
  ultimately show ?thesis
    using assms(1,2) c(2) same by (auto simp: link_ok_defs held_def held_report_def [of "Sized e"])
qed

lemma push_ok:
  assumes "link_ok M k" and "M < 2 ^ 31" and "lk_incoming k = Checked e report"
  shows "link_ok M (k\<lparr>lk_incoming := Idle, lk_recv := recv_push e (lk_recv k), lk_reports := lk_reports k @ opt_list report\<rparr>)"
proof -
  let ?q = "rw_bufQueue (lk_recv k)" and ?r = "recv_push e (lk_recv k)"
  have ok: "receiver_ok M (lk_recv k)" "elt_ok e" using assms(1,3) by (auto simp: link_ok_def held_def)
  have "bytes_in (queued ?q) + unat (e_L e) \<le> unacknowledged k"
    using assms(3) by (simp add: unacknowledged_def held_def)
  also have "\<dots> \<le> M" using assms(1) by (simp add: link_ok_def sender_ok_def)
  finally have small: "bytes_in (queued ?q) + unat (e_L e) < 2 ^ 32" using assms(2) by simp
  have "rq_ok ?q" using ok(1) by (simp add: receiver_ok_def)
  note q = rq_Push_contents [OF this ok(2) small]
  have "receiver_ok M ?r" "in_hand ?r = in_hand (lk_recv k)" "unread ?r = unread (lk_recv k)"
      "win_done (rw_maxSizeDone ?r) = win_done (rw_maxSizeDone (lk_recv k))" "queued (rw_bufQueue ?r) = queued ?q @ [e]"
    using ok q by (simp_all add: receiver_ok_def recv_push_def recv_drained_def in_hand_def unread_def)
  moreover have "held_report (Checked e report) = opt_list report" by (simp add: held_report_def split: option.split)
  ultimately show ?thesis
    using assms(1,3) by (simp add: link_ok_defs held_def held_report_def [of Idle])
qed

lemma read_waits_ok:
  assumes "link_ok M k" and "recv_pop (lk_recv k) = Some (False, r)"
  shows "link_ok M (k\<lparr>lk_recv := r\<rparr>)"
proof -
  let ?q = "rw_bufQueue (lk_recv k)"
  have q: "rq_ok ?q" using assms(1) by (simp add: link_ok_def receiver_ok_def)
  have "queued ?q = []"
    using rq_Pop_first [OF q] assms(2) by (cases "queued ?q") (fastforce simp: recv_pop_def)+
  then have "r = (lk_recv k)\<lparr>rw_bufQueue := ?q\<lparr>q_lengthWait := dq_pack 0 1\<rparr>\<rparr>" "rq_ok (?q\<lparr>q_lengthWait := dq_pack 0 1\<rparr>)"
    using rq_Pop_empty [OF q] assms(2) by (auto simp: recv_pop_def)
  then show ?thesis
    using assms(1) by (simp add: link_ok_defs receiver_ok_def in_hand_def unread_def recv_drained_def)
qed

lemma read_pops_ok:
  assumes "link_ok M k" and "recv_drained (lk_recv k)" and "recv_pop (lk_recv k) = Some (True, r)"
  shows "link_ok M (k\<lparr>lk_recv := r\<rparr>)"
proof -
  let ?q = "rw_bufQueue (lk_recv k)"
  have ok: "receiver_ok M (lk_recv k)" and q: "rq_ok ?q" using assms(1) by (simp_all add: link_ok_def receiver_ok_def)
  obtain e es where first: "queued ?q = e # es"
    using rq_Pop_empty [OF q] assms(3) by (cases "queued ?q") (auto simp: recv_pop_def)
  then obtain q' where q': "rq_Pop ?q = Some (Some e, q')" "rq_ok q'" "queued q' = es"
    using rq_Pop_first [OF q] by blast
  have r: "r = (lk_recv k)\<lparr>rw_bufQueue := q', rw_element := e, rw_off := 0\<rparr>" using assms(3) q'(1) by (simp add: recv_pop_def)
  have e: "elt_ok e" using q first by (simp add: rq_ok_def)
  then have "(0 :: u32) \<noteq> ucast (e_L e)" by (metis elt_ok_def less_irrefl unat_0 unat_wider(1))
  then have fresh: "\<not> recv_drained r" by (simp add: r recv_drained_def)
  then have "receiver_ok M r" using ok e q' by (simp add: receiver_ok_def r elt_ok_def)
  moreover have "unread (lk_recv k) = []"
    using ok assms(2) by (simp add: unread_def receiver_ok_def recv_drained_def)
  ultimately show ?thesis
    using assms(1,2) first fresh q'(3)
    by (simp add: link_ok_defs in_hand_def r) (simp add: unread_def)
qed

lemma recv_copy_credit:
  assumes "recv_copy n r = (data, r1, report)" and "receiver_ok M r" and "\<not> recv_drained r" and "0 < n"
    and "win_done (rw_maxSizeDone r) + unat (e_L (rw_element r)) < 2 ^ 31"
  shows "data = take n (unread r)" and "data \<noteq> []" and "unread r = data @ unread r1"
    and "receiver_ok M r1" and "rw_bufQueue r1 = rw_bufQueue r" and "rw_element r1 = rw_element r"
    and "in_hand r1 + win_done (rw_maxSizeDone r1) + reported report = in_hand r + win_done (rw_maxSizeDone r)"
    and "\<And>w. report = Some w \<Longrightarrow> win_max w = win_max (rw_maxSizeDone r)"
proof -
  let ?e = "rw_element r" and ?r = "r\<lparr>rw_off := rw_off r + of_nat (length data)\<rparr>"
  have ok: "unat (rw_off r) \<le> unat (e_L ?e)" "length (e_Buf ?e) = unat (e_L ?e)" using assms(2) by (simp_all add: receiver_ok_def)
  show data: "data = take n (unread r)"
    using assms(1) ok(2) by (auto simp: recv_copy_def Let_def unread_def case_prod_beta split: if_splits)
  have "unat (rw_off r) \<noteq> unat (e_L ?e)" using assms(3) by (metis recv_drained_def unat_wider(1) word_unat_eq_iff)
  then have un: "0 < length (unread r)" "length (unread r) = unat (e_L ?e) - unat (rw_off r)" using ok by (simp_all add: unread_def)
  then have "unread r \<noteq> []" by (metis length_greater_0_conv)
  then show "data \<noteq> []" using data assms(4) by simp
  have len: "length data \<le> unat (e_L ?e) - unat (rw_off r)" using data un(2) by simp
  have bound: "unat (e_L ?e) < 2 ^ 16" using unsigned_less [of "e_L ?e", where ?'a = nat] by simp
  have "unat (of_nat (length data) :: u32) = length data"
    using len bound by (simp add: unat_of_nat take_bit_nat_eq_self)
  then have off: "unat (rw_off ?r) = unat (rw_off r) + length data"
    using len bound ok(1) unat_add_small [of "rw_off r" "of_nat (length data)"] by simp
  have "unread ?r = drop (length data) (unread r)"
    unfolding unread_def off drop_drop by (simp add: add.commute)
  moreover have "data = take (length data) (unread r)" using data by (metis append_eq_conv_conj append_take_drop_id)
  ultimately have rest: "unread r = data @ unread ?r" by (metis append_take_drop_id)
  have le: "unat (rw_off ?r) \<le> unat (e_L ?e)" using off len ok(1) by simp
  have hand: "in_hand r = unat (e_L ?e)" using assms(3) by (simp add: in_hand_def)
  consider (finished) "recv_drained ?r" "sendStatus (e_L ?e) ?r = (r1, report)" | (more) "\<not> recv_drained ?r" "r1 = ?r" "report = None"
    using assms(1) data unfolding recv_copy_def recv_drained_def Let_def unread_def using ok(2)
    by (auto split: if_splits prod.splits)
  then have "unread r = data @ unread r1 \<and> receiver_ok M r1 \<and> rw_bufQueue r1 = rw_bufQueue r \<and> rw_element r1 = rw_element r
    \<and> in_hand r1 + win_done (rw_maxSizeDone r1) + reported report = in_hand r + win_done (rw_maxSizeDone r)
    \<and> (\<forall>w. report = Some w \<longrightarrow> win_max w = win_max (rw_maxSizeDone r))"
  proof cases
    case finished
    have "win_done (rw_maxSizeDone ?r) + unat (e_L ?e) < 2 ^ 31" using assms(5) by simp
    note c = sendStatus_credit [OF finished(2) this]
    have same: "rw_bufQueue r1 = rw_bufQueue r" "rw_off r1 = rw_off ?r" "rw_element r1 = ?e" by (subst c(4), simp)+
    have drained: "recv_drained r1" "unread r1 = unread ?r" using finished(1) same by (simp_all add: recv_drained_def unread_def)
    have "rq_Len (rw_bufQueue ?r) = 0" if "queued (rw_bufQueue r) = []"
      using assms(2) that by (simp add: receiver_ok_def rq_ok_def unat_eq_0)
    then have "receiver_ok M r1"
      using assms(2) c(1,5) same le by (simp add: receiver_ok_def)
    moreover have "in_hand r1 = 0" using drained(1) by (simp add: in_hand_def)
    ultimately show ?thesis using c(2,3) same drained(2) rest hand by simp
  next
    case more
    have "receiver_ok M ?r" using assms(2) le more(1) by (simp add: receiver_ok_def)
    moreover have "in_hand ?r = unat (e_L ?e)" using more(1) by (simp add: in_hand_def)
    ultimately show ?thesis using more(2,3) rest hand by (simp add: reported_def)
  qed
  then show "unread r = data @ unread r1" "receiver_ok M r1" "rw_bufQueue r1 = rw_bufQueue r" "rw_element r1 = rw_element r"
    "in_hand r1 + win_done (rw_maxSizeDone r1) + reported report = in_hand r + win_done (rw_maxSizeDone r)"
    "\<And>w. report = Some w \<Longrightarrow> win_max w = win_max (rw_maxSizeDone r)"
    by blast+
qed

lemma read_copies_room:
  assumes "link_ok M k" and "M < 2 ^ 31" and "\<not> recv_drained (lk_recv k)"
  shows "receiver_ok M (lk_recv k)" and "win_done (rw_maxSizeDone (lk_recv k)) + unat (e_L (rw_element (lk_recv k))) < 2 ^ 31"
proof -
  show "receiver_ok M (lk_recv k)" using assms(1) by (simp add: link_ok_def)
  have "win_done (rw_maxSizeDone (lk_recv k)) + unat (e_L (rw_element (lk_recv k))) \<le> unacknowledged k"
    using assms(3) by (simp add: unacknowledged_def in_hand_def)
  also have "\<dots> \<le> M" using assms(1) by (simp add: link_ok_def sender_ok_def)
  finally show "win_done (rw_maxSizeDone (lk_recv k)) + unat (e_L (rw_element (lk_recv k))) < 2 ^ 31" using assms(2) by simp
qed

lemma read_copies_credit:
  assumes "link_ok M k" and "M < 2 ^ 31" and "\<not> recv_drained (lk_recv k)" and "0 < n"
    and "recv_copy n (lk_recv k) = (data, r, report)"
  shows "data = take n (unread (lk_recv k))" and "data \<noteq> []" and "unread (lk_recv k) = data @ unread r"
    and "receiver_ok M r" and "rw_bufQueue r = rw_bufQueue (lk_recv k)" and "rw_element r = rw_element (lk_recv k)"
    and "in_hand r + win_done (rw_maxSizeDone r) + reported report = in_hand (lk_recv k) + win_done (rw_maxSizeDone (lk_recv k))"
    and "\<And>w. report = Some w \<Longrightarrow> win_max w = win_max (rw_maxSizeDone (lk_recv k))"
  using recv_copy_credit [OF assms(5) read_copies_room(1) [OF assms(1-3)] assms(3,4) read_copies_room(2) [OF assms(1-3)]] by blast+

lemma read_copies_ok:
  assumes "link_ok M k" and "M < 2 ^ 31" and "\<not> recv_drained (lk_recv k)" and "0 < lk_space k"
    and "recv_copy (lk_space k) (lk_recv k) = (data, r, report)"
  shows "link_ok M (k\<lparr>lk_recv := r, lk_space := n', lk_read := lk_read k @ data, lk_reports := lk_reports k @ opt_list report\<rparr>)"
proof -
  note c = read_copies_credit [OF assms]
  have ok: "receiver_ok M (lk_recv k)" using assms(1) by (simp add: link_ok_def)
  have "sum_list (map win_done (opt_list report)) = reported report" by (simp add: reported_def split: option.split)
  moreover have "0 < win_max w \<and> win_max w \<le> M" if "w \<in> set (opt_list report)" for w
    using that c(8) ok by (auto simp: receiver_ok_def split: option.splits)
  ultimately show ?thesis
    using assms(1) c(3-5,7) by (simp add: link_ok_defs) (auto)
qed

lemma report_arrives_ok:
  assumes "link_ok M k" and "lk_reports k = w # ws" and "SetSize w (lk_send k) = (s, allowed)"
  shows "link_ok M (k\<lparr>lk_send := s, lk_reports := ws, lk_blocked := lk_blocked k \<and> \<not> allowed\<rparr>)"
proof -
  have ok: "sender_ok M (lk_blocked k) (lk_send k)" "0 < win_max w" "win_max w \<le> M" using assms(1,2) by (simp_all add: link_ok_def)
  have "win_done w \<le> unacknowledged k" by (simp add: unacknowledged_def assms(2))
  then have le: "win_done w \<le> win_done (sw_maxSizeDone (lk_send k))" using assms(1) by (simp add: link_ok_def)
  have "\<not> sw_closeOp (lk_send k)" using ok by (simp add: sender_ok_def)
  note c = SetSize_credit [OF assms(3) this le]
  have "sw_buf s = sw_buf (lk_send k)" "sw_off s = sw_off (lk_send k)" "sw_closeOp s = sw_closeOp (lk_send k)"
    by (subst c(4), simp)+
  then have "sender_ok M (lk_blocked k \<and> \<not> allowed) s"
    using ok c(1-3,5) by (auto simp: sender_ok_def)
  then show ?thesis using assms(1,2) c(1) by (simp add: link_ok_defs)
qed

lemma receiver_step_ok: "receiver_step M k k' \<Longrightarrow> M < 2 ^ 31 \<Longrightarrow> link_ok M k \<Longrightarrow> link_ok M k'"
  by (induction rule: receiver_step.induct)
    (blast intro: arrive_ok check_ok push_ok read_pops_ok read_copies_ok report_arrives_ok | simp add: link_ok_defs)+

lemma link_step_ok: "link_step M k k' \<Longrightarrow> M < 2 ^ 31 \<Longrightarrow> link_ok M k \<Longrightarrow> link_ok M k'"
  by (induction rule: link_step.induct)
    (blast intro: write_starts_ok segment_ok waits_ok read_waits_ok receiver_step_ok)+

lemma link_runs_ok: "(link_step M)\<^sup>*\<^sup>* k k' \<Longrightarrow> M < 2 ^ 31 \<Longrightarrow> link_ok M k \<Longrightarrow> link_ok M k'"
  by (induction rule: rtranclp_induct) (auto intro: link_step_ok)

lemma receiver_runs: "(receiver_step M)\<^sup>*\<^sup>* k k' \<Longrightarrow> (link_step M)\<^sup>*\<^sup>* k k'"
  by (induction rule: rtranclp_induct) (auto intro: link_step.receives rtranclp.rtrancl_into_rtrancl)

lemma receiver_sends_nothing: "receiver_step M k k' \<Longrightarrow> lk_sent k' = lk_sent k"
  by (induction rule: receiver_step.induct) simp_all

lemma receiver_runs_send_nothing: "(receiver_step M)\<^sup>*\<^sup>* k k' \<Longrightarrow> lk_sent k' = lk_sent k"
  by (induction rule: rtranclp_induct) (auto dest: receiver_sends_nothing)

section \<open>The receiver comes to an end\<close>

definition work :: "link \<Rightarrow> nat" where
  "work k = sum_list (map (\<lambda>p. 3 * length (fst p) + 5) (lk_wire k))
     + (case lk_incoming k of Idle \<Rightarrow> 0 | Sized e \<Rightarrow> 3 * unat (e_L e) + 4
         | Checked e x \<Rightarrow> 3 * unat (e_L e) + 2 + length (opt_list x))
     + sum_list (map (\<lambda>e. 3 * unat (e_L e) + 1) (queued (rw_bufQueue (lk_recv k))))
     + 3 * length (unread (lk_recv k)) + length (lk_reports k) + (if lk_space k = 0 then 1 else 0)"

lemma opt_list_length: "length (opt_list x) \<le> 1"
  by (simp split: option.split)

lemma receiver_step_works:
  assumes "receiver_step M k k'" and "M < 2 ^ 31" and "link_ok M k"
  shows "work k' < work k"
  using assms
proof (induction rule: receiver_step.induct)
  case (arrive k p part ws e ms)
  have "rw_bufQueue (calcSize ms (lk_recv k)) = rw_bufQueue (lk_recv k)" "unread (calcSize ms (lk_recv k)) = unread (lk_recv k)"
    by (simp_all add: calcSize_def case_prod_beta Let_def unread_def)
  moreover have "length p \<le> maximumSegmentSize" using arrive by (auto simp: link_ok_def wire_ok_def)
  then have "unat (e_L e) = length p"
    using arrive(3) segment_length by (auto simp: newListElement_def split: if_splits)
  ultimately show ?case using arrive(1,2) by (simp add: work_def)
next
  case (check k e r report)
  have "rw_bufQueue r = rw_bufQueue (lk_recv k)" "unread r = unread (lk_recv k)"
    by (subst recv_check_credit(4) [OF check(2)], simp add: unread_def)+
  then show ?case using check(1) opt_list_length [of report] by (simp add: work_def)
next
  case (push k e report)
  have ok: "receiver_ok M (lk_recv k)" "elt_ok e" using push by (auto simp: link_ok_def held_def)
  have "bytes_in (queued (rw_bufQueue (lk_recv k))) + unat (e_L e) \<le> unacknowledged k"
    using push(1) by (simp add: unacknowledged_def held_def)
  also have "\<dots> \<le> M" using push by (simp add: link_ok_def sender_ok_def)
  finally have small: "bytes_in (queued (rw_bufQueue (lk_recv k))) + unat (e_L e) < 2 ^ 32" using push by simp
  have "rq_ok (rw_bufQueue (lk_recv k))" using ok(1) by (simp add: receiver_ok_def)
  note q = rq_Push_contents(2) [OF this ok(2) small]
  have "unread (recv_push e (lk_recv k)) = unread (lk_recv k)" by (simp add: recv_push_def unread_def)
  then show ?case using push(1) q by (simp add: work_def recv_push_def)
next
  case (read_starts k n)
  then show ?case by (simp add: work_def)
next
  case (read_pops k r)
  let ?q = "rw_bufQueue (lk_recv k)"
  have q: "rq_ok ?q" using read_pops by (simp add: link_ok_def receiver_ok_def)
  obtain e es where first: "queued ?q = e # es"
    using rq_Pop_empty [OF q] read_pops(3) by (cases "queued ?q") (auto simp: recv_pop_def)
  then obtain q' where q': "rq_Pop ?q = Some (Some e, q')" "rq_ok q'" "queued q' = es"
    using rq_Pop_first [OF q] by blast
  have r: "r = (lk_recv k)\<lparr>rw_bufQueue := q', rw_element := e, rw_off := 0\<rparr>" using read_pops(3) q'(1) by (simp add: recv_pop_def)
  have "length (unread r) = unat (e_L e)" using q first by (simp add: r unread_def rq_ok_def elt_ok_def)
  then show ?case using first q'(3) by (simp add: work_def r)
next
  case (read_copies k data r report)
  note c = read_copies_credit [OF read_copies(5,4,2,1,3)]
  have "length (unread (lk_recv k)) = length data + length (unread r)" using c(3) by simp
  moreover obtain b bs where "data = b # bs" using c(2) by (cases data) auto
  ultimately show ?case using c(5) opt_list_length [of report] read_copies(1) by (simp add: work_def)
next
  case (report_arrives k w ws s allowed)
  then show ?case by (simp add: work_def)
qed

lemma reads_ready:
  assumes "0 < win_max (rw_maxSizeDone r)" and "0 < M"
  shows "\<exists>ms. size_in_range M ms r"
proof -
  let ?ms = "\<lparr>ms_base = 1, ms_gain = \<lambda>_ _ _. 1, ms_limit = Some 1\<rparr>"
  obtain m d v where p: "win_unpack (rw_maxSizeDone r) = (m, d, v)" "m < 2 ^ 31" "win_max (rw_maxSizeDone r) = unat m" by (rule win_cases)
  have pos: "m \<noteq> 0" using assms(1) p(3) by auto
  have two: "unat (2 * m) = 2 * unat m" using p(2) by (simp add: unat_word_ariths word_less_nat_alt)
  have "new_size ?ms m x = 1" for x
  proof -
    let ?n2 = "if 1 < m div 2 then m div 2 else 1"
    have "?n2 \<le> m" using pos by (auto simp: word_le_nat_alt unat_div unat_eq_0 [symmetric] Suc_le_eq)
    then have "\<not> ?n2 > 2 * m" using two by (simp add: word_le_nat_alt not_less)
    then show ?thesis by (auto simp: new_size_def Let_def)
  qed
  then have "size_in_range M ?ms r" using assms(2) p(1) by (simp add: size_in_range_def)
  then show ?thesis by blast
qed

lemma receiver_ends_empty:
  assumes "link_ok M k" and "\<nexists>k'. receiver_step M k k'"
  shows "lk_read k = lk_sent k" and "\<not> lk_blocked k" and "unacknowledged k = 0"
proof -
  have ok: "sender_ok M (lk_blocked k) (lk_send k)" "receiver_ok M (lk_recv k)" using assms(1) by (simp_all add: link_ok_def)
  have q: "rq_ok (rw_bufQueue (lk_recv k))" using ok(2) by (simp add: receiver_ok_def)
  have reports: "lk_reports k = []"
  proof (cases "lk_reports k")
    case (Cons w ws)
    obtain s allowed where "SetSize w (lk_send k) = (s, allowed)" by fastforce
    then show ?thesis using receiver_step.report_arrives [OF Cons] assms(2) by blast
  qed
  have idle: "lk_incoming k = Idle"
  proof (cases "lk_incoming k")
    case (Sized e)
    obtain r report where "recv_check (e_L e) (lk_recv k) = (r, report)" by fastforce
    then show ?thesis using receiver_step.check [OF Sized] assms(2) by blast
  next
    case (Checked e report)
    then show ?thesis using receiver_step.push [OF Checked] assms(2) by blast
  qed
  obtain ms where ms: "size_in_range M ms (lk_recv k)"
    using reads_ready [of "lk_recv k" M] ok by (auto simp: receiver_ok_def)
  have wire: "lk_wire k = []"
  proof (rule ccontr)
    assume "lk_wire k \<noteq> []"
    then obtain p part ws where w: "lk_wire k = (p, part) # ws" by (metis neq_Nil_conv surj_pair)
    have "\<exists>e. newListElement p (of_nat (length p)) part = Some e" by (simp add: newListElement_def)
    then show False using receiver_step.arrive [OF idle w _ ms] assms(2) by blast
  qed
  have space: "0 < lk_space k" using assms(2) receiver_step.read_starts [of k 1 M] by auto
  have drained: "recv_drained (lk_recv k)"
  proof (rule ccontr)
    assume left: "\<not> recv_drained (lk_recv k)"
    obtain data r report where "recv_copy (lk_space k) (lk_recv k) = (data, r, report)" by (metis prod_cases3)
    then show False using receiver_step.read_copies [OF space left] assms(2) by blast
  qed
  have queue: "queued (rw_bufQueue (lk_recv k)) = []"
  proof (cases "queued (rw_bufQueue (lk_recv k))")
    case (Cons e es)
    then obtain q' where "rq_Pop (rw_bufQueue (lk_recv k)) = Some (Some e, q')" using rq_Pop_first [OF q] by blast
    then have "\<exists>r. recv_pop (lk_recv k) = Some (True, r)" by (simp add: recv_pop_def)
    then show ?thesis using receiver_step.read_pops [OF space drained] assms(2) by blast
  qed simp
  have "unread (lk_recv k) = []"
    using ok(2) drained by (simp add: unread_def receiver_ok_def recv_drained_def)
  then show "lk_read k = lk_sent k" using assms(1) wire idle queue by (simp add: link_ok_defs held_def)
  have "win_done (rw_maxSizeDone (lk_recv k)) = 0" using ok(2) queue drained by (simp add: receiver_ok_def)
  then show "unacknowledged k = 0"
    using wire idle queue drained reports by (simp add: unacknowledged_def wire_bytes_def held_def held_report_def in_hand_def)
  then have "win_done (sw_maxSizeDone (lk_send k)) = 0" using assms(1) by (simp add: link_ok_def)
  then show "\<not> lk_blocked k" using ok(1) by (auto simp: sender_ok_def)
qed

lemma receiver_bounded:
  assumes "M < 2 ^ 31" and "link_ok M k" and "(receiver_step M ^^ n) k k'"
  shows "n + work k' \<le> work k \<and> link_ok M k'"
  using assms(3)
proof (induction n arbitrary: k')
  case 0
  then show ?case using assms(2) by simp
next
  case (Suc n)
  then obtain j where j: "(receiver_step M ^^ n) k j" "receiver_step M j k'" by (auto elim: relpowp_Suc_E)
  then have "n + work j \<le> work k" "link_ok M j" using Suc.IH by blast+
  moreover from this have "work k' < work j" "link_ok M k'"
    using receiver_step_works [OF j(2) assms(1)] receiver_step_ok [OF j(2) assms(1)] by blast+
  ultimately show ?case by simp
qed

section \<open>The connection as a whole\<close>

lemma opened_ok:
  assumes "(link_step M)\<^sup>*\<^sup>* link_New k" and "maximumSegmentSize * 30 \<le> M" and "M < 2 ^ 31"
  shows "link_ok M k"
  using link_runs_ok [OF assms(1,3)] New_ok [OF assms(2,3)] by blast

text \<open>The three steps of an arriving segment, with nothing in between, are a call of \<^verbatim>\<open>Write\<close>.\<close>

lemma uninterrupted_Write:
  assumes "lk_incoming k = Idle" and "lk_wire k = (p, part) # ws" and "size_in_range M ms (lk_recv k)"
    and "recv_Write ms p (of_nat (length p)) part (lk_recv k) = Some (r, report)"
  shows "(receiver_step M)\<^sup>*\<^sup>* k (k\<lparr>lk_wire := ws, lk_recv := r, lk_reports := lk_reports k @ opt_list report\<rparr>)"
proof -
  have "\<not> rw_closeOp (lk_recv k)"
  proof
    assume "rw_closeOp (lk_recv k)"
    then show False using assms(4) unfolding recv_Write_def by simp
  qed
  moreover obtain r1 x where c: "recv_check (of_nat (length p)) (calcSize ms (lk_recv k)) = (r1, x)" by fastforce
  moreover obtain e where e': "newListElement p (of_nat (length p)) part = Some e" by (simp add: newListElement_def)
  ultimately have "recv_Write ms p (of_nat (length p)) part (lk_recv k) = Some (recv_push e r1, x)"
    unfolding recv_Write_def by (simp only: if_False option.map c prod.case Let_def)
  then have e: "newListElement p (of_nat (length p)) part = Some e"
      "recv_check (of_nat (length p)) (calcSize ms (lk_recv k)) = (r1, report)" "r = recv_push e r1"
    using assms(4) c e' by (metis option.inject prod.inject)+
  from e(1) have l: "e_L e = of_nat (length p)" by (auto simp: newListElement_def split: if_splits)
  let ?k1 = "k\<lparr>lk_wire := ws, lk_incoming := Sized e, lk_recv := calcSize ms (lk_recv k)\<rparr>"
  let ?k2 = "?k1\<lparr>lk_incoming := Checked e report, lk_recv := r1\<rparr>"
  have "receiver_step M k ?k1" by (rule receiver_step.arrive [OF assms(1,2) e(1) assms(3)])
  moreover have "receiver_step M ?k1 ?k2" using receiver_step.check [of ?k1 e r1 report M] e(2) l by simp
  moreover have "receiver_step M ?k2 (k\<lparr>lk_wire := ws, lk_recv := r, lk_reports := lk_reports k @ opt_list report\<rparr>)"
  proof -
    have "receiver_step M ?k2 (?k2\<lparr>lk_incoming := Idle, lk_recv := recv_push e r1, lk_reports := lk_reports k @ opt_list report\<rparr>)"
      using receiver_step.push [of ?k2 e report M] by simp
    moreover have "?k2\<lparr>lk_incoming := Idle, lk_recv := recv_push e r1, lk_reports := lk_reports k @ opt_list report\<rparr>
        = k\<lparr>lk_wire := ws, lk_recv := r, lk_reports := lk_reports k @ opt_list report\<rparr>"
      using assms(1) e(3) by simp
    ultimately show ?thesis by metis
  qed
  ultimately show ?thesis by (meson converse_rtranclp_into_rtranclp rtranclp.rtrancl_refl)
qed

definition first_write :: link where
  "first_write = link_New\<lparr>lk_send := SetSendBuf [1, 2, 3] send_New\<rparr>"

definition first_segment :: link where
  "first_segment = first_write\<lparr>lk_send := \<lparr>sw_maxSizeDone = win_pack (of_nat (maximumSegmentSize * 30)) 3 False, sw_off = 3,
     sw_closeOp = False, sw_buf = [1, 2, 3]\<rparr>, lk_wire := [([1, 2, 3], False)], lk_sent := [1, 2, 3]\<rparr>"

lemma first_run: "(link_step M)\<^sup>*\<^sup>* link_New first_segment"
proof -
  have new: "link_step M link_New first_write"
    using link_step.write_starts [of link_New "[1, 2, 3]" M]
    by (simp add: first_write_def link_New_def WriteTo_def send_New_def)
  have pack: "win_unpack (win_pack (of_nat (maximumSegmentSize * 30)) 0 False) = (of_nat (maximumSegmentSize * 30), 0, False)"
    by (rule win_unpack_pack) (simp_all add: maximumSegmentSize_def)
  have "WriteTo (lk_send first_write) = Some (Segment [1, 2, 3] False (lk_send first_segment))"
    using pack by (simp add: first_segment_def first_write_def link_New_def WriteTo_def send_New_def SetSendBuf_def Let_def sent_def
        send_remainingSize_def mask31_def windowBits_def mask_eq_exp_minus_1 maximumSegmentSize_def)
  then have "link_step M first_write first_segment"
    using link_step.segment [of first_write _ _ _ M]
    by (fastforce simp: first_segment_def first_write_def link_New_def)
  with new show ?thesis by (meson converse_rtranclp_into_rtranclp rtranclp.rtrancl_refl)
qed






lemma receiver_can_end:
  assumes "M < 2 ^ 31" and "link_ok M k"
  shows "\<exists>n k'. (receiver_step M ^^ n) k k' \<and> (\<nexists>k''. receiver_step M k' k'')"
  using assms(2)
proof (induction k rule: measure_induct_rule [of work])
  case (less k)
  show ?case
  proof (cases "\<exists>j. receiver_step M k j")
    case True
    then obtain j where j: "receiver_step M k j" by blast
    obtain n k' where "(receiver_step M ^^ n) j k'" "\<nexists>k''. receiver_step M k' k''"
      using less.IH [of j] receiver_step_works [OF j assms(1)] receiver_step_ok [OF j assms(1)] less.prems by blast
    then show ?thesis using relpowp_Suc_I2 [of "receiver_step M", OF j] by blast
  next
    case False
    then have "(receiver_step M ^^ 0) k k \<and> (\<nexists>k''. receiver_step M k k'')" by simp
    then show ?thesis by blast
  qed
qed


end
