(* ===== verification/Nps_Conn.thy ===== *)
theory Nps_Conn
  imports Nps_Server
begin

text \<open>
  The messages between the tunnel server and its clients, \<^verbatim>\<open>nps-master/lib/conn/conn.go\<close>:
  flags of four characters, contents preceded by their length as a little-endian \<^verbatim>\<open>int32\<close>,
  objects as JSON and health reports. What a peer sends until it falls silent (closes, or lets the
  deadline pass) is a text; reading takes from its front, and fails when there is not enough.
\<close>

section \<open>Reading\<close>

definition read_full :: "nat \<Rightarrow> string \<Rightarrow> (string \<times> string) option" where
  "read_full n s = (if length s < n then None else Some (take n s, drop n s))"

definition GetShortContent :: "nat \<Rightarrow> string \<Rightarrow> (string \<times> string) option" where
  "GetShortContent l s = read_full l s"

definition ReadFlag :: "string \<Rightarrow> (string \<times> string) option" where
  "ReadFlag s = read_full 4 s"

definition int32_le :: "string \<Rightarrow> int" where
  "int32_le b = sint (be32 (rev (str_bytes b)))"

definition GetLen :: "string \<Rightarrow> (int \<times> string) option" where
  "GetLen s = map_option (\<lambda>(b, r). (int32_le b, r)) (read_full 4 s)"

definition GetShortLenContent :: "string \<Rightarrow> (string \<times> string) option" where
  "GetShortLenContent s =
     (case GetLen s of
        None \<Rightarrow> None
      | Some (l, r) \<Rightarrow> if l < 0 \<or> l > 32768 then None else GetShortContent (nat l) r)"

definition PoolSize :: nat where "PoolSize = 65536"

definition ReadLen :: "int \<Rightarrow> string \<Rightarrow> (string \<times> string) option" where
  "ReadLen cLen s = (if cLen > int PoolSize \<or> cLen \<le> 0 then None else read_full (nat cLen) s)"

definition GetHealthInfo :: "string \<Rightarrow> ((string \<times> bool) \<times> string) option" where
  "GetHealthInfo s =
     (case GetLen s of
        None \<Rightarrow> None
      | Some (l, r) \<Rightarrow>
          (case ReadLen l r of
             None \<Rightarrow> None
           | Some (buf, r1) \<Rightarrow>
               let arr = split_fields buf
               in if length arr \<ge> 2 then Some ((arr ! 0, GetBoolByStr (arr ! 1)), r1) else None))"

text \<open>
  \<^verbatim>\<open>getInfo\<close> decodes into a nil pointer and drops the decoder's error; its callers write to
  the object before they look at the error. So \<open>None\<close> stands for the nil pointer that is then
  used: nothing readable, a text that is no JSON, or null. It also stands for a value of a wrong type
  inside the object, of which the code keeps what it could decode; that case is not modelled.
\<close>

definition getInfo :: "(json \<Rightarrow> 'a option) \<Rightarrow> string \<Rightarrow> ('a \<times> string) option" where
  "getInfo of_js s =
     (case GetLen s of
        None \<Rightarrow> None
      | Some (l, r) \<Rightarrow>
          (case ReadLen l r of
             None \<Rightarrow> None
           | Some (buf, r1) \<Rightarrow>
               (case parse_json buf of
                  None \<Rightarrow> None
                | Some j \<Rightarrow> if j = JNull then None else map_option (\<lambda>x. (x, r1)) (of_js j))))"

definition GetHostInfo :: "string \<Rightarrow> db \<Rightarrow> ((host \<times> string) \<times> db) option" where
  "GetHostInfo s d =
     map_option (\<lambda>((h, _), r). let (n, d1) = GetHostId d
        in ((h\<lparr>h_Id := n, h_Flow := Some new_flow, h_NoStore := True\<rparr>, r), d1)) (getInfo host_of_json s)"

definition configured_client :: "npc \<Rightarrow> npc" where
  "configured_client c =
     (let c1 = c\<lparr>c_NoStore := True, c_Status := True\<rparr>;
          c2 = (if c_Flow c1 = None then c1\<lparr>c_Flow := Some new_flow\<rparr> else c1)
      in c2\<lparr>c_NoDisplay := False\<rparr>)"

definition GetConfigInfo :: "string \<Rightarrow> (npc \<times> string) option" where
  "GetConfigInfo s = map_option (\<lambda>(c, r). (configured_client c, r)) (getInfo (npc_of_json zero_npc) s)"

definition GetTaskInfo :: "string \<Rightarrow> db \<Rightarrow> ((tunnel \<times> string) \<times> db) option" where
  "GetTaskInfo s d =
     map_option (\<lambda>((t, _), r). let (n, d1) = GetTaskId d
        in ((t\<lparr>t_Id := n, t_NoStore := True, t_Flow := Some new_flow\<rparr>, r), d1)) (getInfo tunnel_of_json s)"

section \<open>Writing\<close>

definition len_text :: "string \<Rightarrow> string" where "len_text b = bytes_str (le32 (length b))"

definition GetLenBytes :: "string \<Rightarrow> string" where "GetLenBytes buf = len_text buf @ buf"

definition SendInfo :: "json \<Rightarrow> string \<Rightarrow> string" where
  "SendInfo t flag = flag @ GetLenBytes (print_json t)"

definition SendHealthInfo :: "string \<Rightarrow> string \<Rightarrow> string" where
  "SendHealthInfo info status = bytes_str (BinaryWrite [info, status])"

definition bool_byte :: "bool \<Rightarrow> string" where "bool_byte b = [if b then CHR 0x01 else CHR 0x00]"

section \<open>Reading what was written\<close>

lemma str_bytes_str [simp]: "str_bytes (bytes_str bs) = bs"
proof -
  have "(of_char (char_of (unat b)) :: byte) = b" for b :: byte
  proof -
    have "(of_char (char_of (unat b)) :: byte) = of_nat (of_char (char_of (unat b)))" by (rule of_nat_of_char [symmetric])
    also have "\<dots> = of_nat (unat b mod 256)" by (simp only: of_char_of)
    also have "\<dots> = b" using unsigned_less [of b, where ?'a = nat] by simp
    finally show ?thesis .
  qed
  then show ?thesis by (simp add: str_bytes_def bytes_str_def comp_def)
qed

lemma GetLen_text:
  assumes "n < 2 ^ 31"
  shows "GetLen (bytes_str (le32 n) @ r) = Some (int n, r)"
proof -
  have len: "length (bytes_str (le32 n)) = 4" by (simp add: bytes_str_def le32_def)
  then have "read_full 4 (bytes_str (le32 n) @ r) = Some (bytes_str (le32 n), r)" by (simp add: read_full_def)
  moreover have "int32_le (bytes_str (le32 n)) = int n"
    using assms by (simp add: int32_le_def le32_def signed_of_nat signed_take_bit_int_eq_self)
  ultimately show ?thesis by (simp add: GetLen_def)
qed

text \<open>Contents and health reports are read as they were written, and what follows them is left.\<close>

lemma GetShortLenContent_written: "length b \<le> 32768 \<Longrightarrow> GetShortLenContent (GetLenBytes b @ r) = Some (b, r)"
  by (simp add: GetShortLenContent_def GetLenBytes_def len_text_def GetLen_text GetShortContent_def read_full_def)

lemma GetHealthInfo_written:
  assumes "no_separator info" and "no_separator status" and "length info + length status + 6 \<le> PoolSize"
  shows "GetHealthInfo (SendHealthInfo info status @ r) = Some ((info, GetBoolByStr status), r)"
proof -
  let ?b = "GetWriteStr [info, status]"
  have l: "length ?b = length info + length status + 6" by (simp add: GetWriteStr_def CONN_DATA_SEQ_def)
  have "bytes_str (le32 (length ?b) @ str_bytes ?b) = bytes_str (le32 (length ?b)) @ ?b"
    by (simp add: bytes_str_def) (simp flip: bytes_str_def)
  then have "SendHealthInfo info status @ r = bytes_str (le32 (length ?b)) @ (?b @ r)"
    by (simp add: SendHealthInfo_def BinaryWrite_def Let_def str_bytes_def)
  moreover have "length ?b < 2 ^ 31" using assms(3) l by (simp add: PoolSize_def)
  ultimately have "GetLen (SendHealthInfo info status @ r) = Some (int (length ?b), ?b @ r)"
    using GetLen_text by simp
  moreover have "ReadLen (int (length ?b)) (?b @ r) = Some (?b, r)"
    using assms(3) l by (simp add: ReadLen_def read_full_def)
  moreover have "split_fields ?b = [info, status, []]" using split_fields_write [of "[info, status]"] assms by simp
  ultimately show ?thesis by (simp add: GetHealthInfo_def)
qed

interpretation contents: stream_codec GetLenBytes GetShortLenContent "\<lambda>b. length b \<le> 32768"
  by unfold_locales (rule GetShortLenContent_written)

definition report_ok :: "string \<times> bool \<Rightarrow> bool" where
  "report_ok r \<longleftrightarrow> no_separator (fst r) \<and> length (fst r) + 7 \<le> PoolSize"

interpretation reports: stream_codec "\<lambda>(info, status). SendHealthInfo info (GetStrByBool status)" GetHealthInfo report_ok
proof
  fix x :: "string \<times> bool" and rest
  assume ok: "report_ok x"
  obtain info status where x: "x = (info, status)" by (cases x)
  have flag: "no_separator (GetStrByBool status)" "length (GetStrByBool status) = 1" "GetBoolByStr (GetStrByBool status) = status"
    by (cases status; simp add: GetStrByBool_def GetBoolByStr_def no_separator_def CONN_DATA_SEQ_def starts_with_def)+
  then show "GetHealthInfo ((case x of (info, status) \<Rightarrow> SendHealthInfo info (GetStrByBool status)) @ rest) = Some (x, rest)"
    using ok GetHealthInfo_written [of info "GetStrByBool status" rest] by (simp add: x report_ok_def)
qed

lemma read_shorter: "read_full n s = Some (b, r) \<Longrightarrow> length r = length s - n \<and> n \<le> length s"
  by (auto simp: read_full_def split: if_splits)

lemma GetLen_shorter: "GetLen s = Some (l, r) \<Longrightarrow> length r < length s"
  by (auto simp: GetLen_def dest!: read_shorter)

lemma ReadFlag_shorter: "ReadFlag s = Some (l, r) \<Longrightarrow> length r < length s"
  by (auto simp: ReadFlag_def dest!: read_shorter)

lemma GetHealthInfo_shorter: "GetHealthInfo s = Some (x, r) \<Longrightarrow> length r < length s"
  by (auto simp: GetHealthInfo_def ReadLen_def Let_def split: option.splits prod.splits if_splits dest!: GetLen_shorter read_shorter)

lemma getInfo_shorter: "getInfo p s = Some (x, r) \<Longrightarrow> length r < length s"
  by (auto simp: getInfo_def ReadLen_def split: option.splits prod.splits if_splits dest!: GetLen_shorter read_shorter)

end
