(* ===== verification/Nps_Bridge.thy ===== *)
theory Nps_Bridge
  imports Nps_Conn
begin

text \<open>
  The bridge of the tunnel server, \<^verbatim>\<open>nps-master/bridge/bridge.go\<close>: the handshake of a
  client, the table of its signal, tunnel and file connections, health reports, the check of the table
  every five seconds, the way from a visitor to the client's tunnel, and the connection over which a
  client submits its configuration. A connection is a number and a text, what its peer sends; what is
  written to it and its closing are recorded in the state. A panic is \<open>None\<close>: the handlers
  recover from nothing, so it ends the process. The digest, the clock (in nanoseconds), the generator
  of keys and the outcome of opening a stream are arguments; failing writes are not modelled.
\<close>

section \<open>Connections\<close>

definition write_to :: "nat \<Rightarrow> string \<Rightarrow> nps \<Rightarrow> nps" where
  "write_to c text s = s\<lparr>n_written := n_written s @ [(c, text)]\<rparr>"

definition close_conn :: "nat \<Rightarrow> nps \<Rightarrow> nps" where
  "close_conn c s = s\<lparr>n_closed := n_closed s @ [c]\<rparr>"

definition WriteClose :: "nat \<Rightarrow> nps \<Rightarrow> nps" where "WriteClose c = write_to c ''clse''"

definition WriteAddOk :: "nat \<Rightarrow> nps \<Rightarrow> nps" where "WriteAddOk c = write_to c (bool_byte True)"

definition WriteAddFail :: "nat \<Rightarrow> nps \<Rightarrow> nps" where
  "WriteAddFail c s = close_conn c (write_to c (bool_byte False) s)"

definition verifyError :: "nat \<Rightarrow> nps \<Rightarrow> nps" where
  "verifyError c s = close_conn c (write_to c ''vkey'' s)"

definition verifySuccess :: "nat \<Rightarrow> nps \<Rightarrow> nps" where "verifySuccess c = write_to c ''sucs''"

definition bridge_NewClient :: "nat option \<Rightarrow> nat option \<Rightarrow> nat option \<Rightarrow> string \<Rightarrow> bridge_client" where
  "bridge_NewClient t f sig vs = \<lparr>bc_tunnel = t, bc_signal = sig, bc_file = f, bc_version = vs, bc_retry = 0\<rparr>"

section \<open>Health reports\<close>

definition IsArrContains :: "string list option \<Rightarrow> string \<Rightarrow> bool" where
  "IsArrContains arr val = (case arr of None \<Rightarrow> False | Some a \<Rightarrow> InStrArr a val)"

definition take_out :: "string \<Rightarrow> target \<Rightarrow> string list \<Rightarrow> target \<times> string list" where
  "take_out info tg removed =
     (let arr = (case tg_TargetArr tg of
                   None \<Rightarrow> TrimArr (split_on CHR 0x0A (tg_TargetStr tg))
                 | Some a \<Rightarrow> if length a = 0 \<and> length removed = 0 then TrimArr (split_on CHR 0x0A (tg_TargetStr tg)) else a)
      in (tg\<lparr>tg_TargetArr := Some (RemoveArrVal arr info)\<rparr>, removed @ [info]))"

definition put_back :: "string \<Rightarrow> target \<Rightarrow> string list \<Rightarrow> target \<times> string list" where
  "put_back info tg removed =
     (tg\<lparr>tg_TargetArr := Some ((case tg_TargetArr tg of None \<Rightarrow> [] | Some a \<Rightarrow> a) @ [info])\<rparr>, RemoveArrVal removed info)"

definition task_down :: "db \<Rightarrow> int \<Rightarrow> string \<Rightarrow> tunnel \<Rightarrow> tunnel option" where
  "task_down d i info v =
     (case t_Client v of
        None \<Rightarrow> None
      | Some r \<Rightarrow>
          if c_Id (client_at d r) = i \<and> t_Mode v = ''tcp'' then
            (case t_Target v of
               None \<Rightarrow> None
             | Some tg \<Rightarrow>
                 if Contains (tg_TargetStr tg) info then
                   (let (tg1, removed) = take_out info tg (h_removed (t_Health v))
                    in Some (v\<lparr>t_Target := Some tg1, t_Health := (t_Health v)\<lparr>h_removed := removed\<rparr>\<rparr>))
                 else Some v)
          else Some v)"

definition host_down :: "db \<Rightarrow> int \<Rightarrow> string \<Rightarrow> host \<Rightarrow> host option" where
  "host_down d i info v =
     (case h_Client v of
        None \<Rightarrow> None
      | Some r \<Rightarrow>
          if c_Id (client_at d r) = i then
            (case h_Target v of
               None \<Rightarrow> None
             | Some tg \<Rightarrow>
                 if Contains (tg_TargetStr tg) info then
                   (let (tg1, removed) = take_out info tg (h_removed (h_Health v))
                    in Some (v\<lparr>h_Target := Some tg1, h_Health := (h_Health v)\<lparr>h_removed := removed\<rparr>\<rparr>))
                 else Some v)
          else Some v)"

definition task_up :: "db \<Rightarrow> int \<Rightarrow> string \<Rightarrow> tunnel \<Rightarrow> tunnel option" where
  "task_up d i info v =
     (case t_Client v of
        None \<Rightarrow> None
      | Some r \<Rightarrow>
          if c_Id (client_at d r) = i \<and> t_Mode v = ''tcp'' \<and> InStrArr (h_removed (t_Health v)) info then
            (case t_Target v of
               None \<Rightarrow> None
             | Some tg \<Rightarrow>
                 if \<not> IsArrContains (tg_TargetArr tg) info then
                   (let (tg1, removed) = put_back info tg (h_removed (t_Health v))
                    in Some (v\<lparr>t_Target := Some tg1, t_Health := (t_Health v)\<lparr>h_removed := removed\<rparr>\<rparr>))
                 else Some v)
          else Some v)"

definition host_up :: "db \<Rightarrow> int \<Rightarrow> string \<Rightarrow> host \<Rightarrow> host option" where
  "host_up d i info v =
     (case h_Client v of
        None \<Rightarrow> None
      | Some r \<Rightarrow>
          if c_Id (client_at d r) = i \<and> InStrArr (h_removed (h_Health v)) info then
            (case h_Target v of
               None \<Rightarrow> None
             | Some tg \<Rightarrow>
                 if \<not> IsArrContains (tg_TargetArr tg) info then
                   (let (tg1, removed) = put_back info tg (h_removed (h_Health v))
                    in Some (v\<lparr>h_Target := Some tg1, h_Health := (h_Health v)\<lparr>h_removed := removed\<rparr>\<rparr>))
                 else Some v)
          else Some v)"

fun each_value :: "('v \<Rightarrow> 'v option) \<Rightarrow> ('k \<times> 'v) list \<Rightarrow> ('k \<times> 'v) list option" where
  "each_value f [] = Some []"
| "each_value f ((k, v) # kvs) =
     (case f v of
        None \<Rightarrow> None
      | Some v1 \<Rightarrow> map_option (\<lambda>r. (k, v1) # r) (each_value f kvs))"

definition health_report :: "int \<Rightarrow> string \<Rightarrow> bool \<Rightarrow> nps \<Rightarrow> nps option" where
  "health_report i info status s =
     (let d = n_db s
      in case each_value (if \<not> status then task_down d i info else task_up d i info) (db_tasks d) of
           None \<Rightarrow> None
         | Some ts \<Rightarrow>
             (case each_value (if \<not> status then host_down d i info else host_up d i info) (db_hosts d) of
                None \<Rightarrow> None
              | Some hs \<Rightarrow> Some (s\<lparr>n_db := d\<lparr>db_tasks := ts, db_hosts := hs\<rparr>\<rparr>)))"

text \<open>The loop ends when the connection does, and then removes the client, whichever connection it
  has by now.\<close>

function GetHealthFromClient :: "int \<Rightarrow> string \<Rightarrow> nps \<Rightarrow> nps option" where
  "GetHealthFromClient i input s =
     (case GetHealthInfo input of
        None \<Rightarrow> Some (Bridge_DelClient i s)
      | Some ((info, status), rest) \<Rightarrow> Option.bind (health_report i info status s) (GetHealthFromClient i rest))"
  by pat_completeness auto

termination by (relation "measure (\<lambda>(i, input, s). length input)") (auto dest: GetHealthInfo_shorter)

declare GetHealthFromClient.simps [simp del]

section \<open>A connection that has been verified\<close>

text \<open>What goes on after \<^verbatim>\<open>typeDeal\<close>: reading health reports or a configuration in a
  goroutine of its own, or handing the connection to the secret proxy.\<close>

datatype deal_next = Ended | Reads_health int string | Reads_config bool cref string | Asks_secret string string

definition requestClientLocalAddr :: "int \<Rightarrow> nat \<Rightarrow> string \<Rightarrow> nps \<Rightarrow> string \<times> nps" where
  "requestClientLocalAddr i c input s =
     (let s1 = write_to c ''rlip'' s
      in case GetShortLenContent input of
           None \<Rightarrow> (input, s1)
         | Some (b, rest) \<Rightarrow>
             let localAddr = TrimSpace b
             in (rest, if localAddr = [] then s1
                       else case db_GetClient i (n_db s1) of
                              None \<Rightarrow> s1
                            | Some r \<Rightarrow> s1\<lparr>n_db := set_client_at r ((client_at (n_db s1) r)\<lparr>c_LocalAddr := localAddr\<rparr>) (n_db s1)\<rparr>))"

definition deal_main :: "nat \<Rightarrow> int \<Rightarrow> string \<Rightarrow> string \<Rightarrow> nps \<Rightarrow> deal_next \<times> nps" where
  "deal_main c i vs input s =
     (if IsPubClient i (n_db s) then (Ended, close_conn c s)
      else let s1 = (case map_of (n_bridge s) i of
                       None \<Rightarrow> s\<lparr>n_bridge := AList.update i (bridge_NewClient None None (Some c) vs) (n_bridge s)\<rparr>
                     | Some cl \<Rightarrow>
                         let s2 = s\<lparr>n_bridge := AList.update i (cl\<lparr>bc_signal := Some c, bc_version := vs, bc_retry := 0\<rparr>) (n_bridge s)\<rparr>
                         in case bc_signal cl of None \<Rightarrow> s2 | Some k \<Rightarrow> WriteClose k s2);
               (rest, s3) = requestClientLocalAddr i c input s1
           in (Reads_health i rest, s3))"

definition deal_chan :: "nat \<Rightarrow> int \<Rightarrow> string \<Rightarrow> nps \<Rightarrow> nps" where
  "deal_chan c i vs s =
     (case map_of (n_bridge s) i of
        None \<Rightarrow> s\<lparr>n_bridge := AList.update i (bridge_NewClient (Some c) None None vs) (n_bridge s)\<rparr>
      | Some cl \<Rightarrow>
          let s1 = s\<lparr>n_bridge := AList.update i (cl\<lparr>bc_tunnel := Some c\<rparr>) (n_bridge s)\<rparr>
          in case bc_tunnel cl of None \<Rightarrow> s1 | Some k \<Rightarrow> close_conn k s1)"

definition deal_file :: "nat \<Rightarrow> int \<Rightarrow> string \<Rightarrow> nps \<Rightarrow> nps" where
  "deal_file c i vs s =
     (case map_of (n_bridge s) i of
        None \<Rightarrow> s\<lparr>n_bridge := AList.update i (bridge_NewClient None (Some c) None vs) (n_bridge s)\<rparr>
      | Some cl \<Rightarrow>
          let s1 = s\<lparr>n_bridge := AList.update i (cl\<lparr>bc_file := Some c\<rparr>) (n_bridge s)\<rparr>
          in case bc_file cl of None \<Rightarrow> s1 | Some k \<Rightarrow> close_conn k s1)"

definition deal_config :: "nat \<Rightarrow> int \<Rightarrow> string \<Rightarrow> nps \<Rightarrow> deal_next \<times> nps" where
  "deal_config c i input s =
     (let isPub = IsPubClient i (n_db s)
      in case db_GetClient i (n_db s) of
           None \<Rightarrow> (Ended, close_conn c s)
         | Some r \<Rightarrow>
             if \<not> isPub \<and> \<not> c_ConfigConnAllow (client_at (n_db s) r) then (Ended, close_conn c s)
             else (Reads_config isPub r input, write_to c (bool_byte isPub) s))"

text \<open>\<^verbatim>\<open>register\<close> writes down until when an address may use tunnels; the product of the hours
  is an \<^verbatim>\<open>int64\<close>.\<close>

definition hour_ns :: int where "hour_ns = 3600000000000"

definition bridge_register :: "int \<Rightarrow> string \<Rightarrow> string \<Rightarrow> nps \<Rightarrow> nps" where
  "bridge_register now addr input s =
     (case GetLen input of
        None \<Rightarrow> s
      | Some (hour, _) \<Rightarrow> s\<lparr>n_register := AList.update (GetIpByAddr addr) (now + as_int64 (hour_ns * hour)) (n_register s)\<rparr>)"

definition deal_p2p :: "(string \<Rightarrow> string) \<Rightarrow> string \<Rightarrow> nat \<Rightarrow> string \<Rightarrow> nps \<Rightarrow> nps option" where
  "deal_p2p md5 svrAddr c input s =
     (case GetShortContent 32 input of
        None \<Rightarrow> Some s
      | Some (b, _) \<Rightarrow>
          (case GetTaskByMd5Password md5 b (n_db s) of
             None \<Rightarrow> Some s
           | Some t \<Rightarrow>
               (case t_Client t of
                  None \<Rightarrow> None
                | Some r \<Rightarrow>
                    Some (case map_of (n_bridge s) (c_Id (client_at (n_db s) r)) of
                            None \<Rightarrow> s
                          | Some cl \<Rightarrow>
                              (case bc_signal cl of
                                 None \<Rightarrow> s
                               | Some sig \<Rightarrow>
                                   write_to c (GetLenBytes svrAddr) (write_to sig (GetLenBytes b)
                                     (write_to sig (GetLenBytes svrAddr) (write_to sig ''udpc'' s))))))))"

definition typeDeal :: "(string \<Rightarrow> string) \<Rightarrow> string \<Rightarrow> int \<Rightarrow> string \<Rightarrow> nat \<Rightarrow> string \<Rightarrow> int \<Rightarrow> string \<Rightarrow> string \<Rightarrow> nps
    \<Rightarrow> (deal_next \<times> nps) option" where
  "typeDeal md5 svrAddr now typeVal c addr i vs input s =
     (if typeVal = ''main'' then Some (deal_main c i vs input s)
      else if typeVal = ''chan'' then Some (Ended, deal_chan c i vs s)
      else if typeVal = ''conf'' then Some (deal_config c i input s)
      else if typeVal = ''rgst'' then Some (Ended, bridge_register now addr input s)
      else if typeVal = ''sert'' then
        Some (case GetShortContent 32 input of None \<Rightarrow> (Ended, s) | Some (b, rest) \<Rightarrow> (Asks_secret b rest, s))
      else if typeVal = ''file'' then Some (Ended, deal_file c i vs s)
      else if typeVal = ''p2pm'' then map_option (\<lambda>s1. (Ended, s1)) (deal_p2p md5 svrAddr c input s)
      else Some (Ended, s))"

section \<open>The handshake\<close>

definition cliProcess :: "(string \<Rightarrow> string) \<Rightarrow> string \<Rightarrow> string \<Rightarrow> int \<Rightarrow> nat \<Rightarrow> string \<Rightarrow> string \<Rightarrow> nps
    \<Rightarrow> (deal_next \<times> nps) option" where
  "cliProcess md5 ownVersion svrAddr now c addr input s =
     (case GetShortContent 3 input of
        None \<Rightarrow> Some (Ended, close_conn c s)
      | Some (_, i1) \<Rightarrow>
     (case GetShortLenContent i1 of
        None \<Rightarrow> Some (Ended, close_conn c s)
      | Some (_, i2) \<Rightarrow>
     (case GetShortLenContent i2 of
        None \<Rightarrow> Some (Ended, close_conn c s)
      | Some (vs, i3) \<Rightarrow>
          let s1 = write_to c (md5 ownVersion) s
          in case GetShortContent 32 i3 of
               None \<Rightarrow> Some (Ended, close_conn c s1)
             | Some (buf, i4) \<Rightarrow>
                 (case GetIdByVerifyKey md5 buf addr (n_db s1) of
                    (Inl _, _) \<Rightarrow> Some (Ended, verifyError c s1)
                  | (Inr i, d) \<Rightarrow>
                      let s2 = verifySuccess c (s1\<lparr>n_db := d\<rparr>)
                      in case ReadFlag i4 of
                           None \<Rightarrow> Some (Ended, close_conn c s2)
                         | Some (flag, i5) \<Rightarrow> typeDeal md5 svrAddr now flag c addr i vs i5 s2))))"

section \<open>Visitors\<close>

record visitor =
  v_Host :: string
  v_Crypt :: bool
  v_Compress :: bool
  v_LocalProxy :: bool
  v_RemoteAddr :: string

datatype link_error = Not_listed | Registration_over | Client_error | Not_opened | Not_connected

text \<open>\<open>opens\<close> says whether the client accepts the stream; a stream is reached by dialling, or is a
  new one of a tunnel, with the link's description written to it or (for files) not.\<close>

datatype link_target = Dialled string | Stream nat | Described nat

definition SendLinkInfo :: "bool \<Rightarrow> int \<Rightarrow> (nat \<Rightarrow> bool) \<Rightarrow> int \<Rightarrow> visitor \<Rightarrow> tunnel option \<Rightarrow> nps
    \<Rightarrow> (link_error + link_target) \<times> visitor" where
  "SendLinkInfo ipVerify now opens clientId ln t s =
     (if v_LocalProxy ln then (Inr (Dialled (v_Host ln)), ln)
      else case map_of (n_bridge s) clientId of
             None \<Rightarrow> (Inl Not_connected, ln)
           | Some cl \<Rightarrow>
               let refused = (if ipVerify then
                                (case map_of (n_register s) (GetIpByAddr (v_RemoteAddr ln)) of
                                   None \<Rightarrow> Some Not_listed
                                 | Some until \<Rightarrow> if \<not> until > now then Some Registration_over else None)
                              else None);
                   is_file = (t \<noteq> None \<and> t_Mode (the t) = ''file'');
                   tunnel = (if is_file then bc_file cl else bc_tunnel cl)
               in case refused of
                    Some e \<Rightarrow> (Inl e, ln)
                  | None \<Rightarrow>
                      (case tunnel of
                         None \<Rightarrow> (Inl Client_error, ln)
                       | Some k \<Rightarrow>
                           if \<not> opens k then (Inl Not_opened, ln)
                           else if is_file then (Inr (Stream k), ln\<lparr>v_Crypt := False, v_Compress := False\<rparr>)
                           else (Inr (Described k), ln)))"

section \<open>The check of the table\<close>

fun ping_check :: "(nat \<Rightarrow> bool) \<Rightarrow> (int \<times> bridge_client) list \<Rightarrow> (int \<times> bridge_client) list \<times> int list" where
  "ping_check closed [] = ([], [])"
| "ping_check closed ((i, v) # rest) =
     (let (entries, arr) = ping_check closed rest
      in case (bc_tunnel v, bc_signal v) of
           (Some k, Some _) \<Rightarrow> ((i, v) # entries, if closed k then i # arr else arr)
         | _ \<Rightarrow> let v1 = v\<lparr>bc_retry := bc_retry v + 1\<rparr>
                in ((i, v1) # entries, if sint (bc_retry v1) \<ge> 3 then i # arr else arr))"

definition bridge_ping :: "(nat \<Rightarrow> bool) \<Rightarrow> nps \<Rightarrow> nps" where
  "bridge_ping closed s =
     (let (entries, arr) = ping_check closed (n_bridge s)
      in fold Bridge_DelClient arr (s\<lparr>n_bridge := entries\<rparr>))"

section \<open>The connection of a configuration\<close>

text \<open>A flag is followed by its message. \<open>Conf_more\<close> has the client that the next messages are
  about, and what is left to read.\<close>

datatype conf_result = Conf_more cref string nps | Conf_end bool cref nps

definition conf_fail :: "nat \<Rightarrow> cref \<Rightarrow> nps \<Rightarrow> conf_result" where
  "conf_fail c client s = Conf_end True client (WriteAddFail c s)"

fun remarks_of :: "(string \<times> bool) option list \<Rightarrow> string option" where
  "remarks_of [] = Some []"
| "remarks_of (None # vs) = None"
| "remarks_of (Some (remark, listed) # vs) =
     map_option (\<lambda>r. (if listed then remark @ CONN_DATA_SEQ else []) @ r) (remarks_of vs)"

text \<open>The bridge was given the table of running tunnels by value, as it was when the bridge was made:
  that copy is the argument \<open>copied\<close>.\<close>

definition conf_status :: "(string \<Rightarrow> string) \<Rightarrow> (int \<times> service option) list \<Rightarrow> nat \<Rightarrow> cref \<Rightarrow> string \<Rightarrow> nps \<Rightarrow> conf_result option" where
  "conf_status md5 copied c client input s =
     (case GetShortContent 32 input of
        None \<Rightarrow> Some (Conf_end False client s)
      | Some (b, rest) \<Rightarrow>
          (case GetClientIdByVkey md5 b (n_db s) of
             Inl _ \<Rightarrow> Some (Conf_end False client s)
           | Inr i \<Rightarrow>
               map_option (\<lambda>str. Conf_more client rest (write_to c str (write_to c (len_text str) s)))
                 (remarks_of
                   (map (\<lambda>v. map_option (\<lambda>own. (h_Remark v, own)) (owner_is (n_db s) (h_Client v) i)) (map snd (db_hosts (n_db s)))
                    @ map (\<lambda>v. if map_of copied (t_Id v) = None then Some (t_Remark v, False)
                               else map_option (\<lambda>own. (t_Remark v, own)) (owner_is (n_db s) (t_Client v) i))
                        (map snd (db_tasks (n_db s)))))))"

definition conf_new_client :: "string list \<Rightarrow> nat \<Rightarrow> cref \<Rightarrow> string \<Rightarrow> nps \<Rightarrow> conf_result option" where
  "conf_new_client keys c client input s =
     (case GetConfigInfo input of
        None \<Rightarrow> None
      | Some (cl, rest) \<Rightarrow>
          (case db_NewClient keys cl (n_db s) of
             None \<Rightarrow> None
           | Some (Inl _, d) \<Rightarrow> Some (conf_fail c client (s\<lparr>n_db := d\<rparr>))
           | Some (Inr cl1, d) \<Rightarrow>
               Some (Conf_more (db_next (n_db s)) rest
                 ((write_to c (c_VerifyKey cl1) (WriteAddOk c (s\<lparr>n_db := d\<rparr>)))
                    \<lparr>n_bridge := AList.update (c_Id cl1) (bridge_NewClient None None None []) (n_bridge s)\<rparr>))))"

definition conf_new_host :: "nat \<Rightarrow> cref \<Rightarrow> string \<Rightarrow> nps \<Rightarrow> conf_result option" where
  "conf_new_host c client input s =
     (case GetHostInfo input (n_db s) of
        None \<Rightarrow> None
      | Some ((h0, rest), d) \<Rightarrow>
          let h1 = h0\<lparr>h_Client := Some client\<rparr>;
              h = (if h_Location h1 = [] then h1\<lparr>h_Location := ''/''\<rparr> else h1);
              s1 = s\<lparr>n_db := d\<rparr>
          in case HasHost (client_at d client) h d of
               None \<Rightarrow> None
             | Some True \<Rightarrow> Some (Conf_more client rest (WriteAddOk c s1))
             | Some False \<Rightarrow>
                 Some (if IsHostExist h d then conf_fail c client s1
                       else Conf_more client rest (WriteAddOk c (s1\<lparr>n_db := snd (NewHost h d)\<rparr>))))"

definition task_of_port :: "tunnel \<Rightarrow> cref \<Rightarrow> int list \<Rightarrow> int list \<Rightarrow> nat \<Rightarrow> int \<Rightarrow> tunnel option" where
  "task_of_port t client ports targets i n =
     (let nt = zero_tunnel\<lparr>t_Mode := t_Mode t, t_Port := ports ! i, t_ServerIp := t_ServerIp t\<rparr>;
          nt1 = (if length ports = 1 then Some (nt\<lparr>t_Target := t_Target t, t_Remark := t_Remark t\<rparr>)
                 else if length targets \<le> i then None
                 else let port = dec (nat (targets ! i))
                      in Some (nt\<lparr>t_Remark := t_Remark t @ ''_'' @ dec (nat (t_Port nt)),
                           t_Target := Some (zero_target\<lparr>tg_TargetStr :=
                             (if t_TargetAddr t \<noteq> [] then t_TargetAddr t @ '':'' @ port else port)\<rparr>)\<rparr>))
      in map_option (\<lambda>nt2. nt2\<lparr>t_Id := n, t_Status := True, t_Flow := Some new_flow, t_NoStore := True,
             t_Client := Some client, t_Password := t_Password t, t_LocalPath := t_LocalPath t,
             t_StripPre := t_StripPre t, t_MultiAccount := t_MultiAccount t\<rparr>) nt1)"

definition is_hidden :: "tunnel \<Rightarrow> bool" where
  "is_hidden t \<longleftrightarrow> t_Mode t = ''secret'' \<or> t_Mode t = ''p2p''"

fun conf_add_ports :: "nps_env \<Rightarrow> nat \<Rightarrow> cref \<Rightarrow> tunnel \<Rightarrow> int list \<Rightarrow> int list \<Rightarrow> nat list \<Rightarrow> string \<Rightarrow> nps \<Rightarrow> conf_result option" where
  "conf_add_ports env c client t ports targets [] rest s = Some (Conf_more client rest s)"
| "conf_add_ports env c client t ports targets (i # is) rest s =
     (let (n, d) = GetTaskId (n_db s); s1 = s\<lparr>n_db := d\<rparr>
      in case task_of_port t client ports targets i n of
           None \<Rightarrow> None
         | Some nt \<Rightarrow>
             (case HasTunnel (client_at d client) nt d of
                None \<Rightarrow> None
              | Some True \<Rightarrow> conf_add_ports env c client t ports targets is rest (WriteAddOk c s1)
              | Some False \<Rightarrow>
                  (case NewTask nt d of
                     (Some _, d1) \<Rightarrow> Some (conf_fail c client (s1\<lparr>n_db := d1\<rparr>))
                   | (None, d1) \<Rightarrow>
                       let s2 = s1\<lparr>n_db := d1\<rparr>
                       in if \<not> TestServerPort env (t_Port nt) (t_Mode nt) \<and> \<not> is_hidden t then Some (conf_fail c client s2)
                          else conf_add_ports env c client t ports targets is rest
                                 (WriteAddOk c (s2\<lparr>n_open_task := n_open_task s2 @ [t_Id nt]\<rparr>)))))"

definition conf_new_task :: "nps_env \<Rightarrow> nat \<Rightarrow> cref \<Rightarrow> string \<Rightarrow> nps \<Rightarrow> conf_result option" where
  "conf_new_task env c client input s =
     (case GetTaskInfo input (n_db s) of
        None \<Rightarrow> None
      | Some ((t, rest), d) \<Rightarrow>
          (case t_Target t of
             None \<Rightarrow> None
           | Some tg \<Rightarrow>
               let s1 = s\<lparr>n_db := d\<rparr>; ports = GetPorts (t_Ports t); targets = GetPorts (tg_TargetStr tg)
               in if length ports > 1 \<and> (t_Mode t = ''tcp'' \<or> t_Mode t = ''udp'') \<and> length ports \<noteq> length targets
                  then Some (conf_fail c client s1)
                  else let ports1 = (if is_hidden t then ports @ [0] else ports)
                       in if length ports1 = 0 then Some (conf_fail c client s1)
                          else conf_add_ports env c client t ports1 targets [0..<length ports1] rest s1))"

definition conf_step :: "(string \<Rightarrow> string) \<Rightarrow> (int \<times> service option) list \<Rightarrow> nps_env \<Rightarrow> nat \<Rightarrow> cref \<Rightarrow> string \<Rightarrow> nps \<Rightarrow> conf_result option" where
  "conf_step md5 copied env c client input s =
     (case ReadFlag input of
        None \<Rightarrow> Some (Conf_end False client s)
      | Some (flag, rest) \<Rightarrow>
          if flag = ''stus'' then conf_status md5 copied c client rest s
          else if flag = ''conf'' then conf_new_client (e_keys env) c client rest s
          else if flag = ''host'' then conf_new_host c client rest s
          else if flag = ''task'' then conf_new_task env c client rest s
          else Some (Conf_more client rest s))"

lemma conf_add_ports_rest:
  "conf_add_ports env c client t ports targets is rest s = Some (Conf_more r input s') \<Longrightarrow> r = client \<and> input = rest"
  by (induction env c client t ports targets "is" rest s rule: conf_add_ports.induct)
    (auto simp: Let_def conf_fail_def split: option.splits bool.splits prod.splits if_splits)

lemma conf_step_shorter:
  assumes "conf_step md5 copied env c client input s = Some (Conf_more r rest s')"
  shows "length rest < length input"
proof -
  obtain flag i where f: "ReadFlag input = Some (flag, i)" using assms by (auto simp: conf_step_def split: option.splits)
  have "length rest \<le> length i"
    using assms f
    by (auto simp: conf_step_def conf_status_def conf_new_client_def conf_new_host_def conf_new_task_def conf_fail_def Let_def
        GetConfigInfo_def GetHostInfo_def GetTaskInfo_def GetShortContent_def
        split: option.splits bool.splits sum.splits prod.splits if_splits
        dest!: read_shorter getInfo_shorter conf_add_ports_rest)
  then show ?thesis using ReadFlag_shorter [OF f] by simp
qed

function conf_loop :: "(string \<Rightarrow> string) \<Rightarrow> (int \<times> service option) list \<Rightarrow> nps_env \<Rightarrow> nat \<Rightarrow> cref \<Rightarrow> string \<Rightarrow> nps \<Rightarrow> (bool \<times> cref \<times> nps) option" where
  "conf_loop md5 copied env c client input s =
     (case conf_step md5 copied env c client input s of
        None \<Rightarrow> None
      | Some (Conf_end fail r s1) \<Rightarrow> Some (fail, r, s1)
      | Some (Conf_more r rest s1) \<Rightarrow> conf_loop md5 copied env c r rest s1)"
  by pat_completeness auto

termination by (relation "measure (\<lambda>(md5, copied, env, c, client, input, s). length input)") (auto dest: conf_step_shorter)

declare conf_loop.simps [simp del]

definition getConfig :: "(string \<Rightarrow> string) \<Rightarrow> (int \<times> service option) list \<Rightarrow> nps_env \<Rightarrow> nat \<Rightarrow> cref \<Rightarrow> string \<Rightarrow> nps \<Rightarrow> nps option" where
  "getConfig md5 copied env c client input s =
     map_option (\<lambda>(fail, r, s1). close_conn c (if fail then Bridge_DelClient (c_Id (client_at (n_db s1) r)) s1 else s1))
       (conf_loop md5 copied env c client input s)"

end
