(* ===== verification/Nps_Bridge_Properties.thy ===== *)
theory Nps_Bridge_Properties
  imports Nps_Bridge
begin

text \<open>
  What the bridge guarantees, and where it does not: who gets past the handshake, what the check of
  the table removes, how a failed target comes back, where a visitor is led, and what a
  configuration can overwrite.
\<close>

section \<open>The handshake\<close>

definition sent_key :: "string \<Rightarrow> string option" where
  "sent_key input =
     Option.bind (GetShortContent 3 input) (\<lambda>(_, i1).
     Option.bind (GetShortLenContent i1) (\<lambda>(_, i2).
     Option.bind (GetShortLenContent i2) (\<lambda>(_, i3). map_option fst (GetShortContent 32 i3))))"

lemma GetIdByVerifyKey_none:
  assumes "\<forall>x \<in> set (clients_of d). c_Status x \<longrightarrow> md5 (c_VerifyKey x) \<noteq> k"
  shows "GetIdByVerifyKey md5 k addr d = (Inl NotFound, d)"
proof -
  have "List.find (\<lambda>(_, r). md5 (c_VerifyKey (client_at d r)) = k \<and> c_Status (client_at d r)) (db_clients d) = None"
    using assms by (auto simp: find_None_iff clients_of_def)
  then show ?thesis by (simp add: GetIdByVerifyKey_def)
qed

text \<open>C33: Whoever does not know the digest of the key of an enabled client gets nothing out of the
  bridge but the digest of its version and a refusal: the connection is closed, nothing goes on with
  it, and database, connected clients, registered addresses and tunnels are as before.\<close>

theorem bridge_admits_key_holders:
  assumes "\<And>k x. sent_key input = Some k \<Longrightarrow> x \<in> set (clients_of (n_db s)) \<Longrightarrow> c_Status x \<Longrightarrow> md5 (c_VerifyKey x) \<noteq> k"
  shows "\<exists>texts. set texts \<subseteq> {md5 ver, ''vkey''} \<and> cliProcess md5 ver svr now c addr input s
    = Some (Ended, s\<lparr>n_closed := n_closed s @ [c], n_written := n_written s @ map (Pair c) texts\<rparr>)"
proof -
  have fin: "?thesis" if "set texts \<subseteq> {md5 ver, ''vkey''}" and "cliProcess md5 ver svr now c addr input s
      = Some (Ended, s\<lparr>n_closed := n_closed s @ [c], n_written := n_written s @ map (Pair c) texts\<rparr>)" for texts
    using that by blast
  note simps = cliProcess_def close_conn_def write_to_def verifyError_def Let_def
  show ?thesis
  proof (cases "GetShortContent 3 input")
    case None
    then show ?thesis by (intro fin [of "[]"]) (simp_all add: simps)
  next
    case (Some a)
    then obtain b i1 where 1: "GetShortContent 3 input = Some (b, i1)" by (cases a) auto
    show ?thesis
    proof (cases "GetShortLenContent i1")
      case None
      then show ?thesis using 1 by (intro fin [of "[]"]) (simp_all add: simps)
    next
      case (Some a)
      then obtain b i2 where 2: "GetShortLenContent i1 = Some (b, i2)" by (cases a) auto
      show ?thesis
      proof (cases "GetShortLenContent i2")
        case None
        then show ?thesis using 1 2 by (intro fin [of "[]"]) (simp_all add: simps)
      next
        case (Some a)
        then obtain vs i3 where 3: "GetShortLenContent i2 = Some (vs, i3)" by (cases a) auto
        show ?thesis
        proof (cases "GetShortContent 32 i3")
          case None
          then show ?thesis using 1 2 3 by (intro fin [of "[md5 ver]"]) (simp_all add: simps)
        next
          case (Some a)
          then obtain k i4 where 4: "GetShortContent 32 i3 = Some (k, i4)" by (cases a) auto
          have "sent_key input = Some k" using 1 2 3 4 by (simp add: sent_key_def)
          then have "GetIdByVerifyKey md5 k addr (n_db s) = (Inl NotFound, n_db s)"
            using assms by (intro GetIdByVerifyKey_none) blast
          then show ?thesis using 1 2 3 4 by (intro fin [of "[md5 ver, ''vkey'']"]) (simp_all add: simps)
        qed
      qed
    qed
  qed
qed

definition one_client :: db where
  "one_client = store_new_client ((npc_NewClient ''k'' False False)\<lparr>c_Id := 1\<rparr>) (NewJsonDb concat ''d'' (\<lambda>_. None))"

definition quiet_nps :: "(int \<times> bridge_client) list \<Rightarrow> nps" where
  "quiet_nps b = \<lparr>n_db = one_client, n_run = [], n_bridge = b, n_register = [], n_open_task = [], n_close_client = [],
     n_closed = [], n_written = []\<rparr>"

lemma quiet_clients: "clients_of (n_db (quiet_nps b)) = [(npc_NewClient ''k'' False False)\<lparr>c_Id := 1\<rparr>]"
  by (simp add: quiet_nps_def one_client_def store_new_client_def clients_of_def client_at_def NewJsonDb_def)

theorem bridge_admits_key_holders_witness:
  "\<exists>texts. set texts \<subseteq> {''2.0'', ''vkey''} \<and> cliProcess (\<lambda>x. x) ''2.0'' ''s'' 0 5 ''a'' (''TST'' @ GetLenBytes ''1'' @ GetLenBytes ''1'' @ replicate 32 CHR ''a'') (quiet_nps [])
    = Some (Ended, (quiet_nps [])\<lparr>n_closed := n_closed (quiet_nps []) @ [5], n_written := n_written (quiet_nps []) @ map (Pair 5) texts\<rparr>)"
proof -
  have "length k = 32" if "sent_key input = Some k" for input k
    using that by (auto simp: sent_key_def GetShortContent_def read_full_def split: Option.bind_splits if_splits)
  then have "k \<noteq> ''k''" if "sent_key input = Some k" for input k
    using that by fastforce
  then have "c_VerifyKey x \<noteq> k" if "sent_key input = Some k" "x \<in> set (clients_of (n_db (quiet_nps [])))" for input k x
    using that by (auto simp: quiet_clients npc_NewClient_def)
  then show ?thesis
    using bridge_admits_key_holders [of "''TST'' @ GetLenBytes ''1'' @ GetLenBytes ''1'' @ replicate 32 CHR ''a''" "quiet_nps []" "\<lambda>x. x" "''2.0''" "''s''" 0 5 "''a''"]
    by blast
qed

text \<open>Whoever does is let in, and the connection goes where its flag says.\<close>

lemma key_holder_admitted:
  assumes "length t = 3" and "length a \<le> 32768" "length vs \<le> 32768" and "length key = 32" and "length flag = 4"
    and "GetIdByVerifyKey md5 key addr (n_db s) = (Inr i, d)"
  shows "cliProcess md5 ver svr now c addr (t @ GetLenBytes a @ GetLenBytes vs @ key @ flag @ rest) s
    = typeDeal md5 svr now flag c addr i vs rest (verifySuccess c ((write_to c (md5 ver) s)\<lparr>n_db := d\<rparr>))"
proof -
  have "n_db (write_to c (md5 ver) s) = n_db s" by (simp add: write_to_def)
  moreover have "GetShortContent 3 (t @ r) = Some (t, r)" for r using assms(1) by (simp add: GetShortContent_def read_full_def)
  moreover have "GetShortContent 32 (key @ r) = Some (key, r)" for r using assms(4) by (simp add: GetShortContent_def read_full_def)
  moreover have "ReadFlag (flag @ rest) = Some (flag, rest)" using assms(5) by (simp add: ReadFlag_def read_full_def)
  ultimately show ?thesis
    using contents.get_put [OF assms(2)] contents.get_put [OF assms(3)] assms(6) by (simp add: cliProcess_def Let_def)
qed

section \<open>The check of the table\<close>

definition after_check :: "(nat \<Rightarrow> bool) \<Rightarrow> bridge_client \<Rightarrow> bridge_client option" where
  "after_check closed v =
     (case (bc_tunnel v, bc_signal v) of
        (Some k, Some _) \<Rightarrow> if closed k then None else Some v
      | _ \<Rightarrow> let v1 = v\<lparr>bc_retry := bc_retry v + 1\<rparr> in if sint (bc_retry v1) \<ge> 3 then None else Some v1)"

lemma ping_check_domain: "map fst (fst (ping_check closed es)) = map fst es \<and> set (snd (ping_check closed es)) \<subseteq> fst ` set es"
  by (induction es) (auto simp: Let_def split: option.splits prod.splits if_splits)

lemma ping_check_lookup:
  assumes "distinct (map fst es)" and "map_of es i = Some v"
  shows "(if i \<in> set (snd (ping_check closed es)) then None else map_of (fst (ping_check closed es)) i) = after_check closed v"
  using assms
proof (induction es)
  case (Cons e es)
  obtain j w where e: "e = (j, w)" by (cases e)
  obtain entries arr where r: "ping_check closed es = (entries, arr)" by (cases "ping_check closed es")
  have arr: "set arr \<subseteq> fst ` set es" using ping_check_domain [of closed es] r by simp
  show ?case
  proof (cases "j = i")
    case True
    then have "v = w" "i \<notin> set arr" using Cons.prems e arr by auto
    then show ?thesis using e r True by (auto simp: after_check_def Let_def split: option.splits)
  next
    case False
    have "distinct (map fst es)" "map_of es i = Some v" using Cons.prems e False by auto
    from Cons.IH [OF this] have "(if i \<in> set arr then None else map_of entries i) = after_check closed v"
      by (simp only: r fst_conv snd_conv)
    then show ?thesis using e r False by (auto simp: Let_def split: option.splits if_splits)
  qed
qed simp

lemma Bridge_DelClient_bridge: "n_bridge (Bridge_DelClient i s) = AList.delete i (n_bridge s)"
proof (cases "map_of (n_bridge s) i")
  case None
  then have "AList.delete i (n_bridge s) = n_bridge s" by (simp add: delete_id map_of_eq_None_iff)
  then show ?thesis using None by (simp add: Bridge_DelClient_def)
next
  case (Some cl)
  then show ?thesis by (auto simp: Bridge_DelClient_def Let_def split: option.splits)
qed

lemma fold_DelClient_lookup:
  "map_of (n_bridge (fold Bridge_DelClient is s)) i = (if i \<in> set is then None else map_of (n_bridge s) i)"
  by (induction "is" arbitrary: s) (auto simp: Bridge_DelClient_bridge delete_conv)

text \<open>C34: The check that runs every five seconds removes exactly the clients that are gone: a client
  whose tunnel has closed, and one that has had no tunnel or no signal connection at three checks; a
  client with both stays as it is, any other is counted once more.\<close>

theorem check_removes_dead_clients:
  assumes "distinct (map fst (n_bridge s))" and "map_of (n_bridge s) i = Some v"
  shows "map_of (n_bridge (bridge_ping closed s)) i = after_check closed v"
  using ping_check_lookup [OF assms, of closed] by (auto simp: bridge_ping_def fold_DelClient_lookup case_prod_beta)

theorem check_removes_dead_clients_witness:
  "map_of (n_bridge (bridge_ping (\<lambda>k. k = 7) (quiet_nps [(1, bridge_NewClient (Some 7) None (Some 8) ''v''), (2, bridge_NewClient (Some 6) None (Some 9) ''v'')]))) 1 = None
    \<and> after_check (\<lambda>k. k = 7) (bridge_NewClient (Some 7) None (Some 8) ''v'') = None"
  using check_removes_dead_clients [of "quiet_nps [(1, bridge_NewClient (Some 7) None (Some 8) ''v''), (2, bridge_NewClient (Some 6) None (Some 9) ''v'')]"
      1 "bridge_NewClient (Some 7) None (Some 8) ''v''" "\<lambda>k. k = 7"]
  by (simp add: quiet_nps_def after_check_def bridge_NewClient_def)

section \<open>Visitors\<close>

text \<open>A visitor is led only into a stream of the tunnel's own client, which is connected, and, where
  addresses have to be registered, only while its address is.\<close>

lemma SendLinkInfo_own_client:
  assumes "SendLinkInfo ipVerify now opens i ln t s = (Inr tgt, ln1)" and "\<not> v_LocalProxy ln"
  shows "\<exists>cl k. map_of (n_bridge s) i = Some cl \<and> opens k
    \<and> (tgt = Stream k \<and> bc_file cl = Some k \<or> tgt = Described k \<and> bc_tunnel cl = Some k)
    \<and> (ipVerify \<longrightarrow> (\<exists>until. map_of (n_register s) (GetIpByAddr (v_RemoteAddr ln)) = Some until \<and> now < until))"
  using assms by (auto simp: SendLinkInfo_def Let_def split: option.splits if_splits)

section \<open>Health reports\<close>

lemma each_value_lookup:
  "each_value f kvs = Some kvs' \<Longrightarrow> map_of kvs' k = Option.bind (map_of kvs k) f"
proof (induction kvs arbitrary: kvs')
  case (Cons e kvs)
  then show ?case by (cases e) (auto split: option.splits)
qed simp

lemma health_report_task:
  assumes "health_report i info status s = Some s1" and "map_of (db_tasks (n_db s)) j = Some v"
  shows "\<exists>v1. (if status then task_up else task_down) (n_db s) i info v = Some v1 \<and> map_of (db_tasks (n_db s1)) j = Some v1"
proof -
  obtain ts where ts: "each_value (if \<not> status then task_down (n_db s) i info else task_up (n_db s) i info) (db_tasks (n_db s)) = Some ts"
      "db_tasks (n_db s1) = ts"
    using assms(1) by (auto simp: health_report_def Let_def split: option.splits)
  have "\<exists>x. f v = Some x" if "each_value f kvs = Some ts" "map_of kvs j = Some v" for f and kvs :: "(int \<times> tunnel) list" and ts
    using that
  proof (induction kvs arbitrary: ts)
    case (Cons e kvs)
    then show ?case by (cases e) (auto split: option.splits if_splits)
  qed simp
  from this [OF ts(1) assms(2)] each_value_lookup [OF ts(1), of j] show ?thesis
    using assms(2) ts(2) by auto
qed

lemma health_report_heap: "health_report i info status s = Some s1 \<Longrightarrow> client_at (n_db s1) = client_at (n_db s)"
  by (auto simp: health_report_def Let_def client_at_def fun_eq_iff split: option.splits)

text \<open>The reports a client sends one after the other are those the loop works through; then the client
  is removed.\<close>

lemma reports_worked_through:
  assumes "list_all report_ok rs" and "GetHealthInfo rest = None"
  shows "GetHealthFromClient i (concat (map (\<lambda>(info, status). SendHealthInfo info (GetStrByBool status)) rs) @ rest) s
    = map_option (Bridge_DelClient i) (fold (\<lambda>(info, status) x. Option.bind x (health_report i info status)) rs (Some s))"
  using assms(1)
proof (induction rs arbitrary: s)
  case Nil
  then show ?case using assms(2) by (simp add: GetHealthFromClient.simps)
next
  case (Cons r rs)
  have none: "fold (\<lambda>(info, status) x. Option.bind x (health_report i info status)) rs None = None" for rs
    by (induction rs) auto
  obtain info status where r: "r = (info, status)" by (cases r)
  have "report_ok (info, status)" using Cons.prems r by simp
  from reports.get_put [OF this]
  have "GetHealthInfo (SendHealthInfo info (GetStrByBool status) @ x) = Some ((info, status), x)" for x by simp
  then show ?case
    using Cons none r by (subst GetHealthFromClient.simps) (cases "health_report i info status s"; simp)
qed

text \<open>A target that is reported as failed gets no visitors, and is one of the targets again when it is
  reported as working.\<close>

lemma failed_target_out_and_back:
  assumes v: "map_of (db_tasks (n_db s)) j = Some v" "t_Client v = Some r" "c_Id (client_at (n_db s) r) = i" "t_Mode v = ''tcp''"
    and tg: "t_Target v = Some tg" "tg_TargetArr tg = Some arr" "distinct arr" "info \<in> set arr" "Contains (tg_TargetStr tg) info"
    and down: "health_report i info False s = Some s1"
  shows "\<exists>v1 tg1. map_of (db_tasks (n_db s1)) j = Some v1 \<and> t_Target v1 = Some tg1 \<and> info \<notin> set (targets_of tg1)"
    and "health_report i info True s1 = Some s2 \<Longrightarrow>
      \<exists>v2 tg2. map_of (db_tasks (n_db s2)) j = Some v2 \<and> t_Target v2 = Some tg2 \<and> mset (targets_of tg2) = mset arr"
proof -
  have ne: "arr \<noteq> []" using tg(4) by auto
  define tg1 where "tg1 = tg\<lparr>tg_TargetArr := Some (remove1 info arr)\<rparr>"
  define v1 where "v1 = v\<lparr>t_Target := Some tg1, t_Health := (t_Health v)\<lparr>h_removed := h_removed (t_Health v) @ [info]\<rparr>\<rparr>"
  have "task_down (n_db s) i info v = Some v1"
    using v tg ne by (simp add: task_down_def take_out_def v1_def tg1_def RemoveArrVal_remove1)
  then have 1: "map_of (db_tasks (n_db s1)) j = Some v1" using health_report_task [OF down v(1)] by auto
  then show "\<exists>v1 tg1. map_of (db_tasks (n_db s1)) j = Some v1 \<and> t_Target v1 = Some tg1 \<and> info \<notin> set (targets_of tg1)"
    using tg(3) by (auto simp: v1_def tg1_def targets_of_def)
  assume up: "health_report i info True s1 = Some s2"
  define tg2 where "tg2 = tg1\<lparr>tg_TargetArr := Some (remove1 info arr @ [info])\<rparr>"
  have "InStrArr (h_removed (t_Health v1)) info" by (simp add: v1_def InArr_iff)
  moreover have "\<not> IsArrContains (tg_TargetArr tg1) info" using tg(3) by (simp add: tg1_def IsArrContains_def InArr_iff)
  moreover have "t_Client v1 = Some r" "t_Mode v1 = ''tcp''" "t_Target v1 = Some tg1" using v by (simp_all add: v1_def)
  ultimately have "\<exists>v2. task_up (n_db s1) i info v1 = Some v2 \<and> t_Target v2 = Some tg2"
    using v(3) health_report_heap [OF down] by (simp add: task_up_def put_back_def tg2_def tg1_def)
  then have "\<exists>v2. map_of (db_tasks (n_db s2)) j = Some v2 \<and> t_Target v2 = Some tg2"
    using health_report_task [OF up 1] by auto
  moreover have "mset (targets_of tg2) = mset arr" using tg(4) by (simp add: tg2_def targets_of_def)
  ultimately show "\<exists>v2 tg2. map_of (db_tasks (n_db s2)) j = Some v2 \<and> t_Target v2 = Some tg2 \<and> mset (targets_of tg2) = mset arr"
    by blast
qed

text \<open>The report is compared with the targets as a part of their text. One about a target that merely
  occurs in it, as 10.0.0.1:80 does in 10.0.0.1:8080, leaves an address behind that was never
  configured and becomes a target when it is reported as working.\<close>

lemma foreign_target_added:
  assumes "t_Client v = Some r" "c_Id (client_at d r) = i" "t_Mode v = ''tcp''"
    and "t_Target v = Some tg" "tg_TargetArr tg = Some arr" "arr \<noteq> []" "info \<notin> set arr" "Contains (tg_TargetStr tg) info"
  shows "\<exists>v1 v2. task_down d i info v = Some v1 \<and> task_up d i info v1 = Some v2 \<and> map_option targets_of (t_Target v2) = Some (arr @ [info])"
  using assms
  by (simp add: task_down_def take_out_def task_up_def put_back_def RemoveArrVal_remove1 remove1_idem InArr_iff IsArrContains_def targets_of_def)

section \<open>Reconnecting\<close>

text \<open>C35: When a client connects again while its old connection is still in the table, the new one is
  entered and the old one told to close; but as soon as the old one ends, the loop that read health
  reports from it removes the client: the new connection is closed as well and the table has no entry
  for the client.\<close>

theorem reconnect_is_undone:
  assumes "map_of (n_bridge s) i = Some cl" and "bc_signal cl = Some k" and "\<not> IsPubClient i (n_db s)"
    and "typeDeal md5 svr now ''main'' c addr i vs input s = Some (nxt, s1)"
    and "GetHealthFromClient i [] s1 = Some s2"
  shows "map_option bc_signal (map_of (n_bridge s1) i) = Some (Some c) \<and> (k, ''clse'') \<in> set (n_written s1)
    \<and> map_of (n_bridge s2) i = None \<and> c \<in> set (n_closed s2)"
proof -
  have "(nxt, s1) = deal_main c i vs input s" using assms(4) by (simp add: typeDeal_def)
  then have s1: "map_of (n_bridge s1) i = Some (cl\<lparr>bc_signal := Some c, bc_version := vs, bc_retry := 0\<rparr>)"
      "(k, ''clse'') \<in> set (n_written s1)"
    using assms(1-3)
    by (auto simp: deal_main_def requestClientLocalAddr_def write_to_def WriteClose_def Let_def update_conv split: option.splits if_splits prod.splits)
  have "GetHealthInfo [] = None" by (simp add: GetHealthInfo_def GetLen_def read_full_def)
  then have s2: "s2 = Bridge_DelClient i s1" using assms(5) by (simp add: GetHealthFromClient.simps)
  then have "map_of (n_bridge s2) i = None" by (simp add: Bridge_DelClient_bridge delete_conv)
  moreover have "c \<in> set (n_closed s2)"
    using s1(1) by (auto simp: s2 Bridge_DelClient_def Let_def split: option.splits)
  ultimately show ?thesis using s1 by simp
qed

theorem reconnect_is_undone_witness:
  "\<exists>s1 s2. typeDeal (\<lambda>x. x) ''s'' 0 ''main'' 9 ''a'' 1 ''v'' [] (quiet_nps [(1, bridge_NewClient (Some 7) None (Some 8) ''v'')]) = Some (Reads_health 1 [], s1)
    \<and> GetHealthFromClient 1 [] s1 = Some s2 \<and> map_of (n_bridge s2) 1 = None \<and> 9 \<in> set (n_closed s2)"
proof -
  let ?s = "quiet_nps [(1, bridge_NewClient (Some 7) None (Some 8) ''v'')]"
  have start: "map_of (n_bridge ?s) 1 = Some (bridge_NewClient (Some 7) None (Some 8) ''v'')" by (simp add: quiet_nps_def)
  have sig: "bc_signal (bridge_NewClient (Some 7) None (Some 8) ''v'') = Some 8" by (simp add: bridge_NewClient_def)
  have pub: "\<not> IsPubClient 1 (n_db ?s)"
    by (simp add: quiet_nps_def IsPubClient_def one_client_def store_new_client_def db_GetClient_def client_at_def NewJsonDb_def npc_NewClient_def zero_npc_def)
  have "GetShortLenContent [] = None" by (simp add: GetShortLenContent_def GetLen_def read_full_def)
  then obtain s1 where main: "typeDeal (\<lambda>x. x) ''s'' 0 ''main'' 9 ''a'' 1 ''v'' [] ?s = Some (Reads_health 1 [], s1)"
    using pub by (simp add: typeDeal_def deal_main_def requestClientLocalAddr_def Let_def)
  have "GetHealthInfo [] = None" by (simp add: GetHealthInfo_def GetLen_def read_full_def)
  then obtain s2 where last: "GetHealthFromClient 1 [] s1 = Some s2" by (simp add: GetHealthFromClient.simps)
  show ?thesis using reconnect_is_undone [OF start sig pub main last] main last by blast
qed

section \<open>Configurations\<close>

text \<open>C36: A client that may submit a configuration can replace any other client: when the object of a
  new client has a number, and a key no client of another number has, the client with that number,
  whoever it belongs to, is replaced by the submitted one, which is not stored in the file, and its
  connections are dropped from the table.\<close>

theorem new_configuration_replaces_client:
  assumes "GetConfigInfo input = Some (cl, rest)" and "c_Id cl = i" and "i \<noteq> 0"
    and "c_VerifyKey cl \<noteq> []" and "c_WebUserName cl = []" and "VerifyVkey (c_VerifyKey cl) i (n_db s)"
  shows "\<exists>r s1. conf_step md5 copied env c own (''conf'' @ input) s = Some (Conf_more r rest s1)
    \<and> db_GetClient i (n_db s1) = Some r \<and> r = db_next (n_db s)
    \<and> c_VerifyKey (client_at (n_db s1) r) = c_VerifyKey cl \<and> c_NoStore (client_at (n_db s1) r)
    \<and> map_of (n_bridge s1) i = Some (bridge_NewClient None None None [])"
proof -
  let ?c1 = "new_rate cl" and ?d = "n_db s"
  have same: "c_Id ?c1 = i" "c_VerifyKey ?c1 = c_VerifyKey cl" "c_NoStore ?c1 = c_NoStore cl" "c_Flow ?c1 = c_Flow cl"
    using assms(2) by (simp_all add: new_rate_def)
  have conf: "c_NoStore cl" "c_Flow cl \<noteq> None"
    using assms(1) by (auto simp: GetConfigInfo_def configured_client_def Let_def split: if_splits)
  have "insert_client ?c1 ?d = (?c1, StoreClientsToJsonFile (store_new_client ?c1 ?d))"
    using assms(3) same conf(2) by (auto simp: insert_client_def Let_def)
  then have new: "db_NewClient (e_keys env) cl ?d = Some (Inr ?c1, StoreClientsToJsonFile (store_new_client ?c1 ?d))"
    using assms(4-6) same by (simp add: db_NewClient_def Let_def)
  have flag: "ReadFlag (''conf'' @ input) = Some (''conf'', input)" by (simp add: ReadFlag_def read_full_def)
  let ?s1 = "(write_to c (c_VerifyKey ?c1) (WriteAddOk c (s\<lparr>n_db := StoreClientsToJsonFile (store_new_client ?c1 ?d)\<rparr>)))
      \<lparr>n_bridge := AList.update i (bridge_NewClient None None None []) (n_bridge s)\<rparr>"
  have "conf_step md5 copied env c own (''conf'' @ input) s = Some (Conf_more (db_next ?d) rest ?s1)"
    unfolding conf_step_def flag by (simp add: conf_new_client_def assms(1) new same(1))
  moreover have "n_db ?s1 = StoreClientsToJsonFile (store_new_client ?c1 ?d)" by (simp add: write_to_def WriteAddOk_def)
  ultimately show ?thesis
    using same conf(1)
    by (simp add: StoreClientsToJsonFile_def store_new_client_def db_GetClient_def client_at_def update_conv)
qed

definition stolen :: json where
  "stolen = JObj [(''Id'', to_js_int 1), (''VerifyKey'', JStr ''x'')]"

theorem new_configuration_replaces_client_witness:
  "\<exists>r s1. conf_step (\<lambda>x. x) [] \<lparr>e_ports = [], e_free = \<lambda>_ _. True, e_public_vkey = [], e_keys = []\<rparr> 9 5 (''conf'' @ GetLenBytes (print_json stolen)) (quiet_nps [])
      = Some (Conf_more r [] s1)
    \<and> db_GetClient 1 (n_db (quiet_nps [])) = Some 0 \<and> db_GetClient 1 (n_db s1) = Some r \<and> c_VerifyKey (client_at (n_db s1) r) = ''x''"
proof -
  let ?text = "GetLenBytes (print_json stolen)"
  let ?c = "configured_client (zero_npc\<lparr>c_Id := 1, c_VerifyKey := ''x''\<rparr>)"
  have len: "length (print_json stolen) = 24" by code_simp
  have reads: "npc_of_json zero_npc stolen = Some (zero_npc\<lparr>c_Id := 1, c_VerifyKey := ''x''\<rparr>)" by code_simp
  have "valid_utf8 ''Id''" "valid_utf8 ''VerifyKey''" "valid_utf8 ''x''" by code_simp+
  then have "json_ok stolen" by (auto simp: stolen_def to_js_int_def)
  then have "parse_json (print_json stolen) = Some stolen" by (rule parse_json_print)
  moreover have "GetLen ?text = Some (24, print_json stolen)"
    using GetLen_text [of 24 "print_json stolen"] len by (simp add: GetLenBytes_def len_text_def)
  moreover have "ReadLen 24 (print_json stolen) = Some (print_json stolen, [])"
    using len by (simp add: ReadLen_def read_full_def PoolSize_def)
  moreover have "stolen \<noteq> JNull" by (simp add: stolen_def)
  ultimately have input: "GetConfigInfo ?text = Some (?c, [])" using reads by (simp add: GetConfigInfo_def getInfo_def)
  have fields: "c_Id ?c = 1" "(1 :: int) \<noteq> 0" "c_VerifyKey ?c \<noteq> []" "c_WebUserName ?c = []" "c_VerifyKey ?c = ''x''"
    by (simp_all add: configured_client_def zero_npc_def)
  have "VerifyVkey (c_VerifyKey ?c) 1 (n_db (quiet_nps []))"
    unfolding VerifyVkey_def quiet_clients by (simp add: npc_NewClient_def)
  moreover have "db_GetClient 1 (n_db (quiet_nps [])) = Some 0"
    by (simp add: quiet_nps_def one_client_def store_new_client_def db_GetClient_def NewJsonDb_def)
  ultimately show ?thesis
    using new_configuration_replaces_client [OF input fields(1-4)] fields(5) by metis
qed

text \<open>A message that is cut short, or has a length out of range, leaves a nil pointer that is used at
  once; the goroutine does not recover from that, and the whole server ends.\<close>

lemma truncated_configuration_crashes:
  assumes "flag = ''conf'' \<or> flag = ''host'' \<or> flag = ''task''" and "length rest < 4"
  shows "getConfig md5 copied env c own (flag @ rest) s = None"
proof -
  have "ReadFlag (flag @ rest) = Some (flag, rest)" using assms(1) by (auto simp: ReadFlag_def read_full_def)
  moreover have "getInfo p rest = None" for p :: "json \<Rightarrow> 'a option" using assms(2) by (simp add: getInfo_def GetLen_def read_full_def)
  ultimately have "conf_step md5 copied env c own (flag @ rest) s = None"
    using assms by (auto simp: conf_step_def conf_new_client_def conf_new_host_def conf_new_task_def GetConfigInfo_def GetHostInfo_def
        GetTaskInfo_def getInfo_def GetLen_def read_full_def)
  then show ?thesis by (simp add: getConfig_def conf_loop.simps)
qed

text \<open>The bridge's copy of the table of running tunnels is empty, since the bridge is made before any
  tunnel is started: the answer about a client's state lists its hosts only.\<close>

lemma remarks_of_unlisted: "remarks_of (xs @ map (\<lambda>v. Some (f v, False)) vs) = remarks_of xs"
  by (induction xs rule: remarks_of.induct) (simp_all, induction vs, simp_all add: option.map_id0)

lemma status_lists_no_tunnel:
  assumes "GetShortContent 32 input = Some (b, rest)" and "GetClientIdByVkey md5 b (n_db s) = Inr i"
  shows "conf_status md5 [] c own input s =
     map_option (\<lambda>str. Conf_more own rest (write_to c str (write_to c (len_text str) s)))
       (remarks_of (map (\<lambda>v. map_option (\<lambda>own. (h_Remark v, own)) (owner_is (n_db s) (h_Client v) i)) (map snd (db_hosts (n_db s)))))"
  using assms by (simp add: conf_status_def remarks_of_unlisted del: map_map)

end
