(* ===== verification/Health_Check.thy ===== *)
theory Health_Check
  imports Nps_Bridge_Properties
begin

text \<open>
  The health checks of a tunnel client, \<^verbatim>\<open>nps-master/client/health.go\<close> with the heap of
  \<^verbatim>\<open>lib/sheap/heap.go\<close>, and their effect at the bridge: which targets get visitors. Whether a
  target answers is an argument. Times are nanoseconds since 1970; the readings of the clock within one
  round are one argument.
\<close>

section \<open>The code\<close>

text \<open>The map of a health section is nil until it is made; writing to it then is a panic.\<close>

record checked =
  hc_cfg :: health
  hc_map :: "(string \<times> int) list option"
  hc_next :: int

definition fails_of :: "checked \<Rightarrow> string \<Rightarrow> int" where
  "fails_of t v = (case hc_map t of None \<Rightarrow> 0 | Some m \<Rightarrow> (case map_of m v of None \<Rightarrow> 0 | Some n \<Rightarrow> n))"

definition set_fails :: "string \<Rightarrow> int \<Rightarrow> checked \<Rightarrow> checked option" where
  "set_fails v n t = map_option (\<lambda>m. t\<lparr>hc_map := Some (AList.update v n m)\<rparr>) (hc_map t)"

text \<open>The remainder by zero is a panic too.\<close>

definition check_target :: "bool \<Rightarrow> string \<Rightarrow> checked \<Rightarrow> ((string \<times> bool) list \<times> checked) option" where
  "check_target answers v t =
     Option.bind
       (if \<not> answers then map_option (Pair []) (set_fails v (fails_of t v + 1) t)
        else if fails_of t v \<ge> h_max_fail (hc_cfg t) then map_option (Pair [(v, True)]) (set_fails v 0 t)
        else Some ([], t))
       (\<lambda>(out, t1).
         if fails_of t1 v > 0 \<and> h_max_fail (hc_cfg t1) = 0 then None
         else Some (if fails_of t1 v > 0 \<and> fails_of t1 v mod h_max_fail (hc_cfg t1) = 0 then out @ [(v, False)] else out, t1))"

fun check_targets :: "(string \<Rightarrow> bool) \<Rightarrow> string list \<Rightarrow> checked \<Rightarrow> ((string \<times> bool) list \<times> checked) option" where
  "check_targets answers [] t = Some ([], t)"
| "check_targets answers (v # arr) t =
     (case check_target (answers v) v t of
        None \<Rightarrow> None
      | Some (out, t1) \<Rightarrow> map_option (\<lambda>(out2, t2). (out @ out2, t2)) (check_targets answers arr t1))"

definition health_check :: "(string \<Rightarrow> bool) \<Rightarrow> checked \<Rightarrow> ((string \<times> bool) list \<times> checked) option" where
  "health_check answers t = check_targets answers (split_on CHR '','' (h_target (hc_cfg t))) t"

definition unix_of :: "int \<Rightarrow> int" where "unix_of t = t div 1000000000"

definition after_interval :: "int \<Rightarrow> checked \<Rightarrow> int" where
  "after_interval now v = now + h_interval (hc_cfg v) * 1000000000"

fun schedule :: "int \<Rightarrow> checked list \<Rightarrow> checked list \<times> int list" where
  "schedule now [] = ([], [])"
| "schedule now (v # vs) =
     (let (vs1, h) = schedule now vs
      in if h_max_fail (hc_cfg v) > 0 \<and> h_timeout (hc_cfg v) > 0 \<and> h_interval (hc_cfg v) > 0
         then (v\<lparr>hc_next := after_interval now v, hc_map := Some []\<rparr> # vs1, insort (unix_of (after_interval now v)) h)
         else (v # vs1, h))"

definition heathCheck :: "bool \<Rightarrow> int \<Rightarrow> checked list \<Rightarrow> checked list \<times> int list option" where
  "heathCheck isStart now healths =
     (if isStart then (map (\<lambda>v. v\<lparr>hc_map := Some []\<rparr>) healths, None)
      else let (vs, h) = schedule now healths in (vs, Some h))"

text \<open>What a timer that has fired finds due; the checks themselves run in goroutines of their own.\<close>

fun due :: "int \<Rightarrow> checked list \<Rightarrow> checked list \<times> checked list \<times> int list" where
  "due woke [] = ([], [], [])"
| "due woke (v # vs) =
     (let (vs1, checks, times) = due woke vs
      in if hc_next v < woke
         then (let v1 = v\<lparr>hc_next := after_interval woke v\<rparr> in (v1 # vs1, v1 # checks, unix_of (hc_next v1) # times))
         else (v # vs1, checks, times))"

text \<open>A round of \<^verbatim>\<open>session\<close>: \<open>None\<close> when the heap is empty and the loop ends; the heap is the
  sorted list of its times.\<close>

definition session_round :: "int \<Rightarrow> int \<Rightarrow> checked list \<times> int list \<Rightarrow> (checked list \<times> (checked list \<times> int list)) option" where
  "session_round now woke s =
     (case snd s of
        [] \<Rightarrow> None
      | t # h \<Rightarrow>
          if t - unix_of now \<le> 0 then Some ([], (fst s, h))
          else (let (vs, checks, times) = due woke (fst s) in Some (checks, (vs, fold insort times h))))"

section \<open>Reports and targets\<close>

fun probe_run :: "bool list \<Rightarrow> string \<Rightarrow> checked \<Rightarrow> ((string \<times> bool) list \<times> checked) option" where
  "probe_run [] v t = Some ([], t)"
| "probe_run (b # bs) v t =
     (case check_target b v t of
        None \<Rightarrow> None
      | Some (out, t1) \<Rightarrow> map_option (\<lambda>(out2, t2). (out @ out2, t2)) (probe_run bs v t1))"

fun reported_task :: "db \<Rightarrow> int \<Rightarrow> (string \<times> bool) list \<Rightarrow> tunnel \<Rightarrow> tunnel option" where
  "reported_task d i [] v = Some v"
| "reported_task d i ((info, status) # rs) v =
     Option.bind (if status then task_up d i info v else task_down d i info v) (reported_task d i rs)"

lemma reported_task_append: "reported_task d i (rs @ rs') v = Option.bind (reported_task d i rs v) (reported_task d i rs')"
  by (induction d i rs v rule: reported_task.induct) (auto simp: Option.bind_eq_Some_conv split: Option.bind_split)

definition watched :: "db \<Rightarrow> int \<Rightarrow> string \<Rightarrow> bool \<Rightarrow> tunnel \<Rightarrow> bool" where
  "watched d i info serves v \<longleftrightarrow> (\<exists>r tg arr. t_Client v = Some r \<and> c_Id (client_at d r) = i \<and> t_Mode v = ''tcp''
     \<and> t_Target v = Some tg \<and> tg_TargetArr tg = Some arr \<and> distinct arr \<and> Contains (tg_TargetStr tg) info
     \<and> (serves \<longleftrightarrow> info \<in> set arr) \<and> (\<not> serves \<longrightarrow> info \<in> set (h_removed (t_Health v))))"

lemma task_down_watched:
  assumes "watched d i info serves v"
  shows "\<exists>v1. task_down d i info v = Some v1 \<and> watched d i info False v1"
proof -
  obtain r tg arr where v: "t_Client v = Some r" "c_Id (client_at d r) = i" "t_Mode v = ''tcp''" "t_Target v = Some tg"
      "tg_TargetArr tg = Some arr" "distinct arr" "Contains (tg_TargetStr tg) info"
      "serves \<longleftrightarrow> info \<in> set arr" "\<not> serves \<longrightarrow> info \<in> set (h_removed (t_Health v))"
    using assms unfolding watched_def by blast
  have "\<not> (length arr = 0 \<and> length (h_removed (t_Health v)) = 0)" using v(8,9) by auto
  then have "task_down d i info v = Some (v\<lparr>t_Target := Some (tg\<lparr>tg_TargetArr := Some (remove1 info arr)\<rparr>),
      t_Health := (t_Health v)\<lparr>h_removed := h_removed (t_Health v) @ [info]\<rparr>\<rparr>)"
    using v by (auto simp: task_down_def take_out_def RemoveArrVal_remove1)
  then show ?thesis using v by (auto simp: watched_def)
qed

lemma task_up_watched:
  assumes "watched d i info False v"
  shows "\<exists>v1. task_up d i info v = Some v1 \<and> watched d i info True v1"
proof -
  obtain r tg arr where v: "t_Client v = Some r" "c_Id (client_at d r) = i" "t_Mode v = ''tcp''" "t_Target v = Some tg"
      "tg_TargetArr tg = Some arr" "distinct arr" "Contains (tg_TargetStr tg) info"
      "info \<notin> set arr" "info \<in> set (h_removed (t_Health v))"
    using assms unfolding watched_def by blast
  then have "task_up d i info v = Some (v\<lparr>t_Target := Some (tg\<lparr>tg_TargetArr := Some (arr @ [info])\<rparr>),
      t_Health := (t_Health v)\<lparr>h_removed := RemoveArrVal (h_removed (t_Health v)) info\<rparr>\<rparr>)"
    by (simp add: task_up_def put_back_def InArr_iff IsArrContains_def)
  then show ?thesis using v by (auto simp: watched_def)
qed

lemma fails_of_set: "hc_map t = Some m \<Longrightarrow> set_fails v n t = Some (t\<lparr>hc_map := Some (AList.update v n m)\<rparr>)
    \<and> fails_of (t\<lparr>hc_map := Some (AList.update v n m)\<rparr>) v = n"
  by (simp add: set_fails_def fails_of_def update_conv)

lemma check_target_watched:
  assumes "hc_map t = Some m" and "h_max_fail (hc_cfg t) = M" and "0 < M" and "0 \<le> fails_of t info"
    and "watched d i info (fails_of t info < M) v"
  shows "\<exists>out t1 m1 v1. check_target b info t = Some (out, t1) \<and> hc_map t1 = Some m1 \<and> h_max_fail (hc_cfg t1) = M
    \<and> 0 \<le> fails_of t1 info \<and> reported_task d i out v = Some v1 \<and> watched d i info (fails_of t1 info < M) v1"
proof -
  let ?n = "fails_of t info"
  let ?t = "\<lambda>n. t\<lparr>hc_map := Some (AList.update info n m)\<rparr>"
  have t: "set_fails info n t = Some (?t n)" "fails_of (?t n) info = n" for n using fails_of_set [OF assms(1)] by blast+
  consider (fails) "\<not> b" | (recovers) "b" "?n \<ge> M" | (works) "b" "?n < M" by linarith
  then show ?thesis
  proof cases
    case fails
    let ?out = "if (?n + 1) mod M = 0 then [(info, False)] else []"
    have step: "check_target b info t = Some (?out, ?t (?n + 1))"
      using fails assms(2-4) t by (simp add: check_target_def)
    show ?thesis
    proof (cases "(?n + 1) mod M = 0")
      case True
      then have "M \<le> ?n + 1" using assms(3,4) zdvd_imp_le [of M "?n + 1"] by (simp add: mod_eq_0_iff_dvd)
      moreover obtain v1 where "task_down d i info v = Some v1" "watched d i info False v1"
        using task_down_watched [OF assms(5)] by blast
      ultimately show ?thesis using step True t(2) assms(2,4) by simp
    next
      case False
      have "?n + 1 < M \<longleftrightarrow> ?n < M" using False assms(3) by (cases "?n + 1 = M") auto
      then show ?thesis using step False t(2) assms(2,4,5) by simp
    qed
  next
    case recovers
    then have "check_target b info t = Some ([(info, True)], ?t 0)" using t by (simp add: check_target_def assms(2))
    moreover obtain v1 where "task_up d i info v = Some v1" "watched d i info True v1"
      using task_up_watched assms(5) recovers by fastforce
    ultimately show ?thesis using t(2) assms(2,3) by simp
  next
    case works
    have "\<not> (0 < ?n \<and> ?n mod M = 0)" using works assms(3,4) by (auto simp: mod_pos_pos_trivial)
    then have "check_target b info t = Some ([], t)" using works assms(2,3) by (auto simp: check_target_def)
    then show ?thesis using assms by simp
  qed
qed

lemma probe_run_watched:
  assumes "hc_map t = Some m" and "h_max_fail (hc_cfg t) = M" and "0 < M" and "0 \<le> fails_of t info"
    and "watched d i info (fails_of t info < M) v"
  shows "\<exists>out t1 v1. probe_run bs info t = Some (out, t1) \<and> reported_task d i out v = Some v1 \<and> watched d i info (fails_of t1 info < M) v1"
  using assms
proof (induction bs arbitrary: t m v)
  case (Cons b bs)
  obtain out t1 m1 v1 where 1: "check_target b info t = Some (out, t1)" "hc_map t1 = Some m1" "h_max_fail (hc_cfg t1) = M"
      "0 \<le> fails_of t1 info" "reported_task d i out v = Some v1" "watched d i info (fails_of t1 info < M) v1"
    using check_target_watched [OF Cons.prems] by blast
  obtain out2 t2 v2 where "probe_run bs info t1 = Some (out2, t2)" "reported_task d i out2 v1 = Some v2" "watched d i info (fails_of t2 info < M) v2"
    using Cons.IH [OF 1(2-3) Cons.prems(3) 1(4,6)] by blast
  then show ?case using 1 by (simp add: reported_task_append)
qed simp


definition probed :: checked where
  "probed = \<lparr>hc_cfg = no_health\<lparr>h_max_fail := 2\<rparr>, hc_map = Some [], hc_next = 0\<rparr>"

definition two_targets :: tunnel where
  "two_targets = zero_tunnel\<lparr>t_Mode := ''tcp'', t_Client := Some 0,
     t_Target := Some (zero_target\<lparr>tg_TargetStr := ''a:1'' @ [CHR 0x0A] @ ''b:1'', tg_TargetArr := Some [''a:1'', ''b:1'']\<rparr>)\<rparr>"


section \<open>What goes wrong\<close>

text \<open>Failures need not follow each other: a target that answers in between is reported all the same.\<close>

lemma failures_add_up: "map_option fst (probe_run [False, True, False] ''a:1'' probed) = Some [(''a:1'', False)]"
  by (simp add: probed_def check_target_def set_fails_def fails_of_def no_health_def)

text \<open>A section without limits is not scheduled, but as its next time is the zero time it is due whenever
  another one is, and its map was never made.\<close>

lemma unscheduled_check_panics:
  assumes "hc_map t = None" and "\<not> answers (hd (split_on CHR '','' (h_target (hc_cfg t))))"
  shows "health_check answers t = None"
  using assms by (cases "split_on CHR '','' (h_target (hc_cfg t))")
    (simp_all add: health_check_def check_target_def set_fails_def)

text \<open>A timer counts whole seconds between two times that are cut to seconds. When the clock passes a
  second between setting the next time and reading the clock again, the timer fires before anything is
  due, nothing is put back on the heap, and the session ends.\<close>

lemma session_stops:
  assumes "unix_of now < u" and "woke \<le> hc_next v"
  shows "session_round now woke ([v], [u]) = Some ([], ([v], [])) \<and> session_round now' woke' ([v], []) = None"
  using assms by (simp add: session_round_def)

end
