(* ===== verification/Client_Hello.thy ===== *)
theory Client_Hello
  imports Go_Strings
begin

text \<open>
  The TLS hello of a visitor, from which the tunnel server takes the name of the host it wants:
  \<^verbatim>\<open>nps-master/lib/crypt/clientHello.go\<close> and \<^verbatim>\<open>GetServerNameFromClientHello\<close> of
  \<^verbatim>\<open>nps-master/server/proxy/https.go\<close>. The bytes come from anyone. Every index and slice is
  checked as in Go: \<open>None\<close> is a panic, \<open>Some None\<close> the result false.
\<close>

section \<open>The code\<close>

definition statusTypeOCSP :: byte where "statusTypeOCSP = 1"
definition extensionServerName :: u16 where "extensionServerName = 0"
definition extensionStatusRequest :: u16 where "extensionStatusRequest = 5"
definition extensionSupportedCurves :: u16 where "extensionSupportedCurves = 10"
definition extensionSupportedPoints :: u16 where "extensionSupportedPoints = 11"
definition extensionSignatureAlgorithms :: u16 where "extensionSignatureAlgorithms = 13"
definition extensionALPN :: u16 where "extensionALPN = 16"
definition extensionSCT :: u16 where "extensionSCT = 18"
definition extensionSessionTicket :: u16 where "extensionSessionTicket = 35"
definition extensionNextProtoNeg :: u16 where "extensionNextProtoNeg = 13172"
definition extensionRenegotiationInfo :: u16 where "extensionRenegotiationInfo = 0xff01"
definition scsvRenegotiation :: u16 where "scsvRenegotiation = 0x00ff"

lemmas extension_defs = extensionServerName_def extensionStatusRequest_def extensionSupportedCurves_def
  extensionSupportedPoints_def extensionSignatureAlgorithms_def extensionALPN_def extensionSCT_def
  extensionSessionTicket_def extensionNextProtoNeg_def extensionRenegotiationInfo_def

record client_hello =
  ch_raw :: "byte list"
  ch_vers :: u16
  ch_random :: "byte list"
  ch_sessionId :: "byte list"
  ch_cipherSuites :: "u16 list"
  ch_compressionMethods :: "byte list"
  ch_nextProtoNeg :: bool
  ch_serverName :: string
  ch_ocspStapling :: bool
  ch_scts :: bool
  ch_supportedCurves :: "u16 list"
  ch_supportedPoints :: "byte list"
  ch_ticketSupported :: bool
  ch_sessionTicket :: "byte list"
  ch_supportedSignatureAlgorithms :: "u16 list"
  ch_secureRenegotiation :: "byte list"
  ch_secureRenegotiationSupported :: bool
  ch_alpnProtocols :: "string list"

definition new_hello :: client_hello where
  "new_hello = \<lparr>ch_raw = [], ch_vers = 0, ch_random = [], ch_sessionId = [], ch_cipherSuites = [], ch_compressionMethods = [],
     ch_nextProtoNeg = False, ch_serverName = [], ch_ocspStapling = False, ch_scts = False, ch_supportedCurves = [],
     ch_supportedPoints = [], ch_ticketSupported = False, ch_sessionTicket = [], ch_supportedSignatureAlgorithms = [],
     ch_secureRenegotiation = [], ch_secureRenegotiationSupported = False, ch_alpnProtocols = []\<rparr>"

text \<open>\<^verbatim>\<open>d[i]<<8 | d[i+1]\<close>, and \<^verbatim>\<open>d[n:]\<close>.\<close>

definition word_at :: "byte list \<Rightarrow> nat \<Rightarrow> u16 option" where
  "word_at d i = do { a \<leftarrow> go_index d i; b \<leftarrow> go_index d (Suc i); Some (be16 [a, b]) }"

definition from_on :: "byte list \<Rightarrow> nat \<Rightarrow> byte list option" where
  "from_on d n = go_slice d n (length d)"

fun read_words :: "nat \<Rightarrow> byte list \<Rightarrow> u16 list option" where
  "read_words 0 d = Some []"
| "read_words (Suc n) d = do { w \<leftarrow> word_at d 0; d1 \<leftarrow> from_on d 2; ws \<leftarrow> read_words n d1; Some (w # ws) }"

function server_names :: "byte list \<Rightarrow> client_hello \<Rightarrow> client_hello option option" where
  "server_names d m =
     (if \<not> length d > 0 then Some (Some m)
      else if length d < 3 then Some None
      else case (go_index d 0, word_at d 1, from_on d 3) of
             (Some nameType, Some nl, Some d1) \<Rightarrow>
               (let nameLen = unat nl
                in if length d1 < nameLen then Some None
                   else if nameType = 0 then
                     (case go_slice d1 0 nameLen of
                        None \<Rightarrow> None
                      | Some nm \<Rightarrow>
                          let m1 = m\<lparr>ch_serverName := bytes_str nm\<rparr>
                          in if ch_serverName m1 \<noteq> [] \<and> last (ch_serverName m1) = CHR ''.'' then Some None else Some (Some m1))
                   else case from_on d1 nameLen of None \<Rightarrow> None | Some d2 \<Rightarrow> server_names d2 m)
           | _ \<Rightarrow> None)"
  by pat_completeness auto

termination by (relation "measure (length \<circ> fst)") (auto simp: from_on_def go_slice_def split: if_splits)

declare server_names.simps [simp del]

function alpn_protocols :: "byte list \<Rightarrow> client_hello \<Rightarrow> client_hello option option" where
  "alpn_protocols d m =
     (if \<not> length d \<noteq> 0 then Some (Some m)
      else case (go_index d 0, from_on d 1) of
             (Some l, Some d1) \<Rightarrow>
               (let stringLen = unat l
                in if stringLen = 0 \<or> stringLen > length d1 then Some None
                   else case (go_slice d1 0 stringLen, from_on d1 stringLen) of
                          (Some p, Some d2) \<Rightarrow> alpn_protocols d2 (m\<lparr>ch_alpnProtocols := ch_alpnProtocols m @ [bytes_str p]\<rparr>)
                        | _ \<Rightarrow> None)
           | _ \<Rightarrow> None)"
  by pat_completeness auto

termination by (relation "measure (length \<circ> fst)") (auto simp: from_on_def go_slice_def split: if_splits)

declare alpn_protocols.simps [simp del]

text \<open>The extensions with contents: \<open>data\<close> starts with them, and they are \<open>len\<close> bytes.\<close>

definition ext_server_name :: "nat \<Rightarrow> byte list \<Rightarrow> client_hello \<Rightarrow> client_hello option option" where
  "ext_server_name len data m = do {
     d \<leftarrow> go_slice data 0 len;
     if length d < 2 then Some None
     else do {
       namesLen \<leftarrow> word_at d 0;
       d \<leftarrow> from_on d 2;
       if length d \<noteq> unat namesLen then Some None else server_names d m
     }
   }"

definition ext_status_request :: "nat \<Rightarrow> byte list \<Rightarrow> client_hello \<Rightarrow> client_hello option option" where
  "ext_status_request len data m =
     (if len > 0 then do { b \<leftarrow> go_index data 0; Some (Some (m\<lparr>ch_ocspStapling := (b = statusTypeOCSP)\<rparr>)) }
      else Some (Some (m\<lparr>ch_ocspStapling := False\<rparr>)))"

definition ext_curves :: "nat \<Rightarrow> byte list \<Rightarrow> client_hello \<Rightarrow> client_hello option option" where
  "ext_curves len data m =
     (if len < 2 then Some None
      else do {
        l \<leftarrow> word_at data 0;
        if unat l mod 2 = 1 \<or> len \<noteq> unat l + 2 then Some None
        else do {
          d \<leftarrow> from_on data 2;
          ws \<leftarrow> read_words (unat l div 2) d;
          Some (Some (m\<lparr>ch_supportedCurves := ws\<rparr>))
        }
      })"

definition ext_points :: "nat \<Rightarrow> byte list \<Rightarrow> client_hello \<Rightarrow> client_hello option option" where
  "ext_points len data m =
     (if len < 1 then Some None
      else do {
        l \<leftarrow> go_index data 0;
        if len \<noteq> unat l + 1 then Some None
        else do { d \<leftarrow> from_on data 1; Some (Some (m\<lparr>ch_supportedPoints := take (unat l) d\<rparr>)) }
      })"

definition ext_ticket :: "nat \<Rightarrow> byte list \<Rightarrow> client_hello \<Rightarrow> client_hello option option" where
  "ext_ticket len data m = do {
     d \<leftarrow> go_slice data 0 len;
     Some (Some (m\<lparr>ch_ticketSupported := True, ch_sessionTicket := d\<rparr>))
   }"

definition ext_algorithms :: "nat \<Rightarrow> byte list \<Rightarrow> client_hello \<Rightarrow> client_hello option option" where
  "ext_algorithms len data m =
     (if len < 2 \<or> len mod 2 \<noteq> 0 then Some None
      else do {
        l \<leftarrow> word_at data 0;
        if int (unat l) \<noteq> int len - 2 then Some None
        else do {
          d \<leftarrow> from_on data 2;
          ws \<leftarrow> read_words (unat l div 2) d;
          Some (Some (m\<lparr>ch_supportedSignatureAlgorithms := ws\<rparr>))
        }
      })"

definition ext_renegotiation :: "nat \<Rightarrow> byte list \<Rightarrow> client_hello \<Rightarrow> client_hello option option" where
  "ext_renegotiation len data m =
     (if len = 0 then Some None
      else do {
        d \<leftarrow> go_slice data 0 len;
        l \<leftarrow> go_index d 0;
        d \<leftarrow> from_on d 1;
        if unat l \<noteq> length d then Some None
        else Some (Some (m\<lparr>ch_secureRenegotiation := d, ch_secureRenegotiationSupported := True\<rparr>))
      })"

definition ext_alpn :: "nat \<Rightarrow> byte list \<Rightarrow> client_hello \<Rightarrow> client_hello option option" where
  "ext_alpn len data m =
     (if len < 2 then Some None
      else do {
        l \<leftarrow> word_at data 0;
        if int (unat l) \<noteq> int len - 2 then Some None
        else do { d \<leftarrow> go_slice data 2 len; alpn_protocols d m }
      })"

definition hello_extension :: "u16 \<Rightarrow> nat \<Rightarrow> byte list \<Rightarrow> client_hello \<Rightarrow> client_hello option option" where
  "hello_extension extension len data m =
     (if extension = extensionServerName then ext_server_name len data m
      else if extension = extensionNextProtoNeg then
        (if len > 0 then Some None else Some (Some (m\<lparr>ch_nextProtoNeg := True\<rparr>)))
      else if extension = extensionStatusRequest then ext_status_request len data m
      else if extension = extensionSupportedCurves then ext_curves len data m
      else if extension = extensionSupportedPoints then ext_points len data m
      else if extension = extensionSessionTicket then ext_ticket len data m
      else if extension = extensionSignatureAlgorithms then ext_algorithms len data m
      else if extension = extensionRenegotiationInfo then ext_renegotiation len data m
      else if extension = extensionALPN then ext_alpn len data m
      else if extension = extensionSCT then
        (let m1 = m\<lparr>ch_scts := True\<rparr> in if len \<noteq> 0 then Some None else Some (Some m1))
      else Some (Some m))"

function hello_extensions :: "byte list \<Rightarrow> client_hello \<Rightarrow> client_hello option option" where
  "hello_extensions data m =
     (if \<not> length data \<noteq> 0 then Some (Some m)
      else if length data < 4 then Some None
      else case (word_at data 0, word_at data 2, from_on data 4) of
             (Some extension, Some l, Some data1) \<Rightarrow>
               (if length data1 < unat l then Some None
                else case hello_extension extension (unat l) data1 m of
                       None \<Rightarrow> None
                     | Some None \<Rightarrow> Some None
                     | Some (Some m1) \<Rightarrow>
                         (case from_on data1 (unat l) of None \<Rightarrow> None | Some data2 \<Rightarrow> hello_extensions data2 m1))
           | _ \<Rightarrow> None)"
  by pat_completeness auto

termination by (relation "measure (length \<circ> fst)") (auto simp: from_on_def go_slice_def split: if_splits)

declare hello_extensions.simps [simp del]

definition cipher_suites :: "nat \<Rightarrow> byte list \<Rightarrow> u16 list option" where
  "cipher_suites n data = traverse (\<lambda>i. word_at data (2 + 2 * i)) [0..<n]"

definition cleared :: "client_hello \<Rightarrow> client_hello" where
  "cleared m = m\<lparr>ch_nextProtoNeg := False, ch_serverName := [], ch_ocspStapling := False, ch_ticketSupported := False,
     ch_sessionTicket := [], ch_supportedSignatureAlgorithms := [], ch_alpnProtocols := [], ch_scts := False\<rparr>"

definition hello_tail :: "byte list \<Rightarrow> client_hello \<Rightarrow> client_hello option option" where
  "hello_tail data m =
     (if length data = 0 then Some (Some m)
      else if length data < 2 then Some None
      else do {
        extensionsLength \<leftarrow> word_at data 0;
        data \<leftarrow> from_on data 2;
        if unat extensionsLength \<noteq> length data then Some None else hello_extensions data m
      })"

definition hello_compression :: "byte list \<Rightarrow> client_hello \<Rightarrow> client_hello option option" where
  "hello_compression data m =
     (if length data < 1 then Some None
      else do {
        l \<leftarrow> go_index data 0;
        if length data < 1 + unat l then Some None
        else do {
          methods \<leftarrow> go_slice data 1 (1 + unat l);
          data \<leftarrow> from_on data (1 + unat l);
          hello_tail data (cleared (m\<lparr>ch_compressionMethods := methods\<rparr>))
        }
      })"

definition hello_suites :: "byte list \<Rightarrow> client_hello \<Rightarrow> client_hello option option" where
  "hello_suites data m =
     (if length data < 2 then Some None
      else do {
        l \<leftarrow> word_at data 0;
        let cipherSuiteLen = unat l;
        if cipherSuiteLen mod 2 = 1 \<or> length data < 2 + cipherSuiteLen then Some None
        else do {
          ws \<leftarrow> cipher_suites (cipherSuiteLen div 2) data;
          let m1 = m\<lparr>ch_cipherSuites := ws,
            ch_secureRenegotiationSupported := ch_secureRenegotiationSupported m \<or> scsvRenegotiation \<in> set ws\<rparr>;
          data \<leftarrow> from_on data (2 + cipherSuiteLen);
          hello_compression data m1
        }
      })"

definition hello_Unmarshal :: "byte list \<Rightarrow> client_hello \<Rightarrow> client_hello option option" where
  "hello_Unmarshal data m =
     (if length data < 42 then Some None
      else do {
        vers \<leftarrow> word_at data 4;
        random \<leftarrow> go_slice data 6 38;
        b \<leftarrow> go_index data 38;
        let sessionIdLen = unat b;
        if sessionIdLen > 32 \<or> length data < 39 + sessionIdLen then Some None
        else do {
          sid \<leftarrow> go_slice data 39 (39 + sessionIdLen);
          rest \<leftarrow> from_on data (39 + sessionIdLen);
          hello_suites rest (m\<lparr>ch_raw := data, ch_vers := vers, ch_random := random, ch_sessionId := sid\<rparr>)
        }
      })"

text \<open>\<^verbatim>\<open>io.ReadFull\<close> on a connection whose peer sends \<open>c\<close> and no more: what was read, whether
  that is everything asked for, and what is left.\<close>

definition ReadFull :: "nat \<Rightarrow> byte list \<Rightarrow> byte list \<times> bool \<times> byte list" where
  "ReadFull n c = (take n c, n \<le> length c, drop n c)"

definition GetServerNameFromClientHello :: "byte list \<Rightarrow> (string \<times> byte list \<times> byte list) option" where
  "GetServerNameFromClientHello c =
     (let (header, ok, c1) = ReadFull 5 c
      in if \<not> ok then Some ([], header, c1)
         else do {
           b \<leftarrow> go_index header 0;
           if b \<noteq> 0x16 then Some ([], header, c1)
           else do {
             l \<leftarrow> word_at header 3;
             let recordLen = unat l;
             if recordLen \<le> 0 \<or> recordLen > 16384 then Some ([], header, c1)
             else (let (body, ok1, c2) = ReadFull recordLen c1
                   in if \<not> ok1 then Some ([], header @ body, c2)
                      else case hello_Unmarshal body new_hello of
                             None \<Rightarrow> None
                           | Some None \<Rightarrow> Some ([], header @ body, c2)
                           | Some (Some m) \<Rightarrow> Some (ch_serverName m, header @ body, c2))
           }
         })"

section \<open>No panic\<close>

lemma word_at_Some: "Suc i < length d \<Longrightarrow> word_at d i = Some (be16 [d ! i, d ! Suc i])"
  by (simp add: word_at_def go_index_def)

lemma from_on_Some: "n \<le> length d \<Longrightarrow> from_on d n = Some (drop n d)"
  by (simp add: from_on_def go_slice_def)

lemmas in_bounds = word_at_Some from_on_Some go_index_Some go_slice_Some

lemma read_words_Some: "2 * n \<le> length d \<Longrightarrow> \<exists>ws. read_words n d = Some ws"
proof (induction n arbitrary: d)
  case (Suc n)
  then obtain ws where "read_words n (drop 2 d) = Some ws" by fastforce
  then show ?case using Suc.prems by (simp add: in_bounds)
qed simp

lemma server_names_total: "server_names d m \<noteq> None"
proof (induction d m rule: server_names.induct)
  case (1 d m)
  show ?case
  proof (cases "length d < 3")
    case True
    then show ?thesis by (simp add: server_names.simps)
  next
    case False
    then show ?thesis
      using 1 by (subst server_names.simps) (auto simp: in_bounds Let_def not_less)
  qed
qed

lemma alpn_protocols_total: "alpn_protocols d m \<noteq> None"
proof (induction d m rule: alpn_protocols.induct)
  case (1 d m)
  then show ?case
    by (subst alpn_protocols.simps) (auto simp: in_bounds Let_def not_less Suc_le_eq)
qed

lemma if_not_None: "(P \<Longrightarrow> a \<noteq> None) \<Longrightarrow> (\<not> P \<Longrightarrow> b \<noteq> None) \<Longrightarrow> (if P then a else b) \<noteq> None"
  by simp

lemma hello_extension_total:
  assumes "len \<le> length data"
  shows "hello_extension extension len data m \<noteq> None"
proof -
  have words: "\<exists>ws. read_words (unat l div 2) (drop 2 data) = Some ws" if "unat l + 2 \<le> len" for l :: u16
    using that assms by (intro read_words_Some) simp
  have "ext_server_name len data m \<noteq> None"
    using assms server_names_total by (simp add: ext_server_name_def in_bounds)
  moreover have "ext_status_request len data m \<noteq> None"
    using assms by (auto simp: ext_status_request_def go_index_def)
  moreover have "ext_curves len data m \<noteq> None"
  proof (cases "len < 2")
    case False
    then have "word_at data 0 = Some (be16 [data ! 0, data ! 1])" "from_on data 2 = Some (drop 2 data)"
      using assms by (simp_all add: in_bounds)
    then show ?thesis using False words [of "be16 [data ! 0, data ! 1]"] by (auto simp: ext_curves_def)
  qed (simp add: ext_curves_def)
  moreover have "ext_points len data m \<noteq> None"
    using assms by (auto simp: ext_points_def in_bounds go_index_def)
  moreover have "ext_ticket len data m \<noteq> None"
    using assms by (simp add: ext_ticket_def in_bounds)
  moreover have "ext_algorithms len data m \<noteq> None"
  proof (cases "len < 2")
    case False
    then have at: "word_at data 0 = Some (be16 [data ! 0, data ! 1])" "from_on data 2 = Some (drop 2 data)"
      using assms by (simp_all add: in_bounds)
    have "read_words (unat (be16 [data ! 0, data ! 1]) div 2) (drop 2 data) \<noteq> None"
      if "int (unat (be16 [data ! 0, data ! 1])) = int len - 2"
    proof -
      have "unat (be16 [data ! 0, data ! 1]) + 2 \<le> len" using that False by linarith
      from words [OF this] show ?thesis by auto
    qed
    then show ?thesis using at by (auto simp: ext_algorithms_def)
  qed (simp add: ext_algorithms_def)
  moreover have "ext_renegotiation len data m \<noteq> None"
    using assms by (simp add: ext_renegotiation_def in_bounds)
  moreover have "ext_alpn len data m \<noteq> None"
    using assms alpn_protocols_total by (simp add: ext_alpn_def in_bounds)
  ultimately show ?thesis
    unfolding hello_extension_def Let_def by - (intro if_not_None; (assumption | simp))
qed

text \<open>One round of the loop.\<close>

lemma hello_extensions_step:
  assumes "4 \<le> length data"
  shows "hello_extensions data m =
    (let l = unat (be16 [data ! 2, data ! 3]); d = drop 4 data
     in if length d < l then Some None
        else case hello_extension (be16 [data ! 0, data ! 1]) l d m of
               None \<Rightarrow> None
             | Some None \<Rightarrow> Some None
             | Some (Some m1) \<Rightarrow> hello_extensions (drop l d) m1)"
proof -
  have at: "word_at data 0 = Some (be16 [data ! 0, data ! 1])" "word_at data 2 = Some (be16 [data ! 2, data ! 3])"
      "from_on data 4 = Some (drop 4 data)" "length data \<noteq> 0" "\<not> length data < 4"
    using assms by (auto simp: in_bounds)
  show ?thesis
    using at by (subst hello_extensions.simps)
      (simp add: from_on_Some Let_def not_less split: option.split)
qed

lemma hello_extensions_total: "hello_extensions data m \<noteq> None"
proof (induction data arbitrary: m rule: measure_induct_rule [of length])
  case (less data)
  show ?case
  proof (cases "length data < 4")
    case True
    then show ?thesis by (simp add: hello_extensions.simps)
  next
    case False
    let ?l = "unat (be16 [data ! 2, data ! 3])" and ?d = "drop 4 data" and ?t = "be16 [data ! 0, data ! 1]"
    have rest: "hello_extensions (drop ?l ?d) m1 \<noteq> None" for m1 using False by (intro less.IH) simp
    have step: "hello_extensions data m = (if length ?d < ?l then Some None
        else case hello_extension ?t ?l ?d m of
               None \<Rightarrow> None | Some None \<Rightarrow> Some None | Some (Some m1) \<Rightarrow> hello_extensions (drop ?l ?d) m1)"
      using False hello_extensions_step [of data m] by (simp only: Let_def not_less)
    show ?thesis
    proof (cases "length ?d < ?l")
      case True
      then show ?thesis unfolding step by simp
    next
      case fits: False
      then obtain x where x: "hello_extension ?t ?l ?d m = Some x"
        using hello_extension_total [of ?l ?d ?t m] by fastforce
      show ?thesis
        unfolding step x using fits rest by (cases x) (simp_all only: if_False option.case, simp_all)
    qed
  qed
qed

lemma traverse_total: "(\<And>x. x \<in> set xs \<Longrightarrow> f x \<noteq> None) \<Longrightarrow> traverse f xs \<noteq> None"
  by (induction xs) (fastforce split: option.split)+

lemma cipher_suites_Some: "2 + 2 * n \<le> length d \<Longrightarrow> cipher_suites n d \<noteq> None"
  unfolding cipher_suites_def by (rule traverse_total) (simp add: word_at_Some)

lemma hello_Unmarshal_total: "hello_Unmarshal data m \<noteq> None"
proof -
  have tail: "hello_tail d x \<noteq> None" for d x
    using hello_extensions_total by (auto simp: hello_tail_def in_bounds)
  have compression: "hello_compression d x \<noteq> None" for d x
    using tail by (auto simp: hello_compression_def in_bounds not_less)
  have suites: "hello_suites d x \<noteq> None" for d x
    using compression cipher_suites_Some by (fastforce simp: hello_suites_def in_bounds not_less Let_def)
  show ?thesis
    using suites by (auto simp: hello_Unmarshal_def in_bounds not_less Let_def)
qed

text \<open>C37: Whatever a visitor sends, reading the name of the host it wants never panics, and the bytes
  handed on with the connection together with those still unread are all it sent.\<close>

theorem visitors_hello_is_passed_on:
  "\<exists>name rb rest. GetServerNameFromClientHello c = Some (name, rb, rest) \<and> rb @ rest = c"
proof (cases "length c < 5")
  case True
  then show ?thesis by (simp add: GetServerNameFromClientHello_def ReadFull_def)
next
  case False
  let ?h = "take 5 c" and ?c1 = "drop 5 c"
  have at: "go_index ?h 0 = Some (c ! 0)" "word_at ?h 3 = Some (be16 [c ! 3, c ! 4])" using False by (simp_all add: in_bounds)
  let ?n = "unat (be16 [c ! 3, c ! 4])"
  have whole: "take 5 c @ (take n ?c1 @ drop n ?c1) = c" for n by (metis append_take_drop_id)
  obtain x where "hello_Unmarshal (take ?n ?c1) new_hello = Some x"
    using hello_Unmarshal_total by fastforce
  then show ?thesis
    using False at whole [of ?n]
    by (cases x) (auto simp: GetServerNameFromClientHello_def ReadFull_def Let_def)
qed

section \<open>The name that was sent\<close>

definition put_ext :: "u16 \<times> byte list \<Rightarrow> byte list" where
  "put_ext e = put_be16 (fst e) @ put_be16 (of_nat (length (snd e))) @ snd e"

definition name_ext :: "string \<Rightarrow> u16 \<times> byte list" where
  "name_ext name = (extensionServerName,
     put_be16 (of_nat (3 + length name)) @ [0] @ put_be16 (of_nat (length name)) @ str_bytes name)"

definition put_hello :: "u16 \<Rightarrow> byte list \<Rightarrow> byte list \<Rightarrow> u16 list \<Rightarrow> byte list \<Rightarrow> (u16 \<times> byte list) list \<Rightarrow> byte list" where
  "put_hello vers random sid suites comps exts =
     (let e = concat (map put_ext exts)
      in [1, 0, 0, 0] @ put_be16 vers @ random @ [of_nat (length sid)] @ sid
         @ put_be16 (of_nat (2 * length suites)) @ concat (map put_be16 suites)
         @ [of_nat (length comps)] @ comps @ put_be16 (of_nat (length e)) @ e)"

definition put_record :: "byte list \<Rightarrow> byte list" where
  "put_record body = [0x16, 3, 1] @ put_be16 (of_nat (length body)) @ body"

lemma word_at_put: "length a = i \<Longrightarrow> word_at (a @ put_be16 v @ r) i = Some v"
  using be16_put [of v] by (simp add: word_at_def go_index_def nth_append put_be16_def)

lemma word_at_put_front: "word_at (put_be16 v @ r) 0 = Some v"
  using word_at_put [of "[]" 0 v r] by simp

lemma from_on_app: "length a = i \<Longrightarrow> from_on (a @ r) i = Some r"
  by (simp add: from_on_Some)

lemma slice_app: "length a = i \<Longrightarrow> j = i + length b \<Longrightarrow> go_slice (a @ b @ r) i j = Some b"
  by (simp add: go_slice_def)

lemma index_app: "length a = i \<Longrightarrow> go_index (a @ b # r) i = Some b"
  by (auto simp: go_index_def)

lemma unat_of_nat16: "n < 65536 \<Longrightarrow> unat (of_nat n :: u16) = n"
  by (simp add: unat_of_nat take_bit_nat_eq_self)

lemma unat_of_nat8: "n < 256 \<Longrightarrow> unat (of_nat n :: byte) = n"
  by (simp add: unat_of_nat take_bit_nat_eq_self)

lemma hello_extensions_put:
  assumes "length body < 65536"
  shows "hello_extensions (put_ext (t, body) @ rest) m =
    (case hello_extension t (length body) (body @ rest) m of
       None \<Rightarrow> None | Some None \<Rightarrow> Some None | Some (Some m1) \<Rightarrow> hello_extensions rest m1)"
proof -
  let ?d = "put_ext (t, body) @ rest" and ?l = "put_be16 (of_nat (length body) :: u16)"
  have d: "?d = put_be16 t @ ?l @ (body @ rest)" by (simp add: put_ext_def)
  have "4 \<le> length ?d" by (simp add: d)
  moreover have "be16 [?d ! 0, ?d ! 1] = t" using be16_put [of t] by (simp add: d put_be16_def)
  moreover have "be16 [?d ! 2, ?d ! 3] = of_nat (length body)"
    using be16_put [of "of_nat (length body)"] by (simp add: d put_be16_def)
  moreover have "drop 4 ?d = body @ rest" by (simp add: d put_be16_def)
  ultimately show ?thesis
    using hello_extensions_step [of ?d m] unat_of_nat16 [OF assms] by (simp add: Let_def split: option.split)
qed

text \<open>An extension that is not the name and is read without complaint.\<close>

definition accepted :: "u16 \<times> byte list \<Rightarrow> bool" where
  "accepted e \<longleftrightarrow> length (snd e) < 65536
     \<and> (\<forall>rest m. \<exists>m1. hello_extension (fst e) (length (snd e)) (snd e @ rest) m = Some (Some m1) \<and> ch_serverName m1 = ch_serverName m)"

lemma accepted_read:
  assumes "list_all accepted es"
  shows "\<exists>m1. hello_extensions (concat (map put_ext es) @ rest) m = hello_extensions rest m1 \<and> ch_serverName m1 = ch_serverName m"
  using assms
proof (induction es arbitrary: m)
  case (Cons e es)
  obtain t body where e: "e = (t, body)" by (cases e)
  let ?rest = "concat (map put_ext es) @ rest"
  obtain m2 where m2: "hello_extension t (length body) (body @ ?rest) m = Some (Some m2)" "ch_serverName m2 = ch_serverName m"
    using Cons.prems e by (fastforce simp: accepted_def)
  obtain m1 where "hello_extensions ?rest m2 = hello_extensions rest m1" "ch_serverName m1 = ch_serverName m2"
    using Cons by fastforce
  then show ?case
    using m2 Cons.prems e hello_extensions_put [of body t ?rest m] by (auto simp: accepted_def)
qed auto

lemma name_read:
  assumes "length name < 65500" and "name = [] \<or> last name \<noteq> CHR ''.''"
  shows "hello_extension extensionServerName (length (snd (name_ext name))) (snd (name_ext name) @ rest) m
    = Some (Some (m\<lparr>ch_serverName := name\<rparr>))"
proof -
  let ?n = "of_nat (length name) :: u16" and ?b = "snd (name_ext name)"
  let ?d = "[0] @ put_be16 ?n @ str_bytes name"
  have b: "?b = put_be16 (of_nat (3 + length name)) @ ?d" by (simp add: name_ext_def)
  have len: "length (str_bytes name) = length name" by (simp add: str_bytes_def)
  have "go_slice (?b @ rest) 0 (length ?b) = Some ?b" using slice_app [of "[]" 0 _ ?b rest] by simp
  moreover have "word_at ?b 0 = Some (of_nat (3 + length name))" unfolding b by (rule word_at_put_front)
  moreover have "from_on ?b 2 = Some ?d" unfolding b by (rule from_on_app) simp
  moreover have "unat (of_nat (3 + length name) :: u16) = 3 + length name" using assms(1) by (intro unat_of_nat16) simp
  moreover have "\<not> length ?b < 2" "length ?d = 3 + length name" by (simp_all add: b len)
  ultimately have "hello_extension extensionServerName (length ?b) (?b @ rest) m = server_names ?d m"
    by (simp add: hello_extension_def ext_server_name_def del: append.simps)
  also have "\<dots> = Some (Some (m\<lparr>ch_serverName := name\<rparr>))"
  proof -
    have "word_at ?d 1 = Some ?n" by (rule word_at_put) simp
    moreover have "from_on ?d 3 = Some (str_bytes name)" using from_on_app [of "[0] @ put_be16 ?n" 3 "str_bytes name"] by simp
    moreover have "go_index ?d 0 = Some 0" by (simp add: go_index_def)
    moreover have "unat ?n = length name" using assms(1) by (intro unat_of_nat16) simp
    moreover have "go_slice (str_bytes name) 0 (length name) = Some (str_bytes name)" by (simp add: go_slice_def len)
    ultimately show ?thesis
      using assms(2) by (subst server_names.simps) (auto simp: len Let_def simp del: append.simps)
  qed
  finally show ?thesis .
qed

lemma extensions_read:
  assumes "list_all accepted pre" and "list_all accepted post" and "length name < 65500" and "name = [] \<or> last name \<noteq> CHR ''.''"
  shows "\<exists>m1. hello_extensions (concat (map put_ext (pre @ name_ext name # post))) m = Some (Some m1) \<and> ch_serverName m1 = name"
proof -
  let ?rest = "concat (map put_ext post)"
  obtain m1 where m1: "hello_extensions (concat (map put_ext pre) @ (put_ext (name_ext name) @ ?rest)) m
      = hello_extensions (put_ext (name_ext name) @ ?rest) m1"
    using accepted_read [OF assms(1)] by blast
  have "length (snd (name_ext name)) < 65536" using assms(3) by (simp add: name_ext_def str_bytes_def)
  moreover have "name_ext name = (extensionServerName, snd (name_ext name))" by (simp add: name_ext_def)
  ultimately have "hello_extensions (put_ext (name_ext name) @ ?rest) m1 = hello_extensions ?rest (m1\<lparr>ch_serverName := name\<rparr>)"
    using hello_extensions_put [of "snd (name_ext name)" extensionServerName ?rest m1] name_read [OF assms(3,4)] by simp
  moreover obtain m2 where "hello_extensions (?rest @ []) (m1\<lparr>ch_serverName := name\<rparr>) = hello_extensions [] m2" "ch_serverName m2 = name"
    using accepted_read [OF assms(2), of "[]" "m1\<lparr>ch_serverName := name\<rparr>"] by auto
  moreover have "hello_extensions [] m2 = Some (Some m2)" by (simp add: hello_extensions.simps)
  ultimately show ?thesis using m1 by auto
qed

lemma suites_read: "cipher_suites (length ws) (put_be16 l @ concat (map put_be16 ws) @ r) = Some ws"
proof -
  have at: "word_at (put_be16 l @ concat (map put_be16 ws) @ r) (2 + 2 * i) = Some (ws ! i)" if "i < length ws" for i
  proof -
    have "ws = take i ws @ ws ! i # drop (Suc i) ws" using that by (simp add: id_take_nth_drop)
    then have "put_be16 l @ concat (map put_be16 ws) @ r
        = (put_be16 l @ concat (map put_be16 (take i ws))) @ put_be16 (ws ! i) @ (concat (map put_be16 (drop (Suc i) ws)) @ r)"
      by (metis append.assoc concat.simps(2) concat_append list.simps(9) map_append)
    moreover have "length (concat (map put_be16 vs)) = 2 * length vs" for vs by (induction vs) simp_all
    then have "length (put_be16 l @ concat (map put_be16 (take i ws))) = 2 + 2 * i" using that by simp
    ultimately show ?thesis by (simp only: word_at_put)
  qed
  have "traverse f xs = Some (map g xs)" if "\<And>x. x \<in> set xs \<Longrightarrow> f x = Some (g x)" for f :: "nat \<Rightarrow> u16 option" and g xs
    using that by (induction xs) auto
  from this [of "[0..<length ws]" "\<lambda>i. word_at (put_be16 l @ concat (map put_be16 ws) @ r) (2 + 2 * i)" "(!) ws"] at
  show ?thesis by (simp add: cipher_suites_def map_nth)
qed

lemma hello_tail_put:
  assumes "length e < 65536"
  shows "hello_tail (put_be16 (of_nat (length e)) @ e) m = hello_extensions e m"
proof -
  have "word_at (put_be16 (of_nat (length e)) @ e) 0 = Some (of_nat (length e))" by (rule word_at_put_front)
  moreover have "from_on (put_be16 (of_nat (length e) :: u16) @ e) 2 = Some e" by (rule from_on_app) simp
  ultimately show ?thesis using assms by (simp add: hello_tail_def unat_of_nat16)
qed

lemma hello_compression_put:
  assumes "length comps < 256"
  shows "hello_compression ([of_nat (length comps)] @ comps @ r) m = hello_tail r (cleared (m\<lparr>ch_compressionMethods := comps\<rparr>))"
proof -
  let ?d = "[of_nat (length comps)] @ comps @ r"
  have "go_index ?d 0 = Some (of_nat (length comps))" by (simp add: go_index_def)
  moreover have "go_slice ?d 1 (1 + length comps) = Some comps" by (rule slice_app) simp_all
  moreover have "from_on ?d (1 + length comps) = Some r" using from_on_app [of "[of_nat (length comps)] @ comps" "1 + length comps" r] by simp
  ultimately show ?thesis using unat_of_nat8 [OF assms] by (simp add: hello_compression_def del: append.simps)
qed

lemma hello_suites_put:
  assumes "length suites < 32768"
  shows "\<exists>m1. hello_suites (put_be16 (of_nat (2 * length suites)) @ concat (map put_be16 suites) @ r) m = hello_compression r m1"
proof -
  let ?d = "put_be16 (of_nat (2 * length suites)) @ concat (map put_be16 suites) @ r"
  have len: "length (concat (map put_be16 vs)) = 2 * length vs" for vs by (induction vs) simp_all
  have "word_at ?d 0 = Some (of_nat (2 * length suites))" by (rule word_at_put_front)
  moreover have "unat (of_nat (2 * length suites) :: u16) = 2 * length suites" using assms by (intro unat_of_nat16) simp
  moreover have "cipher_suites (length suites) ?d = Some suites" by (rule suites_read)
  moreover have "from_on ?d (2 + 2 * length suites) = Some r"
    using from_on_app [of "put_be16 (of_nat (2 * length suites)) @ concat (map put_be16 suites)" "2 + 2 * length suites" r] len by simp
  ultimately show ?thesis using len by (auto simp: hello_suites_def Let_def)
qed

lemma hello_Unmarshal_put:
  assumes "length random = 32" and "length sid \<le> 32" and "length suites < 32768" and "length comps < 256"
    and "length (concat (map put_ext exts)) < 65536"
  shows "\<exists>m1. hello_Unmarshal (put_hello vers random sid suites comps exts) m = hello_extensions (concat (map put_ext exts)) m1"
proof -
  let ?e = "concat (map put_ext exts)"
  let ?r = "put_be16 (of_nat (2 * length suites)) @ concat (map put_be16 suites)
      @ [of_nat (length comps)] @ comps @ put_be16 (of_nat (length ?e)) @ ?e"
  let ?d = "put_hello vers random sid suites comps exts"
  have d: "?d = [1, 0, 0, 0] @ put_be16 vers @ random @ [of_nat (length sid)] @ sid @ ?r"
    by (simp add: put_hello_def Let_def)
  have "word_at ?d 4 = Some vers" unfolding d by (rule word_at_put) simp
  moreover have "go_slice ?d 6 38 = Some random"
    using slice_app [of "[1, 0, 0, 0] @ put_be16 vers" 6 38 random "[of_nat (length sid)] @ sid @ ?r"] assms(1) by (simp add: d)
  moreover have "go_index ?d 38 = Some (of_nat (length sid))"
    using index_app [of "[1, 0, 0, 0] @ put_be16 vers @ random" 38 "of_nat (length sid)" "sid @ ?r"] assms(1) by (simp add: d)
  moreover have "go_slice ?d 39 (39 + length sid) = Some sid"
    using slice_app [of "[1, 0, 0, 0] @ put_be16 vers @ random @ [of_nat (length sid)]" 39 "39 + length sid" sid ?r] assms(1) by (simp add: d)
  moreover have "from_on ?d (39 + length sid) = Some ?r"
    using from_on_app [of "[1, 0, 0, 0] @ put_be16 vers @ random @ [of_nat (length sid)] @ sid" "39 + length sid" ?r] assms(1) by (simp add: d)
  moreover have "unat (of_nat (length sid) :: byte) = length sid" using assms(2) by (intro unat_of_nat8) simp
  moreover have "\<not> length ?d < 42" "\<not> length ?d < 39 + length sid" using assms(1) by (simp_all add: d)
  ultimately have "hello_Unmarshal ?d m = hello_suites ?r (m\<lparr>ch_raw := ?d, ch_vers := vers, ch_random := random, ch_sessionId := sid\<rparr>)"
    using assms(2) by (simp add: hello_Unmarshal_def Let_def)
  moreover obtain m1 where "hello_suites ?r (m\<lparr>ch_raw := ?d, ch_vers := vers, ch_random := random, ch_sessionId := sid\<rparr>)
      = hello_compression ([of_nat (length comps)] @ comps @ put_be16 (of_nat (length ?e)) @ ?e) m1"
    using hello_suites_put [OF assms(3)] by blast
  ultimately show ?thesis unfolding hello_compression_put [OF assms(4)] hello_tail_put [OF assms(5)] by auto
qed


lemma unknown_accepted:
  assumes "length body < 65536" and "t \<notin> {extensionServerName, extensionNextProtoNeg, extensionStatusRequest,
    extensionSupportedCurves, extensionSupportedPoints, extensionSessionTicket, extensionSignatureAlgorithms, extensionRenegotiationInfo,
    extensionALPN, extensionSCT}"
  shows "accepted (t, body)"
  using assms by (auto simp: accepted_def hello_extension_def)


end
