(* ===== verification/Lru_Cache.thy ===== *)
theory Lru_Cache
  imports Prelude
begin

text \<open>
  The cache of answers of the tunnel server's HTTP proxy, \<^verbatim>\<open>nps-master/lib/cache/lru.go\<close>: a
  doubly linked list of entries, the one used last at its front, and a map from keys to elements of the
  list. Elements are pointers: the list and the map hold addresses, the entries are in a heap. The list
  itself may be a nil pointer; using it then is a panic, \<open>None\<close>.
\<close>

section \<open>The code\<close>

record ('k, 'v) lru =
  l_MaxEntries :: int
  l_OnEvicted :: bool
  l_ll :: "nat list option"
  l_cache :: "('k \<times> nat) list"
  l_heap :: "nat \<Rightarrow> ('k \<times> 'v) option"
  l_next :: nat
  l_evicted :: "('k \<times> 'v) list"

definition lru_New :: "bool \<Rightarrow> int \<Rightarrow> ('k, 'v) lru" where
  "lru_New evict maxEntries = \<lparr>l_MaxEntries = maxEntries, l_OnEvicted = evict, l_ll = Some [], l_cache = [], l_heap = Map.empty,
     l_next = 0, l_evicted = []\<rparr>"

text \<open>\<^verbatim>\<open>container/list\<close>: an element of another list is left alone.\<close>

definition MoveToFront :: "nat \<Rightarrow> nat list option \<Rightarrow> nat list option" where
  "MoveToFront e l = map_option (\<lambda>es. if e \<in> set es then e # remove1 e es else es) l"

definition list_Remove :: "nat \<Rightarrow> nat list option \<Rightarrow> nat list option" where
  "list_Remove e l = map_option (remove1 e) l"

definition removeElement :: "nat \<Rightarrow> ('k, 'v) lru \<Rightarrow> ('k, 'v) lru option" where
  "removeElement e c =
     (case l_heap c e of
        None \<Rightarrow> None
      | Some kv \<Rightarrow> Some (c\<lparr>l_ll := list_Remove e (l_ll c), l_cache := AList.delete (fst kv) (l_cache c),
            l_evicted := l_evicted c @ (if l_OnEvicted c then [kv] else [])\<rparr>))"

definition RemoveOldest :: "('k, 'v) lru \<Rightarrow> ('k, 'v) lru option" where
  "RemoveOldest c =
     (case l_ll c of
        None \<Rightarrow> None
      | Some es \<Rightarrow> if es = [] then Some c else removeElement (last es) c)"

definition lru_Len :: "('k, 'v) lru \<Rightarrow> nat option" where "lru_Len c = map_option length (l_ll c)"

definition lru_Add :: "'k \<Rightarrow> 'v \<Rightarrow> ('k, 'v) lru \<Rightarrow> ('k, 'v) lru option" where
  "lru_Add key val c =
     (case map_of (l_cache c) key of
        Some e \<Rightarrow>
          (case l_heap c e of
             None \<Rightarrow> None
           | Some (k, _) \<Rightarrow> Some (c\<lparr>l_ll := MoveToFront e (l_ll c), l_heap := (l_heap c)(e \<mapsto> (k, val))\<rparr>))
      | None \<Rightarrow>
          (case l_ll c of
             None \<Rightarrow> None
           | Some es \<Rightarrow>
               let c1 = c\<lparr>l_ll := Some (l_next c # es), l_heap := (l_heap c)(l_next c \<mapsto> (key, val)), l_next := Suc (l_next c),
                   l_cache := AList.update key (l_next c) (l_cache c)\<rparr>
               in if l_MaxEntries c1 \<noteq> 0 \<and> int (Suc (length es)) > l_MaxEntries c1 then RemoveOldest c1 else Some c1))"

definition lru_Get :: "'k \<Rightarrow> ('k, 'v) lru \<Rightarrow> ('v option \<times> ('k, 'v) lru) option" where
  "lru_Get key c =
     (case map_of (l_cache c) key of
        None \<Rightarrow> Some (None, c)
      | Some e \<Rightarrow> map_option (\<lambda>kv. (Some (snd kv), c\<lparr>l_ll := MoveToFront e (l_ll c)\<rparr>)) (l_heap c e))"

definition lru_Remove :: "'k \<Rightarrow> ('k, 'v) lru \<Rightarrow> ('k, 'v) lru option" where
  "lru_Remove key c = (case map_of (l_cache c) key of None \<Rightarrow> Some c | Some e \<Rightarrow> removeElement e c)"

definition lru_Clear :: "('k, 'v) lru \<Rightarrow> ('k, 'v) lru" where
  "lru_Clear c = c\<lparr>l_evicted := l_evicted c @ (if l_OnEvicted c then List.map_filter (\<lambda>(k, e). l_heap c e) (l_cache c) else []),
     l_ll := None\<rparr>"

section \<open>What it stands for\<close>

text \<open>The entries, the one used last first, cut to the greatest number of entries.\<close>

definition cut :: "nat \<Rightarrow> 'a list \<Rightarrow> 'a list" where
  "cut n xs = (if n = 0 then xs else take n xs)"

definition without :: "'k \<Rightarrow> ('k \<times> 'v) list \<Rightarrow> ('k \<times> 'v) list" where
  "without k xs = filter (\<lambda>e. fst e \<noteq> k) xs"

datatype ('k, 'v) lru_call = Add_op 'k 'v | Get_op 'k | Remove_op 'k

fun spec_op :: "nat \<Rightarrow> ('k, 'v) lru_call \<Rightarrow> ('k \<times> 'v) list \<Rightarrow> 'v option \<times> ('k \<times> 'v) list" where
  "spec_op n (Add_op k v) xs = (None, cut n ((k, v) # without k xs))"
| "spec_op n (Get_op k) xs = (case map_of xs k of None \<Rightarrow> (None, xs) | Some v \<Rightarrow> (Some v, (k, v) # without k xs))"
| "spec_op n (Remove_op k) xs = (None, without k xs)"

fun lru_op :: "('k, 'v) lru_call \<Rightarrow> ('k, 'v) lru \<Rightarrow> ('v option \<times> ('k, 'v) lru) option" where
  "lru_op (Add_op k v) c = map_option (Pair None) (lru_Add k v c)"
| "lru_op (Get_op k) c = lru_Get k c"
| "lru_op (Remove_op k) c = map_option (Pair None) (lru_Remove k c)"

fun lru_run :: "('k, 'v) lru_call list \<Rightarrow> ('k, 'v) lru \<Rightarrow> ('v option list \<times> ('k, 'v) lru) option" where
  "lru_run [] c = Some ([], c)"
| "lru_run (p # ps) c =
     (case lru_op p c of
        None \<Rightarrow> None
      | Some (r, c1) \<Rightarrow> map_option (\<lambda>(rs, c2). (r # rs, c2)) (lru_run ps c1))"

fun spec_run :: "nat \<Rightarrow> ('k, 'v) lru_call list \<Rightarrow> ('k \<times> 'v) list \<Rightarrow> 'v option list \<times> ('k \<times> 'v) list" where
  "spec_run n [] xs = ([], xs)"
| "spec_run n (p # ps) xs =
     (let (r, xs1) = spec_op n p xs; (rs, xs2) = spec_run n ps xs1 in (r # rs, xs2))"

definition entries :: "('k, 'v) lru \<Rightarrow> ('k \<times> 'v) list" where
  "entries c = map (\<lambda>e. the (l_heap c e)) (the (l_ll c))"

definition lru_ok :: "nat \<Rightarrow> ('k, 'v) lru \<Rightarrow> bool" where
  "lru_ok n c \<longleftrightarrow> l_MaxEntries c = int n \<and> (\<exists>es. l_ll c = Some es \<and> distinct es \<and> (\<forall>e \<in> set es. e < l_next c)
     \<and> (\<forall>e \<in> set es. l_heap c e \<noteq> None) \<and> distinct (map (\<lambda>e. fst (the (l_heap c e))) es)
     \<and> (\<forall>k e. map_of (l_cache c) k = Some e \<longleftrightarrow> e \<in> set es \<and> fst (the (l_heap c e)) = k)
     \<and> (n \<noteq> 0 \<longrightarrow> length es \<le> n))"

lemma lru_okE:
  assumes "lru_ok n c"
  obtains es where "l_ll c = Some es" "distinct es" "\<And>e. e \<in> set es \<Longrightarrow> e < l_next c" "\<And>e. e \<in> set es \<Longrightarrow> \<exists>k v. l_heap c e = Some (k, v)"
    "distinct (map (\<lambda>e. fst (the (l_heap c e))) es)" "l_MaxEntries c = int n" "n \<noteq> 0 \<Longrightarrow> length es \<le> n"
    "\<And>k e. map_of (l_cache c) k = Some e \<longleftrightarrow> e \<in> set es \<and> fst (the (l_heap c e)) = k"
  using assms that unfolding lru_ok_def by fastforce

lemma without_remove1:
  assumes "inj_on f (set es)" and "distinct es" and "e \<in> set es" and "\<And>x. x \<in> set es \<Longrightarrow> fst (g x) = f x"
  shows "without (f e) (map g es) = map g (remove1 e es)"
proof -
  have "filter (\<lambda>x. fst (g x) \<noteq> f e) es = filter (\<lambda>x. e \<noteq> x) es"
    using assms by (intro filter_cong) (auto dest: inj_onD)
  then show ?thesis using assms(2) by (simp add: without_def filter_map comp_def distinct_remove1_removeAll removeAll_filter_not_eq)
qed

lemma without_absent: "k \<notin> fst ` set xs \<Longrightarrow> without k xs = xs"
  by (auto simp: without_def filter_id_conv)

lemma entries_lookup:
  assumes "lru_ok n c"
  shows "map_of (entries c) k = (case map_of (l_cache c) k of None \<Rightarrow> None | Some e \<Rightarrow> Some (snd (the (l_heap c e))))"
proof -
  obtain es where es: "l_ll c = Some es" "distinct (map (\<lambda>e. fst (the (l_heap c e))) es)"
      "\<And>k e. map_of (l_cache c) k = Some e \<longleftrightarrow> e \<in> set es \<and> fst (the (l_heap c e)) = k"
    using assms by (rule lru_okE) blast
  have ent: "entries c = map (\<lambda>e. the (l_heap c e)) es" by (simp add: entries_def es(1))
  have keys: "distinct (map fst (entries c))" using es(2) by (simp add: ent comp_def)
  show ?thesis
  proof (cases "map_of (l_cache c) k")
    case None
    then have "\<forall>e \<in> set es. fst (the (l_heap c e)) \<noteq> k" using es(3) by (metis option.distinct(1))
    then have "k \<notin> fst ` set (entries c)" by (auto simp: ent)
    then have "map_of (entries c) k = None" by (simp add: map_of_eq_None_iff)
    then show ?thesis using None by simp
  next
    case (Some e)
    then have "e \<in> set es" "fst (the (l_heap c e)) = k" using es(3) by blast+
    then have "(k, snd (the (l_heap c e))) \<in> set (entries c)" by (auto simp: ent image_iff intro!: bexI [of _ e] prod_eqI)
    then show ?thesis using Some keys by (simp add: map_of_is_SomeI)
  qed
qed

lemma lru_hit:
  assumes "lru_ok n c" and "map_of (l_cache c) k = Some e"
  shows "\<exists>v. l_heap c e = Some (k, v) \<and> lru_ok n (c\<lparr>l_ll := MoveToFront e (l_ll c), l_heap := (l_heap c)(e \<mapsto> (k, w))\<rparr>)
    \<and> entries (c\<lparr>l_ll := MoveToFront e (l_ll c), l_heap := (l_heap c)(e \<mapsto> (k, w))\<rparr>) = (k, w) # without k (entries c)"
proof -
  obtain es where es: "l_ll c = Some es" "distinct es" "\<And>e. e \<in> set es \<Longrightarrow> e < l_next c" "\<And>e. e \<in> set es \<Longrightarrow> \<exists>k v. l_heap c e = Some (k, v)"
      "distinct (map (\<lambda>e. fst (the (l_heap c e))) es)" "l_MaxEntries c = int n" "n \<noteq> 0 \<Longrightarrow> length es \<le> n"
      "\<And>k e. map_of (l_cache c) k = Some e \<longleftrightarrow> e \<in> set es \<and> fst (the (l_heap c e)) = k"
    using assms(1) by (rule lru_okE) blast
  have e: "e \<in> set es" "fst (the (l_heap c e)) = k" using es(8) assms(2) by blast+
  then obtain v where v: "l_heap c e = Some (k, v)" using es(4) by fastforce
  let ?es = "e # remove1 e es" and ?h = "(l_heap c)(e \<mapsto> (k, w))"
  have "length (remove1 e es) = length es - 1" "0 < length es" using e(1) by (auto simp: length_remove1)
  then have set: "set ?es = set es" "distinct ?es" "length ?es = length es" using e(1) es(2) by auto
  have keys: "fst (the (?h x)) = fst (the (l_heap c x))" for x using e(2) by simp
  have inj: "inj_on (\<lambda>e. fst (the (l_heap c e))) (set es)" using es(5) by (simp add: distinct_map)
  have "distinct (map (\<lambda>x. fst (the (?h x))) ?es)"
    unfolding keys distinct_map using inj set by simp
  then have "lru_ok n (c\<lparr>l_ll := MoveToFront e (l_ll c), l_heap := ?h\<rparr>)"
    using es e set unfolding lru_ok_def MoveToFront_def by (auto simp: keys)
  moreover have "map (\<lambda>x. the (?h x)) (remove1 e es) = map (\<lambda>x. the (l_heap c x)) (remove1 e es)"
    using es(2) by (intro map_cong) auto
  moreover have "without k (entries c) = map (\<lambda>x. the (l_heap c x)) (remove1 e es)"
    using without_remove1 [OF inj es(2) e(1), of "\<lambda>x. the (l_heap c x)"] e(2) by (simp add: entries_def es(1))
  ultimately show ?thesis using v e(1) by (simp add: entries_def MoveToFront_def es(1))
qed

lemma lru_removed:
  assumes "lru_ok n c" and "l_ll c = Some es" and "e \<in> set es" and "l_heap c e = Some (k, v)"
  shows "\<exists>c1. removeElement e c = Some c1 \<and> lru_ok n c1 \<and> l_ll c1 = Some (remove1 e es) \<and> entries c1 = without k (entries c)"
proof -
  have es: "distinct es" "\<And>e. e \<in> set es \<Longrightarrow> e < l_next c" "\<And>e. e \<in> set es \<Longrightarrow> \<exists>k v. l_heap c e = Some (k, v)"
      "distinct (map (\<lambda>e. fst (the (l_heap c e))) es)" "l_MaxEntries c = int n" "n \<noteq> 0 \<Longrightarrow> length es \<le> n"
      "\<And>k e. map_of (l_cache c) k = Some e \<longleftrightarrow> e \<in> set es \<and> fst (the (l_heap c e)) = k"
    using assms(1,2) by (auto simp: lru_ok_def)
  let ?c = "c\<lparr>l_ll := Some (remove1 e es), l_cache := AList.delete k (l_cache c), l_evicted := l_evicted c @ (if l_OnEvicted c then [(k, v)] else [])\<rparr>"
  have inj: "inj_on (\<lambda>e. fst (the (l_heap c e))) (set es)" using es(4) by (simp add: distinct_map)
  have others: "fst (the (l_heap c e')) \<noteq> k" if "e' \<in> set es" "e' \<noteq> e" for e'
    using inj_onD [OF inj, of e' e] that assms(3,4) by auto
  have cache: "map_of (AList.delete k (l_cache c)) k' = Some e' \<longleftrightarrow> e' \<in> set (remove1 e es) \<and> fst (the (l_heap c e')) = k'" for k' e'
    using es(1,7) assms(3,4) others by (auto simp: delete_conv)
  have "inj_on (\<lambda>e. fst (the (l_heap c e))) (set (remove1 e es))" by (rule inj_on_subset [OF inj]) (rule set_remove1_subset)
  then have "distinct (map (\<lambda>e. fst (the (l_heap c e))) (remove1 e es))" using es(1) by (simp add: distinct_map)
  moreover have "length (remove1 e es) \<le> length es" by (simp add: length_remove1)
  ultimately have "lru_ok n ?c" using es cache by (auto simp: lru_ok_def dest: notin_set_remove1)
  moreover have "entries ?c = without k (entries c)"
    using without_remove1 [OF inj es(1) assms(3), of "\<lambda>x. the (l_heap c x)"] assms(2,4) by (simp add: entries_def)
  ultimately show ?thesis using assms(2,4) by (simp add: removeElement_def list_Remove_def)
qed

lemma lru_New_ok: "lru_ok n (lru_New b (int n)) \<and> entries (lru_New b (int n)) = []"
  by (simp add: lru_ok_def lru_New_def entries_def)

lemma lru_pushed:
  fixes v :: 'v and c :: "('k, 'v) lru"
  assumes "lru_ok n c" and "map_of (l_cache c) k = None" and "l_ll c = Some es"
  defines "c1 \<equiv> c\<lparr>l_ll := Some (l_next c # es), l_heap := (l_heap c)(l_next c \<mapsto> (k, v)), l_next := Suc (l_next c),
      l_cache := AList.update k (l_next c) (l_cache c)\<rparr>"
  shows "lru_ok 0 (c1\<lparr>l_MaxEntries := 0\<rparr>)" and "entries c1 = (k, v) # entries c" and "without k (entries c) = entries c"
proof -
  have es: "distinct es" "\<And>e. e \<in> set es \<Longrightarrow> e < l_next c" "\<And>e. e \<in> set es \<Longrightarrow> \<exists>k v. l_heap c e = Some (k, v)"
      "distinct (map (\<lambda>e. fst (the (l_heap c e))) es)"
      "\<And>k e. map_of (l_cache c) k = Some e \<longleftrightarrow> e \<in> set es \<and> fst (the (l_heap c e)) = k"
    using assms(1,3) by (auto simp: lru_ok_def)
  have fresh: "l_next c \<notin> set es" using es(2) by blast
  have absent: "fst (the (l_heap c e)) \<noteq> k" if "e \<in> set es" for e using es(5) assms(2) that by (metis option.distinct(1))
  let ?h = "(l_heap c)(l_next c \<mapsto> (k, v))"
  have old: "map (\<lambda>e. f (?h e)) es = map (\<lambda>e. f (l_heap c e)) es" for f :: "('k \<times> 'v) option \<Rightarrow> 'k"
    using fresh by (intro map_cong) auto
  have "distinct (map (\<lambda>e. fst (the (?h e))) (l_next c # es))"
  proof -
    have "map (\<lambda>e. fst (the (?h e))) (l_next c # es) = k # map (\<lambda>e. fst (the (l_heap c e))) es"
      using old [of "\<lambda>x. fst (the x)"] by simp
    moreover have "k \<notin> set (map (\<lambda>e. fst (the (l_heap c e))) es)" using absent by auto
    ultimately show ?thesis using es(4) by (simp only: distinct.simps simp_thms)
  qed
  then show "lru_ok 0 (c1\<lparr>l_MaxEntries := 0\<rparr>)"
    using es fresh absent unfolding lru_ok_def c1_def by (auto simp: less_Suc_eq)
  show "entries c1 = (k, v) # entries c" using fresh by (simp add: entries_def c1_def assms(3))
  show "without k (entries c) = entries c" 
  proof (rule without_absent)
    show "k \<notin> fst ` set (entries c)"
    proof
      assume "k \<in> fst ` set (entries c)"
      then obtain e where "e \<in> set es" "k = fst (the (l_heap c e))"
        by (auto simp only: entries_def assms(3) option.sel set_map)
      then show False using absent [of e] by simp
    qed
  qed
qed

text \<open>Adding keeps what it stands for; the oldest entry goes when there are too many.\<close>

lemma lru_Add_entries:
  assumes "lru_ok n c"
  shows "\<exists>c1. lru_Add k v c = Some c1 \<and> lru_ok n c1 \<and> entries c1 = cut n ((k, v) # without k (entries c))"
proof (cases "map_of (l_cache c) k")
  case (Some e)
  obtain w where w: "l_heap c e = Some (k, w)" using lru_hit [OF assms Some] by blast
  let ?c = "c\<lparr>l_ll := MoveToFront e (l_ll c), l_heap := (l_heap c)(e \<mapsto> (k, v))\<rparr>"
  have c: "lru_ok n ?c" "entries ?c = (k, v) # without k (entries c)" using lru_hit [OF assms Some, of v] by blast+
  have "cut n (entries ?c) = entries ?c" using c(1) by (auto simp: cut_def lru_ok_def entries_def)
  then show ?thesis using Some w c by (simp add: lru_Add_def)
next
  case None
  obtain es where es: "l_ll c = Some es" "n \<noteq> 0 \<Longrightarrow> length es \<le> n" "l_MaxEntries c = int n" using assms by (rule lru_okE) blast
  let ?c = "c\<lparr>l_ll := Some (l_next c # es), l_heap := (l_heap c)(l_next c \<mapsto> (k, v)), l_next := Suc (l_next c),
      l_cache := AList.update k (l_next c) (l_cache c)\<rparr>"
  note p = lru_pushed(1,2) [where v = v, OF assms None es(1)] lru_pushed(3) [OF assms None es(1)]
  have len: "length (entries ?c) = Suc (length es)" by (simp add: entries_def)
  show ?thesis
  proof (cases "n \<noteq> 0 \<and> int (Suc (length es)) > int n")
    case False
    then have "lru_ok n ?c" using p(1) es(3) by (auto simp: lru_ok_def)
    moreover have "cut n (entries ?c) = entries ?c" using False len by (auto simp: cut_def)
    moreover have "lru_Add k v c = Some ?c" using None False es by (auto simp: lru_Add_def Let_def)
    ultimately show ?thesis using p(2,3) by auto
  next
    case True
    then have full: "length es = n" using es(2) by simp
    let ?z = "?c\<lparr>l_MaxEntries := 0\<rparr>" and ?o = "last (l_next c # es)"
    have ll: "l_ll ?z = Some (l_next c # es)" by simp
    have mem: "?o \<in> set (l_next c # es)" by (rule last_in_set) simp
    obtain ok ov where o: "l_heap ?z ?o = Some (ok, ov)"
      using p(1) ll mem by (fastforce simp: lru_ok_def)
    obtain z1 where z1: "removeElement ?o ?z = Some z1" "lru_ok 0 z1" "l_ll z1 = Some (remove1 ?o (l_next c # es))"
        "entries z1 = without ok (entries ?z)"
      using lru_removed [OF p(1) ll mem o] by blast
    define c1 where "c1 = z1\<lparr>l_MaxEntries := int n\<rparr>"
    have "removeElement ?o ?c = Some c1"
      using z1(1) o es(3) by (auto simp: removeElement_def c1_def)
    then have add: "lru_Add k v c = Some c1" using None True es by (simp add: lru_Add_def Let_def RemoveOldest_def)
    have dist: "distinct (l_next c # es)" using p(1) by (simp add: lru_ok_def)
    have butl: "remove1 ?o (l_next c # es) = butlast (l_next c # es)"
    proof -
      have "l_next c # es = butlast (l_next c # es) @ [?o]" by simp
      moreover from this have "?o \<notin> set (butlast (l_next c # es))" using dist by (metis distinct_append disjoint_insert(1) list.simps(15))
      ultimately show ?thesis by (metis append_Nil2 remove1.simps(2) remove1_append)
    qed
    have "length (remove1 ?o (l_next c # es)) = n" unfolding butl unfolding length_butlast using full by simp
    then have ok: "lru_ok n c1" using z1(2,3) True by (auto simp: lru_ok_def c1_def)
    have "l_heap z1 = l_heap ?c" using z1(1) o by (auto simp: removeElement_def)
    then have "entries c1 = map (\<lambda>e. the (l_heap ?c e)) (butlast (l_next c # es))"
      using z1(3) butl by (simp add: entries_def c1_def)
    also have "\<dots> = butlast (entries ?c)" by (simp only: entries_def map_butlast [symmetric]) simp
    also have "\<dots> = take n (entries ?c)" using len full by (simp add: butlast_conv_take)
    finally have "entries c1 = cut n ((k, v) # without k (entries c))" using True p(2,3) by (simp add: cut_def)
    then show ?thesis using add ok by blast
  qed
qed

lemma lru_op_refines:
  assumes "lru_ok n c"
  shows "\<exists>r c1. lru_op p c = Some (r, c1) \<and> lru_ok n c1 \<and> spec_op n p (entries c) = (r, entries c1)"
proof (cases p)
  case (Add_op k v)
  then show ?thesis using lru_Add_entries [OF assms, of k v] by auto
next
  case (Get_op k)
  show ?thesis
  proof (cases "map_of (l_cache c) k")
    case None
    then show ?thesis using Get_op assms entries_lookup [OF assms, of k] by (simp add: lru_Get_def)
  next
    case (Some e)
    then obtain v where v: "l_heap c e = Some (k, v)" using lru_hit [OF assms] by blast
    have "(l_heap c)(e \<mapsto> (k, v)) = l_heap c" using v by auto
    then have same: "c\<lparr>l_ll := MoveToFront e (l_ll c), l_heap := (l_heap c)(e \<mapsto> (k, v))\<rparr> = c\<lparr>l_ll := MoveToFront e (l_ll c)\<rparr>" by simp
    then have "lru_ok n (c\<lparr>l_ll := MoveToFront e (l_ll c)\<rparr>)" "entries (c\<lparr>l_ll := MoveToFront e (l_ll c)\<rparr>) = (k, v) # without k (entries c)"
      using lru_hit [OF assms Some, of v] by metis+
    moreover have "map_of (entries c) k = Some v" using entries_lookup [OF assms, of k] Some v by simp
    ultimately show ?thesis using Get_op Some v by (simp add: lru_Get_def)
  qed
next
  case (Remove_op k)
  obtain es where es: "l_ll c = Some es" "\<And>k e. map_of (l_cache c) k = Some e \<longleftrightarrow> e \<in> set es \<and> fst (the (l_heap c e)) = k"
    using assms by (rule lru_okE) blast
  show ?thesis
  proof (cases "map_of (l_cache c) k")
    case None
    then have "k \<notin> fst ` set (entries c)" using es by (auto simp: entries_def) (metis option.distinct(1))
    then show ?thesis using Remove_op None assms by (simp add: lru_Remove_def without_absent)
  next
    case (Some e)
    then obtain v where "l_heap c e = Some (k, v)" using lru_hit [OF assms] by blast
    moreover have "e \<in> set es" using Some es(2) by blast
    ultimately obtain c1 where "removeElement e c = Some c1" "lru_ok n c1" "entries c1 = without k (entries c)"
      using lru_removed [OF assms es(1), of e k v] by blast
    then show ?thesis using Remove_op Some by (simp add: lru_Remove_def)
  qed
qed

lemma lru_run_refines:
  "lru_ok n c \<Longrightarrow> \<exists>c1. lru_run ps c = Some (fst (spec_run n ps (entries c)), c1) \<and> lru_ok n c1 \<and> entries c1 = snd (spec_run n ps (entries c))"
proof (induction ps arbitrary: c)
  case (Cons p ps)
  obtain r c1 where "lru_op p c = Some (r, c1)" "lru_ok n c1" "spec_op n p (entries c) = (r, entries c1)"
    using lru_op_refines [OF Cons.prems] by blast
  then show ?case using Cons.IH [of c1] by (auto simp: case_prod_beta)
qed auto

text \<open>C39: Whatever is added, asked for and removed, the cache with its pointers answers as a list of
  entries does in which every use moves the entry to the front and the last one falls off when there are
  too many; it never panics.\<close>

theorem cache_is_recency_list:
  "\<exists>c. lru_run ps (lru_New evict (int n)) = Some (fst (spec_run n ps []), c) \<and> entries c = snd (spec_run n ps [])"
  using lru_run_refines [of n "lru_New evict (int n)" ps] lru_New_ok [of n evict] by metis

text \<open>Clearing takes the list away but not the map: what was cached is still answered, and the next new
  key is a panic.\<close>

lemma cleared_cache_answers: "lru_Get k (lru_Clear c) = map_option (\<lambda>(r, c1). (r, (lru_Clear c))) (lru_Get k c)"
  by (auto simp: lru_Get_def lru_Clear_def MoveToFront_def option.map_comp comp_def split: option.split)

lemma cleared_cache_panics: "map_of (l_cache c) k = None \<Longrightarrow> lru_Add k v (lru_Clear c) = None"
  by (simp add: lru_Add_def lru_Clear_def)

end
