(* ===== verification/Spec2Isabelle.thy ===== *)
theory Spec2Isabelle
  imports Device_Properties Client_Properties Hwid Tun_Config Gui_Properties Admin_Properties
    Nps_Properties Nps_Listings Mux_Window_Properties Nps_Bridge_Properties
    Health_Check Client_Hello Lru_Cache
begin

text \<open>
  \<^bold>\<open>Sulink-Lan\<close> is a virtual local network: a server (\<^verbatim>\<open>cmd/server\<close>, \<^verbatim>\<open>internal/server\<close>) gives
  its clients (\<^verbatim>\<open>cmd/client\<close>, \<^verbatim>\<open>internal/client\<close>, and with a window \<^verbatim>\<open>internal/gui\<close>) names and
  virtual addresses, tells them of each other, and relays their packets where they cannot reach each
  other directly. Next to it runs a tunnel server (\<^verbatim>\<open>nps-master\<close>), which makes ports of its clients'
  networks reachable; the management page (\<^verbatim>\<open>internal/admin\<close>) drives both. All paths are those under
  \<^verbatim>\<open>src/\<close>.

  \<^bold>\<open>How the code is modelled.\<close> A struct is a record, an enumeration a datatype, a machine integer a
  word (\<^verbatim>\<open>int\<close> an integer, where it cannot overflow in what the code does with it), a string a list of
  characters each of which is a byte. Operations are functions that take and return the state; errors
  are values of a sum or option type, and a panic (an index out of range, a nil pointer) is a \<open>None\<close> of
  its own. A Go map or \<^verbatim>\<open>sync.Map\<close> whose order matters is an association list in the order in which
  it is visited, over which the theorems quantify; another one is a function or a list looked up by key.
  Objects shared through pointers have addresses in a heap (devices of the server, clients of the tunnel
  server). What runs under a mutex, or is a compare-and-swap loop, is one step; goroutines interleave as
  steps of a relation. The clock, random bytes, the outcome of system calls and the platform's answers
  are arguments; the standard library's JSON, hex, base64, numbers, addresses, SHA-256, HMAC, AES and GCM
  are written out, because the properties depend on them.

  \<^bold>\<open>Shared theories.\<close> \<open>Prelude\<close>: byte buffers with Go's checked slicing, big-endian access,
  association lists, and the locales \<open>codec\<close> (what is encoded is decoded to itself) and
  \<open>stream_codec\<close> (items are read off a stream one by one, a sublocale of \<open>codec\<close>). \<open>Go_Strings\<close>,
  \<open>Go_Conv\<close>, \<open>Go_Net\<close>, \<open>Go_Json\<close>, \<open>Go_Json_Value\<close>, \<open>Go_Json_Indent\<close>, \<open>Go_Crypto\<close>,
  \<open>Checksum\<close>, \<open>Udp_Addr\<close>, \<open>Wire_Size\<close>: the part of the standard library the code uses, with round
  trips; the locale \<open>aead\<close> is interpreted on AES-256-GCM.

  \<^bold>\<open>Virtual network, both ends.\<close>
  \<^item> \<open>Protocol\<close>, \<open>Protocol_Json\<close>: \<^verbatim>\<open>internal/protocol/msg.go\<close>, messages, their JSON form and
    frames; a stream of messages is read back as it was written (\<open>frames\<close> interprets
    \<open>stream_codec\<close>).
  \<^item> \<open>Packet\<close>, \<open>Credential\<close>: \<^verbatim>\<open>packet.go\<close> and \<^verbatim>\<open>register.go\<close>, encrypted packets, device
    credentials and answers to the challenge.
  \<^item> \<open>Forward\<close>, \<open>Settings\<close>: rules of port forwarding and the settings the server pushes.

  \<^bold>\<open>Server.\<close>
  \<^item> \<open>IPPool\<close> (\<^verbatim>\<open>ipalloc.go\<close>; locale \<open>addr_pool\<close>, interpreted on the code's pool), \<open>DeviceTable\<close>,
    \<open>Leases\<close>, \<open>Persistence\<close> (\<^verbatim>\<open>devices.go\<close>), \<open>Store\<close> (\<^verbatim>\<open>store.go\<close>; \<open>file_codec\<close>): addresses,
    leases and credentials of the devices, and the files that keep them. \<open>Device_Properties\<close> has the
    transition system of the table and its pool: what its invariant gives, and where a restart breaks it.
  \<^item> \<open>Server\<close>, \<open>Relay\<close>, \<open>Icmp\<close>, \<open>Server_Control\<close> (\<^verbatim>\<open>server.go\<close>, \<^verbatim>\<open>icmp.go\<close>,
    \<^verbatim>\<open>control.go\<close>): connections, registration, admission, signalling, the relay, echo replies,
    management operations. \<open>Sessions\<close> lets all of them interleave; \<open>Server_Properties\<close> and
    \<open>Relay_Properties\<close> are about the states that are reached: unique names and addresses, exact
    admission, lock-out of revoked devices, queues that are first-in-first-out, a relay that neither panics
    nor serves strangers.
  \<^item> \<open>Admin\<close>, \<open>Admin_Properties\<close> (\<^verbatim>\<open>internal/admin/admin.go\<close>): every route and handler; the locale
    \<open>management\<close> states what they need of the server and is interpreted on it.

  \<^bold>\<open>Client.\<close>
  \<^item> \<open>Client\<close>, \<open>Client_Session\<close>, \<open>Client_Run\<close> (\<^verbatim>\<open>client.go\<close>, \<^verbatim>\<open>push.go\<close>): peers, hole
    punching, registration, admission and the four loops, a round at a time; \<open>Client_Properties\<close> joins
    client and server: registration over the bytes they exchange, a packet from one virtual interface to
    another, pushed settings.
  \<^item> \<open>Conntrack\<close> (\<^verbatim>\<open>nat.go\<close>): address translation, its answers and its cleaner.
  \<^item> \<open>Tun_Config\<close>, \<open>Hwid\<close>, \<open>Client_Settings\<close>, \<open>Gui_App\<close>, \<open>Gui_Properties\<close>: configuration of the
    interface, the device identifier, saved settings, the graphical client and its invariant.

  \<^bold>\<open>Tunnel server.\<close>
  \<^item> \<open>Nps_Util\<close>, \<open>Nps_Objects\<close>, \<open>Nps_Json\<close>, \<open>Nps_Sort\<close>, \<open>Nps_Db\<close> (\<^verbatim>\<open>lib/common/util.go\<close>,
    \<^verbatim>\<open>lib/file\<close>): clients, tunnels, hosts, their files and listings; the locale \<open>weak_order\<close> carries
    the sorting proofs and is interpreted on the columns of each listing. \<open>Nps_Server\<close>
    (\<^verbatim>\<open>server/server.go\<close>): starting and stopping tunnels. \<open>Nps_Admin\<close>
    (\<^verbatim>\<open>internal/admin/nps.go\<close>): its pages. \<open>Nps_Db_Properties\<close>, \<open>Nps_Properties\<close>,
    \<open>Nps_Listings\<close>: keys stay unique, what survives a restart, listings, limits of connections.
  \<^item> \<open>Nps_Conn\<close>, \<open>Nps_Bridge\<close>, \<open>Nps_Bridge_Properties\<close> (\<^verbatim>\<open>lib/conn/conn.go\<close>,
    \<^verbatim>\<open>bridge/bridge.go\<close>): the handshake of a tunnel client, the table of its connections, health
    reports, visitors, submitted configurations. \<open>Health_Check\<close> (\<^verbatim>\<open>client/health.go\<close>) is the other end
    of the health reports: client and bridge agree on which targets work.
  \<^item> \<open>Client_Hello\<close> (\<^verbatim>\<open>lib/crypt/clientHello.go\<close>): the host name in a visitor's TLS hello, read without
    a panic whatever is sent, and read back from a hello that carries it. \<open>Lru_Cache\<close>
    (\<^verbatim>\<open>lib/cache/lru.go\<close>): a cache of pointers that refines a list of entries.
  \<^item> \<open>Mux_Packet\<close>, \<open>Mux_Queue\<close>, \<open>Mux_Window\<close>, \<open>Mux_Window_Properties\<close> (\<^verbatim>\<open>lib/nps_mux\<close>): many
    connections over one. The locales \<open>bounded_fifo\<close> and \<open>fifo\<close> are interpreted on the ring buffer and
    the chain of ring buffers, and the queue of packets is shown to be three lists. One direction of a
    connection is a step relation: the bytes read are those sent, in order, never more than a window of
    them under way, and a sender that waits is let go.

  \<^bold>\<open>Bounds and fuel.\<close> A loop that ends on its input is a recursive function with a measure. Where fuel is
  used, it is enough: the search for a free name takes one try more than there are names in use; the JSON
  parser gets twice the length of its text; \<open>web_start\<close> counts the depth to which starting the
  tunnels starts them again, and one theorem says that no depth is enough when a tunnel of mode webServer
  is among them. \<open>draw_key\<close> ends with the keys its generator is given. The sizes a receiver chooses for
  its window are computed from measured bandwidth and latency; they are assumed to lie between 1 and a
  bound \<open>M\<close> below \<open>2^31\<close>, which the code does not check (a limit of 0 would stop a connection).

  \<^bold>\<open>Behaviour that is not meant.\<close> Some theorems state what the code does and should not do: a restarted
  server can give one address to two devices; deleting a tunnel client on the management page leaves its
  tunnels to the next client; a configuration can replace a foreign client; a client that reconnects is
  removed when its old connection ends. The texts before them say so.

  \<^bold>\<open>Not modelled.\<close> Sockets, listeners, timers and the copying of streams (\<^verbatim>\<open>server/proxy\<close>,
  \<^verbatim>\<open>lib/pmux\<close>, \<^verbatim>\<open>lib/goroutine\<close>, the rest of \<^verbatim>\<open>client\<close>), which are calls of the operating system with no
  decisions of their own beyond those modelled; the web panel of the tunnel server, whose framework is not
  part of the repository; TLS itself; floating-point measurement of bandwidth and
  latency; the window toolkit, the Windows API and the embedded driver (\<^verbatim>\<open>internal/webview\<close>); flags,
  prompts and service installation. Failing writes are not modelled where the code ignores them, and a
  data race is not: operations on shared tables are atomic.
\<close>

end
